(* ===== verification/Prelude.thy ===== *)
theory Prelude
  imports Main "HOL-Library.AList" "HOL-Library.Word" "HOL-Library.Sublist" "HOL-Library.Multiset"
begin

section \<open>Shared vocabulary: errors, JavaScript strings, ordered maps\<close>

text \<open>
  The vocabulary every component of the development shares.

  Errors: a raise of the source is a value of \<open>js_error\<close>, and a fallible operation returns
  \<open>js_error + 'a\<close> with \<open>Inl\<close> for the throw; \<open>rbind\<close> is the sequencing of two statements of
  which the first may throw, \<open>map_result\<close> is \<open>Array.prototype.map\<close> with a callback that may throw.

  Strings: a JavaScript string is a sequence of code units; the model is the list of those
  units, restricted to units below 256 (type \<open>string\<close>), so \<open>length\<close> is \<open>.length\<close> and
  \<open>xs ! i\<close> is indexing. The functions are those of \<open>String.prototype\<close> the code calls:
  \<open>split\<close>, \<open>join\<close>, \<open>trim\<close>, \<open>toLowerCase\<close>, \<open>toUpperCase\<close>, \<open>replaceAll\<close>, \<open>includes\<close>,
  \<open>indexOf\<close>, and \<open>String(n)\<close> on integers.

  Maps: a JavaScript \<open>Map\<close> iterates in insertion order and \<open>set\<close> on a present key keeps the
  key's place; that is \<open>AList.update\<close>, and \<open>delete\<close> is \<open>AList.delete\<close>.
\<close>

named_theorems result_simps \<open>unfolding of fallible computations\<close>
named_theorems string_simps \<open>facts on JavaScript strings\<close>

subsection \<open>Errors\<close>

datatype js_error =
    TypeError string
  | RangeError string
  | PlainError string
  | UnsupportedFeature string string
  | UnsupportedWith string string string
  | ValidationError string

fun rbind :: "'e + 'a \<Rightarrow> ('a \<Rightarrow> 'e + 'b) \<Rightarrow> 'e + 'b" where
  "rbind (Inl e) f = Inl e"
| "rbind (Inr x) f = f x"

lemma rbind_cong [fundef_cong]:
  "m = m' \<Longrightarrow> (\<And>x. m' = Inr x \<Longrightarrow> f x = f' x) \<Longrightarrow> rbind m f = rbind m' f'"
  by (cases m') auto

lemma rbind_Inr_iff [result_simps]:
  "rbind m f = Inr y \<longleftrightarrow> (\<exists>x. m = Inr x \<and> f x = Inr y)"
  by (cases m) auto

lemma rbind_Inl_iff [result_simps]:
  "rbind m f = Inl e \<longleftrightarrow> m = Inl e \<or> (\<exists>x. m = Inr x \<and> f x = Inl e)"
  by (cases m) auto

fun map_result :: "('a \<Rightarrow> 'e + 'b) \<Rightarrow> 'a list \<Rightarrow> 'e + 'b list" where
  "map_result f [] = Inr []"
| "map_result f (x # xs) =
     rbind (f x) (\<lambda>y. rbind (map_result f xs) (\<lambda>ys. Inr (y # ys)))"

lemma map_result_cong [fundef_cong]:
  "xs = ys \<Longrightarrow> (\<And>x. x \<in> set ys \<Longrightarrow> f x = g x) \<Longrightarrow> map_result f xs = map_result g ys"
  by (induction ys arbitrary: xs) auto

lemma map_result_Inr_list:
  "map_result f xs = Inr ys \<longleftrightarrow> list_all2 (\<lambda>x y. f x = Inr y) xs ys"
  by (induction xs arbitrary: ys) (auto simp: list_all2_Cons1 result_simps)

lemma map_result_length: "map_result f xs = Inr ys \<Longrightarrow> length ys = length xs"
  by (metis list_all2_lengthD map_result_Inr_list)

lemma map_result_pure [simp]: "map_result (\<lambda>x. Inr (f x)) xs = Inr (map f xs)"
  by (induction xs) auto

text \<open>\<open>v ?? d\<close>.\<close>

definition opt_default :: "'a \<Rightarrow> 'a option \<Rightarrow> 'a" where
  "opt_default d v = (case v of None \<Rightarrow> d | Some x \<Rightarrow> x)"

lemma opt_default_simps [simp]: "opt_default d None = d" "opt_default d (Some x) = x"
  by (simp_all add: opt_default_def)

subsection \<open>Characters\<close>

definition is_digit :: "char \<Rightarrow> bool" where
  "is_digit c \<longleftrightarrow> 48 \<le> (of_char c :: nat) \<and> (of_char c :: nat) \<le> 57"

definition digit_val :: "char \<Rightarrow> nat" where
  "digit_val c = of_char c - 48"

definition digit_char :: "nat \<Rightarrow> char" where
  "digit_char n = char_of (48 + n)"

text \<open>\<open>\s\<close> of a regular expression and the characters \<open>trim\<close> removes, below 256.\<close>

definition is_ws :: "char \<Rightarrow> bool" where
  "is_ws c \<longleftrightarrow> (of_char c :: nat) \<in> {9, 10, 11, 12, 13, 32, 160}"

definition lower_char :: "char \<Rightarrow> char" where
  "lower_char c = (let n = (of_char c :: nat) in
     if (65 \<le> n \<and> n \<le> 90) \<or> (192 \<le> n \<and> n \<le> 222 \<and> n \<noteq> 215) then char_of (n + 32) else c)"

definition to_lower :: "string \<Rightarrow> string" where
  "to_lower s = map lower_char s"

text \<open>
  \<open>toUpperCase\<close>: the one Latin-1 letter with a two-letter image (223) is written out; 181 and 255,
  whose images lie above 255, are left alone.
\<close>

definition upper_char :: "char \<Rightarrow> string" where
  "upper_char c = (let n = (of_char c :: nat) in
     if (97 \<le> n \<and> n \<le> 122) \<or> (224 \<le> n \<and> n \<le> 254 \<and> n \<noteq> 247) then [char_of (n - 32)]
     else if n = 223 then ''SS'' else [c])"

definition to_upper :: "string \<Rightarrow> string" where
  "to_upper s = concat (map upper_char s)"

lemma of_char_digit_char: "n < 10 \<Longrightarrow> of_char (digit_char n) = 48 + n"
  by (simp add: digit_char_def)

lemma is_digit_digit_char [simp]: "n < 10 \<Longrightarrow> is_digit (digit_char n)"
  by (simp add: is_digit_def of_char_digit_char)

lemma digit_val_digit_char [simp]: "n < 10 \<Longrightarrow> digit_val (digit_char n) = n"
  by (simp add: digit_val_def of_char_digit_char)

lemma digit_val_bound: "is_digit c \<Longrightarrow> digit_val c < 10"
  unfolding is_digit_def digit_val_def by linarith

lemma digit_char_digit_val: "is_digit c \<Longrightarrow> digit_char (digit_val c) = c"
  by (simp add: is_digit_def digit_val_def digit_char_def)

subsection \<open>Decimal integers\<close>

fun show_nat :: "nat \<Rightarrow> string" where
  "show_nat n = (if n < 10 then [digit_char n] else show_nat (n div 10) @ [digit_char (n mod 10)])"

declare show_nat.simps [simp del]

definition show_int :: "int \<Rightarrow> string" where
  "show_int i = (if i < 0 then ''-'' @ show_nat (nat (- i)) else show_nat (nat i))"

text \<open>\<open>Number.parseInt(s, 10)\<close> on a string of decimal digits.\<close>

definition parse_digits :: "string \<Rightarrow> nat" where
  "parse_digits s = foldl (\<lambda>a c. 10 * a + digit_val c) 0 s"

lemma show_nat_ne [simp]: "show_nat n \<noteq> []"
  by (subst show_nat.simps) simp

lemma show_nat_digits: "c \<in> set (show_nat n) \<Longrightarrow> is_digit c"
proof (induction n rule: show_nat.induct)
  case (1 n)
  then show ?case
    by (cases "n < 10") (auto simp: show_nat.simps [of n])
qed

lemma parse_show_nat [simp]: "parse_digits (show_nat n) = n"
proof (induction n rule: show_nat.induct)
  case (1 n)
  then show ?case
    by (cases "n < 10") (auto simp: show_nat.simps [of n] parse_digits_def)
qed

lemma show_nat_inj [simp]: "show_nat m = show_nat n \<longleftrightarrow> m = n"
  by (metis parse_show_nat)

lemma hd_show_nat_digit: "is_digit (hd (show_nat n))"
  by (rule show_nat_digits [where n = n]) simp

subsection \<open>Splitting and joining\<close>

fun split_on :: "char \<Rightarrow> string \<Rightarrow> string list" where
  "split_on c [] = [[]]"
| "split_on c (x # xs) =
     (if x = c then [] # split_on c xs
      else (case split_on c xs of [] \<Rightarrow> [[x]] | y # ys \<Rightarrow> (x # y) # ys))"

fun join :: "string \<Rightarrow> string list \<Rightarrow> string" where
  "join sep [] = []"
| "join sep [x] = x"
| "join sep (x # y # ys) = x @ sep @ join sep (y # ys)"

lemma split_on_ne [simp]: "split_on c s \<noteq> []"
  by (induction s) (auto split: list.splits)

lemma join_Cons: "ys \<noteq> [] \<Longrightarrow> join sep (x # ys) = x @ sep @ join sep ys"
  by (cases ys) auto

lemma join_split_on: "join [c] (split_on c s) = s"
proof (induction s)
  case Nil
  then show ?case by simp
next
  case (Cons x s)
  obtain y ys where s: "split_on c s = y # ys"
    by (cases "split_on c s") auto
  with Cons.IH show ?case
    by (cases ys) (auto simp: s)
qed

lemma split_on_no_sep: "c \<notin> set s \<Longrightarrow> split_on c s = [s]"
  by (induction s) auto

lemma split_on_append_sep:
  "c \<notin> set a \<Longrightarrow> split_on c (a @ c # b) = a # split_on c b"
  by (induction a) auto

lemma split_on_join:
  "ps \<noteq> [] \<Longrightarrow> \<forall>p \<in> set ps. c \<notin> set p \<Longrightarrow> split_on c (join [c] ps) = ps"
proof (induction ps)
  case Nil
  then show ?case by simp
next
  case (Cons p ps)
  then show ?case
    by (cases ps) (auto simp: split_on_no_sep split_on_append_sep)
qed

lemma split_on_parts: "p \<in> set (split_on c s) \<Longrightarrow> c \<notin> set p"
proof (induction s arbitrary: p)
  case Nil
  then show ?case by simp
next
  case (Cons x s)
  then show ?case
    by (cases "split_on c s") (auto split: if_splits)
qed

subsection \<open>Trimming, searching, replacing\<close>

definition trim :: "string \<Rightarrow> string" where
  "trim s = rev (dropWhile is_ws (rev (dropWhile is_ws s)))"

definition includes_char :: "char \<Rightarrow> string \<Rightarrow> bool" where
  "includes_char c s \<longleftrightarrow> c \<in> set s"

text \<open>\<open>s.indexOf(pat, from)\<close>, \<open>None\<close> for \<open>-1\<close>.\<close>

fun index_from :: "string \<Rightarrow> string \<Rightarrow> nat \<Rightarrow> nat option" where
  "index_from pat [] 0 = (if pat = [] then Some 0 else None)"
| "index_from pat (c # cs) 0 =
     (if prefix pat (c # cs) then Some 0 else map_option Suc (index_from pat cs 0))"
| "index_from pat [] (Suc k) = None"
| "index_from pat (_ # cs) (Suc k) = map_option Suc (index_from pat cs k)"

text \<open>\<open>s.lastIndexOf(c)\<close> for one character, \<open>None\<close> for \<open>-1\<close>.\<close>

fun last_index :: "char \<Rightarrow> string \<Rightarrow> nat option" where
  "last_index c [] = None"
| "last_index c (x # xs) =
     (case last_index c xs of Some i \<Rightarrow> Some (Suc i) | None \<Rightarrow> if x = c then Some 0 else None)"

text \<open>\<open>s.replaceAll(pat, rep)\<close> for a non-empty pattern: leftmost, non-overlapping.\<close>

function replace_all :: "string \<Rightarrow> string \<Rightarrow> string \<Rightarrow> string" where
  "replace_all pat rep [] = []"
| "replace_all pat rep (c # cs) =
     (if pat \<noteq> [] \<and> prefix pat (c # cs)
      then rep @ replace_all pat rep (drop (length pat) (c # cs))
      else c # replace_all pat rep cs)"
  by pat_completeness auto
termination
  by (relation "measure (\<lambda>(pat, rep, s). length s)") auto

text \<open>\<open>JSON.stringify\<close> of a string.\<close>

definition hex_digit :: "nat \<Rightarrow> char" where
  "hex_digit n = (if n < 10 then digit_char n else char_of (87 + n))"

definition json_char :: "char \<Rightarrow> string" where
  "json_char c = (let n = (of_char c :: nat); bs = CHR 0x5C in
     if c = CHR 0x22 \<or> c = bs then [bs, c]
     else if n = 8 then bs # ''b'' else if n = 9 then bs # ''t'' else if n = 10 then bs # ''n''
     else if n = 12 then bs # ''f'' else if n = 13 then bs # ''r''
     else if n < 32 then bs # ''u00'' @ [hex_digit (n div 16), hex_digit (n mod 16)]
     else [c])"

definition json_string :: "string \<Rightarrow> string" where
  "json_string s = CHR 0x22 # concat (map json_char s) @ [CHR 0x22]"

text \<open>A name between double quotes, as the messages write it.\<close>

definition dq_quoted :: "string \<Rightarrow> string" where
  "dq_quoted s = CHR 0x22 # s @ [CHR 0x22]"

text \<open>The maximal runs of non-space characters, what \<open>\S+\<close> reads between \<open>\s+\<close>.\<close>

fun split_when :: "(char \<Rightarrow> bool) \<Rightarrow> string \<Rightarrow> string list" where
  "split_when P [] = [[]]"
| "split_when P (x # xs) =
     (if P x then [] # split_when P xs
      else (case split_when P xs of [] \<Rightarrow> [[x]] | y # ys \<Rightarrow> (x # y) # ys))"

definition words_of :: "string \<Rightarrow> string list" where
  "words_of s = filter (\<lambda>w. w \<noteq> []) (split_when is_ws s)"

lemma split_when_none: "\<forall>c \<in> set w. \<not> P c \<Longrightarrow> split_when P w = [w]"
  by (induction w) auto

lemma split_when_append:
  "\<forall>c \<in> set w. \<not> P c \<Longrightarrow> P e \<Longrightarrow> split_when P (w @ e # r) = w # split_when P r"
  by (induction w) auto

lemma words_of_single: "w \<noteq> [] \<Longrightarrow> \<forall>c \<in> set w. \<not> is_ws c \<Longrightarrow> words_of w = [w]"
  by (simp add: words_of_def split_when_none)

lemma words_of_append:
  "w \<noteq> [] \<Longrightarrow> \<forall>c \<in> set w. \<not> is_ws c \<Longrightarrow> is_ws e \<Longrightarrow> words_of (w @ e # r) = w # words_of r"
  by (simp add: words_of_def split_when_append)

lemma replace_all_char:
  "replace_all [q] rep s = concat (map (\<lambda>c. if c = q then rep else [c]) s)"
  by (induction s) (auto simp: prefix_def)

lemma last_index_bound: "last_index c s = Some i \<Longrightarrow> i < length s \<and> s ! i = c"
  by (induction s arbitrary: i) (auto split: option.splits if_splits)

lemma last_index_None: "last_index c s = None \<longleftrightarrow> c \<notin> set s"
  by (induction s) (auto split: option.splits)

subsection \<open>Insertion-ordered maps\<close>

lemma map_of_alist_update [simp]: "map_of (AList.update k v m) = (map_of m)(k \<mapsto> v)"
  by (rule AList.update_conv')

lemma map_of_alist_delete [simp]: "map_of (AList.delete k m) = (map_of m)(k := None)"
  by (rule AList.delete_conv')

lemma length_alist_update:
  "length (AList.update k v m) = (if k \<in> fst ` set m then length m else Suc (length m))"
  by (induction m) auto

lemma set_alist_delete: "set (AList.delete k m) = {p \<in> set m. fst p \<noteq> k}"
  by (auto simp: AList.delete_eq)

lemma keys_delete: "map fst (AList.delete k m) = removeAll k (map fst m)"
  by (induction m) auto

text \<open>Updating a present key by an entry that looks the same through \<open>f\<close> changes nothing there.\<close>

lemma map_alist_update_same:
  "map_of m k = Some v \<Longrightarrow> f (k, v') = f (k, v) \<Longrightarrow> map f (AList.update k v' m) = map f m"
  by (induction m) auto

lemma map_alist_delete:
  "map (\<lambda>(k, v). (k, g v)) (AList.delete k m) = AList.delete k (map (\<lambda>(k, v). (k, g v)) m)"
  by (induction m) auto

lemma delete_absent: "map_of m k = None \<Longrightarrow> AList.delete k m = m"
  by (induction m) (auto split: if_splits)

text \<open>\<open>new Map(entries)\<close>: a later entry replaces the value of an earlier one with the same key.\<close>

definition new_map :: "('k \<times> 'v) list \<Rightarrow> ('k \<times> 'v) list" where
  "new_map ps = foldl (\<lambda>m p. AList.update (fst p) (snd p) m) [] ps"

lemma update_new: "map_of m k = None \<Longrightarrow> AList.update k v m = m @ [(k, v)]"
  by (induction m) (auto split: if_splits)

lemma foldl_update_new:
  "distinct (map fst (m @ ps)) \<Longrightarrow> foldl (\<lambda>m p. AList.update (fst p) (snd p) m) m ps = m @ ps"
proof (induction ps arbitrary: m)
  case (Cons p ps)
  then have "map_of m (fst p) = None" by (auto simp: map_of_eq_None_iff)
  with Cons.IH [of "m @ [p]"] Cons.prems show ?case by (simp add: update_new)
qed simp

lemma new_map_distinct: "distinct (map fst ps) \<Longrightarrow> new_map ps = ps"
  using foldl_update_new [of "[]" ps] by (simp add: new_map_def)

lemma new_map_snoc: "new_map (ps @ [p]) = AList.update (fst p) (snd p) (new_map ps)"
  by (simp add: new_map_def)

lemma distinct_new_map: "distinct (map fst (new_map ps))"
  by (induction ps rule: rev_induct) (simp_all add: new_map_snoc distinct_update, simp add: new_map_def)

lemma keys_new_map: "fst ` set (new_map ps) = fst ` set ps"
  by (induction ps rule: rev_induct) (simp_all add: new_map_snoc dom_update, simp add: new_map_def)

lemma map_of_new_map: "map_of (new_map ps) = map_of (rev ps)"
  by (induction ps rule: rev_induct) (simp_all add: new_map_snoc fun_eq_iff, simp add: new_map_def)

subsection \<open>Sorting by a comparison\<close>

text \<open>
  \<open>toSorted\<close> is stable, and so is insertion from the right. \<open>le x y\<close> stands for a comparator result
  that is not positive. Nothing is assumed of the comparison for what holds of any permutation.
\<close>

fun insert_by :: "('a \<Rightarrow> 'a \<Rightarrow> bool) \<Rightarrow> 'a \<Rightarrow> 'a list \<Rightarrow> 'a list" where
  "insert_by le x [] = [x]"
| "insert_by le x (y # ys) = (if le x y then x # y # ys else y # insert_by le x ys)"

definition sort_by :: "('a \<Rightarrow> 'a \<Rightarrow> bool) \<Rightarrow> 'a list \<Rightarrow> 'a list" where
  "sort_by le xs = foldr (insert_by le) xs []"

lemma sort_by_simps [simp]:
  "sort_by le [] = []"
  "sort_by le (x # xs) = insert_by le x (sort_by le xs)"
  by (simp_all add: sort_by_def)

lemma mset_insert_by: "mset (insert_by le x xs) = add_mset x (mset xs)"
  by (induction xs) auto

lemma mset_sort_by [simp]: "mset (sort_by le xs) = mset xs"
  by (induction xs) (auto simp: mset_insert_by)

lemma set_sort_by [simp]: "set (sort_by le xs) = set xs"
  by (metis mset_sort_by set_mset_mset)

lemma length_sort_by [simp]: "length (sort_by le xs) = length xs"
  by (metis mset_sort_by size_mset)

lemma distinct_sort_by [simp]: "distinct (sort_by le xs) = distinct xs"
  by (metis mset_sort_by mset_eq_imp_distinct_iff)

lemma sort_by_empty [simp]: "sort_by le xs = [] \<longleftrightarrow> xs = []"
  by (metis length_0_conv length_sort_by)

lemma mset_map_sort_by [simp]: "mset (map f (sort_by le xs)) = mset (map f xs)"
  by (metis mset_sort_by mset_map)

lemma distinct_map_sort_by [simp]: "distinct (map f (sort_by le xs)) = distinct (map f xs)"
  by (metis mset_map_sort_by mset_eq_imp_distinct_iff)

lemma set_insert_by: "set (insert_by le x xs) = insert x (set xs)"
  by (metis mset_insert_by set_mset_add_mset_insert set_mset_mset)

lemma sorted_insert_by:
  assumes "transp_on A le" and "totalp_on A le" and "reflp_on A le" and "insert x (set xs) \<subseteq> A"
    and "sorted_wrt le xs"
  shows "sorted_wrt le (insert_by le x xs)"
  using assms(4,5)
proof (induction xs)
  case (Cons y ys)
  have le: "le x y \<or> le y x"
    using assms(2,3) Cons.prems(1) by (cases "x = y") (auto simp: totalp_on_def reflp_on_def)
  have trans: "le x z" if "le x y" "z \<in> set ys" for z
    using that Cons.prems transp_onD [OF assms(1), of x y z] by auto
  from Cons le trans show ?case by (auto simp: set_insert_by)
qed simp

lemma sorted_sort_by:
  "transp_on A le \<Longrightarrow> totalp_on A le \<Longrightarrow> reflp_on A le \<Longrightarrow> set xs \<subseteq> A \<Longrightarrow> sorted_wrt le (sort_by le xs)"
  by (induction xs) (auto intro!: sorted_insert_by)

text \<open>A linear comparison makes the sorted list depend on the elements only.\<close>

lemma sorted_unique:
  assumes "antisymp_on A le" and "mset xs = mset ys" and "set xs \<subseteq> A"
    and "sorted_wrt le xs" and "sorted_wrt le ys" and "reflp_on A le"
  shows "xs = ys"
  using assms(2-5)
proof (induction xs arbitrary: ys)
  case (Cons x xs)
  then obtain y zs where ys: "ys = y # zs" by (cases ys) auto
  have eq: "set ys = set (x # xs)" using Cons.prems(1) by (metis mset_eq_setD)
  then have in1: "x \<in> set ys" and in2: "y \<in> set (x # xs)" and sub: "set ys \<subseteq> A"
    using Cons.prems(2) ys by auto
  have "le x y" "le y x"
    using in1 in2 Cons.prems sub assms(6) by (auto simp: ys reflp_on_def)
  with assms(1) Cons.prems(2) sub ys have "x = y" by (auto dest: antisymp_onD)
  with Cons ys show ?case by auto
qed simp

lemma sort_by_permuted:
  assumes "transp_on (set xs) le" and "totalp_on (set xs) le" and "reflp_on (set xs) le"
    and "antisymp_on (set xs) le" and "mset xs = mset ys"
  shows "sort_by le xs = sort_by le ys"
proof -
  have "set ys = set xs" using assms(5) by (metis mset_eq_setD)
  with assms show ?thesis
    by (intro sorted_unique [of "set xs" le] sorted_sort_by [of "set xs"]) simp_all
qed

subsection \<open>JSON texts\<close>

lemma hex_digit_inj: "m < 16 \<Longrightarrow> n < 16 \<Longrightarrow> hex_digit m = hex_digit n \<longleftrightarrow> m = n"
  by (auto simp: hex_digit_def digit_char_def char_of_eq_iff take_bit_eq_mod split: if_splits)

lemma json_char_cases:
  "json_char c = [c] \<and> c \<noteq> CHR 0x22 \<and> c \<noteq> CHR 0x5C \<or>
   (\<exists>e. json_char c = [CHR 0x5C, e] \<and> e \<noteq> CHR ''u'' \<and>
     c = (if e = CHR ''b'' then char_of (8 :: nat) else if e = CHR ''t'' then char_of (9 :: nat)
          else if e = CHR ''n'' then char_of (10 :: nat) else if e = CHR ''f'' then char_of (12 :: nat)
          else if e = CHR ''r'' then char_of (13 :: nat) else e)) \<or>
   (\<exists>n. n < 32 \<and> c = char_of (n :: nat) \<and>
     json_char c = [CHR 0x5C, CHR ''u'', CHR ''0'', CHR ''0'', hex_digit (n div 16), hex_digit (n mod 16)])"
proof -
  have inv: "of_char c = n \<Longrightarrow> c = char_of n" for n :: nat by auto
  show ?thesis by (cases "(of_char c :: nat) < 32") (auto simp: json_char_def Let_def intro: inv)
qed

lemma json_char_code: "json_char c @ x = json_char d @ y \<Longrightarrow> c = d \<and> x = y"
proof -
  assume eq: "json_char c @ x = json_char d @ y"
  have hex: "m = n" if "m < 32" "n < 32" "hex_digit (m div 16) = hex_digit (n div 16)"
    "hex_digit (m mod 16) = hex_digit (n mod 16)" for m n :: nat
  proof -
    have "m div 16 < 16" "n div 16 < 16" using that by simp_all
    then have "m div 16 = n div 16" "m mod 16 = n mod 16" using that by (simp_all add: hex_digit_inj)
    then show ?thesis by (metis div_mult_mod_eq)
  qed
  from eq show ?thesis using json_char_cases [of c] json_char_cases [of d] hex by auto
qed

lemma json_char_no_quote: "json_char c @ x \<noteq> CHR 0x22 # y"
  using json_char_cases [of c] by auto

lemma json_string_code: "json_string s @ x = json_string t @ y \<longleftrightarrow> s = t \<and> x = y"
proof
  assume "json_string s @ x = json_string t @ y"
  then have "concat (map json_char s) @ CHR 0x22 # x = concat (map json_char t) @ CHR 0x22 # y"
    by (simp add: json_string_def)
  then show "s = t \<and> x = y"
  proof (induction s arbitrary: t)
    case Nil
    then show ?case
    proof (cases t)
      case (Cons d t')
      with Nil show ?thesis using json_char_no_quote [of d "concat (map json_char t') @ CHR 0x22 # y" x] by simp
    qed simp
  next
    case (Cons c s)
    then obtain d t' where t: "t = d # t'"
      using json_char_no_quote [of c "concat (map json_char s) @ CHR 0x22 # x" y] by (cases t) simp_all
    with Cons.prems have "json_char c @ (concat (map json_char s) @ CHR 0x22 # x) =
        json_char d @ (concat (map json_char t') @ CHR 0x22 # y)" by simp
    from json_char_code [OF this] Cons.IH t show ?case by simp
  qed
qed simp

text \<open>\<open>JSON.stringify\<close> of an array of strings.\<close>

definition json_strings :: "string list \<Rightarrow> string" where
  "json_strings xs = CHR ''['' # join '','' (map json_string xs) @ '']''"

lemma json_join_code:
  "join '','' (map json_string xs) @ CHR '']'' # x = join '','' (map json_string ys) @ CHR '']'' # y \<Longrightarrow>
     xs = ys \<and> x = y"
proof (induction xs arbitrary: ys)
  case Nil
  then show ?case
  proof (cases ys)
    case (Cons b bs)
    with Nil show ?thesis by (cases bs) (simp_all add: json_string_def)
  qed simp
next
  case (Cons a as)
  obtain b bs where ys: "ys = b # bs"
    using Cons.prems by (cases ys; cases as) (simp_all add: json_string_def)
  let ?tail = "\<lambda>zs r. (if zs = [] then CHR '']'' # r else CHR '','' # join '','' (map json_string zs) @ CHR '']'' # r)"
  have split: "join '','' (map json_string (z # zs)) @ CHR '']'' # r = json_string z @ ?tail zs r" for z zs r
    by (cases zs) simp_all
  from Cons.prems have eq: "a = b \<and> ?tail as x = ?tail bs y"
    unfolding ys split json_string_code by simp
  then show ?case using Cons.IH [of bs] by (cases as; cases bs) (auto simp: ys)
qed

lemma json_strings_code: "json_strings xs @ x = json_strings ys @ y \<longleftrightarrow> xs = ys \<and> x = y"
  using json_join_code [of xs x ys y] by (auto simp: json_strings_def)

end
