(* ===== verification/Dialect.thy ===== *)
theory Dialect
  imports Prelude
begin

section \<open>Database dialects\<close>

text \<open>
  The immutable dialect objects every SQL renderer reads (\<open>packages/sql/src/dialects\<close>): the
  traits record, the capabilities, the checks \<open>defineSqlDialect\<close> makes before it freezes a
  definition, and the field-by-field inheritance of \<open>extendSqlDialect\<close>. The dialect objects of
  the six database packages are given at the end.

  A dialect's migration and introspection objects are represented by the one field the modelled
  code reads, their name; the type maps and the retry codes are as the packages declare them.
\<close>

subsection \<open>Traits and capabilities\<close>

datatype placeholder_style = Numbered | Positional | Named

datatype returning_statement = StInsert | StUpsert | StUpdate | StDelete

datatype returning_style = RSuffix | ROutput | RNone

datatype upsert_style = OnConflict | OnDuplicateKey | Merge | UpsertNone

datatype fts_style = FtsTsvector | FtsMatch | FtsMatchPlain | FtsCompanionTable | FtsNone

datatype concat_style = ConcatOperator | ConcatFunction

datatype boolean_not_style = NotNot | NotBitwise

datatype dialect_sql_type =
    SqlSerial | SqlInteger | SqlBigint | SqlNumeric | SqlText | SqlVarchar | SqlBoolean
  | SqlTimestamp | SqlJson | SqlJsonEnum

record pagination_tail =
  pt_limit :: "int option"
  pt_offset :: "int option"
  pt_ordered :: bool

record dialect_traits =
  placeholder :: placeholder_style
  quote :: "string \<times> string"
  paginate :: "pagination_tail \<Rightarrow> js_error + string"
  paginationRequiresOrder :: bool
  rowValueIn :: bool
  returningTrait :: "returning_statement \<Rightarrow> returning_style"
  upsertStyle :: upsert_style
  fts :: fts_style
  concatStyle :: concat_style
  booleanNot :: boolean_not_style
  types :: "dialect_sql_type \<Rightarrow> string"
  paramLimit :: int
  retryableCodes :: "string list"
  acceptsOperator :: "string \<Rightarrow> bool"
  routineFunctions :: bool
  procedures :: bool
  tableFunctions :: bool
  vectorDistance :: bool
  spatialPredicates :: bool

record database_capabilities =
  returningCapability :: "returning_statement \<Rightarrow> bool"
  transactionalDdl :: bool
  schemas :: bool
  sequences :: bool
  generatedColumns :: bool
  partialIndexes :: bool
  foreignKeys :: bool
  rowLevelSecurity :: bool
  streaming :: bool
  cancellation :: bool

record dialect =
  d_name :: string
  d_family :: string
  d_telemetrySystem :: string
  traits :: dialect_traits
  capabilities :: database_capabilities
  migrations_name :: string
  introspector_name :: string

datatype dialect_feature =
    FMaterializedView | FRowLevelSecurity | FSequences | FSchemas | FPartialIndex
  | FGeneratedColumns | FTransactionalDdl | FForeignKeys

fun supportsFeature :: "'x dialect_scheme \<Rightarrow> dialect_feature \<Rightarrow> bool" where
  "supportsFeature d FRowLevelSecurity = rowLevelSecurity (capabilities d)"
| "supportsFeature d FSequences = sequences (capabilities d)"
| "supportsFeature d FSchemas = schemas (capabilities d)"
| "supportsFeature d FPartialIndex = partialIndexes (capabilities d)"
| "supportsFeature d FGeneratedColumns = generatedColumns (capabilities d)"
| "supportsFeature d FTransactionalDdl = transactionalDdl (capabilities d)"
| "supportsFeature d FForeignKeys = foreignKeys (capabilities d)"
| "supportsFeature d FMaterializedView = False"

definition requireDialectFeature ::
  "'x dialect_scheme \<Rightarrow> dialect_feature \<Rightarrow> string \<Rightarrow> js_error + unit" where
  "requireDialectFeature d feature errorFeature =
     (if supportsFeature d feature then Inr ()
      else Inl (UnsupportedFeature errorFeature (d_name d)))"

definition dialectSupportsReturning :: "'x dialect_scheme \<Rightarrow> returning_statement \<Rightarrow> bool" where
  "dialectSupportsReturning d st = returningCapability (capabilities d) st"

subsection \<open>The checks of \<open>defineSqlDialect\<close>\<close>

text \<open>
  The checks of \<open>assertSqlDialect\<close> that the model's types do not already guarantee, in the order
  of the source: names, the parameter limit, the agreement of RETURNING traits and capabilities,
  the companions' names, and the compiler strategy. \<open>hasCompiler\<close> says whether the definition
  carries a compiler object.
\<close>

definition assertNames :: "'x dialect_scheme \<Rightarrow> js_error + unit" where
  "assertNames d =
     (if trim (d_name d) = [] then Inl (TypeError ''dialect name must not be empty'')
      else if trim (d_family d) = []
      then Inl (TypeError (d_name d @ '' dialect family must not be empty''))
      else if trim (d_telemetrySystem d) = []
      then Inl (TypeError (d_name d @ '' dialect telemetry system must not be empty''))
      else Inr ())"

definition max_safe_integer :: int where
  "max_safe_integer = 9007199254740991"

definition assertParamLimit :: "'x dialect_scheme \<Rightarrow> js_error + unit" where
  "assertParamLimit d =
     (if paramLimit (traits d) \<le> 0 \<or> max_safe_integer < paramLimit (traits d)
      then Inl (TypeError (d_name d @ '' dialect paramLimit must be a positive safe integer''))
      else Inr ())"

fun statement_name :: "returning_statement \<Rightarrow> string" where
  "statement_name StInsert = ''insert''"
| "statement_name StUpsert = ''upsert''"
| "statement_name StUpdate = ''update''"
| "statement_name StDelete = ''delete''"

fun assertReturning :: "'x dialect_scheme \<Rightarrow> returning_statement list \<Rightarrow> js_error + unit" where
  "assertReturning d [] = Inr ()"
| "assertReturning d (st # sts) =
     (if returningCapability (capabilities d) st \<noteq> (returningTrait (traits d) st \<noteq> RNone)
      then Inl (TypeError (d_name d @ '' has inconsistent RETURNING evidence for '' @ statement_name st))
      else assertReturning d sts)"

definition all_statements :: "returning_statement list" where
  "all_statements = [StInsert, StUpsert, StUpdate, StDelete]"

definition assertCompanions :: "'x dialect_scheme \<Rightarrow> js_error + unit" where
  "assertCompanions d =
     (if migrations_name d \<noteq> d_name d
      then Inl (TypeError (d_name d @ '' carries migrations for '' @ migrations_name d))
      else if introspector_name d \<noteq> d_name d
      then Inl (TypeError (d_name d @ '' carries an introspector for '' @ introspector_name d))
      else Inr ())"

definition compilerRequired :: "'x dialect_scheme \<Rightarrow> bool" where
  "compilerRequired d \<longleftrightarrow>
     (\<exists>st \<in> set all_statements. returningTrait (traits d) st = ROutput) \<or>
     upsertStyle (traits d) = Merge"

definition assertCompiler :: "'x dialect_scheme \<Rightarrow> bool \<Rightarrow> js_error + unit" where
  "assertCompiler d hasCompiler =
     (if compilerRequired d \<and> \<not> hasCompiler
      then Inl (TypeError (d_name d @
             '' requires a compiler strategy for its returning or upsert traits''))
      else Inr ())"

definition assertSqlDialect :: "'x dialect_scheme \<Rightarrow> bool \<Rightarrow> js_error + unit" where
  "assertSqlDialect d hasCompiler =
     rbind (assertNames d) (\<lambda>_.
     rbind (assertParamLimit d) (\<lambda>_.
     rbind (assertReturning d all_statements) (\<lambda>_.
     rbind (assertCompanions d) (\<lambda>_.
     assertCompiler d hasCompiler))))"

definition defineSqlDialect :: "'x dialect_scheme \<Rightarrow> bool \<Rightarrow> js_error + 'x dialect_scheme" where
  "defineSqlDialect d hasCompiler = rbind (assertSqlDialect d hasCompiler) (\<lambda>_. Inr d)"

text \<open>What a dialect that passed the checks may be relied on to satisfy.\<close>

definition wf_dialect :: "'x dialect_scheme \<Rightarrow> bool \<Rightarrow> bool" where
  "wf_dialect d hasCompiler \<longleftrightarrow>
     trim (d_name d) \<noteq> [] \<and> trim (d_family d) \<noteq> [] \<and> trim (d_telemetrySystem d) \<noteq> [] \<and>
     0 < paramLimit (traits d) \<and> paramLimit (traits d) \<le> max_safe_integer \<and>
     (\<forall>st. dialectSupportsReturning d st \<longleftrightarrow> returningTrait (traits d) st \<noteq> RNone) \<and>
     migrations_name d = d_name d \<and> introspector_name d = d_name d \<and>
     (compilerRequired d \<longrightarrow> hasCompiler)"

lemma assertReturning_ok:
  "assertReturning d sts = Inr () \<longleftrightarrow>
     (\<forall>st \<in> set sts. returningCapability (capabilities d) st =
        (returningTrait (traits d) st \<noteq> RNone))"
  by (induction d sts rule: assertReturning.induct) auto

lemma all_statements_UNIV: "set all_statements = UNIV"
proof -
  have "st \<in> set all_statements" for st
    by (cases st) (simp_all add: all_statements_def)
  then show ?thesis by blast
qed

lemma assertSqlDialect_iff: "assertSqlDialect d hc = Inr () \<longleftrightarrow> wf_dialect d hc"
  by (auto simp: assertSqlDialect_def wf_dialect_def assertNames_def assertParamLimit_def
      assertCompanions_def assertCompiler_def assertReturning_ok all_statements_UNIV
      dialectSupportsReturning_def result_simps split: if_splits)

lemma defineSqlDialect_Inr: "defineSqlDialect d hc = Inr d' \<longleftrightarrow> d' = d \<and> wf_dialect d hc"
  by (auto simp: defineSqlDialect_def result_simps assertSqlDialect_iff)

subsection \<open>\<open>extendSqlDialect\<close>\<close>

text \<open>
  An extension overrides traits and capabilities field by field; a field it leaves out
  (\<open>None\<close>) is the parent's. RETURNING and the type map are merged entry by entry. The argument
  \<open>hasCompiler\<close> says whether the extension or, failing that, the parent carries a compiler.
\<close>

record dialect_extension =
  e_name :: string
  e_telemetrySystem :: "string option"
  e_placeholder :: "placeholder_style option"
  e_quote :: "(string \<times> string) option"
  e_paginate :: "(pagination_tail \<Rightarrow> js_error + string) option"
  e_paginationRequiresOrder :: "bool option"
  e_rowValueIn :: "bool option"
  e_returningTrait :: "returning_statement \<Rightarrow> returning_style option"
  e_upsertStyle :: "upsert_style option"
  e_fts :: "fts_style option"
  e_concatStyle :: "concat_style option"
  e_booleanNot :: "boolean_not_style option"
  e_types :: "dialect_sql_type \<Rightarrow> string option"
  e_paramLimit :: "int option"
  e_retryableCodes :: "string list option"
  e_acceptsOperator :: "(string \<Rightarrow> bool) option"
  e_functions :: "bool option"
  e_procedures :: "bool option"
  e_tableFunctions :: "bool option"
  e_vectorDistance :: "bool option"
  e_spatialPredicates :: "bool option"
  e_returningCapability :: "returning_statement \<Rightarrow> bool option"
  e_transactionalDdl :: "bool option"
  e_schemas :: "bool option"
  e_sequences :: "bool option"
  e_generatedColumns :: "bool option"
  e_partialIndexes :: "bool option"
  e_foreignKeys :: "bool option"
  e_rowLevelSecurity :: "bool option"
  e_streaming :: "bool option"
  e_cancellation :: "bool option"
  e_migrations_name :: string
  e_introspector_name :: string

definition override :: "'a option \<Rightarrow> 'a \<Rightarrow> 'a" where
  "override o1 dflt = (case o1 of None \<Rightarrow> dflt | Some x \<Rightarrow> x)"

definition override_fun :: "('k \<Rightarrow> 'a option) \<Rightarrow> ('k \<Rightarrow> 'a) \<Rightarrow> 'k \<Rightarrow> 'a" where
  "override_fun f g k = override (f k) (g k)"

lemma override_simps [simp]: "override None d = d" "override (Some x) d = x"
  by (simp_all add: override_def)

definition extendTraits :: "dialect_traits \<Rightarrow> dialect_extension \<Rightarrow> dialect_traits" where
  "extendTraits t e = \<lparr>
     placeholder = override (e_placeholder e) (placeholder t),
     quote = override (e_quote e) (quote t),
     paginate = override (e_paginate e) (paginate t),
     paginationRequiresOrder = override (e_paginationRequiresOrder e) (paginationRequiresOrder t),
     rowValueIn = override (e_rowValueIn e) (rowValueIn t),
     returningTrait = override_fun (e_returningTrait e) (returningTrait t),
     upsertStyle = override (e_upsertStyle e) (upsertStyle t),
     fts = override (e_fts e) (fts t),
     concatStyle = override (e_concatStyle e) (concatStyle t),
     booleanNot = override (e_booleanNot e) (booleanNot t),
     types = override_fun (e_types e) (types t),
     paramLimit = override (e_paramLimit e) (paramLimit t),
     retryableCodes = override (e_retryableCodes e) (retryableCodes t),
     acceptsOperator = override (e_acceptsOperator e) (acceptsOperator t),
     routineFunctions = override (e_functions e) (routineFunctions t),
     procedures = override (e_procedures e) (procedures t),
     tableFunctions = override (e_tableFunctions e) (tableFunctions t),
     vectorDistance = override (e_vectorDistance e) (vectorDistance t),
     spatialPredicates = override (e_spatialPredicates e) (spatialPredicates t)\<rparr>"

definition extendCapabilities ::
  "database_capabilities \<Rightarrow> dialect_extension \<Rightarrow> database_capabilities" where
  "extendCapabilities c e = \<lparr>
     returningCapability = override_fun (e_returningCapability e) (returningCapability c),
     transactionalDdl = override (e_transactionalDdl e) (transactionalDdl c),
     schemas = override (e_schemas e) (schemas c),
     sequences = override (e_sequences e) (sequences c),
     generatedColumns = override (e_generatedColumns e) (generatedColumns c),
     partialIndexes = override (e_partialIndexes e) (partialIndexes c),
     foreignKeys = override (e_foreignKeys e) (foreignKeys c),
     rowLevelSecurity = override (e_rowLevelSecurity e) (rowLevelSecurity c),
     streaming = override (e_streaming e) (streaming c),
     cancellation = override (e_cancellation e) (cancellation c)\<rparr>"

definition extendSqlDialect ::
  "dialect \<Rightarrow> dialect_extension \<Rightarrow> bool \<Rightarrow> js_error + dialect" where
  "extendSqlDialect parent e hasCompiler =
     defineSqlDialect \<lparr>
       d_name = e_name e,
       d_family = d_family parent,
       d_telemetrySystem = override (e_telemetrySystem e) (d_telemetrySystem parent),
       traits = extendTraits (traits parent) e,
       capabilities = extendCapabilities (capabilities parent) e,
       migrations_name = e_migrations_name e,
       introspector_name = e_introspector_name e\<rparr> hasCompiler"

lemma extendSqlDialect_wf:
  assumes "extendSqlDialect parent e hc = Inr d"
  shows "wf_dialect d hc" and "d_family d = d_family parent"
  using assms by (auto simp: extendSqlDialect_def defineSqlDialect_Inr)

end
