(* ===== verification/Dialects.thy ===== *)
theory Dialects
  imports Dialect
begin

section \<open>The dialects of the database packages\<close>

text \<open>
  The dialect objects of \<open>packages/postgres\<close>, \<open>sqlite\<close>, \<open>mysql\<close>, \<open>mssql\<close>, and the two that
  extend a parent, \<open>cockroach\<close> and \<open>singlestore\<close>. The lemmas show that each passes the checks of
  \<open>defineSqlDialect\<close> and that no dialect admits a comment opener or a quote as an operator token.
\<close>

subsection \<open>Operator tokens\<close>

text \<open>The regular expression \<open>/^(?!.*--)[A-Za-z@<>=!~*&|?-]{1,4}$/\<close>, shared by the four packages.\<close>

definition operator_char :: "char \<Rightarrow> bool" where
  "operator_char c \<longleftrightarrow>
     (let n = (of_char c :: nat) in (65 \<le> n \<and> n \<le> 90) \<or> (97 \<le> n \<and> n \<le> 122)) \<or>
     c \<in> set ''@<>=!~*&|?-''"

definition operatorToken :: "string \<Rightarrow> bool" where
  "operatorToken op \<longleftrightarrow>
     1 \<le> length op \<and> length op \<le> 4 \<and> list_all operator_char op \<and> index_from ''--'' op 0 = None"

definition postgresAcceptsOperator :: "string \<Rightarrow> bool" where
  "postgresAcceptsOperator op \<longleftrightarrow> op = ''#>'' \<or> op = ''#>>'' \<or> operatorToken op"

definition sqliteAcceptsOperator :: "string \<Rightarrow> bool" where
  "sqliteAcceptsOperator op \<longleftrightarrow>
     \<not> (op = ''#>'' \<or> op = ''#>>'') \<and> operatorToken op \<and> \<not> includes_char (CHR ''?'') op"

definition mysqlAcceptsOperator :: "string \<Rightarrow> bool" where
  "mysqlAcceptsOperator op \<longleftrightarrow>
     \<not> (op = ''#>'' \<or> op = ''#>>'') \<and> operatorToken op \<and> \<not> includes_char (CHR ''?'') op"

definition mssqlAcceptsOperator :: "string \<Rightarrow> bool" where
  "mssqlAcceptsOperator op \<longleftrightarrow>
     operatorToken op \<and> \<not> includes_char (CHR ''@'') op \<and> op \<noteq> ''#>'' \<and> op \<noteq> ''#>>''"

subsection \<open>Pagination\<close>

definition limit_part :: "int option \<Rightarrow> string" where
  "limit_part l = (case l of None \<Rightarrow> [] | Some n \<Rightarrow> '' LIMIT '' @ show_int n)"

definition offset_part :: "int option \<Rightarrow> string" where
  "offset_part l = (case l of None \<Rightarrow> [] | Some n \<Rightarrow> '' OFFSET '' @ show_int n)"

definition postgresPaginate :: "pagination_tail \<Rightarrow> js_error + string" where
  "postgresPaginate t = Inr (limit_part (pt_limit t) @ offset_part (pt_offset t))"

definition sqlitePaginate :: "pagination_tail \<Rightarrow> js_error + string" where
  "sqlitePaginate t = Inr
     ((if pt_limit t = None \<and> pt_offset t \<noteq> None then '' LIMIT -1'' else limit_part (pt_limit t)) @
      offset_part (pt_offset t))"

definition mysqlPaginate :: "pagination_tail \<Rightarrow> js_error + string" where
  "mysqlPaginate t = Inr
     (if pt_limit t = None \<and> pt_offset t \<noteq> None
      then '' LIMIT 18446744073709551615'' @ offset_part (pt_offset t)
      else limit_part (pt_limit t) @ offset_part (pt_offset t))"

definition mssqlPaginate :: "pagination_tail \<Rightarrow> js_error + string" where
  "mssqlPaginate t =
     (if pt_limit t = None \<and> pt_offset t = None then Inr []
      else if \<not> pt_ordered t
      then Inl (UnsupportedFeature ''pagination without ORDER BY'' ''mssql'')
      else Inr ('' OFFSET '' @ show_int (override (pt_offset t) 0) @ '' ROWS'' @
        (case pt_limit t of None \<Rightarrow> []
         | Some n \<Rightarrow> '' FETCH NEXT '' @ show_int n @ '' ROWS ONLY'')))"

subsection \<open>Type maps\<close>

fun postgresTypes :: "dialect_sql_type \<Rightarrow> string" where
  "postgresTypes SqlSerial = ''SERIAL''"
| "postgresTypes SqlInteger = ''INTEGER''"
| "postgresTypes SqlBigint = ''BIGINT''"
| "postgresTypes SqlNumeric = ''NUMERIC''"
| "postgresTypes SqlText = ''TEXT''"
| "postgresTypes SqlVarchar = ''VARCHAR''"
| "postgresTypes SqlBoolean = ''BOOLEAN''"
| "postgresTypes SqlTimestamp = ''TIMESTAMPTZ''"
| "postgresTypes SqlJson = ''JSONB''"
| "postgresTypes SqlJsonEnum = ''TEXT''"

fun sqliteTypes :: "dialect_sql_type \<Rightarrow> string" where
  "sqliteTypes SqlSerial = ''INTEGER''"
| "sqliteTypes SqlInteger = ''INTEGER''"
| "sqliteTypes SqlBigint = ''INTEGER''"
| "sqliteTypes SqlNumeric = ''NUMERIC''"
| "sqliteTypes SqlText = ''TEXT''"
| "sqliteTypes SqlVarchar = ''TEXT''"
| "sqliteTypes SqlBoolean = ''INTEGER''"
| "sqliteTypes SqlTimestamp = ''TEXT''"
| "sqliteTypes SqlJson = ''TEXT''"
| "sqliteTypes SqlJsonEnum = ''TEXT''"

fun mysqlTypes :: "dialect_sql_type \<Rightarrow> string" where
  "mysqlTypes SqlSerial = ''INT AUTO_INCREMENT''"
| "mysqlTypes SqlInteger = ''INT''"
| "mysqlTypes SqlBigint = ''BIGINT''"
| "mysqlTypes SqlNumeric = ''DECIMAL''"
| "mysqlTypes SqlText = ''TEXT''"
| "mysqlTypes SqlVarchar = ''VARCHAR''"
| "mysqlTypes SqlBoolean = ''TINYINT(1)''"
| "mysqlTypes SqlTimestamp = ''DATETIME(3)''"
| "mysqlTypes SqlJson = ''JSON''"
| "mysqlTypes SqlJsonEnum = ''TEXT''"

fun mssqlTypes :: "dialect_sql_type \<Rightarrow> string" where
  "mssqlTypes SqlSerial = ''INT IDENTITY(1,1)''"
| "mssqlTypes SqlInteger = ''INT''"
| "mssqlTypes SqlBigint = ''BIGINT''"
| "mssqlTypes SqlNumeric = ''DECIMAL''"
| "mssqlTypes SqlText = ''NVARCHAR(MAX)''"
| "mssqlTypes SqlVarchar = ''NVARCHAR''"
| "mssqlTypes SqlBoolean = ''BIT''"
| "mssqlTypes SqlTimestamp = ''DATETIMEOFFSET(3)''"
| "mssqlTypes SqlJson = ''NVARCHAR(MAX)''"
| "mssqlTypes SqlJsonEnum = ''NVARCHAR(MAX)''"

subsection \<open>The four base dialects\<close>

definition postgresTraits :: dialect_traits where
  "postgresTraits = \<lparr>
     placeholder = Numbered, quote = ([CHR 0x22], [CHR 0x22]), paginate = postgresPaginate,
     paginationRequiresOrder = False, rowValueIn = True, returningTrait = (\<lambda>_. RSuffix),
     upsertStyle = OnConflict, fts = FtsTsvector, concatStyle = ConcatOperator,
     booleanNot = NotNot, types = postgresTypes, paramLimit = 60000,
     retryableCodes = [''40001'', ''40P01''], acceptsOperator = postgresAcceptsOperator,
     routineFunctions = True, procedures = True, tableFunctions = True,
     vectorDistance = True, spatialPredicates = True\<rparr>"

definition postgresCapabilities :: database_capabilities where
  "postgresCapabilities = \<lparr>
     returningCapability = (\<lambda>_. True), transactionalDdl = True, schemas = True, sequences = True,
     generatedColumns = True, partialIndexes = True, foreignKeys = True, rowLevelSecurity = True,
     streaming = True, cancellation = True\<rparr>"

definition postgres :: dialect where
  "postgres = \<lparr>
     d_name = ''postgres'', d_family = ''postgres'', d_telemetrySystem = ''postgresql'',
     traits = postgresTraits, capabilities = postgresCapabilities,
     migrations_name = ''postgres'', introspector_name = ''postgres''\<rparr>"

definition sqlite :: dialect where
  "sqlite = \<lparr>
     d_name = ''sqlite'', d_family = ''sqlite'', d_telemetrySystem = ''sqlite'',
     traits = \<lparr>
       placeholder = Positional, quote = ([CHR 0x22], [CHR 0x22]), paginate = sqlitePaginate,
       paginationRequiresOrder = False, rowValueIn = True, returningTrait = (\<lambda>_. RSuffix),
       upsertStyle = OnConflict, fts = FtsCompanionTable, concatStyle = ConcatOperator,
       booleanNot = NotNot, types = sqliteTypes, paramLimit = 30000,
       retryableCodes = [''SQLITE_BUSY'', ''SQLITE_LOCKED'', ''5'', ''6''],
       acceptsOperator = sqliteAcceptsOperator,
       routineFunctions = False, procedures = False, tableFunctions = False,
       vectorDistance = False, spatialPredicates = False\<rparr>,
     capabilities = \<lparr>
       returningCapability = (\<lambda>_. True), transactionalDdl = True, schemas = False,
       sequences = False, generatedColumns = True, partialIndexes = True, foreignKeys = True,
       rowLevelSecurity = False, streaming = True, cancellation = False\<rparr>,
     migrations_name = ''sqlite'', introspector_name = ''sqlite''\<rparr>"

definition mysqlTraits :: dialect_traits where
  "mysqlTraits = \<lparr>
     placeholder = Positional, quote = (''`'', ''`''), paginate = mysqlPaginate,
     paginationRequiresOrder = False, rowValueIn = True, returningTrait = (\<lambda>_. RNone),
     upsertStyle = OnDuplicateKey, fts = FtsMatch, concatStyle = ConcatFunction,
     booleanNot = NotNot, types = mysqlTypes, paramLimit = 60000,
     retryableCodes = [''ER_LOCK_DEADLOCK'', ''ER_LOCK_WAIT_TIMEOUT'', ''1213'', ''1205''],
     acceptsOperator = mysqlAcceptsOperator,
     routineFunctions = True, procedures = True, tableFunctions = False,
     vectorDistance = False, spatialPredicates = False\<rparr>"

definition mysqlCapabilities :: database_capabilities where
  "mysqlCapabilities = \<lparr>
     returningCapability = (\<lambda>_. False), transactionalDdl = False, schemas = True,
     sequences = False, generatedColumns = True, partialIndexes = False, foreignKeys = True,
     rowLevelSecurity = False, streaming = False, cancellation = False\<rparr>"

definition mysql :: dialect where
  "mysql = \<lparr>
     d_name = ''mysql'', d_family = ''mysql'', d_telemetrySystem = ''mysql'',
     traits = mysqlTraits, capabilities = mysqlCapabilities,
     migrations_name = ''mysql'', introspector_name = ''mysql''\<rparr>"

definition mssqlTraits :: dialect_traits where
  "mssqlTraits = \<lparr>
     placeholder = Named, quote = (''['', '']''), paginate = mssqlPaginate,
     paginationRequiresOrder = True, rowValueIn = False, returningTrait = (\<lambda>_. ROutput),
     upsertStyle = Merge, fts = FtsNone, concatStyle = ConcatFunction,
     booleanNot = NotBitwise, types = mssqlTypes, paramLimit = 2000,
     retryableCodes = [''1205'', ''3960''], acceptsOperator = mssqlAcceptsOperator,
     routineFunctions = False, procedures = False, tableFunctions = False,
     vectorDistance = False, spatialPredicates = False\<rparr>"

definition mssqlCapabilities :: database_capabilities where
  "mssqlCapabilities = \<lparr>
     returningCapability = (\<lambda>_. True), transactionalDdl = True, schemas = True,
     sequences = True, generatedColumns = True, partialIndexes = True, foreignKeys = True,
     rowLevelSecurity = False, streaming = False, cancellation = False\<rparr>"

definition mssql :: dialect where
  "mssql = \<lparr>
     d_name = ''mssql'', d_family = ''mssql'', d_telemetrySystem = ''mssql'',
     traits = mssqlTraits, capabilities = mssqlCapabilities,
     migrations_name = ''mssql'', introspector_name = ''mssql''\<rparr>"

subsection \<open>The two derived dialects\<close>

definition no_extension :: "string \<Rightarrow> dialect_extension" where
  "no_extension nm = \<lparr>
     e_name = nm, e_telemetrySystem = None, e_placeholder = None, e_quote = None,
     e_paginate = None, e_paginationRequiresOrder = None, e_rowValueIn = None,
     e_returningTrait = (\<lambda>_. None), e_upsertStyle = None, e_fts = None, e_concatStyle = None,
     e_booleanNot = None, e_types = (\<lambda>_. None), e_paramLimit = None, e_retryableCodes = None,
     e_acceptsOperator = None, e_functions = None, e_procedures = None, e_tableFunctions = None,
     e_vectorDistance = None, e_spatialPredicates = None, e_returningCapability = (\<lambda>_. None),
     e_transactionalDdl = None, e_schemas = None, e_sequences = None, e_generatedColumns = None,
     e_partialIndexes = None, e_foreignKeys = None, e_rowLevelSecurity = None, e_streaming = None,
     e_cancellation = None, e_migrations_name = nm, e_introspector_name = nm\<rparr>"

fun cockroachTypeOverrides :: "dialect_sql_type \<Rightarrow> string option" where
  "cockroachTypeOverrides SqlSerial = Some ''INT8 DEFAULT unique_rowid()''"
| "cockroachTypeOverrides SqlInteger = Some ''INT4''"
| "cockroachTypeOverrides _ = None"

definition cockroachExtension :: dialect_extension where
  "cockroachExtension = (no_extension ''cockroach'')\<lparr>
     e_types := cockroachTypeOverrides, e_fts := Some FtsNone,
     e_retryableCodes := Some [''40001''], e_vectorDistance := Some False,
     e_spatialPredicates := Some False, e_transactionalDdl := Some False,
     e_rowLevelSecurity := Some False, e_cancellation := Some False\<rparr>"

fun singlestoreTypeOverrides :: "dialect_sql_type \<Rightarrow> string option" where
  "singlestoreTypeOverrides SqlSerial = Some ''BIGINT AUTO_INCREMENT''"
| "singlestoreTypeOverrides SqlTimestamp = Some ''DATETIME(6)''"
| "singlestoreTypeOverrides _ = None"

definition singlestoreExtension :: dialect_extension where
  "singlestoreExtension = (no_extension ''singlestore'')\<lparr>
     e_types := singlestoreTypeOverrides, e_fts := Some FtsMatchPlain,
     e_foreignKeys := Some False\<rparr>"

subsection \<open>Every shipped definition passes the checks\<close>

lemmas dialect_defs = postgres_def sqlite_def mysql_def mssql_def postgresTraits_def
  postgresCapabilities_def mysqlTraits_def mysqlCapabilities_def mssqlTraits_def
  mssqlCapabilities_def

lemmas extension_defs = cockroachExtension_def singlestoreExtension_def no_extension_def
  extendTraits_def extendCapabilities_def override_fun_def

lemma trim_no_ws: "s \<noteq> [] \<Longrightarrow> \<not> is_ws (hd s) \<Longrightarrow> trim s \<noteq> []"
  by (cases s) (auto simp: trim_def dropWhile_eq_Nil_conv)

lemma wf_shipped_dialects:
  "wf_dialect postgres False" "wf_dialect sqlite False" "wf_dialect mysql False"
  "wf_dialect mssql True"
  by (simp_all add: wf_dialect_def dialect_defs dialectSupportsReturning_def
      compilerRequired_def max_safe_integer_def trim_no_ws is_ws_def all_statements_def)

lemma extend_shipped_dialects:
  "\<exists>d. extendSqlDialect postgres cockroachExtension False = Inr d \<and> wf_dialect d False \<and>
     placeholder (traits d) = Numbered \<and> fts (traits d) = FtsNone \<and>
     paginate (traits d) = postgresPaginate"
  "\<exists>d. extendSqlDialect mysql singlestoreExtension False = Inr d \<and> wf_dialect d False \<and>
     placeholder (traits d) = Positional \<and> fts (traits d) = FtsMatchPlain \<and>
     paginate (traits d) = mysqlPaginate"
  by (auto simp: extendSqlDialect_def defineSqlDialect_Inr wf_dialect_def dialect_defs extension_defs
      dialectSupportsReturning_def compilerRequired_def max_safe_integer_def trim_no_ws is_ws_def
      all_statements_def)

subsection \<open>Operator tokens carry no SQL text\<close>

lemma operator_token_chars:
  assumes "operatorToken op" and "c \<in> set op"
  shows "c \<notin> set '' ;'' \<and> c \<noteq> CHR 0x22 \<and> c \<noteq> CHR 0x27 \<and> c \<noteq> CHR ''`'' \<and> c \<noteq> CHR ''['' \<and>
     c \<noteq> CHR '']'' \<and> c \<noteq> CHR ''/'' \<and> c \<noteq> CHR ''$'' \<and> c \<noteq> CHR ''('' \<and> c \<noteq> CHR '')''
     \<and> \<not> is_digit c"
  using assms by (auto simp: operatorToken_def list_all_iff operator_char_def is_digit_def Let_def)

end
