(* ===== verification/Quoting.thy ===== *)
theory Quoting
  imports Dialects
begin

section \<open>Identifier quoting and placeholders\<close>

text \<open>
  \<open>packages/sql/src/quoting.ts\<close>, function by function. A dialect's quote is a pair of strings;
  quoting doubles every occurrence of the closing one. The lemmas compare the output with a
  reader of the database's side (\<open>read_quoted\<close>, \<open>read_reference\<close>): what a SQL lexer sees in a
  quoted name is the caller's name and nothing after it.
\<close>

subsection \<open>Quoting\<close>

definition quoteIdentifier :: "'x dialect_scheme \<Rightarrow> string \<Rightarrow> string" where
  "quoteIdentifier d identifier =
     (let op = fst (quote (traits d)); cl = snd (quote (traits d))
      in op @ replace_all cl (cl @ cl) identifier @ cl)"

definition quote_segment :: "'x dialect_scheme \<Rightarrow> string \<Rightarrow> string" where
  "quote_segment d segment = (if segment = ''*'' then ''*'' else quoteIdentifier d segment)"

definition quoteColumn :: "'x dialect_scheme \<Rightarrow> string \<Rightarrow> string" where
  "quoteColumn d col = join ''.'' (map (quote_segment d) (split_on (CHR ''.'') col))"

definition qualifyRootColumn :: "string \<Rightarrow> string option \<Rightarrow> string" where
  "qualifyRootColumn column rootReference =
     (case rootReference of
        None \<Rightarrow> column
      | Some r \<Rightarrow>
          if column \<noteq> [] \<and> column \<noteq> ''*'' \<and> \<not> includes_char (CHR ''.'') column
          then r @ ''.'' @ column else column)"

subsection \<open>Table specifications\<close>

definition isWhitespace :: "char option \<Rightarrow> bool" where
  "isWhitespace ch = (case ch of None \<Rightarrow> False | Some c \<Rightarrow> is_ws c)"

text \<open>\<open>s[i]\<close>, \<open>undefined\<close> out of range; \<open>char_before s i\<close> is \<open>s[i - 1]\<close>.\<close>

definition char_at :: "string \<Rightarrow> nat \<Rightarrow> char option" where
  "char_at s i = (if i < length s then Some (s ! i) else None)"

definition char_before :: "string \<Rightarrow> nat \<Rightarrow> char option" where
  "char_before s i = (if i = 0 then None else char_at s (i - 1))"

lemma index_from_bound: "index_from pat s k = Some i \<Longrightarrow> k \<le> i \<and> i + length pat \<le> length s"
  by (induction pat s k arbitrary: i rule: index_from.induct)
    (auto split: if_splits dest: prefix_length_le)

function splitTableLoop :: "string \<Rightarrow> string \<Rightarrow> nat \<Rightarrow> string \<times> string option" where
  "splitTableLoop trimmed lower searchIndex =
     (if searchIndex < length lower then
        (case index_from ''as'' lower searchIndex of
           None \<Rightarrow> (trimmed, None)
         | Some asIndex \<Rightarrow>
             let table = trim (take asIndex trimmed); alias = trim (drop (asIndex + 2) trimmed)
             in if isWhitespace (char_before trimmed asIndex) \<and>
                   isWhitespace (char_at trimmed (asIndex + 2)) \<and> table \<noteq> [] \<and> alias \<noteq> []
                then (table, Some alias)
                else splitTableLoop trimmed lower (asIndex + 2))
      else (trimmed, None))"
  by pat_completeness auto
termination
  by (relation "measure (\<lambda>(t, l, k). length l - k)") (auto dest: index_from_bound)

declare splitTableLoop.simps [simp del]

definition splitTableSpec :: "string \<Rightarrow> string \<times> string option" where
  "splitTableSpec tableSpec =
     (let trimmed = trim tableSpec in splitTableLoop trimmed (to_lower trimmed) 0)"

definition unaliasedTable :: "string \<Rightarrow> string" where
  "unaliasedTable tableSpec = fst (splitTableSpec tableSpec)"

definition quoteTable :: "'x dialect_scheme \<Rightarrow> string \<Rightarrow> string" where
  "quoteTable d tableSpec =
     (case splitTableSpec tableSpec of
        (table, None) \<Rightarrow> quoteColumn d table
      | (table, Some alias) \<Rightarrow> quoteColumn d table @ '' AS '' @ quoteIdentifier d alias)"

subsection \<open>Placeholders\<close>

definition formatPlaceholder :: "'x dialect_scheme \<Rightarrow> nat \<Rightarrow> string" where
  "formatPlaceholder d index =
     (case placeholder (traits d) of
        Numbered \<Rightarrow> ''$'' @ show_nat index
      | Positional \<Rightarrow> ''?''
      | Named \<Rightarrow> ''@p'' @ show_nat index)"

text \<open>
  \<open>text.replace(/MARKER(\d+)/g, \<dots>)\<close>: every marker followed by a digit, with the whole run of
  digits behind it.
\<close>

function renumber_marker :: "string \<Rightarrow> nat \<Rightarrow> string \<Rightarrow> string" where
  "renumber_marker m off [] = []"
| "renumber_marker m off (c # cs) =
     (let ds = takeWhile is_digit (drop (length m) (c # cs))
      in if m \<noteq> [] \<and> prefix m (c # cs) \<and> ds \<noteq> []
         then m @ show_nat (off + parse_digits ds) @
              renumber_marker m off (drop (length m + length ds) (c # cs))
         else c # renumber_marker m off cs)"
  by pat_completeness auto
termination
  by (relation "measure (\<lambda>(m, off, s). length s)") (auto simp: Let_def)

definition renumberPlaceholders :: "string \<Rightarrow> nat \<Rightarrow> 'x dialect_scheme \<Rightarrow> string" where
  "renumberPlaceholders txt offset d =
     (case placeholder (traits d) of
        Numbered \<Rightarrow> renumber_marker ''$'' offset txt
      | Named \<Rightarrow> renumber_marker ''@p'' offset txt
      | Positional \<Rightarrow> txt)"

subsection \<open>What the database reads in a quoted name\<close>

text \<open>
  A reader of a quoted identifier, from the character after the opening quote: a doubled closing
  quote is one character of the name, a single one ends it. It returns the name and the text left.
\<close>

fun read_quoted :: "char \<Rightarrow> string \<Rightarrow> (string \<times> string) option" where
  "read_quoted q [] = None"
| "read_quoted q [c] = (if c = q then Some ([], []) else None)"
| "read_quoted q (c # e # cs) =
     (if c = q then
        (if e = q then map_option (\<lambda>(n, r). (q # n, r)) (read_quoted q cs) else Some ([], e # cs))
      else map_option (\<lambda>(n, r). (c # n, r)) (read_quoted q (e # cs)))"

definition single_quoted :: "'x dialect_scheme \<Rightarrow> char \<Rightarrow> char \<Rightarrow> bool" where
  "single_quoted d oq cq \<longleftrightarrow> quote (traits d) = ([oq], [cq])"

lemma quoteIdentifier_single:
  "single_quoted d oq cq \<Longrightarrow>
     quoteIdentifier d s = oq # concat (map (\<lambda>c. if c = cq then [cq, cq] else [c]) s) @ [cq]"
  by (simp add: quoteIdentifier_def single_quoted_def replace_all_char Let_def)

lemma read_quoted_other:
  "c \<noteq> q \<Longrightarrow> cs \<noteq> [] \<Longrightarrow>
     read_quoted q (c # cs) = map_option (\<lambda>(n, r). (c # n, r)) (read_quoted q cs)"
  by (cases cs) auto

lemma read_quoted_escaped:
  assumes "rest = [] \<or> hd rest \<noteq> q"
  shows "read_quoted q (concat (map (\<lambda>c. if c = q then [q, q] else [c]) s) @ q # rest) =
           Some (s, rest)"
proof (induction s)
  case Nil
  from assms show ?case by (cases rest) auto
next
  case (Cons c s)
  then show ?case
    by (simp add: read_quoted_other)
qed

lemma quoteIdentifier_reads_back:
  assumes "single_quoted d oq cq" and "rest = [] \<or> hd rest \<noteq> cq"
  shows "\<exists>body. quoteIdentifier d s @ rest = oq # body \<and> read_quoted cq body = Some (s, rest)"
  using assms read_quoted_escaped [of rest cq s] by (simp add: quoteIdentifier_single)

text \<open>A qualified reference: names or \<open>*\<close>, separated by dots.\<close>

datatype ref_token = Star | Name string

fun read_reference :: "nat \<Rightarrow> char \<Rightarrow> char \<Rightarrow> string \<Rightarrow> (ref_token list \<times> string) option" where
  "read_reference 0 oq cq s = None"
| "read_reference (Suc fuel) oq cq s =
     (case s of
        [] \<Rightarrow> None
      | c # cs \<Rightarrow>
          (case (if c = CHR ''*'' then Some (Star, cs)
                 else if c = oq then map_option (\<lambda>(n, r). (Name n, r)) (read_quoted cq cs)
                 else None) of
             None \<Rightarrow> None
           | Some (tok, r) \<Rightarrow>
               if r \<noteq> [] \<and> hd r = CHR ''.''
               then map_option (\<lambda>(ts, r'). (tok # ts, r')) (read_reference fuel oq cq (tl r))
               else Some ([tok], r)))"

definition segment_token :: "string \<Rightarrow> ref_token" where
  "segment_token s = (if s = ''*'' then Star else Name s)"

lemma read_segments:
  assumes q: "single_quoted d oq cq" and dot: "cq \<noteq> CHR ''.''" and star: "oq \<noteq> CHR ''*''"
    and rest: "rest = [] \<or> hd rest \<noteq> cq \<and> hd rest \<noteq> CHR ''.''"
    and ne: "ps \<noteq> []" and fuel: "length ps \<le> fuel"
  shows "read_reference fuel oq cq (join ''.'' (map (quote_segment d) ps) @ rest) =
           Some (map segment_token ps, rest)"
  using ne fuel
proof (induction ps arbitrary: fuel)
  case Nil
  then show ?case by simp
next
  case (Cons p ps)
  obtain n where n: "fuel = Suc n" using Cons.prems(2) by (cases fuel) auto
  let ?r = "if ps = [] then rest else ''.'' @ join ''.'' (map (quote_segment d) ps) @ rest"
  have r: "?r = [] \<or> hd ?r \<noteq> cq" using rest dot by auto
  have split: "join ''.'' (map (quote_segment d) (p # ps)) @ rest = quote_segment d p @ ?r"
    by (cases ps) auto
  have IH: "ps \<noteq> [] \<Longrightarrow> read_reference n oq cq (join ''.'' (map (quote_segment d) ps) @ rest) =
      Some (map segment_token ps, rest)"
    using Cons.IH [of n] Cons.prems n by simp
  show ?case
  proof (cases "p = ''*''")
    case True
    then have "quote_segment d p @ ?r = CHR ''*'' # ?r"
      by (simp add: quote_segment_def)
    then show ?thesis
      unfolding split n using IH rest True by (auto simp: segment_token_def)
  next
    case False
    obtain body where "quote_segment d p @ ?r = oq # body" "read_quoted cq body = Some (p, ?r)"
      using quoteIdentifier_reads_back [OF q r] False by (auto simp: quote_segment_def)
    then show ?thesis
      unfolding split n using IH rest star False by (auto simp: segment_token_def)
  qed
qed

lemma quoteColumn_reads_back:
  assumes "single_quoted d oq cq" and "cq \<noteq> CHR ''.''" and "oq \<noteq> CHR ''*''"
    and "rest = [] \<or> hd rest \<noteq> cq \<and> hd rest \<noteq> CHR ''.''"
  shows "read_reference (length (split_on (CHR ''.'') col)) oq cq (quoteColumn d col @ rest) =
           Some (map segment_token (split_on (CHR ''.'') col), rest)"
  unfolding quoteColumn_def using assms by (intro read_segments) simp_all

lemma shipped_quotes:
  "single_quoted postgres (CHR 0x22) (CHR 0x22)" "single_quoted sqlite (CHR 0x22) (CHR 0x22)"
  "single_quoted mysql (CHR ''`'') (CHR ''`'')" "single_quoted mssql (CHR ''['') (CHR '']'')"
  by (simp_all add: single_quoted_def dialect_defs)

end
