(* ===== verification/SqlText.thy ===== *)
theory SqlText
  imports Quoting
begin

section \<open>The parameter markers of a statement\<close>

text \<open>
  The specification side of parameter numbering: \<open>scan_params\<close> is the list of the numbers the
  database reads as parameter markers \<open>$n\<close> in a statement text, outside quoted names. It is the
  yardstick for the renderers of the numbered dialects: a rendered fragment \<open>emits\<close> the numbers it
  adds, and fragments compose by concatenation. \<open>renumberPlaceholders\<close> shifts exactly these
  numbers when no quoted name holds a marker character.
\<close>

abbreviation dq :: char where
  "dq \<equiv> CHR 0x22"

datatype scan_state = Plain | Quoted | Marker "nat option"

definition enter :: "char \<Rightarrow> scan_state" where
  "enter c = (if c = dq then Quoted else if c = CHR ''$'' then Marker None else Plain)"

fun marked :: "nat option \<Rightarrow> nat list" where
  "marked None = []"
| "marked (Some n) = [n]"

fun scan :: "scan_state \<Rightarrow> string \<Rightarrow> nat list" where
  "scan Plain [] = []"
| "scan Quoted [] = []"
| "scan (Marker a) [] = marked a"
| "scan Plain (c # cs) = scan (enter c) cs"
| "scan Quoted (c # cs) = scan (if c = dq then Plain else Quoted) cs"
| "scan (Marker a) (c # cs) =
     (if is_digit c
      then scan (Marker (Some (10 * (case a of None \<Rightarrow> 0 | Some n \<Rightarrow> n) + digit_val c))) cs
      else marked a @ scan (enter c) cs)"

definition scan_params :: "string \<Rightarrow> nat list" where
  "scan_params s = scan Plain s"

definition starts_digit :: "string \<Rightarrow> bool" where
  "starts_digit s \<longleftrightarrow> s \<noteq> [] \<and> is_digit (hd s)"

text \<open>
  A fragment is \<open>balanced\<close> when it closes every name it opens; it \<open>emits\<close> the numbers its markers
  carry if it is balanced. A fragment that does not start with a digit can follow a marker.
\<close>

definition balanced :: "string \<Rightarrow> bool" where
  "balanced s \<longleftrightarrow> even (length (filter (\<lambda>c. c = dq) s))"

definition emits :: "string \<Rightarrow> nat list \<Rightarrow> bool" where
  "emits s ns \<longleftrightarrow> balanced s \<and> scan_params s = ns"

lemma starts_digit_Cons [simp]: "starts_digit (c # cs) \<longleftrightarrow> is_digit c"
  by (simp add: starts_digit_def)

lemma starts_digit_Nil [simp]: "\<not> starts_digit []"
  by (simp add: starts_digit_def)

lemma starts_digit_append [simp]:
  "starts_digit (a @ b) \<longleftrightarrow> (if a = [] then starts_digit b else starts_digit a)"
  by (cases a) auto

lemma not_digit_chars [simp]:
  "\<not> is_digit dq" "\<not> is_digit (CHR ''$'')" "\<not> is_digit (CHR '' '')" "\<not> is_digit (CHR ''@'')"
  "\<not> is_digit (CHR ''.'')" "\<not> is_digit (CHR ''('')" "\<not> is_digit (CHR '')'')"
  by (simp_all add: is_digit_def)

lemma scan_append:
  "balanced (if st = Quoted then dq # s else s) \<Longrightarrow> \<not> starts_digit rest \<Longrightarrow>
     scan st (s @ rest) = scan st s @ scan Plain rest"
proof (induction s arbitrary: st)
  case Nil
  then show ?case by (cases st; cases rest) (auto simp: balanced_def)
next
  case (Cons c s)
  then show ?case
    by (cases st) (auto simp: enter_def balanced_def)
qed

lemma emits_scan: "emits s ns \<Longrightarrow> scan_params s = ns"
  by (simp add: emits_def)

lemma emits_Nil [simp, intro]: "emits [] []"
  by (simp add: emits_def scan_params_def balanced_def)

lemma emits_append:
  "emits a m \<Longrightarrow> emits b n \<Longrightarrow> \<not> starts_digit b \<Longrightarrow> emits (a @ b) (m @ n)"
  using scan_append [of Plain a b] by (auto simp: emits_def scan_params_def balanced_def)

definition plain_text :: "string \<Rightarrow> bool" where
  "plain_text s \<longleftrightarrow> dq \<notin> set s \<and> CHR ''$'' \<notin> set s"

lemma scan_plain_text: "plain_text s \<Longrightarrow> scan Plain s = []"
  by (induction s) (auto simp: plain_text_def enter_def)

lemma balanced_no_quote: "dq \<notin> set s \<Longrightarrow> balanced s"
  by (induction s) (auto simp: balanced_def)

lemma balanced_plain_text: "plain_text s \<Longrightarrow> balanced s"
  by (simp add: plain_text_def balanced_no_quote)

lemma emits_plain_text: "plain_text s \<Longrightarrow> emits s []"
  by (simp add: emits_def scan_params_def scan_plain_text balanced_plain_text)

lemma emits_plain_prefix: "plain_text p \<Longrightarrow> emits s ns \<Longrightarrow> emits (p @ s) ns"
  by (induction p) (auto simp: plain_text_def emits_def scan_params_def balanced_def enter_def)

subsection \<open>Quoted names and placeholders\<close>

lemma scan_quoted_escaped:
  "scan Quoted (concat (map (\<lambda>c. if c = dq then [dq, dq] else [c]) s) @ [dq]) = []"
  by (induction s) (auto simp: enter_def)

lemma balanced_escaped:
  "balanced (dq # concat (map (\<lambda>c. if c = dq then [dq, dq] else [c]) s) @ [dq])"
  by (induction s) (auto simp: balanced_def)

lemma emits_quoteIdentifier: "single_quoted d dq dq \<Longrightarrow> emits (quoteIdentifier d s) []"
  using balanced_escaped [of s]
  by (simp add: emits_def scan_params_def quoteIdentifier_single enter_def scan_quoted_escaped)

lemma emits_quote_segment: "single_quoted d dq dq \<Longrightarrow> emits (quote_segment d s) []"
  by (auto simp: quote_segment_def emits_quoteIdentifier intro!: emits_plain_text
      simp: plain_text_def)

lemma emits_join_plain:
  "plain_text sep \<Longrightarrow> sep \<noteq> [] \<Longrightarrow> \<not> starts_digit sep \<Longrightarrow> \<forall>p \<in> set ps. emits p [] \<Longrightarrow>
     emits (join sep ps) []"
proof (induction sep ps rule: join.induct)
  case (3 sep x y ys)
  then have "emits (sep @ join sep (y # ys)) []"
    by (intro emits_plain_prefix) simp_all
  with 3 show ?case
    using emits_append [of x "[]" "sep @ join sep (y # ys)" "[]"] by simp
qed auto

lemma emits_quoteColumn: "single_quoted d dq dq \<Longrightarrow> emits (quoteColumn d col) []"
  unfolding quoteColumn_def
  by (rule emits_join_plain) (auto simp: plain_text_def emits_quote_segment)

lemma scan_digits:
  "\<forall>c \<in> set ds. is_digit c \<Longrightarrow> \<not> starts_digit rest \<Longrightarrow>
     scan (Marker (Some a)) (ds @ rest) = foldl (\<lambda>a c. 10 * a + digit_val c) a ds # scan Plain rest"
proof (induction ds arbitrary: a)
  case Nil
  then show ?case by (cases rest) auto
next
  case (Cons c ds)
  then show ?case by simp
qed

lemma scan_marker_digits:
  assumes "ds \<noteq> []" and "\<forall>c \<in> set ds. is_digit c" and "\<not> starts_digit rest"
  shows "scan (Marker None) (ds @ rest) = parse_digits ds # scan Plain rest"
  using assms by (cases ds) (auto simp: scan_digits parse_digits_def)

lemma emits_marker: "emits (CHR ''$'' # show_nat n) [n]"
proof -
  have "scan Plain (CHR ''$'' # show_nat n) = [n]"
    using scan_marker_digits [of "show_nat n" "[]"] by (simp add: enter_def show_nat_digits)
  moreover have "dq \<notin> set (CHR ''$'' # show_nat n)"
    using show_nat_digits [of dq n] by auto
  ultimately show ?thesis
    by (simp add: emits_def scan_params_def balanced_no_quote)
qed

lemma emits_formatPlaceholder:
  "placeholder (traits d) = Numbered \<Longrightarrow> emits (formatPlaceholder d n) [n]"
  by (simp add: formatPlaceholder_def emits_marker)

lemma emits_quoteTable: "single_quoted d dq dq \<Longrightarrow> emits (quoteTable d t) []"
  using emits_append [OF emits_quoteColumn emits_plain_prefix [OF _ emits_quoteIdentifier],
      of d "'' AS ''" d]
  by (auto simp: quoteTable_def emits_quoteColumn plain_text_def split: prod.splits option.splits)

subsection \<open>Renumbering\<close>

text \<open>\<open>clean_quotes\<close>: no quoted name of the text holds a marker character.\<close>

fun clean_quotes :: "bool \<Rightarrow> string \<Rightarrow> bool" where
  "clean_quotes inq [] = True"
| "clean_quotes inq (c # cs) =
     (if c = dq then clean_quotes (\<not> inq) cs
      else (inq \<longrightarrow> c \<noteq> CHR ''$'') \<and> clean_quotes inq cs)"

lemma clean_quotes_plain: "plain_text p \<Longrightarrow> clean_quotes b p"
  by (induction p arbitrary: b) (auto simp: plain_text_def)

lemma starts_digit_renumber:
  "starts_digit (renumber_marker ''$'' off s) = starts_digit s"
  by (cases s) (auto simp: Let_def)

lemma clean_quotes_digits:
  "\<forall>c \<in> set ds. is_digit c \<Longrightarrow> clean_quotes False (ds @ r) = clean_quotes False r"
  by (induction ds) auto

lemma scan_marker_None: "\<not> starts_digit cs \<Longrightarrow> scan (Marker None) cs = scan Plain cs"
  by (cases cs) auto

lemma not_starts_digit_drop: "\<not> starts_digit (dropWhile is_digit s)"
  by (induction s) auto

lemma renumber_scan_step:
  assumes ne: "takeWhile is_digit cs \<noteq> []"
  shows "scan Plain (CHR ''$'' # cs) =
      parse_digits (takeWhile is_digit cs) # scan Plain (dropWhile is_digit cs)"
proof -
  have "\<forall>c \<in> set (takeWhile is_digit cs). is_digit c"
    by (auto dest: set_takeWhileD)
  from scan_marker_digits [OF ne this not_starts_digit_drop [of cs]]
  show ?thesis by (simp only: takeWhile_dropWhile_id scan.simps(4) enter_def) simp
qed

lemma renumber_scan:
  "clean_quotes (st = Quoted) s \<Longrightarrow> st = Plain \<or> st = Quoted \<Longrightarrow>
     scan st (renumber_marker ''$'' off s) = map ((+) off) (scan st s)"
proof (induction "length s" arbitrary: s st rule: less_induct)
  case less
  show ?case
  proof (cases s)
    case Nil
    with less.prems show ?thesis by auto
  next
    case (Cons c cs)
    let ?ds = "takeWhile is_digit cs" and ?r = "dropWhile is_digit cs"
    have drop: "drop (length ?ds) cs = ?r" by (simp add: dropWhile_eq_drop)
    show ?thesis
    proof (cases "c = CHR ''$'' \<and> ?ds \<noteq> []")
      case True
      with less.prems Cons have st: "st = Plain" by auto
      have ren: "renumber_marker ''$'' off s =
          CHR ''$'' # show_nat (off + parse_digits ?ds) @ renumber_marker ''$'' off ?r"
        using True Cons drop by (simp add: Let_def)
      have "clean_quotes False ?r"
        using less.prems st Cons True clean_quotes_digits [of ?ds ?r]
        by (auto dest: set_takeWhileD)
      then have "scan Plain (renumber_marker ''$'' off ?r) = map ((+) off) (scan Plain ?r)"
        using less.hyps [of ?r Plain] Cons length_dropWhile_le [of is_digit cs] by simp
      moreover have "scan Plain (CHR ''$'' # show_nat (off + parse_digits ?ds) @
          renumber_marker ''$'' off ?r) =
          (off + parse_digits ?ds) # scan Plain (renumber_marker ''$'' off ?r)"
        using emits_marker [of "off + parse_digits ?ds"] not_starts_digit_drop [of cs]
          scan_append [of Plain "CHR ''$'' # show_nat (off + parse_digits ?ds)"]
        by (simp add: emits_def scan_params_def starts_digit_renumber)
      moreover have "scan Plain s = parse_digits ?ds # scan Plain ?r"
        unfolding Cons using True renumber_scan_step [of cs] by simp
      ultimately show ?thesis
        by (simp only: ren st list.map)
    next
      case False
      then have ren: "renumber_marker ''$'' off s = c # renumber_marker ''$'' off cs"
        using Cons by (auto simp: Let_def)
      show ?thesis
      proof (cases "c = CHR ''$''")
        case True
        then have "\<not> starts_digit cs" using False by (cases cs) auto
        with less.prems True Cons have "st = Plain" "clean_quotes False cs" by auto
        then show ?thesis
          unfolding ren using less.hyps [of cs Plain] Cons True \<open>\<not> starts_digit cs\<close>
          by (simp add: enter_def scan_marker_None starts_digit_renumber)
      next
        case ne: False
        show ?thesis
          unfolding ren using ne less.prems Cons
            less.hyps [of cs "if c = dq then (if st = Plain then Quoted else Plain) else st"]
          by (auto simp: enter_def)
      qed
    qed
  qed
qed

lemma balanced_renumber: "balanced (renumber_marker ''$'' off s) = balanced s"
proof (induction "length s" arbitrary: s rule: less_induct)
  case less
  show ?case
  proof (cases s)
    case Nil
    then show ?thesis by simp
  next
    case (Cons c cs)
    let ?ds = "takeWhile is_digit cs" and ?r = "dropWhile is_digit cs"
    have r: "drop (length ?ds) cs = ?r" by (simp add: dropWhile_eq_drop)
    have nodq: "filter (\<lambda>c. c = dq) (show_nat n) = []" for n
      using show_nat_digits by (fastforce simp: filter_empty_conv)
    have "filter (\<lambda>c. c = dq) cs = filter (\<lambda>c. c = dq) ?r"
      by (induction cs) auto
    moreover have "length ?r < length s" using Cons length_dropWhile_le [of is_digit cs] by simp
    ultimately show ?thesis
      using less.hyps [of ?r] less.hyps [of cs] Cons r nodq
      by (auto simp: balanced_def Let_def)
  qed
qed

lemma renumber_emits:
  assumes "emits t ns" and "clean_quotes False t"
  shows "emits (renumber_marker ''$'' off t) (map ((+) off) ns)"
  using assms renumber_scan [of Plain t off]
  by (simp add: emits_def scan_params_def balanced_renumber starts_digit_renumber)

lemma renumberPlaceholders_shift:
  "placeholder (traits d) = Numbered \<Longrightarrow> clean_quotes False t \<Longrightarrow>
     scan_params (renumberPlaceholders t off d) = map ((+) off) (scan_params t)"
  by (simp add: renumberPlaceholders_def scan_params_def renumber_scan)

end
