(* ===== verification/Query.thy ===== *)
theory Query
  imports SqlText
begin

section \<open>Values, compiled queries and extension expressions\<close>

text \<open>
  The data every renderer works on: the JavaScript values bound as parameters, the compiled query
  with its effects metadata (\<open>packages/sql/src/compiled-query.ts\<close>), the vector and spatial
  expressions (\<open>extensions/index.ts\<close>), and the rendering state that a compile threads through its
  clauses: the parameter array, and whether a primary connection is needed.
\<close>

subsection \<open>JavaScript values\<close>

text \<open>
  Numbers are integers, the three non-finite values, or a finite non-integer represented by its
  decimal rendering, which is all the code reads of it.
\<close>

datatype jsnum = IntNum int | FracNum string | NotANumber | PosInfinity | NegInfinity

datatype jsval =
    JUndefined
  | JNull
  | JBool bool
  | JNum jsnum
  | JBigint int
  | JStr string
  | JDate int
  | JArr "jsval list"
  | JObj "(string \<times> jsval) list"

fun is_finite :: "jsnum \<Rightarrow> bool" where
  "is_finite (IntNum _) = True"
| "is_finite (FracNum _) = True"
| "is_finite _ = False"

fun show_num :: "jsnum \<Rightarrow> string" where
  "show_num (IntNum i) = show_int i"
| "show_num (FracNum s) = s"
| "show_num NotANumber = ''NaN''"
| "show_num PosInfinity = ''Infinity''"
| "show_num NegInfinity = ''-Infinity''"

fun is_nullish :: "jsval \<Rightarrow> bool" where
  "is_nullish JUndefined = True"
| "is_nullish JNull = True"
| "is_nullish _ = False"

subsection \<open>Compiled queries\<close>

datatype query_operation = OpSelect | OpInsert | OpUpdate | OpDelete | OpUnknown

record query_effects =
  operation :: query_operation
  requiresPrimary :: bool
  returnsRows :: bool

record query_telemetry =
  system :: string
  telemetry_operation :: query_operation
  collection :: string

record compiled_query =
  cq_text :: string
  parameters :: "jsval list"
  effects :: query_effects
  telemetry :: "query_telemetry option"

definition READ_EFFECTS :: query_effects where
  "READ_EFFECTS = \<lparr>operation = OpSelect, requiresPrimary = False, returnsRows = True\<rparr>"

definition PRIMARY_READ_EFFECTS :: query_effects where
  "PRIMARY_READ_EFFECTS = \<lparr>operation = OpSelect, requiresPrimary = True, returnsRows = True\<rparr>"

definition UNKNOWN_ROW_EFFECTS :: query_effects where
  "UNKNOWN_ROW_EFFECTS = \<lparr>operation = OpUnknown, requiresPrimary = True, returnsRows = True\<rparr>"

definition UNKNOWN_WRITE_EFFECTS :: query_effects where
  "UNKNOWN_WRITE_EFFECTS = \<lparr>operation = OpUnknown, requiresPrimary = True, returnsRows = False\<rparr>"

definition writeEffects :: "query_operation \<Rightarrow> bool \<Rightarrow> query_effects" where
  "writeEffects op rows = \<lparr>operation = op, requiresPrimary = True, returnsRows = rows\<rparr>"

subsection \<open>The rendering state\<close>

text \<open>
  A renderer appends to the parameter array and may raise the \<open>requiresPrimary\<close> flag of the
  compile's effects object; a caller that passes no effects object ignores the flag.
\<close>

type_synonym render_state = "jsval list \<times> bool"

type_synonym 'a render = "render_state \<Rightarrow> js_error + ('a \<times> render_state)"

definition sreturn :: "'a \<Rightarrow> 'a render" where
  "sreturn x st = Inr (x, st)"

definition slift :: "js_error + 'a \<Rightarrow> 'a render" where
  "slift m st = rbind m (\<lambda>x. Inr (x, st))"

definition sbind :: "'a render \<Rightarrow> ('a \<Rightarrow> 'b render) \<Rightarrow> 'b render" where
  "sbind m f st = rbind (m st) (\<lambda>(x, st'). f x st')"

fun smap :: "('a \<Rightarrow> 'b render) \<Rightarrow> 'a list \<Rightarrow> 'b list render" where
  "smap f [] = sreturn []"
| "smap f (x # xs) = sbind (f x) (\<lambda>y. sbind (smap f xs) (\<lambda>ys. sreturn (y # ys)))"

definition raisePrimary :: "bool \<Rightarrow> unit render" where
  "raisePrimary b st = Inr ((), (fst st, snd st \<or> b))"

text \<open>\<open>params.push(value)\<close> followed by \<open>formatPlaceholder(dialect, params.length)\<close>.\<close>

definition pushParam :: "'x dialect_scheme \<Rightarrow> jsval \<Rightarrow> string render" where
  "pushParam d v st =
     Inr (formatPlaceholder d (Suc (length (fst st))), (fst st @ [v], snd st))"

definition pushRaw :: "jsval list \<Rightarrow> nat render" where
  "pushRaw vs st = Inr (length (fst st), (fst st @ vs, snd st))"

lemma sbind_Inr [result_simps]:
  "sbind m f st = Inr r \<longleftrightarrow> (\<exists>x st'. m st = Inr (x, st') \<and> f x st' = Inr r)"
  by (cases "m st") (auto simp: sbind_def)

lemma sreturn_Inr [result_simps]: "sreturn x st = Inr (y, st') \<longleftrightarrow> y = x \<and> st' = st"
  by (auto simp: sreturn_def)

lemma slift_Inr [result_simps]: "slift m st = Inr (y, st') \<longleftrightarrow> m = Inr y \<and> st' = st"
  by (auto simp: slift_def result_simps)

lemma pushParam_Inr [result_simps]:
  "pushParam d v st = Inr (s, st') \<longleftrightarrow>
     s = formatPlaceholder d (Suc (length (fst st))) \<and> st' = (fst st @ [v], snd st)"
  by (auto simp: pushParam_def)

lemma pushRaw_Inr [result_simps]:
  "pushRaw vs st = Inr (n, st') \<longleftrightarrow> n = length (fst st) \<and> st' = (fst st @ vs, snd st)"
  by (auto simp: pushRaw_def)

lemma raisePrimary_Inr [result_simps]:
  "raisePrimary b st = Inr (u, st') \<longleftrightarrow> st' = (fst st, snd st \<or> b)"
  by (auto simp: raisePrimary_def)

subsection \<open>Vector distances\<close>

datatype distance_op = L2 | Cosine | Ip

fun distance_operator :: "distance_op \<Rightarrow> string" where
  "distance_operator L2 = ''<->''"
| "distance_operator Cosine = ''<=>''"
| "distance_operator Ip = ''<#>''"

fun distance_name :: "distance_op \<Rightarrow> string" where
  "distance_name L2 = ''l2''"
| "distance_name Cosine = ''cosine''"
| "distance_name Ip = ''ip''"

definition distanceOpOf :: "string \<Rightarrow> distance_op option" where
  "distanceOpOf s = (if s = ''l2'' then Some L2 else if s = ''cosine'' then Some Cosine
     else if s = ''ip'' then Some Ip else None)"

definition isDistanceOp :: "string \<Rightarrow> bool" where
  "isDistanceOp s \<longleftrightarrow> distanceOpOf s \<noteq> None"

record distance_expression =
  dx_column :: string
  dx_operator :: distance_op
  dx_query :: jsval

definition encodePgVector :: "jsval \<Rightarrow> js_error + string" where
  "encodePgVector value =
     (case value of
        JArr xs \<Rightarrow>
          if xs = [] then Inl (TypeError ''a pgvector query must be a non-empty numeric array'')
          else rbind (map_result (\<lambda>component. case component of
                   JNum n \<Rightarrow> if is_finite n then Inr (show_num n)
                             else Inl (TypeError ''a pgvector query may contain only finite numbers'')
                 | _ \<Rightarrow> Inl (TypeError ''a pgvector query may contain only finite numbers'')) xs)
               (\<lambda>parts. Inr (''['' @ join '','' parts @ '']''))
      | _ \<Rightarrow> Inl (TypeError ''a pgvector query must be a non-empty numeric array''))"

definition requireExtensionFeature ::
  "string \<Rightarrow> bool \<Rightarrow> 'x dialect_scheme \<Rightarrow> js_error + unit" where
  "requireExtensionFeature feature supported d =
     (if supported then Inr () else Inl (UnsupportedFeature feature (d_name d)))"

definition renderDistanceExpression ::
  "'x dialect_scheme \<Rightarrow> distance_expression \<Rightarrow> string render" where
  "renderDistanceExpression d e =
     sbind (slift (requireExtensionFeature (distance_name (dx_operator e))
                     (vectorDistance (traits d)) d)) (\<lambda>_.
     sbind (slift (encodePgVector (dx_query e))) (\<lambda>enc.
     sbind (pushParam d (JStr enc)) (\<lambda>ph.
     sreturn (quoteColumn d (dx_column e) @ '' '' @ distance_operator (dx_operator e) @ '' '' @ ph))))"

definition renderAliasedDistanceExpression ::
  "'x dialect_scheme \<Rightarrow> distance_expression \<Rightarrow> string \<Rightarrow> string render" where
  "renderAliasedDistanceExpression d e alias =
     sbind (renderDistanceExpression d e) (\<lambda>s. sreturn (s @ '' AS '' @ quoteIdentifier d alias))"

subsection \<open>Spatial predicates\<close>

datatype spatial_fn = StContains | StWithin | StIntersects | StDwithin

fun spatial_function :: "spatial_fn \<Rightarrow> string" where
  "spatial_function StContains = ''ST_Contains''"
| "spatial_function StWithin = ''ST_Within''"
| "spatial_function StIntersects = ''ST_Intersects''"
| "spatial_function StDwithin = ''ST_DWithin''"

fun spatial_name :: "spatial_fn \<Rightarrow> string" where
  "spatial_name StContains = ''st_contains''"
| "spatial_name StWithin = ''st_within''"
| "spatial_name StIntersects = ''st_intersects''"
| "spatial_name StDwithin = ''st_dwithin''"

definition renderSpatialPredicate ::
  "'x dialect_scheme \<Rightarrow> spatial_fn \<Rightarrow> string \<Rightarrow> jsval \<Rightarrow> jsnum option \<Rightarrow> string render" where
  "renderSpatialPredicate d fn col value dist =
     sbind (slift (requireExtensionFeature (spatial_name fn) (spatialPredicates (traits d)) d)) (\<lambda>_.
     sbind (pushParam d value) (\<lambda>ph.
     let geometry = ''ST_GeomFromGeoJSON('' @ ph @ '')''; column = quoteColumn d col
     in if fn \<noteq> StDwithin
        then sreturn (spatial_function fn @ ''('' @ column @ '', '' @ geometry @ '')'')
        else (case dist of
                None \<Rightarrow> slift (Inl (TypeError ''st_dwithin requires a distance''))
              | Some n \<Rightarrow> sbind (pushParam d (JNum n)) (\<lambda>ph2.
                  sreturn (''ST_DWithin('' @ column @ '', '' @ geometry @ '', '' @ ph2 @ '')'')))))"

end
