(* ===== verification/Clauses.thy ===== *)
theory Clauses
  imports Query
begin

section \<open>Clause rendering\<close>

text \<open>
  \<open>packages/sql/src/clauses.ts\<close>: the predicate, join and tail renderers that every builder shares,
  as state transformers over the parameter array. The interface \<open>numbered_dialect\<close> collects what
  the renderers rely on in a dialect with numbered markers; inside it every renderer is shown to
  append its values to the array and to write exactly the numbers of the slots it filled.
\<close>

subsection \<open>Predicates\<close>

datatype connector = And | Or

fun connector_text :: "connector option \<Rightarrow> string" where
  "connector_text None = ''AND''"
| "connector_text (Some And) = ''AND''"
| "connector_text (Some Or) = ''OR''"

text \<open>
  The value of a comparison: an ordinary value, or an object with a \<open>compile()\<close> method, given by
  what the call returns or throws.
\<close>

datatype operand = Val jsval | Sub "js_error + compiled_query"

datatype predicate =
    Comparison string string operand "connector option"
  | Spatial spatial_fn string jsval "jsnum option" "connector option"
  | Group "predicate list" "connector option"
  | Match string string "connector option"

fun connector_of :: "predicate \<Rightarrow> connector option" where
  "connector_of (Comparison _ _ _ c) = c"
| "connector_of (Spatial _ _ _ _ c) = c"
| "connector_of (Group _ c) = c"
| "connector_of (Match _ _ c) = c"

definition escapeFts5Term :: "string \<Rightarrow> string" where
  "escapeFts5Term term = [dq] @ replace_all [dq] [dq, dq] term @ [dq]"

subsection \<open>Operators\<close>

definition OP_MAP :: "(string \<times> string) list" where
  "OP_MAP = [(''='', ''=''), (''!='', ''!=''), (''<'', ''<''), (''<='', ''<=''), (''>'', ''>''),
     (''>='', ''>=''), (''like'', ''LIKE''), (''ilike'', ''ILIKE''), (''in'', ''IN''),
     (''not in'', ''NOT IN''), (''nin'', ''NOT IN''), (''exists'', ''EXISTS''),
     (''not exists'', ''NOT EXISTS''), (''is null'', ''IS NULL''),
     (''is not null'', ''IS NOT NULL''), (''l2'', ''<->''), (''cosine'', ''<=>''), (''ip'', ''<#>'')]"

definition sqlOperator :: "string \<Rightarrow> 'x dialect_scheme \<Rightarrow> js_error + string" where
  "sqlOperator op d =
     (let normalized = trim (to_lower op)
      in if isDistanceOp normalized \<and> \<not> vectorDistance (traits d)
         then Inl (UnsupportedFeature normalized (d_name d))
         else case map_of OP_MAP normalized of
             Some mapped \<Rightarrow> Inr mapped
           | None \<Rightarrow>
               if \<not> acceptsOperator (traits d) op
               then Inl (TypeError (''invalid unmapped SQL operator '' @ op))
               else Inr op)"

subsection \<open>\<open>renderPredicate\<close>\<close>

definition predicateColumn ::
  "'x dialect_scheme \<Rightarrow> (string \<times> string) list \<Rightarrow> string option \<Rightarrow> string \<Rightarrow> string" where
  "predicateColumn d expressions root col =
     (case map_of expressions col of
        Some e \<Rightarrow> e
      | None \<Rightarrow> quoteColumn d (qualifyRootColumn col root))"

definition renderMatch ::
  "'x dialect_scheme \<Rightarrow> string option \<Rightarrow> string \<Rightarrow> string \<Rightarrow> string render" where
  "renderMatch d root col value =
     (let style = fts (traits d); column = quoteColumn d (qualifyRootColumn col root)
      in sbind (pushParam d (JStr (if style = FtsCompanionTable then escapeFts5Term value else value)))
         (\<lambda>ph. case style of
            FtsCompanionTable \<Rightarrow> sreturn (column @ '' MATCH '' @ ph)
          | FtsTsvector \<Rightarrow> sreturn
              (''to_tsvector('' @ [CHR 0x27] @ ''english'' @ [CHR 0x27] @ '', '' @ column @
               '') @@ to_tsquery('' @ [CHR 0x27] @ ''english'' @ [CHR 0x27] @ '', '' @ ph @ '')'')
          | FtsMatch \<Rightarrow> sreturn
              (''MATCH('' @ column @ '') AGAINST('' @ ph @ '' IN NATURAL LANGUAGE MODE)'')
          | FtsMatchPlain \<Rightarrow> sreturn (''MATCH('' @ column @ '') AGAINST('' @ ph @ '')'')
          | FtsNone \<Rightarrow> slift (Inl (UnsupportedFeature ''full-text search'' (d_name d)))))"

definition renderSubquery ::
  "'x dialect_scheme \<Rightarrow> string \<Rightarrow> string \<Rightarrow> js_error + compiled_query \<Rightarrow> string render" where
  "renderSubquery d column sqlOp compiled =
     sbind (slift compiled) (\<lambda>sub.
     sbind (raisePrimary (requiresPrimary (effects sub))) (\<lambda>_.
     sbind (pushRaw (parameters sub)) (\<lambda>before.
     let txt = renumberPlaceholders (cq_text sub) before d
     in sreturn
          (if sqlOp = ''EXISTS'' then ''EXISTS ('' @ txt @ '')''
           else if sqlOp = ''NOT EXISTS'' then ''NOT EXISTS ('' @ txt @ '')''
           else column @ '' '' @ sqlOp @ '' ('' @ txt @ '')''))))"

definition membershipValues :: "bool \<Rightarrow> jsval \<Rightarrow> jsval list" where
  "membershipValues isNotIn v =
     (let arr = (case v of JArr xs \<Rightarrow> xs | _ \<Rightarrow> [v])
      in if isNotIn then filter (\<lambda>item. \<not> is_nullish item) arr else arr)"

definition renderMembership ::
  "'x dialect_scheme \<Rightarrow> string \<Rightarrow> string \<Rightarrow> jsval \<Rightarrow> string render" where
  "renderMembership d column sqlOp v =
     (let isNotIn = (sqlOp = ''NOT IN''); arr = membershipValues isNotIn v
      in if arr = [] then sreturn (if isNotIn then ''1 = 1'' else ''1 = 0'')
         else sbind (smap (pushParam d) arr) (\<lambda>phs.
                sreturn (column @ '' '' @ sqlOp @ '' ('' @ join '', '' phs @ '')'')))"

definition renderComparison ::
  "'x dialect_scheme \<Rightarrow> (string \<times> string) list \<Rightarrow> string option \<Rightarrow> string \<Rightarrow> string \<Rightarrow> operand \<Rightarrow>
     string render" where
  "renderComparison d expressions root col op value =
     (let column = predicateColumn d expressions root col; normalized = trim (to_lower op)
      in sbind (slift (sqlOperator op d)) (\<lambda>sqlOp.
         if sqlOp = ''IS NULL'' \<or> sqlOp = ''IS NOT NULL'' then sreturn (column @ '' '' @ sqlOp)
         else if isDistanceOp normalized
         then sbind (slift (encodePgVector (case value of Val v \<Rightarrow> v | Sub _ \<Rightarrow> JObj []))) (\<lambda>enc.
              sbind (pushParam d (JStr enc)) (\<lambda>ph. sreturn (column @ '' '' @ sqlOp @ '' '' @ ph)))
         else (case value of
             Sub compiled \<Rightarrow> renderSubquery d column sqlOp compiled
           | Val v \<Rightarrow>
               if sqlOp = ''IN'' \<or> sqlOp = ''NOT IN'' then renderMembership d column sqlOp v
               else sbind (pushParam d v) (\<lambda>ph. sreturn (column @ '' '' @ sqlOp @ '' '' @ ph)))))"

fun renderPredicate ::
  "'x dialect_scheme \<Rightarrow> (string \<times> string) list \<Rightarrow> string option \<Rightarrow> predicate \<Rightarrow> string render"
and predicateParts ::
  "'x dialect_scheme \<Rightarrow> (string \<times> string) list \<Rightarrow> string option \<Rightarrow> bool \<Rightarrow> predicate list \<Rightarrow>
     string list render"
where
  "renderPredicate d ex root (Group ps c) =
     (if ps = [] then slift (Inl (TypeError ''predicate groups must not be empty''))
      else sbind (predicateParts d ex root True ps) (\<lambda>parts.
             sreturn (''('' @ join '' '' parts @ '')'')))"
| "renderPredicate d ex root (Spatial fn col v dist c) =
     renderSpatialPredicate d fn (qualifyRootColumn col root) v dist"
| "renderPredicate d ex root (Match col v c) = renderMatch d root col v"
| "renderPredicate d ex root (Comparison col op v c) = renderComparison d ex root col op v"
| "predicateParts d ex root first [] = sreturn []"
| "predicateParts d ex root first (p # ps) =
     sbind (renderPredicate d ex root p) (\<lambda>cond.
     sbind (predicateParts d ex root False ps) (\<lambda>rest.
     sreturn ((if first then cond else connector_text (connector_of p) @ '' '' @ cond) # rest)))"

definition predicateList ::
  "'x dialect_scheme \<Rightarrow> (string \<times> string) list \<Rightarrow> string option \<Rightarrow> predicate list \<Rightarrow> string render" where
  "predicateList d ex root preds =
     sbind (predicateParts d ex root True preds) (\<lambda>parts. sreturn (join '' '' parts))"

definition whereClause ::
  "'x dialect_scheme \<Rightarrow> string option \<Rightarrow> predicate list \<Rightarrow> string render" where
  "whereClause d root preds =
     (if preds = [] then sreturn []
      else sbind (predicateList d [] root preds) (\<lambda>s. sreturn ('' WHERE '' @ s)))"

definition havingClause ::
  "'x dialect_scheme \<Rightarrow> (string \<times> string) list \<Rightarrow> string option \<Rightarrow> predicate list \<Rightarrow>
     string render" where
  "havingClause d ex root preds =
     (if preds = [] then sreturn []
      else sbind (predicateList d ex root preds) (\<lambda>s. sreturn ('' HAVING '' @ s)))"

subsection \<open>Joins and the tail\<close>

datatype join_kind = InnerJoin | LeftJoin | RightJoin

fun JOIN_KEYWORD :: "join_kind \<Rightarrow> string" where
  "JOIN_KEYWORD InnerJoin = ''INNER JOIN''"
| "JOIN_KEYWORD LeftJoin = ''LEFT JOIN''"
| "JOIN_KEYWORD RightJoin = ''RIGHT JOIN''"

record join_condition =
  leftCol :: string
  rightCol :: string

record join_spec =
  j_kind :: join_kind
  j_target :: string
  j_conditions :: "join_condition list"
  j_on :: "predicate list"

definition joinCondition ::
  "'x dialect_scheme \<Rightarrow> string option \<Rightarrow> join_condition \<Rightarrow> string" where
  "joinCondition d root c =
     quoteColumn d (qualifyRootColumn (leftCol c) root) @ '' = '' @
     quoteColumn d (qualifyRootColumn (rightCol c) root)"

definition joinClause :: "'x dialect_scheme \<Rightarrow> string option \<Rightarrow> join_spec \<Rightarrow> string render" where
  "joinClause d root j =
     sbind (predicateParts d [] root True (j_on j)) (\<lambda>parts.
     sreturn ('' '' @ JOIN_KEYWORD (j_kind j) @ '' '' @ quoteTable d (j_target j) @ '' ON '' @
       join '' AND '' (map (joinCondition d root) (j_conditions j)) @
       (if parts = [] then [] else '' AND '' @ join '' '' parts)))"

definition joinClauses :: "'x dialect_scheme \<Rightarrow> string option \<Rightarrow> join_spec list \<Rightarrow> string render" where
  "joinClauses d root joins =
     sbind (smap (joinClause d root) joins) (\<lambda>parts. sreturn (concat parts))"

datatype direction = Asc | Desc

fun direction_text :: "direction \<Rightarrow> string" where
  "direction_text Asc = ''ASC''"
| "direction_text Desc = ''DESC''"

definition tailClause ::
  "'x dialect_scheme \<Rightarrow> (string \<times> direction) list \<Rightarrow> int option \<Rightarrow> int option \<Rightarrow> bool option \<Rightarrow>
     js_error + string" where
  "tailClause d orderBys limitN offsetN ordered =
     (let rendersOrderBy = orderBys \<noteq> [];
          order = (if rendersOrderBy
                   then '' ORDER BY '' @ join '', ''
                     (map (\<lambda>(c, dir). quoteColumn d c @ '' '' @ direction_text dir) orderBys)
                   else [])
      in rbind (paginate (traits d)
                  \<lparr>pt_limit = limitN, pt_offset = offsetN,
                   pt_ordered = override ordered rendersOrderBy\<rparr>)
               (\<lambda>p. Inr (order @ p)))"

definition queryTelemetry ::
  "'x dialect_scheme \<Rightarrow> query_operation \<Rightarrow> string \<Rightarrow> bool \<Rightarrow> query_telemetry option" where
  "queryTelemetry d op coll enabled =
     (if \<not> enabled then None
      else Some \<lparr>system = d_telemetrySystem d, telemetry_operation = op,
                 collection = unaliasedTable coll\<rparr>)"

definition frozenQuery ::
  "string \<Rightarrow> jsval list \<Rightarrow> query_effects \<Rightarrow> query_telemetry option \<Rightarrow> compiled_query" where
  "frozenQuery txt params eff tel =
     \<lparr>cq_text = txt, parameters = params, effects = eff, telemetry = tel\<rparr>"

end
