(* ===== verification/Numbering.thy ===== *)
theory Numbering
  imports Clauses
begin

section \<open>Parameter numbering of the rendered clauses\<close>

text \<open>
  The invariant that ties a statement's text to its parameter array on a dialect with numbered
  markers: a renderer appends its values to the array, and the text it returns carries exactly the
  numbers of the slots it filled, in order. \<open>numbered_dialect\<close> is the interface; PostgreSQL and
  CockroachDB provide it.
\<close>

subsection \<open>Advancing through the parameter array\<close>

definition advances :: "render_state \<Rightarrow> render_state \<Rightarrow> nat list \<Rightarrow> bool" where
  "advances st st' ns \<longleftrightarrow>
     (\<exists>vs. fst st' = fst st @ vs) \<and> ns = [Suc (length (fst st))..<Suc (length (fst st'))]"

lemma advances_refl: "fst st = fst st' \<Longrightarrow> advances st st' []"
  by (simp add: advances_def)

lemma upt_append_upt: "i \<le> j \<Longrightarrow> j \<le> k \<Longrightarrow> [i..<j] @ [j..<k] = [i..<k]"
  by (metis le_add_diff_inverse upt_add_eq_append)

lemma advances_trans: "advances a b m \<Longrightarrow> advances b c n \<Longrightarrow> advances a c (m @ n)"
  by (auto simp: advances_def upt_append_upt simp del: upt_Suc)

definition numbered_text :: "string render \<Rightarrow> bool" where
  "numbered_text m \<longleftrightarrow>
     (\<forall>st s st'. m st = Inr (s, st') \<longrightarrow> (\<exists>ns. advances st st' ns \<and> emits s ns))"

definition numbered_parts :: "string list render \<Rightarrow> bool" where
  "numbered_parts m \<longleftrightarrow>
     (\<forall>st ss st'. m st = Inr (ss, st') \<longrightarrow>
        (\<exists>nss. advances st st' (concat nss) \<and> list_all2 emits ss nss))"

lemma emits_join:
  "plain_text sep \<Longrightarrow> sep \<noteq> [] \<Longrightarrow> \<not> starts_digit sep \<Longrightarrow> list_all2 emits ss nss \<Longrightarrow>
     emits (join sep ss) (concat nss)"
proof (induction sep ss arbitrary: nss rule: join.induct)
  case (3 sep x y ys)
  then obtain n ns where nss: "nss = n # ns" "emits x n" "list_all2 emits (y # ys) ns"
    by (auto simp: list_all2_Cons1)
  with 3 have "emits (sep @ join sep (y # ys)) (concat ns)"
    by (intro emits_plain_prefix) simp_all
  with nss "3.prems" show ?case by (simp add: emits_append)
qed (auto simp: list_all2_Cons1)

lemma not_starts_digit_concat:
  "\<forall>s \<in> set ss. s \<noteq> [] \<and> \<not> starts_digit s \<Longrightarrow> \<not> starts_digit (concat ss)"
  by (induction ss) auto

lemma emits_concat:
  "list_all2 emits ss nss \<Longrightarrow> \<forall>s \<in> set ss. s \<noteq> [] \<and> \<not> starts_digit s \<Longrightarrow>
     emits (concat ss) (concat nss)"
  by (induction rule: list_all2_induct) (auto intro!: emits_append not_starts_digit_concat)

lemma numbered_parts_smap:
  assumes "\<And>x. x \<in> set xs \<Longrightarrow> numbered_text (f x)"
  shows "numbered_parts (smap f xs)"
  using assms
proof (induction xs)
  case Nil
  then show ?case by (auto simp: numbered_parts_def result_simps advances_refl intro!: exI [of _ "[]"])
next
  case (Cons x xs)
  show ?case unfolding numbered_parts_def
  proof (intro allI impI)
    fix st ss st' assume "smap f (x # xs) st = Inr (ss, st')"
    then obtain y st1 ys where s: "f x st = Inr (y, st1)" "smap f xs st1 = Inr (ys, st')" "ss = y # ys"
      by (auto simp: result_simps)
    obtain n where n: "advances st st1 n" "emits y n"
      using Cons.prems s unfolding numbered_text_def by (meson list.set_intros(1))
    obtain ns where ns: "advances st1 st' (concat ns)" "list_all2 emits ys ns"
      using Cons s unfolding numbered_parts_def by (meson list.set_intros(2))
    from n ns s show "\<exists>nss. advances st st' (concat nss) \<and> list_all2 emits ss nss"
      by (intro exI [of _ "n # ns"]) (auto intro: advances_trans)
  qed
qed

lemma numbered_slift:
  "(\<And>x. e = Inr x \<Longrightarrow> numbered_text (f x)) \<Longrightarrow> numbered_text (sbind (slift e) f)"
  by (auto simp: numbered_text_def result_simps)

lemma numbered_sreturn: "emits s [] \<Longrightarrow> numbered_text (sreturn s)"
  by (auto simp: numbered_text_def result_simps intro: advances_refl)

lemma numbered_if:
  "(c \<Longrightarrow> numbered_text a) \<Longrightarrow> (\<not> c \<Longrightarrow> numbered_text b) \<Longrightarrow> numbered_text (if c then a else b)"
  by simp

lemma numbered_fail: "numbered_text (slift (Inl e))"
  by (auto simp: numbered_text_def result_simps)

lemma numbered_map:
  "numbered_text m \<Longrightarrow> (\<And>s ns. emits s ns \<Longrightarrow> emits (g s) ns) \<Longrightarrow>
     numbered_text (sbind m (\<lambda>s. sreturn (g s)))"
  unfolding numbered_text_def by (simp add: result_simps) blast

lemma numbered_map2:
  assumes m: "numbered_text m" and n: "\<And>s. numbered_text (n s)"
    and g: "\<And>a b k l. emits a k \<Longrightarrow> emits b l \<Longrightarrow> emits (g a b) (k @ l)"
  shows "numbered_text (sbind m (\<lambda>a. sbind (n a) (\<lambda>b. sreturn (g a b))))"
  unfolding numbered_text_def
proof (intro allI impI)
  fix st s st' assume "sbind m (\<lambda>a. sbind (n a) (\<lambda>b. sreturn (g a b))) st = Inr (s, st')"
  then obtain a st1 b where r: "m st = Inr (a, st1)" "n a st1 = Inr (b, st')" "s = g a b"
    by (auto simp: result_simps)
  obtain k where "advances st st1 k" "emits a k" using m r unfolding numbered_text_def by meson
  moreover obtain l where "advances st1 st' l" "emits b l" using n r unfolding numbered_text_def by meson
  ultimately show "\<exists>ns. advances st st' ns \<and> emits s ns"
    using g r by (auto intro: advances_trans)
qed

lemma numbered_join:
  "numbered_parts m \<Longrightarrow> (\<And>ss nss. list_all2 emits ss nss \<Longrightarrow> emits (g ss) (concat nss)) \<Longrightarrow>
     numbered_text (sbind m (\<lambda>ss. sreturn (g ss)))"
  unfolding numbered_parts_def numbered_text_def by (simp add: result_simps) meson

definition good_query :: "compiled_query \<Rightarrow> bool" where
  "good_query q \<longleftrightarrow> emits (cq_text q) [1..<Suc (length (parameters q))] \<and>
     clean_quotes False (cq_text q)"

fun good_operand :: "operand \<Rightarrow> bool" where
  "good_operand (Sub (Inr q)) = good_query q"
| "good_operand _ = True"

fun good_pred :: "predicate \<Rightarrow> bool" where
  "good_pred (Comparison _ _ v _) = good_operand v"
| "good_pred (Group ps _) = list_all good_pred ps"
| "good_pred _ = True"

definition good_exprs :: "(string \<times> string) list \<Rightarrow> bool" where
  "good_exprs ex \<longleftrightarrow> (\<forall>p \<in> set ex. emits (snd p) [])"

lemma plain_literals [simp]:
  "plain_text []" "plain_text (c # s) \<longleftrightarrow> c \<noteq> dq \<and> c \<noteq> CHR ''$'' \<and> plain_text s"
  by (auto simp: plain_text_def)

lemma map_shift_upt: "map ((+) k) [1..<Suc n] = [Suc k..<Suc (k + n)]"
  by (induction n) simp_all

subsection \<open>The interface of a numbered dialect\<close>

locale numbered_dialect =
  fixes d :: "'x dialect_scheme"
  assumes numbered: "placeholder (traits d) = Numbered"
    and double_quotes: "single_quoted d dq dq"
    and plain_operators: "acceptsOperator (traits d) op \<Longrightarrow> plain_text op"
begin

lemmas emits_pieces = emits_quoteColumn [OF double_quotes] emits_quoteIdentifier [OF double_quotes]
  emits_quoteTable [OF double_quotes]

lemma pushParam_advances:
  "pushParam d v st = Inr (s, st') \<Longrightarrow>
     advances st st' [Suc (length (fst st))] \<and> emits s [Suc (length (fst st))]"
  by (auto simp: result_simps advances_def emits_formatPlaceholder numbered)

lemma numbered_pushParam: "numbered_text (pushParam d v)"
  unfolding numbered_text_def using pushParam_advances by blast

lemma emits_around:
  "plain_text a \<Longrightarrow> emits s ns \<Longrightarrow> plain_text b \<Longrightarrow> \<not> starts_digit b \<Longrightarrow> emits (a @ s @ b) ns"
  using emits_append [of s ns b "[]"] emits_plain_prefix [of a "s @ b" ns]
  by (simp add: emits_plain_text)

lemma emits_column_op:
  "emits column [] \<Longrightarrow> plain_text op \<Longrightarrow> emits s ns \<Longrightarrow> emits (column @ '' '' @ op @ '' '' @ s) ns"
  using emits_append [of column "[]" "'' '' @ op @ '' '' @ s" ns]
    emits_plain_prefix [of "'' '' @ op @ '' ''" s ns]
  by (simp add: plain_text_def)

lemma emits_column_op_parens:
  "emits column [] \<Longrightarrow> plain_text op \<Longrightarrow> emits s ns \<Longrightarrow>
     emits (column @ '' '' @ op @ '' ('' @ s @ '')'') ns"
  using emits_append [of column "[]" "'' '' @ op @ '' ('' @ s @ '')''" ns]
    emits_around [of "'' '' @ op @ '' (''" s ns "'')''"]
  by (simp add: plain_text_def)

lemma OP_MAP_plain: "map_of OP_MAP k = Some v \<Longrightarrow> plain_text v"
proof -
  have "\<forall>p \<in> set OP_MAP. plain_text (snd p)" by (simp add: OP_MAP_def)
  then show "map_of OP_MAP k = Some v \<Longrightarrow> plain_text v" by (force dest: map_of_SomeD)
qed

lemma sqlOperator_plain: "sqlOperator op d = Inr s \<Longrightarrow> plain_text s"
  using plain_operators [of op] OP_MAP_plain
  by (auto simp: sqlOperator_def Let_def split: if_splits option.splits)

lemma emits_predicateColumn: "good_exprs ex \<Longrightarrow> emits (predicateColumn d ex root col) []"
  by (force simp: predicateColumn_def emits_pieces good_exprs_def split: option.splits
      dest: map_of_SomeD)

lemma renderDistance_numbered: "numbered_text (renderDistanceExpression d e)"
proof -
  have "plain_text (distance_operator op)" for op by (cases op) auto
  then show ?thesis
    unfolding renderDistanceExpression_def
    by (intro numbered_slift numbered_map numbered_pushParam emits_column_op emits_pieces)
qed

lemma emits_call:
  "plain_text name \<Longrightarrow> emits s ns \<Longrightarrow>
     emits (name @ ''('' @ quoteColumn d col @ '', '' @ s @ '')'') ns"
  using emits_append [OF emits_pieces(1) [of col] emits_around [of "'', ''" s ns "'')''"]]
    emits_plain_prefix [of "name @ ''(''" "quoteColumn d col @ '', '' @ s @ '')''" ns]
  by (simp add: plain_text_def is_digit_def)

lemma emits_geometry: "emits s ns \<Longrightarrow> emits (''ST_GeomFromGeoJSON('' @ s @ '')'') ns"
  by (rule emits_around) simp_all

lemma emits_pair: "emits a k \<Longrightarrow> emits b l \<Longrightarrow> emits (a @ '', '' @ b) (k @ l)"
  using emits_append [of a k "'', '' @ b" l] emits_plain_prefix [of "'', ''" b l]
  by (simp add: is_digit_def)

lemma renderSpatial_numbered: "numbered_text (renderSpatialPredicate d fn col value dist)"
proof -
  have fn: "plain_text (spatial_function fn)"
    by (cases fn; simp)+
  have one: "numbered_text (sbind (pushParam d value) (\<lambda>ph.
      sreturn (spatial_function fn @ ''('' @ quoteColumn d col @ '', '' @
        (''ST_GeomFromGeoJSON('' @ ph @ '')'') @ '')'')))"
    by (intro numbered_map numbered_pushParam emits_call fn emits_geometry)
  have two: "numbered_text (sbind (pushParam d value) (\<lambda>ph. sbind (pushParam d (JNum n)) (\<lambda>ph2.
      sreturn (''ST_DWithin'' @ ''('' @ quoteColumn d col @ '', '' @
        ((''ST_GeomFromGeoJSON('' @ ph @ '')'') @ '', '' @ ph2) @ '')''))))" for n
    by (intro numbered_map2 numbered_pushParam emits_call emits_pair emits_geometry) simp_all
  show ?thesis
  proof (cases "fn = StDwithin")
    case False
    then have "renderSpatialPredicate d fn col value dist =
        sbind (slift (requireExtensionFeature (spatial_name fn) (spatialPredicates (traits d)) d))
          (\<lambda>_. sbind (pushParam d value) (\<lambda>ph.
             sreturn (spatial_function fn @ ''('' @ quoteColumn d col @ '', '' @
               (''ST_GeomFromGeoJSON('' @ ph @ '')'') @ '')'')))"
      by (simp add: renderSpatialPredicate_def Let_def)
    then show ?thesis using one by (metis (no_types, lifting) numbered_slift)
  next
    case True
    show ?thesis
    proof (cases dist)
      case None
      then show ?thesis
        using True by (simp add: renderSpatialPredicate_def numbered_text_def result_simps Let_def)
    next
      case (Some n)
      then have "renderSpatialPredicate d fn col value dist =
          sbind (slift (requireExtensionFeature (spatial_name fn) (spatialPredicates (traits d)) d))
            (\<lambda>_. sbind (pushParam d value) (\<lambda>ph. sbind (pushParam d (JNum n)) (\<lambda>ph2.
               sreturn (''ST_DWithin'' @ ''('' @ quoteColumn d col @ '', '' @
                 ((''ST_GeomFromGeoJSON('' @ ph @ '')'') @ '', '' @ ph2) @ '')''))))"
        using True by (simp add: renderSpatialPredicate_def Let_def)
      then show ?thesis using two by (metis (no_types, lifting) numbered_slift)
    qed
  qed
qed

lemma emits_match:
  assumes "emits s ns"
  shows "emits (quoteColumn d col @ '' MATCH '' @ s) ns"
    and "emits (''to_tsvector('' @ [CHR 0x27] @ ''english'' @ [CHR 0x27] @ '', '' @ quoteColumn d col @
      '') @@ to_tsquery('' @ [CHR 0x27] @ ''english'' @ [CHR 0x27] @ '', '' @ s @ '')'') ns"
    and "emits (''MATCH('' @ quoteColumn d col @ '') AGAINST('' @ s @ '' IN NATURAL LANGUAGE MODE)'') ns"
    and "emits (''MATCH('' @ quoteColumn d col @ '') AGAINST('' @ s @ '')'') ns"
proof -
  have mid: "emits (p @ quoteColumn d col @ q @ s @ r) ns"
    if "plain_text p" "plain_text q" "q \<noteq> []" "\<not> starts_digit q" "plain_text r"
      "\<not> starts_digit r" for p q r
    using that emits_plain_prefix [OF that(1) emits_append [OF emits_pieces(1)
        emits_around [OF that(2) assms that(5,6)]]]
    by simp
  show "emits (quoteColumn d col @ '' MATCH '' @ s) ns"
    using mid [of "[]" "'' MATCH ''" "[]"] by (simp add: is_digit_def)
  show "emits (''to_tsvector('' @ [CHR 0x27] @ ''english'' @ [CHR 0x27] @ '', '' @ quoteColumn d col @
      '') @@ to_tsquery('' @ [CHR 0x27] @ ''english'' @ [CHR 0x27] @ '', '' @ s @ '')'') ns"
    using mid [of "''to_tsvector('' @ [CHR 0x27] @ ''english'' @ [CHR 0x27] @ '', ''"
        "'') @@ to_tsquery('' @ [CHR 0x27] @ ''english'' @ [CHR 0x27] @ '', ''" "'')''"]
    by (simp add: is_digit_def)
  show "emits (''MATCH('' @ quoteColumn d col @ '') AGAINST('' @ s @ '' IN NATURAL LANGUAGE MODE)'') ns"
    and "emits (''MATCH('' @ quoteColumn d col @ '') AGAINST('' @ s @ '')'') ns"
    using mid [of "''MATCH(''" "'') AGAINST(''" "'' IN NATURAL LANGUAGE MODE)''"]
      mid [of "''MATCH(''" "'') AGAINST(''" "'')''"] by (simp_all add: is_digit_def)
qed

lemma renderMatch_numbered: "numbered_text (renderMatch d root col v)"
  unfolding renderMatch_def Let_def
  by (cases "fts (traits d)"; simp only: fts_style.case)
    (intro numbered_map numbered_pushParam emits_match; assumption |
     simp add: numbered_text_def result_simps)+

lemma renderSubquery_numbered:
  assumes col: "emits column []" and op: "plain_text sqlOp" and good: "\<And>q. c = Inr q \<Longrightarrow> good_query q"
  shows "numbered_text (renderSubquery d column sqlOp c)"
  unfolding numbered_text_def
proof (intro allI impI)
  fix st s st' assume "renderSubquery d column sqlOp c st = Inr (s, st')"
  then obtain q body where c: "c = Inr q" and st': "fst st' = fst st @ parameters q"
    and body: "body = renumberPlaceholders (cq_text q) (length (fst st)) d"
    and s: "s = (if sqlOp = ''EXISTS'' then ''EXISTS ('' @ body @ '')''
       else if sqlOp = ''NOT EXISTS'' then ''NOT EXISTS ('' @ body @ '')''
       else column @ '' '' @ sqlOp @ '' ('' @ body @ '')'')"
    by (auto simp: renderSubquery_def Let_def result_simps)
  let ?ns = "[Suc (length (fst st))..<Suc (length (fst st'))]"
  have "emits body (map ((+) (length (fst st))) [1..<Suc (length (parameters q))])"
    using good [OF c] renumber_emits unfolding body good_query_def renumberPlaceholders_def
    by (simp only: numbered placeholder_style.case)
  then have "emits body ?ns"
    by (simp only: map_shift_upt st' length_append)
  then have "emits s ?ns"
    unfolding s using emits_column_op_parens [OF col op] emits_around [of "''EXISTS (''" body ?ns "'')''"]
      emits_around [of "''NOT EXISTS (''" body ?ns "'')''"]
    by (simp del: upt_Suc)
  then show "\<exists>ns. advances st st' ns \<and> emits s ns"
    using st' by (auto simp: advances_def simp del: upt_Suc)
qed

lemma emits_parenthesised: "emits s ns \<Longrightarrow> emits (''('' @ s @ '')'') ns"
  by (rule emits_around) simp_all

lemma emits_comma_join: "list_all2 emits ss nss \<Longrightarrow> emits (join '', '' ss) (concat nss)"
  by (rule emits_join) (simp_all add: is_digit_def)

lemma emits_space_join: "list_all2 emits ss nss \<Longrightarrow> emits (join '' '' ss) (concat nss)"
  by (rule emits_join) simp_all

lemma renderMembership_numbered:
  assumes "emits column []" and "plain_text sqlOp"
  shows "numbered_text (renderMembership d column sqlOp v)"
proof (cases "membershipValues (sqlOp = ''NOT IN'') v = []")
  case True
  have "numbered_text (sreturn ''1 = 1'')" "numbered_text (sreturn ''1 = 0'')"
    by (intro numbered_sreturn emits_plain_text; simp)+
  with True show ?thesis by (simp add: renderMembership_def)
next
  case False
  then show ?thesis
    unfolding renderMembership_def Let_def if_not_P [OF False]
    by (intro numbered_join numbered_parts_smap numbered_pushParam emits_column_op_parens assms
        emits_comma_join)
qed

lemma renderComparison_numbered:
  assumes ex: "good_exprs ex" and good: "good_operand v"
  shows "numbered_text (renderComparison d ex root col op v)"
proof -
  let ?c = "predicateColumn d ex root col"
  have col: "emits ?c []" by (rule emits_predicateColumn [OF ex])
  have sub: "numbered_text (renderSubquery d ?c s c)" if "plain_text s" "v = Sub c" for s c
    using that good by (intro renderSubquery_numbered col) auto
  have bare: "numbered_text (sreturn (?c @ '' '' @ s))" if "plain_text s" for s
    using emits_append [OF col emits_plain_text [of "'' '' @ s"]] that
    by (intro numbered_sreturn) simp
  have op: "numbered_text (sbind (pushParam d x) (\<lambda>ph. sreturn (?c @ '' '' @ s @ '' '' @ ph)))"
    if "plain_text s" for s x
    by (intro numbered_map numbered_pushParam emits_column_op col that)
  show ?thesis
    unfolding renderComparison_def Let_def
  proof (rule numbered_slift)
    fix s assume "sqlOperator op d = Inr s"
    then have s: "plain_text s" by (rule sqlOperator_plain)
    show "numbered_text (if s = ''IS NULL'' \<or> s = ''IS NOT NULL'' then sreturn (?c @ '' '' @ s)
         else if isDistanceOp (trim (to_lower op))
         then sbind (slift (encodePgVector (case v of Val v \<Rightarrow> v | Sub _ \<Rightarrow> JObj []))) (\<lambda>enc.
              sbind (pushParam d (JStr enc)) (\<lambda>ph. sreturn (?c @ '' '' @ s @ '' '' @ ph)))
         else (case v of
             Sub compiled \<Rightarrow> renderSubquery d ?c s compiled
           | Val v \<Rightarrow>
               if s = ''IN'' \<or> s = ''NOT IN'' then renderMembership d ?c s v
               else sbind (pushParam d v) (\<lambda>ph. sreturn (?c @ '' '' @ s @ '' '' @ ph))))"
      by (cases v; simp only: operand.case; intro numbered_if bare numbered_slift op
          renderMembership_numbered col s sub)
  qed
qed

lemma emits_connector: "emits s ns \<Longrightarrow> emits (connector_text c @ '' '' @ s) ns"
  using emits_plain_prefix [of "connector_text c @ '' ''" s ns]
  by (cases c rule: connector_text.cases) simp_all

lemma predicateParts_numbered:
  assumes "\<And>p. p \<in> set ps \<Longrightarrow> numbered_text (renderPredicate d ex root p)"
  shows "numbered_parts (predicateParts d ex root first ps)"
  using assms
proof (induction ps arbitrary: first)
  case Nil
  then show ?case by (auto simp: numbered_parts_def result_simps advances_refl intro!: exI [of _ "[]"])
next
  case (Cons p ps)
  show ?case unfolding numbered_parts_def
  proof (intro allI impI)
    fix st ss st' assume "predicateParts d ex root first (p # ps) st = Inr (ss, st')"
    then obtain c st1 cs where s: "renderPredicate d ex root p st = Inr (c, st1)"
      "predicateParts d ex root False ps st1 = Inr (cs, st')"
      "ss = (if first then c else connector_text (connector_of p) @ '' '' @ c) # cs"
      by (auto simp: result_simps)
    obtain n where n: "advances st st1 n" "emits c n"
      using Cons.prems s unfolding numbered_text_def by (meson list.set_intros(1))
    obtain ns where ns: "advances st1 st' (concat ns)" "list_all2 emits cs ns"
      using Cons s unfolding numbered_parts_def by (meson list.set_intros(2))
    from n ns s show "\<exists>nss. advances st st' (concat nss) \<and> list_all2 emits ss nss"
      by (intro exI [of _ "n # ns"])
        (auto intro: advances_trans emits_connector simp del: append.simps append_Cons)
  qed
qed

lemma renderPredicate_numbered:
  "good_exprs ex \<Longrightarrow> good_pred p \<Longrightarrow> numbered_text (renderPredicate d ex root p)"
proof (induction p)
  case (Group ps c)
  then have "numbered_parts (predicateParts d ex root True ps)"
    by (intro predicateParts_numbered) (simp add: list_all_iff)
  then have "numbered_text (sbind (predicateParts d ex root True ps) (\<lambda>parts.
      sreturn (''('' @ join '' '' parts @ '')'')))"
    by (intro numbered_join emits_parenthesised emits_space_join)
  then show ?case by (simp add: numbered_fail)
qed (auto intro: renderSpatial_numbered renderMatch_numbered renderComparison_numbered)

lemma predicateList_numbered:
  assumes "good_exprs ex" and "list_all good_pred ps"
  shows "numbered_text (predicateList d ex root ps)"
  unfolding predicateList_def using assms
  by (intro numbered_join predicateParts_numbered emits_space_join)
    (simp add: list_all_iff renderPredicate_numbered)

lemma good_exprs_Nil [simp]: "good_exprs []"
  by (simp add: good_exprs_def)

lemma whereClause_numbered:
  "list_all good_pred ps \<Longrightarrow> numbered_text (whereClause d root ps)"
  unfolding whereClause_def
  by (intro numbered_if numbered_map predicateList_numbered emits_plain_prefix numbered_sreturn) simp_all

lemma havingClause_numbered:
  "good_exprs ex \<Longrightarrow> list_all good_pred ps \<Longrightarrow> numbered_text (havingClause d ex root ps)"
  unfolding havingClause_def
  by (intro numbered_if numbered_map predicateList_numbered emits_plain_prefix numbered_sreturn) simp_all

lemma emits_conditions:
  "emits (join '' AND '' (map (joinCondition d root) cs)) []"
proof -
  have "emits (joinCondition d root c) []" for c
    unfolding joinCondition_def
    by (rule emits_append [OF emits_pieces(1) emits_plain_prefix [OF _ emits_pieces(1)], simplified append_Nil])
      simp_all
  then show ?thesis by (intro emits_join_plain) auto
qed

lemma joinClause_numbered:
  assumes "list_all good_pred (j_on j)"
  shows "numbered_text (joinClause d root j)"
proof -
  let ?head = "'' '' @ JOIN_KEYWORD (j_kind j) @ '' '' @ quoteTable d (j_target j) @ '' ON '' @
       join '' AND '' (map (joinCondition d root) (j_conditions j))"
  have kw: "plain_text ('' '' @ JOIN_KEYWORD (j_kind j) @ '' '')" by (cases "j_kind j") simp_all
  have head: "emits ?head []"
  proof -
    have "emits ('' ON '' @ join '' AND '' (map (joinCondition d root) (j_conditions j))) []"
      by (rule emits_plain_prefix [OF _ emits_conditions]) simp
    from emits_append [OF emits_pieces(3) this]
    have "emits (quoteTable d (j_target j) @ '' ON '' @
        join '' AND '' (map (joinCondition d root) (j_conditions j))) []" by simp
    from emits_plain_prefix [OF kw this] show ?thesis by simp
  qed
  have "emits (?head @ (if parts = [] then [] else '' AND '' @ join '' '' parts)) (concat nss)"
    if "list_all2 emits parts nss" for parts nss
    using that head emits_append [OF head emits_plain_prefix [OF _ emits_space_join [OF that]],
        of "'' AND ''"] by auto
  then show ?thesis
    unfolding joinClause_def using assms
    by (intro numbered_join predicateParts_numbered)
      (auto simp: list_all_iff intro: renderPredicate_numbered simp del: append.simps append_Cons)
qed

lemma joinClause_starts: "joinClause d root j st = Inr (s, st') \<Longrightarrow> s \<noteq> [] \<and> \<not> starts_digit s"
  by (auto simp: joinClause_def result_simps)

lemma smap_set:
  "smap f xs st = Inr (ys, st') \<Longrightarrow> y \<in> set ys \<Longrightarrow> \<exists>x \<in> set xs. \<exists>s s'. f x s = Inr (y, s')"
proof (induction xs arbitrary: st ys)
  case (Cons x xs)
  then obtain z s1 zs where s: "f x st = Inr (z, s1)" "smap f xs s1 = Inr (zs, st')" "ys = z # zs"
    by (auto simp: result_simps)
  show ?case
  proof (cases "y = z")
    case True
    with s show ?thesis by (intro bexI [of _ x] exI [of _ st] exI [of _ s1]) simp_all
  next
    case False
    with s Cons.prems have "y \<in> set zs" by simp
    with Cons.IH [OF s(2)] show ?thesis by (blast intro: list.set_intros(2))
  qed
qed (simp add: result_simps)

lemma joinClauses_numbered:
  assumes "\<forall>j \<in> set js. list_all good_pred (j_on j)"
  shows "numbered_text (joinClauses d root js)"
  unfolding numbered_text_def
proof (intro allI impI)
  fix st s st' assume "joinClauses d root js st = Inr (s, st')"
  then obtain parts where r: "smap (joinClause d root) js st = Inr (parts, st')" and s: "s = concat parts"
    by (auto simp: joinClauses_def result_simps)
  have "numbered_parts (smap (joinClause d root) js)"
    using assms by (intro numbered_parts_smap joinClause_numbered) blast
  with r obtain nss where "advances st st' (concat nss)" "list_all2 emits parts nss"
    unfolding numbered_parts_def by meson
  moreover have "\<forall>p \<in> set parts. p \<noteq> [] \<and> \<not> starts_digit p"
    using smap_set [OF r] joinClause_starts by blast
  ultimately show "\<exists>ns. advances st st' ns \<and> emits s ns"
    unfolding s by (auto intro: emits_concat)
qed

end

subsection \<open>PostgreSQL and CockroachDB\<close>

lemma postgres_operators: "postgresAcceptsOperator op \<Longrightarrow> plain_text op"
  using operator_token_chars [of op]
  by (fastforce simp: postgresAcceptsOperator_def plain_text_def)

interpretation pg: numbered_dialect postgres
  by unfold_locales
    (simp_all add: dialect_defs single_quoted_def postgres_operators)

end
