(* ===== verification/QueryBinding.thy ===== *)
theory QueryBinding
  imports Clauses
begin

section \<open>Schema names and query bindings\<close>

text \<open>
  \<open>packages/sql/src/query-binding.ts\<close>: the target of a statement is a trusted physical table or a
  declared schema. A binding of a declared schema carries the map from property names to physical
  columns, through which every column of the statement is resolved; a binding of a trusted table
  passes columns on as they are written. The cache of the names per schema object (\<open>schemaNames\<close>)
  holds what \<open>schema_names_of\<close> computes and is not modelled as state.
\<close>

subsection \<open>Targets\<close>

datatype fts_target = FtsUndefined | FtsFlag bool | FtsTable string

record ir_column =
  ir_name :: string
  physicalName :: string

record core_schema =
  ir_table :: string
  physicalTable :: string
  ir_columns :: "ir_column list"
  cs_ftsTable :: fts_target

datatype query_target = TrustedTable string fts_target | DeclaredSchema core_schema | OtherTarget

definition trustedTable :: "string \<Rightarrow> fts_target \<Rightarrow> query_target" where
  "trustedTable tbl f = TrustedTable tbl f"

datatype projected = PlainColumn string | AliasedColumn string string

record schema_names =
  columns_map :: "(string \<times> string) list"
  projection :: "projected list"

record query_binding =
  qb_table :: string
  qb_name :: string
  qb_reference :: string
  qb_alias :: "string option"
  qb_names :: "schema_names option"
  qb_ftsTable :: fts_target

definition schema_names_of :: "core_schema \<Rightarrow> schema_names" where
  "schema_names_of s = \<lparr>
     columns_map = foldl (\<lambda>m c. AList.update (ir_name c) (physicalName c) m) [] (ir_columns s),
     projection = map (\<lambda>c. if ir_name c = physicalName c then PlainColumn (ir_name c)
                           else AliasedColumn (physicalName c) (ir_name c)) (ir_columns s)\<rparr>"

subsection \<open>\<open>bindTable\<close>\<close>

text \<open>
  \<open>/^(\S+)\s+(?:as\s+)?(\S+)$/i\<close> on a trimmed string: two words, or three with \<open>as\<close> between.
\<close>

definition aliased_table :: "string \<Rightarrow> (string \<times> string) option" where
  "aliased_table s = (case words_of s of
     [a, b] \<Rightarrow> Some (a, b)
   | [a, k, b] \<Rightarrow> if to_lower k = ''as'' then Some (a, b) else None
   | _ \<Rightarrow> None)"

fun bindTable :: "query_target \<Rightarrow> string option \<Rightarrow> js_error + query_binding" where
  "bindTable (TrustedTable tbl f) alias =
     (let found = aliased_table (trim tbl);
          name = (case found of Some (a, _) \<Rightarrow> a | None \<Rightarrow> trim tbl);
          tableAlias = (case alias of Some a \<Rightarrow> Some a | None \<Rightarrow> map_option snd found)
      in Inr \<lparr>
        qb_table = (case tableAlias of
            Some a \<Rightarrow> if a \<noteq> [] \<and> (a \<noteq> name \<or> found \<noteq> None) then name @ '' AS '' @ a else name
          | None \<Rightarrow> name),
        qb_name = name,
        qb_reference = (case tableAlias of Some a \<Rightarrow> a | None \<Rightarrow> name),
        qb_alias = tableAlias, qb_names = None, qb_ftsTable = f\<rparr>)"
| "bindTable (DeclaredSchema s) alias = Inr \<lparr>
     qb_table = (case alias of
         Some a \<Rightarrow> if a \<noteq> [] then physicalTable s @ '' AS '' @ a else physicalTable s
       | None \<Rightarrow> physicalTable s),
     qb_name = ir_table s,
     qb_reference = (case alias of Some a \<Rightarrow> a | None \<Rightarrow> physicalTable s),
     qb_alias = alias, qb_names = Some (schema_names_of s), qb_ftsTable = cs_ftsTable s\<rparr>"
| "bindTable OtherTarget alias =
     Inl (TypeError ''a query requires a declared schema or an explicit trustedTable target'')"

subsection \<open>Resolving columns\<close>

definition scope_name :: "query_binding \<Rightarrow> string" where
  "scope_name b = (case qb_alias b of Some a \<Rightarrow> a | None \<Rightarrow> qb_name b)"

definition columnBinding ::
  "query_binding \<Rightarrow> query_binding list \<Rightarrow> string \<Rightarrow> js_error + query_binding" where
  "columnBinding root joins column = (case last_index CHR ''.'' column of
     None \<Rightarrow> Inr root
   | Some dot \<Rightarrow>
       (let name = take dot column
        in if name = scope_name root then Inr root
           else case find (\<lambda>b. name = scope_name b) joins of
               Some b \<Rightarrow> Inr b
             | None \<Rightarrow>
                 if qb_names root = None then Inr root
                 else Inl (TypeError
                   (''column '' @ json_string column @ '' is outside the query schema scope''))))"

text \<open>\<open>column.slice(column.lastIndexOf('.') + 1)\<close>.\<close>

definition after_dot :: "string \<Rightarrow> string" where
  "after_dot column = (case last_index CHR ''.'' column of
     None \<Rightarrow> column | Some dot \<Rightarrow> drop (Suc dot) column)"

definition mapColumn ::
  "query_binding \<Rightarrow> string \<Rightarrow> query_binding list \<Rightarrow> js_error + string" where
  "mapColumn root column joins =
     (if column = ''*'' \<or> column = [] then Inr column
      else rbind (columnBinding root joins column) (\<lambda>b.
        case qb_names b of
          None \<Rightarrow> Inr column
        | Some names \<Rightarrow>
            let property = after_dot column;
                physical = (if property = ''*'' then Some ''*'' else map_of (columns_map names) property)
            in case physical of
                 None \<Rightarrow> if qb_names root = None then Inr column
                         else Inl (TypeError (''unknown schema property '' @ json_string column))
               | Some p \<Rightarrow> Inr (if last_index CHR ''.'' column = None then p
                               else qb_reference b @ ''.'' @ p)))"

definition mapProjection ::
  "query_binding \<Rightarrow> projected \<Rightarrow> query_binding list \<Rightarrow> js_error + projected" where
  "mapProjection root p joins = (case p of
     AliasedColumn c a \<Rightarrow> rbind (mapColumn root c joins) (\<lambda>m. Inr (AliasedColumn m a))
   | PlainColumn c \<Rightarrow> rbind (mapColumn root c joins) (\<lambda>physical.
       Inr (if c \<noteq> ''*'' \<and> \<not> suffix ''.*'' c \<and> (includes_char CHR ''.'' c \<or> physical \<noteq> c)
            then AliasedColumn physical c else PlainColumn physical)))"

fun mapPredicate ::
  "query_binding \<Rightarrow> query_binding list \<Rightarrow> predicate \<Rightarrow> js_error + predicate"
and mapPredicates ::
  "query_binding \<Rightarrow> query_binding list \<Rightarrow> predicate list \<Rightarrow> js_error + predicate list"
where
  "mapPredicate root joins (Group ps c) = rbind (mapPredicates root joins ps) (\<lambda>qs. Inr (Group qs c))"
| "mapPredicate root joins (Comparison col op v c) =
     rbind (mapColumn root col joins) (\<lambda>m. Inr (Comparison m op v c))"
| "mapPredicate root joins (Spatial fn col v dist c) =
     rbind (mapColumn root col joins) (\<lambda>m. Inr (Spatial fn m v dist c))"
| "mapPredicate root joins (Match col v c) =
     rbind (mapColumn root col joins) (\<lambda>m. Inr (Match m v c))"
| "mapPredicates root joins [] = Inr []"
| "mapPredicates root joins (p # ps) =
     rbind (mapPredicate root joins p) (\<lambda>q. rbind (mapPredicates root joins ps) (\<lambda>qs. Inr (q # qs)))"

text \<open>
  A row is an object, kept as the list of its entries in order; \<open>Object.fromEntries\<close> keeps the last
  value of a repeated key in the place of its first.
\<close>

definition from_entries :: "('k \<times> 'v) list \<Rightarrow> ('k \<times> 'v) list" where
  "from_entries es = foldl (\<lambda>m (k, v). AList.update k v m) [] es"

definition mapRow ::
  "query_binding \<Rightarrow> (string \<times> 'v) list \<Rightarrow> js_error + (string \<times> 'v) list" where
  "mapRow b row =
     (if qb_names b = None then Inr row
      else rbind (map_result (\<lambda>(k, v). rbind (mapColumn b k []) (\<lambda>m. Inr (m, v))) row)
             (\<lambda>es. Inr (from_entries es)))"

subsection \<open>A schema's columns resolve inside the query's scope\<close>

text \<open>
  \<open>in_scope\<close> lists what a column of a statement on a declared schema may become: the row marker, a
  physical column of the root, a physical column (or \<open>*\<close>) behind the reference of a binding with
  names, or any column behind the scope name of a joined trusted table.
\<close>

definition physical_columns :: "query_binding \<Rightarrow> string list" where
  "physical_columns b = (case qb_names b of None \<Rightarrow> [] | Some n \<Rightarrow> map snd (columns_map n))"

definition in_scope :: "query_binding \<Rightarrow> query_binding list \<Rightarrow> string \<Rightarrow> bool" where
  "in_scope root joins p \<longleftrightarrow>
     p \<in> set ([] # ''*'' # physical_columns root) \<or>
     (\<exists>b \<in> set (root # joins). qb_names b \<noteq> None \<and>
        (\<exists>c \<in> set (''*'' # physical_columns b). p = qb_reference b @ ''.'' @ c)) \<or>
     (\<exists>b \<in> set joins. qb_names b = None \<and> prefix (scope_name b @ ''.'') p)"

lemma last_index_take: "last_index c s = Some i \<Longrightarrow> prefix (take i s @ [c]) s"
  using last_index_bound [of c s i] by (metis take_Suc_conv_app_nth take_is_prefix)

lemma columnBinding_cases:
  assumes "columnBinding root joins col = Inr b" and "qb_names root \<noteq> None"
  shows "b = root \<or> b \<in> set joins \<and> prefix (scope_name b @ ''.'') col"
proof (cases "last_index CHR ''.'' col")
  case (Some i)
  then show ?thesis
    using assms last_index_take [OF Some]
    by (auto simp: columnBinding_def Let_def find_Some_iff in_set_conv_nth split: if_splits option.splits)
qed (use assms in \<open>simp add: columnBinding_def\<close>)

lemma map_of_columns: "map_of m k = Some v \<Longrightarrow> v \<in> set (map snd m)"
  by (force dest: map_of_SomeD)

lemma mapColumn_in_scope:
  assumes "mapColumn root col joins = Inr p" and "qb_names root \<noteq> None"
  shows "in_scope root joins p"
proof (cases "col = ''*'' \<or> col = []")
  case True
  with assms show ?thesis by (auto simp: mapColumn_def in_scope_def)
next
  case False
  then obtain b where b: "columnBinding root joins col = Inr b"
    using assms by (auto simp: mapColumn_def result_simps)
  note cases = columnBinding_cases [OF b assms(2)]
  show ?thesis
  proof (cases "qb_names b")
    case None
    with b False assms cases show ?thesis by (auto simp: mapColumn_def in_scope_def)
  next
    case (Some n)
    obtain q where q: "q = ''*'' \<or> map_of (columns_map n) (after_dot col) = Some q"
      and p: "p = (if last_index CHR ''.'' col = None then q else qb_reference b @ ''.'' @ q)"
      using b False Some assms
      by (auto simp: mapColumn_def Let_def split: if_splits option.splits)
    have "q \<in> set (''*'' # physical_columns b)"
      using q Some by (auto simp: physical_columns_def dest: map_of_columns)
    moreover have "b = root" if "last_index CHR ''.'' col = None"
      using that b by (simp add: columnBinding_def)
    ultimately show ?thesis
      using p Some cases by (auto simp: in_scope_def)
  qed
qed

fun predicate_columns :: "predicate \<Rightarrow> string list" where
  "predicate_columns (Group ps _) = concat (map predicate_columns ps)"
| "predicate_columns (Comparison col _ _ _) = [col]"
| "predicate_columns (Spatial _ col _ _ _) = [col]"
| "predicate_columns (Match col _ _) = [col]"

lemma mapPredicate_in_scope:
  "mapPredicate root joins p = Inr q \<Longrightarrow> qb_names root \<noteq> None \<Longrightarrow>
     list_all (in_scope root joins) (predicate_columns q)"
  "mapPredicates root joins ps = Inr qs \<Longrightarrow> qb_names root \<noteq> None \<Longrightarrow>
     \<forall>q \<in> set qs. list_all (in_scope root joins) (predicate_columns q)"
proof (induction root joins p and root joins ps arbitrary: q and qs
    rule: mapPredicate_mapPredicates.induct)
  case (1 root joins ps c)
  then show ?case by (auto simp: result_simps list_all_iff)
qed (auto simp: result_simps intro: mapColumn_in_scope [OF _ option.discI])

subsection \<open>Rows keep their values\<close>

lemma from_entries_snoc: "from_entries (es @ [(k, v)]) = AList.update k v (from_entries es)"
  by (simp add: from_entries_def)

lemma map_of_from_entries: "map_of (from_entries es) = map_of (rev es)"
  by (induction es rule: rev_induct) (auto simp: from_entries_snoc from_entries_def [of "[]"])

lemma map_of_rev_distinct: "distinct (map fst es) \<Longrightarrow> map_of (rev es) = map_of es"
  by (rule map_of_eqI) (auto simp: rev_map [symmetric] map_of_eq_Some_iff)

lemma mapRow_keeps_values:
  assumes row: "mapRow b row = Inr out" and keys: "distinct (map fst row)"
    and inj: "\<And>k l m. k \<in> fst ` set row \<Longrightarrow> l \<in> fst ` set row \<Longrightarrow>
      mapColumn b k [] = Inr m \<Longrightarrow> mapColumn b l [] = Inr m \<Longrightarrow> k = l"
    and names: "qb_names b \<noteq> None" and k: "map_of row k = Some v" and m: "mapColumn b k [] = Inr m"
  shows "map_of out m = Some v"
proof -
  obtain es where es: "list_all2 (\<lambda>(k, v) (m, w). mapColumn b k [] = Inr m \<and> w = v) row es"
    and out: "out = from_entries es"
  proof -
    from row names obtain es
      where "map_result (\<lambda>(k, v). rbind (mapColumn b k []) (\<lambda>m. Inr (m, v))) row = Inr es"
        and "out = from_entries es"
      by (auto simp: mapRow_def result_simps)
    then show thesis
      by (intro that [of es])
        (auto simp: map_result_Inr_list result_simps case_prod_unfold elim!: list_all2_mono)
  qed
  have len: "length es = length row"
    and nth: "\<And>i. i < length row \<Longrightarrow>
      mapColumn b (fst (row ! i)) [] = Inr (fst (es ! i)) \<and> snd (es ! i) = snd (row ! i)"
    using es by (auto simp: list_all2_conv_all_nth case_prod_unfold)
  have distinct: "distinct (map fst es)"
    unfolding distinct_conv_nth
  proof (intro allI impI notI)
    fix i j assume ij: "i < length (map fst es)" "j < length (map fst es)" "i \<noteq> j"
      "map fst es ! i = map fst es ! j"
    then have "fst (row ! i) = fst (row ! j)"
      using nth [of i] nth [of j] len
      by (intro inj [of "fst (row ! i)" "fst (row ! j)" "fst (es ! i)"]) auto
    then show False
      using keys ij len by (simp add: distinct_conv_nth)
  qed
  obtain i where "i < length row" "row ! i = (k, v)"
    using k by (auto dest!: map_of_SomeD simp: in_set_conv_nth)
  then have "(m, v) \<in> set es"
    using nth [of i] m len by (metis Inr_inject fst_conv nth_mem prod.collapse snd_conv)
  with distinct have "map_of es m = Some v" by (simp add: map_of_eq_Some_iff)
  with distinct show ?thesis by (simp add: out map_of_from_entries map_of_rev_distinct)
qed

end
