(* ===== verification/SelectBuilder.thy ===== *)
theory SelectBuilder
  imports Numbering QueryBinding
begin

section \<open>The SELECT builder\<close>

text \<open>
  \<open>packages/sql/src/select-builder.ts\<close>: the immutable \<open>SelectQuery\<close>. A query value is the dialect,
  the state record and the telemetry flag; each fluent method returns the query with its state
  updated, or throws; \<open>compile\<close> renders the state. An optional field of the TypeScript state is an
  \<open>option\<close>: \<open>compile\<close> tests some of them for presence, not for emptiness.
\<close>

subsection \<open>The state\<close>

datatype selected =
    SelColumn string
  | SelAliased string string
  | SelDistance distance_expression string

text \<open>An aliased column keeps in \<open>source\<close> the plain column it was selected as, if it was.\<close>

datatype resolved =
    ResPlain string
  | ResAliased string string "string option"
  | ResDistance distance_expression string

datatype aggregate_fn = AggCount | AggSum | AggAvg | AggMin | AggMax

fun aggregate_text :: "aggregate_fn \<Rightarrow> string" where
  "aggregate_text AggCount = ''COUNT''"
| "aggregate_text AggSum = ''SUM''"
| "aggregate_text AggAvg = ''AVG''"
| "aggregate_text AggMin = ''MIN''"
| "aggregate_text AggMax = ''MAX''"

datatype computed = Aggregate aggregate_fn string string | RawExpr string string

fun computed_alias :: "computed \<Rightarrow> string" where
  "computed_alias (Aggregate _ _ a) = a"
| "computed_alias (RawExpr _ a) = a"

datatype order_target = OrderColumn string | OrderDistance distance_expression

record order_item =
  o_col :: order_target
  o_dir :: direction
  o_outputAlias :: bool

record having_item =
  h_col :: string
  h_op :: string
  h_value :: operand
  h_outputAlias :: bool

record select_state =
  binding :: query_binding
  columns :: "resolved list option"
  computeds :: "computed list option"
  wheres :: "predicate list option"
  orderBys :: "order_item list option"
  joins :: "join_spec list option"
  targets :: "query_binding list option"
  ftsJoins :: "join_spec list option"
  groups :: "string list option"
  havings :: "having_item list option"
  limitN :: "int option"
  offsetN :: "int option"

record select_query =
  sq_dialect :: dialect
  sq_state :: select_state
  sq_telemetry :: bool

definition empty_select :: "query_binding \<Rightarrow> select_state" where
  "empty_select b = \<lparr>binding = b, columns = None, computeds = None, wheres = None, orderBys = None,
     joins = None, targets = None, ftsJoins = None, groups = None, havings = None, limitN = None,
     offsetN = None\<rparr>"

definition or_empty :: "'a list option \<Rightarrow> 'a list" where
  "or_empty x = (case x of None \<Rightarrow> [] | Some xs \<Rightarrow> xs)"

text \<open>\<open>[...(xs ?? []), x]\<close>.\<close>

definition appended :: "'a list option \<Rightarrow> 'a \<Rightarrow> 'a list option" where
  "appended xs x = Some (or_empty xs @ [x])"

definition next_state :: "select_query \<Rightarrow> (select_state \<Rightarrow> select_state) \<Rightarrow> select_query" where
  "next_state q patch = q\<lparr>sq_state := patch (sq_state q)\<rparr>"

subsection \<open>Projection\<close>

definition column :: "select_query \<Rightarrow> string \<Rightarrow> js_error + string" where
  "column q c = mapColumn (binding (sq_state q)) c (or_empty (targets (sq_state q)))"

fun project :: "select_query \<Rightarrow> selected \<Rightarrow> js_error + resolved" where
  "project q (SelDistance e a) =
     rbind (column q (dx_column e)) (\<lambda>c. Inr (ResDistance (e\<lparr>dx_column := c\<rparr>) a))"
| "project q (SelAliased c a) =
     rbind (mapProjection (binding (sq_state q)) (AliasedColumn c a) (or_empty (targets (sq_state q))))
       (\<lambda>p. Inr (case p of PlainColumn m \<Rightarrow> ResPlain m | AliasedColumn m b \<Rightarrow> ResAliased m b None))"
| "project q (SelColumn c) =
     rbind (mapProjection (binding (sq_state q)) (PlainColumn c) (or_empty (targets (sq_state q))))
       (\<lambda>p. Inr (case p of PlainColumn m \<Rightarrow> ResPlain m | AliasedColumn m b \<Rightarrow> ResAliased m b (Some c)))"

definition select_columns :: "select_query \<Rightarrow> selected list option \<Rightarrow> js_error + select_query" where
  "select_columns q cols = (case cols of
     None \<Rightarrow> Inr q
   | Some cs \<Rightarrow> rbind (map_result (project q) cs) (\<lambda>rs.
       Inr (next_state q (\<lambda>s. s\<lparr>columns := Some rs\<rparr>))))"

subsection \<open>Predicates\<close>

datatype first_arg = FirstColumn string | FirstSpatial spatial_fn string jsval "jsnum option"

definition push_where :: "select_query \<Rightarrow> predicate \<Rightarrow> select_query" where
  "push_where q p = next_state q (\<lambda>s. s\<lparr>wheres := appended (wheres s) p\<rparr>)"

fun add_predicate ::
  "select_query \<Rightarrow> connector \<Rightarrow> first_arg \<Rightarrow> string option \<Rightarrow> operand \<Rightarrow> js_error + select_query"
where
  "add_predicate q conn (FirstSpatial fn col v dist) op value =
     rbind (column q col) (\<lambda>c. Inr (push_where q (Spatial fn c v dist (Some conn))))"
| "add_predicate q conn (FirstColumn col) None value =
     Inl (TypeError ''where(column, operator, value) requires an operator'')"
| "add_predicate q conn (FirstColumn col) (Some op) value =
     rbind (column q col) (\<lambda>c. Inr (push_where q (Comparison c op value (Some conn))))"

definition sq_where ::
  "select_query \<Rightarrow> first_arg \<Rightarrow> string option \<Rightarrow> operand \<Rightarrow> js_error + select_query" where
  "sq_where q first op value = add_predicate q And first op value"

definition andWhere ::
  "select_query \<Rightarrow> first_arg \<Rightarrow> string option \<Rightarrow> operand \<Rightarrow> js_error + select_query" where
  "andWhere q first op value = add_predicate q And first op value"

definition orWhere ::
  "select_query \<Rightarrow> first_arg \<Rightarrow> string option \<Rightarrow> operand \<Rightarrow> js_error + select_query" where
  "orWhere q first op value = add_predicate q Or first op value"

definition add_group ::
  "select_query \<Rightarrow> connector \<Rightarrow> predicate list \<Rightarrow> js_error + select_query" where
  "add_group q conn ps =
     rbind (mapPredicates (binding (sq_state q)) (or_empty (targets (sq_state q))) ps)
       (\<lambda>mapped. Inr (push_where q (Group mapped (Some conn))))"

definition whereGroup :: "select_query \<Rightarrow> predicate list \<Rightarrow> js_error + select_query" where
  "whereGroup q ps = add_group q And ps"

definition orWhereGroup :: "select_query \<Rightarrow> predicate list \<Rightarrow> js_error + select_query" where
  "orWhereGroup q ps = add_group q Or ps"

definition whereIn :: "select_query \<Rightarrow> string \<Rightarrow> jsval list \<Rightarrow> js_error + select_query" where
  "whereIn q col vs = sq_where q (FirstColumn col) (Some ''in'') (Val (JArr vs))"

definition orWhereIn :: "select_query \<Rightarrow> string \<Rightarrow> jsval list \<Rightarrow> js_error + select_query" where
  "orWhereIn q col vs = orWhere q (FirstColumn col) (Some ''in'') (Val (JArr vs))"

definition whereNotIn :: "select_query \<Rightarrow> string \<Rightarrow> jsval list \<Rightarrow> js_error + select_query" where
  "whereNotIn q col vs = sq_where q (FirstColumn col) (Some ''not in'') (Val (JArr vs))"

definition orWhereNotIn :: "select_query \<Rightarrow> string \<Rightarrow> jsval list \<Rightarrow> js_error + select_query" where
  "orWhereNotIn q col vs = orWhere q (FirstColumn col) (Some ''not in'') (Val (JArr vs))"

definition whereExists ::
  "select_query \<Rightarrow> js_error + compiled_query \<Rightarrow> js_error + select_query" where
  "whereExists q sub = sq_where q (FirstColumn []) (Some ''EXISTS'') (Sub sub)"

definition orWhereExists ::
  "select_query \<Rightarrow> js_error + compiled_query \<Rightarrow> js_error + select_query" where
  "orWhereExists q sub = orWhere q (FirstColumn []) (Some ''EXISTS'') (Sub sub)"

definition whereNotExists ::
  "select_query \<Rightarrow> js_error + compiled_query \<Rightarrow> js_error + select_query" where
  "whereNotExists q sub = sq_where q (FirstColumn []) (Some ''NOT EXISTS'') (Sub sub)"

definition orWhereNotExists ::
  "select_query \<Rightarrow> js_error + compiled_query \<Rightarrow> js_error + select_query" where
  "orWhereNotExists q sub = orWhere q (FirstColumn []) (Some ''NOT EXISTS'') (Sub sub)"

subsection \<open>Ordering, limits, joins, aggregates\<close>

definition is_output_alias :: "select_query \<Rightarrow> string \<Rightarrow> bool" where
  "is_output_alias q c \<longleftrightarrow>
     (\<exists>i \<in> set (or_empty (computeds (sq_state q))). computed_alias i = c) \<or>
     (\<exists>r \<in> set (or_empty (columns (sq_state q))). case r of
        ResPlain _ \<Rightarrow> False
      | ResAliased _ a src \<Rightarrow> a = c \<and> src = None
      | ResDistance _ a \<Rightarrow> a = c)"

definition push_order :: "select_query \<Rightarrow> order_item \<Rightarrow> select_query" where
  "push_order q i = next_state q (\<lambda>s. s\<lparr>orderBys := appended (orderBys s) i\<rparr>)"

fun orderBy :: "select_query \<Rightarrow> order_target \<Rightarrow> direction \<Rightarrow> js_error + select_query" where
  "orderBy q (OrderDistance e) dir = rbind (column q (dx_column e)) (\<lambda>c.
     Inr (push_order q \<lparr>o_col = OrderDistance (e\<lparr>dx_column := c\<rparr>), o_dir = dir, o_outputAlias = False\<rparr>))"
| "orderBy q (OrderColumn c) dir =
     (if is_output_alias q c
      then Inr (push_order q \<lparr>o_col = OrderColumn c, o_dir = dir, o_outputAlias = True\<rparr>)
      else rbind (column q c) (\<lambda>m.
        Inr (push_order q \<lparr>o_col = OrderColumn m, o_dir = dir, o_outputAlias = False\<rparr>)))"

definition sq_limit :: "select_query \<Rightarrow> int \<Rightarrow> select_query" where
  "sq_limit q n = next_state q (\<lambda>s. s\<lparr>limitN := Some n\<rparr>)"

definition sq_offset :: "select_query \<Rightarrow> int \<Rightarrow> select_query" where
  "sq_offset q n = next_state q (\<lambda>s. s\<lparr>offsetN := Some n\<rparr>)"

definition sq_join ::
  "select_query \<Rightarrow> join_kind \<Rightarrow> query_target \<Rightarrow> string \<Rightarrow> join_condition list \<Rightarrow>
     predicate list option \<Rightarrow> js_error + select_query" where
  "sq_join q kind target alias conditions on =
     rbind (bindTable target (Some alias)) (\<lambda>b.
     if conditions = []
     then Inl (RangeError (''join '' @ [dq] @ qb_table b @ [dq] @ '' needs at least one ON condition''))
     else if scope_name (binding (sq_state q)) = alias \<or>
       (\<exists>t \<in> set (or_empty (targets (sq_state q))). scope_name t = alias)
     then Inl (TypeError (''duplicate query table alias '' @ json_string alias))
     else let ts = or_empty (targets (sq_state q)) @ [b]; root = binding (sq_state q) in
       rbind (map_result (\<lambda>c. rbind (mapColumn root (leftCol c) ts) (\<lambda>l.
                rbind (mapColumn root (rightCol c) ts) (\<lambda>r.
                Inr \<lparr>leftCol = l, rightCol = r\<rparr>))) conditions) (\<lambda>mapped.
       rbind (mapPredicates root ts (or_empty on)) (\<lambda>preds.
       Inr (next_state q (\<lambda>s. s\<lparr>targets := Some ts,
         joins := appended (joins s)
           \<lparr>j_kind = kind, j_target = qb_table b, j_conditions = mapped, j_on = preds\<rparr>\<rparr>)))))"

definition innerJoin ::
  "select_query \<Rightarrow> query_target \<Rightarrow> string \<Rightarrow> join_condition list \<Rightarrow> predicate list option \<Rightarrow>
     js_error + select_query" where
  "innerJoin q = sq_join q InnerJoin"

definition leftJoin ::
  "select_query \<Rightarrow> query_target \<Rightarrow> string \<Rightarrow> join_condition list \<Rightarrow> predicate list option \<Rightarrow>
     js_error + select_query" where
  "leftJoin q = sq_join q LeftJoin"

definition rightJoin ::
  "select_query \<Rightarrow> query_target \<Rightarrow> string \<Rightarrow> join_condition list \<Rightarrow> predicate list option \<Rightarrow>
     js_error + select_query" where
  "rightJoin q = sq_join q RightJoin"

definition push_computed :: "select_query \<Rightarrow> computed \<Rightarrow> select_query" where
  "push_computed q c = next_state q (\<lambda>s. s\<lparr>computeds := appended (computeds s) c\<rparr>)"

text \<open>\<open>aggregate\<close>, and \<open>count\<close>, \<open>sum\<close>, \<open>avg\<close>, \<open>min\<close>, \<open>max\<close> through it.\<close>

definition aggregate ::
  "select_query \<Rightarrow> aggregate_fn \<Rightarrow> string \<Rightarrow> string \<Rightarrow> js_error + select_query" where
  "aggregate q fn col alias =
     rbind (column q col) (\<lambda>c. Inr (push_computed q (Aggregate fn c alias)))"

definition expr :: "select_query \<Rightarrow> string \<Rightarrow> string \<Rightarrow> select_query" where
  "expr q raw alias = push_computed q (RawExpr raw alias)"

definition groupBy :: "select_query \<Rightarrow> string list \<Rightarrow> js_error + select_query" where
  "groupBy q cs =
     (if cs = [] then Inr q
      else rbind (map_result (column q) cs) (\<lambda>ms.
        Inr (next_state q (\<lambda>s. s\<lparr>groups := Some (or_empty (groups s) @ ms)\<rparr>))))"

definition having :: "select_query \<Rightarrow> string \<Rightarrow> string \<Rightarrow> operand \<Rightarrow> js_error + select_query" where
  "having q c op value =
     (let out = is_output_alias q c in
      rbind (if out then Inr c else column q c) (\<lambda>m.
        Inr (next_state q (\<lambda>s. s\<lparr>havings := appended (havings s)
          \<lparr>h_col = m, h_op = op, h_value = value, h_outputAlias = out\<rparr>\<rparr>))))"

fun fts_truthy :: "fts_target \<Rightarrow> bool" where
  "fts_truthy FtsUndefined = False"
| "fts_truthy (FtsFlag b) = b"
| "fts_truthy (FtsTable s) = (s \<noteq> [])"

definition whereMatch :: "select_query \<Rightarrow> string \<Rightarrow> string \<Rightarrow> js_error + select_query" where
  "whereMatch q c term =
     rbind (column q c) (\<lambda>col.
     let pushed = (\<lambda>col fj. next_state q (\<lambda>s. s\<lparr>
           wheres := appended (wheres s) (Match col term None), ftsJoins := fj\<rparr>))
     in if fts (traits (sq_dialect q)) = FtsCompanionTable
        then rbind (columnBinding (binding (sq_state q)) (or_empty (targets (sq_state q))) c) (\<lambda>b.
          if \<not> fts_truthy (qb_ftsTable b)
          then Inl (UnsupportedFeature ''full-text search'' (d_name (sq_dialect q)))
          else let
            tbl = (case qb_ftsTable b of
                FtsTable s \<Rightarrow> s | _ \<Rightarrow> hd (split_on CHR '' '' (qb_table b)) @ ''_fts'');
            aliased = (case qb_alias b of Some a \<Rightarrow> a \<noteq> [] | None \<Rightarrow> False);
            ref = (if aliased then override (qb_alias b) [] @ ''_fts'' else tbl);
            target = (if aliased then tbl @ '' AS '' @ ref else tbl);
            fj = (if \<exists>j \<in> set (or_empty (ftsJoins (sq_state q))). j_target j = target
                  then ftsJoins (sq_state q)
                  else appended (ftsJoins (sq_state q))
                    \<lparr>j_kind = InnerJoin, j_target = target,
                     j_conditions = [\<lparr>leftCol = qb_reference b @ ''.rowid'', rightCol = ref @ ''.rowid''\<rparr>],
                     j_on = []\<rparr>)
          in Inr (pushed (ref @ ''.'' @ after_dot col) fj))
        else Inr (pushed col (ftsJoins (sq_state q))))"

subsection \<open>\<open>compile\<close>\<close>

fun computedSql :: "dialect \<Rightarrow> string option \<Rightarrow> computed \<Rightarrow> string" where
  "computedSql d root (RawExpr raw _) = raw"
| "computedSql d root (Aggregate fn col _) =
     aggregate_text fn @ ''('' @ quoteColumn d (qualifyRootColumn col root) @ '')''"

definition distanceSql :: "dialect \<Rightarrow> string option \<Rightarrow> distance_expression \<Rightarrow> string render" where
  "distanceSql d root e = renderDistanceExpression d
     (case root of None \<Rightarrow> e | Some _ \<Rightarrow> e\<lparr>dx_column := qualifyRootColumn (dx_column e) root\<rparr>)"

definition rootReference :: "select_state \<Rightarrow> string option" where
  "rootReference s =
     (if qb_names (binding s) \<noteq> None \<and> (joins s \<noteq> None \<or> ftsJoins s \<noteq> None)
      then Some (qb_reference (binding s)) else None)"

definition compiledColumns :: "select_state \<Rightarrow> string option \<Rightarrow> resolved list" where
  "compiledColumns s root =
     (case qb_names (binding s) of
        Some names \<Rightarrow>
          if or_empty (columns s) = [] \<and> computeds s = None
          then map (\<lambda>p. case p of
                 PlainColumn c \<Rightarrow> (case root of None \<Rightarrow> ResPlain c
                   | Some _ \<Rightarrow> ResAliased (qb_reference (binding s) @ ''.'' @ c) c None)
               | AliasedColumn c a \<Rightarrow> (case root of None \<Rightarrow> ResAliased c a None
                   | Some _ \<Rightarrow> ResAliased (qb_reference (binding s) @ ''.'' @ c) a None))
               (projection names)
          else or_empty (columns s)
      | None \<Rightarrow> or_empty (columns s))"

fun renderColumn :: "dialect \<Rightarrow> string option \<Rightarrow> resolved \<Rightarrow> string render" where
  "renderColumn d root (ResPlain c) = sreturn (quoteColumn d (qualifyRootColumn c root))"
| "renderColumn d root (ResAliased c a _) =
     sreturn (quoteColumn d (qualifyRootColumn c root) @ '' AS '' @ quoteIdentifier d a)"
| "renderColumn d root (ResDistance e a) =
     (case root of None \<Rightarrow> renderAliasedDistanceExpression d e a
      | Some _ \<Rightarrow> sbind (distanceSql d root e) (\<lambda>s. sreturn (s @ '' AS '' @ quoteIdentifier d a)))"

definition renderComputed :: "dialect \<Rightarrow> string option \<Rightarrow> computed \<Rightarrow> string render" where
  "renderComputed d root c =
     sbind (raisePrimary (case c of RawExpr _ _ \<Rightarrow> True | _ \<Rightarrow> False)) (\<lambda>_.
     sreturn (computedSql d root c @ '' AS '' @ quoteIdentifier d (computed_alias c)))"

definition havingExpressions :: "dialect \<Rightarrow> select_state \<Rightarrow> string option \<Rightarrow> (string \<times> string) list" where
  "havingExpressions d s root = from_entries
     (map (\<lambda>c. (computed_alias c, computedSql d root c)) (or_empty (computeds s)) @
      concat (map (\<lambda>r. case r of
          ResAliased c a _ \<Rightarrow> [(a, quoteColumn d (qualifyRootColumn c root))]
        | _ \<Rightarrow> []) (or_empty (columns s))))"

definition havingPredicate :: "string option \<Rightarrow> having_item \<Rightarrow> predicate" where
  "havingPredicate root h =
     Comparison (if root = None \<or> h_outputAlias h then h_col h else qualifyRootColumn (h_col h) root)
       (h_op h) (h_value h) None"

definition renderOrder :: "dialect \<Rightarrow> string option \<Rightarrow> order_item \<Rightarrow> string render" where
  "renderOrder d root i =
     sbind (case o_col i of
         OrderDistance e \<Rightarrow> distanceSql d root e
       | OrderColumn c \<Rightarrow> sreturn (quoteColumn d (if o_outputAlias i then c else qualifyRootColumn c root)))
       (\<lambda>s. sreturn (s @ '' '' @ direction_text (o_dir i)))"

definition present :: "'a option \<Rightarrow> ('a \<Rightarrow> string render) \<Rightarrow> string render" where
  "present x f = (case x of None \<Rightarrow> sreturn [] | Some y \<Rightarrow> f y)"

definition groupSql :: "dialect \<Rightarrow> select_state \<Rightarrow> string" where
  "groupSql d s = (case groups s of None \<Rightarrow> []
     | Some cs \<Rightarrow> '' GROUP BY '' @
         join '', '' (map (\<lambda>c. quoteColumn d (qualifyRootColumn c (rootReference s))) cs))"

definition projectionSql :: "dialect \<Rightarrow> select_state \<Rightarrow> string render" where
  "projectionSql d s =
     (let root = rootReference s in
      sbind (smap (renderColumn d root) (compiledColumns s root)) (\<lambda>cols.
      sbind (smap (renderComputed d root) (or_empty (computeds s))) (\<lambda>comp.
      sreturn (if cols @ comp = [] then ''*'' else join '', '' (cols @ comp)))))"

definition havingSql :: "dialect \<Rightarrow> select_state \<Rightarrow> string render" where
  "havingSql d s = present (havings s) (\<lambda>hs. havingClause d (havingExpressions d s (rootReference s)) None
     (map (havingPredicate (rootReference s)) hs))"

definition orderSql :: "dialect \<Rightarrow> select_state \<Rightarrow> string render" where
  "orderSql d s = present (orderBys s) (\<lambda>os.
     sbind (smap (renderOrder d (rootReference s)) os) (\<lambda>parts.
     sreturn ('' ORDER BY '' @ join '', '' parts)))"

definition selectText :: "dialect \<Rightarrow> select_state \<Rightarrow> string render" where
  "selectText d s =
     (let root = rootReference s in
      sbind (projectionSql d s) (\<lambda>projections.
      sbind (present (joins s) (joinClauses d root)) (\<lambda>js.
      sbind (present (ftsJoins s) (joinClauses d root)) (\<lambda>fs.
      sbind (present (wheres s) (whereClause d root)) (\<lambda>wh.
      sbind (havingSql d s) (\<lambda>hv.
      sbind (orderSql d s) (\<lambda>ord.
      sbind (slift (tailClause d [] (limitN s) (offsetN s) (Some (orderBys s \<noteq> None)))) (\<lambda>tl.
      sreturn (''SELECT '' @ projections @ '' FROM '' @ quoteTable d (qb_table (binding s)) @
        js @ fs @ wh @ groupSql d s @ hv @ ord @ tl)))))))))"

definition compile_select :: "select_query \<Rightarrow> js_error + compiled_query" where
  "compile_select q =
     (let d = sq_dialect q; s = sq_state q in
      rbind (selectText d s ([], False)) (\<lambda>(body, params, primary).
      Inr (frozenQuery body params (if primary then PRIMARY_READ_EFFECTS else READ_EFFECTS)
             (queryTelemetry d OpSelect (qb_table (binding s)) (sq_telemetry q)))))"

end
