(* ===== verification/SelectNumbering.thy ===== *)
theory SelectNumbering
  imports SelectBuilder
begin

section \<open>Parameter numbering of a compiled SELECT\<close>

text \<open>
  The interface \<open>numbered_select\<close> adds to \<open>numbered_dialect\<close> that pagination writes no marker. Inside
  it, the compiled text of any query state carries exactly the markers 1 to n for the n parameters
  of the compiled query, in the order of the text.
\<close>

definition clause_text :: "string render \<Rightarrow> bool" where
  "clause_text m \<longleftrightarrow>
     (\<forall>st s st'. m st = Inr (s, st') \<longrightarrow>
        (\<exists>ns. advances st st' ns \<and> emits s ns) \<and> \<not> starts_digit s)"

lemma clause_text_numbered: "clause_text m \<Longrightarrow> numbered_text m"
  by (auto simp: clause_text_def numbered_text_def)

lemma clause_textI:
  "numbered_text m \<Longrightarrow> (\<And>st s st'. m st = Inr (s, st') \<Longrightarrow> \<not> starts_digit s) \<Longrightarrow> clause_text m"
  by (auto simp: clause_text_def numbered_text_def)

lemma clause_present:
  "(\<And>y. x = Some y \<Longrightarrow> clause_text (f y)) \<Longrightarrow> clause_text (present x f)"
  by (cases x) (auto simp: present_def clause_text_def result_simps intro: advances_refl)

lemma numbered_join2:
  assumes m: "numbered_parts m" and n: "\<And>a. numbered_parts (n a)"
    and g: "\<And>as bs nss. list_all2 emits (as @ bs) nss \<Longrightarrow> emits (g as bs) (concat nss)"
  shows "numbered_text (sbind m (\<lambda>a. sbind (n a) (\<lambda>b. sreturn (g a b))))"
  unfolding numbered_text_def
proof (intro allI impI)
  fix st s st' assume "sbind m (\<lambda>a. sbind (n a) (\<lambda>b. sreturn (g a b))) st = Inr (s, st')"
  then obtain a st1 b where r: "m st = Inr (a, st1)" "n a st1 = Inr (b, st')" "s = g a b"
    by (auto simp: result_simps)
  obtain k where k: "advances st st1 (concat k)" "list_all2 emits a k"
    using m r unfolding numbered_parts_def by meson
  obtain l where l: "advances st1 st' (concat l)" "list_all2 emits b l"
    using n r unfolding numbered_parts_def by meson
  have "emits s (concat (k @ l))"
    unfolding r by (rule g) (rule list_all2_appendI [OF k(2) l(2)])
  then show "\<exists>ns. advances st st' ns \<and> emits s ns"
    using advances_trans [OF k(1) l(1)] by auto
qed

lemma plain_text_append [simp]: "plain_text (a @ b) \<longleftrightarrow> plain_text a \<and> plain_text b"
  by (auto simp: plain_text_def)

lemma plain_digits: "\<forall>c \<in> set s. is_digit c \<Longrightarrow> plain_text s"
  by (auto simp: plain_text_def)

lemma plain_show_int: "plain_text (show_int i)"
  by (auto simp: show_int_def intro!: plain_digits dest: show_nat_digits)

text \<open>The parts of a query state that a caller supplies as SQL or as compiled queries are good.\<close>

fun good_computed :: "computed \<Rightarrow> bool" where
  "good_computed (RawExpr raw _) = emits raw []"
| "good_computed (Aggregate _ _ _) = True"

definition good_state :: "select_state \<Rightarrow> bool" where
  "good_state s \<longleftrightarrow>
     (\<forall>c \<in> set (or_empty (computeds s)). good_computed c) \<and>
     (\<forall>j \<in> set (or_empty (joins s) @ or_empty (ftsJoins s)). list_all good_pred (j_on j)) \<and>
     list_all good_pred (or_empty (wheres s)) \<and>
     (\<forall>h \<in> set (or_empty (havings s)). good_operand (h_value h))"

locale numbered_select = numbered_dialect d for d :: dialect +
  assumes plain_pagination: "paginate (traits d) t = Inr s \<Longrightarrow> plain_text s \<and> \<not> starts_digit s"
begin

lemma emits_as: "emits s ns \<Longrightarrow> emits (s @ '' AS '' @ quoteIdentifier d a) ns"
  using emits_append [OF _ emits_plain_prefix [OF _ emits_pieces(2)], of s ns "'' AS ''" a]
  by (simp add: is_digit_def)

lemma emits_suffix: "emits s ns \<Longrightarrow> plain_text t \<Longrightarrow> \<not> starts_digit t \<Longrightarrow> emits (s @ t) ns"
  using emits_append [OF _ emits_plain_text, of s ns t] by simp

lemma emits_computedSql:
  "good_computed c \<Longrightarrow> emits (computedSql d root c) []"
proof (cases c)
  case (Aggregate fn col a)
  have "plain_text (aggregate_text fn @ ''('')" by (cases fn) simp_all
  from emits_plain_prefix [OF this emits_suffix [OF emits_pieces(1), of "'')''"]]
  show ?thesis by (simp add: Aggregate is_digit_def)
qed simp

lemma distanceSql_numbered: "numbered_text (distanceSql d root e)"
  by (simp add: distanceSql_def renderDistance_numbered)

lemma renderColumn_numbered: "numbered_text (renderColumn d root c)"
proof (cases c)
  case (ResPlain c)
  then show ?thesis by (auto intro: numbered_sreturn emits_pieces)
next
  case (ResAliased c a src)
  then show ?thesis by (auto intro!: numbered_sreturn emits_as emits_pieces simp del: append.simps)
next
  case (ResDistance e a)
  show ?thesis
    unfolding ResDistance renderColumn.simps renderAliasedDistanceExpression_def
    by (cases root; simp only: option.case)
      (intro numbered_map emits_as renderDistance_numbered distanceSql_numbered; assumption)+
qed

lemma renderComputed_numbered:
  assumes "good_computed c"
  shows "numbered_text (renderComputed d root c)"
  unfolding numbered_text_def
proof (intro allI impI)
  fix st s st' assume "renderComputed d root c st = Inr (s, st')"
  then have "fst st = fst st'" and "s = computedSql d root c @ '' AS '' @ quoteIdentifier d (computed_alias c)"
    by (auto simp: renderComputed_def result_simps)
  then show "\<exists>ns. advances st st' ns \<and> emits s ns"
    using emits_as [OF emits_computedSql [OF assms]] advances_refl by blast
qed

lemma projectionSql_numbered:
  assumes "good_state s"
  shows "numbered_text (projectionSql d s)"
proof -
  have "emits (if a @ b = [] then ''*'' else join '', '' (a @ b)) (concat nss)"
    if "list_all2 emits (a @ b) nss" for a b nss
    using emits_comma_join [OF that] that emits_plain_text [of "''*''"] by auto
  then show ?thesis
    unfolding projectionSql_def Let_def using assms
    by (intro numbered_join2 numbered_parts_smap renderColumn_numbered renderComputed_numbered)
      (auto simp: good_state_def)
qed

lemma joinClauses_clause:
  "\<forall>j \<in> set js. list_all good_pred (j_on j) \<Longrightarrow> clause_text (joinClauses d root js)"
proof (rule clause_textI [OF joinClauses_numbered])
  fix st s st' assume "joinClauses d root js st = Inr (s, st')"
  then obtain parts where r: "smap (joinClause d root) js st = Inr (parts, st')" and s: "s = concat parts"
    by (auto simp: joinClauses_def result_simps)
  show "\<not> starts_digit s"
    unfolding s using smap_set [OF r] joinClause_starts by (intro not_starts_digit_concat) blast
qed

lemma whereClause_clause: "list_all good_pred ps \<Longrightarrow> clause_text (whereClause d root ps)"
  by (rule clause_textI [OF whereClause_numbered])
    (auto simp: whereClause_def result_simps split: if_splits)

lemma havingClause_clause:
  "good_exprs ex \<Longrightarrow> list_all good_pred ps \<Longrightarrow> clause_text (havingClause d ex root ps)"
  by (rule clause_textI [OF havingClause_numbered])
    (auto simp: havingClause_def result_simps split: if_splits)

lemma set_from_entries: "set (from_entries es) \<subseteq> set es"
proof (induction es rule: rev_induct)
  case (snoc e es)
  obtain k v where e: "e = (k, v)" by force
  have "set (AList.update k v m) \<subseteq> insert (k, v) (set m)" for m :: "('a \<times> 'b) list"
    by (induction m) auto
  with snoc show ?case unfolding e from_entries_snoc by fastforce
qed (simp add: from_entries_def)

lemma havingExpressions_good: "good_state s \<Longrightarrow> good_exprs (havingExpressions d s root)"
  unfolding good_exprs_def havingExpressions_def
  by (rule ballI, drule subsetD [OF set_from_entries])
    (auto simp: good_state_def intro!: emits_computedSql emits_pieces split: resolved.splits)

lemma havingSql_clause: "good_state s \<Longrightarrow> clause_text (havingSql d s)"
  unfolding havingSql_def
  by (intro clause_present havingClause_clause havingExpressions_good)
    (auto simp: good_state_def or_empty_def havingPredicate_def list_all_iff)

lemma renderOrder_numbered: "numbered_text (renderOrder d root i)"
proof -
  have "plain_text ('' '' @ direction_text (o_dir i))"
    by (cases "o_dir i") simp_all
  then have "emits (s @ '' '' @ direction_text (o_dir i)) ns" if "emits s ns" for s ns
    using emits_suffix [OF that, of "'' '' @ direction_text (o_dir i)"] by simp
  then show ?thesis
    unfolding renderOrder_def
    by (intro numbered_map)
      (auto split: order_target.splits intro: distanceSql_numbered numbered_sreturn emits_pieces
        simp del: append.simps)
qed

lemma orderSql_clause: "clause_text (orderSql d s)"
  unfolding orderSql_def
proof (rule clause_present, rule clause_textI)
  fix os
  show "numbered_text (sbind (smap (renderOrder d (rootReference s)) os)
      (\<lambda>parts. sreturn ('' ORDER BY '' @ join '', '' parts)))"
    by (intro numbered_join numbered_parts_smap renderOrder_numbered emits_plain_prefix
        emits_comma_join) simp_all
qed (auto simp: result_simps)

lemma concat_map_const_Nil: "concat (map (\<lambda>_. []) xs) = []"
  by (induction xs) simp_all

lemma emits_all_commas: "\<forall>s \<in> set ss. emits s [] \<Longrightarrow> emits (join '', '' ss) []"
  using emits_comma_join [of ss "map (\<lambda>_. []) ss"]
  by (simp add: list_all2_conv_all_nth concat_map_const_Nil)

lemma groupSql_emits: "emits (groupSql d s) [] \<and> \<not> starts_digit (groupSql d s)"
  by (auto simp: groupSql_def split: option.splits simp del: append.simps
      intro!: emits_plain_prefix emits_all_commas emits_pieces)

lemma clause_then:
  assumes "clause_text m" and "m st = Inr (s, st')" and "emits t l" and "\<not> starts_digit t"
  obtains ns where "advances st st' ns" "emits (s @ t) (ns @ l)" "\<not> starts_digit (s @ t)"
proof -
  obtain ns where "advances st st' ns" "emits s ns" and s: "\<not> starts_digit s"
    using assms(1,2) unfolding clause_text_def by meson
  then show thesis
    using that [of ns] emits_append [of s ns t l] assms(3,4) by simp
qed

lemma selectText_numbered:
  assumes good: "good_state s"
  shows "numbered_text (selectText d s)"
  unfolding numbered_text_def
proof (intro allI impI)
  fix st whole st' assume "selectText d s st = Inr (whole, st')"
  then obtain p st1 j st2 f st3 w st4 h st5 ob st6 tl where
    p: "projectionSql d s st = Inr (p, st1)" and
    j: "present (joins s) (joinClauses d (rootReference s)) st1 = Inr (j, st2)" and
    f: "present (ftsJoins s) (joinClauses d (rootReference s)) st2 = Inr (f, st3)" and
    w: "present (wheres s) (whereClause d (rootReference s)) st3 = Inr (w, st4)" and
    h: "havingSql d s st4 = Inr (h, st5)" and
    ob: "orderSql d s st5 = Inr (ob, st6)" and
    tl: "tailClause d [] (limitN s) (offsetN s) (Some (orderBys s \<noteq> None)) = Inr tl" "st' = st6" and
    whole: "whole = ''SELECT '' @ p @ '' FROM '' @ quoteTable d (qb_table (binding s)) @
        j @ f @ w @ groupSql d s @ h @ ob @ tl"
    unfolding selectText_def Let_def by (auto simp only: result_simps)
  have tail: "emits tl []" "\<not> starts_digit tl"
    using tl plain_pagination by (auto simp: tailClause_def result_simps emits_plain_text)
  obtain n6 where n6: "advances st5 st6 n6" "emits (ob @ tl) (n6 @ [])" "\<not> starts_digit (ob @ tl)"
    by (rule clause_then [OF orderSql_clause ob tail])
  obtain n5 where n5: "advances st4 st5 n5" "emits (h @ ob @ tl) (n5 @ n6 @ [])"
      "\<not> starts_digit (h @ ob @ tl)"
    by (rule clause_then [OF havingSql_clause [OF good] h n6(2,3)])
  have grp: "emits (groupSql d s @ h @ ob @ tl) ([] @ n5 @ n6 @ [])"
      "\<not> starts_digit (groupSql d s @ h @ ob @ tl)"
    using groupSql_emits [of s] n5(2,3) by (auto intro!: emits_append simp del: append_Nil)
  have cl: "clause_text (present (wheres s) (whereClause d (rootReference s)))"
    using good by (intro clause_present whereClause_clause) (auto simp: good_state_def or_empty_def)
  obtain n4 where n4: "advances st3 st4 n4"
      "emits (w @ groupSql d s @ h @ ob @ tl) (n4 @ [] @ n5 @ n6 @ [])"
      "\<not> starts_digit (w @ groupSql d s @ h @ ob @ tl)"
    by (rule clause_then [OF cl w grp])
  have cl: "clause_text (present (ftsJoins s) (joinClauses d (rootReference s)))"
    using good by (intro clause_present joinClauses_clause) (auto simp: good_state_def or_empty_def)
  obtain n3 where n3: "advances st2 st3 n3"
      "emits (f @ w @ groupSql d s @ h @ ob @ tl) (n3 @ n4 @ [] @ n5 @ n6 @ [])"
      "\<not> starts_digit (f @ w @ groupSql d s @ h @ ob @ tl)"
    by (rule clause_then [OF cl f n4(2,3)])
  have cl: "clause_text (present (joins s) (joinClauses d (rootReference s)))"
    using good by (intro clause_present joinClauses_clause) (auto simp: good_state_def or_empty_def)
  obtain n2 where n2: "advances st1 st2 n2"
      "emits (j @ f @ w @ groupSql d s @ h @ ob @ tl) (n2 @ n3 @ n4 @ [] @ n5 @ n6 @ [])"
      "\<not> starts_digit (j @ f @ w @ groupSql d s @ h @ ob @ tl)"
    by (rule clause_then [OF cl j n3(2,3)])
  have from_emits: "emits ('' FROM '' @ quoteTable d (qb_table (binding s)) @
      j @ f @ w @ groupSql d s @ h @ ob @ tl) ([] @ n2 @ n3 @ n4 @ [] @ n5 @ n6 @ [])"
    by (rule emits_plain_prefix [OF _ emits_append [OF emits_pieces(3) n2(2,3)]]) simp
  obtain n1 where n1: "advances st st1 n1" "emits p n1"
    using projectionSql_numbered [OF good] p unfolding numbered_text_def by meson
  have "emits whole (n1 @ [] @ n2 @ n3 @ n4 @ [] @ n5 @ n6 @ [])"
    unfolding whole
    by (rule emits_plain_prefix [OF _ emits_append [OF n1(2) from_emits]]) simp_all
  moreover have "advances st st' (n1 @ n2 @ n3 @ n4 @ n5 @ n6)"
    unfolding tl by (intro advances_trans [OF n1(1)] advances_trans [OF n2(1)]
        advances_trans [OF n3(1)] advances_trans [OF n4(1)] advances_trans [OF n5(1)] n6(1))
  ultimately show "\<exists>ns. advances st st' ns \<and> emits whole ns" by auto
qed

lemma compile_select_numbered:
  assumes "sq_dialect q = d" and "good_state (sq_state q)" and "compile_select q = Inr c"
  shows "emits (cq_text c) [1..<Suc (length (parameters c))]"
proof -
  obtain body params primary where r: "selectText d (sq_state q) ([], False) = Inr (body, params, primary)"
    and c: "cq_text c = body" "parameters c = params"
    using assms by (auto simp: compile_select_def Let_def result_simps frozenQuery_def)
  obtain ns where "advances ([], False) (params, primary) ns" "emits body ns"
    using selectText_numbered [OF assms(2)] r unfolding numbered_text_def by blast
  then show ?thesis by (simp add: advances_def c)
qed

end

subsection \<open>PostgreSQL\<close>

lemma postgres_pagination: "postgresPaginate t = Inr s \<Longrightarrow> plain_text s \<and> \<not> starts_digit s"
  by (auto simp: postgresPaginate_def limit_part_def offset_part_def plain_show_int is_digit_def
      split: option.splits if_splits)

interpretation pgs: numbered_select postgres
  by unfold_locales (simp add: dialect_defs postgres_pagination)

end
