(* ===== verification/SelectScope.thy ===== *)
theory SelectScope
  imports SelectBuilder
begin

section \<open>Reachable SELECT queries stay inside their schema's scope\<close>

text \<open>
  The fluent methods as a step relation on query values, and the invariant of every query a caller
  can reach from a declared schema: each recorded column is in the scope of the query's bindings
  (names a declared output, or is raw SQL the caller supplied as such), and no two tables of the
  query share a scope name. Also: a query with a raw expression is compiled as a primary read.
\<close>

subsection \<open>Steps\<close>

inductive select_step :: "select_query \<Rightarrow> select_query \<Rightarrow> bool" where
  step_select: "select_columns q cs = Inr q' \<Longrightarrow> select_step q q'"
| step_where: "add_predicate q conn first op v = Inr q' \<Longrightarrow> select_step q q'"
| step_group: "add_group q conn ps = Inr q' \<Longrightarrow> select_step q q'"
| step_orderBy: "orderBy q t dir = Inr q' \<Longrightarrow> select_step q q'"
| step_limit: "select_step q (sq_limit q n)"
| step_offset: "select_step q (sq_offset q n)"
| step_join: "sq_join q k target alias cs on = Inr q' \<Longrightarrow> select_step q q'"
| step_aggregate: "aggregate q fn col alias = Inr q' \<Longrightarrow> select_step q q'"
| step_expr: "select_step q (expr q raw alias)"
| step_groupBy: "groupBy q cs = Inr q' \<Longrightarrow> select_step q q'"
| step_having: "having q c op v = Inr q' \<Longrightarrow> select_step q q'"
| step_match: "whereMatch q c term = Inr q' \<Longrightarrow> select_step q q'"

subsection \<open>The invariant\<close>

fun scoped_predicate :: "(string \<Rightarrow> bool) \<Rightarrow> bool \<Rightarrow> predicate \<Rightarrow> bool" where
  "scoped_predicate P companion (Match c _ _) = (companion \<or> P c)"
| "scoped_predicate P companion p = list_all P (predicate_columns p)"

fun scoped_resolved :: "(string \<Rightarrow> bool) \<Rightarrow> resolved \<Rightarrow> bool" where
  "scoped_resolved P (ResPlain c) = P c"
| "scoped_resolved P (ResAliased c _ _) = P c"
| "scoped_resolved P (ResDistance e _) = P (dx_column e)"

fun scoped_computed :: "(string \<Rightarrow> bool) \<Rightarrow> computed \<Rightarrow> bool" where
  "scoped_computed P (Aggregate _ c _) = P c"
| "scoped_computed P (RawExpr _ _) = True"

definition scoped_order :: "(string \<Rightarrow> bool) \<Rightarrow> order_item \<Rightarrow> bool" where
  "scoped_order P i = (case o_col i of OrderDistance e \<Rightarrow> P (dx_column e)
     | OrderColumn c \<Rightarrow> o_outputAlias i \<or> P c)"

definition scoped_join :: "(string \<Rightarrow> bool) \<Rightarrow> join_spec \<Rightarrow> bool" where
  "scoped_join P j \<longleftrightarrow> list_all (\<lambda>c. P (leftCol c) \<and> P (rightCol c)) (j_conditions j) \<and>
     list_all (\<lambda>p. list_all P (predicate_columns p)) (j_on j)"

definition scoped_state :: "(string \<Rightarrow> bool) \<Rightarrow> bool \<Rightarrow> select_state \<Rightarrow> bool" where
  "scoped_state P companion s \<longleftrightarrow>
     list_all (scoped_resolved P) (or_empty (columns s)) \<and>
     list_all (scoped_computed P) (or_empty (computeds s)) \<and>
     list_all (scoped_predicate P companion) (or_empty (wheres s)) \<and>
     list_all (scoped_order P) (or_empty (orderBys s)) \<and>
     list_all (scoped_join P) (or_empty (joins s)) \<and>
     list_all P (or_empty (groups s)) \<and>
     list_all (\<lambda>h. h_outputAlias h \<or> P (h_col h)) (or_empty (havings s))"

definition query_scope :: "select_query \<Rightarrow> string \<Rightarrow> bool" where
  "query_scope q = in_scope (binding (sq_state q)) (or_empty (targets (sq_state q)))"

definition scope_names :: "select_query \<Rightarrow> string list" where
  "scope_names q = map scope_name (binding (sq_state q) # or_empty (targets (sq_state q)))"

definition companion :: "select_query \<Rightarrow> bool" where
  "companion q \<longleftrightarrow> fts (traits (sq_dialect q)) = FtsCompanionTable"

definition well_scoped :: "select_query \<Rightarrow> bool" where
  "well_scoped q \<longleftrightarrow> qb_names (binding (sq_state q)) \<noteq> None \<and>
     scoped_state (query_scope q) (companion q) (sq_state q) \<and> distinct (scope_names q)"

subsection \<open>Monotonicity\<close>

lemma scoped_predicate_mono:
  "(\<And>c. P c \<Longrightarrow> Q c) \<Longrightarrow> scoped_predicate P b p \<Longrightarrow> scoped_predicate Q b p"
  by (cases p) (auto simp: list_all_iff)

lemma scoped_resolved_mono: "(\<And>c. P c \<Longrightarrow> Q c) \<Longrightarrow> scoped_resolved P r \<Longrightarrow> scoped_resolved Q r"
  by (cases r) auto

lemma scoped_computed_mono: "(\<And>c. P c \<Longrightarrow> Q c) \<Longrightarrow> scoped_computed P r \<Longrightarrow> scoped_computed Q r"
  by (cases r) auto

lemma scoped_order_mono: "(\<And>c. P c \<Longrightarrow> Q c) \<Longrightarrow> scoped_order P r \<Longrightarrow> scoped_order Q r"
  by (auto simp: scoped_order_def split: order_target.splits)

lemma scoped_join_mono: "(\<And>c. P c \<Longrightarrow> Q c) \<Longrightarrow> scoped_join P j \<Longrightarrow> scoped_join Q j"
  by (auto simp: scoped_join_def list_all_iff)

lemma scoped_state_mono:
  assumes PQ: "\<And>c. P c \<Longrightarrow> Q c" and s: "scoped_state P b s"
  shows "scoped_state Q b s"
  using s scoped_predicate_mono [of P Q b, OF PQ] scoped_resolved_mono [of P Q, OF PQ]
    scoped_computed_mono [of P Q, OF PQ] scoped_order_mono [of P Q, OF PQ]
    scoped_join_mono [of P Q, OF PQ] PQ
  unfolding scoped_state_def list_all_iff by blast

lemma in_scope_mono: "in_scope root js c \<Longrightarrow> in_scope root (js @ [b]) c"
  by (auto simp: in_scope_def)

subsection \<open>Preservation\<close>

lemma or_empty_simps [simp]: "or_empty None = []" "or_empty (Some xs) = xs"
  by (simp_all add: or_empty_def)

lemma column_in_scope:
  "column q c = Inr m \<Longrightarrow> well_scoped q \<Longrightarrow> query_scope q m"
  unfolding column_def query_scope_def well_scoped_def by (blast intro: mapColumn_in_scope)

text \<open>A patch that keeps the root binding and the joined targets is judged by its new entries.\<close>

lemma well_scoped_patch:
  assumes "well_scoped q" and "\<And>s. binding (f s) = binding s" and "\<And>s. targets (f s) = targets s"
    and "scoped_state (query_scope q) (companion q) (f (sq_state q))"
  shows "well_scoped (next_state q f)"
  using assms
  by (simp add: well_scoped_def query_scope_def scope_names_def companion_def next_state_def)

lemma push_where_scoped:
  "well_scoped q \<Longrightarrow> scoped_predicate (query_scope q) (companion q) p \<Longrightarrow> well_scoped (push_where q p)"
  unfolding push_where_def
  by (rule well_scoped_patch) (auto simp: well_scoped_def scoped_state_def appended_def)

lemma push_order_scoped:
  "well_scoped q \<Longrightarrow> scoped_order (query_scope q) i \<Longrightarrow> well_scoped (push_order q i)"
  unfolding push_order_def
  by (rule well_scoped_patch) (auto simp: well_scoped_def scoped_state_def appended_def)

lemma push_computed_scoped:
  "well_scoped q \<Longrightarrow> scoped_computed (query_scope q) i \<Longrightarrow> well_scoped (push_computed q i)"
  unfolding push_computed_def
  by (rule well_scoped_patch) (auto simp: well_scoped_def scoped_state_def appended_def)

lemma add_predicate_scoped:
  assumes "well_scoped q" and "add_predicate q conn first op v = Inr q'"
  shows "well_scoped q'"
  using assms(2) column_in_scope [OF _ assms(1)]
  by (cases "(q, conn, first, op, v)" rule: add_predicate.cases)
    (auto simp: result_simps intro!: push_where_scoped [OF assms(1)])

lemma add_group_scoped:
  assumes "well_scoped q" and "add_group q conn ps = Inr q'"
  shows "well_scoped q'"
proof -
  obtain qs where qs: "mapPredicates (binding (sq_state q)) (or_empty (targets (sq_state q))) ps = Inr qs"
    and q': "q' = push_where q (Group qs (Some conn))"
    using assms(2) by (auto simp: add_group_def result_simps)
  from mapPredicate_in_scope(2) [OF qs] assms(1) show ?thesis
    unfolding q' by (intro push_where_scoped)
      (auto simp: well_scoped_def list_all_iff query_scope_def)
qed

lemma project_scoped:
  assumes "well_scoped q" and "project q c = Inr r"
  shows "scoped_resolved (query_scope q) r"
proof -
  have m: "mapColumn (binding (sq_state q)) x (or_empty (targets (sq_state q))) = Inr m \<Longrightarrow>
      query_scope q m" for x m
    using column_in_scope [OF _ assms(1), of x m] by (simp add: column_def)
  show ?thesis
    using assms(2) m
    by (cases c) (auto simp: result_simps column_def mapProjection_def split: if_splits)
qed

lemma select_columns_scoped:
  assumes "well_scoped q" and "select_columns q cs = Inr q'"
  shows "well_scoped q'"
proof (cases cs)
  case (Some xs)
  then obtain rs where rs: "list_all2 (\<lambda>x r. project q x = Inr r) xs rs"
    and q': "q' = next_state q (\<lambda>s. s\<lparr>columns := Some rs\<rparr>)"
    using assms(2) by (auto simp: select_columns_def result_simps map_result_Inr_list)
  have "list_all (scoped_resolved (query_scope q)) rs"
    using rs project_scoped [OF assms(1)] by (induction rule: list_all2_induct) auto
  then show ?thesis
    unfolding q' using assms(1)
    by (intro well_scoped_patch) (auto simp: well_scoped_def scoped_state_def)
qed (use assms in \<open>simp add: select_columns_def\<close>)

lemma orderBy_scoped:
  assumes "well_scoped q" and "orderBy q t dir = Inr q'"
  shows "well_scoped q'"
  using assms(2) column_in_scope [OF _ assms(1)]
  by (cases t) (auto simp: result_simps scoped_order_def split: if_splits
      intro!: push_order_scoped [OF assms(1)])

lemma aggregate_scoped:
  assumes "well_scoped q" and "aggregate q fn col alias = Inr q'"
  shows "well_scoped q'"
  using assms(2) column_in_scope [OF _ assms(1)]
  by (auto simp: aggregate_def result_simps intro!: push_computed_scoped [OF assms(1)])

lemma groupBy_scoped:
  assumes "well_scoped q" and "groupBy q cs = Inr q'"
  shows "well_scoped q'"
proof (cases "cs = []")
  case False
  then obtain ms where ms: "list_all2 (\<lambda>c m. column q c = Inr m) cs ms"
    and q': "q' = next_state q (\<lambda>s. s\<lparr>groups := Some (or_empty (groups s) @ ms)\<rparr>)"
    using assms(2) by (auto simp: groupBy_def result_simps map_result_Inr_list)
  have "list_all (query_scope q) ms"
    using ms column_in_scope [OF _ assms(1)] by (induction rule: list_all2_induct) auto
  then show ?thesis
    unfolding q' using assms(1)
    by (intro well_scoped_patch) (auto simp: well_scoped_def scoped_state_def)
qed (use assms in \<open>simp add: groupBy_def\<close>)

lemma having_scoped:
  assumes "well_scoped q" and "having q c op v = Inr q'"
  shows "well_scoped q'"
proof -
  obtain m where m: "is_output_alias q c \<or> query_scope q m"
    and q': "q' = next_state q (\<lambda>s. s\<lparr>havings := appended (havings s)
          \<lparr>h_col = m, h_op = op, h_value = v, h_outputAlias = is_output_alias q c\<rparr>\<rparr>)"
    using assms(2) column_in_scope [OF _ assms(1)]
    by (auto simp: having_def Let_def result_simps split: if_splits)
  from m show ?thesis
    unfolding q' using assms(1)
    by (intro well_scoped_patch) (auto simp: well_scoped_def scoped_state_def appended_def)
qed

lemma whereMatch_scoped:
  assumes "well_scoped q" and "whereMatch q c term = Inr q'"
  shows "well_scoped q'"
proof -
  obtain m col fj where col: "column q c = Inr col" "companion q \<or> m = col"
    and q': "q' = next_state q (\<lambda>s. s\<lparr>wheres := appended (wheres s) (Match m term None), ftsJoins := fj\<rparr>)"
    using assms(2)
    by (auto simp: whereMatch_def Let_def result_simps companion_def split: if_splits)
  then have "companion q \<or> query_scope q m"
    using column_in_scope [OF col(1) assms(1)] by auto
  then show ?thesis
    unfolding q' using assms(1)
    by (intro well_scoped_patch) (auto simp: well_scoped_def scoped_state_def appended_def)
qed

lemma bindTable_scope_name: "bindTable t (Some a) = Inr b \<Longrightarrow> scope_name b = a"
  by (cases t) (auto simp: Let_def scope_name_def)

lemma sq_join_scoped:
  assumes q: "well_scoped q" and j: "sq_join q k target alias cs on = Inr q'"
  shows "well_scoped q'"
proof -
  let ?root = "binding (sq_state q)" and ?ts = "or_empty (targets (sq_state q))"
  obtain b mapped preds where b: "bindTable target (Some alias) = Inr b"
    and fresh: "scope_name ?root \<noteq> alias" "\<forall>t \<in> set ?ts. scope_name t \<noteq> alias"
    and mapped: "list_all2 (\<lambda>c m. mapColumn ?root (leftCol c) (?ts @ [b]) = Inr (leftCol m) \<and>
        mapColumn ?root (rightCol c) (?ts @ [b]) = Inr (rightCol m)) cs mapped"
    and preds: "mapPredicates ?root (?ts @ [b]) (or_empty on) = Inr preds"
    and q': "q' = next_state q (\<lambda>s. s\<lparr>targets := Some (?ts @ [b]), joins := appended (joins s)
           \<lparr>j_kind = k, j_target = qb_table b, j_conditions = mapped, j_on = preds\<rparr>\<rparr>)"
  proof -
    obtain b mapped preds where r: "bindTable target (Some alias) = Inr b"
      "scope_name ?root \<noteq> alias" "\<forall>t \<in> set ?ts. scope_name t \<noteq> alias"
      "map_result (\<lambda>c. rbind (mapColumn ?root (leftCol c) (?ts @ [b])) (\<lambda>l.
                rbind (mapColumn ?root (rightCol c) (?ts @ [b])) (\<lambda>r.
                Inr \<lparr>leftCol = l, rightCol = r\<rparr>))) cs = Inr mapped"
      "mapPredicates ?root (?ts @ [b]) (or_empty on) = Inr preds"
      "q' = next_state q (\<lambda>s. s\<lparr>targets := Some (?ts @ [b]), joins := appended (joins s)
           \<lparr>j_kind = k, j_target = qb_table b, j_conditions = mapped, j_on = preds\<rparr>\<rparr>)"
      using j by (auto simp: sq_join_def Let_def result_simps split: if_splits)
    show thesis
      by (rule that [OF r(1-3) _ r(5,6)])
        (use r(4) in \<open>auto simp: map_result_Inr_list result_simps elim!: list_all2_mono\<close>)
  qed
  have names: "qb_names ?root \<noteq> None" using q by (simp add: well_scoped_def)
  let ?P = "in_scope ?root (?ts @ [b])"
  have "list_all (\<lambda>c. ?P (leftCol c) \<and> ?P (rightCol c)) mapped"
    using mapped mapColumn_in_scope [OF _ names] by (induction rule: list_all2_induct) auto
  moreover have "list_all (\<lambda>p. list_all ?P (predicate_columns p)) preds"
    using mapPredicate_in_scope(2) [OF preds names] by (simp add: list_all_iff)
  moreover have "scoped_state ?P (companion q) (sq_state q)"
    using q in_scope_mono unfolding well_scoped_def query_scope_def
    by (blast intro: scoped_state_mono)
  ultimately show ?thesis
    unfolding q' using names fresh bindTable_scope_name [OF b] q
    by (auto simp: well_scoped_def query_scope_def scope_names_def companion_def next_state_def
        scoped_state_def appended_def scoped_join_def)
qed

lemma select_step_scoped: "select_step q q' \<Longrightarrow> well_scoped q \<Longrightarrow> well_scoped q'"
proof (induction rule: select_step.induct)
  case (step_limit q n)
  then show ?case unfolding sq_limit_def
    by (intro well_scoped_patch) (auto simp: well_scoped_def scoped_state_def)
next
  case (step_offset q n)
  then show ?case unfolding sq_offset_def
    by (intro well_scoped_patch) (auto simp: well_scoped_def scoped_state_def)
next
  case (step_expr q raw a)
  then show ?case unfolding expr_def by (intro push_computed_scoped) auto
qed (blast intro: select_columns_scoped add_predicate_scoped add_group_scoped orderBy_scoped
    sq_join_scoped aggregate_scoped groupBy_scoped having_scoped whereMatch_scoped)+

definition new_query :: "dialect \<Rightarrow> query_target \<Rightarrow> string option \<Rightarrow> bool \<Rightarrow> js_error + select_query" where
  "new_query d t alias tel =
     rbind (bindTable t alias) (\<lambda>b.
     Inr \<lparr>sq_dialect = d, sq_state = empty_select b, sq_telemetry = tel\<rparr>)"

lemma new_query_scoped: "new_query d (DeclaredSchema s) alias tel = Inr q \<Longrightarrow> well_scoped q"
  by (auto simp: new_query_def well_scoped_def scoped_state_def scope_names_def empty_select_def)

lemma reachable_scoped: "select_step\<^sup>*\<^sup>* q q' \<Longrightarrow> well_scoped q \<Longrightarrow> well_scoped q'"
  by (induction rule: rtranclp_induct) (auto intro: select_step_scoped)

subsection \<open>Raw SQL and primary subqueries force a primary read\<close>

definition keeps_primary :: "'a render \<Rightarrow> bool" where
  "keeps_primary m \<longleftrightarrow> (\<forall>st x st'. m st = Inr (x, st') \<longrightarrow> snd st \<longrightarrow> snd st')"

named_theorems primary_intros \<open>renderers that never clear the primary flag\<close>

lemma keeps_sbind [primary_intros]:
  "keeps_primary m \<Longrightarrow> (\<And>x. keeps_primary (f x)) \<Longrightarrow> keeps_primary (sbind m f)"
  by (auto simp: keeps_primary_def result_simps) blast

lemma keeps_basic [primary_intros]:
  "keeps_primary (sreturn x)" "keeps_primary (slift e)" "keeps_primary (pushParam d v)"
  "keeps_primary (pushRaw vs)" "keeps_primary (raisePrimary b)"
  by (auto simp: keeps_primary_def result_simps)

lemma keeps_if [primary_intros]:
  "(c \<Longrightarrow> keeps_primary a) \<Longrightarrow> (\<not> c \<Longrightarrow> keeps_primary b) \<Longrightarrow> keeps_primary (if c then a else b)"
  by simp

lemma keeps_smap [primary_intros]: "(\<And>x. keeps_primary (f x)) \<Longrightarrow> keeps_primary (smap f xs)"
  by (induction xs) (auto intro!: primary_intros)

lemma keeps_renderers [primary_intros]:
  "keeps_primary (renderDistanceExpression d e)"
  "keeps_primary (renderSpatialPredicate d fn c v dist)"
  "keeps_primary (renderMatch d root c t)"
  "keeps_primary (renderSubquery d c op q)"
  "keeps_primary (renderMembership d c op v)"
  by (auto simp: renderDistanceExpression_def renderSpatialPredicate_def renderMatch_def
      renderSubquery_def renderMembership_def Let_def split: option.splits fts_style.splits
      intro!: primary_intros)

lemma keeps_comparison [primary_intros]: "keeps_primary (renderComparison d ex root c op v)"
  unfolding renderComparison_def Let_def
  by (cases v; simp only: operand.case; intro primary_intros)

lemma keeps_predicate [primary_intros]:
  "keeps_primary (renderPredicate d ex root p)" "keeps_primary (predicateParts d ex root first ps)"
  by (induction d ex root p and d ex root first ps rule: renderPredicate_predicateParts.induct)
    (auto intro!: primary_intros)

lemma keeps_clauses [primary_intros]:
  "keeps_primary (whereClause d root ps)" "keeps_primary (havingClause d ex root ps)"
  "keeps_primary (joinClauses d root js)"
  by (auto simp: whereClause_def havingClause_def predicateList_def joinClauses_def joinClause_def
      intro!: primary_intros)

lemma keeps_present [primary_intros]: "(\<And>y. keeps_primary (f y)) \<Longrightarrow> keeps_primary (present x f)"
  by (cases x) (auto simp: present_def intro!: primary_intros)

lemma keeps_select_parts [primary_intros]:
  "keeps_primary (renderColumn d root c)" "keeps_primary (renderOrder d root i)"
  "keeps_primary (havingSql d s)" "keeps_primary (orderSql d s)"
proof -
  show "keeps_primary (renderColumn d root c)"
    by (cases c) (auto simp: renderAliasedDistanceExpression_def distanceSql_def
        split: option.splits intro!: primary_intros)
  show order: "keeps_primary (renderOrder d root i)" for root i
    by (auto simp: renderOrder_def distanceSql_def split: order_target.splits intro!: primary_intros)
  show "keeps_primary (havingSql d s)"
    unfolding havingSql_def by (intro primary_intros)
  show "keeps_primary (orderSql d s)"
    unfolding orderSql_def by (intro primary_intros order)
qed

lemma renderComputed_raises:
  "RawExpr raw a \<in> set cs \<Longrightarrow> smap (renderComputed d root) cs st = Inr (xs, st') \<Longrightarrow> snd st'"
proof (induction cs arbitrary: st xs)
  case (Cons c cs)
  obtain y st1 ys where s: "renderComputed d root c st = Inr (y, st1)"
    "smap (renderComputed d root) cs st1 = Inr (ys, st')"
    using Cons.prems(2) by (auto simp: result_simps)
  have keeps: "keeps_primary (smap (renderComputed d root) cs)"
    unfolding renderComputed_def by (intro primary_intros)
  show ?case
  proof (cases "c = RawExpr raw a")
    case True
    then have "snd st1" using s(1) by (auto simp: renderComputed_def result_simps)
    with keeps s(2) show ?thesis unfolding keeps_primary_def by blast
  qed (use Cons.IH [OF _ s(2)] Cons.prems(1) in simp)
qed simp

lemma compile_raw_primary:
  assumes "RawExpr raw a \<in> set (or_empty (computeds (sq_state q)))" and "compile_select q = Inr c"
  shows "effects c = PRIMARY_READ_EFFECTS"
proof -
  let ?s = "sq_state q" and ?d = "sq_dialect q"
  obtain body params primary where r: "selectText ?d ?s ([], False) = Inr (body, params, primary)"
    and c: "effects c = (if primary then PRIMARY_READ_EFFECTS else READ_EFFECTS)"
    using assms(2) by (auto simp: compile_select_def Let_def result_simps frozenQuery_def)
  obtain p st1 where p: "projectionSql ?d ?s ([], False) = Inr (p, st1)"
    using r unfolding selectText_def Let_def by (auto simp only: result_simps)
  have "snd st1"
    using p renderComputed_raises [OF assms(1)]
    unfolding projectionSql_def Let_def by (auto simp only: result_simps)
  define rest where "rest = (\<lambda>projections.
      sbind (present (joins ?s) (joinClauses ?d (rootReference ?s))) (\<lambda>js.
      sbind (present (ftsJoins ?s) (joinClauses ?d (rootReference ?s))) (\<lambda>fs.
      sbind (present (wheres ?s) (whereClause ?d (rootReference ?s))) (\<lambda>wh.
      sbind (havingSql ?d ?s) (\<lambda>hv.
      sbind (orderSql ?d ?s) (\<lambda>ord.
      sbind (slift (tailClause ?d [] (limitN ?s) (offsetN ?s) (Some (orderBys ?s \<noteq> None)))) (\<lambda>tl.
      sreturn (''SELECT '' @ projections @ '' FROM '' @ quoteTable ?d (qb_table (binding ?s)) @
        js @ fs @ wh @ groupSql ?d ?s @ hv @ ord @ tl))))))))"
  have "rest p st1 = Inr (body, params, primary)"
    using r p unfolding selectText_def Let_def rest_def [symmetric]
    by (simp add: sbind_def)
  moreover have "keeps_primary (rest p)"
    unfolding rest_def by (intro primary_intros)
  ultimately have "primary"
    using \<open>snd st1\<close> unfolding keeps_primary_def by fastforce
  then show ?thesis by (simp add: c)
qed

end
