(* ===== verification/Builders.thy ===== *)
theory Builders
  imports SelectScope
begin

section \<open>Column expressions, insert, update, delete and routine calls\<close>

text \<open>
  \<open>packages/sql/src/expressions/index.ts\<close>, the write builders and helpers of
  \<open>packages/sql/src/index.ts\<close>, and the SQL Server strategy \<open>packages/mssql/src/compiler.ts\<close>.
  The strategy a dialect object carries (\<open>dialect.compiler\<close>) is a pair of functions, passed to the
  builders as an option beside the dialect record.
\<close>

subsection \<open>Collection helpers\<close>

text \<open>\<open>sanitizeKeys\<close>: on values whose equality is structural (the primitives a key can be).\<close>

fun sanitize_loop :: "jsval list \<Rightarrow> jsval list \<Rightarrow> jsval list" where
  "sanitize_loop seen [] = seen"
| "sanitize_loop seen (k # ks) =
     (if \<not> is_nullish k \<and> k \<notin> set seen then sanitize_loop (seen @ [k]) ks
      else sanitize_loop seen ks)"

definition sanitizeKeys :: "jsval list \<Rightarrow> jsval list" where
  "sanitizeKeys keys = sanitize_loop [] keys"

function chunks_from :: "nat \<Rightarrow> 'a list \<Rightarrow> 'a list list" where
  "chunks_from n xs = (if xs = [] \<or> n = 0 then [] else take n xs # chunks_from n (drop n xs))"
  by pat_completeness auto
termination
  by (relation "measure (\<lambda>(n, xs). length xs)") auto

declare chunks_from.simps [simp del]

definition chunkArray :: "'a list \<Rightarrow> int \<Rightarrow> js_error + 'a list list" where
  "chunkArray xs chunkSize =
     (if chunkSize \<le> 0 then Inl (PlainError ''chunkSize must be greater than 0'')
      else Inr (chunks_from (nat chunkSize) xs))"

subsection \<open>Column expressions\<close>

datatype column_expr =
    ExAdd jsval | ExSub jsval | ExMul jsval | ExNot | ExConcat string | ExCoalesce jsval | ExProposed

datatype set_value = Literal jsval | ColExpr column_expr

definition inc :: "jsval option \<Rightarrow> set_value" where
  "inc v = ColExpr (ExAdd (override v (JNum (IntNum 1))))"

definition dec :: "jsval option \<Rightarrow> set_value" where
  "dec v = ColExpr (ExSub (override v (JNum (IntNum 1))))"

definition mul :: "jsval \<Rightarrow> set_value" where "mul v = ColExpr (ExMul v)"
definition negated :: "set_value" where "negated = ColExpr ExNot"
definition concat_text :: "string \<Rightarrow> set_value" where "concat_text s = ColExpr (ExConcat s)"
definition coalesce :: "jsval \<Rightarrow> set_value" where "coalesce v = ColExpr (ExCoalesce v)"
definition proposed :: "set_value" where "proposed = ColExpr ExProposed"

text \<open>An expression value that is bound as a parameter is bound as the object it is.\<close>

fun expr_object :: "column_expr \<Rightarrow> jsval" where
  "expr_object (ExAdd v) = JObj [(''op'', JStr ''add''), (''by'', v)]"
| "expr_object (ExSub v) = JObj [(''op'', JStr ''sub''), (''by'', v)]"
| "expr_object (ExMul v) = JObj [(''op'', JStr ''mul''), (''by'', v)]"
| "expr_object ExNot = JObj [(''op'', JStr ''not'')]"
| "expr_object (ExConcat s) = JObj [(''op'', JStr ''concat''), (''with'', JStr s)]"
| "expr_object (ExCoalesce v) = JObj [(''op'', JStr ''coalesce''), (''fallback'', v)]"
| "expr_object ExProposed = JObj [(''op'', JStr ''proposed'')]"

fun raw_value :: "set_value \<Rightarrow> jsval" where
  "raw_value (Literal v) = v"
| "raw_value (ColExpr e) = expr_object e"

datatype set_scope = ScopeUpdate | ScopeUpsert

definition proposed_error :: "string \<Rightarrow> string \<Rightarrow> js_error" where
  "proposed_error col tbl = PlainError
     (''proposed() references the row being inserted and is only valid inside '' @
      ''onConflict().doUpdate() ('' @ json_string col @ '' on '' @ json_string tbl @ '')'')"

fun emitColumnExpr ::
  "column_expr \<Rightarrow> 'x dialect_scheme \<Rightarrow> string \<Rightarrow> string \<Rightarrow> nat \<Rightarrow> set_scope \<Rightarrow>
     (string \<times> string) option \<Rightarrow> js_error + (string \<times> jsval list)" where
  "emitColumnExpr e d tbl col parameterIndex scope refs =
     (let quotedColumn = (case refs of Some (current, _) \<Rightarrow> current | None \<Rightarrow> quoteIdentifier d col);
          ph = formatPlaceholder d parameterIndex
      in case e of
        ExAdd v \<Rightarrow> Inr (quotedColumn @ '' + '' @ ph, [v])
      | ExSub v \<Rightarrow> Inr (quotedColumn @ '' - '' @ ph, [v])
      | ExMul v \<Rightarrow> Inr (quotedColumn @ '' * '' @ ph, [v])
      | ExNot \<Rightarrow> Inr (if booleanNot (traits d) = NotNot then ''NOT '' @ quotedColumn
                      else ''~'' @ quotedColumn, [])
      | ExConcat s \<Rightarrow> Inr (if concatStyle (traits d) = ConcatFunction
                           then ''CONCAT('' @ quotedColumn @ '', '' @ ph @ '')''
                           else quotedColumn @ '' || '' @ ph, [JStr s])
      | ExCoalesce v \<Rightarrow> Inr (''COALESCE('' @ quotedColumn @ '', '' @ ph @ '')'', [v])
      | ExProposed \<Rightarrow>
          if scope \<noteq> ScopeUpsert then Inl (proposed_error col tbl)
          else Inr (case refs of Some (_, prop) \<Rightarrow> prop
                    | None \<Rightarrow> if upsertStyle (traits d) = OnDuplicateKey
                              then ''VALUES('' @ quotedColumn @ '')''
                              else ''EXCLUDED.'' @ quotedColumn, []))"

definition setValueSql ::
  "'x dialect_scheme \<Rightarrow> string \<Rightarrow> string \<Rightarrow> set_value \<Rightarrow> set_scope \<Rightarrow> (string \<times> string) option \<Rightarrow>
     string render" where
  "setValueSql d tbl col value scope refs = (case value of
     Literal v \<Rightarrow> pushParam d v
   | ColExpr e \<Rightarrow> (\<lambda>st.
       rbind (emitColumnExpr e d tbl col (Suc (length (fst st))) scope refs) (\<lambda>(s, vs).
       Inr (s, (fst st @ vs, snd st)))))"

subsection \<open>Routine calls\<close>

datatype routine_kind = RoutineFunction | RoutineTable | RoutineProcedure

definition placeholders :: "'x dialect_scheme \<Rightarrow> nat \<Rightarrow> string list" where
  "placeholders d n = map (\<lambda>i. formatPlaceholder d (Suc i)) [0..<n]"

definition routineCall ::
  "'x dialect_scheme \<Rightarrow> string \<Rightarrow> jsval list \<Rightarrow> routine_kind \<Rightarrow> js_error + compiled_query" where
  "routineCall d name args kind =
     (let supported = (case kind of RoutineFunction \<Rightarrow> routineFunctions (traits d)
            | RoutineProcedure \<Rightarrow> procedures (traits d) | RoutineTable \<Rightarrow> tableFunctions (traits d));
          phs = join '', '' (placeholders d (length args));
          routine = quoteIdentifier d name
      in if \<not> supported
         then Inl (UnsupportedFeature (''stored routine '' @ [dq] @ name @ [dq]) (d_name d))
         else Inr (frozenQuery
           (case kind of
              RoutineProcedure \<Rightarrow> ''CALL '' @ routine @ ''('' @ phs @ '')''
            | RoutineTable \<Rightarrow> ''SELECT * FROM '' @ routine @ ''('' @ phs @ '')''
            | RoutineFunction \<Rightarrow>
                ''SELECT '' @ routine @ ''('' @ phs @ '') AS '' @ quoteIdentifier d ''result'')
           args
           (if kind = RoutineProcedure then UNKNOWN_WRITE_EFFECTS else UNKNOWN_ROW_EFFECTS) None))"

subsection \<open>RETURNING and OUTPUT\<close>

record returning_sql =
  inline :: string
  suffix_sql :: string

datatype row_image = RowNew | RowOld

record returning_context =
  rc_dialect :: dialect
  rc_statement :: returning_statement
  rc_row :: row_image
  rc_columns :: "projected list"

datatype conflict_action = ConflictUpdate | ConflictIgnore

datatype update_fields = AllFields | NamedFields "string list" | FieldValues "(string \<times> set_value) list"

record conflict_state =
  conflict_action :: conflict_action
  conflict_target :: "string list option"
  conflict_fields :: update_fields

record upsert_context =
  uc_dialect :: dialect
  uc_table :: string
  uc_columns :: "string list"
  uc_placeholders :: "string list"
  uc_conflict :: conflict_state
  uc_returning :: returning_sql
  renderUpdateValue :: "string \<Rightarrow> set_value \<Rightarrow> string \<times> string \<Rightarrow> string render"
  isProposedValue :: "set_value \<Rightarrow> bool"

record dialect_compiler =
  dc_returning :: "returning_context \<Rightarrow> returning_sql"
  dc_upsert :: "upsert_context \<Rightarrow> string render"

definition returningColumns ::
  "query_binding \<Rightarrow> projected list option \<Rightarrow> js_error + projected list" where
  "returningColumns b cols =
     (let columns = (case cols of None \<Rightarrow> [PlainColumn ''*''] | Some cs \<Rightarrow> cs) in
      case qb_names b of
        None \<Rightarrow> Inr columns
      | Some names \<Rightarrow> rbind (map_result (\<lambda>c. if c = PlainColumn ''*'' then Inr (projection names)
                else rbind (mapProjection b c []) (\<lambda>m. Inr [m])) columns) (\<lambda>css. Inr (concat css)))"

definition returningColumn :: "'x dialect_scheme \<Rightarrow> projected \<Rightarrow> string" where
  "returningColumn d c = (case c of
     PlainColumn s \<Rightarrow> if s = ''*'' then ''*'' else quoteColumn d s
   | AliasedColumn s a \<Rightarrow> quoteColumn d s @ '' AS '' @ quoteIdentifier d a)"

definition NO_RETURNING_SQL :: returning_sql where
  "NO_RETURNING_SQL = \<lparr>inline = [], suffix_sql = []\<rparr>"

definition returningSql ::
  "dialect \<Rightarrow> dialect_compiler option \<Rightarrow> returning_statement \<Rightarrow> row_image \<Rightarrow>
     projected list option \<Rightarrow> js_error + returning_sql" where
  "returningSql d strategy statement row cols = (case cols of
     None \<Rightarrow> Inr NO_RETURNING_SQL
   | Some cs \<Rightarrow>
       if cs = [] then Inr NO_RETURNING_SQL
       else (case returningTrait (traits d) statement of
           RNone \<Rightarrow> Inl (UnsupportedFeature ''returning'' (d_name d))
         | RSuffix \<Rightarrow> Inr \<lparr>inline = [],
             suffix_sql = '' RETURNING '' @ join '', '' (map (returningColumn d) cs)\<rparr>
         | ROutput \<Rightarrow> (case strategy of
               None \<Rightarrow> Inl (UnsupportedFeature ''output returning strategy'' (d_name d))
             | Some c \<Rightarrow> Inr (dc_returning c \<lparr>rc_dialect = d, rc_statement = statement,
                 rc_row = row, rc_columns = cs\<rparr>))))"

subsection \<open>INSERT\<close>

record insert_builder =
  ib_binding :: query_binding
  ib_row :: "(string \<times> set_value) list option"
  ib_returning :: "projected list option"
  ib_conflict :: "conflict_state option"
  ib_telemetry :: bool

datatype conflict_arg = TargetOmitted | TargetOne string | TargetMany "string list"

definition normalizeTarget :: "conflict_arg \<Rightarrow> string list option" where
  "normalizeTarget t = (case t of TargetOmitted \<Rightarrow> None
     | TargetOne s \<Rightarrow> if s = [] then None else Some [s]
     | TargetMany ss \<Rightarrow> Some ss)"

definition conflictTarget :: "'x dialect_scheme \<Rightarrow> string list option \<Rightarrow> string" where
  "conflictTarget d t = (case t of None \<Rightarrow> []
     | Some cs \<Rightarrow> if cs = [] then []
         else '' ('' @ join '', '' (map (quoteIdentifier d) cs) @ '')'')"

definition upsertSetSql :: "'x dialect_scheme \<Rightarrow> string list \<Rightarrow> upsert_style \<Rightarrow> string" where
  "upsertSetSql d cols style = join '', '' (map (\<lambda>c. quoteIdentifier d c @ '' = '' @
     (if style = OnDuplicateKey then ''VALUES('' @ quoteIdentifier d c @ '')''
      else ''EXCLUDED.'' @ quoteIdentifier d c)) cols)"

definition insert_values ::
  "insert_builder \<Rightarrow> (string \<times> set_value) list \<Rightarrow> js_error + insert_builder" where
  "insert_values b r = rbind (mapRow (ib_binding b) r) (\<lambda>m. Inr (b\<lparr>ib_row := Some m\<rparr>))"

definition insert_returning ::
  "insert_builder \<Rightarrow> projected list option \<Rightarrow> js_error + insert_builder" where
  "insert_returning b cols =
     rbind (returningColumns (ib_binding b) cols) (\<lambda>m. Inr (b\<lparr>ib_returning := Some m\<rparr>))"

definition conflict_columns ::
  "insert_builder \<Rightarrow> conflict_arg \<Rightarrow> js_error + string list option" where
  "conflict_columns b t = (case normalizeTarget t of None \<Rightarrow> Inr None
     | Some cs \<Rightarrow> rbind (map_result (\<lambda>c. mapColumn (ib_binding b) c []) cs) (\<lambda>ms. Inr (Some ms)))"

definition doUpdate ::
  "insert_builder \<Rightarrow> conflict_arg \<Rightarrow> update_fields \<Rightarrow> js_error + insert_builder" where
  "doUpdate b t upd =
     rbind (conflict_columns b t) (\<lambda>target.
     if upd = NamedFields []
     then Inl (PlainError (''Empty updateFields array is not allowed in doUpdate(). Omit updateFields (or pass '' @
       ''undefined) to update all non-target columns, or use doNothing().''))
     else rbind (case upd of
         NamedFields cs \<Rightarrow> rbind (map_result (\<lambda>c. mapColumn (ib_binding b) c []) cs)
           (\<lambda>ms. Inr (NamedFields ms))
       | AllFields \<Rightarrow> Inr AllFields
       | FieldValues r \<Rightarrow> rbind (mapRow (ib_binding b) r) (\<lambda>m. Inr (FieldValues m)))
       (\<lambda>fs. Inr (b\<lparr>ib_conflict := Some \<lparr>conflict_action = ConflictUpdate,
          conflict_target = target, conflict_fields = fs\<rparr>\<rparr>)))"

definition doNothing :: "insert_builder \<Rightarrow> conflict_arg \<Rightarrow> js_error + insert_builder" where
  "doNothing b t = rbind (conflict_columns b t) (\<lambda>target.
     Inr (b\<lparr>ib_conflict := Some \<lparr>conflict_action = ConflictIgnore,
        conflict_target = target, conflict_fields = AllFields\<rparr>\<rparr>))"

text \<open>\<open>compile\<close> of an insert. The parameters start as the row's values.\<close>

definition set_list ::
  "'x dialect_scheme \<Rightarrow> string \<Rightarrow> set_scope \<Rightarrow> (string \<times> set_value) list \<Rightarrow> string list render" where
  "set_list d tbl scope r = smap (\<lambda>(k, v). sbind (setValueSql d tbl k v scope None) (\<lambda>s.
     sreturn (quoteIdentifier d k @ '' = '' @ s))) r"

definition upsertFieldsSql ::
  "dialect \<Rightarrow> string \<Rightarrow> string list \<Rightarrow> conflict_state \<Rightarrow> string render" where
  "upsertFieldsSql d tbl keys c = (let style = upsertStyle (traits d) in
     case conflict_fields c of
       NamedFields cs \<Rightarrow> sreturn (upsertSetSql d cs style)
     | FieldValues r \<Rightarrow> sbind (set_list d tbl ScopeUpsert r) (\<lambda>ss. sreturn (join '', '' ss))
     | AllFields \<Rightarrow>
         let nonTarget = filter (\<lambda>k. k \<notin> set (or_empty (conflict_target c))) keys
         in sreturn (upsertSetSql d (if nonTarget \<noteq> [] then nonTarget else keys) style))"

definition insertHead :: "dialect \<Rightarrow> string \<Rightarrow> string list \<Rightarrow> string list \<Rightarrow> returning_sql \<Rightarrow> string" where
  "insertHead d tbl keys phs ret =
     ''INSERT INTO '' @ quoteTable d tbl @ '' ('' @ join '', '' (map (quoteIdentifier d) keys) @ '')'' @
     inline ret @ '' VALUES ('' @ join '', '' phs @ '')''"

definition insertBody ::
  "dialect \<Rightarrow> dialect_compiler option \<Rightarrow> string \<Rightarrow> string list \<Rightarrow> conflict_state option \<Rightarrow>
     returning_sql \<Rightarrow> string render" where
  "insertBody d strategy tbl keys conflict ret =
     (let phs = placeholders d (length keys); insert = insertHead d tbl keys phs ret in
      case conflict of
        None \<Rightarrow> sreturn insert
      | Some c \<Rightarrow>
         (let style = upsertStyle (traits d) in
          if style = UpsertNone then slift (Inl (UnsupportedFeature ''upsert'' (d_name d)))
          else if style = Merge
          then (case strategy of
              None \<Rightarrow> slift (Inl (UnsupportedFeature ''merge upsert strategy'' (d_name d)))
            | Some s \<Rightarrow> dc_upsert s \<lparr>uc_dialect = d, uc_table = tbl, uc_columns = keys,
                uc_placeholders = phs, uc_conflict = c, uc_returning = ret,
                renderUpdateValue = (\<lambda>col v refs. setValueSql d tbl col v ScopeUpsert (Some refs)),
                isProposedValue = (\<lambda>v. v = ColExpr ExProposed)\<rparr>)
          else if conflict_action c = ConflictIgnore
          then sreturn (if style = OnDuplicateKey
              then ''INSERT IGNORE INTO '' @ quoteTable d tbl @ '' ('' @
                join '', '' (map (quoteIdentifier d) keys) @ '') VALUES ('' @ join '', '' phs @ '')''
              else insert @ '' ON CONFLICT'' @ conflictTarget d (conflict_target c) @ '' DO NOTHING'')
          else sbind (upsertFieldsSql d tbl keys c) (\<lambda>setSql. sreturn (
              if style = OnDuplicateKey then insert @ '' ON DUPLICATE KEY UPDATE '' @ setSql
              else insert @ '' ON CONFLICT'' @ conflictTarget d (conflict_target c) @
                '' DO UPDATE SET '' @ setSql))))"

definition returns_rows :: "projected list option \<Rightarrow> bool" where
  "returns_rows r \<longleftrightarrow> or_empty r \<noteq> []"

definition compile_insert ::
  "dialect \<Rightarrow> dialect_compiler option \<Rightarrow> insert_builder \<Rightarrow> js_error + compiled_query" where
  "compile_insert d strategy b = (case ib_row b of
     None \<Rightarrow> Inl (PlainError ''insertInto requires values()'')
   | Some row \<Rightarrow>
       rbind (returningSql d strategy (if ib_conflict b = None then StInsert else StUpsert) RowNew
                (ib_returning b)) (\<lambda>ret.
       rbind (insertBody d strategy (qb_table (ib_binding b)) (map fst row) (ib_conflict b) ret
                (map (raw_value \<circ> snd) row, False)) (\<lambda>(body, params, _).
       Inr (frozenQuery (body @ suffix_sql ret) params
              (writeEffects OpInsert (returns_rows (ib_returning b)))
              (queryTelemetry d OpInsert (qb_table (ib_binding b)) (ib_telemetry b))))))"

subsection \<open>UPDATE\<close>

record update_builder =
  ub_binding :: query_binding
  ub_row :: "(string \<times> set_value) list option"
  ub_wheres :: "predicate list"
  ub_returning :: "projected list option"
  ub_telemetry :: bool

definition update_set ::
  "update_builder \<Rightarrow> (string \<times> set_value) list \<Rightarrow> js_error + update_builder" where
  "update_set b r = rbind (mapRow (ub_binding b) r) (\<lambda>m. Inr (b\<lparr>ub_row := Some m\<rparr>))"

definition mapped_comparison ::
  "query_binding \<Rightarrow> connector \<Rightarrow> string \<Rightarrow> string \<Rightarrow> operand \<Rightarrow> js_error + predicate" where
  "mapped_comparison b conn col op v =
     rbind (mapColumn b col []) (\<lambda>m. Inr (Comparison m op v (Some conn)))"

definition update_where ::
  "update_builder \<Rightarrow> connector \<Rightarrow> string \<Rightarrow> string \<Rightarrow> operand \<Rightarrow> js_error + update_builder" where
  "update_where b conn col op v =
     rbind (mapped_comparison (ub_binding b) conn col op v) (\<lambda>p. Inr (b\<lparr>ub_wheres := ub_wheres b @ [p]\<rparr>))"

definition update_whereGroup ::
  "update_builder \<Rightarrow> predicate list \<Rightarrow> js_error + update_builder" where
  "update_whereGroup b ps = rbind (mapPredicates (ub_binding b) [] ps)
     (\<lambda>ms. Inr (b\<lparr>ub_wheres := ub_wheres b @ [Group ms (Some And)]\<rparr>))"

definition update_whereIn ::
  "update_builder \<Rightarrow> string \<Rightarrow> jsval list \<Rightarrow> js_error + update_builder" where
  "update_whereIn b col vs = update_where b And col ''in'' (Val (JArr vs))"

definition update_whereNotIn ::
  "update_builder \<Rightarrow> string \<Rightarrow> jsval list \<Rightarrow> js_error + update_builder" where
  "update_whereNotIn b col vs = update_where b And col ''not in'' (Val (JArr vs))"

definition update_returning ::
  "update_builder \<Rightarrow> projected list option \<Rightarrow> js_error + update_builder" where
  "update_returning b cols =
     rbind (returningColumns (ub_binding b) cols) (\<lambda>m. Inr (b\<lparr>ub_returning := Some m\<rparr>))"

definition updateBody ::
  "dialect \<Rightarrow> dialect_compiler option \<Rightarrow> update_builder \<Rightarrow> (string \<times> set_value) list \<Rightarrow> string render" where
  "updateBody d strategy b row =
     sbind (set_list d (qb_table (ub_binding b)) ScopeUpdate row) (\<lambda>sets.
     sbind (slift (returningSql d strategy StUpdate RowNew (ub_returning b))) (\<lambda>ret.
     sbind (whereClause d None (ub_wheres b)) (\<lambda>wh.
     sreturn (''UPDATE '' @ quoteTable d (qb_table (ub_binding b)) @ '' SET '' @ join '', '' sets @
       inline ret @ wh @ suffix_sql ret))))"

definition compile_update ::
  "dialect \<Rightarrow> dialect_compiler option \<Rightarrow> update_builder \<Rightarrow> js_error + compiled_query" where
  "compile_update d strategy b = (case ub_row b of
     None \<Rightarrow> Inl (PlainError ''updateTable requires set()'')
   | Some row \<Rightarrow> rbind (updateBody d strategy b row ([], False)) (\<lambda>(body, params, _).
       Inr (frozenQuery body params (writeEffects OpUpdate (returns_rows (ub_returning b)))
              (queryTelemetry d OpUpdate (qb_table (ub_binding b)) (ub_telemetry b)))))"

subsection \<open>DELETE\<close>

record delete_builder =
  db_binding :: query_binding
  db_wheres :: "predicate list"
  db_returning :: "projected list option"
  db_telemetry :: bool

definition delete_where ::
  "delete_builder \<Rightarrow> connector \<Rightarrow> string \<Rightarrow> string \<Rightarrow> operand \<Rightarrow> js_error + delete_builder" where
  "delete_where b conn col op v =
     rbind (mapped_comparison (db_binding b) conn col op v) (\<lambda>p. Inr (b\<lparr>db_wheres := db_wheres b @ [p]\<rparr>))"

definition delete_whereGroup ::
  "delete_builder \<Rightarrow> predicate list \<Rightarrow> js_error + delete_builder" where
  "delete_whereGroup b ps = rbind (mapPredicates (db_binding b) [] ps)
     (\<lambda>ms. Inr (b\<lparr>db_wheres := db_wheres b @ [Group ms (Some And)]\<rparr>))"

definition delete_whereIn ::
  "delete_builder \<Rightarrow> string \<Rightarrow> jsval list \<Rightarrow> js_error + delete_builder" where
  "delete_whereIn b col vs = delete_where b And col ''in'' (Val (JArr vs))"

definition delete_whereNotIn ::
  "delete_builder \<Rightarrow> string \<Rightarrow> jsval list \<Rightarrow> js_error + delete_builder" where
  "delete_whereNotIn b col vs = delete_where b And col ''not in'' (Val (JArr vs))"

definition delete_returning ::
  "delete_builder \<Rightarrow> projected list option \<Rightarrow> js_error + delete_builder" where
  "delete_returning b cols =
     rbind (returningColumns (db_binding b) cols) (\<lambda>m. Inr (b\<lparr>db_returning := Some m\<rparr>))"

definition deleteBody :: "dialect \<Rightarrow> dialect_compiler option \<Rightarrow> delete_builder \<Rightarrow> string render" where
  "deleteBody d strategy b =
     sbind (slift (returningSql d strategy StDelete RowOld (db_returning b))) (\<lambda>ret.
     sbind (whereClause d None (db_wheres b)) (\<lambda>wh.
     sreturn (''DELETE FROM '' @ quoteTable d (qb_table (db_binding b)) @ inline ret @ wh @
       suffix_sql ret)))"

definition compile_delete ::
  "dialect \<Rightarrow> dialect_compiler option \<Rightarrow> delete_builder \<Rightarrow> js_error + compiled_query" where
  "compile_delete d strategy b = rbind (deleteBody d strategy b ([], False)) (\<lambda>(body, params, _).
     Inr (frozenQuery body params (writeEffects OpDelete (returns_rows (db_returning b)))
            (queryTelemetry d OpDelete (qb_table (db_binding b)) (db_telemetry b))))"

subsection \<open>\<open>createQueryCompiler\<close>\<close>

text \<open>\<open>selectFrom\<close> is \<open>new_query\<close>; the other statements start from a binding alone.\<close>

definition insertInto :: "query_target \<Rightarrow> bool \<Rightarrow> js_error + insert_builder" where
  "insertInto t tel = rbind (bindTable t None) (\<lambda>b. Inr \<lparr>ib_binding = b, ib_row = None,
     ib_returning = None, ib_conflict = None, ib_telemetry = tel\<rparr>)"

definition updateTable :: "query_target \<Rightarrow> bool \<Rightarrow> js_error + update_builder" where
  "updateTable t tel = rbind (bindTable t None) (\<lambda>b. Inr \<lparr>ub_binding = b, ub_row = None,
     ub_wheres = [], ub_returning = None, ub_telemetry = tel\<rparr>)"

definition deleteFrom :: "query_target \<Rightarrow> bool \<Rightarrow> js_error + delete_builder" where
  "deleteFrom t tel = rbind (bindTable t None) (\<lambda>b. Inr \<lparr>db_binding = b, db_wheres = [],
     db_returning = None, db_telemetry = tel\<rparr>)"

subsection \<open>The SQL Server strategy\<close>

definition outputColumn :: "returning_context \<Rightarrow> string \<Rightarrow> projected \<Rightarrow> string" where
  "outputColumn ctx pseudo c = (case c of
     PlainColumn s \<Rightarrow> if s = ''*'' then pseudo @ ''.*'' else pseudo @ ''.'' @ quoteColumn (rc_dialect ctx) s
   | AliasedColumn s a \<Rightarrow>
       pseudo @ ''.'' @ quoteColumn (rc_dialect ctx) s @ '' AS '' @ quoteIdentifier (rc_dialect ctx) a)"

definition mssqlReturning :: "returning_context \<Rightarrow> returning_sql" where
  "mssqlReturning ctx =
     (let pseudo = (if rc_row ctx = RowOld then ''DELETED'' else ''INSERTED'')
      in \<lparr>inline = '' OUTPUT '' @ join '', '' (map (outputColumn ctx pseudo) (rc_columns ctx)),
          suffix_sql = []\<rparr>)"

definition mergeAssign :: "upsert_context \<Rightarrow> string list \<Rightarrow> string" where
  "mergeAssign ctx cols = join '', '' (map (\<lambda>c. quoteIdentifier (uc_dialect ctx) c @ '' = '' @
     ''src.'' @ quoteIdentifier (uc_dialect ctx) c) cols)"

definition mergeMissing :: "string \<Rightarrow> string \<Rightarrow> js_error" where
  "mergeMissing what c = TypeError (''MERGE '' @ what @ '' '' @ json_string c @
     '' is not present in values()'')"

definition mergeFields :: "upsert_context \<Rightarrow> string list \<Rightarrow> string render" where
  "mergeFields ctx target =
     (let q = quoteIdentifier (uc_dialect ctx); keys = uc_columns ctx in
      case conflict_fields (uc_conflict ctx) of
        NamedFields cs \<Rightarrow>
          (case find (\<lambda>c. c \<notin> set keys) cs of
             Some c \<Rightarrow> slift (Inl (mergeMissing ''update field'' c))
           | None \<Rightarrow> sreturn (mergeAssign ctx cs))
      | FieldValues es \<Rightarrow>
          if es = []
          then slift (Inl (TypeError ''MERGE doUpdate() requires at least one update field''))
          else sbind (smap (\<lambda>(c, v).
                 if isProposedValue ctx v \<and> c \<notin> set keys
                 then slift (Inl (mergeMissing ''proposed field'' c))
                 else sbind (renderUpdateValue ctx c v (''tgt.'' @ q c, ''src.'' @ q c)) (\<lambda>s.
                   sreturn (q c @ '' = '' @ s))) es) (\<lambda>ss. sreturn (join '', '' ss))
      | AllFields \<Rightarrow>
          let nonTarget = filter (\<lambda>c. c \<notin> set target) keys
          in sreturn (mergeAssign ctx (if nonTarget \<noteq> [] then nonTarget else keys)))"

definition mssqlUpsert :: "upsert_context \<Rightarrow> string render" where
  "mssqlUpsert ctx =
     (let target = or_empty (conflict_target (uc_conflict ctx)); keys = uc_columns ctx;
          q = quoteIdentifier (uc_dialect ctx); src = (\<lambda>c. ''src.'' @ q c);
          sourceColumns = join '', '' (map q keys)
      in if target = []
         then slift (Inl (UnsupportedFeature ''upsert without a conflict target''
           (d_name (uc_dialect ctx))))
         else case find (\<lambda>c. c \<notin> set keys) target of
           Some c \<Rightarrow> slift (Inl (mergeMissing ''conflict target'' c))
         | None \<Rightarrow>
             sbind (if conflict_action (uc_conflict ctx) = ConflictUpdate
                    then sbind (mergeFields ctx target) (\<lambda>s.
                      sreturn ('' WHEN MATCHED THEN UPDATE SET '' @ s))
                    else sreturn []) (\<lambda>matched.
             sreturn (''MERGE '' @ quoteTable (uc_dialect ctx) (uc_table ctx) @
               '' WITH (HOLDLOCK) AS tgt USING (VALUES ('' @ join '', '' (uc_placeholders ctx) @
               '')) AS src ('' @ sourceColumns @ '') ON '' @
               join '' AND '' (map (\<lambda>c. ''tgt.'' @ q c @ '' = '' @ src c) target) @
               matched @ '' WHEN NOT MATCHED THEN INSERT ('' @ sourceColumns @ '') VALUES ('' @
               join '', '' (map src keys) @ '')'' @ inline (uc_returning ctx) @ '';'')))"

definition mssqlCompiler :: dialect_compiler where
  "mssqlCompiler = \<lparr>dc_returning = mssqlReturning, dc_upsert = mssqlUpsert\<rparr>"

end
