(* ===== verification/WriteNumbering.thy ===== *)
theory WriteNumbering
  imports SelectNumbering Builders
begin

section \<open>Parameter numbering of the write statements, and the collection helpers\<close>

text \<open>
  The interface \<open>numbered_writes\<close> extends \<open>numbered_select\<close> by the suffix style of RETURNING and an
  upsert style that is not MERGE; inside it the compiled INSERT, UPDATE and DELETE texts carry
  exactly the markers of their parameters. The collection helpers are characterised by what they
  keep: \<open>chunkArray\<close> partitions, \<open>sanitizeKeys\<close> removes repetitions and absent keys.
\<close>

subsection \<open>\<open>chunkArray\<close> and \<open>sanitizeKeys\<close>\<close>

lemma chunks_from_simps:
  "chunks_from n [] = []"
  "0 < n \<Longrightarrow> xs \<noteq> [] \<Longrightarrow> chunks_from n xs = take n xs # chunks_from n (drop n xs)"
  by (simp_all add: chunks_from.simps [of n])

lemma concat_chunks: "0 < n \<Longrightarrow> concat (chunks_from n xs) = xs"
  by (induction n xs rule: chunks_from.induct) (metis append_take_drop_id chunks_from_simps
      concat.simps nat_less_le)

lemma chunk_sizes:
  "0 < n \<Longrightarrow> c \<in> set (chunks_from n xs) \<Longrightarrow> c \<noteq> [] \<and> length c \<le> n"
proof (induction n xs rule: chunks_from.induct)
  case (1 n xs)
  then show ?case by (cases "xs = []") (auto simp: chunks_from_simps)
qed

lemma chunk_count: "0 < n \<Longrightarrow> length (chunks_from n xs) = (length xs + n - 1) div n"
proof (induction n xs rule: chunks_from.induct)
  case (1 n xs)
  show ?case
  proof (cases "xs = []")
    case True
    with 1 show ?thesis by (simp add: chunks_from_simps)
  next
    case False
    then have "length (chunks_from n xs) = Suc ((length xs - n + n - 1) div n)"
      using 1 by (simp add: chunks_from_simps)
    also have "\<dots> = (length xs + n - 1) div n"
    proof (cases "length xs \<le> n")
      case True
      then have "length xs + n - 1 = (length xs - 1) + n" using False by (cases xs) auto
      moreover have "(length xs - 1) div n = 0" using True False by (cases xs) auto
      ultimately show ?thesis using \<open>0 < n\<close> True by (simp only: div_add_self2) simp
    next
      case False
      then have "length xs + n - 1 = (length xs - n + n - 1) + n" by simp
      then show ?thesis using \<open>0 < n\<close> by (simp only: div_add_self2)
    qed
    finally show ?thesis .
  qed
qed

lemma sanitize_loop_props:
  "distinct seen \<Longrightarrow> distinct (sanitize_loop seen ks) \<and>
     set (sanitize_loop seen ks) = set seen \<union> {k \<in> set ks. \<not> is_nullish k}"
  by (induction seen ks rule: sanitize_loop.induct) auto

lemma sanitize_loop_order:
  "\<exists>new. sanitize_loop seen ks = seen @ new \<and> subseq new ks"
proof (induction seen ks rule: sanitize_loop.induct)
  case (2 seen k ks)
  then show ?case
    by (auto intro: list_emb.intros)
qed simp

subsection \<open>The write statements\<close>

locale numbered_writes = numbered_select +
  assumes returning_suffix: "returningTrait (traits d) st = RSuffix"
    and no_merge: "upsertStyle (traits d) \<noteq> Merge"
begin

lemma emits_two: "emits a [] \<Longrightarrow> plain_text t \<Longrightarrow> \<not> starts_digit t \<Longrightarrow> t \<noteq> [] \<Longrightarrow> emits b ns \<Longrightarrow>
    emits (a @ t @ b) ns"
  using emits_append [OF _ emits_plain_prefix, of a "[]" t b ns] by simp

lemma emits_wrapped:
  "plain_text p \<Longrightarrow> emits a [] \<Longrightarrow> plain_text t \<Longrightarrow> \<not> starts_digit t \<Longrightarrow> t \<noteq> [] \<Longrightarrow> emits b ns \<Longrightarrow>
     plain_text u \<Longrightarrow> \<not> starts_digit u \<Longrightarrow> emits (p @ a @ t @ b @ u) ns"
  using emits_plain_prefix [of p "a @ t @ b @ u"] emits_two [of a t "b @ u"] emits_suffix [of b ns u]
  by simp

lemma emitColumnExpr_numbers:
  assumes "emitColumnExpr e d tbl col n scope None = Inr (s, vs)"
  shows "emits s (map (\<lambda>_. n) vs) \<and> length vs \<le> 1"
proof -
  have q: "emits (quoteIdentifier d col) []" by (rule emits_pieces(2))
  have ph: "emits (formatPlaceholder d n) [n]" by (rule emits_formatPlaceholder [OF numbered])
  have bin: "emits (quoteIdentifier d col @ t @ formatPlaceholder d n) [n]"
    if "plain_text t" "\<not> starts_digit t" "t \<noteq> []" for t
    by (rule emits_two [OF q that ph])
  have call: "emits (p @ quoteIdentifier d col @ '', '' @ formatPlaceholder d n @ '')'') [n]"
    if "plain_text p" for p
    by (rule emits_wrapped [OF that q _ _ _ ph]) (simp_all add: is_digit_def)
  have pre: "emits (p @ quoteIdentifier d col) []" if "plain_text p" for p
    by (rule emits_plain_prefix [OF that q])
  have vals: "emits (''VALUES('' @ quoteIdentifier d col @ '')'') []"
    by (rule emits_around [OF _ q]) simp_all
  show ?thesis
    using assms bin [of "'' + ''"] bin [of "'' - ''"] bin [of "'' * ''"] bin [of "'' || ''"]
      call [of "''CONCAT(''"] call [of "''COALESCE(''"] pre [of "''NOT ''"] pre [of "''~''"]
      pre [of "''EXCLUDED.''"] vals
    by (cases e) (auto simp: Let_def is_digit_def split: if_splits)
qed

lemma setValueSql_numbered: "numbered_text (setValueSql d tbl col v scope None)"
proof (cases v)
  case (Literal x)
  then show ?thesis by (simp add: setValueSql_def numbered_pushParam)
next
  case (ColExpr e)
  show ?thesis unfolding numbered_text_def
  proof (intro allI impI)
    fix st s st' assume "setValueSql d tbl col v scope None st = Inr (s, st')"
    then obtain vs where vs: "emitColumnExpr e d tbl col (Suc (length (fst st))) scope None = Inr (s, vs)"
      and st': "st' = (fst st @ vs, snd st)"
      by (auto simp: setValueSql_def ColExpr result_simps simp del: emitColumnExpr.simps)
    from emitColumnExpr_numbers [OF vs] show "\<exists>ns. advances st st' ns \<and> emits s ns"
      unfolding st' advances_def by (cases vs) auto
  qed
qed

lemma set_list_numbered: "numbered_parts (set_list d tbl scope r)"
proof -
  have "emits (quoteIdentifier d k @ '' = '' @ s) ns" if "emits s ns" for k s ns
    by (rule emits_two [OF emits_pieces(2) _ _ _ that]) simp_all
  then show ?thesis
    unfolding set_list_def
    by (intro numbered_parts_smap) (auto simp: case_prod_unfold simp del: append.simps append_Cons
        intro!: numbered_map setValueSql_numbered)
qed

lemma returningColumn_emits: "emits (returningColumn d c) []"
  by (cases c) (auto simp: returningColumn_def intro: emits_pieces emits_as emits_plain_text
      simp del: append.simps append_Cons)

lemma returningSql_suffix:
  assumes "returningSql d strategy stm row cols = Inr r"
  shows "inline r = [] \<and> emits (suffix_sql r) [] \<and> \<not> starts_digit (suffix_sql r)"
proof -
  have "emits ('' RETURNING '' @ join '', '' (map (returningColumn d) cs)) []" for cs
    by (intro emits_plain_prefix emits_all_commas) (auto simp: returningColumn_emits)
  then show ?thesis
    using assms
    by (auto simp: returningSql_def NO_RETURNING_SQL_def returning_suffix split: option.splits if_splits)
qed

lemma emits_identifiers: "emits (join '', '' (map (quoteIdentifier d) cs)) []"
  by (intro emits_all_commas) (auto intro: emits_pieces)

lemma emits_placeholders: "emits (join '', '' (placeholders d n)) [1..<Suc n]"
proof -
  have "list_all2 emits (placeholders d n) (map (\<lambda>i. [Suc i]) [0..<n])"
    by (auto simp: placeholders_def list_all2_conv_all_nth intro: emits_formatPlaceholder [OF numbered])
  moreover have "concat (map (\<lambda>i. [Suc i]) [0..<n]) = [1..<Suc n]"
    by (induction n) simp_all
  ultimately show ?thesis using emits_comma_join by metis
qed

lemma insertHead_emits:
  assumes "inline ret = []"
  shows "emits (insertHead d tbl keys (placeholders d n) ret) [1..<Suc n]"
proof -
  have 1: "emits ('' VALUES ('' @ join '', '' (placeholders d n) @ '')'') [1..<Suc n]"
    by (rule emits_around [OF _ emits_placeholders]) simp_all
  have 2: "emits ('' ('' @ join '', '' (map (quoteIdentifier d) keys) @ '')'') []"
    by (rule emits_around [OF _ emits_identifiers]) simp_all
  have "emits ((''INSERT INTO '' @ quoteTable d tbl) @
      ('' ('' @ join '', '' (map (quoteIdentifier d) keys) @ '')'') @
      '' VALUES ('' @ join '', '' (placeholders d n) @ '')'') ([] @ [] @ [1..<Suc n])"
    by (intro emits_append emits_plain_prefix emits_pieces 1 2) simp_all
  then show ?thesis by (simp add: insertHead_def assms del: upt_Suc)
qed

lemma conflictTarget_emits: "emits (conflictTarget d t) [] \<and> \<not> starts_digit (conflictTarget d t)"
  using emits_around [OF _ emits_identifiers, where a = "'' (''" and b = "'')''"]
  by (auto simp: conflictTarget_def split: option.splits)

lemma upsertSetSql_emits: "emits (upsertSetSql d cols style) []"
proof -
  have "emits (quoteIdentifier d c @ '' = '' @
      (if style = OnDuplicateKey then ''VALUES('' @ quoteIdentifier d c @ '')''
       else ''EXCLUDED.'' @ quoteIdentifier d c)) []" for c
  proof -
    have "emits (if style = OnDuplicateKey then ''VALUES('' @ quoteIdentifier d c @ '')''
       else ''EXCLUDED.'' @ quoteIdentifier d c) []"
      using emits_around [OF _ emits_pieces(2), of "''VALUES(''" "'')''" c]
        emits_plain_prefix [OF _ emits_pieces(2), of "''EXCLUDED.''" c] by simp
    then show ?thesis by (intro emits_two emits_pieces) simp_all
  qed
  then show ?thesis unfolding upsertSetSql_def by (intro emits_all_commas) auto
qed

lemma upsertFieldsSql_numbered: "numbered_text (upsertFieldsSql d tbl keys c)"
  unfolding upsertFieldsSql_def Let_def
  by (cases "conflict_fields c"; simp only: update_fields.case)
    (intro numbered_sreturn upsertSetSql_emits numbered_join set_list_numbered emits_comma_join;
      assumption)+

text \<open>
  The body of an INSERT renders the row's placeholders itself: the state it starts from already
  holds the row's values.
\<close>

lemma insertBody_numbered:
  assumes ret: "inline ret = []"
    and st: "length (fst st) = length keys"
    and b: "insertBody d strategy tbl keys conflict ret st = Inr (s, st')"
  shows "emits s [1..<Suc (length (fst st'))] \<and> (\<exists>vs. fst st' = fst st @ vs)"
proof -
  let ?n = "length keys" and ?head = "insertHead d tbl keys (placeholders d (length keys)) ret"
  note head = insertHead_emits [OF ret, of tbl keys ?n]
  have ignore: "emits (''INSERT IGNORE INTO '' @ quoteTable d tbl @ '' ('' @
      join '', '' (map (quoteIdentifier d) keys) @ '') VALUES ('' @
      join '', '' (placeholders d ?n) @ '')'') [1..<Suc ?n]"
  proof -
    have "emits ('' ('' @ join '', '' (map (quoteIdentifier d) keys) @ '') VALUES ('' @
        join '', '' (placeholders d ?n) @ '')'') [1..<Suc ?n]"
      by (rule emits_wrapped [OF _ emits_identifiers _ _ _ emits_placeholders]) simp_all
    then show ?thesis
      using emits_plain_prefix [OF _ emits_append [OF emits_pieces(3)], of "''INSERT IGNORE INTO ''" _ _ tbl]
      by (simp del: upt_Suc)
  qed
  have skip: "emits (?head @ '' ON CONFLICT'' @ conflictTarget d t @ '' DO NOTHING'') [1..<Suc ?n]" for t
  proof -
    have "emits ('' ON CONFLICT'' @ conflictTarget d t @ '' DO NOTHING'') []"
      using conflictTarget_emits [of t] by (intro emits_around) simp_all
    from emits_append [OF head this] show ?thesis by (simp del: upt_Suc)
  qed
  have update: "emits (?head @ t @ u) ([1..<Suc ?n] @ ns)"
    if "plain_text t" "\<not> starts_digit t" "t \<noteq> []" "emits u ns" for t u ns
    using emits_append [OF head emits_plain_prefix [OF that(1,4)]] that(2,3) by (simp del: upt_Suc)
  have update2: "emits (?head @ '' ON CONFLICT'' @ conflictTarget d t @ '' DO UPDATE SET '' @ u)
      ([1..<Suc ?n] @ ns)" if "emits u ns" for t u ns
  proof -
    have "emits (conflictTarget d t @ '' DO UPDATE SET '' @ u) ns"
      using emits_two [OF _ _ _ _ that, of "conflictTarget d t" "'' DO UPDATE SET ''"]
        conflictTarget_emits [of t] by simp
    from update [OF _ _ _ this, of "'' ON CONFLICT''"] show ?thesis by simp
  qed
  have same: ?thesis if "fst st' = fst st" "emits s [1..<Suc ?n]"
    using that st by simp
  show ?thesis
  proof (cases conflict)
    case None
    with b head same show ?thesis by (simp add: insertBody_def result_simps Let_def)
  next
    case (Some c)
    show ?thesis
    proof (cases "conflict_action c = ConflictIgnore")
      case True
      then have "st' = st" and s: "s = (''INSERT IGNORE INTO '' @ quoteTable d tbl @ '' ('' @
          join '', '' (map (quoteIdentifier d) keys) @ '') VALUES ('' @
          join '', '' (placeholders d ?n) @ '')'') \<or>
          s = ?head @ '' ON CONFLICT'' @ conflictTarget d (conflict_target c) @ '' DO NOTHING''"
        using Some b by (simp_all add: insertBody_def result_simps Let_def no_merge split: if_splits)
      have "emits s [1..<Suc ?n]"
        using s by (elim disjE) (simp_all only: ignore skip)
      with \<open>st' = st\<close>
      show ?thesis by (intro same) simp_all
    next
      case False
      obtain u where u: "upsertFieldsSql d tbl keys c st = Inr (u, st')"
        and s: "s = ?head @ '' ON DUPLICATE KEY UPDATE '' @ u \<or>
          s = ?head @ '' ON CONFLICT'' @ conflictTarget d (conflict_target c) @ '' DO UPDATE SET '' @ u"
        using Some False b
        by (auto simp: insertBody_def result_simps Let_def no_merge split: if_splits)
      obtain ns where ns: "advances st st' ns" "emits u ns"
        using upsertFieldsSql_numbered u unfolding numbered_text_def by meson
      have "[1..<Suc ?n] @ ns = [1..<Suc (length (fst st'))]"
        using ns(1) st by (auto simp: advances_def upt_append_upt simp del: upt_Suc)
      then show ?thesis
        using s update [OF _ _ _ ns(2), of "'' ON DUPLICATE KEY UPDATE ''"] update2 [OF ns(2)] ns(1)
        by (auto simp: advances_def simp del: upt_Suc append_Cons)
    qed
  qed
qed

lemma compile_insert_numbered:
  assumes "compile_insert d strategy b = Inr c"
  shows "emits (cq_text c) [1..<Suc (length (parameters c))]"
proof -
  obtain row ret body params p where
    ret: "returningSql d strategy (if ib_conflict b = None then StInsert else StUpsert) RowNew
      (ib_returning b) = Inr ret" and
    body: "insertBody d strategy (qb_table (ib_binding b)) (map fst row) (ib_conflict b) ret
      (map (raw_value \<circ> snd) row, False) = Inr (body, params, p)" and
    c: "cq_text c = body @ suffix_sql ret" "parameters c = params"
    using assms
    by (auto simp: compile_insert_def result_simps frozenQuery_def split: option.splits)
  note ret = returningSql_suffix [OF ret]
  from insertBody_numbered [OF _ _ body] ret have "emits body [1..<Suc (length params)]" by simp
  then show ?thesis
    using emits_append [of body _ "suffix_sql ret" "[]"] ret by (simp add: c)
qed

lemma where_then:
  assumes "list_all good_pred ps" and "whereClause d None ps st = Inr (w, st')"
    and "emits t []" and "\<not> starts_digit t"
  obtains ns where "advances st st' ns" "emits (w @ t) ns" "\<not> starts_digit (w @ t)"
  using clause_then [OF whereClause_clause [OF assms(1)] assms(2,3,4)] by auto

lemma compile_update_numbered:
  assumes "compile_update d strategy b = Inr c" and "list_all good_pred (ub_wheres b)"
  shows "emits (cq_text c) [1..<Suc (length (parameters c))]"
proof -
  obtain row sets st1 ret w params p where
    sets: "set_list d (qb_table (ub_binding b)) ScopeUpdate row ([], False) = Inr (sets, st1)" and
    ret: "returningSql d strategy StUpdate RowNew (ub_returning b) = Inr ret" and
    w: "whereClause d None (ub_wheres b) st1 = Inr (w, (params, p))" and
    c: "parameters c = params" "cq_text c = ''UPDATE '' @ quoteTable d (qb_table (ub_binding b)) @
       '' SET '' @ join '', '' sets @ inline ret @ w @ suffix_sql ret"
    using assms(1)
    by (auto simp: compile_update_def updateBody_def result_simps frozenQuery_def split: option.splits)
  note ret = returningSql_suffix [OF ret]
  obtain n2 where n2: "advances st1 (params, p) n2" "emits (w @ suffix_sql ret) n2"
      "\<not> starts_digit (w @ suffix_sql ret)"
    by (rule where_then [OF assms(2) w]) (use ret in auto)
  obtain nss where n1: "advances ([], False) st1 (concat nss)" "list_all2 emits sets nss"
    using set_list_numbered sets unfolding numbered_parts_def by meson
  have "emits (join '', '' sets @ w @ suffix_sql ret) (concat nss @ n2)"
    by (rule emits_append [OF emits_comma_join [OF n1(2)] n2(2,3)])
  then have "emits (''UPDATE '' @ quoteTable d (qb_table (ub_binding b)) @ '' SET '' @
      join '', '' sets @ w @ suffix_sql ret) (concat nss @ n2)"
    by (intro emits_plain_prefix [OF _ emits_two [OF emits_pieces(3)]]) simp_all
  with advances_trans [OF n1(1) n2(1)] ret show ?thesis
    by (simp add: advances_def c)
qed

lemma compile_delete_numbered:
  assumes "compile_delete d strategy b = Inr c" and "list_all good_pred (db_wheres b)"
  shows "emits (cq_text c) [1..<Suc (length (parameters c))]"
proof -
  obtain ret w params p where
    ret: "returningSql d strategy StDelete RowOld (db_returning b) = Inr ret" and
    w: "whereClause d None (db_wheres b) ([], False) = Inr (w, (params, p))" and
    c: "parameters c = params" "cq_text c = ''DELETE FROM '' @ quoteTable d (qb_table (db_binding b)) @
       inline ret @ w @ suffix_sql ret"
    using assms(1)
    by (auto simp: compile_delete_def deleteBody_def result_simps frozenQuery_def)
  note ret = returningSql_suffix [OF ret]
  obtain ns where ns: "advances ([], False) (params, p) ns" "emits (w @ suffix_sql ret) ns"
      "\<not> starts_digit (w @ suffix_sql ret)"
    by (rule where_then [OF assms(2) w]) (use ret in auto)
  have "emits (''DELETE FROM '' @ quoteTable d (qb_table (db_binding b)) @ w @ suffix_sql ret) ([] @ ns)"
    by (rule emits_plain_prefix [OF _ emits_append [OF emits_pieces(3) ns(2,3)]]) simp
  with ns(1) ret show ?thesis by (simp add: advances_def c)
qed

lemma routineCall_numbered:
  assumes "routineCall d name args kind = Inr c"
  shows "emits (cq_text c) [1..<Suc (length (parameters c))]"
proof -
  let ?ps = "join '', '' (placeholders d (length args))" and ?ns = "[1..<Suc (length args)]"
  have call: "emits (p @ quoteIdentifier d name @ ''('' @ ?ps @ '')'') ?ns" if "plain_text p" for p
    by (rule emits_wrapped [OF that emits_pieces(2) _ _ _ emits_placeholders]) simp_all
  have "emits (''SELECT '' @ quoteIdentifier d name @ ''('' @ ?ps @ '') AS '' @
      quoteIdentifier d ''result'') ?ns"
    using emits_as [OF call [of "''SELECT ''"]] by simp
  then show ?thesis
    using assms call [of "''CALL ''"] call [of "''SELECT * FROM ''"]
    by (cases kind) (auto simp: routineCall_def Let_def frozenQuery_def split: if_splits
        simp del: upt_Suc)
qed

end

interpretation pgw: numbered_writes postgres
  by unfold_locales (simp_all add: dialect_defs)

subsection \<open>MERGE\<close>

lemma mssqlUpsert_target:
  assumes "mssqlUpsert ctx st = Inr r"
  shows "or_empty (conflict_target (uc_conflict ctx)) \<noteq> [] \<and>
    set (or_empty (conflict_target (uc_conflict ctx))) \<subseteq> set (uc_columns ctx)"
  using assms
  by (cases r) (auto simp: mssqlUpsert_def Let_def result_simps find_None_iff split: if_splits option.splits)

end
