(* ===== verification/SqlProperties.thy ===== *)
theory SqlProperties
  imports WriteNumbering
begin

section \<open>Properties of the query compiler\<close>

text \<open>
  The statements about the SQL packages that the component theories prove piece by piece, written
  out over the model of the code: each is followed by a concrete instance. The sample schema, queries
  and builders below serve these instances only.
\<close>

definition sample_schema :: core_schema where
  "sample_schema = \<lparr>ir_table = ''users'', physicalTable = ''app_users'',
     ir_columns = [\<lparr>ir_name = ''id'', physicalName = ''id''\<rparr>,
                   \<lparr>ir_name = ''name'', physicalName = ''full_name''\<rparr>],
     cs_ftsTable = FtsUndefined\<rparr>"

definition sample_binding :: query_binding where
  "sample_binding = \<lparr>qb_table = ''app_users'', qb_name = ''users'', qb_reference = ''app_users'',
     qb_alias = None, qb_names = Some (schema_names_of sample_schema), qb_ftsTable = FtsUndefined\<rparr>"

definition sample_select :: "dialect \<Rightarrow> select_query" where
  "sample_select d = \<lparr>sq_dialect = d, sq_state = (empty_select sample_binding)\<lparr>
     wheres := Some [Comparison ''id'' ''='' (Val (JStr ''7'')) (Some And),
                     Comparison ''full_name'' ''in'' (Val (JArr [JStr ''a'', JStr ''b''])) (Some Or)],
     limitN := Some 5\<rparr>, sq_telemetry = False\<rparr>"

definition sample_raw :: select_query where
  "sample_raw = \<lparr>sq_dialect = postgres, sq_state = (empty_select sample_binding)\<lparr>
     computeds := Some [RawExpr ''now()'' ''t'']\<rparr>, sq_telemetry = False\<rparr>"

definition sample_insert :: insert_builder where
  "sample_insert = \<lparr>ib_binding = sample_binding,
     ib_row = Some [(''id'', Literal (JStr ''7'')), (''full_name'', Literal (JStr ''a''))],
     ib_returning = None,
     ib_conflict = Some \<lparr>conflict_action = ConflictUpdate, conflict_target = Some [''id''],
       conflict_fields = AllFields\<rparr>,
     ib_telemetry = False\<rparr>"

definition sample_update :: update_builder where
  "sample_update = \<lparr>ub_binding = sample_binding,
     ub_row = Some [(''full_name'', ColExpr (ExConcat ''x''))],
     ub_wheres = [Comparison ''id'' ''='' (Val (JStr ''7'')) (Some And)],
     ub_returning = Some [PlainColumn ''id''], ub_telemetry = False\<rparr>"

definition sample_delete :: delete_builder where
  "sample_delete = \<lparr>db_binding = sample_binding,
     db_wheres = [Comparison ''id'' ''='' (Val (JStr ''7'')) (Some And)],
     db_returning = None, db_telemetry = False\<rparr>"

lemmas sample_defs = sample_schema_def sample_binding_def sample_select_def sample_raw_def
  sample_insert_def sample_update_def sample_delete_def

text \<open>A result is a success, as an executable test.\<close>

definition succeeds :: "js_error + 'a \<Rightarrow> bool" where
  "succeeds r = (case r of Inl _ \<Rightarrow> False | Inr _ \<Rightarrow> True)"

lemma succeeds_Inr: "succeeds r \<Longrightarrow> \<exists>x. r = Inr x"
  by (auto simp: succeeds_def split: sum.splits)

subsection \<open>Parameter numbering on PostgreSQL\<close>




text \<open>
  the same for every INSERT that compiles on PostgreSQL, with or without ON CONFLICT and
  RETURNING: the markers are 1, ..., n for the n parameters of the compiled query.
\<close>
theorem insert_parameters_numbered:
  assumes "compile_insert postgres strategy b = Inr c"
  shows "scan_params (cq_text c) = [1..<Suc (length (parameters c))]"
  by (rule emits_scan [OF pgw.compile_insert_numbered [OF assms]])

theorem insert_parameters_numbered_witness:
  "\<exists>c. compile_insert postgres None sample_insert = Inr c \<and>
     scan_params (cq_text c) = [1..<Suc (length (parameters c))]"
proof -
  have "succeeds (compile_insert postgres None sample_insert)" by code_simp
  then show ?thesis using insert_parameters_numbered by (blast dest: succeeds_Inr)
qed

text \<open>
  every UPDATE that compiles on PostgreSQL numbers the values of its SET list, column
  expressions included, and of its WHERE clause 1, ..., n in the order of its parameters.
\<close>
theorem update_parameters_numbered:
  assumes "compile_update postgres strategy b = Inr c" and "list_all good_pred (ub_wheres b)"
  shows "scan_params (cq_text c) = [1..<Suc (length (parameters c))]"
  by (rule emits_scan [OF pgw.compile_update_numbered [OF assms]])

theorem update_parameters_numbered_witness:
  "\<exists>c. compile_update postgres None sample_update = Inr c \<and>
     scan_params (cq_text c) = [1..<Suc (length (parameters c))]"
proof -
  have "succeeds (compile_update postgres None sample_update)" by code_simp
  moreover have "list_all good_pred (ub_wheres sample_update)" by code_simp
  ultimately show ?thesis using update_parameters_numbered by (blast dest: succeeds_Inr)
qed

text \<open>
  every DELETE that compiles on PostgreSQL numbers the values of its WHERE clause 1, ..., n in
  the order of its parameters.
\<close>
theorem delete_parameters_numbered:
  assumes "compile_delete postgres strategy b = Inr c" and "list_all good_pred (db_wheres b)"
  shows "scan_params (cq_text c) = [1..<Suc (length (parameters c))]"
  by (rule emits_scan [OF pgw.compile_delete_numbered [OF assms]])

theorem delete_parameters_numbered_witness:
  "\<exists>c. compile_delete postgres None sample_delete = Inr c \<and>
     scan_params (cq_text c) = [1..<Suc (length (parameters c))]"
proof -
  have "succeeds (compile_delete postgres None sample_delete)" by code_simp
  moreover have "list_all good_pred (db_wheres sample_delete)" by code_simp
  ultimately show ?thesis using delete_parameters_numbered by (blast dest: succeeds_Inr)
qed

subsection \<open>Names and references\<close>

text \<open>
  C19: on each of the four base dialects, a quoted column reference reads back, under the database's
  rules for quoted names, as exactly the dot-separated segments of the source string, for every
  string: no quote character in a column name escapes its quotes.
\<close>
theorem quoted_column_reads_back:
  assumes "(d, oq, cq) \<in> set [(postgres, CHR 0x22, CHR 0x22), (sqlite, CHR 0x22, CHR 0x22),
      (mysql, CHR ''`'', CHR ''`''), (mssql, CHR ''['', CHR '']'')]"
    and "rest = [] \<or> hd rest \<noteq> cq \<and> hd rest \<noteq> CHR ''.''"
  shows "read_reference (length (split_on (CHR ''.'') col)) oq cq (quoteColumn d col @ rest) =
           Some (map segment_token (split_on (CHR ''.'') col), rest)"
  by (rule quoteColumn_reads_back) (use assms shipped_quotes in auto)

theorem quoted_column_reads_back_witness:
  "read_reference (length (split_on (CHR ''.'') ''u.na`me'')) CHR ''`'' CHR ''`''
     (quoteColumn mysql ''u.na`me'' @ '' = ?'') = Some ([Name ''u'', Name ''na`me''], '' = ?'')"
proof -
  have "map segment_token (split_on (CHR ''.'') ''u.na`me'') = [Name ''u'', Name ''na`me'']"
    by code_simp
  then show ?thesis
    using quoted_column_reads_back [of mysql "CHR ''`''" "CHR ''`''" "'' = ?''" "''u.na`me''"] by simp
qed

text \<open>
  renumbering a compiled subquery shifts the numbers of its markers by the offset and leaves
  everything else, for every text in whose quoted names no marker is written.
\<close>
theorem renumbering_shifts_markers:
  assumes "placeholder (traits d) = Numbered" and "clean_quotes False t"
  shows "scan_params (renumberPlaceholders t off d) = map ((+) off) (scan_params t)"
  by (rule renumberPlaceholders_shift [OF assms])

theorem renumbering_shifts_markers_witness:
  "scan_params (renumberPlaceholders ''SELECT a FROM t WHERE b = $1 AND c = $12'' 9 postgres) = [10, 21]"
proof -
  have "clean_quotes False ''SELECT a FROM t WHERE b = $1 AND c = $12''" by code_simp
  moreover have "placeholder (traits postgres) = Numbered" by code_simp
  moreover have "scan_params ''SELECT a FROM t WHERE b = $1 AND c = $12'' = [1, 12]" by code_simp
  ultimately show ?thesis by (simp add: renumbering_shifts_markers)
qed



text \<open>
  a SELECT with a raw SQL expression among its computed columns compiles to a query whose
  effects require the primary database.
\<close>
theorem raw_expression_requires_primary:
  assumes "RawExpr raw a \<in> set (or_empty (computeds (sq_state q)))" and "compile_select q = Inr c"
  shows "effects c = PRIMARY_READ_EFFECTS"
  by (rule compile_raw_primary [OF assms])

theorem raw_expression_requires_primary_witness:
  "\<exists>c. compile_select sample_raw = Inr c \<and> effects c = PRIMARY_READ_EFFECTS"
proof -
  have "succeeds (compile_select sample_raw)" by code_simp
  then obtain c where "compile_select sample_raw = Inr c" by (blast dest: succeeds_Inr)
  moreover have "RawExpr ''now()'' ''t'' \<in> set (or_empty (computeds (sq_state sample_raw)))"
    by (simp add: sample_defs)
  ultimately show ?thesis using raw_expression_requires_primary by blast
qed

text \<open>
  Mapping a row of a declared schema to physical columns keeps the value of every property, when
  no two properties of the row share a physical column.
\<close>
theorem mapped_row_keeps_values:
  assumes "mapRow b row = Inr out" and "distinct (map fst row)" and "qb_names b \<noteq> None"
    and "\<And>k l m. k \<in> fst ` set row \<Longrightarrow> l \<in> fst ` set row \<Longrightarrow>
      mapColumn b k [] = Inr m \<Longrightarrow> mapColumn b l [] = Inr m \<Longrightarrow> k = l"
    and "map_of row k = Some v" and "mapColumn b k [] = Inr m"
  shows "map_of out m = Some v"
  by (rule mapRow_keeps_values [OF assms(1,2) assms(4) assms(3,5,6)])

theorem mapped_row_keeps_values_witness:
  "\<exists>out. mapRow sample_binding [(''id'', 7 :: nat), (''name'', 8)] = Inr out \<and>
     map_of out ''full_name'' = Some 8"
proof -
  have id: "mapColumn sample_binding ''id'' [] = Inr ''id''"
    and name: "mapColumn sample_binding ''name'' [] = Inr ''full_name''" by code_simp+
  have "succeeds (mapRow sample_binding [(''id'', 7 :: nat), (''name'', 8)])" by code_simp
  then obtain out where out: "mapRow sample_binding [(''id'', 7 :: nat), (''name'', 8)] = Inr out"
    by (blast dest: succeeds_Inr)
  have "map_of out ''full_name'' = Some 8"
    by (rule mapped_row_keeps_values [OF out _ _ _ _ name])
      (use id name in \<open>auto simp: sample_binding_def\<close>)
  with out show ?thesis by blast
qed

subsection \<open>Dialects and operators\<close>

text \<open>
  the operator text that reaches the statement is a keyword of the operator table, one of the
  two JSON path operators, or one token of at most four operator characters that holds no quote,
  space, parenthesis, dollar sign, semicolon, digit or slash and no comment opener.
\<close>
theorem operator_text_is_one_token:
  assumes "d \<in> set [postgres, sqlite, mysql, mssql]" and "sqlOperator op d = Inr s"
  shows "s \<in> set (map snd OP_MAP) \<or> s = ''#>'' \<or> s = ''#>>'' \<or>
    length s \<le> 4 \<and> index_from ''--'' s 0 = None \<and>
      (\<forall>c \<in> set s. c \<notin> set '' ;()[]/$`'' \<and> c \<noteq> CHR 0x22 \<and> c \<noteq> CHR 0x27 \<and> \<not> is_digit c)"
proof -
  consider (mapped) k where "map_of OP_MAP k = Some s" | (tok) "acceptsOperator (traits d) s"
    using assms(2) by (auto simp: sqlOperator_def Let_def split: if_splits option.splits)
  then show ?thesis
  proof cases
    case mapped
    then show ?thesis by (auto dest!: map_of_SomeD intro: rev_image_eqI)
  next
    case tok
    then have "operatorToken s \<or> s = ''#>'' \<or> s = ''#>>''"
      using assms(1) by (auto simp: dialect_defs postgresAcceptsOperator_def sqliteAcceptsOperator_def
          mysqlAcceptsOperator_def mssqlAcceptsOperator_def)
    then show ?thesis
      using operator_token_chars [of s] by (auto simp: operatorToken_def)
  qed
qed

theorem operator_text_is_one_token_witness:
  "length ''@>'' \<le> 4 \<and> index_from ''--'' ''@>'' 0 = None"
proof -
  have "sqlOperator ''@>'' postgres = Inr ''@>''" by code_simp
  moreover have "''@>'' \<notin> set (map snd OP_MAP)" by code_simp
  ultimately show ?thesis using operator_text_is_one_token [of postgres "''@>''" "''@>''"] by simp
qed

text \<open>
  \<open>defineSqlDialect\<close> accepts a definition exactly when it is well formed: non-empty names, a
  positive safe parameter limit, RETURNING capabilities that agree with the traits statement by
  statement, companions of the same name, and a compiler strategy where one is needed.
\<close>
theorem define_accepts_well_formed:
  "(\<exists>d'. defineSqlDialect d hasCompiler = Inr d') \<longleftrightarrow> wf_dialect d hasCompiler"
  by (simp add: defineSqlDialect_Inr)

text \<open>
  an extension of a dialect that is accepted is well formed, keeps the parent's family, and
  takes every trait it does not override from the parent.
\<close>
theorem extension_inherits:
  assumes "extendSqlDialect parent e hasCompiler = Inr d"
  shows "wf_dialect d hasCompiler \<and> d_family d = d_family parent \<and>
    (e_placeholder e = None \<longrightarrow> placeholder (traits d) = placeholder (traits parent)) \<and>
    (e_quote e = None \<longrightarrow> quote (traits d) = quote (traits parent)) \<and>
    (\<forall>st. e_returningTrait e st = None \<longrightarrow> returningTrait (traits d) st = returningTrait (traits parent) st) \<and>
    (\<forall>t. e_types e t = None \<longrightarrow> types (traits d) t = types (traits parent) t)"
  using assms by (auto simp: extendSqlDialect_def defineSqlDialect_Inr extendTraits_def override_fun_def)

theorem extension_inherits_witness:
  "\<exists>d. extendSqlDialect postgres cockroachExtension False = Inr d \<and> d_family d = ''postgres'' \<and>
     quote (traits d) = ([dq], [dq])"
proof -
  obtain d where "extendSqlDialect postgres cockroachExtension False = Inr d"
    using extend_shipped_dialects(1) by blast
  with extension_inherits [OF this] show ?thesis by (auto simp: dialect_defs extension_defs)
qed

subsection \<open>Collections, routines and MERGE\<close>

text \<open>
  \<open>chunkArray\<close> with a positive size splits a list into non-empty chunks of at most that size,
  as few as possible, whose concatenation is the list.
\<close>
theorem chunks_partition:
  assumes "chunkArray xs n = Inr cs"
  shows "concat cs = xs \<and> (\<forall>c \<in> set cs. c \<noteq> [] \<and> int (length c) \<le> n) \<and>
    length cs = (length xs + nat n - 1) div nat n"
proof -
  have n: "0 < nat n" and cs: "cs = chunks_from (nat n) xs"
    using assms by (simp_all add: chunkArray_def split: if_splits)
  have "c \<noteq> [] \<and> int (length c) \<le> n" if "c \<in> set cs" for c
    using chunk_sizes [OF n that [unfolded cs]] n by linarith
  then show ?thesis
    using concat_chunks [OF n, of xs] chunk_count [OF n, of xs] by (simp add: cs)
qed

theorem chunks_partition_witness:
  "chunkArray [1 :: nat, 2, 3, 4, 5] 2 = Inr [[1, 2], [3, 4], [5]] \<and> concat [[1 :: nat, 2], [3, 4], [5]] = [1, 2, 3, 4, 5]"
proof -
  have "chunkArray [1 :: nat, 2, 3, 4, 5] 2 = Inr [[1, 2], [3, 4], [5]]" by code_simp
  with chunks_partition [OF this] show ?thesis by blast
qed

text \<open>
  an INSERT with a conflict clause compiles on SQL Server only if its conflict target is not
  empty and every target column is among the inserted ones; the text of a query that compiles is one
  MERGE statement.
\<close>
theorem merge_target_inserted:
  assumes "compile_insert mssql (Some mssqlCompiler) b = Inr c" and "ib_conflict b = Some cf"
  shows "\<exists>row. ib_row b = Some row \<and> or_empty (conflict_target cf) \<noteq> [] \<and>
    set (or_empty (conflict_target cf)) \<subseteq> set (map fst row) \<and> prefix ''MERGE '' (cq_text c)"
proof -
  have style: "upsertStyle (traits mssql) = Merge" by (simp add: dialect_defs)
  obtain row ret body params p where row: "ib_row b = Some row"
    and body: "insertBody mssql (Some mssqlCompiler) (qb_table (ib_binding b)) (map fst row)
      (ib_conflict b) ret (map (raw_value \<circ> snd) row, False) = Inr (body, params, p)"
    and c: "cq_text c = body @ suffix_sql ret"
    using assms(1)
    by (auto simp: compile_insert_def result_simps frozenQuery_def split: option.splits)
  obtain ctx where ctx: "uc_columns ctx = map fst row" "uc_conflict ctx = cf"
    and r: "mssqlUpsert ctx (map (raw_value \<circ> snd) row, False) = Inr (body, params, p)"
    using body
    by (simp add: insertBody_def assms(2) Let_def style mssqlCompiler_def, elim that [rotated 2])
      simp_all
  have "prefix ''MERGE '' body"
    using r by (auto simp: mssqlUpsert_def Let_def result_simps split: if_splits option.splits)
  then have "prefix ''MERGE '' (cq_text c)" unfolding c by (rule prefix_prefix)
  then show ?thesis using row mssqlUpsert_target [OF r] unfolding ctx by blast
qed

theorem merge_target_inserted_witness:
  "\<exists>c. compile_insert mssql (Some mssqlCompiler) sample_insert = Inr c \<and> prefix ''MERGE '' (cq_text c)"
proof -
  have "succeeds (compile_insert mssql (Some mssqlCompiler) sample_insert)" by code_simp
  then obtain c where c: "compile_insert mssql (Some mssqlCompiler) sample_insert = Inr c"
    by (blast dest: succeeds_Inr)
  from merge_target_inserted [OF this] have "prefix ''MERGE '' (cq_text c)"
    by (auto simp: sample_insert_def)
  with c show ?thesis by blast
qed

end
