(* ===== verification/Wire.thy ===== *)
theory Wire
  imports Prelude
begin

section \<open>Protobuf wire primitives\<close>

unbundle bit_operations_syntax

text \<open>
  \<open>packages/protobuf/src/wire.ts\<close>: the growable output buffer \<open>ProtoWriter\<close> and the bounded input
  cursor \<open>ProtoReader\<close>. A byte is an \<open>8 word\<close>; a BigInt is an \<open>int\<close>, whose bit operations are the
  infinite two's complement ones of BigInt, so \<open>BigInt.asUintN(n, v)\<close> is \<open>take_bit n v\<close> and
  \<open>BigInt.asIntN(n, v)\<close> is \<open>signed_take_bit (n - 1) v\<close>. The number arguments of the integer
  operations are the integers the generated codecs pass.

  A string is the list of its Unicode scalar values; \<open>utf8_encode\<close> and \<open>utf8_decode\<close> are
  \<open>TextEncoder\<close> and the fatal \<open>TextDecoder\<close>, which drops a leading byte order mark. The IEEE
  encodings of \<open>float\<close> and \<open>double\<close> are functions the operations take as arguments.
\<close>

type_synonym byte = "8 word"

definition asUintN :: "nat \<Rightarrow> int \<Rightarrow> int" where
  "asUintN n v = take_bit n v"

definition asIntN :: "nat \<Rightarrow> int \<Rightarrow> int" where
  "asIntN n v = signed_take_bit (n - 1) v"

subsection \<open>UTF-8\<close>

definition scalar :: "nat \<Rightarrow> bool" where
  "scalar c \<longleftrightarrow> c < 0xD800 \<or> 0xE000 \<le> c \<and> c < 0x110000"

definition cont_byte :: "nat \<Rightarrow> byte" where
  "cont_byte n = of_nat (0x80 + n mod 64)"

definition utf8_char :: "nat \<Rightarrow> byte list" where
  "utf8_char c =
     (if c < 0x80 then [of_nat c]
      else if c < 0x800 then [of_nat (0xC0 + c div 64), cont_byte c]
      else if c < 0x10000 then [of_nat (0xE0 + c div 4096), cont_byte (c div 64), cont_byte c]
      else [of_nat (0xF0 + c div 262144), cont_byte (c div 4096), cont_byte (c div 64), cont_byte c])"

definition utf8_encode :: "nat list \<Rightarrow> byte list" where
  "utf8_encode s = concat (map utf8_char s)"

definition is_cont :: "byte \<Rightarrow> bool" where
  "is_cont b \<longleftrightarrow> 0x80 \<le> unat b \<and> unat b < 0xC0"

definition cont_val :: "byte \<Rightarrow> nat" where
  "cont_val b = unat b - 0x80"

fun utf8_scalars :: "byte list \<Rightarrow> nat list option" where
  "utf8_scalars [] = Some []"
| "utf8_scalars (a # as) =
     (let x = unat a in
      if x < 0x80 then map_option (Cons x) (utf8_scalars as)
      else if 0xC2 \<le> x \<and> x < 0xE0
      then (case as of
          b # bs \<Rightarrow> if is_cont b
            then map_option (Cons ((x - 0xC0) * 64 + cont_val b)) (utf8_scalars bs) else None
        | [] \<Rightarrow> None)
      else if 0xE0 \<le> x \<and> x < 0xF0
      then (case as of
          b # c # cs \<Rightarrow>
            (let v = (x - 0xE0) * 4096 + cont_val b * 64 + cont_val c
             in if is_cont b \<and> is_cont c \<and> 0x800 \<le> v \<and> scalar v
                then map_option (Cons v) (utf8_scalars cs) else None)
        | _ \<Rightarrow> None)
      else if 0xF0 \<le> x \<and> x < 0xF5
      then (case as of
          b # c # e # es \<Rightarrow>
            (let v = (x - 0xF0) * 262144 + cont_val b * 4096 + cont_val c * 64 + cont_val e
             in if is_cont b \<and> is_cont c \<and> is_cont e \<and> 0x10000 \<le> v \<and> scalar v
                then map_option (Cons v) (utf8_scalars es) else None)
        | _ \<Rightarrow> None)
      else None)"

definition byte_order_mark :: nat where
  "byte_order_mark = 0xFEFF"

definition utf8_decode :: "byte list \<Rightarrow> nat list option" where
  "utf8_decode bs = map_option
     (\<lambda>s. case s of c # cs \<Rightarrow> if c = byte_order_mark then cs else s | [] \<Rightarrow> []) (utf8_scalars bs)"

subsection \<open>The writer\<close>

text \<open>
  \<open>#buffer\<close> and \<open>#length\<close>; the view is over the buffer itself. \<open>overwrite\<close> is \<open>set\<close> at an offset.
\<close>

record proto_writer =
  w_buffer :: "byte list"
  w_length :: nat

definition INITIAL_CAPACITY :: nat where
  "INITIAL_CAPACITY = 64"

definition new_writer :: proto_writer where
  "new_writer = \<lparr>w_buffer = replicate INITIAL_CAPACITY 0, w_length = 0\<rparr>"

definition overwrite :: "byte list \<Rightarrow> nat \<Rightarrow> byte list \<Rightarrow> byte list" where
  "overwrite buf off bs = take off buf @ bs @ drop (off + length bs) buf"

text \<open>\<open>while (capacity < needed) capacity *= 2\<close>, from a positive capacity.\<close>

function grow_capacity :: "nat \<Rightarrow> nat \<Rightarrow> nat" where
  "grow_capacity needed capacity =
     (if capacity < needed \<and> 0 < capacity then grow_capacity needed (capacity * 2) else capacity)"
  by pat_completeness auto
termination
  by (relation "measure (\<lambda>(needed, capacity). needed - capacity)") auto

declare grow_capacity.simps [simp del]

definition reserve :: "nat \<Rightarrow> proto_writer \<Rightarrow> proto_writer" where
  "reserve extra w =
     (let needed = w_length w + extra in
      if needed \<le> length (w_buffer w) then w
      else let capacity = grow_capacity needed (length (w_buffer w))
           in w\<lparr>w_buffer := overwrite (replicate capacity 0) 0 (w_buffer w)\<rparr>)"

text \<open>Reserve, write at \<open>#length\<close>, advance: the shape of every primitive write.\<close>

definition write_bytes :: "byte list \<Rightarrow> proto_writer \<Rightarrow> proto_writer" where
  "write_bytes bs w =
     (let v = reserve (length bs) w
      in v\<lparr>w_buffer := overwrite (w_buffer v) (w_length v) bs, w_length := w_length v + length bs\<rparr>)"

definition write_byte :: "int \<Rightarrow> proto_writer \<Rightarrow> proto_writer" where
  "write_byte b w = write_bytes [word_of_int b] w"

function write_varint :: "int \<Rightarrow> proto_writer \<Rightarrow> proto_writer" where
  "write_varint remaining w =
     (if 0x80 \<le> remaining
      then write_varint (drop_bit 7 remaining) (write_byte ((remaining AND 0x7F) OR 0x80) w)
      else write_byte remaining w)"
  by pat_completeness auto
termination
  by (relation "measure (\<lambda>(r, w). nat r)") (auto simp: drop_bit_eq_div)

declare write_varint.simps [simp del]

definition w_uint32 :: "int \<Rightarrow> proto_writer \<Rightarrow> proto_writer" where
  "w_uint32 v = write_varint (asUintN 32 v)"

definition w_tag :: "int \<Rightarrow> int \<Rightarrow> proto_writer \<Rightarrow> proto_writer" where
  "w_tag fieldNumber wireType = w_uint32 (fieldNumber * 8 + wireType)"

definition w_int32 :: "int \<Rightarrow> proto_writer \<Rightarrow> proto_writer" where
  "w_int32 v = write_varint (asUintN 64 v)"

definition w_sint32 :: "int \<Rightarrow> proto_writer \<Rightarrow> proto_writer" where
  "w_sint32 v = (let signed = asIntN 32 v
     in write_varint (asUintN 32 (push_bit 1 signed XOR drop_bit 31 signed)))"

definition w_uint64 :: "int \<Rightarrow> proto_writer \<Rightarrow> proto_writer" where
  "w_uint64 v = write_varint (asUintN 64 v)"

definition w_int64 :: "int \<Rightarrow> proto_writer \<Rightarrow> proto_writer" where
  "w_int64 v = write_varint (asUintN 64 v)"

definition w_sint64 :: "int \<Rightarrow> proto_writer \<Rightarrow> proto_writer" where
  "w_sint64 v = (let signed = asIntN 64 v
     in write_varint (asUintN 64 (push_bit 1 signed XOR drop_bit 63 signed)))"

text \<open>The little-endian bytes a \<open>DataView\<close> stores.\<close>

definition little_endian :: "nat \<Rightarrow> int \<Rightarrow> byte list" where
  "little_endian n v = map (\<lambda>i. word_of_int (drop_bit (8 * i) v)) [0..<n]"

definition w_fixed32 :: "int \<Rightarrow> proto_writer \<Rightarrow> proto_writer" where
  "w_fixed32 v = write_bytes (little_endian 4 v)"

definition w_sfixed32 :: "int \<Rightarrow> proto_writer \<Rightarrow> proto_writer" where
  "w_sfixed32 v = write_bytes (little_endian 4 v)"

definition w_fixed64 :: "int \<Rightarrow> proto_writer \<Rightarrow> proto_writer" where
  "w_fixed64 v = write_bytes (little_endian 8 (asUintN 64 v))"

definition w_sfixed64 :: "int \<Rightarrow> proto_writer \<Rightarrow> proto_writer" where
  "w_sfixed64 v = write_bytes (little_endian 8 (asIntN 64 v))"

definition w_float :: "('f \<Rightarrow> int) \<Rightarrow> 'f \<Rightarrow> proto_writer \<Rightarrow> proto_writer" where
  "w_float ieee32 v = write_bytes (little_endian 4 (ieee32 v))"

definition w_double :: "('f \<Rightarrow> int) \<Rightarrow> 'f \<Rightarrow> proto_writer \<Rightarrow> proto_writer" where
  "w_double ieee64 v = write_bytes (little_endian 8 (ieee64 v))"

definition w_bool :: "bool \<Rightarrow> proto_writer \<Rightarrow> proto_writer" where
  "w_bool b = w_uint32 (if b then 1 else 0)"

definition w_bytes :: "byte list \<Rightarrow> proto_writer \<Rightarrow> proto_writer" where
  "w_bytes bs w = write_bytes bs (w_uint32 (int (length bs)) w)"

definition w_string :: "nat list \<Rightarrow> proto_writer \<Rightarrow> proto_writer" where
  "w_string s = w_bytes (utf8_encode s)"

definition finish :: "proto_writer \<Rightarrow> byte list" where
  "finish w = take (w_length w) (w_buffer w)"

subsection \<open>The reader\<close>

record proto_reader =
  r_bytes :: "byte list"
  r_offset :: nat

type_synonym 'a reading = "js_error + ('a \<times> proto_reader)"

definition new_reader :: "byte list \<Rightarrow> proto_reader" where
  "new_reader bs = \<lparr>r_bytes = bs, r_offset = 0\<rparr>"

definition reader_done :: "proto_reader \<Rightarrow> bool" where
  "reader_done r \<longleftrightarrow> r_offset r = length (r_bytes r)"

definition MAX_FIELD_NUMBER :: int where
  "MAX_FIELD_NUMBER = 536870911"

definition truncated_varint :: "nat \<Rightarrow> nat \<Rightarrow> js_error" where
  "truncated_varint start off = RangeError (''truncated protobuf varint at offset '' @ show_nat start @
     ''; input ended at offset '' @ show_nat off)"

text \<open>The loop of \<open>#varint\<close>: \<open>left\<close> iterations remain, so the index is \<open>10 - left\<close>.\<close>

primrec varint_loop :: "nat \<Rightarrow> byte list \<Rightarrow> nat \<Rightarrow> nat \<Rightarrow> int \<Rightarrow> js_error + (int \<times> nat)" where
  "varint_loop 0 bs start off value =
     Inl (RangeError (''protobuf varint at offset '' @ show_nat start @ '' exceeds 10 bytes''))"
| "varint_loop (Suc left) bs start off value =
     (let index = 9 - left in
      if length bs \<le> off then Inl (truncated_varint start off)
      else let b = bs ! off in
        if index = 9 \<and> b > 1
        then Inl (RangeError (''protobuf varint at offset '' @ show_nat start @ '' exceeds 64 bits''))
        else let v = value OR push_bit (index * 7) (uint (b AND 0x7F))
             in if b AND 0x80 = 0 then Inr (v, Suc off)
                else varint_loop left bs start (Suc off) v)"

definition read_varint :: "proto_reader \<Rightarrow> int reading" where
  "read_varint r = rbind (varint_loop 10 (r_bytes r) (r_offset r) (r_offset r) 0)
     (\<lambda>(v, off). Inr (v, r\<lparr>r_offset := off\<rparr>))"

definition map_reading :: "('a \<Rightarrow> 'b) \<Rightarrow> 'a reading \<Rightarrow> 'b reading" where
  "map_reading f m = rbind m (\<lambda>(v, r). Inr (f v, r))"

definition r_key :: "proto_reader \<Rightarrow> int reading" where
  "r_key r = rbind (read_varint r) (\<lambda>(value, r').
     let at = show_nat (r_offset r); fieldNumber = value div 8; wireType = value mod 8 in
     if value > 0xFFFFFFFF
     then Inl (RangeError (''protobuf field key at offset '' @ at @ '' exceeds 32 bits''))
     else if fieldNumber < 1 \<or> fieldNumber > MAX_FIELD_NUMBER
     then Inl (RangeError (''invalid protobuf field number '' @ show_int fieldNumber @ '' at offset '' @ at))
     else if wireType = 6 \<or> wireType = 7
     then Inl (RangeError (''invalid protobuf wire type '' @ show_int wireType @ '' at offset '' @ at))
     else Inr (value, r'))"

definition r_uint32 :: "proto_reader \<Rightarrow> int reading" where
  "r_uint32 r = map_reading (asUintN 32) (read_varint r)"

definition r_int32 :: "proto_reader \<Rightarrow> int reading" where
  "r_int32 r = map_reading (asIntN 32) (read_varint r)"

definition unzigzag :: "nat \<Rightarrow> int \<Rightarrow> int" where
  "unzigzag n raw = (let value = asUintN n raw
     in asIntN n (drop_bit 1 value XOR - (value AND 1)))"

definition r_sint32 :: "proto_reader \<Rightarrow> int reading" where
  "r_sint32 r = map_reading (unzigzag 32) (read_varint r)"

definition r_uint64 :: "proto_reader \<Rightarrow> int reading" where
  "r_uint64 r = map_reading (asUintN 64) (read_varint r)"

definition r_int64 :: "proto_reader \<Rightarrow> int reading" where
  "r_int64 r = map_reading (asIntN 64) (read_varint r)"

definition r_sint64 :: "proto_reader \<Rightarrow> int reading" where
  "r_sint64 r = map_reading (unzigzag 64) (read_varint r)"

definition require :: "proto_reader \<Rightarrow> nat \<Rightarrow> string \<Rightarrow> js_error + unit" where
  "require r len what =
     (let remaining = length (r_bytes r) - r_offset r in
      if len > remaining
      then Inl (RangeError (''truncated protobuf '' @ what @ '' at offset '' @ show_nat (r_offset r) @
        '': needs '' @ show_nat len @ '' byte(s), '' @ show_nat remaining @ '' remaining''))
      else Inr ())"

text \<open>The integer of a little-endian slice.\<close>

fun from_little_endian :: "byte list \<Rightarrow> int" where
  "from_little_endian [] = 0"
| "from_little_endian (b # bs) = uint b + 256 * from_little_endian bs"

definition read_fixed :: "nat \<Rightarrow> string \<Rightarrow> proto_reader \<Rightarrow> int reading" where
  "read_fixed n what r = rbind (require r n what) (\<lambda>_.
     Inr (from_little_endian (take n (drop (r_offset r) (r_bytes r))),
          r\<lparr>r_offset := r_offset r + n\<rparr>))"

definition r_fixed32 :: "proto_reader \<Rightarrow> int reading" where
  "r_fixed32 = read_fixed 4 ''fixed32''"

definition r_sfixed32 :: "proto_reader \<Rightarrow> int reading" where
  "r_sfixed32 r = map_reading (asIntN 32) (read_fixed 4 ''sfixed32'' r)"

definition r_fixed64 :: "proto_reader \<Rightarrow> int reading" where
  "r_fixed64 = read_fixed 8 ''fixed64''"

definition r_sfixed64 :: "proto_reader \<Rightarrow> int reading" where
  "r_sfixed64 r = map_reading (asIntN 64) (read_fixed 8 ''sfixed64'' r)"

definition r_float :: "(int \<Rightarrow> 'f) \<Rightarrow> proto_reader \<Rightarrow> 'f reading" where
  "r_float from_ieee32 r = map_reading from_ieee32 (read_fixed 4 ''float'' r)"

definition r_double :: "(int \<Rightarrow> 'f) \<Rightarrow> proto_reader \<Rightarrow> 'f reading" where
  "r_double from_ieee64 r = map_reading from_ieee64 (read_fixed 8 ''double'' r)"

definition r_bool :: "proto_reader \<Rightarrow> bool reading" where
  "r_bool r = map_reading (\<lambda>v. v \<noteq> 0) (read_varint r)"

definition lengthDelimited :: "proto_reader \<Rightarrow> byte list reading" where
  "lengthDelimited r = rbind (read_varint r) (\<lambda>(encoded, r').
     let remaining = int (length (r_bytes r')) - int (r_offset r') in
     if encoded > remaining
     then Inl (RangeError (''protobuf length '' @ show_int encoded @ '' at offset '' @
       show_nat (r_offset r) @ '' exceeds '' @ show_int remaining @ '' remaining byte(s) at offset '' @
       show_nat (r_offset r')))
     else Inr (take (nat encoded) (drop (r_offset r') (r_bytes r')),
               r'\<lparr>r_offset := r_offset r' + nat encoded\<rparr>))"

definition r_string :: "proto_reader \<Rightarrow> nat list reading" where
  "r_string r = rbind (lengthDelimited r) (\<lambda>(bs, r').
     case utf8_decode bs of
       Some s \<Rightarrow> Inr (s, r')
     | None \<Rightarrow> Inl (TypeError (''invalid protobuf UTF-8 string at offset '' @ show_nat (r_offset r))))"

definition r_message :: "proto_reader \<Rightarrow> proto_reader reading" where
  "r_message r = map_reading new_reader (lengthDelimited r)"

definition advance :: "proto_reader \<Rightarrow> nat \<Rightarrow> string \<Rightarrow> js_error + proto_reader" where
  "advance r len what = rbind (require r len what) (\<lambda>_. Inr (r\<lparr>r_offset := r_offset r + len\<rparr>))"

definition skip_field :: "proto_reader \<Rightarrow> int \<Rightarrow> js_error + proto_reader" where
  "skip_field r wireType =
     (if wireType = 0 then rbind (read_varint r) (\<lambda>(_, r'). Inr r')
      else if wireType = 1 then advance r 8 ''fixed64 unknown field''
      else if wireType = 2 then rbind (lengthDelimited r) (\<lambda>(_, r'). Inr r')
      else if wireType = 3 \<or> wireType = 4
      then Inl (RangeError (''deprecated protobuf group wire type '' @ show_int wireType @
        '' at offset '' @ show_nat (r_offset r) @ '' is not supported''))
      else if wireType = 5 then advance r 4 ''fixed32 unknown field''
      else Inl (RangeError (''invalid protobuf wire type '' @ show_int wireType @ '' at offset '' @
        show_nat (r_offset r))))"

end
