(* ===== verification/WireCodec.thy ===== *)
theory WireCodec
  imports Wire
begin

section \<open>The wire primitives are a codec\<close>

text \<open>
  The writer refines appending bytes to a list (\<open>write_bytes_appends\<close>), the reader never moves past
  its input, and every read operation undoes the write operation of the same name. The locale
  \<open>field_codec\<close> is the contract of one such pair; a sequence of values written by a codec is read
  back by it.
\<close>

subsection \<open>The writer appends\<close>

definition wf_writer :: "proto_writer \<Rightarrow> bool" where
  "wf_writer w \<longleftrightarrow> w_length w \<le> length (w_buffer w) \<and> 0 < length (w_buffer w)"

lemma wf_new_writer: "wf_writer new_writer" and finish_new_writer: "finish new_writer = []"
  by (simp_all add: wf_writer_def new_writer_def finish_def INITIAL_CAPACITY_def)

lemma grow_capacity_enough: "0 < c \<Longrightarrow> n \<le> grow_capacity n c \<and> c \<le> grow_capacity n c"
proof (induction n c rule: grow_capacity.induct)
  case (1 n c)
  then show ?case by (subst (1 2) grow_capacity.simps) auto
qed

lemma length_overwrite: "off + length bs \<le> length buf \<Longrightarrow> length (overwrite buf off bs) = length buf"
  by (simp add: overwrite_def)

lemma take_overwrite: "off \<le> length buf \<Longrightarrow> take off (overwrite buf off bs) = take off buf"
  by (simp add: overwrite_def)

lemma take_overwrite_past:
  "off \<le> length buf \<Longrightarrow> take (off + length bs) (overwrite buf off bs) = take off buf @ bs"
  by (simp add: overwrite_def)

lemma reserve_wf:
  assumes "wf_writer w"
  shows "wf_writer (reserve n w) \<and> finish (reserve n w) = finish w \<and>
    w_length (reserve n w) = w_length w \<and> w_length w + n \<le> length (w_buffer (reserve n w))"
proof (cases "w_length w + n \<le> length (w_buffer w)")
  case True
  with assms show ?thesis by (simp add: reserve_def)
next
  case False
  let ?c = "grow_capacity (w_length w + n) (length (w_buffer w))"
  have c: "w_length w + n \<le> ?c" "length (w_buffer w) \<le> ?c"
    using grow_capacity_enough [of "length (w_buffer w)" "w_length w + n"] assms
    by (auto simp: wf_writer_def)
  then have "length (overwrite (replicate ?c 0) 0 (w_buffer w)) = ?c"
    by (subst length_overwrite) simp_all
  with c False assms show ?thesis
    by (simp add: reserve_def wf_writer_def finish_def overwrite_def)
qed

lemma write_bytes_appends:
  assumes "wf_writer w"
  shows "wf_writer (write_bytes bs w) \<and> finish (write_bytes bs w) = finish w @ bs"
proof -
  note r = reserve_wf [OF assms, of "length bs"]
  then show ?thesis
    by (auto simp: write_bytes_def Let_def wf_writer_def finish_def length_overwrite take_overwrite_past)
qed

text \<open>The bytes of a varint.\<close>

function varint_bytes :: "int \<Rightarrow> byte list" where
  "varint_bytes v =
     (if 0x80 \<le> v then word_of_int ((v AND 0x7F) OR 0x80) # varint_bytes (drop_bit 7 v)
      else [word_of_int v])"
  by pat_completeness auto
termination
  by (relation "measure nat") (auto simp: drop_bit_eq_div)

declare varint_bytes.simps [simp del]

lemma write_varint_appends:
  "wf_writer w \<Longrightarrow> wf_writer (write_varint v w) \<and> finish (write_varint v w) = finish w @ varint_bytes v"
proof (induction v w rule: write_varint.induct)
  case (1 v w)
  note step = write_bytes_appends [OF 1(2)]
  show ?case
  proof (cases "0x80 \<le> v")
    case True
    with 1(1) [OF True] step [of "[word_of_int ((v AND 0x7F) OR 0x80)]"] show ?thesis
      by (simp add: write_varint.simps [of v] varint_bytes.simps [of v] write_byte_def)
  next
    case False
    with step [of "[word_of_int v]"] show ?thesis
      by (simp add: write_varint.simps [of v] varint_bytes.simps [of v] write_byte_def)
  qed
qed

subsection \<open>Varints read back\<close>

lemma varint_byte_more:
  assumes "0x80 \<le> v"
  shows "uint (word_of_int ((v AND 0x7F) OR 0x80) AND (0x7F :: byte)) = v mod 128"
    and "word_of_int ((v AND 0x7F) OR 0x80) AND (0x80 :: byte) \<noteq> 0"
proof -
  have "uint (word_of_int ((v AND 0x7F) OR 0x80) AND (0x7F :: byte)) = take_bit 7 v"
    by (simp add: bit_eq_iff bit_simps) (auto simp: less_Suc_eq numeral_eq_Suc)
  then show "uint (word_of_int ((v AND 0x7F) OR 0x80) AND (0x7F :: byte)) = v mod 128"
    by (simp add: take_bit_eq_mod)
  have "bit (word_of_int ((v AND 0x7F) OR 0x80) AND (0x80 :: byte)) 7"
    by (simp add: bit_simps)
  then show "word_of_int ((v AND 0x7F) OR 0x80) AND (0x80 :: byte) \<noteq> 0" by auto
qed

lemma varint_byte_last:
  assumes "0 \<le> v" "v < 0x80"
  shows "uint (word_of_int v AND (0x7F :: byte)) = v" and "word_of_int v AND (0x80 :: byte) = 0"
proof -
  have v: "take_bit 7 v = v" using assms by (simp add: take_bit_int_eq_self_iff)
  have "uint (word_of_int v AND (0x7F :: byte)) = take_bit 7 v"
    by (simp add: bit_eq_iff bit_simps) (auto simp: less_Suc_eq numeral_eq_Suc)
  with v show "uint (word_of_int v AND (0x7F :: byte)) = v" by simp
  have "\<not> bit v 7" using bit_take_bit_iff [of 7 v 7] v by simp
  then have "\<not> bit (word_of_int v :: byte) 7" by (simp add: bit_simps)
  then have "word_of_int v AND (2 ^ 7 :: byte) = 0" by (simp only: and_exp_eq_0_iff_not_bit not_False_eq_True)
  moreover have "(2 ^ 7 :: byte) = 0x80" by simp
  ultimately show "word_of_int v AND (0x80 :: byte) = 0" by (simp only:)
qed

lemma or_push_bit: "0 \<le> a \<Longrightarrow> a < 2 ^ n \<Longrightarrow> a OR push_bit n x = a + x * 2 ^ n" for a x :: int
  using concat_bit_eq [of n a x] by (simp add: concat_bit_def take_bit_int_eq_self push_bit_eq_mult)

lemma varint_loop_reads:
  assumes "0 \<le> v" and "v < 2 ^ (7 * l + 1)" and "l \<le> 9"
    and "0 \<le> acc" and "acc < 2 ^ ((9 - l) * 7)"
  shows "varint_loop (Suc l) (pre @ varint_bytes v @ post) start (length pre) acc =
     Inr (acc + v * 2 ^ ((9 - l) * 7), length pre + length (varint_bytes v))"
  using assms
proof (induction l arbitrary: v acc pre)
  case 0
  then have "v = 0 \<or> v = 1" by auto
  then show ?case
    using 0 or_push_bit [of acc 63 1] by (auto simp: varint_bytes.simps [of v] nth_append)
next
  case (Suc l)
  have ne: "8 - l \<noteq> 9" by linarith
  have mul: "(9 - l) * 7 = 7 + (8 - l) * 7" using Suc.prems(3) by linarith
  show ?case
  proof (cases "0x80 \<le> v")
    case False
    then show ?thesis
      using Suc.prems varint_byte_last [of v]
        or_push_bit [of acc "(8 - l) * 7" v] ne
      by (simp add: varint_bytes.simps [of v] nth_append Let_def)
  next
    case True
    let ?b = "word_of_int ((v AND 0x7F) OR 0x80) :: byte" and ?n = "(8 - l) * 7"
    have acc': "acc OR push_bit ?n (uint (?b AND 0x7F)) = acc + (v mod 128) * 2 ^ ?n"
      using Suc.prems varint_byte_more(1) [OF True]
        or_push_bit [of acc "(8 - l) * 7" "v mod 128"] by simp
    have "acc + (v mod 128) * 2 ^ ?n < 2 ^ ?n + 127 * 2 ^ ?n"
      using Suc.prems by (intro add_less_le_mono mult_right_mono) auto
    then have bound: "acc + (v mod 128) * 2 ^ ?n < 2 ^ ((9 - l) * 7)"
      by (simp add: mul power_add)
    have v': "drop_bit 7 v = v div 128" by (simp add: drop_bit_eq_div)
    have "v div 128 < 2 ^ (7 * l + 1)"
      using Suc.prems(2) by (simp add: power_add div_less_iff_less_mult mult.commute)
    then have IH: "varint_loop (Suc l) ((pre @ [?b]) @ varint_bytes (v div 128) @ post) start
        (length (pre @ [?b])) (acc + (v mod 128) * 2 ^ ?n) =
      Inr (acc + (v mod 128) * 2 ^ ?n + v div 128 * 2 ^ ((9 - l) * 7),
        length (pre @ [?b]) + length (varint_bytes (v div 128)))"
      using Suc.prems bound True by (intro Suc.IH) auto
    have sum: "acc + (v mod 128) * 2 ^ ?n + v div 128 * 2 ^ ((9 - l) * 7) = acc + v * 2 ^ ?n"
    proof -
      have "v * P = (v mod 128) * P + v div 128 * (128 * P)" for P :: int
      proof -
        have "v * P = (v mod 128 + v div 128 * 128) * P" by simp
        also have "\<dots> = (v mod 128) * P + v div 128 * (128 * P)"
          by (simp only: distrib_right mult.assoc)
        finally show ?thesis .
      qed
      then show ?thesis by (simp add: mul power_add)
    qed
    show ?thesis
      using IH acc' varint_byte_more(2) [OF True] sum True ne
      by (simp add: varint_bytes.simps [of v] v' nth_append Let_def)
  qed
qed

lemma read_varint_bytes:
  assumes "0 \<le> v" and "v < 2 ^ 64" and "r_bytes r = pre @ varint_bytes v @ post"
    and "r_offset r = length pre"
  shows "read_varint r = Inr (v, r\<lparr>r_offset := length pre + length (varint_bytes v)\<rparr>)"
  using varint_loop_reads [of v 9 0 pre post "length pre"] assms
  by (simp add: read_varint_def numeral_eq_Suc)

subsection \<open>Fixed widths and zigzag\<close>

lemma length_little_endian [simp]: "length (little_endian n v) = n"
  by (simp add: little_endian_def)

lemma little_endian_Suc:
  "little_endian (Suc n) v = word_of_int v # little_endian n (drop_bit 8 v)"
proof -
  have "drop_bit (8 * Suc i) v = drop_bit (8 * i) (drop_bit 8 v)" for i
    by (simp add: drop_bit_drop_bit add.commute)
  then show ?thesis
    by (simp add: little_endian_def upt_conv_Cons map_Suc_upt [symmetric] o_def del: upt_Suc mult_Suc_right)
qed

lemma from_little_endian_inverse: "from_little_endian (little_endian n v) = v mod 2 ^ (8 * n)"
proof (induction n arbitrary: v)
  case 0
  then show ?case by (simp add: little_endian_def)
next
  case (Suc n)
  have "v mod 2 ^ (8 * Suc n) = v mod 256 + 256 * (v div 256 mod 2 ^ (8 * n))"
    using zmod_zmult2_eq [of "2 ^ (8 * n)" v 256] by (simp add: power_add)
  with Suc show ?case
    by (simp add: little_endian_Suc unsigned_of_int drop_bit_eq_div take_bit_eq_mod)
qed

lemma zigzag_encode:
  fixes v :: int
  assumes "- (2 ^ m) \<le> v" and "v < 2 ^ m"
  shows "push_bit 1 v XOR drop_bit m v = (if 0 \<le> v then 2 * v else - 2 * v - 1)"
proof (cases "0 \<le> v")
  case True
  then show ?thesis using assms by (simp add: drop_bit_eq_div push_bit_eq_mult)
next
  case False
  have "v div 2 ^ m = -1"
    by (rule int_div_pos_eq [of v "2 ^ m" "-1" "v + 2 ^ m"]) (use False assms in auto)
  then have "push_bit 1 v XOR drop_bit m v = NOT (2 * v)"
    by (simp add: drop_bit_eq_div push_bit_eq_mult)
  then show ?thesis using False by (simp add: not_int_def)
qed

lemma zigzag_inverse:
  fixes v :: int
  assumes "- (2 ^ m) \<le> v" and "v < 2 ^ m"
  shows "unzigzag (Suc m) (asUintN (Suc m) (push_bit 1 v XOR drop_bit m v)) = v"
proof -
  let ?z = "if 0 \<le> v then 2 * v else - 2 * v - 1"
  have z: "asUintN (Suc m) (push_bit 1 v XOR drop_bit m v) = ?z"
    unfolding asUintN_def zigzag_encode [OF assms]
    by (rule take_bit_int_eq_self) (use assms in auto)
  have z': "asUintN (Suc m) ?z = ?z"
    unfolding asUintN_def by (rule take_bit_int_eq_self) (use assms in auto)
  have "drop_bit 1 ?z XOR - (?z AND 1) = v"
  proof (cases "0 \<le> v")
    case True
    then show ?thesis by (simp add: drop_bit_eq_div and_one_eq)
  next
    case False
    then have "(- 2 * v - 1) div 2 = - v - 1" "(- 2 * v - 1) mod 2 = 1" by presburger+
    with False show ?thesis by (simp add: drop_bit_eq_div and_one_eq not_int_def)
  qed
  then show ?thesis
    unfolding unzigzag_def z Let_def z' using assms
    by (simp add: asIntN_def signed_take_bit_int_eq_self)
qed

subsection \<open>UTF-8\<close>

lemma unat_byte: "n < 256 \<Longrightarrow> unat (of_nat n :: byte) = n"
  by (simp add: unsigned_of_nat take_bit_nat_eq_self)

lemma cont_byte: "is_cont (cont_byte n)" "cont_val (cont_byte n) = n mod 64"
proof -
  have "0x80 + n mod 64 < 256" using mod_less_divisor [of 64 n] by linarith
  then have "unat (cont_byte n) = 0x80 + n mod 64" unfolding cont_byte_def by (rule unat_byte)
  then show "is_cont (cont_byte n)" "cont_val (cont_byte n) = n mod 64"
    using mod_less_divisor [of 64 n] by (simp_all add: is_cont_def cont_val_def)
qed

lemma utf8_split:
  fixes c :: nat
  shows "c div 64 * 64 + c mod 64 = c"
    and "c div 4096 * 4096 + c div 64 mod 64 * 64 + c mod 64 = c"
    and "c div 262144 * 262144 + c div 4096 mod 64 * 4096 + c div 64 mod 64 * 64 + c mod 64 = c"
proof -
  have 1: "c div 64 div 64 = c div 4096" "c div 4096 div 64 = c div 262144"
    by (simp_all add: div_mult2_eq [symmetric])
  show a: "c div 64 * 64 + c mod 64 = c" by simp
  have b: "c div 4096 * 64 + c div 64 mod 64 = c div 64"
    using div_mult_mod_eq [of "c div 64" 64] 1 by simp
  have d: "c div 262144 * 64 + c div 4096 mod 64 = c div 4096"
    using div_mult_mod_eq [of "c div 4096" 64] 1 by simp
  show e: "c div 4096 * 4096 + c div 64 mod 64 * 64 + c mod 64 = c"
    using a b by linarith
  show "c div 262144 * 262144 + c div 4096 mod 64 * 4096 + c div 64 mod 64 * 64 + c mod 64 = c"
    using e d by linarith
qed

lemma utf8_char_reads:
  assumes "scalar c"
  shows "utf8_scalars (utf8_char c @ rest) = map_option (Cons c) (utf8_scalars rest)"
proof -
  consider "c < 0x80" | "0x80 \<le> c" "c < 0x800" | "0x800 \<le> c" "c < 0x10000"
    | "0x10000 \<le> c" "c < 0x110000"
    using assms unfolding scalar_def by linarith
  then show ?thesis
  proof cases
    case 1
    then show ?thesis by (simp add: utf8_char_def unat_byte)
  next
    case 2
    then have uc: "utf8_char c = [of_nat (0xC0 + c div 64), cont_byte c]"
      by (simp add: utf8_char_def)
    from 2 have u: "unat (of_nat (0xC0 + c div 64) :: byte) = 0xC0 + c div 64"
      by (intro unat_byte) (simp add: div_less_iff_less_mult)
    have "2 \<le> c div 64" "c div 64 < 32" using 2 by auto
    with u show ?thesis
      using utf8_split(1) [of c] by (simp add: uc cont_byte Let_def del: of_nat_add)
  next
    case 3
    then have uc: "utf8_char c = [of_nat (0xE0 + c div 4096), cont_byte (c div 64), cont_byte c]"
      by (simp add: utf8_char_def)
    from 3 have u: "unat (of_nat (0xE0 + c div 4096) :: byte) = 0xE0 + c div 4096"
      by (intro unat_byte) (simp add: div_less_iff_less_mult)
    have "c div 4096 < 16" using 3 by auto
    with 3(1) u assms show ?thesis
      using utf8_split(2) [of c] by (simp add: uc cont_byte Let_def del: of_nat_add)
  next
    case 4
    then have uc: "utf8_char c = [of_nat (0xF0 + c div 262144), cont_byte (c div 4096), cont_byte (c div 64), cont_byte c]"
      by (simp add: utf8_char_def)
    from 4 have u: "unat (of_nat (0xF0 + c div 262144) :: byte) = 0xF0 + c div 262144"
      by (intro unat_byte) (simp add: div_less_iff_less_mult)
    have "c div 262144 < 5" using 4 by auto
    with 4(1) u assms show ?thesis
      using utf8_split(3) [of c] by (simp add: uc cont_byte Let_def del: of_nat_add)
  qed
qed

lemma utf8_scalars_encode: "list_all scalar s \<Longrightarrow> utf8_scalars (utf8_encode s) = Some s"
  by (induction s) (simp_all add: utf8_encode_def utf8_char_reads)

lemma utf8_decode_encode:
  "list_all scalar s \<Longrightarrow> s = [] \<or> hd s \<noteq> byte_order_mark \<Longrightarrow> utf8_decode (utf8_encode s) = Some s"
  by (auto simp: utf8_decode_def utf8_scalars_encode split: list.splits)

lemma utf8_decode_strips_mark:
  "list_all scalar s \<Longrightarrow> utf8_decode (utf8_encode (byte_order_mark # s)) = Some s"
  by (simp add: utf8_decode_def utf8_scalars_encode scalar_def byte_order_mark_def)

subsection \<open>One contract for every field type\<close>

definition at_end :: "byte list \<Rightarrow> byte list \<Rightarrow> proto_reader" where
  "at_end pre post = \<lparr>r_bytes = pre @ post, r_offset = length pre\<rparr>"

primrec get_many :: "(proto_reader \<Rightarrow> 'a reading) \<Rightarrow> nat \<Rightarrow> proto_reader \<Rightarrow> 'a list reading" where
  "get_many get 0 r = Inr ([], r)"
| "get_many get (Suc n) r = rbind (get r) (\<lambda>(v, r').
     rbind (get_many get n r') (\<lambda>(vs, r''). Inr (v # vs, r'')))"

locale field_codec =
  fixes put :: "'a \<Rightarrow> proto_writer \<Rightarrow> proto_writer"
    and get :: "proto_reader \<Rightarrow> 'a reading"
    and enc :: "'a \<Rightarrow> byte list"
    and ok :: "'a \<Rightarrow> bool"
  assumes put_appends: "wf_writer w \<Longrightarrow> wf_writer (put v w) \<and> finish (put v w) = finish w @ enc v"
    and get_enc: "ok v \<Longrightarrow> get (at_end pre (enc v @ post)) = Inr (v, at_end (pre @ enc v) post)"
begin

lemma put_many: "wf_writer w \<Longrightarrow>
    wf_writer (fold put vs w) \<and> finish (fold put vs w) = finish w @ concat (map enc vs)"
  by (induction vs arbitrary: w) (simp_all add: put_appends)

lemma get_many_enc: "list_all ok vs \<Longrightarrow>
    get_many get (length vs) (at_end pre (concat (map enc vs) @ post)) =
      Inr (vs, at_end (pre @ concat (map enc vs)) post)"
proof (induction vs arbitrary: pre)
  case (Cons v vs)
  with get_enc [of v pre "concat (map enc vs) @ post"] Cons.IH [of "pre @ enc v"] show ?case by simp
qed (simp add: at_end_def)

lemma round_trip:
  assumes "list_all ok vs"
  shows "\<exists>r. get_many get (length vs) (new_reader (finish (fold put vs new_writer))) = Inr (vs, r) \<and>
    reader_done r"
proof -
  have "new_reader (finish (fold put vs new_writer)) = at_end [] (concat (map enc vs) @ [])"
    using put_many [OF wf_new_writer, of vs] by (simp add: new_reader_def at_end_def finish_new_writer)
  then show ?thesis
    using get_many_enc [OF assms, of "[]" "[]"] by (simp add: at_end_def reader_done_def)
qed

end

lemma read_varint_at:
  assumes "0 \<le> v" and "v < 2 ^ 64"
  shows "read_varint (at_end pre (varint_bytes v @ post)) = Inr (v, at_end (pre @ varint_bytes v) post)"
  using read_varint_bytes [OF assms, of "at_end pre (varint_bytes v @ post)" pre post]
  by (simp add: at_end_def)

lemma asUintN_range: "0 \<le> asUintN n v \<and> asUintN n v < 2 ^ n"
  by (simp add: asUintN_def)

lemma asUintN_64: "n \<le> 64 \<Longrightarrow> 0 \<le> asUintN n v \<and> asUintN n v < 2 ^ 64"
  using asUintN_range [of n v] power_increasing [of n 64 "2 :: int"] by auto

lemma read_varint_asUintN:
  assumes "n \<le> 64"
  shows "read_varint (at_end pre (varint_bytes (asUintN n v) @ post)) =
    Inr (asUintN n v, at_end (pre @ varint_bytes (asUintN n v)) post)"
  using asUintN_64 [OF assms, of v] by (intro read_varint_at) auto

lemma asUintN_self: "0 \<le> v \<Longrightarrow> v < 2 ^ n \<Longrightarrow> asUintN n v = v"
  by (simp add: asUintN_def take_bit_int_eq_self)

lemma asIntN_asUintN:
  assumes "0 < m" and "m \<le> n"
  shows "asIntN m (asUintN n v) = asIntN m v"
proof -
  have "\<not> n \<le> m - 1" using assms by linarith
  then show ?thesis by (simp add: asIntN_def asUintN_def signed_take_bit_take_bit)
qed

lemma asIntN_self: "- (2 ^ (n - 1)) \<le> v \<Longrightarrow> v < 2 ^ (n - 1) \<Longrightarrow> asIntN n v = v"
  by (simp add: asIntN_def signed_take_bit_int_eq_self)

definition fits_unsigned :: "nat \<Rightarrow> int \<Rightarrow> bool" where
  "fits_unsigned n v \<longleftrightarrow> 0 \<le> v \<and> v < 2 ^ n"

definition fits_signed :: "nat \<Rightarrow> int \<Rightarrow> bool" where
  "fits_signed n v \<longleftrightarrow> - (2 ^ (n - 1)) \<le> v \<and> v < 2 ^ (n - 1)"

definition zigzag :: "nat \<Rightarrow> int \<Rightarrow> int" where
  "zigzag n v = (let signed = asIntN n v in asUintN n (push_bit 1 signed XOR drop_bit (n - 1) signed))"

interpretation uint32: field_codec w_uint32 r_uint32 "\<lambda>v. varint_bytes (asUintN 32 v)" "fits_unsigned 32"
  by unfold_locales
    (simp_all add: w_uint32_def write_varint_appends r_uint32_def map_reading_def
      read_varint_at fits_unsigned_def asUintN_self)

interpretation uint64: field_codec w_uint64 r_uint64 "\<lambda>v. varint_bytes (asUintN 64 v)" "fits_unsigned 64"
  by unfold_locales
    (simp_all add: w_uint64_def write_varint_appends r_uint64_def map_reading_def
      read_varint_at fits_unsigned_def asUintN_self)

interpretation int32: field_codec w_int32 r_int32 "\<lambda>v. varint_bytes (asUintN 64 v)" "fits_signed 32"
  by unfold_locales
    (simp_all add: w_int32_def write_varint_appends r_int32_def map_reading_def
      read_varint_asUintN fits_signed_def asIntN_asUintN asIntN_self)

interpretation int64: field_codec w_int64 r_int64 "\<lambda>v. varint_bytes (asUintN 64 v)" "fits_signed 64"
  by unfold_locales
    (simp_all add: w_int64_def write_varint_appends r_int64_def map_reading_def
      read_varint_asUintN fits_signed_def asIntN_asUintN asIntN_self)

interpretation sint32: field_codec w_sint32 r_sint32 "\<lambda>v. varint_bytes (zigzag 32 v)" "fits_signed 32"
  by unfold_locales
    (use zigzag_inverse [of 31] in \<open>simp_all add: w_sint32_def write_varint_appends r_sint32_def
      map_reading_def zigzag_def Let_def read_varint_asUintN fits_signed_def asIntN_self\<close>)

interpretation sint64: field_codec w_sint64 r_sint64 "\<lambda>v. varint_bytes (zigzag 64 v)" "fits_signed 64"
  by unfold_locales
    (use zigzag_inverse [of 63] in \<open>simp_all add: w_sint64_def write_varint_appends r_sint64_def
      map_reading_def zigzag_def Let_def read_varint_asUintN fits_signed_def asIntN_self\<close>)

interpretation bool: field_codec w_bool r_bool "\<lambda>b. varint_bytes (if b then 1 else 0)" "\<lambda>_. True"
  by unfold_locales
    (auto simp: w_bool_def w_uint32_def asUintN_self write_varint_appends r_bool_def
      map_reading_def read_varint_at)

lemma read_fixed_at:
  "read_fixed n what (at_end pre (little_endian n v @ post)) =
     Inr (v mod 2 ^ (8 * n), at_end (pre @ little_endian n v) post)"
  by (simp add: read_fixed_def require_def at_end_def from_little_endian_inverse)

interpretation fixed32: field_codec w_fixed32 r_fixed32 "little_endian 4" "fits_unsigned 32"
  by unfold_locales
    (simp_all add: w_fixed32_def write_bytes_appends r_fixed32_def read_fixed_at fits_unsigned_def)

interpretation fixed64: field_codec w_fixed64 r_fixed64
    "\<lambda>v. little_endian 8 (asUintN 64 v)" "fits_unsigned 64"
  by unfold_locales
    (simp_all add: w_fixed64_def write_bytes_appends r_fixed64_def read_fixed_at fits_unsigned_def
      asUintN_self)

interpretation sfixed32: field_codec w_sfixed32 r_sfixed32 "little_endian 4" "fits_signed 32"
  by unfold_locales
    (simp_all add: w_sfixed32_def write_bytes_appends r_sfixed32_def read_fixed_at map_reading_def
      asIntN_asUintN [of 32 32, unfolded asUintN_def take_bit_eq_mod, simplified] fits_signed_def asIntN_self)

interpretation sfixed64: field_codec w_sfixed64 r_sfixed64
    "\<lambda>v. little_endian 8 (asIntN 64 v)" "fits_signed 64"
  by unfold_locales
    (simp_all add: w_sfixed64_def write_bytes_appends r_sfixed64_def read_fixed_at map_reading_def
      asIntN_asUintN [of 64 64, unfolded asUintN_def take_bit_eq_mod, simplified] fits_signed_def asIntN_self)

definition delimited :: "byte list \<Rightarrow> byte list" where
  "delimited bs = varint_bytes (asUintN 32 (int (length bs))) @ bs"

definition fits_length :: "byte list \<Rightarrow> bool" where
  "fits_length bs \<longleftrightarrow> int (length bs) < 2 ^ 32"

lemma lengthDelimited_at:
  assumes "fits_length bs"
  shows "lengthDelimited (at_end pre (delimited bs @ post)) = Inr (bs, at_end (pre @ delimited bs) post)"
proof -
  have n: "asUintN 32 (int (length bs)) = int (length bs)"
    using assms by (simp add: fits_length_def asUintN_self)
  have "read_varint (at_end pre (varint_bytes (int (length bs)) @ bs @ post)) =
      Inr (int (length bs), at_end (pre @ varint_bytes (int (length bs))) (bs @ post))"
    using assms by (intro read_varint_at) (simp_all add: fits_length_def)
  then show ?thesis
    by (simp add: lengthDelimited_def delimited_def n at_end_def)
qed

interpretation bytes: field_codec w_bytes lengthDelimited delimited fits_length
  by unfold_locales
    (simp_all add: w_bytes_def delimited_def write_bytes_appends write_varint_appends w_uint32_def
      lengthDelimited_at [unfolded delimited_def append_assoc])

definition wire_string :: "nat list \<Rightarrow> bool" where
  "wire_string s \<longleftrightarrow> list_all scalar s \<and> (s = [] \<or> hd s \<noteq> byte_order_mark) \<and>
     fits_length (utf8_encode s)"

interpretation string: field_codec w_string r_string "\<lambda>s. delimited (utf8_encode s)" wire_string
  by unfold_locales
    (simp_all add: w_string_def bytes.put_appends r_string_def wire_string_def lengthDelimited_at
      utf8_decode_encode)

subsection \<open>Field keys and unknown fields\<close>

lemma key_reads_tag:
  assumes "1 \<le> f" and "f \<le> MAX_FIELD_NUMBER" and "0 \<le> wt" and "wt \<le> 5"
  shows "r_key (at_end pre (varint_bytes (f * 8 + wt) @ post)) =
    Inr (f * 8 + wt, at_end (pre @ varint_bytes (f * 8 + wt)) post)"
proof -
  have b: "0 \<le> f * 8 + wt" "f * 8 + wt \<le> 0xFFFFFFFF"
    using assms by (auto simp: MAX_FIELD_NUMBER_def)
  then have v: "read_varint (at_end pre (varint_bytes (f * 8 + wt) @ post)) =
      Inr (f * 8 + wt, at_end (pre @ varint_bytes (f * 8 + wt)) post)"
    by (intro read_varint_at) auto
  have "(f * 8 + wt) div 8 = f" "(f * 8 + wt) mod 8 = wt" using assms by auto
  with v b assms show ?thesis by (simp add: r_key_def Let_def)
qed

lemma tag_writes:
  assumes "1 \<le> f" and "f \<le> MAX_FIELD_NUMBER" and "0 \<le> wt" and "wt \<le> 5" and "wf_writer w"
  shows "finish (w_tag f wt w) = finish w @ varint_bytes (f * 8 + wt)"
proof -
  have "asUintN 32 (f * 8 + wt) = f * 8 + wt"
    using assms by (intro asUintN_self) (auto simp: MAX_FIELD_NUMBER_def)
  then show ?thesis using write_varint_appends [OF assms(5)] by (simp add: w_tag_def w_uint32_def)
qed

text \<open>What may follow a key of each wire type.\<close>

datatype payload = PVarint int | PFixed64 int | PBytes "byte list" | PFixed32 int

fun payload_wire_type :: "payload \<Rightarrow> int" where
  "payload_wire_type (PVarint _) = 0"
| "payload_wire_type (PFixed64 _) = 1"
| "payload_wire_type (PBytes _) = 2"
| "payload_wire_type (PFixed32 _) = 5"

fun payload_bytes :: "payload \<Rightarrow> byte list" where
  "payload_bytes (PVarint v) = varint_bytes (asUintN 64 v)"
| "payload_bytes (PFixed64 v) = little_endian 8 v"
| "payload_bytes (PBytes bs) = delimited bs"
| "payload_bytes (PFixed32 v) = little_endian 4 v"

fun payload_fits :: "payload \<Rightarrow> bool" where
  "payload_fits (PBytes bs) = fits_length bs"
| "payload_fits _ = True"

lemma skip_payload:
  "payload_fits p \<Longrightarrow> skip_field (at_end pre (payload_bytes p @ post)) (payload_wire_type p) =
     Inr (at_end (pre @ payload_bytes p) post)"
proof -
  have "advance (at_end pre (bs @ post)) (length bs) what = Inr (at_end (pre @ bs) post)" for bs what
    by (simp add: advance_def require_def at_end_def)
  from this [of "little_endian 8 _"] this [of "little_endian 4 _"]
  show "payload_fits p \<Longrightarrow> skip_field (at_end pre (payload_bytes p @ post)) (payload_wire_type p) =
     Inr (at_end (pre @ payload_bytes p) post)"
    by (cases p) (simp_all add: skip_field_def read_varint_asUintN lengthDelimited_at)
qed

subsection \<open>The reader stays inside its input\<close>

definition reader_ok :: "proto_reader \<Rightarrow> bool" where
  "reader_ok r \<longleftrightarrow> r_offset r \<le> length (r_bytes r)"

definition moves :: "proto_reader \<Rightarrow> proto_reader \<Rightarrow> bool" where
  "moves r r' \<longleftrightarrow> r_bytes r' = r_bytes r \<and> r_offset r \<le> r_offset r' \<and> reader_ok r'"

lemma varint_loop_bounds:
  "varint_loop left bs start off acc = Inr (v, off') \<Longrightarrow>
     off < off' \<and> off' \<le> length bs \<and> off' \<le> off + left"
proof (induction left arbitrary: off acc)
  case (Suc left)
  then show ?case
    by (auto simp: Let_def split: if_splits) (fastforce dest: Suc.IH)+
qed simp

lemma varint_loop_value:
  "varint_loop left bs start off acc = Inr (v, off') \<Longrightarrow> left \<le> 10 \<Longrightarrow> 0 \<le> acc \<Longrightarrow>
     acc < 2 ^ ((10 - left) * 7) \<Longrightarrow> 0 \<le> v \<and> v < 2 ^ 64"
proof (induction left arbitrary: off acc)
  case (Suc left)
  let ?b = "bs ! off" and ?n = "(9 - left) * 7"
  let ?x = "uint (?b AND 0x7F)" and ?acc = "acc OR push_bit ?n (uint (?b AND 0x7F))"
  have n: "(10 - Suc left) = 9 - left" by simp
  have x: "0 \<le> ?x" "?x < 128"
  proof -
    have "?x \<le> uint (0x7F :: byte)" by (simp add: uint_and AND_upper2)
    then show "0 \<le> ?x" "?x < 128" by simp_all
  qed
  have acc': "?acc = acc + ?x * 2 ^ ?n"
    using Suc.prems by (intro or_push_bit) (simp_all add: n)
  have acc0: "0 \<le> ?acc" using Suc.prems x by (simp add: acc')
  show ?case
  proof (cases "left = 0")
    case True
    then have "\<not> ?b > 1" "v = ?acc" using Suc.prems(1) by (auto simp: Let_def split: if_splits)
    then have "?b = 0 \<or> ?b = 1" by (metis word_less_1 linorder_neqE)
    then have "?x \<le> 1" by auto
    then have "?x * 2 ^ 63 \<le> 2 ^ 63" by simp
    with Suc.prems True \<open>v = ?acc\<close> acc0 acc' show ?thesis by simp
  next
    case False
    have e: "(10 - left) * 7 = 7 + ?n" using Suc.prems(2) by linarith
    have "acc + ?x * 2 ^ ?n < 2 ^ ?n + 127 * 2 ^ ?n"
      using Suc.prems x by (intro add_less_le_mono mult_right_mono) (auto simp: n)
    then have acc1: "?acc < 2 ^ ((10 - left) * 7)" unfolding acc' e by (simp add: power_add)
    have "?acc < 2 ^ 64"
    proof -
      have "(10 - left) * 7 \<le> 64" using False Suc.prems(2) by linarith
      then show ?thesis using acc1 power_increasing [of "(10 - left) * 7" 64 "2 :: int"] by linarith
    qed
    then show ?thesis
      using Suc.prems Suc.IH [of "Suc off" ?acc] acc0 acc1 by (auto simp: Let_def split: if_splits)
  qed
qed simp

lemma read_varint_moves:
  "read_varint r = Inr (v, r') \<Longrightarrow>
     moves r r' \<and> r_offset r < r_offset r' \<and> r_offset r' \<le> r_offset r + 10 \<and> 0 \<le> v \<and> v < 2 ^ 64"
  by (auto simp: read_varint_def result_simps moves_def reader_ok_def
      dest: varint_loop_bounds varint_loop_value simp del: varint_loop.simps)

lemma read_fixed_moves: "read_fixed n what r = Inr (v, r') \<Longrightarrow> reader_ok r \<Longrightarrow> moves r r'"
  by (auto simp: read_fixed_def require_def result_simps moves_def reader_ok_def Let_def split: if_splits)

lemma lengthDelimited_moves:
  "lengthDelimited r = Inr (bs, r') \<Longrightarrow> moves r r' \<and> length bs < r_offset r' - r_offset r"
  by (auto simp: lengthDelimited_def Let_def result_simps moves_def reader_ok_def split: if_splits
      dest!: read_varint_moves)

lemma skip_field_moves: "skip_field r wt = Inr r' \<Longrightarrow> reader_ok r \<Longrightarrow> moves r r'"
  by (auto simp: skip_field_def advance_def require_def result_simps Let_def moves_def reader_ok_def
      split: if_splits dest!: read_varint_moves lengthDelimited_moves)

lemma r_key_moves:
  assumes "r_key r = Inr (k, r')"
  shows "moves r r' \<and> 8 \<le> k \<and> k \<le> 0xFFFFFFFF \<and> k mod 8 \<in> {0, 1, 2, 3, 4, 5}"
proof -
  have "k mod 8 \<noteq> 6 \<and> k mod 8 \<noteq> 7 \<and> moves r r' \<and> 8 \<le> k \<and> k \<le> 0xFFFFFFFF"
    using assms
    by (auto simp: r_key_def Let_def result_simps split: if_splits dest!: read_varint_moves)
  moreover have "k mod 8 \<in> {0, 1, 2, 3, 4, 5, 6, 7}"
    using pos_mod_bound [of 8 k] pos_mod_sign [of 8 k] by (simp, presburger)
  ultimately show ?thesis by auto
qed

end
