(* ===== verification/WireProperties.thy ===== *)
theory WireProperties
  imports WireCodec
begin

section \<open>Properties of the protobuf wire primitives\<close>

text \<open>
  The statements about \<open>packages/protobuf/src/wire.ts\<close>: what the writer appends the reader reads
  back, keys and unknown fields are consumed exactly, and no read leaves its input. A property on
  sequences is stated for a writer that starts empty and a reader on what \<open>finish\<close> returns.
\<close>

definition integer_codecs ::
  "((int \<Rightarrow> proto_writer \<Rightarrow> proto_writer) \<times> (proto_reader \<Rightarrow> int reading) \<times> (int \<Rightarrow> bool)) set" where
  "integer_codecs = {
     (w_uint32, r_uint32, fits_unsigned 32), (w_uint64, r_uint64, fits_unsigned 64),
     (w_int32, r_int32, fits_signed 32), (w_int64, r_int64, fits_signed 64),
     (w_sint32, r_sint32, fits_signed 32), (w_sint64, r_sint64, fits_signed 64),
     (w_fixed32, r_fixed32, fits_unsigned 32), (w_fixed64, r_fixed64, fits_unsigned 64),
     (w_sfixed32, r_sfixed32, fits_signed 32), (w_sfixed64, r_sfixed64, fits_signed 64)}"

text \<open>
  C20: for each of the ten integer field types, every sequence of values in the type's range that is
  written is read back, in order and unchanged, and the reader ends at the end of its input.
\<close>
theorem integers_round_trip:
  assumes "(put, get, ok) \<in> integer_codecs" and "list_all ok vs"
  shows "\<exists>r. get_many get (length vs) (new_reader (finish (fold put vs new_writer))) = Inr (vs, r) \<and>
    reader_done r"
  using assms uint32.round_trip uint64.round_trip int32.round_trip int64.round_trip sint32.round_trip
    sint64.round_trip fixed32.round_trip fixed64.round_trip sfixed32.round_trip sfixed64.round_trip
  unfolding integer_codecs_def by blast

theorem integers_round_trip_witness:
  "\<exists>r. get_many r_sint32 (length [- 2147483648, 0, 2147483647 :: int]) (new_reader (finish (fold w_sint32 [- 2147483648, 0, 2147483647] new_writer))) =
     Inr ([- 2147483648, 0, 2147483647], r) \<and> reader_done r"
proof -
  have "(w_sint32, r_sint32, fits_signed 32) \<in> integer_codecs" by (simp add: integer_codecs_def)
  moreover have "list_all (fits_signed 32) [- 2147483648, 0, 2147483647]" by (simp add: fits_signed_def)
  ultimately show ?thesis
    by (rule integers_round_trip)
qed

text \<open>
  every sequence of strings of Unicode scalar values, none of which starts with a byte order
  mark, is read back unchanged, and so is every sequence of byte arrays.
\<close>
theorem strings_round_trip:
  "(list_all wire_string ss \<longrightarrow> (\<exists>r. get_many r_string (length ss)
      (new_reader (finish (fold w_string ss new_writer))) = Inr (ss, r) \<and> reader_done r)) \<and>
   (list_all fits_length bss \<longrightarrow> (\<exists>r. get_many lengthDelimited (length bss)
      (new_reader (finish (fold w_bytes bss new_writer))) = Inr (bss, r) \<and> reader_done r))"
  using string.round_trip bytes.round_trip by blast

theorem strings_round_trip_witness:
  "\<exists>r. get_many r_string (length [[0x68, 0x20AC], [0x1F600 :: nat]]) (new_reader (finish (fold w_string [[0x68, 0x20AC], [0x1F600]] new_writer))) =
     Inr ([[0x68, 0x20AC], [0x1F600]], r) \<and> reader_done r"
proof -
  have "list_all wire_string [[0x68, 0x20AC], [0x1F600]]"
    by (simp add: wire_string_def utf8_encode_def utf8_char_def fits_length_def scalar_def byte_order_mark_def)
  then show ?thesis using strings_round_trip [of "[[0x68, 0x20AC], [0x1F600]]" "[]"] by blast
qed

text \<open>
  C21: a string that starts with the character U+FEFF is not read back: the reader returns the string
  without its first character.
\<close>
theorem string_loses_byte_order_mark:
  assumes "wire_string s"  and "fits_length (utf8_encode (byte_order_mark # s))"
  shows "\<exists>r. r_string (new_reader (finish (w_string (byte_order_mark # s) new_writer))) = Inr (s, r)"
proof -
  let ?bs = "utf8_encode (byte_order_mark # s)"
  have "finish (w_string (byte_order_mark # s) new_writer) = delimited ?bs"
    using bytes.put_appends [OF wf_new_writer] by (simp add: w_string_def finish_new_writer)
  moreover have "lengthDelimited (new_reader (delimited ?bs)) = Inr (?bs, at_end (delimited ?bs) [])"
    using lengthDelimited_at [OF assms(2), of "[]" "[]"] by (simp add: at_end_def new_reader_def)
  moreover have "utf8_decode ?bs = Some s"
    using assms(1) by (simp add: utf8_decode_strips_mark wire_string_def)
  ultimately show ?thesis by (simp add: r_string_def)
qed

theorem string_loses_byte_order_mark_witness:
  "\<exists>r. r_string (new_reader (finish (w_string [byte_order_mark, 0x61] new_writer))) = Inr ([0x61], r)"
proof -
  have "wire_string [0x61]"
    by (simp add: wire_string_def utf8_encode_def utf8_char_def fits_length_def scalar_def byte_order_mark_def)
  moreover have "fits_length (utf8_encode [byte_order_mark, 0x61])"
    by (simp add: wire_string_def utf8_encode_def utf8_char_def fits_length_def scalar_def byte_order_mark_def)
  ultimately show ?thesis by (rule string_loses_byte_order_mark)
qed

text \<open>
  the key of every valid field number and wire type that \<open>tag\<close> writes is accepted by \<open>key\<close>, which
  returns that field number and wire type and consumes exactly the key's bytes.
\<close>
theorem key_reads_written_tag:
  assumes "1 \<le> f" and "f \<le> MAX_FIELD_NUMBER" and "wt \<in> {0, 1, 2, 5}"
  shows "\<exists>r. r_key (new_reader (finish (w_tag f wt new_writer))) = Inr (f * 8 + wt, r) \<and>
    reader_done r \<and> (f * 8 + wt) div 8 = f \<and> (f * 8 + wt) mod 8 = wt"
proof -
  have wt: "0 \<le> wt" "wt \<le> 5" using assms(3) by auto
  have "finish (w_tag f wt new_writer) = varint_bytes (f * 8 + wt)"
    using tag_writes [OF assms(1,2) wt wf_new_writer] by (simp add: finish_new_writer)
  moreover have "r_key (at_end [] (varint_bytes (f * 8 + wt) @ [])) =
      Inr (f * 8 + wt, at_end ([] @ varint_bytes (f * 8 + wt)) [])"
    by (rule key_reads_tag [OF assms(1,2) wt])
  ultimately show ?thesis using wt by (simp add: at_end_def new_reader_def reader_done_def)
qed

theorem key_reads_written_tag_witness:
  "\<exists>r. r_key (new_reader (finish (w_tag 536870911 5 new_writer))) = Inr (4294967293, r) \<and> reader_done r"
  using key_reads_written_tag [of 536870911 5] by (simp add: MAX_FIELD_NUMBER_def)

text \<open>
  after the key of an unknown field, \<open>skip\<close> with the key's wire type consumes exactly the bytes of
  the field's payload, whatever follows them.
\<close>
theorem skip_consumes_payload:
  assumes "payload_fits p"
  shows "skip_field (at_end pre (payload_bytes p @ post)) (payload_wire_type p) =
     Inr (at_end (pre @ payload_bytes p) post)"
  by (rule skip_payload [OF assms])

theorem skip_consumes_payload_witness:
  "skip_field (at_end [] (payload_bytes (PBytes [1, 2, 3]) @ [9])) 2 =
     Inr (at_end (payload_bytes (PBytes [1, 2, 3])) [9])"
proof -
  have "payload_fits (PBytes [1, 2, 3])" by (simp add: fits_length_def)
  from skip_consumes_payload [OF this, of "[]" "[9]"] show ?thesis by simp
qed

text \<open>
  on arbitrary input bytes a read that succeeds leaves the input as it is and the cursor within
  it: a varint consumes one to ten bytes and is below \<open>2 ^ 64\<close>, a length-delimited payload lies
  within the input, and so do fixed fields, keys and skipped fields.
\<close>
theorem reads_stay_in_bounds:
  assumes "reader_ok r"
  shows "(\<forall>v r'. read_varint r = Inr (v, r') \<longrightarrow> moves r r' \<and> 0 \<le> v \<and> v < 2 ^ 64 \<and>
      r_offset r < r_offset r' \<and> r_offset r' \<le> r_offset r + 10) \<and>
    (\<forall>bs r'. lengthDelimited r = Inr (bs, r') \<longrightarrow> moves r r' \<and> length bs < r_offset r' - r_offset r) \<and>
    (\<forall>n what v r'. read_fixed n what r = Inr (v, r') \<longrightarrow> moves r r') \<and>
    (\<forall>k r'. r_key r = Inr (k, r') \<longrightarrow> moves r r' \<and> k mod 8 \<in> {0, 1, 2, 3, 4, 5}) \<and>
    (\<forall>wt r'. skip_field r wt = Inr r' \<longrightarrow> moves r r')"
  using assms read_varint_moves lengthDelimited_moves read_fixed_moves r_key_moves skip_field_moves
  by blast

theorem reads_stay_in_bounds_witness:
  "moves (new_reader [0xAC, 0x02, 0x07]) \<lparr>r_bytes = [0xAC, 0x02, 0x07], r_offset = 2\<rparr>"
proof -
  have "reader_ok (new_reader [0xAC, 0x02, 0x07])" by (simp add: reader_ok_def new_reader_def)
  moreover have "read_varint (new_reader [0xAC, 0x02, 0x07]) =
      Inr (300, \<lparr>r_bytes = [0xAC, 0x02, 0x07], r_offset = 2\<rparr>)"
    by code_simp
  ultimately show ?thesis using reads_stay_in_bounds by blast
qed

text \<open>
  every write appends to what the writer holds, whatever its spare capacity, and keeps the
  written length within the buffer.
\<close>
theorem writes_append:
  assumes "wf_writer w"
  shows "wf_writer (write_bytes bs w) \<and> finish (write_bytes bs w) = finish w @ bs \<and>
    wf_writer (write_varint v w) \<and> (\<exists>vb. vb \<noteq> [] \<and> finish (write_varint v w) = finish w @ vb)"
  using write_bytes_appends [OF assms] write_varint_appends [OF assms]
  by (auto simp: varint_bytes.simps [of v])

theorem writes_append_witness:
  "finish (write_bytes [7, 8] new_writer) = [7, 8]"
  using writes_append [OF wf_new_writer, of "[7, 8]"] by (simp add: finish_new_writer)

end
