(* ===== verification/Calendar.thy ===== *)
theory Calendar
  imports Prelude
begin

section \<open>Calendar arithmetic of the language\<close>

text \<open>
  The part of ECMAScript's \<open>Date\<close> that the scheduler uses, from the abstract operations of the
  language definition: \<open>DayFromYear\<close>, \<open>YearFromTime\<close>, \<open>MonthFromTime\<close>, \<open>DateFromTime\<close>,
  \<open>WeekDay\<close> and \<open>Date.UTC\<close>, on integral times (milliseconds since the epoch). The operations are
  total here; the range check of a \<open>Date\<close> value (100 million days) is not modelled.
\<close>

definition day_ms :: int where
  "day_ms = 86400000"

definition leap_year :: "int \<Rightarrow> bool" where
  "leap_year y \<longleftrightarrow> (y mod 4 = 0 \<and> y mod 100 \<noteq> 0) \<or> y mod 400 = 0"

definition day_from_year :: "int \<Rightarrow> int" where
  "day_from_year y =
     365 * (y - 1970) + (y - 1969) div 4 - (y - 1901) div 100 + (y - 1601) div 400"

text \<open>The year of a day: an estimate by the mean year, corrected by one.\<close>

definition year_of_day :: "int \<Rightarrow> int" where
  "year_of_day d = (let y = 1970 + (400 * d) div 146097 in
     if d < day_from_year y then y - 1
     else if day_from_year (y + 1) \<le> d then y + 1 else y)"

text \<open>The first day within the year of a month, numbered from 0; \<open>l\<close> is 1 in a leap year.\<close>

definition month_start :: "int \<Rightarrow> int \<Rightarrow> int" where
  "month_start l m =
     (if m = 0 then 0 else if m = 1 then 31 else if m = 2 then 59 + l else if m = 3 then 90 + l
      else if m = 4 then 120 + l else if m = 5 then 151 + l else if m = 6 then 181 + l
      else if m = 7 then 212 + l else if m = 8 then 243 + l else if m = 9 then 273 + l
      else if m = 10 then 304 + l else if m = 11 then 334 + l else 365 + l)"

definition leap_day :: "int \<Rightarrow> int" where
  "leap_day y = (if leap_year y then 1 else 0)"

definition month_in_year :: "int \<Rightarrow> int \<Rightarrow> int" where
  "month_in_year l n =
     (if n < month_start l 1 then 0 else if n < month_start l 2 then 1
      else if n < month_start l 3 then 2 else if n < month_start l 4 then 3
      else if n < month_start l 5 then 4 else if n < month_start l 6 then 5
      else if n < month_start l 7 then 6 else if n < month_start l 8 then 7
      else if n < month_start l 9 then 8 else if n < month_start l 10 then 9
      else if n < month_start l 11 then 10 else 11)"

text \<open>Year, month (from 0) and date of a day number, as the getters return them.\<close>

definition civil :: "int \<Rightarrow> int \<times> int \<times> int" where
  "civil d = (let y = year_of_day d; l = leap_day y; n = d - day_from_year y; m = month_in_year l n
     in (y, m, n - month_start l m + 1))"

definition week_day :: "int \<Rightarrow> int" where
  "week_day d = (d + 4) mod 7"

text \<open>\<open>Date.UTC(year, month, date, \<dots>)\<close>, with the two-digit years of the language.\<close>

definition make_day :: "int \<Rightarrow> int \<Rightarrow> int \<Rightarrow> int" where
  "make_day y m dt = (let ym = y + m div 12; mn = m mod 12
     in day_from_year ym + month_start (leap_day ym) mn + dt - 1)"

definition date_utc :: "int \<Rightarrow> int \<Rightarrow> int \<Rightarrow> int \<Rightarrow> int \<Rightarrow> int \<Rightarrow> int" where
  "date_utc y m dt h mi s =
     make_day (if 0 \<le> y \<and> y \<le> 99 then 1900 + y else y) m dt * day_ms +
     h * 3600000 + mi * 60000 + s * 1000"

subsection \<open>Years\<close>

lemma div_step:
  fixes y :: int
  assumes "0 < k"
  shows "(y - k * c) div k = (y - 1 - k * c) div k + (if y mod k = 0 then 1 else 0)"
proof -
  have s: "(x - k * c) div k = x div k - c" for x
    using assms by (metis add_diff_cancel_left' diff_add_cancel div_mult_self2 less_irrefl)
  let ?q = "y div k" and ?r = "y mod k"
  have y: "y = k * ?q + ?r" "0 \<le> ?r" "?r < k" using assms by simp_all
  have "(y - 1) div k = ?q - (if ?r = 0 then 1 else 0)"
  proof (cases "?r = 0")
    case True
    have "(y - 1) div k = ?q - 1"
      by (rule int_div_pos_eq [of "y - 1" k "?q - 1" "k - 1"])
        (use y assms True in \<open>simp_all add: algebra_simps\<close>)
    with True show ?thesis by simp
  next
    case False
    then have "0 \<le> ?r - 1" using y by linarith
    with y have "(y - 1) div k = ?q"
      by (intro int_div_pos_eq [of "y - 1" k "?q" "?r - 1"]) linarith+
    with False show ?thesis by simp
  qed
  then show ?thesis by (simp add: s)
qed

lemma day_from_year_step: "day_from_year (y + 1) = day_from_year y + 365 + leap_day y"
proof -
  let ?i = "\<lambda>k. if y mod k = 0 then 1 else 0 :: int"
  have e: "(y + 1 - 1969) div 4 = (y - 1969) div 4 + ?i 4"
    "(y + 1 - 1901) div 100 = (y - 1901) div 100 + ?i 100"
    "(y + 1 - 1601) div 400 = (y - 1601) div 400 + ?i 400"
  proof -
    have "(y + 1 - 1969) = y - 4 * 492" "y - 1969 = y - 1 - 4 * 492"
      "(y + 1 - 1901) = y - 100 * 19" "y - 1901 = y - 1 - 100 * 19"
      "(y + 1 - 1601) = y - 400 * 4" "y - 1601 = y - 1 - 400 * 4" by simp_all
    note eqs = this
    show "(y + 1 - 1969) div 4 = (y - 1969) div 4 + ?i 4"
      "(y + 1 - 1901) div 100 = (y - 1901) div 100 + ?i 100"
      "(y + 1 - 1601) div 400 = (y - 1601) div 400 + ?i 400"
      unfolding eqs by (rule div_step; rule zero_less_numeral)+
  qed
  have "day_from_year (y + 1) = day_from_year y + 365 + ?i 4 - ?i 100 + ?i 400"
    unfolding day_from_year_def e by (simp only: algebra_simps)
  moreover have "y mod 100 = 0 \<longrightarrow> y mod 4 = 0" "y mod 400 = 0 \<longrightarrow> y mod 100 = 0"
    using dvd_trans [of 4 100 y] dvd_trans [of 100 400 y] by (simp_all add: mod_eq_0_iff_dvd)
  ultimately show ?thesis
    by (simp add: leap_day_def leap_year_def)
qed

lemma leap_day_range: "0 \<le> leap_day y" "leap_day y \<le> 1"
  by (simp_all add: leap_day_def)

lemma div_bounds:
  fixes x :: int
  assumes "0 < k"
  shows "k * (x div k) \<le> x" and "x < k * (x div k) + k"
proof -
  have "x = k * (x div k) + x mod k" by simp
  with pos_mod_sign [OF assms, of x] pos_mod_bound [OF assms, of x]
  show "k * (x div k) \<le> x" and "x < k * (x div k) + k" by linarith+
qed

lemma day_from_year_bounds:
  "146097 * (y - 1970) - 1000 \<le> 400 * day_from_year y"
  "400 * day_from_year y \<le> 146097 * (y - 1970) + 1000"
proof -
  have arith: "146097 * (y - 1970) - 1000 \<le> 400 * (365 * (y - 1970) + a - b + c) \<and>
      400 * (365 * (y - 1970) + a - b + c) \<le> 146097 * (y - 1970) + 1000"
    if "4 * a \<le> y - 1969" "y - 1969 < 4 * a + 4" "100 * b \<le> y - 1901" "y - 1901 < 100 * b + 100"
      "400 * c \<le> y - 1601" "y - 1601 < 400 * c + 400" for a b c
    using that by (simp add: algebra_simps)
  show "146097 * (y - 1970) - 1000 \<le> 400 * day_from_year y"
    "400 * day_from_year y \<le> 146097 * (y - 1970) + 1000"
    unfolding day_from_year_def
    by (rule arith [THEN conjunct1] arith [THEN conjunct2]; rule div_bounds; simp)+
qed

lemma year_of_day: "day_from_year (year_of_day d) \<le> d \<and> d < day_from_year (year_of_day d + 1)"
proof -
  define y where "y = 1970 + (400 * d) div 146097"
  have arith: "C \<le> d \<and> d < B"
    if "146097 * q \<le> 400 * d" "400 * d < 146097 * q + 146097" "400 * A \<le> 146097 * q + 1000"
      "146097 * (q + 2) - 1000 \<le> 400 * B" "A = C + 365 + l" "0 \<le> l" for q A B C l
    using that by (simp add: algebra_simps)
  have "146097 * (y - 1970) \<le> 400 * d" "400 * d < 146097 * (y - 1970) + 146097"
    using div_bounds [of 146097 "400 * d"] by (simp_all add: y_def)
  moreover have "400 * day_from_year y \<le> 146097 * (y - 1970) + 1000"
    by (rule day_from_year_bounds)
  moreover have "146097 * (y - 1970 + 2) - 1000 \<le> 400 * day_from_year (y + 2)"
    using day_from_year_bounds(1) [of "y + 2"] by (simp add: algebra_simps)
  moreover have "day_from_year y = day_from_year (y - 1) + 365 + leap_day (y - 1)"
    using day_from_year_step [of "y - 1"] by simp
  ultimately have "day_from_year (y - 1) \<le> d \<and> d < day_from_year (y + 2)"
    by (rule arith) (rule leap_day_range)
  then show ?thesis by (simp add: year_of_day_def Let_def y_def [symmetric] add.assoc)
qed

lemma day_from_year_mono: "y \<le> z \<Longrightarrow> day_from_year y + 365 * (z - y) \<le> day_from_year z"
proof (induction z rule: int_ge_induct)
  case (step z)
  then show ?case using day_from_year_step [of z] leap_day_range [of z] by (simp add: algebra_simps)
qed simp

lemma year_of_day_unique:
  assumes "day_from_year y \<le> d" and "d < day_from_year (y + 1)"
  shows "year_of_day d = y"
proof (rule ccontr)
  assume "year_of_day d \<noteq> y"
  then consider "year_of_day d + 1 \<le> y" | "y + 1 \<le> year_of_day d" by linarith
  then show False
    using year_of_day [of d] assms by cases (use day_from_year_mono in fastforce)+
qed

subsection \<open>Months\<close>

lemma month_cases:
  fixes m :: int
  assumes "0 \<le> m" and "m \<le> 11"
  shows "m \<in> {0, 1, 2, 3, 4, 5, 6, 7, 8, 9, 10, 11}"
proof -
  have "m \<in> {0..11}" using assms by simp
  then show ?thesis by (simp add: simp_from_to)
qed

lemma leap_day_cases: "leap_day y \<in> {0, 1}"
  by (simp add: leap_day_def)

lemma month_in_year:
  assumes "0 \<le> n" and "n < 365 + l" and "0 \<le> l" and "l \<le> 1"
  shows "0 \<le> month_in_year l n \<and> month_in_year l n \<le> 11 \<and>
    month_start l (month_in_year l n) \<le> n \<and> n < month_start l (month_in_year l n + 1)"
  using assms by (auto simp: month_in_year_def month_start_def)

lemma civil_make_day:
  assumes "civil d = (y, m, dt)"
  shows "make_day y m dt = d" and "0 \<le> m" and "m \<le> 11" and "1 \<le> dt" and "dt \<le> 31"
proof -
  let ?y = "year_of_day d" and ?n = "d - day_from_year (year_of_day d)"
  have n: "0 \<le> ?n" "?n < 365 + leap_day ?y"
    using year_of_day [of d] day_from_year_step [of ?y] by auto
  note mi = month_in_year [OF n] leap_day_range [of ?y]
  have c: "y = ?y" "m = month_in_year (leap_day y) ?n" "dt = ?n - month_start (leap_day y) m + 1"
    using assms by (auto simp: civil_def Let_def)
  show m: "0 \<le> m" "m \<le> 11" using mi c by auto
  then show "make_day y m dt = d" using c by (simp add: make_day_def Let_def)
  show "1 \<le> dt" using mi c by auto
  have "month_start (leap_day y) (m + 1) - month_start (leap_day y) m \<le> 31"
    using month_cases [OF m] leap_day_cases [of y] by (auto simp: month_start_def)
  then show "dt \<le> 31" using mi c by auto
qed

lemma civil_inj: "civil d = civil e \<Longrightarrow> d = e"
  using civil_make_day(1) by (metis prod_cases3)

text \<open>A date of a month is the civil date of its day.\<close>

definition month_length :: "int \<Rightarrow> int \<Rightarrow> int" where
  "month_length y m = month_start (leap_day y) (m + 1) - month_start (leap_day y) m"

lemma civil_of_date:
  assumes "0 \<le> m" and "m \<le> 11" and "1 \<le> dt" and "dt \<le> month_length y m"
  shows "civil (make_day y m dt) = (y, m, dt)"
proof -
  let ?l = "leap_day y" and ?d = "make_day y m dt"
  have l: "?l = 0 \<or> ?l = 1" by (simp add: leap_day_def)
  have d: "?d = day_from_year y + (month_start ?l m + dt - 1)"
    using assms by (simp add: make_day_def Let_def)
  have n: "0 \<le> month_start ?l m + dt - 1" "month_start ?l m + dt - 1 < 365 + ?l"
    using assms(3,4) month_cases [OF assms(1,2)] l by (auto simp: month_length_def month_start_def)
  have y: "year_of_day ?d = y"
    by (rule year_of_day_unique) (use n day_from_year_step [of y] d in auto)
  have "month_in_year ?l (month_start ?l m + dt - 1) = m"
    using assms(3,4) month_cases [OF assms(1,2)] l
    by (elim insertE emptyE disjE) (simp_all add: month_in_year_def month_length_def month_start_def)
  then show ?thesis by (simp only: civil_def Let_def y) (simp add: d)
qed

lemma month_length_28: "0 \<le> m \<Longrightarrow> m \<le> 11 \<Longrightarrow> 28 \<le> month_length y m"
  using month_cases [of m] leap_day_cases [of y] by (auto simp: month_length_def month_start_def)

end
