(* ===== verification/Cron.thy ===== *)
theory Cron
  imports Calendar
begin

section \<open>Cron expressions and the next instant\<close>

text \<open>
  \<open>packages/jobs/src/schedule/cron.ts\<close>: the parser of five- and six-field expressions and the
  search for the next instant of a plan in a time zone. Instants are integral milliseconds. The
  \<open>Intl.DateTimeFormat\<close> of the zone is a parameter: the function from an instant to the local
  fields it prints, and the table of known zones is a partial map to such functions.
\<close>

definition SECOND_MS :: int where "SECOND_MS = 1000"
definition HOUR_MS :: int where "HOUR_MS = 3600000"
definition DAY_MS :: int where "DAY_MS = 86400000"
definition MAX_SEARCH_DAYS :: nat where "MAX_SEARCH_DAYS = 2928"

definition MONTH_NAMES :: "(string \<times> nat) list" where
  "MONTH_NAMES = [(''JAN'', 1), (''FEB'', 2), (''MAR'', 3), (''APR'', 4), (''MAY'', 5), (''JUN'', 6),
     (''JUL'', 7), (''AUG'', 8), (''SEP'', 9), (''OCT'', 10), (''NOV'', 11), (''DEC'', 12)]"

definition WEEKDAY_NAMES :: "(string \<times> nat) list" where
  "WEEKDAY_NAMES = [(''SUN'', 0), (''MON'', 1), (''TUE'', 2), (''WED'', 3), (''THU'', 4),
     (''FRI'', 5), (''SAT'', 6)]"

definition NICKNAMES :: "(string \<times> string) list" where
  "NICKNAMES = [(''@yearly'', ''0 0 1 1 *''), (''@annually'', ''0 0 1 1 *''),
     (''@monthly'', ''0 0 1 * *''), (''@weekly'', ''0 0 * * 0''), (''@daily'', ''0 0 * * *''),
     (''@midnight'', ''0 0 * * *''), (''@hourly'', ''0 * * * *'')]"

datatype field_kind = Second | Minute | Hour | DayOfMonth | Month | DayOfWeek

fun kind_name :: "field_kind \<Rightarrow> string" where
  "kind_name Second = ''second''"
| "kind_name Minute = ''minute''"
| "kind_name Hour = ''hour''"
| "kind_name DayOfMonth = ''day-of-month''"
| "kind_name Month = ''month''"
| "kind_name DayOfWeek = ''day-of-week''"

record field_spec =
  fs_kind :: field_kind
  fs_minimum :: nat
  fs_maximum :: nat
  fs_names :: "(string \<times> nat) list"

record parsed_field =
  pf_values :: "nat list"
  pf_wildcard :: bool

record parsed_expression =
  seconds :: parsed_field
  minutes :: parsed_field
  hours :: parsed_field
  daysOfMonth :: parsed_field
  months :: parsed_field
  daysOfWeek :: parsed_field

definition SECOND_FIELD :: field_spec where
  "SECOND_FIELD = \<lparr>fs_kind = Second, fs_minimum = 0, fs_maximum = 59, fs_names = []\<rparr>"

definition MINUTE_FIELD :: field_spec where
  "MINUTE_FIELD = \<lparr>fs_kind = Minute, fs_minimum = 0, fs_maximum = 59, fs_names = []\<rparr>"

definition HOUR_FIELD :: field_spec where
  "HOUR_FIELD = \<lparr>fs_kind = Hour, fs_minimum = 0, fs_maximum = 23, fs_names = []\<rparr>"

definition DAY_OF_MONTH :: field_spec where
  "DAY_OF_MONTH = \<lparr>fs_kind = DayOfMonth, fs_minimum = 1, fs_maximum = 31, fs_names = []\<rparr>"

definition MONTH_FIELD :: field_spec where
  "MONTH_FIELD = \<lparr>fs_kind = Month, fs_minimum = 1, fs_maximum = 12, fs_names = MONTH_NAMES\<rparr>"

definition DAY_OF_WEEK :: field_spec where
  "DAY_OF_WEEK = \<lparr>fs_kind = DayOfWeek, fs_minimum = 0, fs_maximum = 7, fs_names = WEEKDAY_NAMES\<rparr>"

subsection \<open>Parsing\<close>

abbreviation qm :: string where
  "qm \<equiv> [CHR 0x22]"

definition cronError :: "string \<Rightarrow> string \<Rightarrow> string \<Rightarrow> string \<Rightarrow> js_error" where
  "cronError taskName field source detail = RangeError
     (''@zmdb/jobs: schedule '' @ qm @ taskName @ qm @ '' has invalid '' @ field @ '' '' @ qm @ source @
      qm @ '': '' @ detail)"

definition parseInteger :: "string \<Rightarrow> field_spec \<Rightarrow> string \<Rightarrow> string \<Rightarrow> js_error + nat" where
  "parseInteger source spec taskName field =
     (if source = [] \<or> \<not> list_all is_digit source
      then Inl (cronError taskName (kind_name (fs_kind spec)) field
        (qm @ source @ qm @ '' is not a number or known name''))
      else Inr (parse_digits source))"

definition parseValue :: "string \<Rightarrow> field_spec \<Rightarrow> string \<Rightarrow> string \<Rightarrow> js_error + nat" where
  "parseValue source spec taskName field =
     rbind (case map_of (fs_names spec) (to_upper source) of
         Some v \<Rightarrow> Inr v | None \<Rightarrow> parseInteger source spec taskName field) (\<lambda>value.
     if value < fs_minimum spec \<or> value > fs_maximum spec
     then Inl (cronError taskName (kind_name (fs_kind spec)) field
       (''value '' @ show_nat value @ '' is outside '' @ show_nat (fs_minimum spec) @ ''-'' @
        show_nat (fs_maximum spec)))
     else Inr value)"

text \<open>\<open>for (value = first; value <= last; value += step)\<close>, from a positive step.\<close>

function range_values :: "nat \<Rightarrow> nat \<Rightarrow> nat \<Rightarrow> nat list" where
  "range_values lo hi step =
     (if lo \<le> hi \<and> 0 < step then lo # range_values (lo + step) hi step else [])"
  by pat_completeness auto
termination
  by (relation "measure (\<lambda>(lo, hi, step). Suc hi - lo)") auto

declare range_values.simps [simp del]

definition segmentRange ::
  "string \<Rightarrow> bool \<Rightarrow> field_spec \<Rightarrow> string \<Rightarrow> string \<Rightarrow> js_error + (nat \<times> nat)" where
  "segmentRange base stepped spec taskName source =
     (let err = (\<lambda>detail. cronError taskName (kind_name (fs_kind spec)) source detail) in
      if base = ''*'' then Inr (fs_minimum spec, fs_maximum spec)
      else let range = split_on CHR ''-'' base in
        if length range > 2 then Inl (err ''too many range separators'')
        else if hd range = [] then Inl (err ''missing range start'')
        else rbind (parseValue (hd range) spec taskName source) (\<lambda>lo.
             rbind (case tl range of [] \<Rightarrow> Inr lo
                | e # _ \<Rightarrow> parseValue e spec taskName source) (\<lambda>hi.
             if stepped \<and> tl range = []
             then Inl (err ''a stepped value must use * or a range'')
             else if hi < lo then Inl (err ''range end precedes its start'')
             else Inr (lo, hi))))"

definition segmentValues :: "field_spec \<Rightarrow> string \<Rightarrow> string \<Rightarrow> string \<Rightarrow> js_error + nat list" where
  "segmentValues spec taskName source segment =
     (let err = (\<lambda>detail. cronError taskName (kind_name (fs_kind spec)) source detail);
          stepParts = split_on CHR ''/'' segment; base = hd stepParts
      in if segment = [] then Inl (err ''empty list item'')
         else if length stepParts > 2 then Inl (err ''too many step separators'')
         else if base = [] then Inl (err ''missing range before step'')
         else rbind (case tl stepParts of [] \<Rightarrow> Inr 1
              | s # _ \<Rightarrow> parseInteger s spec taskName source) (\<lambda>step.
           if step = 0 then Inl (err ''step must be a positive integer'')
           else rbind (segmentRange base (tl stepParts \<noteq> []) spec taskName source) (\<lambda>(lo, hi).
             Inr (map (\<lambda>v. if fs_kind spec = DayOfWeek \<and> v = 7 then 0 else v)
               (range_values lo hi step)))))"

definition quartz_char :: "char \<Rightarrow> bool" where
  "quartz_char c \<longleftrightarrow> c \<in> set ''LlWw#?''"

definition parseField :: "string \<Rightarrow> field_spec \<Rightarrow> string \<Rightarrow> js_error + parsed_field" where
  "parseField source spec taskName =
     (let err = (\<lambda>detail. cronError taskName (kind_name (fs_kind spec)) source detail) in
      if list_ex quartz_char source then Inl (err ''Quartz extensions are not supported'')
      else rbind (map_result (segmentValues spec taskName source) (split_on CHR '','' source)) (\<lambda>vss.
        let ordered = sorted_list_of_set (set (concat vss)) in
        if ordered = [] then Inl (err ''field selects no values'')
        else Inr \<lparr>pf_values = ordered, pf_wildcard = (source = ''*'')\<rparr>))"

definition expandExpression :: "string \<Rightarrow> string \<Rightarrow> js_error + string" where
  "expandExpression expression taskName =
     (let source = trim expression in
      if source = ''@reboot''
      then Inl (cronError taskName ''expression'' expression ''@reboot is not an instant'')
      else if prefix ''@'' source
      then (case map_of NICKNAMES (to_lower source) of
          Some e \<Rightarrow> Inr e
        | None \<Rightarrow> Inl (cronError taskName ''expression'' expression ''unknown cron nickname''))
      else Inr source)"

definition parseExpression :: "string \<Rightarrow> string \<Rightarrow> js_error + parsed_expression" where
  "parseExpression expression taskName =
     rbind (expandExpression expression taskName) (\<lambda>expanded.
     let fields = words_of expanded in
     case (if length fields = 5 then ''0'' # fields else fields) of
       [f0, f1, f2, f3, f4, f5] \<Rightarrow>
         rbind (parseField f0 SECOND_FIELD taskName) (\<lambda>s.
         rbind (parseField f1 MINUTE_FIELD taskName) (\<lambda>m.
         rbind (parseField f2 HOUR_FIELD taskName) (\<lambda>h.
         rbind (parseField f3 DAY_OF_MONTH taskName) (\<lambda>d.
         rbind (parseField f4 MONTH_FIELD taskName) (\<lambda>n.
         rbind (parseField f5 DAY_OF_WEEK taskName) (\<lambda>w.
         Inr \<lparr>seconds = s, minutes = m, hours = h, daysOfMonth = d, months = n,
              daysOfWeek = w\<rparr>))))))
     | _ \<Rightarrow> Inl (cronError taskName ''expression'' expression
         ''expected five fields or six with leading seconds''))"

subsection \<open>Local time\<close>

record local_parts =
  lp_year :: int
  lp_month :: int
  lp_day :: int
  lp_hour :: int
  lp_minute :: int
  lp_second :: int

record local_date =
  ld_year :: int
  ld_month :: int
  ld_day :: int

type_synonym formatter = "int \<Rightarrow> local_parts"

definition createFormatter ::
  "(string \<Rightarrow> formatter option) \<Rightarrow> string \<Rightarrow> string \<Rightarrow> js_error + formatter" where
  "createFormatter zones timeZone taskName = (case zones timeZone of
     Some f \<Rightarrow> Inr f
   | None \<Rightarrow> Inl (RangeError (''@zmdb/jobs: schedule '' @ qm @ taskName @ qm @
       '' has unknown time zone '' @ qm @ timeZone @ qm)))"

definition wallEpoch :: "local_parts \<Rightarrow> int" where
  "wallEpoch p = date_utc (lp_year p) (lp_month p - 1) (lp_day p) (lp_hour p) (lp_minute p) (lp_second p)"

definition offsetAt :: "formatter \<Rightarrow> int \<Rightarrow> int" where
  "offsetAt f instant = (let rounded = instant div SECOND_MS * SECOND_MS
     in wallEpoch (f rounded) - rounded)"

definition offsetsNear :: "formatter \<Rightarrow> int \<Rightarrow> int list" where
  "offsetsNear f wall = remdups (map (\<lambda>k. offsetAt f (wall + (6 * int k - 36) * HOUR_MS)) [0..<13])"

definition desired_parts :: "local_date \<Rightarrow> int \<Rightarrow> local_parts" where
  "desired_parts date secondOfDay = \<lparr>lp_year = ld_year date, lp_month = ld_month date,
     lp_day = ld_day date, lp_hour = secondOfDay div 3600,
     lp_minute = secondOfDay mod 3600 div 60, lp_second = secondOfDay mod 60\<rparr>"

fun min_list1 :: "int \<Rightarrow> int list \<Rightarrow> int" where
  "min_list1 m [] = m"
| "min_list1 m (x # xs) = min_list1 (min m x) xs"

definition list_min :: "int list \<Rightarrow> int" where
  "list_min xs = min_list1 (hd xs) (tl xs)"

definition resolveWallTime :: "formatter \<Rightarrow> local_date \<Rightarrow> int \<Rightarrow> int" where
  "resolveWallTime f date secondOfDay =
     (let desired = desired_parts date secondOfDay;
          wall = wallEpoch desired; offsets = offsetsNear f wall;
          exact = filter (\<lambda>c. f c = desired) (map (\<lambda>off. wall - off) offsets)
      in if exact \<noteq> [] then list_min exact else wall - list_min offsets)"

subsection \<open>Offset transitions\<close>

fun bisect :: "nat \<Rightarrow> formatter \<Rightarrow> int \<Rightarrow> int \<Rightarrow> int \<Rightarrow> int" where
  "bisect 0 f left right previousOffset = right"
| "bisect (Suc fuel) f left right previousOffset =
     (if right - left > SECOND_MS
      then let middle = (left + right) div (2 * SECOND_MS) * SECOND_MS in
        if offsetAt f middle = previousOffset then bisect fuel f middle right previousOffset
        else bisect fuel f left middle previousOffset
      else right)"

definition firstOffsetChange :: "formatter \<Rightarrow> int \<Rightarrow> int \<Rightarrow> int \<Rightarrow> int" where
  "firstOffsetChange f lower upper previousOffset =
     bisect (nat (upper - lower)) f lower upper previousOffset"

definition gapOf :: "formatter \<Rightarrow> int \<Rightarrow> int \<Rightarrow> int \<Rightarrow> (int \<times> int) list" where
  "gapOf f dayStart transition previousOffset =
     (if offsetAt f transition > previousOffset
      then let gapStart = wallEpoch (f (transition - SECOND_MS)) + SECOND_MS;
               gapEnd = wallEpoch (f transition);
               from = max dayStart gapStart; upto = min (dayStart + DAY_MS) gapEnd
        in if from < upto
           then [((from - dayStart) div SECOND_MS, (upto - dayStart) div SECOND_MS)] else []
      else [])"

text \<open>The hourly scan: the previous instant, the previous offset and the ranges found.\<close>

definition scan_hour ::
  "formatter \<Rightarrow> int \<Rightarrow> int \<times> int \<times> (int \<times> int) list \<Rightarrow> int \<Rightarrow>
     int \<times> int \<times> (int \<times> int) list" where
  "scan_hour f dayStart st instant = (case st of (previousInstant, previousOffset, ranges) \<Rightarrow>
     (let currentOffset = offsetAt f instant in
      if currentOffset \<noteq> previousOffset
      then let transition = firstOffsetChange f previousInstant instant previousOffset
        in (instant, currentOffset, ranges @ gapOf f dayStart transition previousOffset)
      else (instant, previousOffset, ranges)))"

definition gapRanges :: "formatter \<Rightarrow> local_date \<Rightarrow> (int \<times> int) list" where
  "gapRanges f date =
     (let dayStart = date_utc (ld_year date) (ld_month date - 1) (ld_day date) 0 0 0;
          scanStart = dayStart - 36 * HOUR_MS
      in snd (snd (foldl (scan_hour f dayStart) (scanStart, offsetAt f scanStart, [])
           (map (\<lambda>k. scanStart + int k * HOUR_MS) [1..<97]))))"

subsection \<open>The search\<close>

definition dateMatches :: "parsed_expression \<Rightarrow> local_date \<Rightarrow> bool" where
  "dateMatches e date =
     (if nat (ld_month date) \<notin> set (pf_values (months e)) then False
      else let dayOfMonth = nat (ld_day date) \<in> set (pf_values (daysOfMonth e));
               dayOfWeek = nat (week_day (date_utc (ld_year date) (ld_month date - 1) (ld_day date) 0 0 0
                 div DAY_MS)) \<in> set (pf_values (daysOfWeek e))
        in if pf_wildcard (daysOfMonth e) \<and> pf_wildcard (daysOfWeek e) then True
           else if pf_wildcard (daysOfMonth e) then dayOfWeek
           else if pf_wildcard (daysOfWeek e) then dayOfMonth
           else dayOfMonth \<or> dayOfWeek)"

definition day_times :: "parsed_expression \<Rightarrow> int list" where
  "day_times e = concat (map (\<lambda>h. concat (map (\<lambda>m. map (\<lambda>s. int h * 3600 + int m * 60 + int s)
     (pf_values (seconds e))) (pf_values (minutes e)))) (pf_values (hours e)))"

definition firstAllowedTimeAfter :: "parsed_expression \<Rightarrow> int \<Rightarrow> int option" where
  "firstAllowedTimeAfter e threshold = find (\<lambda>c. c > threshold) (day_times e)"

fun day_loop :: "nat \<Rightarrow> parsed_expression \<Rightarrow> formatter \<Rightarrow> local_date \<Rightarrow> int \<Rightarrow> int \<Rightarrow> int option" where
  "day_loop 0 e f date cursor after = None"
| "day_loop (Suc attempts) e f date cursor after =
     (case firstAllowedTimeAfter e cursor of
        None \<Rightarrow> None
      | Some t \<Rightarrow> let candidate = resolveWallTime f date t in
          if candidate > after then Some candidate else day_loop attempts e f date t after)"

fun gap_loop ::
  "nat \<Rightarrow> parsed_expression \<Rightarrow> formatter \<Rightarrow> local_date \<Rightarrow> int \<Rightarrow> int \<Rightarrow> int \<Rightarrow> int option" where
  "gap_loop 0 e f date cursor endSecond after = None"
| "gap_loop (Suc attempts) e f date cursor endSecond after =
     (case firstAllowedTimeAfter e cursor of
        None \<Rightarrow> None
      | Some t \<Rightarrow>
          if t \<ge> endSecond then None
          else let candidate = resolveWallTime f date t in
            if candidate > after then Some candidate else gap_loop attempts e f date t endSecond after)"

definition better :: "int option \<Rightarrow> int option \<Rightarrow> int option" where
  "better best found = (case found of None \<Rightarrow> best
     | Some c \<Rightarrow> (case best of None \<Rightarrow> Some c | Some b \<Rightarrow> Some (min b c)))"

definition MAX_ATTEMPTS :: nat where
  "MAX_ATTEMPTS = 86400"

definition candidateOnDate ::
  "parsed_expression \<Rightarrow> formatter \<Rightarrow> local_date \<Rightarrow> int \<Rightarrow> int \<Rightarrow> int option" where
  "candidateOnDate e f date threshold after =
     foldl (\<lambda>best (startSecond, endSecond).
         better best (gap_loop MAX_ATTEMPTS e f date (startSecond - 1) endSecond after))
       (day_loop MAX_ATTEMPTS e f date threshold after) (gapRanges f date)"

definition date_of_day :: "int \<Rightarrow> local_date" where
  "date_of_day d = (case civil d of (y, m, dt) \<Rightarrow> \<lparr>ld_year = y, ld_month = m + 1, ld_day = dt\<rparr>)"

definition candidateAt :: "parsed_expression \<Rightarrow> formatter \<Rightarrow> int \<Rightarrow> nat \<Rightarrow> int option" where
  "candidateAt e f instant offset =
     (let here = f instant;
          firstDay = date_utc (lp_year here) (lp_month here - 1) (lp_day here) 0 0 0;
          date = date_of_day ((firstDay + int offset * DAY_MS) div DAY_MS);
          threshold = (if offset = 0 then lp_hour here * 3600 + lp_minute here * 60 + lp_second here
                       else - 1)
      in if dateMatches e date then candidateOnDate e f date threshold instant else None)"

fun first_some :: "('a \<Rightarrow> 'b option) \<Rightarrow> 'a list \<Rightarrow> 'b option" where
  "first_some g [] = None"
| "first_some g (x # xs) = (case g x of Some y \<Rightarrow> Some y | None \<Rightarrow> first_some g xs)"

definition nextAfter :: "parsed_expression \<Rightarrow> formatter \<Rightarrow> string \<Rightarrow> int \<Rightarrow> js_error + int" where
  "nextAfter e f taskName instant =
     (case first_some (candidateAt e f instant) [0..<MAX_SEARCH_DAYS] of
        Some c \<Rightarrow> Inr c
      | None \<Rightarrow> Inl (RangeError (''@zmdb/jobs: schedule '' @ qm @ taskName @ qm @
          '' has no cron instant within '' @ show_nat MAX_SEARCH_DAYS @ '' days'')))"

definition nextAtOrAfter :: "parsed_expression \<Rightarrow> formatter \<Rightarrow> string \<Rightarrow> int \<Rightarrow> js_error + int" where
  "nextAtOrAfter e f taskName instant = nextAfter e f taskName (instant - 1)"

text \<open>A plan is the parsed expression with its formatter.\<close>

definition createCronPlan ::
  "(string \<Rightarrow> formatter option) \<Rightarrow> string \<Rightarrow> string \<Rightarrow> string \<Rightarrow>
     js_error + (parsed_expression \<times> formatter)" where
  "createCronPlan zones expression timeZone taskName =
     rbind (parseExpression expression taskName) (\<lambda>parsed.
     rbind (createFormatter zones timeZone taskName) (\<lambda>f. Inr (parsed, f)))"

end
