(* ===== verification/CronSpec.thy ===== *)
theory CronSpec
  imports Cron
begin

section \<open>What the parser accepts and what the search finds\<close>

text \<open>
  The parsed fields are strictly increasing lists inside the field's range; the times of a day are
  enumerated in order; the search returns an instant after the given one that is the resolution of
  a wall time the expression selects; and in a zone with a constant offset it returns the least
  instant whose local fields match, or reports that the next eight years hold none.
\<close>

subsection \<open>Parsed fields\<close>

lemma set_range_values:
  "0 < step \<Longrightarrow> set (range_values lo hi step) = {v. lo \<le> v \<and> v \<le> hi \<and> step dvd (v - lo)}"
proof (induction lo hi step rule: range_values.induct)
  case (1 lo hi step)
  show ?case
  proof (cases "lo \<le> hi")
    case True
    have forth: "v = lo \<or> lo + step \<le> v \<and> step dvd (v - (lo + step))"
      if "lo \<le> v" "step dvd (v - lo)" for v
    proof (cases "v = lo")
      case False
      with that have "step \<le> v - lo" by (intro dvd_imp_le) auto
      moreover have "v - (lo + step) = (v - lo) - step" by simp
      moreover have "lo + step \<le> v" using calculation(1) that by linarith
      ultimately show ?thesis using that dvd_diff_nat [of step "v - lo" step] by simp
    qed simp
    have backward: "lo \<le> v \<and> step dvd (v - lo)" if "lo + step \<le> v" "step dvd (v - (lo + step))" for v
    proof -
      have "v - lo = (v - (lo + step)) + step" using that by linarith
      with that show ?thesis by (metis dvd_add_triv_right_iff le_add1 le_trans)
    qed
    have rv: "range_values lo hi step = lo # range_values (lo + step) hi step"
      using 1(2) True by (subst range_values.simps) simp
    have IH: "set (range_values (lo + step) hi step) =
        {v. lo + step \<le> v \<and> v \<le> hi \<and> step dvd (v - (lo + step))}"
      by (rule 1(1)) (use 1(2) True in simp_all)
    have "v \<in> set (range_values lo hi step) \<longleftrightarrow> lo \<le> v \<and> v \<le> hi \<and> step dvd (v - lo)" for v
      unfolding rv list.set(2) IH using forth [of v] backward [of v] True by (simp, metis diff_self_eq_0 dvd_0_right order_refl)
    then show ?thesis by blast
  next
    case False
    then show ?thesis by (subst range_values.simps) auto
  qed
qed

definition field_maximum :: "field_spec \<Rightarrow> nat" where
  "field_maximum spec = (if fs_kind spec = DayOfWeek then 6 else fs_maximum spec)"

definition wf_spec :: "field_spec \<Rightarrow> bool" where
  "wf_spec spec \<longleftrightarrow> (if fs_kind spec = DayOfWeek then fs_minimum spec = 0 \<and> fs_maximum spec = 7
     else True)"

definition wf_field :: "field_spec \<Rightarrow> parsed_field \<Rightarrow> bool" where
  "wf_field spec f \<longleftrightarrow> pf_values f \<noteq> [] \<and> sorted_wrt (<) (pf_values f) \<and>
     (\<forall>v \<in> set (pf_values f). fs_minimum spec \<le> v \<and> v \<le> field_maximum spec)"

lemma parseValue_range:
  "parseValue s spec t f = Inr v \<Longrightarrow> fs_minimum spec \<le> v \<and> v \<le> fs_maximum spec"
  by (auto simp: parseValue_def result_simps split: if_splits)

lemma segmentRange_range:
  assumes "segmentRange base stepped spec t src = Inr (lo, hi)" and "fs_minimum spec \<le> fs_maximum spec"
  shows "fs_minimum spec \<le> lo \<and> hi \<le> fs_maximum spec"
  using assms
  by (auto simp: segmentRange_def Let_def result_simps split: if_splits list.splits
      dest!: parseValue_range)

lemma segmentValues_range:
  assumes "segmentValues spec t src seg = Inr vs" and "wf_spec spec"
    and "fs_minimum spec \<le> fs_maximum spec" and v: "v \<in> set vs"
  shows "fs_minimum spec \<le> v \<and> v \<le> field_maximum spec"
proof -
  obtain step lo hi b st where step: "0 < step" and r: "segmentRange b st spec t src = Inr (lo, hi)"
    and vs: "vs = map (\<lambda>v. if fs_kind spec = DayOfWeek \<and> v = 7 then 0 else v) (range_values lo hi step)"
    using assms(1) by (auto simp: segmentValues_def Let_def result_simps split: if_splits)
  have "fs_minimum spec \<le> lo \<and> hi \<le> fs_maximum spec" by (rule segmentRange_range [OF r assms(3)])
  then show ?thesis
    using v assms(2) step by (auto simp: vs set_range_values field_maximum_def wf_spec_def split: if_splits)
qed

lemma parseField_Inr:
  "parseField src spec t = Inr f \<longleftrightarrow> \<not> list_ex quartz_char src \<and>
     (\<exists>vss. list_all2 (\<lambda>seg vs. segmentValues spec t src seg = Inr vs) (split_on CHR '','' src) vss \<and>
        concat vss \<noteq> [] \<and>
        f = \<lparr>pf_values = sorted_list_of_set (set (concat vss)), pf_wildcard = (src = ''*'')\<rparr>)"
  by (auto simp: parseField_def Let_def result_simps map_result_Inr_list)

lemma parseField_wf:
  assumes "parseField src spec t = Inr f" and "wf_spec spec" and "fs_minimum spec \<le> fs_maximum spec"
  shows "wf_field spec f"
proof -
  obtain vss where vss: "list_all2 (\<lambda>seg vs. segmentValues spec t src seg = Inr vs) (split_on CHR '','' src) vss"
    and ne: "concat vss \<noteq> []" and f: "pf_values f = sorted_list_of_set (set (concat vss))"
    using assms(1) unfolding parseField_Inr by (elim conjE exE) (rule that; simp)
  have "fs_minimum spec \<le> v \<and> v \<le> field_maximum spec" if v: "v \<in> set (concat vss)" for v
  proof -
    obtain vs where "vs \<in> set vss" "v \<in> set vs" using v by auto
    then obtain i where "i < length vss" "v \<in> set (vss ! i)" by (metis in_set_conv_nth)
    then show ?thesis
      using vss segmentValues_range [OF _ assms(2,3)] by (auto simp: list_all2_conv_all_nth)
  qed
  moreover have "sorted_list_of_set (set (concat vss)) \<noteq> []"
    using ne by (metis List.finite_set set_empty2 set_sorted_list_of_set)
  ultimately show ?thesis unfolding wf_field_def f by auto
qed

text \<open>A field selects exactly the values of its segments.\<close>

lemma parseField_values:
  assumes "parseField src spec t = Inr f"
  shows "\<exists>vss. list_all2 (\<lambda>seg vs. segmentValues spec t src seg = Inr vs) (split_on CHR '','' src) vss \<and>
    set (pf_values f) = (\<Union>vs \<in> set vss. set vs) \<and> (pf_wildcard f \<longleftrightarrow> src = ''*'')"
  using assms unfolding parseField_Inr by auto

definition wf_expression :: "parsed_expression \<Rightarrow> bool" where
  "wf_expression e \<longleftrightarrow> wf_field SECOND_FIELD (seconds e) \<and> wf_field MINUTE_FIELD (minutes e) \<and>
     wf_field HOUR_FIELD (hours e) \<and> wf_field DAY_OF_MONTH (daysOfMonth e) \<and>
     wf_field MONTH_FIELD (months e) \<and> wf_field DAY_OF_WEEK (daysOfWeek e)"

lemmas field_defs = SECOND_FIELD_def MINUTE_FIELD_def HOUR_FIELD_def DAY_OF_MONTH_def MONTH_FIELD_def
  DAY_OF_WEEK_def

lemma parseExpression_fields:
  assumes "parseExpression src t = Inr e"
  shows "\<exists>f0 f1 f2 f3 f4 f5. parseField f0 SECOND_FIELD t = Inr (seconds e) \<and>
    parseField f1 MINUTE_FIELD t = Inr (minutes e) \<and> parseField f2 HOUR_FIELD t = Inr (hours e) \<and>
    parseField f3 DAY_OF_MONTH t = Inr (daysOfMonth e) \<and> parseField f4 MONTH_FIELD t = Inr (months e) \<and>
    parseField f5 DAY_OF_WEEK t = Inr (daysOfWeek e)"
proof -
  obtain ws where "(case ws of [f0, f1, f2, f3, f4, f5] \<Rightarrow>
         rbind (parseField f0 SECOND_FIELD t) (\<lambda>s.
         rbind (parseField f1 MINUTE_FIELD t) (\<lambda>m.
         rbind (parseField f2 HOUR_FIELD t) (\<lambda>h.
         rbind (parseField f3 DAY_OF_MONTH t) (\<lambda>d.
         rbind (parseField f4 MONTH_FIELD t) (\<lambda>n.
         rbind (parseField f5 DAY_OF_WEEK t) (\<lambda>w.
         Inr \<lparr>seconds = s, minutes = m, hours = h, daysOfMonth = d, months = n,
              daysOfWeek = w\<rparr>))))))
     | _ \<Rightarrow> Inl (cronError t ''expression'' src
         ''expected five fields or six with leading seconds'')) = Inr e"
    using assms unfolding parseExpression_def Let_def rbind_Inr_iff by blast
  then show ?thesis
    by (auto simp: result_simps split: list.split_asm)
qed

lemma parseExpression_wf: "parseExpression src t = Inr e \<Longrightarrow> wf_expression e"
  unfolding wf_expression_def
  by (drule parseExpression_fields)
    (auto intro!: parseField_wf simp: wf_spec_def field_defs)

subsection \<open>The times of a day\<close>

lemma sorted_concat:
  assumes "\<And>x. x \<in> set xs \<Longrightarrow> sorted_wrt (<) (g x)"
    and "\<And>x y a b. x \<in> set xs \<Longrightarrow> y \<in> set xs \<Longrightarrow> x < y \<Longrightarrow> a \<in> set (g x) \<Longrightarrow> b \<in> set (g y) \<Longrightarrow> a < (b :: int)"
    and "sorted_wrt (<) (xs :: nat list)"
  shows "sorted_wrt (<) (concat (map g xs))"
  using assms
proof (induction xs)
  case (Cons x xs)
  have "sorted_wrt (<) (concat (map g xs))"
  proof (rule Cons.IH)
    show "a < b" if "y \<in> set xs" "z \<in> set xs" "y < z" "a \<in> set (g y)" "b \<in> set (g z)" for y z a b
      using that by (intro Cons.prems(2) [of y z a b]) simp_all
  qed (use Cons.prems in auto)
  moreover have "a < b" if "a \<in> set (g x)" "y \<in> set xs" "b \<in> set (g y)" for a b y
    using that Cons.prems(2) [of x y a b] Cons.prems(3) by auto
  ultimately show ?case using Cons.prems by (auto simp: sorted_wrt_append)
qed simp

lemma day_times_sorted:
  assumes "wf_expression e"
  shows "sorted_wrt (<) (day_times e)"
proof -
  have b: "\<forall>s \<in> set (pf_values (seconds e)). s \<le> 59" "\<forall>m \<in> set (pf_values (minutes e)). m \<le> 59"
    and s: "sorted_wrt (<) (pf_values (seconds e))" "sorted_wrt (<) (pf_values (minutes e))"
      "sorted_wrt (<) (pf_values (hours e))"
    using assms by (auto simp: wf_expression_def wf_field_def field_maximum_def field_defs)
  have sec: "sorted_wrt (<) (map (\<lambda>s. int h * 3600 + int m * 60 + int s) (pf_values (seconds e)))" for h m
    using s(1) by (simp add: sorted_wrt_map)
  have min: "sorted_wrt (<) (concat (map (\<lambda>m. map (\<lambda>s. int h * 3600 + int m * 60 + int s)
     (pf_values (seconds e))) (pf_values (minutes e))))" for h
  proof (rule sorted_concat [OF sec _ s(2)])
    fix x y :: nat and a b
    assume "x < y" "a \<in> set (map (\<lambda>s. int h * 3600 + int x * 60 + int s) (pf_values (seconds e)))"
      "b \<in> set (map (\<lambda>s. int h * 3600 + int y * 60 + int s) (pf_values (seconds e)))"
    then show "a < b" using assms by (auto dest!: bspec [OF \<open>\<forall>s \<in> set (pf_values (seconds e)). s \<le> 59\<close>])
  qed
  show ?thesis
    unfolding day_times_def
  proof (rule sorted_concat [OF min _ s(3)])
    fix x y :: nat and a c
    assume xy: "x < y" and a: "a \<in> set (concat (map (\<lambda>m. map (\<lambda>s. int x * 3600 + int m * 60 + int s)
        (pf_values (seconds e))) (pf_values (minutes e))))"
      and c: "c \<in> set (concat (map (\<lambda>m. map (\<lambda>s. int y * 3600 + int m * 60 + int s)
        (pf_values (seconds e))) (pf_values (minutes e))))"
    have "a \<le> int x * 3600 + 59 * 60 + 59" using a b by fastforce
    moreover have "int y * 3600 \<le> c" using c by auto
    ultimately show "a < c" using xy by linarith
  qed
qed

lemma day_times_range:
  assumes "wf_expression e" and "t \<in> set (day_times e)"
  shows "0 \<le> t \<and> t < 86400"
proof -
  obtain h m s where t: "t = int h * 3600 + int m * 60 + int s"
    "h \<in> set (pf_values (hours e))" "m \<in> set (pf_values (minutes e))" "s \<in> set (pf_values (seconds e))"
    using assms(2) by (auto simp: day_times_def)
  then have "h \<le> 23" "m \<le> 59" "s \<le> 59"
    using assms(1) by (auto simp: wf_expression_def wf_field_def field_maximum_def field_defs)
  then show ?thesis unfolding t(1) by linarith
qed

lemma find_sorted:
  "sorted_wrt (<) xs \<Longrightarrow> find (\<lambda>c. c > (k :: int)) xs = Some t \<longleftrightarrow>
     t \<in> set xs \<and> k < t \<and> (\<forall>u \<in> set xs. k < u \<longrightarrow> t \<le> u)"
  by (induction xs) force+

lemma firstAllowed_least:
  assumes "wf_expression e"
  shows "firstAllowedTimeAfter e k = Some t \<longleftrightarrow>
    t \<in> set (day_times e) \<and> k < t \<and> (\<forall>u \<in> set (day_times e). k < u \<longrightarrow> t \<le> u)"
  unfolding firstAllowedTimeAfter_def by (rule find_sorted [OF day_times_sorted [OF assms]])

lemma firstAllowed_None:
  "firstAllowedTimeAfter e k = None \<longleftrightarrow> (\<forall>u \<in> set (day_times e). u \<le> k)"
  by (auto simp: firstAllowedTimeAfter_def find_None_iff)

subsection \<open>Soundness of the search in every zone\<close>

lemma min_list1: "min_list1 m xs \<in> set (m # xs) \<and> (\<forall>x \<in> set (m # xs). min_list1 m xs \<le> x)"
proof (induction xs arbitrary: m)
  case (Cons x xs)
  from Cons [of "min m x"] show ?case by (auto simp: min_def split: if_splits)
qed simp

lemma list_min: "xs \<noteq> [] \<Longrightarrow> list_min xs \<in> set xs \<and> (\<forall>x \<in> set xs. list_min xs \<le> x)"
  using min_list1 [of "hd xs" "tl xs"] by (cases xs) (auto simp: list_min_def)

text \<open>The wall time is the local time of the result, unless no near offset realises it.\<close>

lemma resolveWallTime_local:
  "f (resolveWallTime f date t) = desired_parts date t \<or>
     (\<forall>off \<in> set (offsetsNear f (wallEpoch (desired_parts date t))).
        f (wallEpoch (desired_parts date t) - off) \<noteq> desired_parts date t)"
proof -
  let ?w = "wallEpoch (desired_parts date t)"
  let ?ex = "filter (\<lambda>c. f c = desired_parts date t) (map (\<lambda>off. ?w - off) (offsetsNear f ?w))"
  show ?thesis
  proof (cases "?ex = []")
    case True
    then show ?thesis by (auto simp: filter_empty_conv)
  next
    case False
    then have "resolveWallTime f date t = list_min ?ex" by (simp add: resolveWallTime_def Let_def)
    with list_min [OF False] show ?thesis by auto
  qed
qed

lemma day_loop_sound:
  "day_loop n e f date cursor after = Some r \<Longrightarrow>
     after < r \<and> (\<exists>t \<in> set (day_times e). r = resolveWallTime f date t)"
proof (induction n arbitrary: cursor)
  case (Suc n)
  then obtain t where t: "firstAllowedTimeAfter e cursor = Some t"
    by (auto split: option.splits)
  then have "t \<in> set (day_times e)"
    by (auto simp: firstAllowedTimeAfter_def find_Some_iff)
  with t Suc.prems Suc.IH [of t] show ?case
    by (auto simp: Let_def split: if_splits)
qed simp

lemma gap_loop_sound:
  "gap_loop n e f date cursor stop after = Some r \<Longrightarrow>
     after < r \<and> (\<exists>t \<in> set (day_times e). r = resolveWallTime f date t)"
proof (induction n arbitrary: cursor)
  case (Suc n)
  then obtain t where t: "firstAllowedTimeAfter e cursor = Some t"
    by (auto split: option.splits)
  then have "t \<in> set (day_times e)"
    by (auto simp: firstAllowedTimeAfter_def find_Some_iff)
  with t Suc.prems Suc.IH [of t] show ?case
    by (auto simp: Let_def split: if_splits)
qed simp

definition found_after ::
  "parsed_expression \<Rightarrow> formatter \<Rightarrow> local_date \<Rightarrow> int \<Rightarrow> int option \<Rightarrow> bool" where
  "found_after e f date after b \<longleftrightarrow> (case b of None \<Rightarrow> True
     | Some r \<Rightarrow> after < r \<and> (\<exists>t \<in> set (day_times e). r = resolveWallTime f date t))"

lemma better_found:
  "found_after e f date after a \<Longrightarrow> found_after e f date after b \<Longrightarrow> found_after e f date after (better a b)"
  by (cases a; cases b) (auto simp: better_def found_after_def min_def)

lemma candidateOnDate_sound: "found_after e f date after (candidateOnDate e f date threshold after)"
proof -
  have "found_after e f date after (foldl (\<lambda>best (startSecond, endSecond).
      better best (gap_loop n e f date (startSecond - 1) endSecond after)) b gs)"
    if "found_after e f date after b" for b gs n
    using that
  proof (induction gs arbitrary: b)
    case (Cons g gs)
    obtain x y where g: "g = (x, y)" by force
    have "found_after e f date after (gap_loop n e f date (x - 1) y after)"
      using gap_loop_sound [of n e f date "x - 1" y after]
      by (auto simp: found_after_def split: option.splits)
    with Cons show ?case by (simp add: g better_found)
  qed simp
  moreover have "found_after e f date after (day_loop n e f date threshold after)" for n
    using day_loop_sound [of n e f date threshold after]
    by (auto simp: found_after_def split: option.splits)
  ultimately show ?thesis unfolding candidateOnDate_def by blast
qed

lemma first_some_upt:
  "first_some g [a..<b] = Some y \<Longrightarrow>
     \<exists>k. a \<le> k \<and> k < b \<and> g k = Some y \<and> (\<forall>j. a \<le> j \<and> j < k \<longrightarrow> g j = None)"
proof (induction "b - a" arbitrary: a)
  case (Suc n)
  then have ab: "a < b" by linarith
  show ?case
  proof (cases "g a")
    case None
    with Suc.prems ab have "first_some g [Suc a..<b] = Some y" by (simp add: upt_conv_Cons)
    moreover have "n = b - Suc a" using Suc.hyps(2) by linarith
    ultimately obtain k where "Suc a \<le> k" "k < b" "g k = Some y" "\<forall>j. Suc a \<le> j \<and> j < k \<longrightarrow> g j = None"
      using Suc.hyps(1) by blast
    with None show ?thesis by (metis Suc_leD Suc_leI le_neq_implies_less)
  next
    case (Some z)
    with Suc.prems ab show ?thesis by (intro exI [of _ a]) (auto simp: upt_conv_Cons)
  qed
qed simp

lemma first_some_None: "first_some g xs = None \<longleftrightarrow> (\<forall>x \<in> set xs. g x = None)"
  by (induction xs) (auto split: option.splits)

lemma nextAfter_sound:
  assumes "nextAfter e f taskName instant = Inr r"
  shows "instant < r \<and> (\<exists>d t. dateMatches e (date_of_day d) \<and> t \<in> set (day_times e) \<and>
    r = resolveWallTime f (date_of_day d) t)"
proof -
  have "first_some (candidateAt e f instant) [0..<MAX_SEARCH_DAYS] = Some r"
    using assms by (auto simp: nextAfter_def split: option.splits)
  from first_some_upt [OF this] obtain k where k: "candidateAt e f instant k = Some r" by auto
  obtain d threshold where "candidateAt e f instant k = (if dateMatches e (date_of_day d)
      then candidateOnDate e f (date_of_day d) threshold instant else None)"
    unfolding candidateAt_def Let_def by blast
  with k have d: "dateMatches e (date_of_day d)"
    and r: "candidateOnDate e f (date_of_day d) threshold instant = Some r"
    by (simp_all split: if_split_asm)
  have "found_after e f (date_of_day d) instant (Some r)"
    unfolding r [symmetric] by (rule candidateOnDate_sound)
  with d show ?thesis by (auto simp: found_after_def)
qed

subsection \<open>Zones with a constant offset\<close>

text \<open>The fields a zone prints at a wall clock reading of \<open>w\<close> milliseconds.\<close>

definition parts_of_wall :: "int \<Rightarrow> local_parts" where
  "parts_of_wall w = desired_parts (date_of_day (w div DAY_MS)) (w mod DAY_MS div SECOND_MS)"

definition zone_formatter :: "(int \<Rightarrow> int) \<Rightarrow> formatter" where
  "zone_formatter off instant = parts_of_wall (instant + off instant)"

lemma ms_defs: "DAY_MS = 86400000" "HOUR_MS = 3600000" "SECOND_MS = 1000" "day_ms = 86400000"
  by (simp_all add: DAY_MS_def HOUR_MS_def SECOND_MS_def day_ms_def)

lemma year_of_day_epoch:
  assumes "0 \<le> d"
  shows "1970 \<le> year_of_day d"
proof (rule ccontr)
  assume n: "\<not> 1970 \<le> year_of_day d"
  have "day_from_year (year_of_day d + 1) \<le> day_from_year 1970"
  proof -
    have "0 \<le> 365 * (1970 - (year_of_day d + 1))" using n by simp
    then show ?thesis using day_from_year_mono [of "year_of_day d + 1" 1970] n by linarith
  qed
  moreover have "day_from_year 1970 = 0" by (simp add: day_from_year_def)
  ultimately show False using year_of_day [of d] assms by linarith
qed

lemma date_utc_date_of_day:
  assumes "0 \<le> d"
  shows "date_utc (ld_year (date_of_day d)) (ld_month (date_of_day d) - 1) (ld_day (date_of_day d)) h m s =
    d * day_ms + h * 3600000 + m * 60000 + s * 1000"
proof -
  obtain y mo dt where c: "civil d = (y, mo, dt)" using prod_cases3 by blast
  then have "y = year_of_day d" by (simp add: civil_def Let_def)
  then have "(if 0 \<le> y \<and> y \<le> 99 then 1900 + y else y) = y"
    using year_of_day_epoch [OF assms] by simp
  then have "date_utc y mo dt h m s = d * day_ms + h * 3600000 + m * 60000 + s * 1000"
    by (simp only: date_utc_def civil_make_day(1) [OF c])
  then show ?thesis by (simp add: date_of_day_def c)
qed

lemma date_of_day_inj: "date_of_day d = date_of_day e \<Longrightarrow> d = e"
  by (rule civil_inj) (auto simp: date_of_day_def split: prod.splits)

lemma wallEpoch_desired:
  assumes "0 \<le> d"
  shows "wallEpoch (desired_parts (date_of_day d) t) = d * DAY_MS + t * SECOND_MS"
proof -
  have "t = t div 3600 * 3600 + t mod 3600 div 60 * 60 + t mod 60"
  proof -
    have "t mod 3600 mod 60 = t mod 60" by (simp add: mod_mod_cancel)
    then show ?thesis
      using div_mult_mod_eq [of t 3600] div_mult_mod_eq [of "t mod 3600" 60] by linarith
  qed
  then have "t * 1000 = t div 3600 * 3600000 + t mod 3600 div 60 * 60000 + t mod 60 * 1000"
    by (simp add: algebra_simps)
  then show ?thesis
    using date_utc_date_of_day [OF assms]
    by (simp add: wallEpoch_def desired_parts_def ms_defs)
qed

lemma parts_of_wall_desired:
  assumes "0 \<le> t" and "t < 86400"
  shows "parts_of_wall (d * DAY_MS + t * SECOND_MS) = desired_parts (date_of_day d) t"
proof -
  have "(d * DAY_MS + t * SECOND_MS) div DAY_MS = d" "(d * DAY_MS + t * SECOND_MS) mod DAY_MS = t * SECOND_MS"
    using assms by (simp_all add: ms_defs)
  then show ?thesis by (simp add: parts_of_wall_def ms_defs)
qed

lemma seconds_of_day:
  fixes t :: int
  shows "t div 3600 * 3600 + t mod 3600 div 60 * 60 + t mod 60 = t"
proof -
  have "t mod 3600 mod 60 = t mod 60" by (simp add: mod_mod_cancel)
  then show ?thesis
    using div_mult_mod_eq [of t 3600] div_mult_mod_eq [of "t mod 3600" 60] by linarith
qed

lemma wall_split:
  fixes w :: int
  shows "w = w div DAY_MS * DAY_MS + w mod DAY_MS" "0 \<le> w mod DAY_MS" "w mod DAY_MS < DAY_MS"
  by (simp_all add: ms_defs)

lemma wallEpoch_parts:
  assumes "0 \<le> w"
  shows "wallEpoch (parts_of_wall w) = w div SECOND_MS * SECOND_MS"
proof -
  have "w div SECOND_MS = w div DAY_MS * 86400 + w mod DAY_MS div SECOND_MS"
  proof -
    have w: "w = w mod DAY_MS + (w div DAY_MS * 86400) * SECOND_MS"
      using wall_split(1) [of w] by (simp add: ms_defs)
    have "(w mod DAY_MS + (w div DAY_MS * 86400) * SECOND_MS) div SECOND_MS =
        w div DAY_MS * 86400 + w mod DAY_MS div SECOND_MS"
      by (rule div_mult_self1) (simp add: ms_defs)
    with w show ?thesis by (simp only: flip: w)
  qed
  moreover have "0 \<le> w div DAY_MS" using assms by (simp add: ms_defs pos_imp_zdiv_nonneg_iff)
  ultimately show ?thesis
    unfolding parts_of_wall_def by (simp add: wallEpoch_desired ms_defs algebra_simps)
qed

abbreviation fixed_zone :: "int \<Rightarrow> formatter" where
  "fixed_zone c \<equiv> zone_formatter (\<lambda>_. c)"

lemma floor_seconds: "i - SECOND_MS < i div SECOND_MS * SECOND_MS \<and> i div SECOND_MS * SECOND_MS \<le> i"
proof -
  have "0 < SECOND_MS" by (simp add: ms_defs)
  from div_bounds [OF this, of i] show ?thesis
    by (simp only: mult.commute [of SECOND_MS] diff_less_eq)
qed

lemma offsetAt_fixed:
  assumes "c mod SECOND_MS = 0" and "SECOND_MS \<le> i + c"
  shows "offsetAt (fixed_zone c) i = c"
proof -
  let ?r = "i div SECOND_MS * SECOND_MS"
  have nonneg: "0 \<le> ?r + c" using floor_seconds [of i] assms(2) by linarith
  have "SECOND_MS dvd ?r + c" using assms(1) by (simp add: mod_eq_0_iff_dvd dvd_add)
  then have "(?r + c) div SECOND_MS * SECOND_MS = ?r + c" by (rule dvd_div_mult_self)
  with wallEpoch_parts [OF nonneg] show ?thesis by (simp add: offsetAt_def Let_def zone_formatter_def)
qed

text \<open>Days far enough from the epoch that the whole scan stays after it.\<close>

definition settled :: "int \<Rightarrow> int \<Rightarrow> bool" where
  "settled c d \<longleftrightarrow> c mod SECOND_MS = 0 \<and> \<bar>c\<bar> \<le> DAY_MS \<and> 4 \<le> d"

lemma settled_offset:
  assumes "settled c d" and "d * DAY_MS - 36 * HOUR_MS \<le> i"
  shows "offsetAt (fixed_zone c) i = c"
proof (rule offsetAt_fixed)
  have "- 86400000 \<le> c" "4 \<le> d" "d * 86400000 - 129600000 \<le> i" and c: "c mod SECOND_MS = 0"
    using assms by (simp_all add: settled_def ms_defs abs_le_iff)
  then show "SECOND_MS \<le> i + c" unfolding ms_defs by linarith
  show "c mod SECOND_MS = 0" by (rule c)
qed

lemma remdups_replicate: "0 < n \<Longrightarrow> remdups (replicate n c) = [c]"
proof (induction n)
  case (Suc n)
  then show ?case by (cases "n = 0") auto
qed simp

lemma resolve_fixed:
  assumes "settled c d" and "0 \<le> t" and "t < 86400"
  shows "resolveWallTime (fixed_zone c) (date_of_day d) t = d * DAY_MS + t * SECOND_MS - c"
proof -
  let ?w = "d * DAY_MS + t * SECOND_MS"
  have d: "0 \<le> d" using assms by (simp add: settled_def)
  have w: "wallEpoch (desired_parts (date_of_day d) t) = ?w" by (rule wallEpoch_desired [OF d])
  have "d * DAY_MS - 36 * HOUR_MS \<le> ?w + (6 * int k - 36) * HOUR_MS" for k
    using assms(2) by (simp add: ms_defs)
  then have "map (\<lambda>k. offsetAt (fixed_zone c) (?w + (6 * int k - 36) * HOUR_MS)) [0..<13] = replicate 13 c"
    using settled_offset [OF assms(1)] by (intro replicate_eqI) auto
  then have "offsetsNear (fixed_zone c) ?w = [c]"
    unfolding offsetsNear_def by (simp only: remdups_replicate)
  moreover have "fixed_zone c (?w - c) = desired_parts (date_of_day d) t"
    using parts_of_wall_desired [OF assms(2,3), of d] by (simp add: zone_formatter_def)
  ultimately show ?thesis by (simp add: resolveWallTime_def Let_def w list_min_def)
qed

lemma scan_constant:
  "\<forall>i \<in> set is. offsetAt f i = c \<Longrightarrow> snd (snd (foldl (scan_hour f s) (p, c, gs) is)) = gs"
  by (induction "is" arbitrary: p) (auto simp: scan_hour_def)

lemma gapRanges_fixed:
  assumes "settled c d"
  shows "gapRanges (fixed_zone c) (date_of_day d) = []"
proof -
  have d: "0 \<le> d" using assms by (simp add: settled_def)
  have s: "date_utc (ld_year (date_of_day d)) (ld_month (date_of_day d) - 1) (ld_day (date_of_day d)) 0 0 0 =
      d * DAY_MS" using date_utc_date_of_day [OF d] by (simp add: ms_defs)
  have "offsetAt (fixed_zone c) (d * DAY_MS - 36 * HOUR_MS + int k * HOUR_MS) = c" for k
    by (rule settled_offset [OF assms]) (simp add: ms_defs)
  from this [of 0] this show ?thesis
    unfolding gapRanges_def Let_def s by (simp add: scan_constant del: upt_rec_numeral)
qed

lemma day_loop_least:
  assumes wf: "wf_expression e"
    and res: "\<And>t. t \<in> set (day_times e) \<Longrightarrow> resolveWallTime f date t = base + t * SECOND_MS"
  shows "card {t \<in> set (day_times e). cursor < t} \<le> n \<Longrightarrow>
    (case day_loop n e f date cursor after of
       None \<Rightarrow> \<forall>t \<in> set (day_times e). cursor < t \<longrightarrow> base + t * SECOND_MS \<le> after
     | Some r \<Rightarrow> \<exists>t \<in> set (day_times e). cursor < t \<and> r = base + t * SECOND_MS \<and> after < r \<and>
         (\<forall>u \<in> set (day_times e). cursor < u \<and> after < base + u * SECOND_MS \<longrightarrow> t \<le> u))"
proof (induction n arbitrary: cursor)
  case 0
  then have "{t \<in> set (day_times e). cursor < t} = {}" by simp
  then show ?case by auto
next
  case (Suc n)
  show ?case
  proof (cases "firstAllowedTimeAfter e cursor")
    case None
    then have "\<forall>u \<in> set (day_times e). u \<le> cursor" by (simp only: firstAllowed_None)
    with None show ?thesis by auto
  next
    case (Some t)
    then have t: "t \<in> set (day_times e)" "cursor < t" "\<And>u. u \<in> set (day_times e) \<Longrightarrow> cursor < u \<Longrightarrow> t \<le> u"
      using firstAllowed_least [OF wf] by auto
    show ?thesis
    proof (cases "after < base + t * SECOND_MS")
      case True
      then show ?thesis using Some t by (auto simp: Let_def res)
    next
      case False
      have "{u \<in> set (day_times e). t < u} \<subset> {u \<in> set (day_times e). cursor < u}"
        using t by force
      then have "card {u \<in> set (day_times e). t < u} < card {u \<in> set (day_times e). cursor < u}"
        by (intro psubset_card_mono) auto
      with Suc.prems have "card {u \<in> set (day_times e). t < u} \<le> n" by linarith
      note IH = Suc.IH [OF this]
      have eq: "day_loop (Suc n) e f date cursor after = day_loop n e f date t after"
        using Some False by (simp add: Let_def res [OF t(1)])
      have low: "u = t \<or> t < u" if "u \<in> set (day_times e)" "cursor < u" for u
        using t(3) [OF that] by linarith
      show ?thesis
        unfolding eq
      proof (cases "day_loop n e f date t after")
        case None
        with IH False low show "case day_loop n e f date t after of
            None \<Rightarrow> \<forall>t \<in> set (day_times e). cursor < t \<longrightarrow> base + t * SECOND_MS \<le> after
          | Some r \<Rightarrow> \<exists>t \<in> set (day_times e). cursor < t \<and> r = base + t * SECOND_MS \<and> after < r \<and>
             (\<forall>u \<in> set (day_times e). cursor < u \<and> after < base + u * SECOND_MS \<longrightarrow> t \<le> u)"
          by fastforce
      next
        case (Some r)
        with IH obtain v where v: "v \<in> set (day_times e)" "t < v" "r = base + v * SECOND_MS" "after < r"
          "\<forall>u \<in> set (day_times e). t < u \<and> after < base + u * SECOND_MS \<longrightarrow> v \<le> u"
          by auto
        have "v \<le> u" if "u \<in> set (day_times e)" "cursor < u" "after < base + u * SECOND_MS" for u
          using low [OF that(1,2)] v(5) that False by auto
        with Some v t(2) show "case day_loop n e f date t after of
            None \<Rightarrow> \<forall>t \<in> set (day_times e). cursor < t \<longrightarrow> base + t * SECOND_MS \<le> after
          | Some r \<Rightarrow> \<exists>t \<in> set (day_times e). cursor < t \<and> r = base + t * SECOND_MS \<and> after < r \<and>
             (\<forall>u \<in> set (day_times e). cursor < u \<and> after < base + u * SECOND_MS \<longrightarrow> t \<le> u)"
          by (auto intro!: bexI [of _ v])
      qed
    qed
  qed
qed

text \<open>A wall clock reading that the expression selects: a whole second of a matching day.\<close>

definition wall_matches :: "parsed_expression \<Rightarrow> int \<Rightarrow> bool" where
  "wall_matches e w \<longleftrightarrow> w mod SECOND_MS = 0 \<and> dateMatches e (date_of_day (w div DAY_MS)) \<and>
     w mod DAY_MS div SECOND_MS \<in> set (day_times e)"

lemma wall_matches_on_day:
  assumes "wf_expression e"
  shows "wall_matches e w \<and> w div DAY_MS = d \<longleftrightarrow>
    dateMatches e (date_of_day d) \<and> (\<exists>t \<in> set (day_times e). w = d * DAY_MS + t * SECOND_MS)"
proof
  assume w: "wall_matches e w \<and> w div DAY_MS = d"
  then have "w mod DAY_MS mod SECOND_MS = 0"
    by (simp add: wall_matches_def ms_defs mod_mod_cancel)
  then have "w mod DAY_MS = w mod DAY_MS div SECOND_MS * SECOND_MS"
    using div_mult_mod_eq [of "w mod DAY_MS" SECOND_MS] by simp
  with wall_split(1) [of w] w
  show "dateMatches e (date_of_day d) \<and> (\<exists>t \<in> set (day_times e). w = d * DAY_MS + t * SECOND_MS)"
    by (auto simp: wall_matches_def intro!: bexI [of _ "w mod DAY_MS div SECOND_MS"])
next
  assume "dateMatches e (date_of_day d) \<and> (\<exists>t \<in> set (day_times e). w = d * DAY_MS + t * SECOND_MS)"
  then obtain t where t: "dateMatches e (date_of_day d)" "t \<in> set (day_times e)"
    "w = d * DAY_MS + t * SECOND_MS" by blast
  have r: "0 \<le> t \<and> t < 86400" by (rule day_times_range [OF assms t(2)])
  then have "w div DAY_MS = d" "w mod DAY_MS = t * SECOND_MS" "w mod SECOND_MS = 0"
    unfolding t(3) by (simp_all add: ms_defs mod_eq_0_iff_dvd dvd_add)
  with t show "wall_matches e w \<and> w div DAY_MS = d" by (simp add: wall_matches_def ms_defs)
qed

lemma card_day_times: "wf_expression e \<Longrightarrow> card {t \<in> set (day_times e). k < t} \<le> MAX_ATTEMPTS"
proof -
  assume wf: "wf_expression e"
  have "card {t \<in> set (day_times e). k < t} \<le> card {0..<86400 :: int}"
    using day_times_range [OF wf] by (intro card_mono) auto
  then show ?thesis by (simp add: MAX_ATTEMPTS_def)
qed

text \<open>The first matching instant of one day, after a threshold on the wall clock.\<close>

lemma candidateOnDate_fixed:
  assumes wf: "wf_expression e" and d: "settled c d" and match: "dateMatches e (date_of_day d)"
    and threshold: "\<And>w. w div DAY_MS = d \<Longrightarrow> w mod SECOND_MS = 0 \<Longrightarrow> after < w - c \<Longrightarrow>
      threshold < w mod DAY_MS div SECOND_MS"
  shows "case candidateOnDate e (fixed_zone c) (date_of_day d) threshold after of
     None \<Rightarrow> \<forall>r. wall_matches e (r + c) \<and> (r + c) div DAY_MS = d \<longrightarrow> r \<le> after
   | Some r \<Rightarrow> after < r \<and> wall_matches e (r + c) \<and> (r + c) div DAY_MS = d \<and>
       (\<forall>s. after < s \<and> wall_matches e (s + c) \<and> (s + c) div DAY_MS = d \<longrightarrow> r \<le> s)"
proof -
  let ?base = "d * DAY_MS - c" and ?f = "fixed_zone c"
  have on_day: "wall_matches e (r + c) \<and> (r + c) div DAY_MS = d \<longleftrightarrow>
      (\<exists>t \<in> set (day_times e). r = ?base + t * SECOND_MS)" for r
    using wall_matches_on_day [OF wf, of "r + c" d] match by (auto simp: algebra_simps)
  have thr: "threshold < t" if "t \<in> set (day_times e)" "after < ?base + t * SECOND_MS" for t
  proof -
    have w: "wall_matches e (?base + t * SECOND_MS + c) \<and> (?base + t * SECOND_MS + c) div DAY_MS = d"
      using that(1) on_day [of "?base + t * SECOND_MS"] by blast
    have "0 \<le> t \<and> t < 86400" by (rule day_times_range [OF wf that(1)])
    then have "(?base + t * SECOND_MS + c) mod DAY_MS div SECOND_MS = t"
      by (simp add: ms_defs)
    with w that(2) threshold [of "?base + t * SECOND_MS + c"] show ?thesis
      by (simp add: wall_matches_def)
  qed
  have res: "resolveWallTime ?f (date_of_day d) t = ?base + t * SECOND_MS" if "t \<in> set (day_times e)" for t
    using resolve_fixed [OF d] day_times_range [OF wf that] by simp
  have eq: "candidateOnDate e ?f (date_of_day d) threshold after =
      day_loop MAX_ATTEMPTS e ?f (date_of_day d) threshold after"
    by (simp add: candidateOnDate_def gapRanges_fixed [OF d])
  note least = day_loop_least [OF wf res card_day_times [OF wf], of threshold after]
  show ?thesis
  proof (cases "day_loop MAX_ATTEMPTS e ?f (date_of_day d) threshold after")
    case None
    have "r \<le> after" if r: "wall_matches e (r + c) \<and> (r + c) div DAY_MS = d" for r
    proof -
      obtain t where t: "t \<in> set (day_times e)" "r = ?base + t * SECOND_MS" using r on_day by blast
      show ?thesis
      proof (rule ccontr)
        assume "\<not> r \<le> after"
        then have "threshold < t" using thr [OF t(1)] t(2) by simp
        with least None t have "r \<le> after" by simp
        with \<open>\<not> r \<le> after\<close> show False by simp
      qed
    qed
    with None show ?thesis by (simp add: eq)
  next
    case (Some r)
    then obtain t where t: "t \<in> set (day_times e)" "r = ?base + t * SECOND_MS" "after < r"
      and min: "\<forall>u \<in> set (day_times e). threshold < u \<and> after < ?base + u * SECOND_MS \<longrightarrow> t \<le> u"
      using least by auto
    have "r \<le> s" if s: "after < s" "wall_matches e (s + c) \<and> (s + c) div DAY_MS = d" for s
    proof -
      obtain u where u: "u \<in> set (day_times e)" "s = ?base + u * SECOND_MS" using s(2) on_day by blast
      with s(1) thr [OF u(1)] min have "t \<le> u" by simp
      then show ?thesis unfolding t(2) u(2) by (simp add: ms_defs)
    qed
    with Some t on_day [of r] show ?thesis by (auto simp: eq)
  qed
qed

lemma candidateAt_fixed:
  assumes wf: "wf_expression e" and d: "settled c ((instant + c) div DAY_MS)"
  shows "case candidateAt e (fixed_zone c) instant k of
     None \<Rightarrow> \<forall>r. wall_matches e (r + c) \<and> (r + c) div DAY_MS = (instant + c) div DAY_MS + int k \<longrightarrow> r \<le> instant
   | Some r \<Rightarrow> instant < r \<and> wall_matches e (r + c) \<and> (r + c) div DAY_MS = (instant + c) div DAY_MS + int k \<and>
       (\<forall>s. instant < s \<and> wall_matches e (s + c) \<and> (s + c) div DAY_MS = (instant + c) div DAY_MS + int k \<longrightarrow> r \<le> s)"
proof -
  let ?w = "instant + c"
  let ?d = "?w div DAY_MS + int k" and ?sod = "?w mod DAY_MS div SECOND_MS"
  let ?thr = "if k = 0 then ?sod else - 1"
  have d0: "0 \<le> ?w div DAY_MS" and dk: "settled c ?d" using d by (auto simp: settled_def)
  have first: "date_utc (lp_year (fixed_zone c instant)) (lp_month (fixed_zone c instant) - 1)
      (lp_day (fixed_zone c instant)) 0 0 0 = ?w div DAY_MS * DAY_MS"
    using date_utc_date_of_day [OF d0, of 0 0 0]
    by (simp add: zone_formatter_def parts_of_wall_def desired_parts_def ms_defs)
  have time: "lp_hour (fixed_zone c instant) * 3600 + lp_minute (fixed_zone c instant) * 60 +
      lp_second (fixed_zone c instant) = ?sod"
    using seconds_of_day [of ?sod] by (simp add: zone_formatter_def parts_of_wall_def desired_parts_def)
  have day: "(?w div DAY_MS * DAY_MS + int k * DAY_MS) div DAY_MS = ?d"
    unfolding distrib_right [symmetric] by (simp add: ms_defs)
  have eq: "candidateAt e (fixed_zone c) instant k = (if dateMatches e (date_of_day ?d)
      then candidateOnDate e (fixed_zone c) (date_of_day ?d) ?thr instant else None)"
    unfolding candidateAt_def Let_def first time day by simp
  have thr: "?thr < w mod DAY_MS div SECOND_MS"
    if w: "w div DAY_MS = ?d" "w mod SECOND_MS = 0" "instant < w - c" for w
  proof (cases "k = 0")
    case True
    have "?w mod DAY_MS < w mod DAY_MS"
    proof -
      have "w = ?w div DAY_MS * DAY_MS + w mod DAY_MS" using wall_split(1) [of w] w(1) True by simp
      moreover have "?w = ?w div DAY_MS * DAY_MS + ?w mod DAY_MS" by (rule wall_split(1))
      ultimately show ?thesis using w(3) by linarith
    qed
    moreover have "w mod DAY_MS mod SECOND_MS = 0"
      using w(2) by (simp add: ms_defs mod_mod_cancel)
    ultimately have "?sod * SECOND_MS < w mod DAY_MS div SECOND_MS * SECOND_MS"
      using floor_seconds [of "?w mod DAY_MS"] div_mult_mod_eq [of "w mod DAY_MS" SECOND_MS] by linarith
    then show ?thesis using True by (simp add: ms_defs)
  next
    case False
    have "0 \<le> w mod DAY_MS div SECOND_MS"
      using wall_split(2) [of w] by (simp add: ms_defs pos_imp_zdiv_nonneg_iff)
    with False show ?thesis by simp
  qed
  show ?thesis
  proof (cases "dateMatches e (date_of_day ?d)")
    case True
    with candidateOnDate_fixed [OF wf dk True thr] show ?thesis by (simp only: eq if_True)
  next
    case False
    then have "\<not> (wall_matches e w \<and> w div DAY_MS = ?d)" for w
      by (auto simp: wall_matches_def)
    then show ?thesis unfolding eq if_not_P [OF False] option.case by blast
  qed
qed

text \<open>
  In a zone of constant offset the search returns the least later instant whose wall clock reading
  the expression selects; it gives up only when the next \<open>MAX_SEARCH_DAYS\<close> local days hold none.
\<close>

lemma nextAfter_fixed:
  assumes wf: "wf_expression e" and d: "settled c ((instant + c) div DAY_MS)"
  shows "case nextAfter e (fixed_zone c) taskName instant of
     Inr r \<Rightarrow> instant < r \<and> wall_matches e (r + c) \<and>
       (\<forall>s. instant < s \<and> wall_matches e (s + c) \<longrightarrow> r \<le> s)
   | Inl _ \<Rightarrow> \<forall>s. instant < s \<and> wall_matches e (s + c) \<longrightarrow>
       (instant + c) div DAY_MS + int MAX_SEARCH_DAYS \<le> (s + c) div DAY_MS"
proof -
  let ?g = "candidateAt e (fixed_zone c) instant" and ?d = "(instant + c) div DAY_MS"
  note at = candidateAt_fixed [OF wf d]
  have offset: "\<exists>j. (s + c) div DAY_MS = ?d + int j" if "instant < s" for s
  proof -
    have "?d \<le> (s + c) div DAY_MS" using that by (intro zdiv_mono1) (auto simp: ms_defs)
    then show ?thesis by (metis zle_iff_zadd)
  qed
  have none: "\<not> (instant < s \<and> wall_matches e (s + c) \<and> (s + c) div DAY_MS = ?d + int j)"
    if "?g j = None" for s j
    using at [of j] that by auto
  show ?thesis
  proof (cases "first_some ?g [0..<MAX_SEARCH_DAYS]")
    case (Some r)
    from first_some_upt [OF this] obtain k where k: "k < MAX_SEARCH_DAYS" "?g k = Some r"
      "\<forall>j < k. ?g j = None" by auto
    from at [of k] k(2) have r: "instant < r" "wall_matches e (r + c)" "(r + c) div DAY_MS = ?d + int k"
      and least: "\<And>s. instant < s \<Longrightarrow> wall_matches e (s + c) \<Longrightarrow> (s + c) div DAY_MS = ?d + int k \<Longrightarrow> r \<le> s"
      by auto
    have "r \<le> s" if s: "instant < s" "wall_matches e (s + c)" for s
    proof -
      obtain j where j: "(s + c) div DAY_MS = ?d + int j" using offset [OF s(1)] by blast
      then have "k \<le> j" using none [of j s] k(3) s by (metis not_le)
      show ?thesis
      proof (cases "j = k")
        case True
        with least s j show ?thesis by blast
      next
        case False
        with \<open>k \<le> j\<close> have "(r + c) div DAY_MS < (s + c) div DAY_MS" using r(3) j by simp
        then have "r + c < s + c"
          by (metis linorder_not_less zdiv_mono1 ms_defs(1) zero_less_numeral)
        then show ?thesis by simp
      qed
    qed
    with Some r show ?thesis by (simp add: nextAfter_def)
  next
    case None
    then have "\<forall>j < MAX_SEARCH_DAYS. ?g j = None" by (simp add: first_some_None)
    then have "?d + int MAX_SEARCH_DAYS \<le> (s + c) div DAY_MS"
      if s: "instant < s" "wall_matches e (s + c)" for s
      using offset [OF s(1)] none s by (metis add_left_mono linorder_not_less of_nat_le_iff)
    with None show ?thesis by (simp add: nextAfter_def)
  qed
qed

subsection \<open>Offset transitions are located to the second\<close>

lemma bisect_finds:
  assumes "left mod SECOND_MS = 0" and "right mod SECOND_MS = 0" and "left < right"
    and "offsetAt f left = p" and "offsetAt f right \<noteq> p" and "right - left \<le> int fuel"
  shows "left < bisect fuel f left right p \<and> bisect fuel f left right p \<le> right \<and>
    offsetAt f (bisect fuel f left right p) \<noteq> p \<and>
    offsetAt f (bisect fuel f left right p - SECOND_MS) = p"
  using assms
proof (induction fuel arbitrary: left right)
  case (Suc fuel)
  show ?case
  proof (cases "right - left > SECOND_MS")
    case True
    let ?m = "(left + right) div (2 * SECOND_MS) * SECOND_MS"
    obtain a b where ab: "left = a * SECOND_MS" "right = b * SECOND_MS"
      using Suc.prems(1,2) by (metis dvd_def mod_eq_0_iff_dvd mult.commute)
    have "a + 1 < b" using True by (simp add: ab ms_defs)
    moreover have m: "?m = (a + b) div 2 * SECOND_MS"
    proof -
      have "(a * SECOND_MS + b * SECOND_MS) div (2 * SECOND_MS) = (a + b) div 2"
        unfolding distrib_right [symmetric] by (rule div_mult_mult2) (simp add: ms_defs)
      then show ?thesis unfolding ab by simp
    qed
    ultimately have "left < ?m" "?m < right"
      unfolding m ab by (simp_all add: ms_defs)
    with Suc.prems have "?m - left \<le> int fuel" "right - ?m \<le> int fuel" by linarith+
    with Suc.prems True \<open>left < ?m\<close> \<open>?m < right\<close>
      Suc.IH [of ?m right] Suc.IH [of left ?m] show ?thesis
      by (cases "offsetAt f ?m = p") (simp_all add: Let_def m)
  next
    case False
    obtain a b where ab: "left = a * SECOND_MS" "right = b * SECOND_MS"
      using Suc.prems(1,2) by (metis dvd_def mod_eq_0_iff_dvd mult.commute)
    then have "right - SECOND_MS = left" using False Suc.prems(3) by (simp add: ms_defs)
    with False Suc.prems show ?thesis by simp
  qed
qed simp

lemma firstOffsetChange_finds:
  assumes "left mod SECOND_MS = 0" and "right mod SECOND_MS = 0" and "left < right"
    and "offsetAt f left = p" and "offsetAt f right \<noteq> p"
  shows "left < firstOffsetChange f left right p \<and> firstOffsetChange f left right p \<le> right \<and>
    offsetAt f (firstOffsetChange f left right p) \<noteq> p \<and>
    offsetAt f (firstOffsetChange f left right p - SECOND_MS) = p"
  unfolding firstOffsetChange_def using assms by (intro bisect_finds) auto

end
