(* ===== verification/CronProperties.thy ===== *)
theory CronProperties
  imports CronSpec
begin

section \<open>Properties of cron expressions\<close>

text \<open>
  The statements about \<open>packages/jobs/src/schedule/cron.ts\<close>: what the parser accepts, and which
  instant the search of a plan returns.
\<close>

definition daily_at :: parsed_expression where
  "daily_at = \<lparr>seconds = \<lparr>pf_values = [0], pf_wildcard = False\<rparr>,
     minutes = \<lparr>pf_values = [30], pf_wildcard = False\<rparr>, hours = \<lparr>pf_values = [6], pf_wildcard = False\<rparr>,
     daysOfMonth = \<lparr>pf_values = [1..<32], pf_wildcard = True\<rparr>,
     months = \<lparr>pf_values = [1..<13], pf_wildcard = True\<rparr>,
     daysOfWeek = \<lparr>pf_values = [0..<7], pf_wildcard = True\<rparr>\<rparr>"

lemma wf_daily_at: "wf_expression daily_at"
  by (simp add: wf_expression_def daily_at_def wf_field_def field_defs field_maximum_def)



text \<open>
  in any zone, the instant a plan returns lies strictly after the given one and is the
  resolution of an allowed time of day on a date the expression matches.
\<close>
theorem next_instant_is_scheduled:
  assumes "nextAfter e f taskName instant = Inr r"
  shows "instant < r \<and> (\<exists>d t. dateMatches e (date_of_day d) \<and> t \<in> set (day_times e) \<and>
    r = resolveWallTime f (date_of_day d) t)"
  by (rule nextAfter_sound [OF assms])

theorem next_instant_is_scheduled_witness:
  "\<exists>r. nextAfter daily_at (fixed_zone 0) ''t'' 1700000000000 = Inr r \<and> 1700000000000 < r"
proof -
  have "settled 0 ((1700000000000 + 0) div DAY_MS)" by (simp add: settled_def ms_defs)
  note least = nextAfter_fixed [OF wf_daily_at this, of "''t''"]
  have "wall_matches daily_at (1700029800000 + 0)" by code_simp
  moreover have "\<not> (1700000000000 + 0) div DAY_MS + int MAX_SEARCH_DAYS \<le> (1700029800000 + 0) div DAY_MS"
    by (simp add: ms_defs MAX_SEARCH_DAYS_def)
  ultimately obtain r where r: "nextAfter daily_at (fixed_zone 0) ''t'' 1700000000000 = Inr r"
    using least by (fastforce split: sum.splits)
  with next_instant_is_scheduled [OF r] show ?thesis by blast
qed

text \<open>
  C29: every field of an expression that parses lists at least one value, in strictly increasing
  order and within the bounds of its field (a day of week is 0 to 6).
\<close>
theorem parsed_expression_well_formed:
  assumes "parseExpression source taskName = Inr e"
  shows "wf_field SECOND_FIELD (seconds e) \<and> wf_field MINUTE_FIELD (minutes e) \<and>
    wf_field HOUR_FIELD (hours e) \<and> wf_field DAY_OF_MONTH (daysOfMonth e) \<and>
    wf_field MONTH_FIELD (months e) \<and> wf_field DAY_OF_WEEK (daysOfWeek e)"
  using parseExpression_wf [OF assms] by (simp add: wf_expression_def)

theorem parsed_expression_well_formed_witness:
  "\<exists>e. parseExpression ''*/15 9-17 * * MON-FRI'' ''t'' = Inr e \<and> wf_field MINUTE_FIELD (minutes e)"
proof -
  have "case parseExpression ''*/15 9-17 * * MON-FRI'' ''t'' of Inr _ \<Rightarrow> True | Inl _ \<Rightarrow> False"
    by code_simp
  then obtain e where e: "parseExpression ''*/15 9-17 * * MON-FRI'' ''t'' = Inr e"
    by (auto split: sum.splits)
  from parsed_expression_well_formed [OF this] e show ?thesis by blast
qed

text \<open>
  a field that parses selects exactly the values of its comma-separated segments, a stepped range
  \<open>a-b/n\<close> being the values from \<open>a\<close> to \<open>b\<close> that differ from \<open>a\<close> by a multiple of \<open>n\<close>; only the field
  \<open>*\<close> counts as a wildcard.
\<close>
theorem parsed_field_values:
  assumes "parseField src spec taskName = Inr f"
  shows "(\<exists>vss. list_all2 (\<lambda>seg vs. segmentValues spec taskName src seg = Inr vs)
      (split_on CHR '','' src) vss \<and> set (pf_values f) = (\<Union>vs \<in> set vss. set vs)) \<and>
    (pf_wildcard f \<longleftrightarrow> src = ''*'') \<and>
    (\<forall>lo hi step. 0 < step \<longrightarrow> set (range_values lo hi step) = {v. lo \<le> v \<and> v \<le> hi \<and> step dvd (v - lo)})"
  using parseField_values [OF assms] set_range_values by blast

theorem parsed_field_values_witness:
  "\<exists>f. parseField ''5-20/5,40'' MINUTE_FIELD ''t'' = Inr f \<and> \<not> pf_wildcard f"
proof -
  have "case parseField ''5-20/5,40'' MINUTE_FIELD ''t'' of Inr _ \<Rightarrow> True | Inl _ \<Rightarrow> False" by code_simp
  then obtain f where f: "parseField ''5-20/5,40'' MINUTE_FIELD ''t'' = Inr f" by (auto split: sum.splits)
  from parsed_field_values [OF this] f show ?thesis by auto
qed

text \<open>
  the month July and the weekday Wednesday cannot be written by name: a field that spells either,
  in any case and anywhere, is refused, although both names are in the parser's tables.
\<close>
theorem july_and_wednesday_refused:
  "map_of MONTH_NAMES ''JUL'' = Some 7 \<and> map_of WEEKDAY_NAMES ''WED'' = Some 3 \<and>
   (\<forall>pre post taskName. \<exists>e1 e2.
      parseField (pre @ ''JUL'' @ post) MONTH_FIELD taskName = Inl e1 \<and>
      parseField (pre @ ''WED'' @ post) DAY_OF_WEEK taskName = Inl e2)"
  by (auto simp: MONTH_NAMES_def WEEKDAY_NAMES_def parseField_def Let_def quartz_char_def)

text \<open>
  the binary search for an offset transition between two whole seconds returns a whole-second
  boundary: the offset differs from the earlier one there and equals it one second before.
\<close>
theorem offset_transition_found:
  assumes "left mod SECOND_MS = 0" and "right mod SECOND_MS = 0" and "left < right"
    and "offsetAt f left = p" and "offsetAt f right \<noteq> p"
  shows "left < firstOffsetChange f left right p \<and> firstOffsetChange f left right p \<le> right \<and>
    offsetAt f (firstOffsetChange f left right p) \<noteq> p \<and>
    offsetAt f (firstOffsetChange f left right p - SECOND_MS) = p"
  by (rule firstOffsetChange_finds [OF assms])

theorem offset_transition_found_witness:
  "\<exists>f. let t = firstOffsetChange f 1000000000000 1000003600000 0 in
     1000000000000 < t \<and> offsetAt f t \<noteq> 0 \<and> offsetAt f (t - SECOND_MS) = 0"
proof -
  define f where "f = zone_formatter (\<lambda>i. if i < 1000001800000 then 0 else 3600000)"
  have "offsetAt f 1000000000000 = 0" "offsetAt f 1000003600000 \<noteq> 0"
    unfolding f_def by code_simp+
  then have "1000000000000 < firstOffsetChange f 1000000000000 1000003600000 0 \<and>
      firstOffsetChange f 1000000000000 1000003600000 0 \<le> 1000003600000 \<and>
      offsetAt f (firstOffsetChange f 1000000000000 1000003600000 0) \<noteq> 0 \<and>
      offsetAt f (firstOffsetChange f 1000000000000 1000003600000 0 - SECOND_MS) = 0"
    by (intro offset_transition_found) (simp_all add: ms_defs)
  then show ?thesis unfolding Let_def by blast
qed

end
