(* ===== verification/Numbers.thy ===== *)
theory Numbers
  imports Prelude Complex_Main
begin

section \<open>JavaScript numbers\<close>

text \<open>
  A JavaScript number as the code's guards see it: a finite value, one of the two infinities or NaN.
  Finite values are exact rationals, so sums and products are those of the rationals (a double
  computes the same on the whole milliseconds, counts and byte sizes the modelled code handles).
  Comparisons with NaN are false, as in the language.
\<close>

datatype number = Fin rat | PosInf | NegInf | NaN

definition safe_limit :: int where
  "safe_limit = 9007199254740991"

fun finite_number :: "number \<Rightarrow> bool" where
  "finite_number (Fin _) = True"
| "finite_number _ = False"

text \<open>\<open>Number.isInteger\<close> and \<open>Number.isSafeInteger\<close>.\<close>

fun integer_number :: "number \<Rightarrow> bool" where
  "integer_number (Fin q) = (of_int (floor q) = q)"
| "integer_number _ = False"

fun safe_integer :: "number \<Rightarrow> bool" where
  "safe_integer (Fin q) = (of_int (floor q) = q \<and> \<bar>floor q\<bar> \<le> safe_limit)"
| "safe_integer _ = False"

fun num_less :: "number \<Rightarrow> number \<Rightarrow> bool" where
  "num_less (Fin a) (Fin b) = (a < b)"
| "num_less NegInf (Fin _) = True"
| "num_less NegInf PosInf = True"
| "num_less (Fin _) PosInf = True"
| "num_less _ _ = False"

fun num_le :: "number \<Rightarrow> number \<Rightarrow> bool" where
  "num_le (Fin a) (Fin b) = (a \<le> b)"
| "num_le NegInf b = (b \<noteq> NaN)"
| "num_le a PosInf = (a \<noteq> NaN)"
| "num_le _ _ = False"

text \<open>The value of a finite number.\<close>

fun num_val :: "number \<Rightarrow> rat" where
  "num_val (Fin q) = q"
| "num_val _ = 0"

text \<open>The integer of a safe integer.\<close>

definition num_int :: "number \<Rightarrow> int" where
  "num_int n = floor (num_val n)"

lemma finite_number_iff: "finite_number n \<longleftrightarrow> (\<exists>q. n = Fin q)"
  by (cases n) auto

lemma safe_integer_iff:
  "safe_integer n \<longleftrightarrow> (\<exists>i. n = Fin (of_int i) \<and> \<bar>i\<bar> \<le> safe_limit)"
proof (cases n)
  case (Fin q)
  then show ?thesis by (auto intro: exI [of _ "floor q"]) 
qed auto

end
