(* ===== verification/Cache.thy ===== *)
theory Cache
  imports Numbers "HOL-Library.Char_ord" "HOL-Library.List_Lexorder" "HOL-Library.Multiset"
begin

section \<open>The query result cache\<close>

text \<open>
  \<open>packages/orm/src/cache/index.ts\<close>: the process-local store with time-to-live and bounded
  least-recently-used eviction, and its tags. Times are milliseconds; the clock \<open>Date.now()\<close> is an
  argument of each call.
\<close>

subsection \<open>The memory store\<close>

record 'v memory_entry =
  me_value :: 'v
  me_expiresAt :: rat
  me_tags :: "string list"

type_synonym 'v entries = "(string \<times> 'v memory_entry) list"

record 'v memory_store =
  ms_maxEntries :: nat
  ms_entries :: "'v entries"

definition DEFAULT_MAX_ENTRIES :: number where
  "DEFAULT_MAX_ENTRIES = Fin 1000"

definition positiveInteger :: "number \<Rightarrow> string \<Rightarrow> js_error + number" where
  "positiveInteger value name =
     (if \<not> safe_integer value \<or> num_le value (Fin 0)
      then Inl (RangeError (name @ '' must be a positive safe integer'')) else Inr value)"

definition positiveDuration :: "number \<Rightarrow> js_error + number" where
  "positiveDuration value =
     (if \<not> finite_number value \<or> num_le value (Fin 0)
      then Inl (RangeError ''cache ttlMs must be a positive finite number'') else Inr value)"

definition memoryStore :: "number option \<Rightarrow> js_error + 'v memory_store" where
  "memoryStore maxEntries =
     rbind (positiveInteger (case maxEntries of None \<Rightarrow> DEFAULT_MAX_ENTRIES | Some n \<Rightarrow> n)
              ''cache maxEntries'')
       (\<lambda>n. Inr \<lparr>ms_maxEntries = nat (num_int n), ms_entries = []\<rparr>)"

definition cache_get ::
  "string \<Rightarrow> rat \<Rightarrow> 'v memory_store \<Rightarrow> 'v memory_store \<times> 'v option" where
  "cache_get key now s = (case map_of (ms_entries s) key of
     None \<Rightarrow> (s, None)
   | Some entry \<Rightarrow>
       let deleted = AList.delete key (ms_entries s) in
       if me_expiresAt entry \<le> now then (s\<lparr>ms_entries := deleted\<rparr>, None)
       else (s\<lparr>ms_entries := deleted @ [(key, entry)]\<rparr>, Some (me_value entry)))"

text \<open>\<open>while (entries.size > maxEntries)\<close> delete the oldest key.\<close>

fun evict :: "nat \<Rightarrow> 'v entries \<Rightarrow> 'v entries" where
  "evict n [] = []"
| "evict n (e # es) = (if length (e # es) > n then evict n es else e # es)"

text \<open>\<open>set\<close> deletes the key before it checks the duration.\<close>

definition cache_set ::
  "string \<Rightarrow> 'v \<Rightarrow> number \<Rightarrow> string list \<Rightarrow> rat \<Rightarrow> 'v memory_store \<Rightarrow>
     'v memory_store \<times> (js_error + unit)" where
  "cache_set key value ttl tags now s =
     (let deleted = AList.delete key (ms_entries s) in
      case positiveDuration ttl of
        Inl e \<Rightarrow> (s\<lparr>ms_entries := deleted\<rparr>, Inl e)
      | Inr d \<Rightarrow>
          (s\<lparr>ms_entries := evict (ms_maxEntries s)
              (deleted @ [(key, \<lparr>me_value = value, me_expiresAt = now + num_val d, me_tags = tags\<rparr>)])\<rparr>,
           Inr ()))"

definition invalidateTags :: "string list \<Rightarrow> 'v memory_store \<Rightarrow> 'v memory_store" where
  "invalidateTags tags s =
     (if tags = [] then s
      else s\<lparr>ms_entries := filter (\<lambda>(k, e). \<not> list_ex (\<lambda>t. t \<in> set tags) (me_tags e)) (ms_entries s)\<rparr>)"

text \<open>The invariant of a store: distinct keys, at most \<open>maxEntries\<close> of them, and a positive bound.\<close>

definition wf_store :: "'v memory_store \<Rightarrow> bool" where
  "wf_store s \<longleftrightarrow> distinct (map fst (ms_entries s)) \<and> length (ms_entries s) \<le> ms_maxEntries s \<and>
     0 < ms_maxEntries s"

definition cache_lookup :: "'v memory_store \<Rightarrow> string \<Rightarrow> 'v memory_entry option" where
  "cache_lookup s = map_of (ms_entries s)"

lemma evict_drop: "evict n es = drop (length es - n) es"
  by (induction es) (auto simp: Suc_diff_le)

lemma length_evict: "length (evict n es) \<le> n"
  by (simp add: evict_drop)

lemma distinct_delete_snoc:
  "distinct (map fst m) \<Longrightarrow> distinct (map fst (AList.delete k m @ [(k, e)]))"
  by (auto simp: AList.distinct_delete set_alist_delete)

lemma distinct_evict: "distinct (map fst es) \<Longrightarrow> distinct (map fst (evict n es))"
  by (simp add: evict_drop flip: drop_map)

lemma map_of_drop_subset:
  "distinct (map fst m) \<Longrightarrow> map_of (drop n m) k = Some e \<Longrightarrow> map_of m k = Some e"
  by (metis (no_types, lifting) distinct_drop drop_map in_set_dropD map_of_SomeD map_of_eq_Some_iff)

lemma map_of_filter_distinct:
  "distinct (map fst m) \<Longrightarrow> map_of (filter P m) k = Some e \<longleftrightarrow> map_of m k = Some e \<and> P (k, e)"
  by (auto simp: distinct_map_filter)

lemma length_delete_le: "length (AList.delete k m) \<le> length m"
  by (simp add: AList.delete_eq)

lemma length_delete_less: "k \<in> fst ` set m \<Longrightarrow> length (AList.delete k m) < length m"
  by (induction m) (auto simp: length_delete_le le_imp_less_Suc intro: rev_image_eqI)

lemma memoryStore_wf: "memoryStore n = Inr s \<Longrightarrow> wf_store s"
  by (auto simp: memoryStore_def positiveInteger_def result_simps wf_store_def num_int_def
      safe_integer_iff split: if_splits)

lemma cache_get_wf: "wf_store s \<Longrightarrow> wf_store (fst (cache_get key now s))"
proof (cases "map_of (ms_entries s) key")
  case (Some entry)
  assume wf: "wf_store s"
  from Some have "key \<in> fst ` set (ms_entries s)" by (metis domI dom_map_of_conv_image_fst)
  from length_delete_less [OF this] wf Some show ?thesis
    by (auto simp: cache_get_def Let_def wf_store_def distinct_delete_snoc AList.distinct_delete
        set_alist_delete)
qed (simp add: cache_get_def)

lemma cache_set_wf:
  assumes "wf_store s"
  shows "wf_store (fst (cache_set key v ttl tags now s))"
proof -
  have "distinct (map fst (evict n (AList.delete key (ms_entries s) @ [(key, e)])))" for n e
    using assms by (intro distinct_evict distinct_delete_snoc) (simp add: wf_store_def)
  with assms length_evict length_delete_le [of key "ms_entries s"] show ?thesis
    by (auto simp: cache_set_def Let_def wf_store_def AList.distinct_delete split: sum.splits)
qed

lemma invalidateTags_wf: "wf_store s \<Longrightarrow> wf_store (invalidateTags tags s)"
  by (auto simp: invalidateTags_def wf_store_def distinct_map_filter intro: le_trans [OF length_filter_le])

lemma last_evicted: "0 < n \<Longrightarrow> es \<noteq> [] \<Longrightarrow> evict n es \<noteq> [] \<and> last (evict n es) = last es"
  by (cases es) (auto simp: evict_drop)

subsection \<open>The contract of a store\<close>

text \<open>
  What the callers of a \<open>CacheStore\<close> rely on: a hit returns the value of a live entry under the key;
  a successful \<open>set\<close> stores exactly its entry; and no operation creates an entry of its own, so
  every entry other than the one just set was there before.
\<close>

locale cache_store =
  fixes get :: "string \<Rightarrow> rat \<Rightarrow> 'st \<Rightarrow> 'st \<times> 'v option"
    and put :: "string \<Rightarrow> 'v \<Rightarrow> number \<Rightarrow> string list \<Rightarrow> rat \<Rightarrow> 'st \<Rightarrow> 'st \<times> (js_error + unit)"
    and invalidate :: "string list \<Rightarrow> 'st \<Rightarrow> 'st"
    and lookup :: "'st \<Rightarrow> string \<Rightarrow> 'v memory_entry option"
    and inv :: "'st \<Rightarrow> bool"
  assumes get_inv: "inv s \<Longrightarrow> inv (fst (get k now s))"
    and put_inv: "inv s \<Longrightarrow> inv (fst (put k v ttl tags now s))"
    and invalidate_inv: "inv s \<Longrightarrow> inv (invalidate tags s)"
    and get_value: "inv s \<Longrightarrow> snd (get k now s) = Some v \<longleftrightarrow>
      (\<exists>e. lookup s k = Some e \<and> me_value e = v \<and> now < me_expiresAt e)"
    and get_keeps: "inv s \<Longrightarrow> lookup (fst (get k now s)) k' = Some e \<Longrightarrow> lookup s k' = Some e"
    and put_accepts: "inv s \<Longrightarrow> snd (put k v ttl tags now s) = Inr () \<longleftrightarrow>
      finite_number ttl \<and> num_less (Fin 0) ttl"
    and put_stores: "inv s \<Longrightarrow> snd (put k v ttl tags now s) = Inr () \<Longrightarrow>
      lookup (fst (put k v ttl tags now s)) k =
        Some \<lparr>me_value = v, me_expiresAt = now + num_val ttl, me_tags = tags\<rparr>"
    and put_fails: "inv s \<Longrightarrow> snd (put k v ttl tags now s) = Inl err \<Longrightarrow>
      lookup (fst (put k v ttl tags now s)) k = None"
    and put_keeps: "inv s \<Longrightarrow> k' \<noteq> k \<Longrightarrow> lookup (fst (put k v ttl tags now s)) k' = Some e \<Longrightarrow>
      lookup s k' = Some e"
    and invalidate_keeps: "inv s \<Longrightarrow> lookup (invalidate tags s) k = Some e \<longleftrightarrow>
      lookup s k = Some e \<and> set tags \<inter> set (me_tags e) = {}"

datatype 'v cache_op =
    GetOp string rat
  | SetOp string 'v number "string list" rat
  | InvalidateOp "string list"

fun cache_step ::
  "(string \<Rightarrow> rat \<Rightarrow> 'st \<Rightarrow> 'st \<times> 'v option) \<Rightarrow>
   (string \<Rightarrow> 'v \<Rightarrow> number \<Rightarrow> string list \<Rightarrow> rat \<Rightarrow> 'st \<Rightarrow> 'st \<times> (js_error + unit)) \<Rightarrow>
   (string list \<Rightarrow> 'st \<Rightarrow> 'st) \<Rightarrow> 'v cache_op \<Rightarrow> 'st \<Rightarrow> 'st" where
  "cache_step get put inval (GetOp k now) s = fst (get k now s)"
| "cache_step get put inval (SetOp k v ttl tags now) s = fst (put k v ttl tags now s)"
| "cache_step get put inval (InvalidateOp tags) s = inval tags s"

text \<open>
  The entry a history of operations leaves for a key, newest operation last: the last accepted
  \<open>set\<close> of the key, unless a later invalidation names one of its tags.
\<close>

fun history_entry :: "string \<Rightarrow> 'v cache_op list \<Rightarrow> 'v memory_entry option" where
  "history_entry k [] = None"
| "history_entry k (GetOp k' now # earlier) = history_entry k earlier"
| "history_entry k (SetOp k' v ttl tags now # earlier) =
     (if k' \<noteq> k then history_entry k earlier
      else if finite_number ttl \<and> num_less (Fin 0) ttl
      then Some \<lparr>me_value = v, me_expiresAt = now + num_val ttl, me_tags = tags\<rparr> else None)"
| "history_entry k (InvalidateOp tags # earlier) =
     (case history_entry k earlier of
        None \<Rightarrow> None
      | Some e \<Rightarrow> if set tags \<inter> set (me_tags e) = {} then Some e else None)"

definition cache_run ::
  "(string \<Rightarrow> rat \<Rightarrow> 'st \<Rightarrow> 'st \<times> 'v option) \<Rightarrow>
   (string \<Rightarrow> 'v \<Rightarrow> number \<Rightarrow> string list \<Rightarrow> rat \<Rightarrow> 'st \<Rightarrow> 'st \<times> (js_error + unit)) \<Rightarrow>
   (string list \<Rightarrow> 'st \<Rightarrow> 'st) \<Rightarrow> 'v cache_op list \<Rightarrow> 'st \<Rightarrow> 'st" where
  "cache_run get put inval ops s = fold (cache_step get put inval) ops s"

lemma cache_run_snoc:
  "cache_run get put inval (ops @ [op]) s = cache_step get put inval op (cache_run get put inval ops s)"
  by (simp add: cache_run_def)

context cache_store
begin

lemma run_inv: "inv s \<Longrightarrow> inv (cache_run get put invalidate ops s)"
proof (induction ops rule: rev_induct)
  case (snoc op ops)
  then show ?case by (cases op) (simp_all add: cache_run_snoc get_inv put_inv invalidate_inv)
qed (simp add: cache_run_def)

lemma run_entries:
  assumes "inv s" and empty: "\<And>k. lookup s k = None"
  shows "lookup (cache_run get put invalidate ops s) k = Some e \<Longrightarrow> history_entry k (rev ops) = Some e"
proof (induction ops arbitrary: e rule: rev_induct)
  case (snoc op ops)
  note inv = run_inv [OF assms(1), of ops]
  show ?case
  proof (cases op)
    case (GetOp k' now)
    with snoc get_keeps [OF inv] show ?thesis by (simp add: cache_run_snoc)
  next
    case (SetOp k' v ttl tags now)
    show ?thesis
    proof (cases "k' = k")
      case False
      with snoc put_keeps [OF inv, of k k'] SetOp show ?thesis by (auto simp: cache_run_snoc)
    next
      case True
      show ?thesis
      proof (cases "snd (put k v ttl tags now (cache_run get put invalidate ops s))")
        case (Inl err)
        with put_fails [OF inv] snoc.prems SetOp True show ?thesis by (simp add: cache_run_snoc)
      next
        case (Inr u)
        then have ok: "finite_number ttl \<and> num_less (Fin 0) ttl" using put_accepts [OF inv] by simp
        from Inr put_stores [OF inv, of k v ttl tags now] snoc.prems SetOp True ok
        show ?thesis by (simp add: cache_run_snoc)
      qed
    qed
  next
    case (InvalidateOp tags)
    with snoc invalidate_keeps [OF inv] show ?thesis by (simp add: cache_run_snoc)
  qed
qed (simp add: cache_run_def empty)

text \<open>A hit is never stale: its value is the one the history left for the key, and it is live.\<close>

lemma hit_is_fresh:
  assumes "inv s" and "\<And>k. lookup s k = None"
    and "snd (get k now (cache_run get put invalidate ops s)) = Some v"
  shows "\<exists>e. history_entry k (rev ops) = Some e \<and> me_value e = v \<and> now < me_expiresAt e"
  using get_value [OF run_inv [OF assms(1)]] run_entries [OF assms(1,2)] assms(3) by blast

text \<open>A value just stored is read back until it expires.\<close>

lemma read_after_write:
  assumes "inv s" and "finite_number ttl" and "num_less (Fin 0) ttl" and "now' < now + num_val ttl"
  shows "snd (get k now' (fst (put k v ttl tags now s))) = Some v"
  using put_stores [OF assms(1)] put_accepts [OF assms(1)] get_value [OF put_inv [OF assms(1)]] assms
  by auto

end

lemma lookup_delete_snoc:
  "map_of (AList.delete k m @ [(k, e)]) k' = (if k' = k then Some e else map_of m k')"
  by (simp add: map_add_def split: option.splits)

interpretation memory: cache_store cache_get cache_set invalidateTags cache_lookup wf_store
proof unfold_locales
  fix s :: "'v memory_store" and k k' v now e ttl tags err
  assume wf: "wf_store s"
  show "wf_store (fst (cache_get k now s))" by (rule cache_get_wf [OF wf])
  show "wf_store (fst (cache_set k v ttl tags now s))" by (rule cache_set_wf [OF wf])
  show "wf_store (invalidateTags tags s)" by (rule invalidateTags_wf [OF wf])
  show "snd (cache_get k now s) = Some v \<longleftrightarrow>
      (\<exists>e. cache_lookup s k = Some e \<and> me_value e = v \<and> now < me_expiresAt e)"
    by (auto simp: cache_get_def cache_lookup_def Let_def split: option.splits)
  show "cache_lookup s k' = Some e" if "cache_lookup (fst (cache_get k now s)) k' = Some e"
    using that by (auto simp: cache_get_def cache_lookup_def Let_def lookup_delete_snoc
        split: option.splits if_splits)
  show "snd (cache_set k v ttl tags now s) = Inr () \<longleftrightarrow> finite_number ttl \<and> num_less (Fin 0) ttl"
    by (cases ttl) (auto simp: cache_set_def positiveDuration_def Let_def)
  show "cache_lookup (fst (cache_set k v ttl tags now s)) k =
      Some \<lparr>me_value = v, me_expiresAt = now + num_val ttl, me_tags = tags\<rparr>"
    if "snd (cache_set k v ttl tags now s) = Inr ()"
  proof -
    let ?e = "\<lparr>me_value = v, me_expiresAt = now + num_val ttl, me_tags = tags\<rparr>"
    let ?es = "AList.delete k (ms_entries s) @ [(k, ?e)]"
    have "(k, ?e) \<in> set (evict (ms_maxEntries s) ?es)"
      using last_evicted [of "ms_maxEntries s" ?es] wf
      by (metis append_is_Nil_conv last_in_set last_snoc not_Cons_self2 wf_store_def)
    moreover have "distinct (map fst (evict (ms_maxEntries s) ?es))"
      using wf by (intro distinct_evict distinct_delete_snoc) (simp add: wf_store_def)
    moreover have "positiveDuration ttl = Inr ttl"
      using that by (auto simp: cache_set_def positiveDuration_def Let_def split: if_splits)
    ultimately show ?thesis
      by (simp add: cache_set_def cache_lookup_def Let_def map_of_eq_Some_iff)
  qed
  show "cache_lookup (fst (cache_set k v ttl tags now s)) k = None"
    if "snd (cache_set k v ttl tags now s) = Inl err"
    using that by (auto simp: cache_set_def cache_lookup_def Let_def split: sum.splits)
  show "cache_lookup s k' = Some e"
    if "k' \<noteq> k" and "cache_lookup (fst (cache_set k v ttl tags now s)) k' = Some e"
  proof (cases "positiveDuration ttl")
    case (Inl err)
    with that show ?thesis by (simp add: cache_set_def cache_lookup_def Let_def)
  next
    case (Inr d)
    let ?es = "AList.delete k (ms_entries s) @
      [(k, \<lparr>me_value = v, me_expiresAt = now + num_val d, me_tags = tags\<rparr>)]"
    have "map_of (evict (ms_maxEntries s) ?es) k' = Some e"
      using that(2) Inr by (simp add: cache_set_def cache_lookup_def Let_def)
    moreover have "distinct (map fst ?es)" using wf by (intro distinct_delete_snoc) (simp add: wf_store_def)
    ultimately have "map_of ?es k' = Some e" unfolding evict_drop by (blast intro: map_of_drop_subset)
    with that(1) show ?thesis unfolding cache_lookup_def lookup_delete_snoc by simp
  qed
  show "cache_lookup (invalidateTags tags s) k = Some e \<longleftrightarrow>
      cache_lookup s k = Some e \<and> set tags \<inter> set (me_tags e) = {}"
    using wf by (auto simp: invalidateTags_def cache_lookup_def wf_store_def map_of_filter_distinct
        list_ex_iff)
qed

subsection \<open>Least recently used eviction\<close>

text \<open>The abstract policy, on the keys from the least to the most recently used.\<close>

definition lru_touch :: "string \<Rightarrow> string list \<Rightarrow> string list" where
  "lru_touch k ks = removeAll k ks @ [k]"

definition lru_insert :: "nat \<Rightarrow> string \<Rightarrow> string list \<Rightarrow> string list" where
  "lru_insert n k ks = (let t = lru_touch k ks in drop (length t - n) t)"

definition recency :: "'v memory_store \<Rightarrow> string list" where
  "recency s = map fst (ms_entries s)"

lemma length_delete_keys: "length (AList.delete k m) = length (removeAll k (map fst m))"
  by (metis keys_delete length_map)

lemma get_recency:
  "recency (fst (cache_get k now s)) =
     (if snd (cache_get k now s) \<noteq> None then lru_touch k (recency s)
      else if cache_lookup s k = None then recency s else removeAll k (recency s))"
  by (auto simp: cache_get_def recency_def cache_lookup_def lru_touch_def Let_def keys_delete
      split: option.splits)

lemma set_recency:
  "snd (cache_set k v ttl tags now s) = Inr () \<Longrightarrow>
     recency (fst (cache_set k v ttl tags now s)) = lru_insert (ms_maxEntries s) k (recency s)"
  by (auto simp: cache_set_def recency_def lru_insert_def lru_touch_def Let_def evict_drop keys_delete
      length_delete_keys simp flip: drop_map split: sum.splits)

subsection \<open>Tags and copies\<close>

text \<open>\<open>[...new Set([\<dots>])]\<close> keeps the first occurrence of each tag.\<close>

fun distinct_first :: "'a list \<Rightarrow> 'a list \<Rightarrow> 'a list" where
  "distinct_first seen [] = []"
| "distinct_first seen (x # xs) =
     (if x \<in> set seen then distinct_first seen xs else x # distinct_first (seen @ [x]) xs)"

definition cacheTags :: "string \<Rightarrow> string list \<Rightarrow> string list" where
  "cacheTags tbl callerTags = distinct_first [] ((''table:'' @ tbl) # callerTags)"

lemma set_distinct_first: "set (distinct_first seen xs) = set xs - set seen"
  by (induction seen xs rule: distinct_first.induct) auto

lemma distinct_distinct_first: "distinct (distinct_first seen xs)"
  by (induction seen xs rule: distinct_first.induct) (auto simp: set_distinct_first)

lemma set_cacheTags: "set (cacheTags tbl ts) = insert (''table:'' @ tbl) (set ts)"
  by (simp add: cacheTags_def set_distinct_first)

end
