(* ===== verification/CachedReads.thy ===== *)
theory CachedReads
  imports Cache
begin

section \<open>The repository's cached reads\<close>

text \<open>
  \<open>copyCachedRows\<close>, and \<open>cachedRows\<close> and \<open>invalidateCache\<close> of \<open>packages/orm/src/index.ts\<close>. Row
  objects are mutable and shared, so they live in a heap: an array of rows is a list of references
  (or of values that are not records), and \<open>{ ...row }\<close> allocates a new object. The theorem of this
  part is that what a caller does to the rows it was given never reaches the cache.
\<close>

datatype 'r item = RowRef nat | Plain 'r

record 'r row_heap =
  rh_next :: nat
  rh_rows :: "nat \<Rightarrow> 'r"

fun copyCachedRows :: "'r item list \<Rightarrow> 'r row_heap \<Rightarrow> 'r row_heap \<times> 'r item list" where
  "copyCachedRows [] h = (h, [])"
| "copyCachedRows (Plain v # is) h = (case copyCachedRows is h of (h', js) \<Rightarrow> (h', Plain v # js))"
| "copyCachedRows (RowRef a # is) h =
     (let n = rh_next h;
          h1 = \<lparr>rh_next = Suc n, rh_rows = (rh_rows h)(n := rh_rows h a)\<rparr>
      in case copyCachedRows is h1 of (h', js) \<Rightarrow> (h', RowRef n # js))"

fun refs :: "'r item list \<Rightarrow> nat set" where
  "refs [] = {}"
| "refs (Plain v # is) = refs is"
| "refs (RowRef a # is) = insert a (refs is)"

fun contents :: "'r row_heap \<Rightarrow> 'r item list \<Rightarrow> (bool \<times> 'r) list" where
  "contents h [] = []"
| "contents h (Plain v # is) = (False, v) # contents h is"
| "contents h (RowRef a # is) = (True, rh_rows h a) # contents h is"

definition allocated :: "'r row_heap \<Rightarrow> 'r item list \<Rightarrow> bool" where
  "allocated h is \<longleftrightarrow> (\<forall>a \<in> refs is. a < rh_next h)"

definition agree_below :: "nat \<Rightarrow> 'r row_heap \<Rightarrow> 'r row_heap \<Rightarrow> bool" where
  "agree_below n h h' \<longleftrightarrow> (\<forall>a < n. rh_rows h' a = rh_rows h a) \<and> rh_next h \<le> rh_next h'"

lemma contents_agree: "(\<And>a. a \<in> refs is \<Longrightarrow> rh_rows h' a = rh_rows h a) \<Longrightarrow> contents h' is = contents h is"
  by (induction h "is" rule: contents.induct) auto

lemma copy_rows:
  "copyCachedRows is h = (h', js) \<Longrightarrow> allocated h is \<Longrightarrow>
     agree_below (rh_next h) h h' \<and> refs js \<subseteq> {rh_next h ..< rh_next h'} \<and> contents h' js = contents h is"
proof (induction "is" h arbitrary: h' js rule: copyCachedRows.induct)
  case (1 h)
  then show ?case by (simp add: agree_below_def)
next
  case (2 v "is" h)
  then show ?case by (auto simp: allocated_def split: prod.splits)
next
  case (3 a "is" h)
  let ?n = "rh_next h"
  let ?h1 = "\<lparr>rh_next = Suc ?n, rh_rows = (rh_rows h)(?n := rh_rows h a)\<rparr>"
  obtain h2 ks where r: "copyCachedRows is ?h1 = (h2, ks)" by force
  have al: "allocated ?h1 is" using 3(3) by (auto simp: allocated_def less_Suc_eq)
  note IH = 3(1) [OF refl refl r al]
  have c: "contents ?h1 is = contents h is"
    by (rule contents_agree) (use 3(3) in \<open>auto simp: allocated_def\<close>)
  have "rh_rows h2 ?n = rh_rows h a" using IH by (simp add: agree_below_def)
  moreover have "h' = h2" "js = RowRef ?n # ks" using 3(2) r by (simp_all add: Let_def)
  ultimately show ?case
    using IH c by (auto simp: agree_below_def)
qed

subsection \<open>\<open>cachedRows\<close>\<close>

text \<open>
  The state is the store, the heap and the flag of \<open>reportCacheFailure\<close>. The store's \<open>get\<close> and \<open>set\<close>
  may throw; \<open>execute\<close> is the read on the database with the decoding of its rows; \<open>aborted i\<close> says
  whether the caller's signal is aborted at the \<open>i\<close>-th \<open>throwIfAborted\<close>.
\<close>

record ('st, 'r) read_state =
  rs_store :: 'st
  rs_heap :: "'r row_heap"
  rs_reported :: bool

definition abort_error :: js_error where
  "abort_error = PlainError ''AbortError''"

definition cachedRows ::
  "(string \<Rightarrow> 'st \<Rightarrow> 'st \<times> (js_error + 'r item list option)) \<Rightarrow>
   (string \<Rightarrow> 'r item list \<Rightarrow> number \<Rightarrow> string list \<Rightarrow> 'st \<Rightarrow> 'st \<times> (js_error + unit)) \<Rightarrow>
   ('r row_heap \<Rightarrow> 'r row_heap \<times> (js_error + 'r item list)) \<Rightarrow>
   string \<Rightarrow> number \<Rightarrow> string list \<Rightarrow> (nat \<Rightarrow> bool) \<Rightarrow> ('st, 'r) read_state \<Rightarrow>
   ('st, 'r) read_state \<times> (js_error + 'r item list)" where
  "cachedRows get put execute key ttl tags aborted s =
     (if \<not> finite_number ttl \<or> num_le ttl (Fin 0)
      then (s, Inl (RangeError ''cache ttlMs must be a positive finite number''))
      else if aborted 0 then (s, Inl abort_error)
      else case get key (rs_store s) of
        (st1, Inl e) \<Rightarrow>
          (case execute (rs_heap s) of (h1, r) \<Rightarrow>
             (s\<lparr>rs_store := st1, rs_heap := h1, rs_reported := True\<rparr>, r))
      | (st1, Inr cached) \<Rightarrow>
          if aborted 1 then (s\<lparr>rs_store := st1\<rparr>, Inl abort_error)
          else (case cached of
            Some rows \<Rightarrow> (case copyCachedRows rows (rs_heap s) of (h1, copy) \<Rightarrow>
                (s\<lparr>rs_store := st1, rs_heap := h1\<rparr>, Inr copy))
          | None \<Rightarrow> (case execute (rs_heap s) of
                (h1, Inl e) \<Rightarrow> (s\<lparr>rs_store := st1, rs_heap := h1\<rparr>, Inl e)
              | (h1, Inr rows) \<Rightarrow>
                  (case copyCachedRows rows h1 of (h2, copy) \<Rightarrow>
                   case put key copy ttl tags st1 of (st2, w) \<Rightarrow>
                     (s\<lparr>rs_store := st2, rs_heap := h2,
                        rs_reported := (case w of Inl _ \<Rightarrow> True | Inr _ \<Rightarrow> rs_reported s)\<rparr>,
                      if aborted 2 then Inl abort_error else Inr rows)))))"

text \<open>\<open>invalidateCache\<close>: without a store there is nothing to do; a failing store is reported.\<close>

definition invalidateCache ::
  "(string list \<Rightarrow> 'st \<Rightarrow> 'st \<times> (js_error + unit)) \<Rightarrow> string \<Rightarrow> string list \<Rightarrow>
   'st option \<times> bool \<Rightarrow> 'st option \<times> bool" where
  "invalidateCache inval tableName tags s = (case s of
     (None, reported) \<Rightarrow> (None, reported)
   | (Some st, reported) \<Rightarrow> (case inval (cacheTags tableName tags) st of
       (st', Inl e) \<Rightarrow> (Some st', True)
     | (st', Inr u) \<Rightarrow> (Some st', reported)))"

text \<open>The memory store at a given time, as such a pair of operations.\<close>

definition memory_get ::
  "rat \<Rightarrow> string \<Rightarrow> 'v memory_store \<Rightarrow> 'v memory_store \<times> (js_error + 'v option)" where
  "memory_get now key st = (case cache_get key now st of (st', v) \<Rightarrow> (st', Inr v))"

definition memory_put ::
  "rat \<Rightarrow> string \<Rightarrow> 'v \<Rightarrow> number \<Rightarrow> string list \<Rightarrow> 'v memory_store \<Rightarrow>
     'v memory_store \<times> (js_error + unit)" where
  "memory_put now key v ttl tags st = cache_set key v ttl tags now st"

text \<open>
  A miss stores private copies: whatever happens afterwards to the rows handed to the caller, to
  rows allocated later, or to rows that existed before, a hit before the expiry returns the contents
  read from the database, in rows of its own, without executing the query.
\<close>

definition others_changed :: "nat set \<Rightarrow> 'r row_heap \<Rightarrow> 'r row_heap \<Rightarrow> bool" where
  "others_changed owned h h' \<longleftrightarrow> (\<forall>a \<in> owned. rh_rows h' a = rh_rows h a) \<and> rh_next h \<le> rh_next h'"

lemma num_less_pos: "finite_number ttl \<and> \<not> num_le ttl (Fin 0) \<longleftrightarrow> finite_number ttl \<and> num_less (Fin 0) ttl"
  by (cases ttl) auto

lemma miss_then_hit:
  assumes wf: "wf_store (rs_store s)" and ttl: "finite_number ttl" "num_less (Fin 0) ttl"
    and miss: "snd (cache_get key t0 (rs_store s)) = None"
    and execute: "execute (rs_heap s) = (h1, Inr rows)" and rows: "allocated h1 rows"
    and first: "cachedRows (memory_get t0) (memory_put t1) execute key ttl tags (\<lambda>_. False) s = (s1, r1)"
  shows "r1 = Inr rows \<and> contents (rs_heap s1) rows = contents h1 rows \<and>
    (\<exists>owned. owned \<inter> refs rows = {} \<and>
      (\<forall>h2 t2 execute' ttl' tags'. others_changed owned (rs_heap s1) h2 \<longrightarrow> t2 < t1 + num_val ttl \<longrightarrow>
        finite_number ttl' \<longrightarrow> num_less (Fin 0) ttl' \<longrightarrow>
        (\<exists>s2 rows2. cachedRows (memory_get t2) (memory_put t2) execute' key ttl' tags' (\<lambda>_. False)
             (s1\<lparr>rs_heap := h2\<rparr>) = (s2, Inr rows2) \<and>
           contents (rs_heap s2) rows2 = contents h1 rows \<and> refs rows2 \<inter> owned = {})))"
proof -
  obtain st1 where g: "cache_get key t0 (rs_store s) = (st1, None)" using miss by (cases "cache_get key t0 (rs_store s)") auto
  have wf1: "wf_store st1" using cache_get_wf [OF wf, of key t0] g by simp
  obtain h' copy where c: "copyCachedRows rows h1 = (h', copy)" by force
  note copy = copy_rows [OF c rows]
  obtain st2 w where p: "cache_set key copy ttl tags t1 st1 = (st2, w)" by force
  have guard: "\<not> (\<not> finite_number n \<or> num_le n (Fin 0))" if "finite_number n" "num_less (Fin 0) n" for n
    using that num_less_pos by blast
  have s1: "r1 = Inr rows" "rs_heap s1 = h'" "rs_store s1 = st2"
    using first guard [OF ttl] g execute c p
    by (auto simp: cachedRows_def memory_get_def memory_put_def)
  have same: "contents h' rows = contents h1 rows"
    by (rule contents_agree) (use copy rows in \<open>auto simp: agree_below_def allocated_def\<close>)
  have disjoint: "refs copy \<inter> refs rows = {}" using copy rows by (fastforce simp: allocated_def)
  have wf2: "wf_store st2" using cache_set_wf [OF wf1, of key copy ttl tags t1] p by simp
  have hit: "\<exists>s2 rows2. cachedRows (memory_get t2) (memory_put t2) execute' key ttl' tags' (\<lambda>_. False)
             (s1\<lparr>rs_heap := h2\<rparr>) = (s2, Inr rows2) \<and>
           contents (rs_heap s2) rows2 = contents h1 rows \<and> refs rows2 \<inter> refs copy = {}"
    if oc: "others_changed (refs copy) h' h2" and t2: "t2 < t1 + num_val ttl"
      and ttl': "finite_number ttl'" "num_less (Fin 0) ttl'" for h2 t2 execute' ttl' tags'
  proof -
    have "snd (cache_get key t2 st2) = Some copy"
      using memory.read_after_write [OF wf1 ttl t2, of key copy tags] p by simp
    then obtain st3 where g2: "cache_get key t2 st2 = (st3, Some copy)"
      by (cases "cache_get key t2 st2") auto
    have al: "allocated h2 copy" using copy oc by (fastforce simp: allocated_def others_changed_def)
    obtain h3 copy2 where c2: "copyCachedRows copy h2 = (h3, copy2)" by force
    note copy2 = copy_rows [OF c2 al]
    have "contents h2 copy = contents h' copy"
      by (rule contents_agree) (use oc in \<open>auto simp: others_changed_def\<close>)
    moreover have "refs copy2 \<inter> refs copy = {}" using copy2 al by (fastforce simp: allocated_def)
    moreover have "cachedRows (memory_get t2) (memory_put t2) execute' key ttl' tags' (\<lambda>_. False)
        (s1\<lparr>rs_heap := h2\<rparr>) = (s1\<lparr>rs_heap := h3, rs_store := st3\<rparr>, Inr copy2)"
      using guard [OF ttl'] g2 c2 s1(3) by (simp add: cachedRows_def memory_get_def)
    moreover have "contents h3 copy2 = contents h2 copy" "contents h' copy = contents h1 rows"
      using copy2 copy by blast+
    ultimately show ?thesis
      by (intro exI [of _ "s1\<lparr>rs_heap := h3, rs_store := st3\<rparr>"] exI [of _ copy2]) simp
  qed
  show ?thesis
    using s1 same by (intro conjI exI [of _ "refs copy"]) (simp_all add: disjoint hit)
qed

end
