(* ===== verification/CacheKey.thy ===== *)
theory CacheKey
  imports Cache Query
begin

section \<open>Cache keys\<close>

text \<open>
  The key of a cached result (\<open>frame\<close>, \<open>taggedValue\<close>, \<open>resultCacheKey\<close> of
  \<open>packages/orm/src/cache/index.ts\<close>). A value is what the code distinguishes by its type tests. An
  array, map, set or object carries its identity, so that the test for a cyclic value is the code's:
  a value that contains itself is given as the finite unfolding down to the repeated identity. Own
  properties of an object are listed in creation order. Strings sort by code units.
\<close>

datatype cval =
    CNull | CUndefined
  | CString string | CNumber jsnum | CBigint int | CBool bool
  | CForeign string
  | CDate jsnum
  | CBinary string "8 word list"
  | CArray nat "cval list"
  | CMap nat "(cval \<times> cval) list"
  | CSet nat "cval list"
  | CObject nat string "(string \<times> cval) list"

definition frame :: "string \<Rightarrow> string \<Rightarrow> string" where
  "frame tag payload = tag @ '':'' @ show_nat (length payload) @ '':'' @ payload"

definition hex_byte :: "8 word \<Rightarrow> string" where
  "hex_byte b = [hex_digit (unat b div 16), hex_digit (unat b mod 16)]"

definition binary :: "string \<Rightarrow> 8 word list \<Rightarrow> string" where
  "binary kind bytes = frame ''x'' (frame ''t'' kind @ frame ''v'' (concat (map hex_byte bytes)))"

definition bool_text :: "bool \<Rightarrow> string" where
  "bool_text b = (if b then ''true'' else ''false'')"

definition cyclic_error :: js_error where
  "cyclic_error = TypeError ''cache keys cannot contain cyclic values''"

function taggedValue :: "cval \<Rightarrow> nat set \<Rightarrow> js_error + string" where
  "taggedValue CNull anc = Inr (frame ''z'' [])"
| "taggedValue CUndefined anc = Inr (frame ''u'' [])"
| "taggedValue (CString s) anc = Inr (frame ''s'' s)"
| "taggedValue (CNumber n) anc = Inr (frame ''n'' (show_num n))"
| "taggedValue (CBigint i) anc = Inr (frame ''i'' (show_int i))"
| "taggedValue (CBool b) anc = Inr (frame ''b'' (bool_text b))"
| "taggedValue (CForeign t) anc = Inl (TypeError (''cache keys cannot contain '' @ t @ '' values''))"
| "taggedValue (CDate t) anc = Inr (frame ''d'' (show_num t))"
| "taggedValue (CBinary kind bytes) anc = Inr (binary kind bytes)"
| "taggedValue (CArray i xs) anc =
     (if i \<in> anc then Inl cyclic_error
      else rbind (map_result (\<lambda>x. taggedValue x (insert i anc)) xs) (\<lambda>ss.
        Inr (frame ''a'' (concat (map (frame ''e'') ss)))))"
| "taggedValue (CMap i ps) anc =
     (if i \<in> anc then Inl cyclic_error
      else rbind (map_result (\<lambda>(k, v).
             rbind (taggedValue k (insert i anc)) (\<lambda>a.
             rbind (taggedValue v (insert i anc)) (\<lambda>b. Inr (frame ''k'' a @ frame ''v'' b)))) ps) (\<lambda>ss.
        Inr (frame ''m'' (concat (sort ss)))))"
| "taggedValue (CSet i xs) anc =
     (if i \<in> anc then Inl cyclic_error
      else rbind (map_result (\<lambda>x. taggedValue x (insert i anc)) xs) (\<lambda>ss.
        Inr (frame ''q'' (concat (map (frame ''e'') (sort ss))))))"
| "taggedValue (CObject i kind ps) anc =
     (if i \<in> anc then Inl cyclic_error
      else rbind (map_result (\<lambda>(k, v).
             rbind (taggedValue v (insert i anc)) (\<lambda>b. Inr (frame ''k'' (frame ''s'' k) @ frame ''v'' b)))
             (sort_key fst ps)) (\<lambda>ss.
        Inr (frame ''o'' (frame ''t'' kind @ concat ss))))"
  by pat_completeness auto
termination
proof (relation "measure (\<lambda>(v, anc). size v)")
  fix i kind ps anc k v p
  assume "p \<in> set (sort_key fst ps)" "(k, v) = (p :: string \<times> cval)"
  then have "(k, v) \<in> set ps" by simp
  then have "size v < Suc (size_list (size_prod (\<lambda>_. 0) size) ps)"
    by (induction ps) auto
  then show "((v, insert i anc), CObject i kind ps, anc) \<in> measure (\<lambda>(v, anc). size v)"
    by (auto simp: less_Suc_eq_le intro: le_trans)
next
  fix i ps anc p k v
  assume "p \<in> set ps" "(k, v) = (p :: cval \<times> cval)"
  then have "(k, v) \<in> set ps" by simp
  then have "size k + size v < Suc (size_list (size_prod size size) ps)"
    by (induction ps) auto
  then show "((k, insert i anc), CMap i ps, anc) \<in> measure (\<lambda>(v, anc). size v)"
    and "((v, insert i anc), CMap i ps, anc) \<in> measure (\<lambda>(v, anc). size v)"
    by auto
qed (auto simp: less_Suc_eq_le size_list_estimation')

definition stableValue :: "cval \<Rightarrow> js_error + string" where
  "stableValue v = taggedValue v {}"

definition segment :: "string \<Rightarrow> cval \<Rightarrow> js_error + string" where
  "segment name v = rbind (stableValue v) (\<lambda>s. Inr (frame name s))"

record cache_input =
  ci_dialect :: string
  ci_schema :: cval
  ci_table :: string
  ci_filters :: "string list"
  ci_text :: string
  ci_params :: "cval list"

text \<open>The arrays the function itself passes on are given fresh identities.\<close>

definition resultCacheKey :: "nat \<Rightarrow> cache_input \<Rightarrow> js_error + string" where
  "resultCacheKey fresh i =
     rbind (map_result (\<lambda>(name, v). segment name v)
        [(''dialect'', CString (ci_dialect i)), (''fingerprint'', ci_schema i),
         (''table'', CString (ci_table i)), (''filters'', CArray fresh (map CString (ci_filters i))),
         (''text'', CString (ci_text i)), (''params'', CArray fresh (ci_params i))])
       (\<lambda>ss. Inr (join ''|'' (''z1'' # ss)))"

subsection \<open>Frames are self-delimiting\<close>

definition plain_tag :: "string \<Rightarrow> bool" where
  "plain_tag t \<longleftrightarrow> CHR '':'' \<notin> set t"

lemma show_nat_plain: "plain_tag (show_nat n)"
  using show_nat_digits [of "CHR '':''" n] by (auto simp: plain_tag_def is_digit_def)

lemma until_colon:
  assumes "a @ '':'' @ r = b @ '':'' @ q" and "plain_tag a" and "plain_tag b"
  shows "a = b \<and> r = q"
proof -
  have "a = takeWhile (\<lambda>c. c \<noteq> CHR '':'') (a @ '':'' @ r)"
    using assms(2) by (subst takeWhile_append2) (auto simp: plain_tag_def)
  also have "\<dots> = takeWhile (\<lambda>c. c \<noteq> CHR '':'') (b @ '':'' @ q)" by (simp only: assms(1))
  also have "\<dots> = b"
    using assms(3) by (subst takeWhile_append2) (auto simp: plain_tag_def)
  finally show ?thesis using assms(1) by simp
qed

lemma frame_split:
  assumes "frame t p @ r = frame u q @ w" and "plain_tag t" and "plain_tag u"
  shows "t = u \<and> p = q \<and> r = w"
proof -
  have e: "t @ '':'' @ show_nat (length p) @ '':'' @ p @ r = u @ '':'' @ show_nat (length q) @ '':'' @ q @ w"
    using assms(1) by (simp add: frame_def)
  from until_colon [OF e assms(2,3)]
  have tu: "t = u" and "show_nat (length p) @ '':'' @ p @ r = show_nat (length q) @ '':'' @ q @ w" by simp_all
  from until_colon [OF this(2) show_nat_plain show_nat_plain]
  have "length p = length q" "p @ r = q @ w" by simp_all
  with tu show ?thesis by simp
qed

lemma frame_inj: "frame t p = frame u q \<Longrightarrow> plain_tag t \<Longrightarrow> plain_tag u \<Longrightarrow> t = u \<and> p = q"
  using frame_split [of t p "[]" u q "[]"] by simp

lemma plain_tags [simp]:
  "plain_tag []" "plain_tag (c # t) \<longleftrightarrow> c \<noteq> CHR '':'' \<and> plain_tag t"
  by (auto simp: plain_tag_def)

lemma frame_nonempty [simp]: "frame t p \<noteq> []"
  by (simp add: frame_def)

text \<open>A \<open>unit\<close> of a sequence: \<open>n\<close> frames in a row.\<close>

fun framed :: "nat \<Rightarrow> string \<Rightarrow> bool" where
  "framed 0 s \<longleftrightarrow> s = []"
| "framed (Suc n) s \<longleftrightarrow> (\<exists>t p r. s = frame t p @ r \<and> plain_tag t \<and> framed n r)"

lemma framed_split: "framed n a \<Longrightarrow> framed n b \<Longrightarrow> a @ r = b @ q \<Longrightarrow> a = b \<and> r = q"
proof (induction n arbitrary: a b)
  case (Suc n)
  obtain t p a' where a: "a = frame t p @ a'" "plain_tag t" "framed n a'" using Suc.prems(1) by auto
  obtain u v b' where b: "b = frame u v @ b'" "plain_tag u" "framed n b'" using Suc.prems(2) by auto
  have "frame t p @ a' @ r = frame u v @ b' @ q" using Suc.prems(3) a b by simp
  from frame_split [OF this a(2) b(2)] Suc.IH [OF a(3) b(3)] show ?case by (auto simp: a b)
qed simp

lemma framed_nonempty: "framed (Suc n) s \<Longrightarrow> s \<noteq> []"
  by auto

lemma framed_concat:
  "\<forall>x \<in> set xs. framed (Suc n) x \<Longrightarrow> \<forall>y \<in> set ys. framed (Suc n) y \<Longrightarrow> concat xs = concat ys \<Longrightarrow> xs = ys"
proof (induction xs arbitrary: ys)
  case Nil
  then show ?case using framed_nonempty by (cases ys) auto
next
  case (Cons x xs)
  then obtain y ys' where ys: "ys = y # ys'" using framed_nonempty by (cases ys) auto
  have "x @ concat xs = y @ concat ys'" using Cons.prems(3) ys by simp
  moreover have "framed (Suc n) x" "framed (Suc n) y" using Cons.prems ys by auto
  ultimately have "x = y \<and> concat xs = concat ys'" using framed_split by blast
  then show ?case using Cons.IH [of ys'] Cons.prems ys by auto
qed

lemma framed_frame: "plain_tag t \<Longrightarrow> framed (Suc 0) (frame t p)"
  by (auto simp: exI [of _ t] exI [of _ p])

lemma framed_pair: "plain_tag t \<Longrightarrow> plain_tag u \<Longrightarrow> framed (Suc (Suc 0)) (frame t p @ frame u q)"
  by (simp, blast)

subsection \<open>Equal keys mean equal values\<close>

text \<open>
  Two values are the same for the cache when they have the same shape and leaves: identities do not
  count, nor the order of the pairs of a map, the members of a set or the properties of an object.
\<close>

inductive same :: "cval \<Rightarrow> cval \<Rightarrow> bool" where
  "same CNull CNull"
| "same CUndefined CUndefined"
| "same (CString s) (CString s)"
| "show_num m = show_num n \<Longrightarrow> same (CNumber m) (CNumber n)"
| "same (CBigint i) (CBigint i)"
| "same (CBool b) (CBool b)"
| "show_num m = show_num n \<Longrightarrow> same (CDate m) (CDate n)"
| "same (CBinary k bs) (CBinary k bs)"
| "list_all2 same xs ys \<Longrightarrow> same (CArray i xs) (CArray j ys)"
| "mset qs' = mset qs \<Longrightarrow> mset ps' = mset ps \<Longrightarrow>
    list_all2 (\<lambda>p q. same (fst p) (fst q) \<and> same (snd p) (snd q)) ps' qs' \<Longrightarrow>
    same (CMap i ps) (CMap j qs)"
| "mset ys' = mset ys \<Longrightarrow> mset xs' = mset xs \<Longrightarrow> list_all2 same xs' ys' \<Longrightarrow>
    same (CSet i xs) (CSet j ys)"
| "mset qs' = mset qs \<Longrightarrow> mset ps' = mset ps \<Longrightarrow>
    list_all2 (\<lambda>p q. fst p = fst q \<and> same (snd p) (snd q)) ps' qs' \<Longrightarrow>
    same (CObject i k ps) (CObject j k qs)"
monos list.rel_mono

lemma frame_eq_iff [simp]: "plain_tag t \<Longrightarrow> plain_tag u \<Longrightarrow> frame t p = frame u q \<longleftrightarrow> t = u \<and> p = q"
  using frame_inj by blast

lemma frames_inj:
  assumes "plain_tag t" and "concat (map (frame t) ss) = concat (map (frame t) ts)"
  shows "ss = ts"
proof -
  have "map (frame t) ss = map (frame t) ts"
    by (rule framed_concat [where n = 0]) (use assms framed_frame in auto)
  moreover have "inj (frame t)" using assms(1) by (simp add: inj_def)
  ultimately show ?thesis by simp
qed

lemma pair_frames_inj:
  "plain_tag t \<Longrightarrow> plain_tag u \<Longrightarrow> frame t a @ frame u b = frame t c @ frame u e \<longleftrightarrow> a = c \<and> b = e"
  using frame_split [of t a "frame u b" t c "frame u e"] by auto

lemma hex_byte_inj: "hex_byte a = hex_byte b \<longleftrightarrow> a = b"
proof
  assume h: "hex_byte a = hex_byte b"
  have "unat a < 256" "unat b < 256" using unsigned_less [of a] unsigned_less [of b] by simp_all
  then have "unat a div 16 = unat b div 16 \<and> unat a mod 16 = unat b mod 16"
    using h by (simp add: hex_byte_def hex_digit_inj)
  then have "unat a = unat b" by (metis div_mod_decomp)
  then show "a = b" by (simp add: word_unat_eq_iff)
qed simp

lemma hex_bytes_inj: "concat (map hex_byte as) = concat (map hex_byte bs) \<Longrightarrow> as = bs"
proof (induction as arbitrary: bs)
  case Nil
  then show ?case by (cases bs) (auto simp: hex_byte_def)
next
  case (Cons a as)
  then obtain b bs' where bs: "bs = b # bs'" by (cases bs) (auto simp: hex_byte_def)
  have "hex_byte a = hex_byte b \<and> concat (map hex_byte as) = concat (map hex_byte bs')"
    using Cons.prems append_eq_append_conv [of "hex_byte a" "hex_byte b"]
    by (simp add: bs hex_byte_def [of a] hex_byte_def [of b])
  then show ?case using Cons.IH bs by (simp add: hex_byte_inj)
qed

lemma show_int_inj: "show_int a = show_int b \<longleftrightarrow> a = b"
proof
  assume e: "show_int a = show_int b"
  have minus: "\<not> is_digit CHR ''-''" by (simp add: is_digit_def)
  have ne: "CHR ''-'' # s \<noteq> show_nat n" for s n
    using hd_show_nat_digit [of n] minus by (metis list.sel(1))
  show "a = b"
    using e ne ne [symmetric] by (auto simp: show_int_def split: if_splits)
qed simp

lemma map_result_reorder:
  assumes "map_result f xs = Inr ss" and "map_result g ys = Inr ts" and "mset ss = mset ts"
  shows "\<exists>ys'. mset ys' = mset ys \<and> list_all2 (\<lambda>x y. \<exists>s. f x = Inr s \<and> g y = Inr s) xs ys'"
proof -
  have "list_all2 (\<lambda>t y. g y = Inr t) ts ys"
    using assms(2) by (simp add: map_result_Inr_list list_all2_conv_all_nth)
  from list_all2_reorder_left_invariance [OF this assms(3)]
  obtain ys' where ys': "list_all2 (\<lambda>t y. g y = Inr t) ss ys'" "mset ys' = mset ys" by blast
  have "list_all2 (\<lambda>x s. f x = Inr s) xs ss" using assms(1) by (simp add: map_result_Inr_list)
  then have "list_all2 (\<lambda>x y. \<exists>s. f x = Inr s \<and> g y = Inr s) xs ys'"
    using ys'(1) by (auto simp: list_all2_conv_all_nth)
  with ys'(2) show ?thesis by blast
qed

lemma tagged_framed: "taggedValue v anc = Inr s \<Longrightarrow> framed (Suc 0) s"
  by (cases "(v, anc)" rule: taggedValue.cases)
    (auto simp: result_simps framed_frame binary_def simp del: framed.simps split: if_splits)

text \<open>A value whose rendering starts with the tag of a container is that container.\<close>

lemma tagged_container:
  "taggedValue w anc = Inr (frame ''a'' x) \<Longrightarrow> \<exists>j ys. w = CArray j ys"
  "taggedValue w anc = Inr (frame ''m'' x) \<Longrightarrow> \<exists>j qs. w = CMap j qs"
  "taggedValue w anc = Inr (frame ''q'' x) \<Longrightarrow> \<exists>j ys. w = CSet j ys"
  "taggedValue w anc = Inr (frame ''o'' x) \<Longrightarrow> \<exists>j k qs. w = CObject j k qs"
  by (cases w; auto simp: result_simps binary_def split: if_splits)+

lemma tagged_leaf:
  "taggedValue w anc = Inr (frame ''z'' x) \<Longrightarrow> w = CNull"
  "taggedValue w anc = Inr (frame ''u'' x) \<Longrightarrow> w = CUndefined"
  "taggedValue w anc = Inr (frame ''s'' x) \<Longrightarrow> w = CString x"
  "taggedValue w anc = Inr (frame ''n'' x) \<Longrightarrow> \<exists>n. w = CNumber n \<and> show_num n = x"
  "taggedValue w anc = Inr (frame ''i'' (show_int i)) \<Longrightarrow> w = CBigint i"
  "taggedValue w anc = Inr (frame ''b'' (bool_text b)) \<Longrightarrow> w = CBool b"
  "taggedValue w anc = Inr (frame ''d'' x) \<Longrightarrow> \<exists>n. w = CDate n \<and> show_num n = x"
  by (cases w; auto simp: result_simps binary_def show_int_inj bool_text_def split: if_splits)+

lemma tagged_binary:
  "taggedValue w anc = Inr (binary kind bytes) \<Longrightarrow> w = CBinary kind bytes"
  by (cases w) (auto simp: result_simps binary_def pair_frames_inj split: if_splits intro: hex_bytes_inj)

lemma sort_eq_mset: "sort ss = sort (ts :: string list) \<Longrightarrow> mset ss = mset ts"
  by (metis mset_sort)

lemma map_result_all:
  assumes "map_result f xs = Inr us" and "\<And>x u. f x = Inr u \<Longrightarrow> P u"
  shows "\<forall>u \<in> set us. P u"
  using assms(1)[unfolded map_result_Inr_list] assms(2) by (induction rule: list_all2_induct) auto

lemma tagged_same:
  "taggedValue v anc = Inr s \<Longrightarrow> taggedValue w anc' = Inr s \<Longrightarrow> same v w"
proof (induction v anc arbitrary: w anc' s rule: taggedValue.induct)
  case (10 i xs anc)
  obtain ss where ss: "i \<notin> anc" "map_result (\<lambda>x. taggedValue x (insert i anc)) xs = Inr ss"
    and s: "s = frame ''a'' (concat (map (frame ''e'') ss))"
    using 10(2) by (auto simp: result_simps split: if_splits)
  obtain j ys where w: "w = CArray j ys" using tagged_container(1) 10(3) s by blast
  obtain ts where ts: "map_result (\<lambda>x. taggedValue x (insert j anc')) ys = Inr ts"
    and "s = frame ''a'' (concat (map (frame ''e'') ts))"
    using 10(3) by (auto simp: w result_simps split: if_splits)
  then have "concat (map (frame ''e'') ts) = concat (map (frame ''e'') ss)" using s by simp
  then have "ts = ss" by (rule frames_inj [rotated]) simp
  then have "list_all2 (\<lambda>x y. \<exists>t. taggedValue x (insert i anc) = Inr t \<and>
      taggedValue y (insert j anc') = Inr t) xs ys"
    using ss(2) ts by (auto simp: map_result_Inr_list list_all2_conv_all_nth)
  then have "list_all2 same xs ys"
    by (rule list.rel_mono_strong) (use 10(1) [OF ss(1)] in blast)
  then show ?case unfolding w by (rule same.intros)
next
  case (11 i ps anc)
  let ?f = "\<lambda>a (k, v). rbind (taggedValue k a) (\<lambda>a1. rbind (taggedValue v a) (\<lambda>b.
      Inr (frame ''k'' a1 @ frame ''v'' b)))"
  obtain ss where ss: "i \<notin> anc" "map_result (?f (insert i anc)) ps = Inr ss"
    and s: "s = frame ''m'' (concat (sort ss))"
    using 11(3) by (auto simp: result_simps split: if_splits)
  obtain j qs where w: "w = CMap j qs" using tagged_container(2) 11(4) s by blast
  obtain ts where ts: "map_result (?f (insert j anc')) qs = Inr ts"
    and st: "s = frame ''m'' (concat (sort ts))"
    using 11(4) by (auto simp: w result_simps split: if_splits)
  have units: "\<forall>x \<in> set us. framed (Suc (Suc 0)) x" if "map_result (?f a) rs = Inr us" for us rs a
    by (rule map_result_all [OF that]) (auto simp: result_simps simp del: framed.simps intro!: framed_pair)
  have "sort ss = sort ts"
    by (rule framed_concat [where n = "Suc 0"]) (use units [OF ss(2)] units [OF ts] s st in auto)
  from map_result_reorder [OF ss(2) ts sort_eq_mset [OF this]]
  obtain qs' where qs': "mset qs' = mset qs" "list_all2 (\<lambda>p q. \<exists>t. ?f (insert i anc) p = Inr t \<and>
      ?f (insert j anc') q = Inr t) ps qs'" by blast
  have "list_all2 (\<lambda>p q. same (fst p) (fst q) \<and> same (snd p) (snd q)) ps qs'"
  proof (rule list.rel_mono_strong [OF qs'(2)])
    fix p q assume p: "p \<in> set ps"
      and e: "\<exists>t. ?f (insert i anc) p = Inr t \<and> ?f (insert j anc') q = Inr t"
    obtain k v l u where pq: "p = (k, v)" "q = (l, u)" by (meson surj_pair)
    show "same (fst p) (fst q) \<and> same (snd p) (snd q)"
      using e 11(1) [OF ss(1) p, of k v] 11(2) [OF ss(1) p, of k v]
      by (auto simp: pq result_simps pair_frames_inj)
  qed
  with qs'(1) show ?case unfolding w by (intro same.intros) auto
next
  case (12 i xs anc)
  obtain ss where ss: "i \<notin> anc" "map_result (\<lambda>x. taggedValue x (insert i anc)) xs = Inr ss"
    and s: "s = frame ''q'' (concat (map (frame ''e'') (sort ss)))"
    using 12(2) by (auto simp: result_simps split: if_splits)
  obtain j ys where w: "w = CSet j ys" using tagged_container(3) 12(3) s by blast
  obtain ts where ts: "map_result (\<lambda>x. taggedValue x (insert j anc')) ys = Inr ts"
    and st: "s = frame ''q'' (concat (map (frame ''e'') (sort ts)))"
    using 12(3) by (auto simp: w result_simps split: if_splits)
  have "concat (map (frame ''e'') (sort ss)) = concat (map (frame ''e'') (sort ts))" using s st by simp
  then have "sort ss = sort ts" by (rule frames_inj [rotated]) simp
  from map_result_reorder [OF ss(2) ts sort_eq_mset [OF this]]
  obtain ys' where ys': "mset ys' = mset ys" "list_all2 (\<lambda>x y. \<exists>t. taggedValue x (insert i anc) = Inr t \<and>
      taggedValue y (insert j anc') = Inr t) xs ys'" by blast
  have "list_all2 same xs ys'"
    by (rule list.rel_mono_strong [OF ys'(2)]) (use 12(1) [OF ss(1)] in blast)
  with ys'(1) show ?case unfolding w by (intro same.intros) auto
next
  case (13 i kind ps anc)
  let ?g = "\<lambda>a (k, v). rbind (taggedValue v a) (\<lambda>b. Inr (frame ''k'' (frame ''s'' k) @ frame ''v'' b))"
  obtain ss where ss: "i \<notin> anc" "map_result (?g (insert i anc)) (sort_key fst ps) = Inr ss"
    and s: "s = frame ''o'' (frame ''t'' kind @ concat ss)"
    using 13(2) by (auto simp: result_simps split: if_splits)
  obtain j kind' qs where w: "w = CObject j kind' qs" using tagged_container(4) 13(3) s by blast
  obtain ts where ts: "map_result (?g (insert j anc')) (sort_key fst qs) = Inr ts"
    and st: "s = frame ''o'' (frame ''t'' kind' @ concat ts)"
    using 13(3) by (auto simp: w result_simps split: if_splits)
  have units: "\<forall>x \<in> set us. framed (Suc (Suc 0)) x" if "map_result (?g a) rs = Inr us" for us rs a
    by (rule map_result_all [OF that]) (auto simp: result_simps simp del: framed.simps intro!: framed_pair)
  have k: "kind = kind'" "concat ss = concat ts"
    using s st frame_split [of "''t''" kind "concat ss" "''t''" kind' "concat ts"] by auto
  have "ss = ts"
    by (rule framed_concat [where n = "Suc 0"]) (use units [OF ss(2)] units [OF ts] k in auto)
  then have all: "list_all2 (\<lambda>p q. \<exists>t. ?g (insert i anc) p = Inr t \<and> ?g (insert j anc') q = Inr t)
      (sort_key fst ps) (sort_key fst qs)"
    using ss(2) ts by (auto simp: map_result_Inr_list list_all2_conv_all_nth)
  have "list_all2 (\<lambda>p q. fst p = fst q \<and> same (snd p) (snd q)) (sort_key fst ps) (sort_key fst qs)"
  proof (rule list.rel_mono_strong [OF all])
    fix p q assume p: "p \<in> set (sort_key fst ps)"
      and e: "\<exists>t. ?g (insert i anc) p = Inr t \<and> ?g (insert j anc') q = Inr t"
    obtain k v l u where pq: "p = (k, v)" "q = (l, u)" by (meson surj_pair)
    show "fst p = fst q \<and> same (snd p) (snd q)"
      using e 13(1) [OF ss(1) p, of k v] by (auto simp: pq result_simps pair_frames_inj)
  qed
  then show ?case unfolding w k(1) by (intro same.intros) auto
next
  case (1 anc)
  then have "w = CNull" by (auto dest: tagged_leaf(1))
  then show ?case by (simp add: same.intros)
next
  case (2 anc)
  then have "w = CUndefined" by (auto dest: tagged_leaf(2))
  then show ?case by (simp add: same.intros)
next
  case (3 s0 anc)
  then have "w = CString s0" by (auto dest: tagged_leaf(3))
  then show ?case by (simp add: same.intros)
next
  case (4 n anc)
  then obtain n' where "w = CNumber n'" "show_num n' = show_num n" by (auto dest!: tagged_leaf(4))
  then show ?case by (simp add: same.intros)
next
  case (5 i anc)
  then have "w = CBigint i" by (auto dest: tagged_leaf(5))
  then show ?case by (simp add: same.intros)
next
  case (6 b anc)
  then have "w = CBool b" by (auto dest: tagged_leaf(6))
  then show ?case by (simp add: same.intros)
next
  case (8 t anc)
  then obtain n' where "w = CDate n'" "show_num n' = show_num t" by (auto dest!: tagged_leaf(7))
  then show ?case by (simp add: same.intros)
next
  case (9 kind bytes anc)
  then have "w = CBinary kind bytes" by (auto dest: tagged_binary)
  then show ?case by (simp add: same.intros)
qed simp_all

lemma same_strings: "same (CArray i (map CString xs)) (CArray j (map CString ys)) \<Longrightarrow> xs = ys"
proof -
  assume "same (CArray i (map CString xs)) (CArray j (map CString ys))"
  then have "list_all2 same (map CString xs) (map CString ys)" by cases
  then have "list_all2 (\<lambda>x y. same (CString x) (CString y)) xs ys"
    by (simp add: list.rel_map)
  then have "list_all2 (=) xs ys" by (rule list.rel_mono_strong) (auto elim: same.cases)
  then show ?thesis by (simp add: list.rel_eq)
qed

lemma resultCacheKey_parts:
  assumes "resultCacheKey f i = Inr key"
  shows "\<exists>s1 s2 s3 s4 s5 s6. key = ''z1|'' @ frame ''dialect'' s1 @ ''|'' @ frame ''fingerprint'' s2 @ ''|'' @
      frame ''table'' s3 @ ''|'' @ frame ''filters'' s4 @ ''|'' @ frame ''text'' s5 @ ''|'' @ frame ''params'' s6 \<and>
    taggedValue (CString (ci_dialect i)) {} = Inr s1 \<and> taggedValue (ci_schema i) {} = Inr s2 \<and>
    taggedValue (CString (ci_table i)) {} = Inr s3 \<and>
    taggedValue (CArray f (map CString (ci_filters i))) {} = Inr s4 \<and>
    taggedValue (CString (ci_text i)) {} = Inr s5 \<and> taggedValue (CArray f (ci_params i)) {} = Inr s6"
  using assms
  by (auto simp: resultCacheKey_def segment_def stableValue_def result_simps simp del: taggedValue.simps)

lemma frame_bar: "frame t p @ c # r = frame u q @ e # w \<Longrightarrow> plain_tag t \<Longrightarrow> plain_tag u \<Longrightarrow>
    p = q \<and> r = w"
  using frame_split [of t p "c # r" u q "e # w"] by simp

lemma resultCacheKey_inj:
  assumes "resultCacheKey f i = Inr key" and "resultCacheKey g j = Inr key"
  shows "ci_dialect i = ci_dialect j \<and> same (ci_schema i) (ci_schema j) \<and> ci_table i = ci_table j \<and>
    ci_filters i = ci_filters j \<and> ci_text i = ci_text j \<and> list_all2 same (ci_params i) (ci_params j)"
proof -
  obtain s1 s2 s3 s4 s5 s6 where k1: "key = ''z1|'' @ frame ''dialect'' s1 @ ''|'' @ frame ''fingerprint'' s2 @ ''|'' @
      frame ''table'' s3 @ ''|'' @ frame ''filters'' s4 @ ''|'' @ frame ''text'' s5 @ ''|'' @ frame ''params'' s6"
    and i: "taggedValue (CString (ci_dialect i)) {} = Inr s1" "taggedValue (ci_schema i) {} = Inr s2"
    "taggedValue (CString (ci_table i)) {} = Inr s3"
    "taggedValue (CArray f (map CString (ci_filters i))) {} = Inr s4"
    "taggedValue (CString (ci_text i)) {} = Inr s5" "taggedValue (CArray f (ci_params i)) {} = Inr s6"
    using resultCacheKey_parts [OF assms(1)] by blast
  obtain t1 t2 t3 t4 t5 t6 where k2: "key = ''z1|'' @ frame ''dialect'' t1 @ ''|'' @ frame ''fingerprint'' t2 @ ''|'' @
      frame ''table'' t3 @ ''|'' @ frame ''filters'' t4 @ ''|'' @ frame ''text'' t5 @ ''|'' @ frame ''params'' t6"
    and j: "taggedValue (CString (ci_dialect j)) {} = Inr t1" "taggedValue (ci_schema j) {} = Inr t2"
    "taggedValue (CString (ci_table j)) {} = Inr t3"
    "taggedValue (CArray g (map CString (ci_filters j))) {} = Inr t4"
    "taggedValue (CString (ci_text j)) {} = Inr t5" "taggedValue (CArray g (ci_params j)) {} = Inr t6"
    using resultCacheKey_parts [OF assms(2)] by blast
  have "s1 = t1 \<and> s2 = t2 \<and> s3 = t3 \<and> s4 = t4 \<and> s5 = t5 \<and> s6 = t6"
    using k1 k2 by (auto dest!: frame_bar)
  then have "same (CString (ci_dialect i)) (CString (ci_dialect j))" "same (ci_schema i) (ci_schema j)"
    "same (CString (ci_table i)) (CString (ci_table j))"
    "same (CArray f (map CString (ci_filters i))) (CArray g (map CString (ci_filters j)))"
    "same (CString (ci_text i)) (CString (ci_text j))" "same (CArray f (ci_params i)) (CArray g (ci_params j))"
    using i j tagged_same by blast+
  then show ?thesis using same_strings by (auto elim: same.cases)
qed

end
