(* ===== verification/CacheProperties.thy ===== *)
theory CacheProperties
  imports CachedReads CacheKey
begin

section \<open>Properties of the result cache\<close>

text \<open>
  The statements about \<open>packages/orm/src/cache/index.ts\<close> and the cached reads of
  \<open>packages/orm/src/index.ts\<close>, over every history of operations on a store.
\<close>

lemma memoryStore_empty: "memoryStore n = Inr s \<Longrightarrow> cache_lookup s k = None"
  by (auto simp: memoryStore_def result_simps cache_lookup_def)

text \<open>
  C30: whatever operations a memory store has run, a read returns only the value of the last accepted
  \<open>set\<close> of that key which no later invalidation names, and only before that entry expires.
\<close>
theorem cache_hit_is_fresh:
  assumes "memoryStore n = Inr s"
    and "snd (cache_get k now (cache_run cache_get cache_set invalidateTags ops s)) = Some v"
  shows "\<exists>e. history_entry k (rev ops) = Some e \<and> me_value e = v \<and> now < me_expiresAt e"
  using memory.hit_is_fresh [OF memoryStore_wf [OF assms(1)] _ assms(2)] memoryStore_empty [OF assms(1)]
  by blast

definition two_writes :: "nat cache_op list" where
  "two_writes = [SetOp ''k'' 1 (Fin 10) [''t''] 0, SetOp ''k'' 2 (Fin 10) [''u''] 1, InvalidateOp [''t'']]"

definition small_store :: "nat memory_store" where
  "small_store = \<lparr>ms_maxEntries = 2, ms_entries = []\<rparr>"

lemma small_store_made: "memoryStore (Some (Fin 2)) = Inr small_store"
  by (simp add: memoryStore_def positiveInteger_def safe_limit_def num_int_def small_store_def result_simps)

theorem cache_hit_is_fresh_witness:
  "\<exists>e. history_entry ''k'' (rev two_writes) = Some e \<and> me_value e = 2 \<and> 5 < me_expiresAt e"
  by (rule cache_hit_is_fresh [OF small_store_made])
    (simp add: two_writes_def small_store_def cache_run_def cache_set_def cache_get_def Let_def
      positiveDuration_def invalidateTags_def)

text \<open>
  a memory store keeps distinct keys and never holds more than its maximum of entries, after any
  sequence of reads, writes (accepted or refused) and invalidations.
\<close>
theorem cache_stays_bounded:
  assumes "memoryStore n = Inr s"
  shows "let s' = cache_run cache_get cache_set invalidateTags ops s in
    distinct (map fst (ms_entries s')) \<and> length (ms_entries s') \<le> ms_maxEntries s'"
  using memory.run_inv [OF memoryStore_wf [OF assms], of ops] by (simp add: wf_store_def Let_def)

theorem cache_stays_bounded_witness:
  "length (ms_entries (cache_run cache_get cache_set invalidateTags two_writes small_store)) \<le>
     ms_maxEntries (cache_run cache_get cache_set invalidateTags two_writes small_store)"
  using cache_stays_bounded [OF small_store_made, of two_writes] by (simp add: Let_def)


text \<open>
  C31: two reads share a cache key only when they are the same read: the same dialect, the same schema
  fingerprint, table, filters and SQL text, and equal parameters up to object identity, property
  order and the order of map pairs and set members.
\<close>
theorem cache_key_injective:
  assumes "resultCacheKey f i = Inr key" and "resultCacheKey g j = Inr key"
  shows "ci_dialect i = ci_dialect j \<and> same (ci_schema i) (ci_schema j) \<and> ci_table i = ci_table j \<and>
    ci_filters i = ci_filters j \<and> ci_text i = ci_text j \<and> list_all2 same (ci_params i) (ci_params j)"
  by (rule resultCacheKey_inj [OF assms])

definition sample_input :: cache_input where
  "sample_input = \<lparr>ci_dialect = ''postgres'', ci_schema = CObject 1 ''[object Object]'' [(''b'', CNull), (''a'', CBool True)],
     ci_table = ''users'', ci_filters = [], ci_text = ''SELECT 1'', ci_params = [CString ''x'', CBigint 4]\<rparr>"

lemma sample_input_has_key: "\<exists>key. resultCacheKey 0 sample_input = Inr key"
  by (simp add: resultCacheKey_def sample_input_def segment_def stableValue_def result_simps)

theorem cache_key_injective_witness:
  "\<exists>key. resultCacheKey 0 sample_input = Inr key \<and> list_all2 same (ci_params sample_input) (ci_params sample_input)"
proof -
  obtain key where "resultCacheKey 0 sample_input = Inr key" using sample_input_has_key by blast
  with cache_key_injective [OF this this] show ?thesis by blast
qed

text \<open>
  a cached read hands out rows of its own. After a miss, the caller gets the rows the query
  returned, unchanged; whatever is then done to any row other than the store's private copies, every
  later hit before the expiry returns the contents first read, in fresh rows and without running the
  query.
\<close>
theorem cached_rows_isolated:
  assumes "wf_store (rs_store s)" and "finite_number ttl" "num_less (Fin 0) ttl"
    and "snd (cache_get key t0 (rs_store s)) = None"
    and "execute (rs_heap s) = (h1, Inr rows)" and "allocated h1 rows"
    and "cachedRows (memory_get t0) (memory_put t1) execute key ttl tags (\<lambda>_. False) s = (s1, r1)"
  shows "r1 = Inr rows \<and> contents (rs_heap s1) rows = contents h1 rows \<and>
    (\<exists>owned. owned \<inter> refs rows = {} \<and>
      (\<forall>h2 t2 execute' ttl' tags'. others_changed owned (rs_heap s1) h2 \<longrightarrow> t2 < t1 + num_val ttl \<longrightarrow>
        finite_number ttl' \<longrightarrow> num_less (Fin 0) ttl' \<longrightarrow>
        (\<exists>s2 rows2. cachedRows (memory_get t2) (memory_put t2) execute' key ttl' tags' (\<lambda>_. False)
             (s1\<lparr>rs_heap := h2\<rparr>) = (s2, Inr rows2) \<and>
           contents (rs_heap s2) rows2 = contents h1 rows \<and> refs rows2 \<inter> owned = {})))"
  by (rule miss_then_hit [OF assms])

definition empty_read :: "(nat item list memory_store, nat) read_state" where
  "empty_read = \<lparr>rs_store = \<lparr>ms_maxEntries = 2, ms_entries = []\<rparr>,
     rs_heap = \<lparr>rh_next = 1, rh_rows = (\<lambda>_. 7)\<rparr>, rs_reported = False\<rparr>"

theorem cached_rows_isolated_witness:
  "snd (cachedRows (memory_get 0) (memory_put 0) (\<lambda>h. (h, Inr [RowRef 0])) ''k'' (Fin 5) [] (\<lambda>_. False)
     empty_read) = Inr [RowRef 0]"
proof -
  obtain s1 r1 where r: "cachedRows (memory_get 0) (memory_put 0) (\<lambda>h. (h, Inr [RowRef 0])) ''k'' (Fin 5) []
     (\<lambda>_. False) empty_read = (s1, r1)" by force
  have "r1 = Inr [RowRef 0]"
    by (rule conjunct1 [OF cached_rows_isolated [OF _ _ _ _ _ _ r]])
      (auto simp: empty_read_def wf_store_def cache_get_def allocated_def)
  then show ?thesis by (simp add: r)
qed

end
