(* ===== verification/JobQueue.thy ===== *)
theory JobQueue
  imports Numbers
begin

section \<open>The job queue: configuration, retry policy, enqueue and candidate selection\<close>

text \<open>
  The synchronous parts of \<open>packages/jobs/src/queues/index.ts\<close>: the argument checks, the constructor of
  a worker, the retry delay, the enqueue request and the choice of the candidates to claim. Instants
  and durations are milliseconds. A number the code checks is a \<open>number\<close>, so the checks see infinities
  and NaN; \<open>Math.random()\<close>, \<open>crypto.randomUUID()\<close>, \<open>JSON.stringify\<close> and the clock are arguments.
\<close>

datatype backoff = Fixed number | Exponential number number

record retry_policy =
  rp_attempts :: number
  rp_backoff :: backoff

datatype dead_reason = InvalidPayload | UnknownName | AttemptsExhausted

record job_candidate =
  jc_id :: string
  jc_name :: string
  jc_enqueuedAt :: rat

record claimed_job = job_candidate +
  cj_payload :: string
  cj_attempts :: nat
  cj_dedupeKey :: "string option"
  cj_holder :: string

datatype job_settlement =
    SettleDone (ss_job: string) (ss_holder: string) string rat
  | SettleRetry (ss_job: string) (ss_holder: string) nat rat string
  | SettleDead (ss_job: string) (ss_holder: string) nat dead_reason string rat
  | SettleRelease (ss_job: string) (ss_holder: string) rat

record run_report =
  rr_claimed :: nat
  rr_done :: nat
  rr_retried :: nat
  rr_dead :: nat
  rr_skipped :: nat

definition emptyReport :: run_report where
  "emptyReport = \<lparr>rr_claimed = 0, rr_done = 0, rr_retried = 0, rr_dead = 0, rr_skipped = 0\<rparr>"

definition addReport :: "run_report \<Rightarrow> run_report \<Rightarrow> run_report" where
  "addReport target source =
     \<lparr>rr_claimed = rr_claimed target + rr_claimed source, rr_done = rr_done target + rr_done source,
      rr_retried = rr_retried target + rr_retried source, rr_dead = rr_dead target + rr_dead source,
      rr_skipped = rr_skipped target + rr_skipped source\<rparr>"

definition DEFAULT_TIMEOUT_MS :: number where "DEFAULT_TIMEOUT_MS = Fin 30000"
definition DEFAULT_RETRIES :: retry_policy where
  "DEFAULT_RETRIES = \<lparr>rp_attempts = Fin 5, rp_backoff = Exponential (Fin 1000) (Fin 300000)\<rparr>"
definition DEFAULT_BATCH :: number where "DEFAULT_BATCH = Fin 100"
definition DEFAULT_IDLE_MS :: number where "DEFAULT_IDLE_MS = Fin 1000"
definition DEFAULT_MAX_IDLE_MS :: number where "DEFAULT_MAX_IDLE_MS = Fin 30000"

subsection \<open>Argument checks\<close>

definition require_integer :: "string \<Rightarrow> number \<Rightarrow> int \<Rightarrow> js_error + unit" where
  "require_integer name value minimum =
     (if \<not> safe_integer value \<or> num_less value (Fin (of_int minimum))
      then Inl (RangeError (name @ '' must be a safe integer greater than or equal to '' @ show_int minimum))
      else Inr ())"

definition require_duration :: "string \<Rightarrow> number \<Rightarrow> bool \<Rightarrow> js_error + unit" where
  "require_duration name value allowZero =
     (if \<not> finite_number value \<or> (if allowZero then num_less value (Fin 0) else num_le value (Fin 0))
      then Inl (RangeError (name @ '' must be '' @
        (if allowZero then ''non-negative'' else ''positive'') @ '' and finite''))
      else Inr ())"

definition validateRetryPolicy :: "string \<Rightarrow> retry_policy \<Rightarrow> js_error + unit" where
  "validateRetryPolicy name policy =
     rbind (require_integer (name @ ''.attempts'') (rp_attempts policy) 1) (\<lambda>_.
     case rp_backoff policy of
       Fixed delayMs \<Rightarrow> require_duration (name @ ''.backoff.delayMs'') delayMs False
     | Exponential baseMs ceilingMs \<Rightarrow>
         rbind (require_duration (name @ ''.backoff.baseMs'') baseMs False) (\<lambda>_.
         rbind (require_duration (name @ ''.backoff.ceilingMs'') ceilingMs False) (\<lambda>_.
         if num_less ceilingMs baseMs
         then Inl (RangeError (name @ ''.backoff.ceilingMs must be greater than or equal to baseMs''))
         else Inr ())))"

lemma require_integer_Inr [result_simps]:
  "require_integer name v m = Inr u \<longleftrightarrow> (\<exists>i. v = Fin (of_int i) \<and> m \<le> i \<and> \<bar>i\<bar> \<le> safe_limit)"
  by (auto simp: require_integer_def safe_integer_iff)

lemma require_duration_Inr [result_simps]:
  "require_duration name v z = Inr u \<longleftrightarrow> (\<exists>q. v = Fin q \<and> (if z then 0 \<le> q else 0 < q))"
  by (cases v) (auto simp: require_duration_def)

text \<open>A checked policy: at least one attempt, positive delays, a ceiling not below the base.\<close>

definition sound_policy :: "retry_policy \<Rightarrow> bool" where
  "sound_policy p \<longleftrightarrow> (\<exists>i. rp_attempts p = Fin (of_int i) \<and> 1 \<le> i) \<and>
     (case rp_backoff p of
        Fixed d \<Rightarrow> \<exists>q. d = Fin q \<and> 0 < q
      | Exponential b c \<Rightarrow> \<exists>q r. b = Fin q \<and> c = Fin r \<and> 0 < q \<and> q \<le> r)"

lemma validateRetryPolicy_sound: "validateRetryPolicy name p = Inr u \<Longrightarrow> sound_policy p"
  by (auto simp: validateRetryPolicy_def sound_policy_def result_simps split: backoff.splits if_splits)

subsection \<open>The delay of a retry\<close>

definition nominal_delay :: "retry_policy \<Rightarrow> nat \<Rightarrow> rat" where
  "nominal_delay policy attempt = (case rp_backoff policy of
     Fixed delayMs \<Rightarrow> num_val delayMs
   | Exponential baseMs ceilingMs \<Rightarrow> min (num_val ceilingMs) (num_val baseMs * 2 ^ (attempt - 1)))"

definition jitter :: "retry_policy \<Rightarrow> nat \<Rightarrow> rat \<Rightarrow> rat" where
  "jitter policy attempt random = nominal_delay policy attempt * (3/4 + random * (1/2))"

lemma nominal_pos: "sound_policy p \<Longrightarrow> 0 < nominal_delay p attempt"
  by (auto simp: sound_policy_def nominal_delay_def split: backoff.splits)

lemma nominal_mono: "sound_policy p \<Longrightarrow> m \<le> n \<Longrightarrow> nominal_delay p m \<le> nominal_delay p n"
  by (auto simp: sound_policy_def nominal_delay_def min_def split: backoff.splits
      intro: order_trans mult_left_mono power_increasing)

lemma jitter_bounds:
  assumes "sound_policy p" and "0 \<le> r" and "r < 1"
  shows "3/4 * nominal_delay p a \<le> jitter p a r \<and> jitter p a r < 5/4 * nominal_delay p a"
proof -
  have "nominal_delay p a * (3/4) \<le> nominal_delay p a * (3/4 + r * (1/2))"
    "nominal_delay p a * (3/4 + r * (1/2)) < nominal_delay p a * (5/4)"
    using nominal_pos [OF assms(1), of a] assms(2,3) by (intro mult_left_mono mult_strict_left_mono; simp)+
  then show ?thesis by (simp add: jitter_def mult.commute)
qed

subsection \<open>The constructor of a worker\<close>

text \<open>
  A handler is what \<open>runtimeHandler\<close> keeps of it: its name, its overrides, and \<open>prepare\<close>, which
  validates the parsed payload (or throws, with a message) before anything runs.
\<close>

record ('raw, 'p) runtime_handler =
  rh_name :: string
  rh_concurrency :: "number option"
  rh_timeoutMs :: "number option"
  rh_retries :: "retry_policy option"
  rh_prepare :: "'raw \<Rightarrow> string + 'p"

record ('raw, 'p) worker_options =
  wo_handlers :: "('raw, 'p) runtime_handler list"
  wo_concurrency :: number
  wo_graceMs :: number
  wo_leaseMs :: number
  wo_timeoutMs :: "number option"
  wo_retries :: "retry_policy option"
  wo_batch :: "number option"
  wo_idleMs :: "number option"
  wo_maxIdleMs :: "number option"

record ('raw, 'p) worker_config =
  wc_handlers :: "(string \<times> ('raw, 'p) runtime_handler) list"
  wc_concurrency :: nat
  wc_graceMs :: rat
  wc_leaseMs :: rat
  wc_timeoutMs :: rat
  wc_retries :: retry_policy
  wc_batch :: nat
  wc_idleMs :: rat
  wc_maxIdleMs :: rat

definition or_default :: "'a option \<Rightarrow> 'a \<Rightarrow> 'a" where
  "or_default v d = (case v of None \<Rightarrow> d | Some x \<Rightarrow> x)"

text \<open>The checks of one declared handler, against the worker's own bounds.\<close>

definition check_handler :: "number \<Rightarrow> number \<Rightarrow> ('raw, 'p) runtime_handler \<Rightarrow> js_error + unit" where
  "check_handler concurrency leaseMs h =
     rbind (case rh_concurrency h of None \<Rightarrow> Inr () | Some c \<Rightarrow>
        rbind (require_integer (rh_name h @ ''.concurrency'') c 1) (\<lambda>_.
        if num_less concurrency c
        then Inl (RangeError (rh_name h @ ''.concurrency cannot exceed worker concurrency''))
        else Inr ())) (\<lambda>_.
     rbind (case rh_timeoutMs h of None \<Rightarrow> Inr () | Some t \<Rightarrow>
        rbind (require_duration (rh_name h @ ''.timeoutMs'') t False) (\<lambda>_.
        if num_le leaseMs t
        then Inl (RangeError (''leaseMs must be greater than '' @ rh_name h @ ''.timeoutMs''))
        else Inr ())) (\<lambda>_.
     case rh_retries h of None \<Rightarrow> Inr () | Some p \<Rightarrow> validateRetryPolicy (rh_name h @ ''.retries'') p))"

fun add_handlers ::
  "number \<Rightarrow> number \<Rightarrow> ('raw, 'p) runtime_handler list \<Rightarrow> (string \<times> ('raw, 'p) runtime_handler) list \<Rightarrow>
     js_error + (string \<times> ('raw, 'p) runtime_handler) list" where
  "add_handlers concurrency leaseMs [] handlers = Inr handlers"
| "add_handlers concurrency leaseMs (h # hs) handlers =
     (if rh_name h \<in> fst ` set handlers
      then Inl (PlainError (''duplicate queue handler: '' @ rh_name h))
      else rbind (check_handler concurrency leaseMs h) (\<lambda>_.
        add_handlers concurrency leaseMs hs (handlers @ [(rh_name h, h)])))"

definition newWorker :: "('raw, 'p) worker_options \<Rightarrow> js_error + ('raw, 'p) worker_config" where
  "newWorker opts =
     rbind (require_integer ''concurrency'' (wo_concurrency opts) 1) (\<lambda>_.
     rbind (require_duration ''graceMs'' (wo_graceMs opts) True) (\<lambda>_.
     rbind (require_duration ''leaseMs'' (wo_leaseMs opts) False) (\<lambda>_.
     let timeoutMs = or_default (wo_timeoutMs opts) DEFAULT_TIMEOUT_MS;
         retries = or_default (wo_retries opts) DEFAULT_RETRIES;
         batch = or_default (wo_batch opts) DEFAULT_BATCH;
         idleMs = or_default (wo_idleMs opts) DEFAULT_IDLE_MS;
         maxIdleMs = or_default (wo_maxIdleMs opts) DEFAULT_MAX_IDLE_MS in
     rbind (require_duration ''timeoutMs'' timeoutMs False) (\<lambda>_.
     if num_le (wo_leaseMs opts) timeoutMs then Inl (RangeError ''leaseMs must be greater than timeoutMs'')
     else rbind (validateRetryPolicy ''retries'' retries) (\<lambda>_.
     rbind (require_integer ''batch'' batch 1) (\<lambda>_.
     rbind (require_duration ''idleMs'' idleMs False) (\<lambda>_.
     rbind (require_duration ''maxIdleMs'' maxIdleMs False) (\<lambda>_.
     if num_less maxIdleMs idleMs
     then Inl (RangeError ''maxIdleMs must be greater than or equal to idleMs'')
     else rbind (add_handlers (wo_concurrency opts) (wo_leaseMs opts) (wo_handlers opts) []) (\<lambda>hs.
       Inr \<lparr>wc_handlers = hs, wc_concurrency = nat (num_int (wo_concurrency opts)),
            wc_graceMs = num_val (wo_graceMs opts), wc_leaseMs = num_val (wo_leaseMs opts),
            wc_timeoutMs = num_val timeoutMs, wc_retries = retries, wc_batch = nat (num_int batch),
            wc_idleMs = num_val idleMs, wc_maxIdleMs = num_val maxIdleMs\<rparr>)))))))))"

text \<open>
  What a constructed worker guarantees to the rest of the code: every lease outlives every timeout,
  the policies are sound, a handler's cap is positive and below the worker's bound.
\<close>

definition sound_handler :: "nat \<Rightarrow> rat \<Rightarrow> ('raw, 'p) runtime_handler \<Rightarrow> bool" where
  "sound_handler concurrency leaseMs h \<longleftrightarrow>
     (\<forall>c. rh_concurrency h = Some c \<longrightarrow> 1 \<le> num_int c \<and> nat (num_int c) \<le> concurrency) \<and>
     (\<forall>t. rh_timeoutMs h = Some t \<longrightarrow> 0 < num_val t \<and> num_val t < leaseMs) \<and>
     (\<forall>p. rh_retries h = Some p \<longrightarrow> sound_policy p)"

definition sound_config :: "('raw, 'p) worker_config \<Rightarrow> bool" where
  "sound_config c \<longleftrightarrow> 1 \<le> wc_concurrency c \<and> 0 \<le> wc_graceMs c \<and> 0 < wc_timeoutMs c \<and>
     wc_timeoutMs c < wc_leaseMs c \<and> sound_policy (wc_retries c) \<and> 1 \<le> wc_batch c \<and>
     0 < wc_idleMs c \<and> wc_idleMs c \<le> wc_maxIdleMs c \<and> distinct (map fst (wc_handlers c)) \<and>
     (\<forall>(n, h) \<in> set (wc_handlers c). rh_name h = n \<and> sound_handler (wc_concurrency c) (wc_leaseMs c) h)"

lemma num_int_Fin [simp]: "num_int (Fin (of_int i)) = i"
  by (simp add: num_int_def)

lemma check_handler_sound:
  "check_handler (Fin (of_int i)) (Fin l) h = Inr u \<Longrightarrow> sound_handler (nat i) l h"
  by (auto simp: check_handler_def sound_handler_def result_simps not_less
      intro: validateRetryPolicy_sound split: option.splits if_splits)

lemma add_handlers_sound:
  "add_handlers (Fin (of_int i)) (Fin l) hs acc = Inr r \<Longrightarrow>
     distinct (map fst acc) \<Longrightarrow> \<forall>(n, h) \<in> set acc. rh_name h = n \<and> sound_handler (nat i) l h \<Longrightarrow>
     distinct (map fst r) \<and> (\<forall>(n, h) \<in> set r. rh_name h = n \<and> sound_handler (nat i) l h)"
proof (induction "Fin (of_int i)" "Fin l" hs acc rule: add_handlers.induct)
  case (2 h hs acc)
  then have "rh_name h \<notin> fst ` set acc"
    and ok: "check_handler (Fin (of_int i)) (Fin l) h = Inr ()"
    and r: "add_handlers (Fin (of_int i)) (Fin l) hs (acc @ [(rh_name h, h)]) = Inr r"
    by (auto simp: result_simps split: if_splits)
  then show ?case using 2(1) [OF _ ok] 2(3,4) check_handler_sound [OF ok] by auto
qed simp

lemma newWorker_sound: "newWorker opts = Inr c \<Longrightarrow> sound_config c"
proof -
  assume "newWorker opts = Inr c"
  then obtain i l where i: "wo_concurrency opts = Fin (of_int i)" "1 \<le> i" and l: "wo_leaseMs opts = Fin l"
    by (auto simp: newWorker_def Let_def result_simps split: if_splits)
  obtain hs where hs: "add_handlers (Fin (of_int i)) (Fin l) (wo_handlers opts) [] = Inr hs"
    and c: "wc_handlers c = hs"
    using \<open>newWorker opts = Inr c\<close> by (auto simp: newWorker_def Let_def result_simps i l split: if_splits)
  note hs = add_handlers_sound [OF hs]
  have "wc_concurrency c = nat i" "wc_leaseMs c = l" "0 \<le> wc_graceMs c" "0 < wc_timeoutMs c"
    "wc_timeoutMs c < wc_leaseMs c" "sound_policy (wc_retries c)" "1 \<le> wc_batch c"
    "0 < wc_idleMs c" "wc_idleMs c \<le> wc_maxIdleMs c"
    using \<open>newWorker opts = Inr c\<close>
    by (auto simp: newWorker_def Let_def result_simps i l not_less not_le
        intro: validateRetryPolicy_sound split: if_splits)
  with hs i c show ?thesis by (auto simp: sound_config_def)
qed

subsection \<open>Enqueue\<close>

record job_enqueue =
  je_id :: string
  je_name :: string
  je_payload :: string
  je_enqueuedAt :: rat
  je_availableAt :: rat
  je_dedupeKey :: "string option"

datatype enqueue_result = Inserted string | Duplicate string

definition job_of_result :: "enqueue_result \<Rightarrow> string" where
  "job_of_result r = (case r of Inserted i \<Rightarrow> i | Duplicate i \<Rightarrow> i)"

text \<open>\<open>stringify\<close> may throw, or give \<open>undefined\<close> for a payload JSON cannot represent.\<close>

definition enqueue_job ::
  "('p \<Rightarrow> js_error + string option) \<Rightarrow> (job_enqueue \<Rightarrow> 'st \<Rightarrow> 'st \<times> (js_error + enqueue_result)) \<Rightarrow>
   string \<Rightarrow> rat \<Rightarrow> string \<Rightarrow> 'p \<Rightarrow> number option \<Rightarrow> string option \<Rightarrow> 'st \<Rightarrow> 'st \<times> (js_error + string)" where
  "enqueue_job stringify store uuid now name payload delayMs dedupeKey st =
     (let delay = or_default delayMs (Fin 0) in
      case require_duration ''delayMs'' delay True of
        Inl e \<Rightarrow> (st, Inl e)
      | Inr _ \<Rightarrow> (case stringify payload of
          Inl e \<Rightarrow> (st, Inl e)
        | Inr None \<Rightarrow> (st, Inl (TypeError (''job '' @ name @ '' payload is not JSON-serializable'')))
        | Inr (Some encoded) \<Rightarrow>
            (case store \<lparr>je_id = uuid, je_name = name, je_payload = encoded, je_enqueuedAt = now,
                    je_availableAt = now + num_val delay, je_dedupeKey = dedupeKey\<rparr> st of
               (st', Inl e) \<Rightarrow> (st', Inl e)
             | (st', Inr r) \<Rightarrow> (st', Inr (job_of_result r)))))"

subsection \<open>Choosing the candidates to claim\<close>

definition count_of :: "(string \<times> nat) list \<Rightarrow> string \<Rightarrow> nat" where
  "count_of m name = or_default (map_of m name) 0"

definition handler_cap :: "('raw, 'p) worker_config \<Rightarrow> string \<Rightarrow> nat option" where
  "handler_cap c name = (case map_of (wc_handlers c) name of
     None \<Rightarrow> None
   | Some h \<Rightarrow> map_option (\<lambda>n. nat (num_int n)) (rh_concurrency h))"

fun select_loop ::
  "('raw, 'p) worker_config \<Rightarrow> string set \<Rightarrow> (string \<times> nat) list \<Rightarrow> nat \<Rightarrow> job_candidate list \<Rightarrow>
   job_candidate list \<Rightarrow> (string \<times> nat) list \<Rightarrow> job_candidate list" where
  "select_loop c active byHandler limit [] selected reserved = selected"
| "select_loop c active byHandler limit (row # rows) selected reserved =
     (if length selected \<ge> limit then selected
      else if jc_id row \<in> active then select_loop c active byHandler limit rows selected reserved
      else case handler_cap c (jc_name row) of
        None \<Rightarrow> select_loop c active byHandler limit rows (selected @ [row]) reserved
      | Some cap \<Rightarrow>
          let used = count_of byHandler (jc_name row) + count_of reserved (jc_name row) in
          if used \<ge> cap then select_loop c active byHandler limit rows selected reserved
          else select_loop c active byHandler limit rows (selected @ [row])
            (AList.update (jc_name row) (count_of reserved (jc_name row) + 1) reserved))"

definition selectCandidates ::
  "('raw, 'p) worker_config \<Rightarrow> string set \<Rightarrow> (string \<times> nat) list \<Rightarrow> job_candidate list \<Rightarrow> nat \<Rightarrow>
   job_candidate list" where
  "selectCandidates c active byHandler rows limit = select_loop c active byHandler limit rows [] []"

definition scanLimit :: "('raw, 'p) worker_config \<Rightarrow> nat \<Rightarrow> nat" where
  "scanLimit c limit =
     (if list_ex (\<lambda>(n, h). rh_concurrency h \<noteq> None) (wc_handlers c) then wc_batch c else limit)"

definition named :: "string \<Rightarrow> 'x job_candidate_scheme list \<Rightarrow> nat" where
  "named name rows = length (filter (\<lambda>r. jc_name r = name) rows)"

lemma named_simps [simp]:
  "named n [] = 0" "named n (r # rs) = (if jc_name r = n then Suc (named n rs) else named n rs)"
  "named n (rs @ qs) = named n rs + named n qs"
  by (simp_all add: named_def)

lemma count_of_update [simp]:
  "count_of (AList.update k v m) n = (if n = k then v else count_of m n)"
  by (simp add: count_of_def or_default_def)

definition selection_ok ::
  "('raw, 'p) worker_config \<Rightarrow> string set \<Rightarrow> (string \<times> nat) list \<Rightarrow> nat \<Rightarrow> job_candidate set \<Rightarrow>
   job_candidate list \<Rightarrow> bool" where
  "selection_ok c active byHandler limit pool r \<longleftrightarrow>
     length r \<le> limit \<and> (\<forall>x \<in> set r. jc_id x \<notin> active) \<and> set r \<subseteq> pool \<and>
     (\<forall>n cap. handler_cap c n = Some cap \<longrightarrow> named n r = 0 \<or> count_of byHandler n + named n r \<le> cap)"

definition reserved_ok ::
  "('raw, 'p) worker_config \<Rightarrow> job_candidate list \<Rightarrow> (string \<times> nat) list \<Rightarrow> bool" where
  "reserved_ok c selected reserved \<longleftrightarrow>
     (\<forall>n cap. handler_cap c n = Some cap \<longrightarrow> count_of reserved n = named n selected)"

lemma selection_ok_mono: "selection_ok c a b l p r \<Longrightarrow> p \<subseteq> q \<Longrightarrow> selection_ok c a b l q r"
  by (auto simp: selection_ok_def)

lemma select_loop_sound:
  assumes "selection_ok c active byHandler limit (set selected) selected" and "reserved_ok c selected reserved"
  shows "selection_ok c active byHandler limit (set selected \<union> set rows)
    (select_loop c active byHandler limit rows selected reserved)"
  using assms
proof (induction rows arbitrary: selected reserved)
  case Nil
  then show ?case by simp
next
  case (Cons row rows)
  note ok = Cons.prems
  have skip: "selection_ok c active byHandler limit (set selected \<union> set (row # rows))
      (select_loop c active byHandler limit rows selected reserved)"
    by (rule selection_ok_mono [OF Cons.IH [OF ok]]) auto
  have take: "selection_ok c active byHandler limit (set selected \<union> set (row # rows))
      (select_loop c active byHandler limit rows (selected @ [row]) res)"
    if "length selected < limit" "jc_id row \<notin> active"
      "\<forall>cap. handler_cap c (jc_name row) = Some cap \<longrightarrow>
         count_of byHandler (jc_name row) + named (jc_name row) selected < cap"
      "reserved_ok c (selected @ [row]) res" for res
  proof -
    have "selection_ok c active byHandler limit (set (selected @ [row])) (selected @ [row])"
      using ok(1) that(1-3) by (auto simp: selection_ok_def)
    from selection_ok_mono [OF Cons.IH [OF this that(4)]] show ?thesis by auto
  qed
  show ?case
  proof (cases "handler_cap c (jc_name row)")
    case None
    with ok(2) have "reserved_ok c (selected @ [row]) reserved" by (auto simp: reserved_ok_def)
    with None skip take show ?thesis
      using ok(1) by (auto simp: not_le selection_ok_def)
  next
    case (Some cap)
    have res: "count_of reserved (jc_name row) = named (jc_name row) selected"
      using ok(2) Some by (auto simp: reserved_ok_def)
    have "reserved_ok c (selected @ [row])
        (AList.update (jc_name row) (count_of reserved (jc_name row) + 1) reserved)"
      using ok(2) res by (auto simp: reserved_ok_def)
    note next_ok = take [OF _ _ _ this]
    have full: "selection_ok c active byHandler limit (set selected \<union> set (row # rows)) selected"
      by (rule selection_ok_mono [OF ok(1)]) auto
    show ?thesis
      unfolding select_loop.simps Some option.case Let_def
      using full skip next_ok Some res by (simp add: not_le)
  qed
qed

lemma selectCandidates_sound:
  "selection_ok c active byHandler limit (set rows) (selectCandidates c active byHandler rows limit)"
  using select_loop_sound [of c active byHandler limit "[]" "[]" rows]
  by (simp add: selectCandidates_def selection_ok_def reserved_ok_def count_of_def or_default_def)

lemma select_loop_distinct:
  "distinct (map jc_id selected @ map jc_id rows) \<Longrightarrow>
     distinct (map jc_id (select_loop c active byHandler limit rows selected reserved))"
  by (induction c active byHandler limit rows selected reserved rule: select_loop.induct)
    (auto simp: Let_def split: option.splits)

lemma selectCandidates_distinct:
  "distinct (map jc_id rows) \<Longrightarrow> distinct (map jc_id (selectCandidates c active byHandler rows limit))"
  by (simp add: selectCandidates_def select_loop_distinct)

end
