(* ===== verification/JobWorker.thy ===== *)
theory JobWorker
  imports JobQueue
begin

section \<open>The job worker\<close>

text \<open>
  The class \<open>JobWorker\<close> of \<open>packages/jobs/src/queues/index.ts\<close>. Its methods are asynchronous and
  interleave: the model is the worker's variables, where each claimed job stands in \<open>#process\<close>, and
  one function per segment of code between two awaits. An event is a call of the worker or an answer
  it waits for (the store, the clock, a handler). \<open>None\<close> as an answer is a rejected promise.

  \<open>#keyTails\<close> is, per key, the tail of a chain of promises; the chain is a queue of jobs, and a job
  runs past \<open>#lockKey\<close> when it is the oldest one left on its key. The statements that need it read
  the log of settlements sent to the store, and the rows the store handed out.
\<close>

datatype handler_state = HQueued | HBusy | HSettled

datatype 'p job_phase =
    WaitingLock
  | CheckingMarker
  | SettlingMarked
  | Running 'p
  | SettlingDone
  | SettlingRetry
  | SettlingDead dead_reason string
  | NotifyingDead
  | AwaitingHandler run_report

record ('raw, 'p) active_job =
  aj_row :: claimed_job
  aj_handler :: "('raw, 'p) runtime_handler option"
  aj_abandoned :: bool
  aj_aborted :: bool
  aj_phase :: "'p job_phase"
  aj_timedOut :: bool
  aj_state :: handler_state

datatype pass_state =
    NoPass
  | AwaitCandidates nat
  | AwaitClaim "job_candidate list" string
  | Requeueing nat
  | AwaitJobs "string list" run_report

datatype drain_state = NotDraining | Draining "string list" | Drained

datatype loop_state = LoopOff | LoopInPass rat | LoopSleeping rat | LoopEnded

record ('raw, 'p) worker =
  wk_active :: "(string \<times> ('raw, 'p) active_job) list"
  wk_inFlight :: "string list"
  wk_byHandler :: "(string \<times> nat) list"
  wk_locks :: "(string \<times> string) list"
  wk_stopping :: bool
  wk_started :: bool
  wk_pass :: pass_state
  wk_result :: "run_report option"
  wk_loop :: loop_state
  wk_drain :: drain_state
  wk_holders :: "string list"
  wk_claims :: "claimed_job list"
  wk_settled :: "job_settlement list"
  wk_orphans :: "(string \<times> string) list"

definition empty_worker :: "('raw, 'p) worker" where
  "empty_worker = \<lparr>wk_active = [], wk_inFlight = [], wk_byHandler = [], wk_locks = [], wk_stopping = False,
     wk_started = False, wk_pass = NoPass, wk_result = None, wk_loop = LoopOff, wk_drain = NotDraining,
     wk_holders = [], wk_claims = [], wk_settled = [], wk_orphans = []\<rparr>"

definition lock_key :: "claimed_job \<Rightarrow> string" where
  "lock_key row = or_default (cj_dedupeKey row) (jc_id row)"

definition set_job ::
  "string \<Rightarrow> ('raw, 'p) active_job \<Rightarrow> ('raw, 'p) worker \<Rightarrow> ('raw, 'p) worker" where
  "set_job i j w = w\<lparr>wk_active := AList.update i j (wk_active w)\<rparr>"

definition send :: "job_settlement \<Rightarrow> ('raw, 'p) worker \<Rightarrow> ('raw, 'p) worker" where
  "send s w = w\<lparr>wk_settled := wk_settled w @ [s]\<rparr>"

definition release_lock :: "string \<Rightarrow> ('raw, 'p) worker \<Rightarrow> ('raw, 'p) worker" where
  "release_lock i w = w\<lparr>wk_locks := filter (\<lambda>(k, j). j \<noteq> i) (wk_locks w)\<rparr>"

text \<open>The pass waits for its jobs together (\<open>Promise.all\<close>) and fails with the first of them.\<close>

definition finish_pass :: "string \<Rightarrow> run_report option \<Rightarrow> ('raw, 'p) worker \<Rightarrow> ('raw, 'p) worker" where
  "finish_pass i outcome w = (case wk_pass w of
     AwaitJobs ids report \<Rightarrow>
       if i \<notin> set ids then w
       else (case outcome of
           None \<Rightarrow> w\<lparr>wk_pass := NoPass, wk_result := None\<rparr>
         | Some r \<Rightarrow>
             (let rest = filter (\<lambda>j. j \<noteq> i) ids; report' = addReport report r in
              if rest = [] then w\<lparr>wk_pass := NoPass, wk_result := Some report'\<rparr>
              else w\<lparr>wk_pass := AwaitJobs rest report'\<rparr>))
   | _ \<Rightarrow> w)"

text \<open>The \<open>finally\<close> of \<open>#startClaimed\<close>; a handler still running then is remembered apart.\<close>

definition finish_job :: "string \<Rightarrow> run_report option \<Rightarrow> ('raw, 'p) worker \<Rightarrow> ('raw, 'p) worker" where
  "finish_job i outcome w = (case map_of (wk_active w) i of
     None \<Rightarrow> w
   | Some j \<Rightarrow>
       let w1 = w\<lparr>wk_active := AList.delete i (wk_active w), wk_inFlight := removeAll i (wk_inFlight w),
             wk_orphans := wk_orphans w @ (if aj_state j = HBusy then [(i, lock_key (aj_row j))] else [])\<rparr>;
           name = jc_name (aj_row j);
           w2 = (case aj_handler j of
               None \<Rightarrow> w1
             | Some h \<Rightarrow>
                 let remaining = or_default (map_of (wk_byHandler w1) name) 1 - 1 in
                 w1\<lparr>wk_byHandler := (if remaining = 0 then AList.delete name (wk_byHandler w1)
                     else AList.update name remaining (wk_byHandler w1))\<rparr>)
       in finish_pass i outcome w2)"

text \<open>The value of a settled failure: after a timeout the slot stays taken until the handler ends.\<close>

definition conclude :: "string \<Rightarrow> run_report \<Rightarrow> ('raw, 'p) worker \<Rightarrow> ('raw, 'p) worker" where
  "conclude i report w = (case map_of (wk_active w) i of
     None \<Rightarrow> w
   | Some j \<Rightarrow>
       if aj_timedOut j \<and> aj_state j \<noteq> HSettled then set_job i (j\<lparr>aj_phase := AwaitingHandler report\<rparr>) w
       else finish_job i (Some report) w)"

definition markDead ::
  "string \<Rightarrow> dead_reason \<Rightarrow> string \<Rightarrow> rat \<Rightarrow> ('raw, 'p) active_job \<Rightarrow> ('raw, 'p) worker \<Rightarrow> ('raw, 'p) worker"
  where
  "markDead i reason detail now j w =
     (if aj_abandoned j then conclude i emptyReport (set_job i j w)
      else send (SettleDead (jc_id (aj_row j)) (cj_holder (aj_row j)) (cj_attempts (aj_row j) + 1) reason detail now)
        (set_job i (j\<lparr>aj_phase := SettlingDead reason detail\<rparr>) w))"

definition settleFailure ::
  "string \<Rightarrow> retry_policy \<Rightarrow> string \<Rightarrow> dead_reason \<Rightarrow> rat \<Rightarrow> rat \<Rightarrow> ('raw, 'p) active_job \<Rightarrow>
   ('raw, 'p) worker \<Rightarrow> ('raw, 'p) worker" where
  "settleFailure i policy detail reason now random j w =
     (let attempt = cj_attempts (aj_row j) + 1 in
      if num_le (rp_attempts policy) (Fin (of_nat attempt)) then markDead i reason detail now j w
      else if aj_abandoned j then conclude i emptyReport (set_job i j w)
      else send (SettleRetry (jc_id (aj_row j)) (cj_holder (aj_row j)) attempt
              (now + jitter policy attempt random) detail)
        (set_job i (j\<lparr>aj_phase := SettlingRetry\<rparr>) w))"

definition mark_done ::
  "string \<Rightarrow> 'p job_phase \<Rightarrow> rat \<Rightarrow> ('raw, 'p) active_job \<Rightarrow> ('raw, 'p) worker \<Rightarrow> ('raw, 'p) worker" where
  "mark_done i phase now j w =
     send (SettleDone (jc_id (aj_row j)) (cj_holder (aj_row j)) (lock_key (aj_row j)) now)
       (set_job i (j\<lparr>aj_phase := phase\<rparr>) w)"

subsection \<open>A pass\<close>

definition run_once :: "('raw, 'p) worker_config \<Rightarrow> ('raw, 'p) worker \<Rightarrow> ('raw, 'p) worker" where
  "run_once c w =
     (if wk_pass w \<noteq> NoPass then w
      else if wk_stopping w then w\<lparr>wk_result := Some emptyReport\<rparr>
      else if length (wk_inFlight w) \<ge> wc_concurrency c then w\<lparr>wk_result := Some emptyReport\<rparr>
      else w\<lparr>wk_pass := AwaitCandidates (min (wc_batch c) (wc_concurrency c - length (wk_inFlight w)))\<rparr>)"

definition requeueClaim :: "rat \<Rightarrow> claimed_job \<Rightarrow> ('raw, 'p) worker \<Rightarrow> ('raw, 'p) worker" where
  "requeueClaim now row w = send (SettleRelease (jc_id row) (cj_holder row) now) w"

definition startClaimed ::
  "('raw, 'p) worker_config \<Rightarrow> claimed_job \<Rightarrow> ('raw, 'p) worker \<Rightarrow> ('raw, 'p) worker" where
  "startClaimed c row w =
     (let h = map_of (wc_handlers c) (jc_name row);
          j = \<lparr>aj_row = row, aj_handler = h, aj_abandoned = False, aj_aborted = False,
                aj_phase = WaitingLock, aj_timedOut = False, aj_state = HQueued\<rparr>
      in w\<lparr>wk_active := AList.update (jc_id row) j (wk_active w),
           wk_inFlight := wk_inFlight w @ [jc_id row],
           wk_byHandler := (if h = None then wk_byHandler w
             else AList.update (jc_name row) (count_of (wk_byHandler w) (jc_name row) + 1) (wk_byHandler w)),
           wk_locks := wk_locks w @ [(lock_key row, jc_id row)]\<rparr>)"

text \<open>After \<open>await claim\<close> in \<open>#runPass\<close>.\<close>

definition rows_claimed ::
  "('raw, 'p) worker_config \<Rightarrow> rat \<Rightarrow> claimed_job list \<Rightarrow> ('raw, 'p) worker \<Rightarrow> ('raw, 'p) worker" where
  "rows_claimed c now rows w =
     (let w1 = w\<lparr>wk_claims := wk_claims w @ rows\<rparr> in
      if wk_stopping w then fold (requeueClaim now) rows (w1\<lparr>wk_pass := Requeueing (length rows)\<rparr>)
      else if rows = [] then w1\<lparr>wk_pass := NoPass, wk_result := Some emptyReport\<rparr>
      else fold (startClaimed c) rows
        (w1\<lparr>wk_pass := AwaitJobs (map jc_id rows) (emptyReport\<lparr>rr_claimed := length rows\<rparr>)\<rparr>))"

text \<open>After \<open>await store.candidates\<close> in \<open>#claim\<close>; \<open>holder\<close> is the random id of this claim.\<close>

definition candidates_answered ::
  "('raw, 'p) worker_config \<Rightarrow> rat \<Rightarrow> string \<Rightarrow> job_candidate list option \<Rightarrow> ('raw, 'p) worker \<Rightarrow>
   ('raw, 'p) worker" where
  "candidates_answered c now holder answer w = (case wk_pass w of
     AwaitCandidates limit \<Rightarrow>
       (case answer of
          None \<Rightarrow> w\<lparr>wk_pass := NoPass, wk_result := None\<rparr>
        | Some rows \<Rightarrow>
            let selected = selectCandidates c (fst ` set (wk_active w)) (wk_byHandler w) rows limit in
            if selected = [] then rows_claimed c now [] w
            else w\<lparr>wk_pass := AwaitClaim selected holder, wk_holders := holder # wk_holders w\<rparr>)
   | _ \<Rightarrow> w)"

definition claim_answered ::
  "('raw, 'p) worker_config \<Rightarrow> rat \<Rightarrow> claimed_job list option \<Rightarrow> ('raw, 'p) worker \<Rightarrow> ('raw, 'p) worker"
  where
  "claim_answered c now answer w = (case answer of
     None \<Rightarrow> w\<lparr>wk_pass := NoPass, wk_result := None\<rparr>
   | Some rows \<Rightarrow> rows_claimed c now rows w)"

definition requeue_done :: "('raw, 'p) worker \<Rightarrow> ('raw, 'p) worker" where
  "requeue_done w = (case wk_pass w of
     Requeueing n \<Rightarrow> w\<lparr>wk_pass := NoPass, wk_result := Some (emptyReport\<lparr>rr_claimed := n\<rparr>)\<rparr>
   | _ \<Rightarrow> w)"

subsection \<open>\<open>#process\<close> and \<open>#runHandler\<close>\<close>

definition lock_granted :: "string \<Rightarrow> ('raw, 'p) active_job \<Rightarrow> ('raw, 'p) worker \<Rightarrow> ('raw, 'p) worker" where
  "lock_granted i j w =
     (if aj_abandoned j then release_lock i (finish_job i (Some emptyReport) w)
      else set_job i (j\<lparr>aj_phase := CheckingMarker\<rparr>) w)"

text \<open>
  After \<open>await this.#markerExists(key)\<close>. Each \<open>return\<close> of a promise that is not awaited leaves the
  \<open>try\<close> at once, so its \<open>finally\<close> releases the key while the returned promise is still pending; only
  the completed branch awaits its settlement under the lock.
\<close>

definition marker_answered ::
  "('raw, 'p) worker_config \<Rightarrow> (string \<Rightarrow> string + 'raw) \<Rightarrow> string \<Rightarrow> rat \<Rightarrow> rat \<Rightarrow> bool option \<Rightarrow>
   ('raw, 'p) active_job \<Rightarrow> ('raw, 'p) worker \<Rightarrow> ('raw, 'p) worker" where
  "marker_answered c parse i now random answer j w = (case answer of
     None \<Rightarrow> release_lock i (finish_job i None w)
   | Some completed \<Rightarrow>
       if aj_abandoned j then release_lock i (finish_job i (Some emptyReport) w)
       else if completed then mark_done i SettlingMarked now j w
       else (case parse (cj_payload (aj_row j)) of
           Inl msg \<Rightarrow> release_lock i
             (markDead i InvalidPayload (msg @ '': '' @ take 200 (cj_payload (aj_row j))) now j w)
         | Inr raw \<Rightarrow> (case aj_handler j of
             None \<Rightarrow> release_lock i
               (settleFailure i (wc_retries c) (''no handler registered for '' @ jc_name (aj_row j))
                  UnknownName now random j w)
           | Some h \<Rightarrow> (case rh_prepare h raw of
               Inl msg \<Rightarrow> release_lock i (markDead i InvalidPayload msg now j w)
             | Inr p \<Rightarrow> release_lock i (set_job i (j\<lparr>aj_phase := Running p\<rparr>) w)))))"

definition policy_of :: "('raw, 'p) worker_config \<Rightarrow> ('raw, 'p) active_job \<Rightarrow> retry_policy" where
  "policy_of c j = (case aj_handler j of
     None \<Rightarrow> wc_retries c
   | Some h \<Rightarrow> or_default (rh_retries h) (wc_retries c))"

definition timeout_of :: "('raw, 'p) worker_config \<Rightarrow> ('raw, 'p) active_job \<Rightarrow> rat" where
  "timeout_of c j = (case aj_handler j of
     None \<Rightarrow> wc_timeoutMs c
   | Some h \<Rightarrow> (case rh_timeoutMs h of None \<Rightarrow> wc_timeoutMs c | Some t \<Rightarrow> num_val t))"

text \<open>The handler's promise settles: \<open>None\<close> resolved, \<open>Some msg\<close> rejected with that message.\<close>

definition handler_settled ::
  "('raw, 'p) worker_config \<Rightarrow> string \<Rightarrow> rat \<Rightarrow> rat \<Rightarrow> string option \<Rightarrow> ('raw, 'p) active_job \<Rightarrow>
   ('raw, 'p) worker \<Rightarrow> ('raw, 'p) worker" where
  "handler_settled c i now random result j w =
     (let j1 = j\<lparr>aj_state := HSettled\<rparr>; w1 = set_job i j1 w in
      case aj_phase j of
        Running p \<Rightarrow>
          if aj_abandoned j then finish_job i (Some emptyReport) w1
          else (case result of
              Some msg \<Rightarrow> settleFailure i (policy_of c j) msg AttemptsExhausted now random j1 w1
            | None \<Rightarrow> mark_done i SettlingDone now j1 w1)
      | AwaitingHandler report \<Rightarrow> finish_job i (Some report) w1
      | _ \<Rightarrow> w1)"

text \<open>The first turn of the handler's promise: an abandoned job's handler is not called.\<close>

definition handler_started ::
  "('raw, 'p) worker_config \<Rightarrow> string \<Rightarrow> rat \<Rightarrow> rat \<Rightarrow> ('raw, 'p) active_job \<Rightarrow>
   ('raw, 'p) worker \<Rightarrow> ('raw, 'p) worker" where
  "handler_started c i now random j w =
     (if aj_abandoned j then handler_settled c i now random None j w
      else set_job i (j\<lparr>aj_state := HBusy\<rparr>) w)"

definition handler_timeout ::
  "('raw, 'p) worker_config \<Rightarrow> (rat \<Rightarrow> string) \<Rightarrow> string \<Rightarrow> rat \<Rightarrow> rat \<Rightarrow> ('raw, 'p) active_job \<Rightarrow>
   ('raw, 'p) worker \<Rightarrow> ('raw, 'p) worker" where
  "handler_timeout c show_ms i now random j w =
     (let j1 = j\<lparr>aj_aborted := True, aj_timedOut := True\<rparr> in
      settleFailure i (policy_of c j)
        (''job '' @ jc_name (aj_row j) @ '' timed out after '' @ show_ms (timeout_of c j) @ ''ms'')
        AttemptsExhausted now random j1 (set_job i j1 w))"

text \<open>The store's answer to a settlement.\<close>

definition settlement_answered ::
  "string \<Rightarrow> bool option \<Rightarrow> ('raw, 'p) active_job \<Rightarrow> ('raw, 'p) worker \<Rightarrow> ('raw, 'p) worker" where
  "settlement_answered i answer j w = (case answer of
     None \<Rightarrow> (let w1 = finish_job i None w in if aj_phase j = SettlingMarked then release_lock i w1 else w1)
   | Some settled \<Rightarrow> (case aj_phase j of
       SettlingMarked \<Rightarrow> release_lock i
         (finish_job i (Some (emptyReport\<lparr>rr_done := (if settled then 1 else 0), rr_skipped := 1\<rparr>)) w)
     | SettlingDone \<Rightarrow> finish_job i (Some (emptyReport\<lparr>rr_done := (if settled then 1 else 0),
           rr_skipped := (if settled then 0 else 1)\<rparr>)) w
     | SettlingRetry \<Rightarrow> conclude i (emptyReport\<lparr>rr_retried := (if settled then 1 else 0),
           rr_skipped := (if settled then 0 else 1)\<rparr>) w
     | SettlingDead reason detail \<Rightarrow>
         if settled then set_job i (j\<lparr>aj_phase := NotifyingDead\<rparr>) w
         else conclude i (emptyReport\<lparr>rr_skipped := 1\<rparr>) w
     | _ \<Rightarrow> w))"

definition dead_notified ::
  "string \<Rightarrow> bool \<Rightarrow> ('raw, 'p) active_job \<Rightarrow> ('raw, 'p) worker \<Rightarrow> ('raw, 'p) worker" where
  "dead_notified i returned j w =
     (if returned then conclude i (emptyReport\<lparr>rr_dead := 1\<rparr>) w else finish_job i None w)"

subsection \<open>Shutdown and the polling loop\<close>

definition onShutdown :: "('raw, 'p) worker \<Rightarrow> ('raw, 'p) worker" where
  "onShutdown w = (case wk_drain w of
     NotDraining \<Rightarrow> w\<lparr>wk_stopping := True, wk_drain := Draining (wk_inFlight w)\<rparr>
   | _ \<Rightarrow> w)"

definition graceOf :: "('raw, 'p) worker_config \<Rightarrow> number option \<Rightarrow> js_error + rat" where
  "graceOf c cap = (case cap of
     None \<Rightarrow> Inr (wc_graceMs c)
   | Some n \<Rightarrow> rbind (require_duration ''graceMs'' n True) (\<lambda>_. Inr (min (wc_graceMs c) (num_val n))))"

definition drain_settled :: "('raw, 'p) worker \<Rightarrow> ('raw, 'p) worker" where
  "drain_settled w = w\<lparr>wk_drain := Drained\<rparr>"

definition abandon :: "('raw, 'p) active_job \<Rightarrow> ('raw, 'p) active_job" where
  "abandon j = j\<lparr>aj_abandoned := True, aj_aborted := True\<rparr>"

definition grace_elapsed :: "rat \<Rightarrow> ('raw, 'p) worker \<Rightarrow> ('raw, 'p) worker" where
  "grace_elapsed now w =
     fold (\<lambda>(i, j). requeueClaim now (aj_row j)) (wk_active w)
       (w\<lparr>wk_drain := Drained, wk_active := map (\<lambda>(i, j). (i, abandon j)) (wk_active w)\<rparr>)"

definition start_loop :: "('raw, 'p) worker_config \<Rightarrow> ('raw, 'p) worker \<Rightarrow> ('raw, 'p) worker" where
  "start_loop c w = (if wk_started w \<or> wk_stopping w then w
     else (run_once c w)\<lparr>wk_started := True, wk_loop := LoopInPass (wc_idleMs c)\<rparr>)"

text \<open>The loop after \<open>await this.runOnce()\<close>: stop, run again at once, or sleep.\<close>

definition loop_continued :: "('raw, 'p) worker_config \<Rightarrow> ('raw, 'p) worker \<Rightarrow> ('raw, 'p) worker" where
  "loop_continued c w = (case wk_loop w of
     LoopInPass idle \<Rightarrow>
       (case wk_result w of
          None \<Rightarrow> w\<lparr>wk_stopping := True, wk_loop := LoopEnded\<rparr>
        | Some report \<Rightarrow>
            if wk_stopping w then w\<lparr>wk_loop := LoopEnded\<rparr>
            else if rr_claimed report > 0 then (run_once c w)\<lparr>wk_loop := LoopInPass (wc_idleMs c)\<rparr>
            else w\<lparr>wk_loop := LoopSleeping idle\<rparr>)
   | _ \<Rightarrow> w)"

text \<open>The idle sleep ends, elapsed or aborted by a shutdown.\<close>

definition loop_woken :: "('raw, 'p) worker_config \<Rightarrow> ('raw, 'p) worker \<Rightarrow> ('raw, 'p) worker" where
  "loop_woken c w = (case wk_loop w of
     LoopSleeping idle \<Rightarrow>
       let idle' = min (wc_maxIdleMs c) (idle * 2) in
       if wk_stopping w then w\<lparr>wk_loop := LoopEnded\<rparr>
       else (run_once c w)\<lparr>wk_loop := LoopInPass idle'\<rparr>
   | _ \<Rightarrow> w)"

end
