(* ===== verification/JobWorkerSteps.thy ===== *)
theory JobWorkerSteps
  imports JobWorker
begin

section \<open>The steps of a worker\<close>

text \<open>
  The step relation of the worker: which segment of code may run in which state. What it demands of
  the environment is the contract of \<open>JobStore\<close>: \<open>candidates\<close> lists distinct jobs, \<open>claim\<close> returns
  distinct ones of the requested candidates with the holder it was given, and a random id is new.
  Everything else (which answers arrive, in which order, rejections, timeouts) is free.
\<close>

definition claim_ok :: "job_candidate list \<Rightarrow> string \<Rightarrow> claimed_job list \<Rightarrow> bool" where
  "claim_ok selected holder rows \<longleftrightarrow> distinct (map jc_id rows) \<and>
     (\<forall>r \<in> set rows. job_candidate.truncate r \<in> set selected \<and> cj_holder r = holder)"

definition holds_lock :: "('raw, 'p) worker \<Rightarrow> string \<Rightarrow> string \<Rightarrow> bool" where
  "holds_lock w key i \<longleftrightarrow> map_of (wk_locks w) key = Some i"

definition settling :: "'p job_phase \<Rightarrow> bool" where
  "settling ph = (case ph of SettlingMarked \<Rightarrow> True | SettlingDone \<Rightarrow> True | SettlingRetry \<Rightarrow> True
     | SettlingDead r d \<Rightarrow> True | _ \<Rightarrow> False)"

definition running :: "'p job_phase \<Rightarrow> bool" where
  "running ph = (case ph of Running p \<Rightarrow> True | _ \<Rightarrow> False)"

definition loop_ready :: "('raw, 'p) worker \<Rightarrow> bool" where
  "loop_ready w = (wk_pass w = NoPass \<and> (case wk_loop w of LoopInPass idle \<Rightarrow> True | _ \<Rightarrow> False))"

inductive worker_step ::
  "('raw, 'p) worker_config \<Rightarrow> (string \<Rightarrow> string + 'raw) \<Rightarrow> (rat \<Rightarrow> string) \<Rightarrow>
   ('raw, 'p) worker \<Rightarrow> ('raw, 'p) worker \<Rightarrow> bool"
  for c :: "('raw, 'p) worker_config" and parse :: "string \<Rightarrow> string + 'raw" and show_ms :: "rat \<Rightarrow> string"
  where
  ws_run: "\<not> loop_ready w \<Longrightarrow> worker_step c parse show_ms w (run_once c w)"
| ws_candidates: "wk_pass w = AwaitCandidates limit \<Longrightarrow> holder \<notin> set (wk_holders w) \<Longrightarrow>
    (\<forall>rows. answer = Some rows \<longrightarrow> distinct (map jc_id rows)) \<Longrightarrow>
    worker_step c parse show_ms w (candidates_answered c now holder answer w)"
| ws_claimed: "wk_pass w = AwaitClaim selected holder \<Longrightarrow> claim_ok selected holder rows \<Longrightarrow>
    worker_step c parse show_ms w (claim_answered c now (Some rows) w)"
| ws_claim_failed: "wk_pass w = AwaitClaim selected holder \<Longrightarrow>
    worker_step c parse show_ms w (claim_answered c now None w)"
| ws_requeued: "wk_pass w = Requeueing n \<Longrightarrow> worker_step c parse show_ms w (requeue_done w)"
| ws_lock: "map_of (wk_active w) i = Some j \<Longrightarrow> aj_phase j = WaitingLock \<Longrightarrow>
    holds_lock w (lock_key (aj_row j)) i \<Longrightarrow> worker_step c parse show_ms w (lock_granted i j w)"
| ws_marker: "map_of (wk_active w) i = Some j \<Longrightarrow> aj_phase j = CheckingMarker \<Longrightarrow>
    worker_step c parse show_ms w (marker_answered c parse i now random completed j w)"
| ws_started: "map_of (wk_active w) i = Some j \<Longrightarrow> running (aj_phase j) \<or> aj_timedOut j \<Longrightarrow>
    aj_state j = HQueued \<Longrightarrow> worker_step c parse show_ms w (handler_started c i now random j w)"
| ws_handled: "map_of (wk_active w) i = Some j \<Longrightarrow> aj_state j = HBusy \<Longrightarrow>
    worker_step c parse show_ms w (handler_settled c i now random result j w)"
| ws_timeout: "map_of (wk_active w) i = Some j \<Longrightarrow> running (aj_phase j) \<Longrightarrow>
    worker_step c parse show_ms w (handler_timeout c show_ms i now random j w)"
| ws_timer_failed: "map_of (wk_active w) i = Some j \<Longrightarrow> running (aj_phase j) \<Longrightarrow>
    worker_step c parse show_ms w (finish_job i None w)"
| ws_settled: "map_of (wk_active w) i = Some j \<Longrightarrow> settling (aj_phase j) \<Longrightarrow>
    worker_step c parse show_ms w (settlement_answered i answer j w)"
| ws_notified: "map_of (wk_active w) i = Some j \<Longrightarrow> aj_phase j = NotifyingDead \<Longrightarrow>
    worker_step c parse show_ms w (dead_notified i returned j w)"
| ws_shutdown: "worker_step c parse show_ms w (onShutdown w)"
| ws_drained: "wk_drain w = Draining ids \<Longrightarrow> wk_pass w = NoPass \<Longrightarrow> set ids \<inter> set (wk_inFlight w) = {} \<Longrightarrow>
    worker_step c parse show_ms w (drain_settled w)"
| ws_grace: "wk_drain w = Draining ids \<Longrightarrow> worker_step c parse show_ms w (grace_elapsed now w)"
| ws_start: "\<not> loop_ready w \<Longrightarrow> worker_step c parse show_ms w (start_loop c w)"
| ws_loop: "loop_ready w \<Longrightarrow> worker_step c parse show_ms w (loop_continued c w)"
| ws_woken: "wk_loop w = LoopSleeping idle \<Longrightarrow> worker_step c parse show_ms w (loop_woken c w)"

inductive_cases worker_stepE: "worker_step c parse show_ms w w'"

inductive worker_reachable ::
  "('raw, 'p) worker_config \<Rightarrow> (string \<Rightarrow> string + 'raw) \<Rightarrow> (rat \<Rightarrow> string) \<Rightarrow> ('raw, 'p) worker \<Rightarrow> bool"
  for c parse show_ms where
  wr_new: "worker_reachable c parse show_ms empty_worker"
| wr_step: "worker_reachable c parse show_ms w \<Longrightarrow> worker_step c parse show_ms w w' \<Longrightarrow>
    worker_reachable c parse show_ms w'"

lemma worker_invariant:
  assumes "worker_reachable c parse show_ms w" and "I empty_worker"
    and "\<And>w w'. I w \<Longrightarrow> worker_step c parse show_ms w w' \<Longrightarrow> I w'"
  shows "I w"
  using assms(1) by induction (use assms(2,3) in blast)+

end
