(* ===== verification/JobWorkerSafety.thy ===== *)
theory JobWorkerSafety
  imports JobWorkerSteps
begin

section \<open>The bounds of a worker\<close>

text \<open>
  At every moment the claimed jobs in flight, with those a pass is about to claim, fit the worker's
  concurrency, and those of each capped handler fit its cap. The invariant reads only which jobs are
  active, with their rows and handlers, and the counters; the segments of \<open>#process\<close> that change
  only a job's own stage leave that core as it is.
\<close>

definition job_core ::
  "(string \<times> ('raw, 'p) active_job) list \<Rightarrow> (string \<times> claimed_job \<times> ('raw, 'p) runtime_handler option) list"
  where "job_core a = map (\<lambda>(i, j). (i, aj_row j, aj_handler j)) a"

definition pending :: "('raw, 'p) worker \<Rightarrow> job_candidate list" where
  "pending w = (case wk_pass w of AwaitClaim selected h \<Rightarrow> selected | _ \<Rightarrow> [])"

definition slots :: "('raw, 'p) worker \<Rightarrow> nat" where
  "slots w = (case wk_pass w of AwaitCandidates limit \<Rightarrow> limit | AwaitClaim selected h \<Rightarrow> length selected
     | _ \<Rightarrow> 0)"

definition active_named ::
  "string \<Rightarrow> (string \<times> claimed_job \<times> ('raw, 'p) runtime_handler option) list \<Rightarrow> nat" where
  "active_named n a = length (filter (\<lambda>(i, r, h). jc_name r = n) a)"

definition core_ok ::
  "('raw, 'p) worker_config \<Rightarrow> (string \<times> claimed_job \<times> ('raw, 'p) runtime_handler option) list \<Rightarrow>
   string list \<Rightarrow> (string \<times> nat) list \<Rightarrow> bool" where
  "core_ok c a flight counts \<longleftrightarrow> flight = map fst a \<and> distinct (map fst a) \<and>
     (\<forall>(i, r, h) \<in> set a. jc_id r = i \<and> h = map_of (wc_handlers c) (jc_name r)) \<and>
     (\<forall>n. map_of (wc_handlers c) n \<noteq> None \<longrightarrow> count_of counts n = active_named n a)"

definition fits ::
  "('raw, 'p) worker_config \<Rightarrow> (string \<times> claimed_job \<times> ('raw, 'p) runtime_handler option) list \<Rightarrow>
   job_candidate list \<Rightarrow> nat \<Rightarrow> bool" where
  "fits c a sel k \<longleftrightarrow> length a + k \<le> wc_concurrency c \<and>
     (\<forall>n cap. handler_cap c n = Some cap \<longrightarrow> active_named n a + named n sel \<le> cap) \<and>
     distinct (map jc_id sel) \<and> (\<forall>s \<in> set sel. jc_id s \<notin> fst ` set a)"

definition cap_inv :: "('raw, 'p) worker_config \<Rightarrow> ('raw, 'p) worker \<Rightarrow> bool" where
  "cap_inv c w \<longleftrightarrow> core_ok c (job_core (wk_active w)) (wk_inFlight w) (wk_byHandler w) \<and>
     fits c (job_core (wk_active w)) (pending w) (slots w)"

text \<open>Two workers alike for the invariant.\<close>

definition same_core :: "('raw, 'p) worker \<Rightarrow> ('raw, 'p) worker \<Rightarrow> bool" where
  "same_core w w' \<longleftrightarrow> job_core (wk_active w') = job_core (wk_active w) \<and> wk_inFlight w' = wk_inFlight w \<and>
     wk_byHandler w' = wk_byHandler w \<and> wk_pass w' = wk_pass w"

lemma cap_inv_same: "same_core w w' \<Longrightarrow> cap_inv c w' = cap_inv c w"
  by (simp add: same_core_def cap_inv_def pending_def slots_def)

lemma same_core_trans: "same_core u v \<Longrightarrow> same_core v w \<Longrightarrow> same_core u w"
  by (simp add: same_core_def)

lemma job_core_map_of:
  "map_of (job_core a) i = map_option (\<lambda>j. (aj_row j, aj_handler j)) (map_of a i)"
  by (induction a) (auto simp: job_core_def)

lemma job_core_keys: "fst ` set (job_core a) = fst ` set a"
  by (induction a) (auto simp: job_core_def)

lemma set_job_core:
  "map_of (wk_active w) i = Some j0 \<Longrightarrow> aj_row j = aj_row j0 \<Longrightarrow> aj_handler j = aj_handler j0 \<Longrightarrow>
     same_core w (set_job i j w)"
  by (simp add: same_core_def set_job_def job_core_def map_alist_update_same)

lemma send_core [simp]: "same_core w (send s w') = same_core w w'"
  by (simp add: same_core_def send_def)

lemma release_core [simp]: "same_core w (release_lock i w') = same_core w w'"
  by (simp add: same_core_def release_lock_def)

lemma set_job_active [simp]: "map_of (wk_active (set_job i j w)) i = Some j"
  by (simp add: set_job_def)

lemma send_active [simp]: "wk_active (send s w) = wk_active w"
  by (simp add: send_def)

lemma active_named_Cons:
  "active_named n ((i, r, h) # a) = (if jc_name r = n then Suc (active_named n a) else active_named n a)"
  by (simp add: active_named_def)

lemma active_named_delete:
  "distinct (map fst a) \<Longrightarrow> map_of a i = Some (r, h) \<Longrightarrow>
     active_named n a = active_named n (AList.delete i a) + (if jc_name r = n then 1 else 0)"
proof (induction a)
  case (Cons x a)
  obtain k q g where x: "x = (k, q, g)" by (cases x)
  show ?case
  proof (cases "k = i")
    case True
    with Cons.prems have "i \<notin> fst ` set a" "q = r" by (auto simp: x)
    moreover from this(1) have "AList.delete i a = a" by (induction a) auto
    ultimately show ?thesis using True by (simp add: x active_named_Cons)
  next
    case False
    with Cons show ?thesis by (simp add: x active_named_Cons)
  qed
qed simp

lemma length_delete: "distinct (map fst a) \<Longrightarrow> length (AList.delete i a) \<le> length a"
  by (simp add: AList.delete_eq)

lemma core_ok_delete:
  assumes "core_ok c a flight counts" and "map_of a i = Some (r, h)"
  shows "core_ok c (AList.delete i a) (removeAll i flight)
    (case h of None \<Rightarrow> counts
     | Some _ \<Rightarrow> (let m = or_default (map_of counts (jc_name r)) 1 - 1 in
         if m = 0 then AList.delete (jc_name r) counts else AList.update (jc_name r) m counts))"
proof -
  have d: "distinct (map fst a)" "flight = map fst a" using assms(1) by (auto simp: core_ok_def)
  have h: "h = map_of (wc_handlers c) (jc_name r)"
    using assms by (auto simp: core_ok_def dest: map_of_SomeD)
  note del = active_named_delete [OF d(1) assms(2)]
  have "count_of (case h of None \<Rightarrow> counts
     | Some _ \<Rightarrow> (let m = or_default (map_of counts (jc_name r)) 1 - 1 in
         if m = 0 then AList.delete (jc_name r) counts else AList.update (jc_name r) m counts)) n =
      active_named n (AList.delete i a)" if n: "map_of (wc_handlers c) n \<noteq> None" for n
  proof -
    have "count_of counts n = active_named n a" using assms(1) n by (auto simp: core_ok_def)
    then show ?thesis
      using del [of n] n h
      by (auto simp: Let_def count_of_def or_default_def split: option.splits if_splits)
  qed
  then show ?thesis
    using assms(1) d by (auto simp: core_ok_def keys_delete set_alist_delete distinct_removeAll)
qed

lemma fits_delete:
  assumes "fits c a sel k" and "distinct (map fst a)" and "map_of a i = Some (r, h)"
  shows "fits c (AList.delete i a) sel k"
proof -
  have le: "active_named n (AList.delete i a) \<le> active_named n a" for n
    using active_named_delete [OF assms(2,3), of n] by simp
  have "active_named n (AList.delete i a) + named n sel \<le> cap" if "handler_cap c n = Some cap" for n cap
    using assms(1) that le [of n] by (fastforce simp: fits_def)
  then show ?thesis
    using assms(1) length_delete [OF assms(2), of i] by (auto simp: fits_def set_alist_delete)
qed

lemma fits_less: "fits c a sel k \<Longrightarrow> fits c a [] 0"
  unfolding fits_def by (metis add_leD1 add_0_right distinct.simps(1) empty_iff list.map(1) list.set(1) named_simps(1))

lemma job_core_delete: "job_core (AList.delete i a) = AList.delete i (job_core a)"
  using map_alist_delete [of "\<lambda>j. (aj_row j, aj_handler j)" i a] by (simp add: job_core_def)

lemma finish_pass_core [simp]:
  "wk_active (finish_pass i out w) = wk_active w" "wk_inFlight (finish_pass i out w) = wk_inFlight w"
  "wk_byHandler (finish_pass i out w) = wk_byHandler w" "pending (finish_pass i out w) = pending w"
  "slots (finish_pass i out w) = slots w"
  by (auto simp: finish_pass_def Let_def pending_def slots_def split: pass_state.splits option.splits)

lemma finish_cap:
  assumes "cap_inv c w"
  shows "cap_inv c (finish_job i out w)"
proof (cases "map_of (wk_active w) i")
  case None
  with assms show ?thesis by (simp add: finish_job_def)
next
  case (Some j)
  let ?a = "job_core (wk_active w)"
  have m: "map_of ?a i = Some (aj_row j, aj_handler j)" using Some by (simp add: job_core_map_of)
  have ok: "core_ok c ?a (wk_inFlight w) (wk_byHandler w)" and f: "fits c ?a (pending w) (slots w)"
    using assms by (simp_all add: cap_inv_def)
  have d: "distinct (map fst ?a)" using ok by (simp add: core_ok_def)
  let ?w = "finish_job i out w"
  have "job_core (wk_active ?w) = AList.delete i ?a" "wk_inFlight ?w = removeAll i (wk_inFlight w)"
    "pending ?w = pending w" "slots ?w = slots w"
    using Some by (auto simp: finish_job_def Let_def job_core_delete pending_def slots_def finish_pass_def
        split: option.splits pass_state.splits)
  moreover have "wk_byHandler ?w = (case aj_handler j of None \<Rightarrow> wk_byHandler w
     | Some _ \<Rightarrow> (let m = or_default (map_of (wk_byHandler w) (jc_name (aj_row j))) 1 - 1 in
         if m = 0 then AList.delete (jc_name (aj_row j)) (wk_byHandler w)
         else AList.update (jc_name (aj_row j)) m (wk_byHandler w)))"
    using Some by (auto simp: finish_job_def Let_def split: option.splits)
  ultimately show ?thesis
    unfolding cap_inv_def using core_ok_delete [OF ok m] fits_delete [OF f d m] by simp
qed

subsection \<open>The segments of a job\<close>

text \<open>\<open>about i j w\<close>: \<open>j\<close> is a later stage of the active job \<open>i\<close>.\<close>

definition about :: "string \<Rightarrow> ('raw, 'p) active_job \<Rightarrow> ('raw, 'p) worker \<Rightarrow> bool" where
  "about i j w \<longleftrightarrow> (\<exists>j0. map_of (wk_active w) i = Some j0 \<and> aj_row j = aj_row j0 \<and> aj_handler j = aj_handler j0)"

lemma about_self: "map_of (wk_active w) i = Some j \<Longrightarrow> about i j w"
  by (auto simp: about_def)

lemma about_set_job [simp]: "about i j (set_job i j' w) \<longleftrightarrow> aj_row j = aj_row j' \<and> aj_handler j = aj_handler j'"
  by (auto simp: about_def)

lemma about_send [simp]: "about i j (send s w) = about i j w"
  by (simp add: about_def)

lemma set_job_cap: "cap_inv c w \<Longrightarrow> about i j w \<Longrightarrow> cap_inv c (set_job i j w)"
proof -
  assume inv: "cap_inv c w" and "about i j w"
  then obtain j0 where "map_of (wk_active w) i = Some j0" "aj_row j = aj_row j0" "aj_handler j = aj_handler j0"
    by (auto simp: about_def)
  from cap_inv_same [OF set_job_core [OF this]] inv show ?thesis by simp
qed

lemma send_cap [simp]: "cap_inv c (send s w) = cap_inv c w"
  by (rule cap_inv_same) (simp add: same_core_def send_def)

lemma release_lock_cap [simp]: "cap_inv c (release_lock i w) = cap_inv c w"
  by (rule cap_inv_same) (simp add: same_core_def release_lock_def)

lemma conclude_cap: "cap_inv c w \<Longrightarrow> cap_inv c (conclude i r w)"
  by (auto simp: conclude_def about_def intro: set_job_cap finish_cap split: option.splits)

lemma markDead_cap: "cap_inv c w \<Longrightarrow> about i j w \<Longrightarrow> cap_inv c (markDead i r d now j w)"
  by (auto simp: markDead_def about_def intro!: set_job_cap conclude_cap)

lemma settleFailure_cap:
  "cap_inv c w \<Longrightarrow> about i j w \<Longrightarrow> cap_inv c (settleFailure i p d r now x j w)"
  by (auto simp: settleFailure_def Let_def about_def intro!: set_job_cap conclude_cap markDead_cap)

lemma mark_done_cap: "cap_inv c w \<Longrightarrow> about i j w \<Longrightarrow> cap_inv c (mark_done i ph now j w)"
  by (auto simp: mark_done_def about_def intro!: set_job_cap)

lemmas job_caps = set_job_cap finish_cap conclude_cap markDead_cap settleFailure_cap mark_done_cap

lemma lock_granted_cap: "cap_inv c w \<Longrightarrow> about i j w \<Longrightarrow> cap_inv c (lock_granted i j w)"
  by (auto simp: lock_granted_def about_def intro!: job_caps)

lemma marker_answered_cap:
  "cap_inv c w \<Longrightarrow> about i j w \<Longrightarrow> cap_inv c (marker_answered c parse i now x answer j w)"
  by (auto simp: marker_answered_def intro!: job_caps split: option.splits sum.splits)
    (auto simp: about_def)

lemma handler_settled_cap:
  "cap_inv c w \<Longrightarrow> about i j w \<Longrightarrow> cap_inv c (handler_settled c i now x r j w)"
  unfolding handler_settled_def Let_def
  by (auto intro!: job_caps split: option.splits job_phase.splits) (auto simp: about_def)

lemma handler_started_cap:
  "cap_inv c w \<Longrightarrow> about i j w \<Longrightarrow> cap_inv c (handler_started c i now x j w)"
  by (auto simp: handler_started_def about_def intro!: job_caps handler_settled_cap)

lemma handler_timeout_cap:
  "cap_inv c w \<Longrightarrow> about i j w \<Longrightarrow> cap_inv c (handler_timeout c f i now x j w)"
  by (auto simp: handler_timeout_def Let_def about_def intro!: job_caps)

lemma settlement_answered_cap:
  "cap_inv c w \<Longrightarrow> about i j w \<Longrightarrow> cap_inv c (settlement_answered i answer j w)"
  by (auto simp: settlement_answered_def Let_def intro!: job_caps split: option.splits job_phase.splits)
    (auto simp: about_def)

lemma dead_notified_cap: "cap_inv c w \<Longrightarrow> cap_inv c (dead_notified i b j w)"
  by (auto simp: dead_notified_def intro!: job_caps)

subsection \<open>The segments of a pass\<close>

lemma startClaimed_cap:
  assumes "core_ok c (job_core (wk_active w)) (wk_inFlight w) (wk_byHandler w)"
    and "jc_id row \<notin> fst ` set (wk_active w)"
  shows "core_ok c (job_core (wk_active (startClaimed c row w))) (wk_inFlight (startClaimed c row w))
      (wk_byHandler (startClaimed c row w)) \<and>
    job_core (wk_active (startClaimed c row w)) =
      job_core (wk_active w) @ [(jc_id row, row, map_of (wc_handlers c) (jc_name row))] \<and>
    wk_pass (startClaimed c row w) = wk_pass w"
proof -
  have up: "AList.update k v m = m @ [(k, v)]" if "k \<notin> fst ` set m" for k and v :: "('a, 'b) active_job" and m
    using that by (induction m) auto
  have core: "job_core (wk_active (startClaimed c row w)) =
      job_core (wk_active w) @ [(jc_id row, row, map_of (wc_handlers c) (jc_name row))]"
    using up [OF assms(2)] by (simp add: startClaimed_def Let_def job_core_def)
  have "jc_id row \<notin> fst ` set (job_core (wk_active w))" unfolding job_core_keys by (rule assms(2))
  then show ?thesis
    using assms(1) unfolding core
    by (auto simp: core_ok_def startClaimed_def Let_def active_named_def)
qed

lemma start_all_cap:
  "core_ok c (job_core (wk_active w)) (wk_inFlight w) (wk_byHandler w) \<Longrightarrow>
   distinct (map jc_id rows) \<Longrightarrow> \<forall>r \<in> set rows. jc_id r \<notin> fst ` set (wk_active w) \<Longrightarrow>
   core_ok c (job_core (wk_active (fold (startClaimed c) rows w))) (wk_inFlight (fold (startClaimed c) rows w))
      (wk_byHandler (fold (startClaimed c) rows w)) \<and>
   job_core (wk_active (fold (startClaimed c) rows w)) =
      job_core (wk_active w) @ map (\<lambda>r. (jc_id r, r, map_of (wc_handlers c) (jc_name r))) rows \<and>
   wk_pass (fold (startClaimed c) rows w) = wk_pass w"
proof (induction rows arbitrary: w)
  case (Cons r rows)
  note one = startClaimed_cap [OF Cons.prems(1)] 
  have r: "jc_id r \<notin> fst ` set (wk_active w)" using Cons.prems(3) by simp
  have "\<forall>q \<in> set rows. jc_id q \<notin> fst ` set (wk_active (startClaimed c r w))"
    unfolding job_core_keys [of "wk_active (startClaimed c r w)", symmetric]
    using one [OF r] Cons.prems(2,3) by (auto simp: job_core_keys) (metis image_eqI)
  moreover have "distinct (map jc_id rows)" using Cons.prems(2) by simp
  ultimately have ih: "core_ok c (job_core (wk_active (fold (startClaimed c) rows (startClaimed c r w))))
      (wk_inFlight (fold (startClaimed c) rows (startClaimed c r w)))
      (wk_byHandler (fold (startClaimed c) rows (startClaimed c r w)))"
    "job_core (wk_active (fold (startClaimed c) rows (startClaimed c r w))) =
      job_core (wk_active (startClaimed c r w)) @ map (\<lambda>r. (jc_id r, r, map_of (wc_handlers c) (jc_name r))) rows"
    "wk_pass (fold (startClaimed c) rows (startClaimed c r w)) = wk_pass (startClaimed c r w)"
    using Cons.IH [OF conjunct1 [OF one [OF r]]] by blast+
  show ?case unfolding fold_simps using ih(1) one [OF r] by (simp only: ih(2,3)) simp
qed simp

lemma requeue_all [simp]:
  "wk_active (fold (requeueClaim now) rows w) = wk_active w"
  "wk_inFlight (fold (requeueClaim now) rows w) = wk_inFlight w"
  "wk_byHandler (fold (requeueClaim now) rows w) = wk_byHandler w"
  "wk_pass (fold (requeueClaim now) rows w) = wk_pass w"
  by (induction rows arbitrary: w) (simp_all add: requeueClaim_def send_def)

text \<open>A sublist of the pending candidates fits where all of them do.\<close>

lemma named_truncate: "named n (map job_candidate.truncate rows) = named n rows"
  by (induction rows) (auto simp: job_candidate.truncate_def)

lemma claim_named:
  assumes "claim_ok sel holder rows" and "distinct (map jc_id sel)"
  shows "length rows \<le> length sel \<and> named n rows \<le> named n sel"
proof -
  let ?t = "map job_candidate.truncate rows"
  have "map jc_id ?t = map jc_id rows" by (simp add: job_candidate.truncate_def)
  then have d: "distinct ?t" using assms(1) by (metis claim_ok_def distinct_map)
  have sub: "set ?t \<subseteq> set sel" using assms(1) by (auto simp: claim_ok_def)
  have sd: "distinct sel" using assms(2) by (simp add: distinct_map)
  have len: "length xs \<le> length ys" if "set xs \<subseteq> set ys" "distinct xs" "distinct ys" for xs ys :: "job_candidate list"
    using that by (metis card_mono distinct_card finite_set)
  have "length (filter (\<lambda>r. jc_name r = n) ?t) \<le> length (filter (\<lambda>r. jc_name r = n) sel)"
    by (rule len) (use sub d sd in auto)
  then have "named n rows \<le> named n sel" using named_truncate [of n rows] by (simp add: named_def)
  moreover have "length rows \<le> length sel" using len [OF sub d sd] by simp
  ultimately show ?thesis by simp
qed

lemma rows_claimed_cap:
  assumes "cap_inv c w" and "rows = [] \<or> (wk_pass w = AwaitClaim sel holder \<and> claim_ok sel holder rows)"
  shows "cap_inv c (rows_claimed c now rows w)"
proof -
  let ?a = "job_core (wk_active w)"
  have ok: "core_ok c ?a (wk_inFlight w) (wk_byHandler w)" and f: "fits c ?a (pending w) (slots w)"
    using assms(1) by (simp_all add: cap_inv_def)
  show ?thesis
  proof (cases "wk_stopping w \<or> rows = []")
    case True
    then show ?thesis
      using ok fits_less [OF f] by (auto simp: rows_claimed_def Let_def cap_inv_def pending_def slots_def)
  next
    case False
    with assms(2) have p: "wk_pass w = AwaitClaim sel holder" "claim_ok sel holder rows" by auto
    have d: "distinct (map jc_id sel)" and notin: "\<forall>s \<in> set sel. jc_id s \<notin> fst ` set ?a"
      using f p by (auto simp: fits_def pending_def)
    note keys = job_core_keys [of "wk_active w"]
    have new: "\<forall>r \<in> set rows. jc_id r \<notin> fst ` set (wk_active w)"
      using p(2) notin unfolding keys claim_ok_def by (force simp: job_candidate.truncate_def)
    let ?w1 = "w\<lparr>wk_claims := wk_claims w @ rows,
      wk_pass := AwaitJobs (map jc_id rows) (emptyReport\<lparr>rr_claimed := length rows\<rparr>)\<rparr>"
    have "core_ok c (job_core (wk_active ?w1)) (wk_inFlight ?w1) (wk_byHandler ?w1)" using ok by simp
    note all = start_all_cap [OF this, of rows] 
    have named: "active_named n (?a @ map (\<lambda>r. (jc_id r, r, map_of (wc_handlers c) (jc_name r))) rows) =
        active_named n ?a + named n rows" for n
      by (simp add: active_named_def named_def filter_map comp_def)
    have len: "length ?a + length rows \<le> wc_concurrency c"
      using f p conjunct1 [OF claim_named [OF p(2) d]] by (simp add: fits_def slots_def)
    have cap: "active_named n ?a + named n rows \<le> k" if "handler_cap c n = Some k" for n k
    proof -
      have "active_named n ?a + named n sel \<le> k" using f p that by (auto simp: fits_def pending_def)
      with claim_named [OF p(2) d, of n] show ?thesis by simp
    qed
    have "rows_claimed c now rows w = fold (startClaimed c) rows ?w1"
      using False by (simp add: rows_claimed_def Let_def)
    then show ?thesis
      using all new p(2) len cap
      by (auto simp: cap_inv_def pending_def slots_def fits_def named claim_ok_def)
  qed
qed

lemma run_once_cap: "cap_inv c w \<Longrightarrow> cap_inv c (run_once c w)"
  by (auto simp: run_once_def cap_inv_def pending_def slots_def fits_def core_ok_def split: if_splits)

lemma length_job_core [simp]: "length (job_core a) = length a"
  by (simp add: job_core_def)

lemma candidates_answered_cap:
  assumes "cap_inv c w" and "\<And>rows. answer = Some rows \<Longrightarrow> distinct (map jc_id rows)"
  shows "cap_inv c (candidates_answered c now holder answer w)"
proof (cases "\<exists>limit rows. wk_pass w = AwaitCandidates limit \<and> answer = Some rows")
  case False
  then show ?thesis
    using assms(1) fits_less
    by (auto simp: candidates_answered_def cap_inv_def pending_def slots_def
        split: pass_state.splits option.splits)
next
  case True
  then obtain limit rows where p: "wk_pass w = AwaitCandidates limit" and rows: "answer = Some rows" by blast
  let ?a = "job_core (wk_active w)"
  have ok: "core_ok c ?a (wk_inFlight w) (wk_byHandler w)" and f: "fits c ?a [] limit"
    using assms(1) p by (simp_all add: cap_inv_def pending_def slots_def)
  define sel where "sel = selectCandidates c (fst ` set (wk_active w)) (wk_byHandler w) rows limit"
  have sok: "selection_ok c (fst ` set (wk_active w)) (wk_byHandler w) limit (set rows) sel"
    unfolding sel_def by (rule selectCandidates_sound)
  have "active_named n ?a + named n sel \<le> cap" if cap: "handler_cap c n = Some cap" for n cap
  proof -
    have "map_of (wc_handlers c) n \<noteq> None" using cap by (auto simp: handler_cap_def split: option.splits)
    then have "count_of (wk_byHandler w) n = active_named n ?a" using ok by (simp add: core_ok_def)
    moreover have "active_named n ?a \<le> cap" using f cap by (auto simp: fits_def)
    moreover have "named n sel = 0 \<or> count_of (wk_byHandler w) n + named n sel \<le> cap"
      using sok cap by (simp add: selection_ok_def)
    ultimately show ?thesis by linarith
  qed
  moreover have "distinct (map jc_id sel)"
    unfolding sel_def by (rule selectCandidates_distinct) (rule assms(2) [OF rows])
  ultimately have "fits c ?a sel (length sel)"
    using sok f by (auto simp: fits_def selection_ok_def job_core_keys)
  then have "cap_inv c (w\<lparr>wk_pass := AwaitClaim sel holder, wk_holders := holder # wk_holders w\<rparr>)"
    using ok by (simp add: cap_inv_def pending_def slots_def)
  then show ?thesis
    using p rows rows_claimed_cap [OF assms(1), of "[]"]
    by (simp add: candidates_answered_def Let_def flip: sel_def)
qed

lemma grace_elapsed_cap: "cap_inv c (grace_elapsed now w) = cap_inv c w"
proof -
  have fold: "same_core w' (fold (\<lambda>(i, j). requeueClaim now (aj_row j)) js w')" for js and w' :: "('a, 'b) worker"
  proof (induction js arbitrary: w')
    case (Cons p js)
    have "same_core w' (requeueClaim now (aj_row (snd p)) w')"
      by (simp add: same_core_def requeueClaim_def send_def)
    from same_core_trans [OF this Cons.IH] show ?case by (simp add: split_beta)
  qed (simp add: same_core_def)
  have "same_core w (w\<lparr>wk_drain := Drained, wk_active := map (\<lambda>(i, j). (i, abandon j)) (wk_active w)\<rparr>)"
    by (auto simp: same_core_def job_core_def abandon_def)
  from cap_inv_same [OF same_core_trans [OF this fold], of c]
  show ?thesis by (simp add: grace_elapsed_def)
qed

lemma cap_inv_fields [simp]:
  "cap_inv c (w\<lparr>wk_drain := d\<rparr>) = cap_inv c w" "cap_inv c (w\<lparr>wk_stopping := b\<rparr>) = cap_inv c w"
  "cap_inv c (w\<lparr>wk_loop := l\<rparr>) = cap_inv c w" "cap_inv c (w\<lparr>wk_started := b\<rparr>) = cap_inv c w"
  by (simp_all add: cap_inv_def pending_def slots_def)

lemma cap_inv_step:
  assumes "worker_step c parse show_ms w w'" and inv: "cap_inv c w"
  shows "cap_inv c w'"
  using assms(1)
proof cases
  case (ws_candidates limit holder answer now)
  then show ?thesis using candidates_answered_cap [OF inv, of answer] by auto
next
  case (ws_claimed selected holder rows now)
  then show ?thesis using rows_claimed_cap [OF inv] by (auto simp: claim_answered_def)
next
  case (ws_claim_failed selected holder now)
  then show ?thesis
    using inv fits_less by (auto simp: claim_answered_def cap_inv_def pending_def slots_def)
next
  case (ws_requeued n)
  then show ?thesis using inv by (auto simp: requeue_done_def cap_inv_def pending_def slots_def)
next
  case ws_start
  then show ?thesis using run_once_cap [OF inv] inv by (auto simp: start_loop_def)
next
  case ws_loop
  then show ?thesis
    using run_once_cap [OF inv] inv by (auto simp: loop_continued_def split: loop_state.splits option.splits)
next
  case (ws_woken idle)
  then show ?thesis using run_once_cap [OF inv] inv by (auto simp: loop_woken_def Let_def)
next
  case ws_shutdown
  then show ?thesis using inv by (auto simp: onShutdown_def split: drain_state.splits)
qed (auto simp: drain_settled_def intro: inv run_once_cap finish_cap lock_granted_cap marker_answered_cap
    handler_started_cap handler_settled_cap handler_timeout_cap settlement_answered_cap dead_notified_cap
    about_self grace_elapsed_cap [THEN iffD2])

lemma cap_inv_reachable: "worker_reachable c parse show_ms w \<Longrightarrow> cap_inv c w"
proof (rule worker_invariant)
  show "cap_inv c empty_worker"
    by (auto simp: cap_inv_def empty_worker_def core_ok_def fits_def pending_def slots_def job_core_def
        active_named_def count_of_def or_default_def)
qed (auto intro: cap_inv_step)

end
