(* ===== verification/JobSettlements.thy ===== *)
theory JobSettlements
  imports JobWorkerSafety
begin

section \<open>What a worker tells the store\<close>

text \<open>
  Every claim is decided at most once: the worker sends for it at most one of done, retry and dead,
  with the holder of the claim, and the message agrees with the row and the retry policy. A job that
  was abandoned by a shutdown is only released.
\<close>

definition decided :: "job_settlement \<Rightarrow> bool" where
  "decided s = (case s of SettleRelease i h t \<Rightarrow> False | _ \<Rightarrow> True)"

definition settle_key :: "job_settlement \<Rightarrow> string \<times> string" where
  "settle_key s = (ss_job s, ss_holder s)"

definition claim_key :: "claimed_job \<Rightarrow> string \<times> string" where
  "claim_key r = (jc_id r, cj_holder r)"

definition decisions :: "('raw, 'p) worker \<Rightarrow> string \<times> string \<Rightarrow> nat" where
  "decisions w k = length (filter (\<lambda>s. decided s \<and> settle_key s = k) (wk_settled w))"

definition undecided_phase :: "'p job_phase \<Rightarrow> bool" where
  "undecided_phase ph = (case ph of WaitingLock \<Rightarrow> True | CheckingMarker \<Rightarrow> True | Running p \<Rightarrow> True
     | _ \<Rightarrow> False)"

definition policy_for :: "('raw, 'p) worker_config \<Rightarrow> claimed_job \<Rightarrow> retry_policy" where
  "policy_for c r = (case map_of (wc_handlers c) (jc_name r) of
     None \<Rightarrow> wc_retries c
   | Some h \<Rightarrow> or_default (rh_retries h) (wc_retries c))"

text \<open>
  A retry counts one more attempt and some remain; a death for any reason but an invalid payload
  means the attempts are used up, and an unknown name means no handler has it.
\<close>

definition justified :: "('raw, 'p) worker_config \<Rightarrow> claimed_job \<Rightarrow> job_settlement \<Rightarrow> bool" where
  "justified c r s = (case s of
     SettleDone i h key t \<Rightarrow> key = lock_key r
   | SettleRetry i h n t d \<Rightarrow> n = cj_attempts r + 1 \<and> \<not> num_le (rp_attempts (policy_for c r)) (Fin (of_nat n))
   | SettleDead i h n reason d t \<Rightarrow> n = cj_attempts r + 1 \<and>
       (reason \<noteq> InvalidPayload \<longrightarrow> num_le (rp_attempts (policy_for c r)) (Fin (of_nat n))) \<and>
       (reason = UnknownName \<longrightarrow> map_of (wc_handlers c) (jc_name r) = None)
   | SettleRelease i h t \<Rightarrow> True)"

definition job_inv :: "('raw, 'p) worker_config \<Rightarrow> ('raw, 'p) worker \<Rightarrow> bool" where
  "job_inv c w \<longleftrightarrow> (\<forall>i j. map_of (wk_active w) i = Some j \<longrightarrow>
     aj_row j \<in> set (wk_claims w) \<and> jc_id (aj_row j) = i \<and>
     aj_handler j = map_of (wc_handlers c) (jc_name (aj_row j)) \<and>
     (undecided_phase (aj_phase j) \<longrightarrow> decisions w (claim_key (aj_row j)) = 0))"

definition log_inv :: "('raw, 'p) worker_config \<Rightarrow> ('raw, 'p) worker \<Rightarrow> bool" where
  "log_inv c w \<longleftrightarrow> (\<forall>k. decisions w k \<le> 1) \<and>
     (\<forall>s \<in> set (wk_settled w). \<exists>r \<in> set (wk_claims w). claim_key r = settle_key s \<and> justified c r s)"

definition claim_inv :: "('raw, 'p) worker \<Rightarrow> bool" where
  "claim_inv w \<longleftrightarrow> distinct (map claim_key (wk_claims w)) \<and>
     (\<forall>r \<in> set (wk_claims w). cj_holder r \<in> set (wk_holders w)) \<and>
     (\<forall>sel h. wk_pass w = AwaitClaim sel h \<longrightarrow>
        h \<in> set (wk_holders w) \<and> (\<forall>r \<in> set (wk_claims w). cj_holder r \<noteq> h))"

definition settle_inv :: "('raw, 'p) worker_config \<Rightarrow> ('raw, 'p) worker \<Rightarrow> bool" where
  "settle_inv c w \<longleftrightarrow> job_inv c w \<and> log_inv c w \<and> claim_inv w"

lemmas settle_inv_defs = settle_inv_def job_inv_def log_inv_def claim_inv_def

subsection \<open>The elementary changes\<close>

text \<open>The stage \<open>j\<close> replaces the stage of job \<open>i\<close> in \<open>w\<close>, which is not decided yet if \<open>u\<close>.\<close>

definition stage :: "bool \<Rightarrow> string \<Rightarrow> ('raw, 'p) active_job \<Rightarrow> ('raw, 'p) worker \<Rightarrow> bool" where
  "stage u i j w \<longleftrightarrow> (\<exists>j0. map_of (wk_active w) i = Some j0 \<and> aj_row j = aj_row j0 \<and>
     aj_handler j = aj_handler j0 \<and> (u \<longrightarrow> undecided_phase (aj_phase j0)))"

lemma stage_weaken: "stage True i j w \<Longrightarrow> stage u i j w"
  by (auto simp: stage_def)

lemma decisions_set_job [simp]: "decisions (set_job i j w) k = decisions w k"
  by (simp add: decisions_def set_job_def)

lemma set_job_fields [simp]:
  "wk_active (set_job i j w) = AList.update i j (wk_active w)" "wk_claims (set_job i j w) = wk_claims w"
  "wk_settled (set_job i j w) = wk_settled w" "wk_holders (set_job i j w) = wk_holders w"
  "wk_pass (set_job i j w) = wk_pass w"
  by (simp_all add: set_job_def)

lemma send_fields [simp]:
  "wk_claims (send s w) = wk_claims w" "wk_settled (send s w) = wk_settled w @ [s]"
  "wk_holders (send s w) = wk_holders w" "wk_pass (send s w) = wk_pass w"
  by (simp_all add: send_def)

lemma set_job_settle:
  assumes "settle_inv c w" and "stage (undecided_phase (aj_phase j)) i j w"
  shows "settle_inv c (set_job i j w)"
  using assms by (auto simp: settle_inv_defs stage_def split: if_splits)

lemma send_decision:
  assumes inv: "settle_inv c w" and st: "stage True i j w" and ph: "\<not> undecided_phase (aj_phase j)"
    and s: "decided s" "settle_key s = claim_key (aj_row j)" "justified c (aj_row j) s"
  shows "settle_inv c (send s (set_job i j w))"
proof -
  let ?w = "send s (set_job i j w)"
  obtain j0 where j0: "map_of (wk_active w) i = Some j0" "aj_row j = aj_row j0" "aj_handler j = aj_handler j0"
    "undecided_phase (aj_phase j0)" using st by (auto simp: stage_def)
  have none: "decisions w (claim_key (aj_row j)) = 0" and row: "aj_row j \<in> set (wk_claims w)"
    using inv j0 by (auto simp: settle_inv_defs)
  have dec: "decisions ?w k = decisions w k + (if k = claim_key (aj_row j) then 1 else 0)" for k
    using s by (simp add: decisions_def)
  have i: "jc_id (aj_row j) = i" using inv j0 by (simp add: settle_inv_defs)
  have "claim_key (aj_row j') \<noteq> claim_key (aj_row j)" if "map_of (wk_active w) k = Some j'" "k \<noteq> i" for k j'
    using inv that i by (auto simp: settle_inv_defs claim_key_def)
  then have "job_inv c ?w"
    using inv j0 ph by (auto simp: settle_inv_def job_inv_def dec split: if_splits)
  moreover have "log_inv c ?w" using inv none row s by (auto simp: settle_inv_def log_inv_def dec)
  moreover have "claim_inv ?w" using inv by (simp add: settle_inv_defs)
  ultimately show ?thesis by (simp add: settle_inv_def)
qed

lemma release_lock_settle [simp]: "settle_inv c (release_lock i w) = settle_inv c w"
  by (simp add: settle_inv_defs decisions_def release_lock_def)

lemma finish_pass_parts [simp]:
  "wk_settled (finish_pass i out w) = wk_settled w" "wk_claims (finish_pass i out w) = wk_claims w"
  "wk_holders (finish_pass i out w) = wk_holders w"
  "wk_pass (finish_pass i out w) = AwaitClaim sel h \<longleftrightarrow> wk_pass w = AwaitClaim sel h"
  by (auto simp: finish_pass_def Let_def split: pass_state.splits option.splits)

lemma finish_parts [simp]:
  "wk_settled (finish_job i out w) = wk_settled w" "wk_claims (finish_job i out w) = wk_claims w"
  "wk_holders (finish_job i out w) = wk_holders w"
  "wk_pass (finish_job i out w) = AwaitClaim sel h \<longleftrightarrow> wk_pass w = AwaitClaim sel h"
  "wk_active (finish_job i out w) = AList.delete i (wk_active w)"
  by (auto simp: finish_job_def Let_def delete_absent split: option.splits)

lemma finish_settle: "settle_inv c w \<Longrightarrow> settle_inv c (finish_job i out w)"
  by (auto simp: settle_inv_defs decisions_def split: if_splits)

lemma conclude_settle:
  assumes "settle_inv c w"
  shows "settle_inv c (conclude i r w)"
proof -
  have "settle_inv c (set_job i (j\<lparr>aj_phase := AwaitingHandler r\<rparr>) w)" if "map_of (wk_active w) i = Some j" for j
    using assms that by (intro set_job_settle) (auto simp: stage_def undecided_phase_def)
  then show ?thesis using finish_settle [OF assms] assms by (auto simp: conclude_def split: option.splits)
qed

subsection \<open>The segments\<close>

lemma stage_set_job [simp]:
  "stage u i j (set_job i j' w) \<longleftrightarrow> aj_row j = aj_row j' \<and> aj_handler j = aj_handler j' \<and>
     (u \<longrightarrow> undecided_phase (aj_phase j'))"
  by (auto simp: stage_def)

lemma stage_self: "map_of (wk_active w) i = Some j \<Longrightarrow> (u \<longrightarrow> undecided_phase (aj_phase j)) \<Longrightarrow> stage u i j w"
  by (auto simp: stage_def)

lemma undecided_simps [simp]:
  "undecided_phase WaitingLock" "undecided_phase CheckingMarker" "undecided_phase (Running p)"
  "\<not> undecided_phase SettlingMarked" "\<not> undecided_phase SettlingDone" "\<not> undecided_phase SettlingRetry"
  "\<not> undecided_phase (SettlingDead r d)" "\<not> undecided_phase NotifyingDead"
  "\<not> undecided_phase (AwaitingHandler q)"
  by (simp_all add: undecided_phase_def)

text \<open>What the rest of a settled failure may rely on.\<close>

definition dead_ok :: "('raw, 'p) worker_config \<Rightarrow> ('raw, 'p) active_job \<Rightarrow> dead_reason \<Rightarrow> bool" where
  "dead_ok c j reason \<longleftrightarrow>
     (reason \<noteq> InvalidPayload \<longrightarrow>
        num_le (rp_attempts (policy_for c (aj_row j))) (Fin (of_nat (cj_attempts (aj_row j) + 1)))) \<and>
     (reason = UnknownName \<longrightarrow> map_of (wc_handlers c) (jc_name (aj_row j)) = None)"

lemma markDead_settle:
  assumes "settle_inv c w" and "stage True i j w" and "undecided_phase (aj_phase j)" and "dead_ok c j reason"
  shows "settle_inv c (markDead i reason d now j w)"
proof (cases "aj_abandoned j")
  case True
  with assms show ?thesis
    by (auto simp: markDead_def stage_weaken intro!: conclude_settle set_job_settle)
next
  case False
  have "settle_inv c (send (SettleDead (jc_id (aj_row j)) (cj_holder (aj_row j))
      (cj_attempts (aj_row j) + 1) reason d now) (set_job i (j\<lparr>aj_phase := SettlingDead reason d\<rparr>) w))"
    by (rule send_decision) (use assms in \<open>auto simp: stage_def decided_def settle_key_def claim_key_def
        justified_def dead_ok_def\<close>)
  with False show ?thesis by (simp add: markDead_def)
qed

lemma settleFailure_settle:
  assumes "settle_inv c w" and "stage True i j w" and "undecided_phase (aj_phase j)"
    and "policy = policy_for c (aj_row j)" and "reason \<noteq> InvalidPayload"
    and "reason = UnknownName \<longrightarrow> map_of (wc_handlers c) (jc_name (aj_row j)) = None"
  shows "settle_inv c (settleFailure i policy d reason now x j w)"
proof (cases "num_le (rp_attempts policy) (Fin (of_nat (cj_attempts (aj_row j) + 1)))")
  case True
  with assms have "dead_ok c j reason" by (simp add: dead_ok_def)
  with True assms show ?thesis by (simp add: settleFailure_def Let_def markDead_settle)
next
  case live: False
  show ?thesis
  proof (cases "aj_abandoned j")
    case True
    with live assms show ?thesis
      by (auto simp: settleFailure_def Let_def stage_weaken intro!: conclude_settle set_job_settle)
  next
    case False
    have "settle_inv c (send (SettleRetry (jc_id (aj_row j)) (cj_holder (aj_row j))
        (cj_attempts (aj_row j) + 1) t d) (set_job i (j\<lparr>aj_phase := SettlingRetry\<rparr>) w))" for t
      by (rule send_decision) (use assms live in \<open>auto simp: stage_def decided_def settle_key_def
          claim_key_def justified_def\<close>)
    with False live show ?thesis by (simp add: settleFailure_def Let_def)
  qed
qed

lemma mark_done_settle:
  assumes "settle_inv c w" and "stage True i j w" and "\<not> undecided_phase ph"
  shows "settle_inv c (mark_done i ph now j w)"
  unfolding mark_done_def
  by (rule send_decision) (use assms in \<open>auto simp: stage_def decided_def settle_key_def claim_key_def
      justified_def\<close>)

lemma job_handler: "settle_inv c w \<Longrightarrow> map_of (wk_active w) i = Some j \<Longrightarrow>
    aj_handler j = map_of (wc_handlers c) (jc_name (aj_row j)) \<and> policy_of c j = policy_for c (aj_row j)"
  by (auto simp: settle_inv_defs policy_of_def policy_for_def)

lemma marker_answered_settle:
  assumes inv: "settle_inv c w" and j: "map_of (wk_active w) i = Some j" "aj_phase j = CheckingMarker"
  shows "settle_inv c (marker_answered c parse i now x answer j w)"
proof -
  have st: "stage u i j w" for u using j by (intro stage_self) simp_all
  have run: "settle_inv c (set_job i (j\<lparr>aj_phase := Running p\<rparr>) w)" for p
    using j by (intro set_job_settle [OF inv]) (auto simp: stage_def)
  have dead: "settle_inv c (markDead i InvalidPayload d now j w)" for d
    using st j inv by (intro markDead_settle) (auto simp: dead_ok_def)
  have unknown: "settle_inv c (settleFailure i (wc_retries c) d UnknownName now x j w)" if "aj_handler j = None" for d
    using st j inv job_handler [OF inv j(1)] that
    by (intro settleFailure_settle) (auto simp: policy_for_def)
  show ?thesis
    using finish_settle [OF inv] mark_done_settle [OF inv st] run dead unknown
    by (auto simp: marker_answered_def split: option.splits sum.splits)
qed

lemma handler_settled_settle:
  assumes inv: "settle_inv c w" and j: "map_of (wk_active w) i = Some j"
  shows "settle_inv c (handler_settled c i now x result j w)"
proof -
  let ?j = "j\<lparr>aj_state := HSettled\<rparr>" and ?w = "set_job i (j\<lparr>aj_state := HSettled\<rparr>) w"
  have w: "settle_inv c ?w" using j by (intro set_job_settle [OF inv]) (auto simp: stage_def)
  have fail: "settle_inv c (settleFailure i (policy_of c j) d AttemptsExhausted now x ?j ?w)"
    if "undecided_phase (aj_phase j)" for d
    using job_handler [OF inv j] that by (intro settleFailure_settle [OF w]) auto
  have ok: "settle_inv c (mark_done i SettlingDone now ?j ?w)" if "undecided_phase (aj_phase j)"
    using that by (intro mark_done_settle [OF w]) auto
  show ?thesis
    unfolding handler_settled_def Let_def
    using finish_settle [OF w] w fail ok by (auto split: job_phase.splits option.splits)
qed

lemma handler_timeout_settle:
  assumes inv: "settle_inv c w" and j: "map_of (wk_active w) i = Some j" "running (aj_phase j)"
  shows "settle_inv c (handler_timeout c f i now x j w)"
proof -
  let ?j = "j\<lparr>aj_aborted := True, aj_timedOut := True\<rparr>"
  have "undecided_phase (aj_phase j)" using j(2) by (simp add: running_def undecided_phase_def split: job_phase.splits)
  moreover have "settle_inv c (set_job i ?j w)" using j by (intro set_job_settle [OF inv]) (auto simp: stage_def)
  ultimately show ?thesis
    unfolding handler_timeout_def Let_def using job_handler [OF inv j(1)]
    by (intro settleFailure_settle) auto
qed

lemma settlement_answered_settle:
  assumes inv: "settle_inv c w" and j: "map_of (wk_active w) i = Some j" "settling (aj_phase j)"
  shows "settle_inv c (settlement_answered i answer j w)"
proof -
  have "settle_inv c (set_job i (j\<lparr>aj_phase := NotifyingDead\<rparr>) w)"
    using j by (intro set_job_settle [OF inv]) (auto simp: stage_def)
  then show ?thesis
    using finish_settle [OF inv] conclude_settle [OF inv] inv
    by (auto simp: settlement_answered_def Let_def split: option.splits job_phase.splits)
qed

lemma start_fold [simp]:
  "wk_claims (fold (startClaimed c) rows w) = wk_claims w"
  "wk_settled (fold (startClaimed c) rows w) = wk_settled w"
  "wk_holders (fold (startClaimed c) rows w) = wk_holders w"
  "wk_pass (fold (startClaimed c) rows w) = wk_pass w"
  by (induction rows arbitrary: w) (simp_all add: startClaimed_def Let_def)

lemma start_jobs:
  "map_of (wk_active (fold (startClaimed c) rows w)) i = Some j \<Longrightarrow>
     map_of (wk_active w) i = Some j \<or>
     (aj_row j \<in> set rows \<and> jc_id (aj_row j) = i \<and> aj_handler j = map_of (wc_handlers c) (jc_name (aj_row j)))"
proof (induction rows arbitrary: w)
  case (Cons r rows)
  then have "map_of (wk_active (startClaimed c r w)) i = Some j \<or>
      (aj_row j \<in> set rows \<and> jc_id (aj_row j) = i \<and> aj_handler j = map_of (wc_handlers c) (jc_name (aj_row j)))"
    by auto
  then show ?case by (auto simp: startClaimed_def Let_def split: if_splits)
qed simp

lemma requeue_fold [simp]:
  "wk_claims (fold (requeueClaim now) rows w) = wk_claims w"
  "wk_holders (fold (requeueClaim now) rows w) = wk_holders w"
  "decisions (fold (requeueClaim now) rows w) k = decisions w k"
  "wk_settled (fold (requeueClaim now) rows w) =
     wk_settled w @ map (\<lambda>r. SettleRelease (jc_id r) (cj_holder r) now) rows"
  by (induction rows arbitrary: w) (simp_all add: requeueClaim_def decisions_def decided_def)

text \<open>No decision was taken yet on a claim whose holder no row has.\<close>

lemma decisions_pos: "log_inv c w \<Longrightarrow> decisions w k \<noteq> 0 \<Longrightarrow> \<exists>r \<in> set (wk_claims w). claim_key r = k"
  by (force simp: log_inv_def decisions_def filter_empty_conv)

lemma rows_claimed_settle:
  assumes inv: "settle_inv c w" and "rows = [] \<or> (wk_pass w = AwaitClaim sel h \<and> claim_ok sel h rows)"
  shows "settle_inv c (rows_claimed c now rows w)"
proof (cases "rows = []")
  case True
  then show ?thesis using inv by (auto simp: rows_claimed_def Let_def settle_inv_defs decisions_def)
next
  case False
  with assms(2) have p: "wk_pass w = AwaitClaim sel h" "claim_ok sel h rows" by auto
  have holder: "\<forall>r \<in> set rows. cj_holder r = h" "distinct (map jc_id rows)" using p(2) by (auto simp: claim_ok_def)
  have new: "h \<in> set (wk_holders w)" "\<forall>r \<in> set (wk_claims w). cj_holder r \<noteq> h"
    using inv p(1) by (auto simp: settle_inv_def claim_inv_def)
  have none: "decisions w (claim_key r) = 0" if "r \<in> set rows" for r
  proof (rule ccontr)
    assume "decisions w (claim_key r) \<noteq> 0"
    moreover have "log_inv c w" using inv by (simp add: settle_inv_def)
    ultimately obtain q where "q \<in> set (wk_claims w)" "claim_key q = claim_key r"
      using decisions_pos by blast
    with that holder new(2) show False by (auto simp: claim_key_def)
  qed
  have "distinct (map claim_key rows)"
    using holder(2) by (auto simp: distinct_map inj_on_def claim_key_def)
  moreover have "claim_key r \<noteq> claim_key q" if "r \<in> set rows" "q \<in> set (wk_claims w)" for r q
    using that holder(1) new(2) by (auto simp: claim_key_def)
  ultimately have d: "distinct (map claim_key (wk_claims w @ rows))"
    using inv by (auto simp: settle_inv_def claim_inv_def)
  show ?thesis
  proof (cases "wk_stopping w")
    case True
    have "justified c r (SettleRelease i h' t)" for r i h' t by (simp add: justified_def)
    with True False inv d new holder(1) show ?thesis
      by (fastforce simp: rows_claimed_def Let_def settle_inv_defs decisions_def decided_def claim_key_def
          settle_key_def)
  next
    case go: False
    let ?w1 = "w\<lparr>wk_claims := wk_claims w @ rows,
      wk_pass := AwaitJobs (map jc_id rows) (emptyReport\<lparr>rr_claimed := length rows\<rparr>)\<rparr>"
    let ?w = "fold (startClaimed c) rows ?w1"
    have dec: "decisions ?w k = decisions w k" for k by (simp add: decisions_def)
    have "job_inv c ?w"
      unfolding job_inv_def dec
    proof (intro allI impI)
      fix i j assume "map_of (wk_active ?w) i = Some j"
      from start_jobs [OF this] inv none show "aj_row j \<in> set (wk_claims ?w) \<and> jc_id (aj_row j) = i \<and>
          aj_handler j = map_of (wc_handlers c) (jc_name (aj_row j)) \<and>
          (undecided_phase (aj_phase j) \<longrightarrow> decisions w (claim_key (aj_row j)) = 0)"
        by (auto simp: settle_inv_def job_inv_def)
    qed
    moreover have "log_inv c ?w" using inv by (auto simp: settle_inv_def log_inv_def dec)
    moreover have "claim_inv ?w" using inv d new(1) holder(1) by (auto simp: settle_inv_def claim_inv_def)
    ultimately show ?thesis using False go by (simp add: rows_claimed_def Let_def settle_inv_def)
  qed
qed

subsection \<open>Every step\<close>

lemma settle_inv_pass:
  "settle_inv c w \<Longrightarrow> (\<forall>sel h. p \<noteq> AwaitClaim sel h) \<Longrightarrow> settle_inv c (w\<lparr>wk_pass := p\<rparr>)"
  by (simp add: settle_inv_defs decisions_def)

lemma settle_inv_fields [simp]:
  "settle_inv c (w\<lparr>wk_drain := d\<rparr>) = settle_inv c w" "settle_inv c (w\<lparr>wk_stopping := b\<rparr>) = settle_inv c w"
  "settle_inv c (w\<lparr>wk_loop := l\<rparr>) = settle_inv c w" "settle_inv c (w\<lparr>wk_started := b\<rparr>) = settle_inv c w"
  "settle_inv c (w\<lparr>wk_result := q\<rparr>) = settle_inv c w"
  by (simp_all add: settle_inv_defs decisions_def)

lemma run_once_settle: "settle_inv c w \<Longrightarrow> settle_inv c (run_once c w)"
  by (auto simp: run_once_def intro: settle_inv_pass)

lemma candidates_answered_settle:
  assumes inv: "settle_inv c w" and "holder \<notin> set (wk_holders w)"
  shows "settle_inv c (candidates_answered c now holder answer w)"
proof -
  have "settle_inv c (w\<lparr>wk_pass := AwaitClaim sel holder, wk_holders := holder # wk_holders w\<rparr>)" for sel
    using assms by (auto simp: settle_inv_defs decisions_def)
  then show ?thesis
    using inv settle_inv_pass [OF inv, of NoPass] rows_claimed_settle [OF inv, of "[]"]
    by (auto simp: candidates_answered_def Let_def split: pass_state.splits option.splits)
qed

lemma grace_unfold:
  "grace_elapsed now w = fold (requeueClaim now) (map (\<lambda>(i, j). aj_row j) (wk_active w))
     (w\<lparr>wk_drain := Drained, wk_active := map (\<lambda>(i, j). (i, abandon j)) (wk_active w)\<rparr>)"
  by (simp add: grace_elapsed_def fold_map comp_def case_prod_unfold)

lemma map_of_abandon: "map_of (map (\<lambda>(i, j). (i, abandon j)) a) i = map_option abandon (map_of a i)"
  by (induction a) auto

lemma abandon_fields [simp]:
  "aj_row (abandon j) = aj_row j" "aj_handler (abandon j) = aj_handler j" "aj_phase (abandon j) = aj_phase j"
  "aj_abandoned (abandon j)"
  by (simp_all add: abandon_def)

lemma grace_elapsed_settle:
  assumes inv: "settle_inv c w" and d: "distinct (map fst (wk_active w))"
  shows "settle_inv c (grace_elapsed now w)"
proof -
  let ?w = "grace_elapsed now w"
  have dec: "decisions ?w k = decisions w k" for k
    unfolding grace_unfold requeue_fold(3) by (simp add: decisions_def)
  have f: "wk_claims ?w = wk_claims w" "wk_holders ?w = wk_holders w" "wk_pass ?w = wk_pass w"
    "map_of (wk_active ?w) i = map_option abandon (map_of (wk_active w) i)" for i
    unfolding grace_unfold by (simp_all add: map_of_abandon)
  have rows: "aj_row j \<in> set (wk_claims w)" if "(i, j) \<in> set (wk_active w)" for i j
    using inv d that by (auto simp: settle_inv_defs)
  have "job_inv c ?w" using inv by (auto simp: settle_inv_def job_inv_def dec f)
  moreover have "log_inv c ?w"
    unfolding log_inv_def dec f
    using inv rows by (auto simp: grace_unfold settle_inv_def log_inv_def settle_key_def claim_key_def
        justified_def)
  moreover have "claim_inv ?w" using inv by (simp add: settle_inv_def claim_inv_def f)
  ultimately show ?thesis by (simp add: settle_inv_def)
qed

lemma settle_inv_step:
  assumes "worker_step c parse show_ms w w'" and inv: "settle_inv c w" and cap: "cap_inv c w"
  shows "settle_inv c w'"
  using assms(1)
proof cases
  case (ws_candidates limit holder answer now)
  then show ?thesis using candidates_answered_settle [OF inv] by simp
next
  case (ws_claimed selected holder rows now)
  then show ?thesis using rows_claimed_settle [OF inv] by (auto simp: claim_answered_def)
next
  case (ws_claim_failed selected holder now)
  then show ?thesis using settle_inv_pass [OF inv] by (simp add: claim_answered_def)
next
  case (ws_requeued n)
  then show ?thesis using settle_inv_pass [OF inv] by (simp add: requeue_done_def)
next
  case (ws_lock i j)
  have "settle_inv c (set_job i (j\<lparr>aj_phase := CheckingMarker\<rparr>) w)"
    using ws_lock by (intro set_job_settle [OF inv]) (auto simp: stage_def)
  then show ?thesis using ws_lock finish_settle [OF inv] by (auto simp: lock_granted_def)
next
  case (ws_started i j now random)
  have "settle_inv c (set_job i (j\<lparr>aj_state := HBusy\<rparr>) w)"
    using ws_started by (intro set_job_settle [OF inv]) (auto simp: stage_def)
  then show ?thesis using ws_started handler_settled_settle [OF inv] by (auto simp: handler_started_def)
next
  case (ws_grace ids now)
  have "distinct (map fst (job_core (wk_active w)))" using cap by (simp add: cap_inv_def core_ok_def)
  moreover have "map fst (job_core a) = map fst a" for a :: "(string \<times> ('a, 'b) active_job) list"
    by (simp add: job_core_def comp_def split_beta)
  ultimately show ?thesis using ws_grace grace_elapsed_settle [OF inv] by simp
next
  case ws_start
  then show ?thesis using run_once_settle [OF inv] inv by (auto simp: start_loop_def)
next
  case ws_loop
  then show ?thesis
    using run_once_settle [OF inv] inv by (auto simp: loop_continued_def split: loop_state.splits option.splits)
next
  case (ws_woken idle)
  then show ?thesis using run_once_settle [OF inv] inv by (auto simp: loop_woken_def Let_def)
next
  case ws_shutdown
  then show ?thesis using inv by (auto simp: onShutdown_def split: drain_state.splits)
next
  case (ws_notified i j returned)
  then show ?thesis using inv finish_settle conclude_settle by (auto simp: dead_notified_def)
qed (auto simp: drain_settled_def inv intro: run_once_settle finish_settle marker_answered_settle
    handler_settled_settle handler_timeout_settle settlement_answered_settle)

lemma settle_inv_reachable: "worker_reachable c parse show_ms w \<Longrightarrow> settle_inv c w \<and> cap_inv c w"
proof (induction rule: worker_reachable.induct)
  case wr_new
  have "settle_inv c empty_worker"
    by (simp add: settle_inv_defs empty_worker_def decisions_def)
  moreover have "cap_inv c empty_worker" by (rule cap_inv_reachable [OF worker_reachable.wr_new])
  ultimately show ?case ..
next
  case (wr_step w w')
  then show ?case using settle_inv_step cap_inv_step by blast
qed

subsection \<open>Abandoned jobs\<close>

text \<open>A segment about a job decides only its claim, and nothing once the job is abandoned.\<close>

definition untouched :: "string \<times> string \<Rightarrow> ('raw, 'p) active_job \<Rightarrow> bool" where
  "untouched k j \<longleftrightarrow> aj_abandoned j \<or> k \<noteq> claim_key (aj_row j)"

lemma decisions_send [simp]:
  "decisions (send s w) k = decisions w k + (if decided s \<and> settle_key s = k then 1 else 0)"
  by (simp add: decisions_def)

lemma decisions_finish [simp]:
  "decisions (finish_job i out w) k = decisions w k" "decisions (conclude i r w) k = decisions w k"
  "decisions (release_lock i w) k = decisions w k"
  by (auto simp: decisions_def conclude_def release_lock_def split: option.splits)

lemma settle_key_row [simp]:
  "settle_key (SettleDone (jc_id r) (cj_holder r) q t) = claim_key r"
  "settle_key (SettleRetry (jc_id r) (cj_holder r) n t d) = claim_key r"
  "settle_key (SettleDead (jc_id r) (cj_holder r) n x d t) = claim_key r"
  by (simp_all add: settle_key_def claim_key_def)

lemma decisions_settlers:
  "untouched k j \<Longrightarrow> decisions (markDead i r d now j w) k = decisions w k"
  "untouched k j \<Longrightarrow> decisions (settleFailure i p d r now x j w) k = decisions w k"
  by (auto simp: markDead_def settleFailure_def Let_def untouched_def)

lemma decisions_mark_done: "k \<noteq> claim_key (aj_row j) \<Longrightarrow> decisions (mark_done i ph now j w) k = decisions w k"
  by (auto simp: mark_done_def)

lemma untouched_update [simp]:
  "untouched k (j\<lparr>aj_state := s\<rparr>) = untouched k j" "untouched k (j\<lparr>aj_aborted := a, aj_timedOut := b\<rparr>) = untouched k j"
  by (simp_all add: untouched_def)

lemma decisions_marker:
  "untouched k j \<Longrightarrow> decisions (marker_answered c parse i now x a j w) k = decisions w k"
  unfolding marker_answered_def
  by (cases "aj_abandoned j")
    (auto simp: decisions_settlers decisions_mark_done untouched_def split: option.splits sum.splits)

lemma decisions_handled:
  "untouched k j \<Longrightarrow> decisions (handler_settled c i now x r j w) k = decisions w k"
  unfolding handler_settled_def Let_def
  by (cases "aj_abandoned j")
    (auto simp: decisions_settlers decisions_mark_done untouched_def split: option.splits job_phase.splits)

lemma decisions_timeout:
  "untouched k j \<Longrightarrow> decisions (handler_timeout c f i now x j w) k = decisions w k"
  by (simp add: handler_timeout_def Let_def decisions_settlers)

lemma decisions_job_steps:
  "decisions (lock_granted i j w) k = decisions w k"
  "decisions (settlement_answered i answer j w) k = decisions w k"
  "decisions (dead_notified i b j w) k = decisions w k"
  "untouched k j \<Longrightarrow> decisions (handler_started c i now x j w) k = decisions w k"
  by (auto simp: lock_granted_def settlement_answered_def dead_notified_def handler_started_def Let_def
      decisions_handled split: option.splits job_phase.splits)

lemma decisions_pass [simp]:
  "decisions (w\<lparr>wk_pass := p\<rparr>) k = decisions w k" "decisions (w\<lparr>wk_result := q\<rparr>) k = decisions w k"
  "decisions (w\<lparr>wk_loop := l\<rparr>) k = decisions w k" "decisions (w\<lparr>wk_stopping := b\<rparr>) k = decisions w k"
  "decisions (w\<lparr>wk_started := b\<rparr>) k = decisions w k" "decisions (w\<lparr>wk_drain := d\<rparr>) k = decisions w k"
  "decisions (w\<lparr>wk_claims := cl\<rparr>) k = decisions w k" "decisions (w\<lparr>wk_holders := hs\<rparr>) k = decisions w k"
  "decisions (w\<lparr>wk_active := a\<rparr>) k = decisions w k"
  by (simp_all add: decisions_def)

lemma decisions_start [simp]: "decisions (fold (startClaimed c) rows w) k = decisions w k"
  by (simp add: decisions_def)

lemma decisions_pass_steps:
  "decisions (run_once c w) k = decisions w k" "decisions (rows_claimed c now rows w) k = decisions w k"
  "decisions (candidates_answered c now h a w) k = decisions w k"
  "decisions (claim_answered c now b w) k = decisions w k" "decisions (requeue_done w) k = decisions w k"
  "decisions (onShutdown w) k = decisions w k" "decisions (drain_settled w) k = decisions w k"
  "decisions (start_loop c w) k = decisions w k" "decisions (loop_continued c w) k = decisions w k"
  "decisions (loop_woken c w) k = decisions w k" "decisions (grace_elapsed now w) k = decisions w k"
  unfolding grace_unfold
  by (auto simp: run_once_def rows_claimed_def candidates_answered_def claim_answered_def requeue_done_def
      onShutdown_def drain_settled_def start_loop_def loop_continued_def loop_woken_def Let_def
      split: pass_state.splits option.splits drain_state.splits loop_state.splits)

lemma abandoned_step:
  assumes "worker_step c parse show_ms w w'" and inv: "settle_inv c w"
    and j: "map_of (wk_active w) i = Some j" "aj_abandoned j"
  shows "decisions w' (claim_key (aj_row j)) = decisions w (claim_key (aj_row j))"
proof -
  have u: "untouched (claim_key (aj_row j)) j'" if "map_of (wk_active w) i' = Some j'" for i' j'
    using inv j that by (cases "i' = i") (auto simp: untouched_def settle_inv_defs claim_key_def)
  from assms(1) show ?thesis
    by cases (simp_all add: decisions_job_steps decisions_pass_steps decisions_marker decisions_handled
        decisions_timeout u)
qed

end
