(* ===== verification/JobProperties.thy ===== *)
theory JobProperties
  imports JobSettlements
begin

section \<open>Properties of the job queue\<close>

text \<open>
  The statements about \<open>packages/jobs/src/queues/index.ts\<close>, over every reachable state of a worker:
  every order of answers, rejections, timeouts and shutdowns.
\<close>

subsection \<open>A sample worker\<close>

definition sample_handler :: "(string, string) runtime_handler" where
  "sample_handler = \<lparr>rh_name = ''email'', rh_concurrency = Some (Fin 2), rh_timeoutMs = None, rh_retries = None,
     rh_prepare = (\<lambda>raw. Inr raw)\<rparr>"

definition sample_config :: "(string, string) worker_config" where
  "sample_config = \<lparr>wc_handlers = [(''email'', sample_handler)], wc_concurrency = 2, wc_graceMs = 0,
     wc_leaseMs = 60000, wc_timeoutMs = 30000, wc_retries = DEFAULT_RETRIES, wc_batch = 100, wc_idleMs = 1000,
     wc_maxIdleMs = 30000\<rparr>"

definition candidate_a :: job_candidate where
  "candidate_a = \<lparr>jc_id = ''a'', jc_name = ''email'', jc_enqueuedAt = 0\<rparr>"

definition candidate_k :: job_candidate where
  "candidate_k = \<lparr>jc_id = ''k'', jc_name = ''email'', jc_enqueuedAt = 0\<rparr>"

definition row_a :: claimed_job where
  "row_a = \<lparr>jc_id = ''a'', jc_name = ''email'', jc_enqueuedAt = 0, cj_payload = ''1'', cj_attempts = 0,
     cj_dedupeKey = Some ''k'', cj_holder = ''h''\<rparr>"

definition row_k :: claimed_job where
  "row_k = \<lparr>jc_id = ''k'', jc_name = ''email'', jc_enqueuedAt = 0, cj_payload = ''2'', cj_attempts = 0,
     cj_dedupeKey = None, cj_holder = ''h''\<rparr>"

lemmas sample_defs = sample_handler_def sample_config_def candidate_a_def candidate_k_def row_a_def row_k_def

abbreviation sample_parse :: "string \<Rightarrow> string + string" where "sample_parse \<equiv> Inr"
abbreviation sample_ms :: "rat \<Rightarrow> string" where "sample_ms \<equiv> (\<lambda>_. [])"
abbreviation sample_reachable where "sample_reachable \<equiv> worker_reachable sample_config sample_parse sample_ms"

text \<open>A job of the sample in a given stage.\<close>

definition job_at :: "claimed_job \<Rightarrow> string job_phase \<Rightarrow> handler_state \<Rightarrow> (string, string) active_job" where
  "job_at r ph s = \<lparr>aj_row = r, aj_handler = Some sample_handler, aj_abandoned = False, aj_aborted = False,
     aj_phase = ph, aj_timedOut = False, aj_state = s\<rparr>"

definition both_claimed :: "(string, string) worker" where
  "both_claimed = empty_worker\<lparr>wk_active := [(''a'', job_at row_a WaitingLock HQueued), (''k'', job_at row_k WaitingLock HQueued)],
     wk_inFlight := [''a'', ''k''], wk_byHandler := [(''email'', 2)], wk_locks := [(''k'', ''a''), (''k'', ''k'')],
     wk_pass := AwaitJobs [''a'', ''k''] (emptyReport\<lparr>rr_claimed := 2\<rparr>), wk_holders := [''h''],
     wk_claims := [row_a, row_k]\<rparr>"

lemma both_claimed_reachable: "sample_reachable both_claimed"
proof -
  let ?w1 = "empty_worker\<lparr>wk_pass := AwaitCandidates 2\<rparr> :: (string, string) worker"
  let ?w2 = "empty_worker\<lparr>wk_pass := AwaitClaim [candidate_a, candidate_k] ''h'', wk_holders := [''h'']\<rparr> :: (string, string) worker"
  have "worker_step sample_config sample_parse sample_ms empty_worker (run_once sample_config empty_worker)"
    by (rule ws_run) (simp add: loop_ready_def empty_worker_def)
  moreover have "run_once sample_config empty_worker = ?w1"
    by (simp add: run_once_def empty_worker_def sample_defs)
  ultimately have 1: "sample_reachable ?w1" using wr_step [OF wr_new] by simp
  have "worker_step sample_config sample_parse sample_ms ?w1
      (candidates_answered sample_config 0 ''h'' (Some [candidate_a, candidate_k]) ?w1)"
    by (rule ws_candidates) (simp_all add: empty_worker_def sample_defs)
  moreover have "candidates_answered sample_config 0 ''h'' (Some [candidate_a, candidate_k]) ?w1 = ?w2"
    by (simp add: candidates_answered_def selectCandidates_def handler_cap_def count_of_def or_default_def
        empty_worker_def sample_defs num_int_def)
  ultimately have 2: "sample_reachable ?w2" using wr_step [OF 1] by simp
  have "worker_step sample_config sample_parse sample_ms ?w2 (claim_answered sample_config 0 (Some [row_a, row_k]) ?w2)"
    by (rule ws_claimed [where selected = "[candidate_a, candidate_k]" and holder = "''h''"])
      (simp_all add: claim_ok_def sample_defs job_candidate.truncate_def)
  moreover have "claim_answered sample_config 0 (Some [row_a, row_k]) ?w2 = both_claimed"
    by (simp add: claim_answered_def rows_claimed_def startClaimed_def Let_def both_claimed_def job_at_def
        lock_key_def or_default_def count_of_def empty_worker_def sample_defs)
  ultimately show ?thesis using wr_step [OF 2] by simp
qed

text \<open>
  C25: in every reachable state the jobs in flight never exceed the worker's concurrency, and those of
  a handler with a cap never exceed that cap, whatever the store and the handlers do.
\<close>
theorem worker_within_bounds:
  assumes "worker_reachable c parse show_ms w"
  shows "length (wk_inFlight w) \<le> wc_concurrency c \<and>
    (\<forall>n cap. handler_cap c n = Some cap \<longrightarrow>
      length (filter (\<lambda>(i, j). jc_name (aj_row j) = n) (wk_active w)) \<le> cap)"
proof -
  note inv = cap_inv_reachable [OF assms]
  have "active_named n (job_core a) = length (filter (\<lambda>(i, j). jc_name (aj_row j) = n) a)"
    for n and a :: "(string \<times> ('a, 'b) active_job) list"
    by (induction a) (auto simp: active_named_def job_core_def)
  moreover have "active_named n (job_core (wk_active w)) \<le> cap" if "handler_cap c n = Some cap" for n cap
    using inv that by (auto simp: cap_inv_def fits_def dest: add_leD1)
  ultimately show ?thesis using inv by (auto simp: cap_inv_def core_ok_def fits_def)
qed

theorem worker_within_bounds_witness:
  "length (wk_inFlight both_claimed) = 2 \<and> length (wk_inFlight both_claimed) \<le> wc_concurrency sample_config"
  using worker_within_bounds [OF both_claimed_reachable] by (simp add: both_claimed_def)



text \<open>
  once the grace period of a shutdown has abandoned a job, no step of the worker sends a done, a
  retry or a death for its claim, whatever its handler still does.
\<close>
theorem abandoned_jobs_stay_undecided:
  assumes "worker_reachable c parse show_ms w" and "worker_step c parse show_ms w w'"
    and "map_of (wk_active w) i = Some j" and "aj_abandoned j"
  shows "decisions w' (claim_key (aj_row j)) = decisions w (claim_key (aj_row j))"
  using abandoned_step [OF assms(2) _ assms(3,4)] settle_inv_reachable [OF assms(1)] by blast

definition both_draining :: "(string, string) worker" where
  "both_draining = onShutdown both_claimed"

definition both_abandoned :: "(string, string) worker" where
  "both_abandoned = grace_elapsed 0 both_draining"

lemma both_abandoned_reachable: "sample_reachable both_abandoned"
proof -
  have "sample_reachable both_draining"
    unfolding both_draining_def by (rule wr_step [OF both_claimed_reachable ws_shutdown])
  moreover have "wk_drain both_draining = Draining [''a'', ''k'']"
    by (simp add: both_draining_def onShutdown_def both_claimed_def empty_worker_def)
  ultimately show ?thesis
    unfolding both_abandoned_def by (intro wr_step [OF _ ws_grace])
qed

lemma job_a_abandoned: "map_of (wk_active both_abandoned) ''a'' = Some (abandon (job_at row_a WaitingLock HQueued))"
  by (simp add: both_abandoned_def grace_unfold both_draining_def onShutdown_def both_claimed_def
      empty_worker_def requeueClaim_def send_def)

theorem abandoned_jobs_stay_undecided_witness:
  "decisions (lock_granted ''a'' (abandon (job_at row_a WaitingLock HQueued)) both_abandoned) (claim_key row_a) =
     decisions both_abandoned (claim_key row_a)"
proof -
  let ?j = "abandon (job_at row_a WaitingLock HQueued)"
  have "worker_step sample_config sample_parse sample_ms both_abandoned (lock_granted ''a'' ?j both_abandoned)"
  proof (rule ws_lock [OF job_a_abandoned])
    show "aj_phase ?j = WaitingLock" by (simp add: job_at_def)
    show "holds_lock both_abandoned (lock_key (aj_row ?j)) ''a''"
      by (simp add: holds_lock_def lock_key_def job_at_def or_default_def both_abandoned_def grace_elapsed_def
          both_draining_def onShutdown_def both_claimed_def empty_worker_def requeueClaim_def send_def row_a_def)
  qed
  from abandoned_jobs_stay_undecided [OF both_abandoned_reachable this job_a_abandoned]
  show ?thesis by (simp add: job_at_def)
qed

subsection \<open>What the lock and the slots do not guarantee\<close>

text \<open>The states of the sample after the marker of \<open>a\<close>, and then of \<open>k\<close>, was read as absent.\<close>

definition after_lock :: "(string \<times> (string, string) active_job) list \<Rightarrow> (string \<times> string) list \<Rightarrow> (string, string) worker"
  where "after_lock jobs locks = both_claimed\<lparr>wk_active := jobs, wk_locks := locks\<rparr>"

lemmas after_lock_simps = after_lock_def both_claimed_def empty_worker_def set_job_def job_at_def

lemma set_after_lock:
  "set_job i j (after_lock jobs locks) = after_lock (AList.update i j jobs) locks"
  by (simp add: after_lock_def set_job_def)

lemma release_after_lock:
  "release_lock i (after_lock jobs locks) = after_lock jobs (filter (\<lambda>(k, j). j \<noteq> i) locks)"
  by (simp add: after_lock_def release_lock_def)

lemma job_at_phase [simp]: "job_at r ph s\<lparr>aj_phase := ph'\<rparr> = job_at r ph' s"
  "job_at r ph s\<lparr>aj_state := s'\<rparr> = job_at r ph s'" "aj_phase (job_at r ph s) = ph"
  "aj_abandoned (job_at r ph s) = False" "aj_row (job_at r ph s) = r" "aj_state (job_at r ph s) = s"
  "aj_handler (job_at r ph s) = Some sample_handler" "aj_timedOut (job_at r ph s) = False"
  by (simp_all add: job_at_def)

text \<open>From the lock to the running handler, for a job whose key no other job is ahead on.\<close>

lemma job_starts:
  assumes "sample_reachable (after_lock jobs locks)"
    and "map_of jobs i = Some (job_at r WaitingLock HQueued)" and "map_of locks (lock_key r) = Some i"
  shows "sample_reachable (after_lock (AList.update i (job_at r (Running (cj_payload r)) HBusy) jobs)
    (filter (\<lambda>(k, j). j \<noteq> i) locks))"
proof -
  let ?w1 = "after_lock (AList.update i (job_at r CheckingMarker HQueued) jobs) locks"
  let ?w2 = "after_lock (AList.update i (job_at r (Running (cj_payload r)) HQueued) jobs) (filter (\<lambda>(k, j). j \<noteq> i) locks)"
  have "worker_step sample_config sample_parse sample_ms (after_lock jobs locks)
      (lock_granted i (job_at r WaitingLock HQueued) (after_lock jobs locks))"
    by (rule ws_lock) (use assms(2,3) in \<open>simp_all add: holds_lock_def after_lock_def\<close>)
  then have 1: "sample_reachable ?w1"
    using wr_step [OF assms(1)] by (simp add: lock_granted_def set_after_lock)
  have "worker_step sample_config sample_parse sample_ms ?w1
      (marker_answered sample_config sample_parse i 0 0 (Some False) (job_at r CheckingMarker HQueued) ?w1)"
    by (rule ws_marker) (simp_all add: after_lock_def)
  then have 2: "sample_reachable ?w2"
    using wr_step [OF 1]
    by (simp add: marker_answered_def sample_handler_def set_after_lock release_after_lock)
  have "worker_step sample_config sample_parse sample_ms ?w2
      (handler_started sample_config i 0 0 (job_at r (Running (cj_payload r)) HQueued) ?w2)"
    by (rule ws_started) (simp_all add: after_lock_def running_def)
  then show ?thesis
    using wr_step [OF 2] by (simp add: handler_started_def set_after_lock)
qed

definition both_running :: "(string, string) worker" where
  "both_running = after_lock [(''a'', job_at row_a (Running ''1'') HBusy), (''k'', job_at row_k (Running ''2'') HBusy)] []"

lemma both_running_reachable: "sample_reachable both_running"
proof -
  have "both_claimed = after_lock [(''a'', job_at row_a WaitingLock HQueued), (''k'', job_at row_k WaitingLock HQueued)]
      [(''k'', ''a''), (''k'', ''k'')]"
    by (simp add: after_lock_def both_claimed_def)
  with both_claimed_reachable have "sample_reachable (after_lock [(''a'', job_at row_a WaitingLock HQueued),
      (''k'', job_at row_k WaitingLock HQueued)] [(''k'', ''a''), (''k'', ''k'')])" by simp
  from job_starts [OF this, of "''a''" row_a]
  have "sample_reachable (after_lock [(''a'', job_at row_a (Running ''1'') HBusy),
      (''k'', job_at row_k WaitingLock HQueued)] [(''k'', ''k'')])"
    by (simp add: row_a_def lock_key_def or_default_def)
  from job_starts [OF this, of "''k''" row_k] show ?thesis
    by (simp add: both_running_def row_k_def lock_key_def or_default_def)
qed

text \<open>
  C27: the lock on an idempotency key does not keep two jobs of the same key apart: it is released
  while the handler's promise is still pending, so a worker can reach a state in which the handlers of
  two claims with the same key run at the same time.
\<close>
theorem same_key_runs_twice:
  "\<exists>(w :: (string, string) worker) i j x y. worker_reachable sample_config sample_parse sample_ms w \<and> i \<noteq> j \<and>
     map_of (wk_active w) i = Some x \<and> map_of (wk_active w) j = Some y \<and>
     lock_key (aj_row x) = lock_key (aj_row y) \<and> aj_state x = HBusy \<and> aj_state y = HBusy"
  by (intro exI [of _ both_running] exI [of _ "''a''"] exI [of _ "''k''"]
      exI [of _ "job_at row_a (Running ''1'') HBusy"] exI [of _ "job_at row_k (Running ''2'') HBusy"])
    (simp add: both_running_reachable, simp add: both_running_def after_lock_def lock_key_def or_default_def
      row_a_def row_k_def)

text \<open>
  a slot can be freed while its handler still runs: when the handler of a job has timed out and
  the store rejects the settlement, the job leaves the set in flight at once, and the worker goes on
  with a running handler that no bound counts.
\<close>
theorem slot_freed_while_running:
  "\<exists>(w :: (string, string) worker) i key. worker_reachable sample_config sample_parse sample_ms w \<and>
     (i, key) \<in> set (wk_orphans w) \<and> i \<notin> set (wk_inFlight w)"
proof -
  let ?j = "job_at row_a (Running ''1'') HBusy"
  let ?w1 = "handler_timeout sample_config sample_ms ''a'' 0 0 ?j both_running"
  let ?j1 = "?j\<lparr>aj_aborted := True, aj_timedOut := True, aj_phase := SettlingRetry\<rparr>"
  let ?w2 = "settlement_answered ''a'' None ?j1 ?w1"
  have a: "map_of (wk_active both_running) ''a'' = Some ?j" by (simp add: both_running_def after_lock_def)
  have 1: "sample_reachable ?w1"
    by (rule wr_step [OF both_running_reachable ws_timeout [OF a]]) (simp add: running_def)
  have j1: "map_of (wk_active ?w1) ''a'' = Some ?j1"
    by (simp add: handler_timeout_def settleFailure_def policy_of_def sample_handler_def or_default_def
        sample_config_def DEFAULT_RETRIES_def row_a_def send_def set_job_def job_at_def)
  have 2: "sample_reachable ?w2"
    by (rule wr_step [OF 1 ws_settled [OF j1]]) (simp add: settling_def)
  have "wk_orphans (finish_job ''a'' None ?w1) = wk_orphans ?w1 @ [(''a'', lock_key row_a)]"
    using j1 by (simp add: finish_job_def Let_def finish_pass_def split: pass_state.splits)
  moreover have "''a'' \<notin> set (wk_inFlight (finish_job ''a'' None ?w1))"
    using j1 by (simp add: finish_job_def Let_def)
  ultimately show ?thesis
    using 2 by (intro exI [of _ ?w2] exI [of _ "''a''"] exI [of _ "lock_key row_a"])
      (simp add: settlement_answered_def)
qed

subsection \<open>Configuration and retries\<close>

text \<open>
  a worker that could be constructed is sound: its lease outlives its timeout and every handler's,
  all policies have at least one attempt and positive delays, no handler's cap exceeds the worker's
  concurrency, and handler names are distinct.
\<close>
theorem constructed_worker_sound:
  assumes "newWorker opts = Inr c"
  shows "sound_config c"
  by (rule newWorker_sound [OF assms])

definition sample_options :: "(string, string) worker_options" where
  "sample_options = \<lparr>wo_handlers = [sample_handler], wo_concurrency = Fin 2, wo_graceMs = Fin 0,
     wo_leaseMs = Fin 60000, wo_timeoutMs = None, wo_retries = None, wo_batch = None, wo_idleMs = None,
     wo_maxIdleMs = None\<rparr>"

theorem constructed_worker_sound_witness: "sound_config sample_config"
proof (rule constructed_worker_sound)
  show "newWorker sample_options = Inr sample_config"
    by (simp add: newWorker_def Let_def sample_options_def sample_config_def or_default_def require_integer_def
        require_duration_def validateRetryPolicy_def check_handler_def sample_handler_def safe_limit_def
        DEFAULT_TIMEOUT_MS_def DEFAULT_RETRIES_def DEFAULT_BATCH_def DEFAULT_IDLE_MS_def DEFAULT_MAX_IDLE_MS_def
        num_int_def)
qed

text \<open>
  the delay before a retry of a sound policy lies within a quarter of the nominal delay around it,
  whatever the random draw; the nominal delay is positive, never shrinks from one attempt to the next,
  and an exponential one never exceeds its ceiling.
\<close>
theorem retry_delay_bounds:
  assumes "sound_policy p" and "0 \<le> random" and "random < 1"
  shows "0 < nominal_delay p attempt \<and> nominal_delay p attempt \<le> nominal_delay p (Suc attempt) \<and>
    3/4 * nominal_delay p attempt \<le> jitter p attempt random \<and>
    jitter p attempt random < 5/4 * nominal_delay p attempt \<and>
    (case rp_backoff p of Fixed d \<Rightarrow> nominal_delay p attempt = num_val d
     | Exponential b m \<Rightarrow> nominal_delay p attempt \<le> num_val m)"
  using nominal_pos [OF assms(1)] nominal_mono [OF assms(1), of attempt "Suc attempt"]
    jitter_bounds [OF assms]
  by (auto simp: nominal_delay_def split: backoff.splits)

theorem retry_delay_bounds_witness:
  "3/4 * 4000 \<le> jitter DEFAULT_RETRIES 3 0 \<and> jitter DEFAULT_RETRIES 3 0 < 5/4 * 4000"
proof -
  have "sound_policy DEFAULT_RETRIES"
    by (auto simp: sound_policy_def DEFAULT_RETRIES_def intro: exI [of _ 5])
  from retry_delay_bounds [OF this, of 0 3] show ?thesis
    by (simp add: nominal_delay_def DEFAULT_RETRIES_def)
qed

end
