(* ===== verification/Matcher.thy ===== *)
theory Matcher
  imports Prelude "HOL-Library.AList"
begin

section \<open>NATS subject matching\<close>

text \<open>
  \<open>packages/transport/src/nats/matcher.ts\<close>: subscriptions compiled into a trie of subject tokens,
  and the walk of a subject over the active nodes. A node's \<open>literals\<close> map is its entries in insertion
  order. The trie is a tree, so the set of active nodes is a list of distinct nodes.
\<close>

datatype subject_node = SubjectNode
  (literals: "(string \<times> subject_node) list") (one: "subject_node option") (tail: bool) (terminal: bool)

definition new_node :: subject_node where
  "new_node = SubjectNode [] None False False"

definition tokens :: "string \<Rightarrow> string \<Rightarrow> js_error + string list" where
  "tokens value description =
     (let parts = split_on (CHR ''.'') value in
      if parts = [] \<or> list_ex (\<lambda>p. p = []) parts
      then Inl (RangeError (''@zmdb/transport/nats: '' @ description @
        '' must contain non-empty dot-separated tokens''))
      else Inr parts)"

definition or_new :: "subject_node option \<Rightarrow> subject_node" where
  "or_new m = (case m of None \<Rightarrow> new_node | Some n \<Rightarrow> n)"

text \<open>The loop of \<open>add\<close> from a node on; the mutated child is put back into its parent.\<close>

fun add_parts :: "string list \<Rightarrow> subject_node \<Rightarrow> js_error + subject_node" where
  "add_parts [] (SubjectNode ls w t e) = Inr (SubjectNode ls w t True)"
| "add_parts (part # parts) (SubjectNode ls w t e) =
     (if part = ''>'' then
        (if parts \<noteq> [] then Inl (RangeError ''@zmdb/transport/nats: a NATS > wildcard must be the final token'')
         else Inr (SubjectNode ls w True e))
      else if part = ''*'' then
        rbind (add_parts parts (or_new w)) (\<lambda>n. Inr (SubjectNode ls (Some n) t e))
      else if CHR ''*'' \<in> set part \<or> CHR ''>'' \<in> set part then
        Inl (RangeError ''@zmdb/transport/nats: NATS wildcards must occupy a whole token'')
      else rbind (add_parts parts (or_new (map_of ls part))) (\<lambda>n.
        Inr (SubjectNode (AList.update part n ls) w t e)))"

definition add_pattern :: "subject_node \<Rightarrow> string \<Rightarrow> js_error + subject_node" where
  "add_pattern root pattern =
     rbind (tokens pattern ''a NATS subscription'') (\<lambda>parts. add_parts parts root)"

fun add_all :: "string list \<Rightarrow> subject_node \<Rightarrow> js_error + subject_node" where
  "add_all [] root = Inr root"
| "add_all (p # ps) root = rbind (add_pattern root p) (add_all ps)"

definition createNatsSubjectMatcher :: "string list \<Rightarrow> js_error + subject_node" where
  "createNatsSubjectMatcher patterns = add_all patterns new_node"

definition next_nodes :: "string \<Rightarrow> subject_node \<Rightarrow> subject_node list" where
  "next_nodes part node =
     (case map_of (literals node) part of None \<Rightarrow> [] | Some n \<Rightarrow> [n]) @
     (case one node of None \<Rightarrow> [] | Some n \<Rightarrow> [n])"

fun match_active :: "string list \<Rightarrow> subject_node list \<Rightarrow> bool" where
  "match_active [] active = list_ex terminal active"
| "match_active (part # parts) active =
     (if list_ex tail active then True
      else let active' = concat (map (next_nodes part) active) in
        if active' = [] then False else match_active parts active')"

definition subject_matches :: "subject_node \<Rightarrow> string \<Rightarrow> js_error + bool" where
  "subject_matches root subject =
     rbind (tokens subject ''a NATS subject'') (\<lambda>parts. Inr (match_active parts [root]))"

subsection \<open>The meaning of a subscription\<close>

text \<open>A literal token matches itself, \<open>*\<close> any one token, and a final \<open>>\<close> one or more tokens.\<close>

fun pattern_matches :: "string list \<Rightarrow> string list \<Rightarrow> bool" where
  "pattern_matches [] subject = (subject = [])"
| "pattern_matches (p # ps) [] = False"
| "pattern_matches (p # ps) (s # ss) =
     (if p = ''>'' then ps = [] else (p = ''*'' \<or> p = s) \<and> pattern_matches ps ss)"

text \<open>A token is a literal, or \<open>*\<close>, or \<open>>\<close> at the end.\<close>

fun well_formed_pattern :: "string list \<Rightarrow> bool" where
  "well_formed_pattern [] = True"
| "well_formed_pattern (p # ps) =
     (if p = ''>'' then ps = []
      else (p = ''*'' \<or> CHR ''*'' \<notin> set p \<and> CHR ''>'' \<notin> set p) \<and> well_formed_pattern ps)"

definition valid_subject :: "string \<Rightarrow> bool" where
  "valid_subject s \<longleftrightarrow> [] \<notin> set (split_on (CHR ''.'') s)"

fun accepts :: "subject_node \<Rightarrow> string list \<Rightarrow> bool" where
  "accepts n [] = terminal n"
| "accepts n (s # ss) =
     (tail n \<or> (case map_of (literals n) s of None \<Rightarrow> False | Some m \<Rightarrow> accepts m ss) \<or>
      (case one n of None \<Rightarrow> False | Some m \<Rightarrow> accepts m ss))"

lemma accepts_new_node [simp]: "\<not> accepts new_node ss"
  by (cases ss) (auto simp: new_node_def)

lemma accepts_Cons: "accepts n (s # ss) \<longleftrightarrow> tail n \<or> (\<exists>m \<in> set (next_nodes s n). accepts m ss)"
  by (auto simp: next_nodes_def split: option.splits)

lemma match_active_accepts: "match_active ss ns \<longleftrightarrow> (\<exists>n \<in> set ns. accepts n ss)"
proof (induction ss arbitrary: ns)
  case (Cons s ss)
  have "match_active (s # ss) ns \<longleftrightarrow> (\<exists>n \<in> set ns. tail n) \<or>
      (\<exists>m \<in> set (concat (map (next_nodes s) ns)). accepts m ss)"
    unfolding match_active.simps Let_def Cons.IH by (auto simp: list_ex_iff)
  then show ?case unfolding accepts_Cons by auto
qed (simp add: list_ex_iff)

lemma add_parts_accepts:
  "add_parts ps n = Inr n' \<Longrightarrow> accepts n' ss \<longleftrightarrow> accepts n ss \<or> pattern_matches ps ss"
proof (induction ps n arbitrary: n' ss rule: add_parts.induct)
  case (1 ls w t e)
  then show ?case by (cases ss) auto
next
  case (2 p ps ls w t e)
  show ?case
  proof (cases ss)
    case Nil
    with "2.prems" show ?thesis by (auto simp: result_simps split: if_splits)
  next
    case (Cons s ss')
    show ?thesis
    proof (cases "p = ''>'' \<or> p = ''*''")
      case True
      with "2.prems" Cons "2.IH"(1) show ?thesis
        by (auto simp: result_simps or_new_def split: if_splits option.splits)
    next
      case False
      with "2.prems" obtain n where n: "add_parts ps (or_new (map_of ls p)) = Inr n"
        "n' = SubjectNode (AList.update p n ls) w t e" "CHR ''*'' \<notin> set p" "CHR ''>'' \<notin> set p"
        by (auto simp: result_simps split: if_splits)
      note IH = "2.IH"(2) [of n ss']
      show ?thesis
        using False n IH by (auto simp: Cons AList.update_conv' or_new_def split: option.splits)
    qed
  qed
qed

lemma add_parts_total: "(\<exists>n'. add_parts ps n = Inr n') \<longleftrightarrow> well_formed_pattern ps"
  by (induction ps n rule: add_parts.induct) (auto simp: result_simps)

lemma tokens_Inr: "tokens s d = Inr parts \<longleftrightarrow> valid_subject s \<and> parts = split_on (CHR ''.'') s"
  by (auto simp: tokens_def valid_subject_def Let_def list_ex_iff)

lemma add_all_accepts:
  "add_all ps n = Inr n' \<Longrightarrow>
     accepts n' ss \<longleftrightarrow> accepts n ss \<or> (\<exists>p \<in> set ps. pattern_matches (split_on (CHR ''.'') p) ss)"
  by (induction ps n rule: add_all.induct)
    (auto simp: result_simps add_pattern_def tokens_Inr add_parts_accepts)

lemma add_all_total:
  "(\<exists>n'. add_all ps n = Inr n') \<longleftrightarrow>
     (\<forall>p \<in> set ps. valid_subject p \<and> well_formed_pattern (split_on (CHR ''.'') p))"
proof (induction ps arbitrary: n)
  case (Cons p ps)
  have "(\<exists>n'. add_pattern n p = Inr n') \<longleftrightarrow> valid_subject p \<and> well_formed_pattern (split_on (CHR ''.'') p)"
    using add_parts_total by (auto simp: add_pattern_def result_simps tokens_Inr)
  with Cons.IH show ?case by (auto simp: result_simps)
qed simp

end
