(* ===== verification/Comments.thy ===== *)
theory Comments
  imports Query "HOL-Library.Char_ord" "HOL-Library.List_Lexorder" "HOL-Library.Multiset"
begin

section \<open>SQL comments\<close>

text \<open>
  \<open>packages/sql/src/comments/index.ts\<close>: the sqlcommenter block appended to a query text at execution
  time. \<open>encodeURIComponent\<close> is written out on code units below 256: unreserved characters stand for
  themselves, every other unit becomes the percent-escapes of its UTF-8 bytes.
\<close>

definition unreserved :: "char \<Rightarrow> bool" where
  "unreserved c \<longleftrightarrow> c \<in> set ''ABCDEFGHIJKLMNOPQRSTUVWXYZabcdefghijklmnopqrstuvwxyz0123456789-_.!~*'' \<or>
     c = CHR 0x27 \<or> c = CHR ''('' \<or> c = CHR '')''"

definition upper_hex :: "nat \<Rightarrow> char" where
  "upper_hex n = ''0123456789ABCDEF'' ! n"

definition percent :: "nat \<Rightarrow> string" where
  "percent b = [CHR ''%'', upper_hex (b div 16), upper_hex (b mod 16)]"

definition encode_unit :: "char \<Rightarrow> string" where
  "encode_unit c = (if unreserved c then [c]
     else let n = of_char c :: nat in
       if n < 128 then percent n else percent (192 + n div 64) @ percent (128 + n mod 64))"

definition encodeURIComponent :: "string \<Rightarrow> string" where
  "encodeURIComponent s = concat (map encode_unit s)"

definition escape_quote :: "char \<Rightarrow> string" where
  "escape_quote c = (if c = CHR 0x27 then [CHR 0x5C, CHR 0x27] else [c])"

definition comment_encode :: "string \<Rightarrow> string" where
  "comment_encode value = concat (map escape_quote (encodeURIComponent value))"

text \<open>The pairs are the entries of an object: the keys are distinct. \<open>toSorted\<close> is stable.\<close>

type_synonym comment_pairs = "(string \<times> string) list"

definition comment_entry :: "string \<times> string \<Rightarrow> string" where
  "comment_entry p = comment_encode (fst p) @ ''='' @ [CHR 0x27] @ comment_encode (snd p) @ [CHR 0x27]"

definition serializeComment :: "comment_pairs \<Rightarrow> string" where
  "serializeComment pairs = join '','' (map comment_entry (sort_key fst pairs))"

definition appendComment :: "string \<Rightarrow> comment_pairs \<Rightarrow> string" where
  "appendComment txt pairs =
     (let serialized = serializeComment pairs in
      if length serialized = 0 then txt else txt @ '' /*'' @ serialized @ ''*/'')"

text \<open>\<open>withComments\<close> on a driver's \<open>execute\<close>; the pairs are computed at each execution.\<close>

definition withComments ::
  "(compiled_query \<Rightarrow> 'opt \<Rightarrow> 'r) \<Rightarrow> comment_pairs \<Rightarrow> compiled_query \<Rightarrow> 'opt \<Rightarrow> 'r" where
  "withComments execute pairs query options =
     (let txt = appendComment (cq_text query) pairs in
      execute (if txt = cq_text query then query else query\<lparr>cq_text := txt\<rparr>) options)"

subsection \<open>Reading a comment back\<close>

text \<open>The reference reader of a block, as the sqlcommenter format defines it.\<close>

definition hex_of :: "char \<Rightarrow> nat" where
  "hex_of c = (let n = of_char c :: nat in if n < 58 then n - 48 else n - 55)"

function (sequential) comment_decode :: "string \<Rightarrow> string" where
  "comment_decode [] = []"
| "comment_decode (c # cs) =
     (if c = CHR ''%'' then
        (case cs of a # b # rest \<Rightarrow>
           let n = 16 * hex_of a + hex_of b in
           if n < 128 then char_of n # comment_decode rest
           else (case rest of p # e # f # left \<Rightarrow>
               char_of ((n - 192) * 64 + (16 * hex_of e + hex_of f - 128)) # comment_decode left
             | _ \<Rightarrow> [])
         | _ \<Rightarrow> [])
      else if c = CHR 0x5C then (case cs of q # rest \<Rightarrow> q # comment_decode rest | [] \<Rightarrow> [])
      else c # comment_decode cs)"
  by pat_completeness auto
termination by (relation "measure length") auto

definition read_entry :: "string \<Rightarrow> string \<times> string" where
  "read_entry e = (let k = takeWhile (\<lambda>c. c \<noteq> CHR ''='') e in
     (comment_decode k, comment_decode (butlast (drop (length k + 2) e))))"

definition read_comment :: "string \<Rightarrow> comment_pairs" where
  "read_comment s = (if s = [] then [] else map read_entry (split_on (CHR '','') s))"

definition unit_code :: "char \<Rightarrow> string" where
  "unit_code c = concat (map escape_quote (encode_unit c))"

lemma comment_encode_units: "comment_encode s = concat (map unit_code s)"
  by (induction s) (simp_all add: comment_encode_def encodeURIComponent_def unit_code_def)

lemma hex_of_upper_hex: "n < 16 \<Longrightarrow> hex_of (upper_hex n) = n"
proof -
  have "\<forall>n \<in> {..<16}. hex_of (upper_hex n) = n"
    by (simp add: hex_of_def upper_hex_def lessThan_nat_numeral lessThan_Suc)
  then show "n < 16 \<Longrightarrow> hex_of (upper_hex n) = n" by simp
qed

definition safe_units :: string where
  "safe_units = ''ABCDEFGHIJKLMNOPQRSTUVWXYZabcdefghijklmnopqrstuvwxyz0123456789-_.!~*()%'' @ [CHR 0x27, CHR 0x5C]"

lemma upper_hex_safe: "n < 16 \<Longrightarrow> upper_hex n \<in> set safe_units \<and> upper_hex n \<noteq> CHR 0x27"
proof -
  have "\<forall>n \<in> {..<16}. upper_hex n \<in> set safe_units \<and> upper_hex n \<noteq> CHR 0x27"
    by (simp add: safe_units_def upper_hex_def lessThan_nat_numeral lessThan_Suc)
  then show "n < 16 \<Longrightarrow> upper_hex n \<in> set safe_units \<and> upper_hex n \<noteq> CHR 0x27" by simp
qed

lemma unreserved_safe: "unreserved c \<Longrightarrow> c \<in> set safe_units \<and> c \<noteq> CHR ''%'' \<and> c \<noteq> CHR 0x5C"
  by (auto simp: unreserved_def safe_units_def)

lemma char_bound: "(of_char c :: nat) < 256"
  using of_char_mod_256 [of c, where 'a = nat] by (metis mod_less_divisor zero_less_numeral)

lemma byte_halves:
  "n < (256 :: nat) \<Longrightarrow> 192 + n div 64 < 256 \<and> 128 + n mod 64 < 256"
  using less_mult_imp_div_less [of n 4 64] by auto

lemma percent_escape:
  "b < 256 \<Longrightarrow> concat (map escape_quote (percent b)) = percent b"
  using upper_hex_safe [of "b div 16"] upper_hex_safe [of "b mod 16"]
  by (simp add: percent_def escape_quote_def)

lemma unit_code_cases:
  "unit_code c = (if c = CHR 0x27 then [CHR 0x5C, CHR 0x27] else if unreserved c then [c]
     else let n = of_char c :: nat in
       if n < 128 then percent n else percent (192 + n div 64) @ percent (128 + n mod 64))"
proof (cases "unreserved c")
  case True
  then show ?thesis by (simp add: unit_code_def encode_unit_def escape_quote_def)
next
  case False
  then have "c \<noteq> CHR 0x27" by (auto simp: unreserved_def)
  moreover have "192 + (of_char c :: nat) div 64 < 256" "128 + (of_char c :: nat) mod 64 < 256"
    using byte_halves [OF char_bound [of c]] by simp_all
  ultimately show ?thesis
    using False by (simp add: unit_code_def encode_unit_def Let_def percent_escape)
qed

lemma unit_code_safe: "set (unit_code c) \<subseteq> set safe_units"
proof -
  have "set (percent b) \<subseteq> set safe_units" if "b < 256" for b
  proof -
    have "b div 16 < 16" "b mod 16 < 16" using that by auto
    with upper_hex_safe have "upper_hex (b div 16) \<in> set safe_units" "upper_hex (b mod 16) \<in> set safe_units"
      by blast+
    moreover have "CHR ''%'' \<in> set safe_units" by (simp add: safe_units_def)
    ultimately show ?thesis by (simp add: percent_def)
  qed
  moreover have "192 + (of_char c :: nat) div 64 < 256" "128 + (of_char c :: nat) mod 64 < 256"
    using byte_halves [OF char_bound [of c]] by simp_all
  moreover have "CHR 0x27 \<in> set safe_units" "CHR 0x5C \<in> set safe_units" by (simp_all add: safe_units_def)
  ultimately show ?thesis
    using unreserved_safe [of c] by (auto simp: unit_code_cases Let_def split: if_splits)
qed

lemma percent_hex: "b < 256 \<Longrightarrow> 16 * hex_of (upper_hex (b div 16)) + hex_of (upper_hex (b mod 16)) = b"
  by (simp add: hex_of_upper_hex)

lemma decode_unit: "comment_decode (unit_code c @ r) = c # comment_decode r"
proof (cases "unreserved c")
  case True
  with unreserved_safe [of c] show ?thesis by (auto simp: unit_code_cases)
next
  case False
  then have q: "c \<noteq> CHR 0x27" by (auto simp: unreserved_def)
  define n where "n = (of_char c :: nat)"
  have n: "n < 256" "char_of n = c" using char_bound by (simp_all add: n_def)
  show ?thesis
  proof (cases "n < 128")
    case True
    then show ?thesis
      using False q n percent_hex [of n] by (simp add: unit_code_cases percent_def Let_def flip: n_def)
  next
    case high: False
    have "192 + n div 64 < 256" "128 + n mod 64 < 256" using byte_halves n by blast+
    note h = this [THEN percent_hex]
    have "(192 + n div 64 - 192) * 64 + (128 + n mod 64 - 128) = n" by simp
    with False q n h high show ?thesis
      by (simp add: unit_code_cases percent_def Let_def flip: n_def)
  qed
qed

lemma decode_encode: "comment_decode (comment_encode s) = s"
  unfolding comment_encode_units by (induction s) (simp_all add: decode_unit)

lemma encode_safe: "set (comment_encode s) \<subseteq> set safe_units"
  using unit_code_safe by (auto simp: comment_encode_units)

lemma encode_free: "c \<in> {CHR ''/'', CHR '','', CHR ''=''} \<Longrightarrow> c \<notin> set (comment_encode s)"
  using encode_safe [of s] by (auto simp: safe_units_def)

lemma read_comment_entry: "read_entry (comment_entry p) = p"
proof -
  have "takeWhile (\<lambda>c. c \<noteq> CHR ''='') (comment_entry p) = comment_encode (fst p)"
    using encode_free [of "CHR ''=''" "fst p"] unfolding comment_entry_def
    by (subst takeWhile_append2) auto
  then show ?thesis
    by (simp add: read_entry_def Let_def comment_entry_def decode_encode butlast_append)
qed

lemma entry_free: "c \<in> {CHR ''/'', CHR '',''} \<Longrightarrow> c \<notin> set (comment_entry p)"
  using encode_free [of c "fst p"] encode_free [of c "snd p"] by (auto simp: comment_entry_def)

lemma join_eq_Nil: "join sep xs = [] \<longleftrightarrow> xs = [] \<or> xs = [[]] \<or> (sep = [] \<and> (\<forall>x \<in> set xs. x = []))"
  by (induction sep xs rule: join.induct) auto

lemma read_serialize: "read_comment (serializeComment pairs) = sort_key fst pairs"
proof (cases "pairs = []")
  case True
  then show ?thesis by (simp add: read_comment_def serializeComment_def)
next
  case False
  let ?es = "map comment_entry (sort_key fst pairs)"
  have ne: "?es \<noteq> []" using False by (metis Nil_is_map_conv length_0_conv length_sort)
  have "split_on (CHR '','') (join [CHR '',''] ?es) = ?es"
    by (rule split_on_join [OF ne]) (use entry_free in auto)
  moreover have "serializeComment pairs \<noteq> []"
    using ne by (auto simp: serializeComment_def join_eq_Nil comment_entry_def map_eq_Cons_conv)
  ultimately show ?thesis
    by (simp add: read_comment_def serializeComment_def comp_def read_comment_entry)
qed

lemma slash_free: "CHR ''/'' \<notin> set (serializeComment pairs)"
proof -
  have "CHR ''/'' \<notin> set (join '','' xs)" if "\<forall>x \<in> set xs. CHR ''/'' \<notin> set x" for xs
    using that by (induction "'',''" xs rule: join.induct) auto
  then show ?thesis using entry_free by (simp add: serializeComment_def)
qed

lemma serialize_Nil: "serializeComment pairs = [] \<longleftrightarrow> pairs = []"
proof
  assume "serializeComment pairs = []"
  with read_serialize [of pairs] have "sort_key fst pairs = []" by (simp add: read_comment_def)
  then show "pairs = []" by (metis length_0_conv length_sort)
qed (simp add: serializeComment_def)

lemma sort_map_fst: "sort (map fst p) = map fst (sort_key fst p)"
  by (rule properties_for_sort) (simp_all add: mset_map del: mset_map [symmetric])

lemma serialize_order: "distinct (map fst p) \<Longrightarrow> mset p = mset q \<Longrightarrow> serializeComment p = serializeComment q"
proof -
  assume d: "distinct (map fst p)" and m: "mset p = mset q"
  have s: "set p = set q" using m by (rule mset_eq_setD)
  have "mset (map fst p) = mset (map fst q)" using m by simp
  then have "sort (map fst p) = sort (map fst q)" by (metis properties_for_sort sorted_sort mset_sort)
  then have "map fst (sort_key fst p) = map fst (sort_key fst q)" by (simp add: sort_map_fst)
  then have "sort_key fst p = sort_key fst q"
    by (rule map_inj_on) (use d s in \<open>simp add: distinct_map\<close>)
  then show ?thesis by (simp add: serializeComment_def)
qed

end
