(* ===== verification/StateTransitions.thy ===== *)
theory StateTransitions
  imports Query
begin

section \<open>Entity state machines\<close>

text \<open>
  \<open>packages/app/src/state-transitions.ts\<close>: the declared transitions of an entity's state field and
  the update payload of one transition. An absent or non-array entry of the transition table allows
  nothing. The type parameters (which fields a transition may patch) exist only for the type checker:
  the code does not read \<open>allowedFields\<close>, so the model keeps it as data no operation uses.
\<close>

type_synonym transitions = "(string \<times> string list) list"
type_synonym update_payload = "(string \<times> jsval) list"

record entity_state_machine =
  stateField :: string
  sm_transitions :: transitions
  allowedFields :: "(string \<times> string list) list option"

definition defineEntityStateMachine ::
  "string \<Rightarrow> transitions \<Rightarrow> (string \<times> string list) list option \<Rightarrow> entity_state_machine" where
  "defineEntityStateMachine field ts allowed =
     \<lparr>stateField = field, sm_transitions = ts, allowedFields = allowed\<rparr>"

definition createStateUpdatePayload ::
  "string \<Rightarrow> transitions \<Rightarrow> string \<Rightarrow> string \<Rightarrow> update_payload option \<Rightarrow> js_error + update_payload" where
  "createStateUpdatePayload field ts src dst patch =
     (let refused = Inl (PlainError (''Invalid state transition from '' @ [dq] @ src @ [dq] @ '' to '' @
            [dq] @ dst @ [dq] @ '' for field '' @ [dq] @ field @ [dq])) in
      case map_of ts src of
        None \<Rightarrow> refused
      | Some allowed \<Rightarrow>
          if dst \<notin> set allowed then refused
          else Inr (AList.update field (JStr dst) (case patch of None \<Rightarrow> [] | Some p \<Rightarrow> p)))"

definition canTransition :: "entity_state_machine \<Rightarrow> string \<Rightarrow> string \<Rightarrow> bool" where
  "canTransition m src dst =
     (case map_of (sm_transitions m) src of None \<Rightarrow> False | Some allowed \<Rightarrow> dst \<in> set allowed)"

definition createUpdatePayload ::
  "entity_state_machine \<Rightarrow> string \<Rightarrow> string \<Rightarrow> update_payload option \<Rightarrow> js_error + update_payload" where
  "createUpdatePayload m src dst patch =
     createStateUpdatePayload (stateField m) (sm_transitions m) src dst patch"

lemma payload_iff_can:
  "(\<exists>p. createUpdatePayload m a b patch = Inr p) \<longleftrightarrow> canTransition m a b"
  by (auto simp: createUpdatePayload_def createStateUpdatePayload_def canTransition_def Let_def
      split: option.splits)

lemma payload_fields:
  "createUpdatePayload m a b patch = Inr p \<Longrightarrow>
     map_of p k = (if k = stateField m then Some (JStr b)
       else map_of (case patch of None \<Rightarrow> [] | Some q \<Rightarrow> q) k)"
  by (auto simp: createUpdatePayload_def createStateUpdatePayload_def Let_def
      split: option.splits if_splits)

text \<open>
  A row whose state is updated only through the machine's payloads: the states it passes through form
  a path of the transition table.
\<close>

fun transition_path :: "entity_state_machine \<Rightarrow> string \<Rightarrow> (string \<times> update_payload option) list \<Rightarrow> js_error + string list"
  where
  "transition_path m s [] = Inr [s]"
| "transition_path m s ((dst, patch) # later) =
     rbind (createUpdatePayload m s dst patch) (\<lambda>p.
       case map_of p (stateField m) of
         Some (JStr t) \<Rightarrow> rbind (transition_path m t later) (\<lambda>path. Inr (s # path))
       | _ \<Rightarrow> Inl (TypeError ''''))"

fun edges_allowed :: "entity_state_machine \<Rightarrow> string list \<Rightarrow> bool" where
  "edges_allowed m (a # b # rest) = (canTransition m a b \<and> edges_allowed m (b # rest))"
| "edges_allowed m _ = True"

lemma transition_path_edges:
  "transition_path m s steps = Inr path \<Longrightarrow>
     path = s # map fst steps \<and> edges_allowed m path"
proof (induction steps arbitrary: s path)
  case (Cons step later)
  obtain t patch where step: "step = (t, patch)" by force
  from Cons.prems obtain p where p: "createUpdatePayload m s t patch = Inr p"
    by (auto simp: step result_simps)
  have "map_of p (stateField m) = Some (JStr t)" using payload_fields [OF p] by simp
  with Cons.prems p obtain rest where rest: "transition_path m t later = Inr rest" "path = s # rest"
    by (auto simp: step result_simps)
  from Cons.IH [OF rest(1)] payload_iff_can [of m s t patch] p rest(2)
  show ?case by (auto simp: step)
qed simp

end
