(* ===== verification/Lease.thy ===== *)
theory Lease
  imports Numbers
begin

section \<open>Lease sessions\<close>

text \<open>
  \<open>packages/jobs/src/schedule/lease.ts\<close>: one session over a renewable lease. The three operations are
  asynchronous and interleave, so the model is the session's variables and one event per segment of
  code between two awaits: a call of the client, or an answer of the store or the clock. The renewal
  loops are listed in the order they were started; the variable \<open>renewal\<close> is the newest of them. The
  calls made to the store and its answers are recorded in the order they happen.
\<close>

datatype lease_call =
    CallAcquire | GotAcquire bool | CallRenew | LostRenew | CallRelease

datatype renewal_loop = LoopSleeping | LoopRenewing | LoopEnded

record lease_session =
  ls_held :: bool
  ls_released :: bool
  ls_aborted :: bool
  ls_loops :: "renewal_loop list"
  ls_acquiring :: nat
  ls_releasing :: bool
  ls_calls :: "lease_call list"

definition createLeaseSession :: lease_session where
  "createLeaseSession = \<lparr>ls_held = False, ls_released = False, ls_aborted = False, ls_loops = [],
     ls_acquiring = 0, ls_releasing = False, ls_calls = []\<rparr>"

text \<open>The delay between two renewals: a third of the lease, at least a millisecond.\<close>

definition renewal_delay :: "rat \<Rightarrow> int" where
  "renewal_delay ttlMs = max 1 (floor (ttlMs / 3))"

definition called :: "lease_call list \<Rightarrow> lease_session \<Rightarrow> lease_session" where
  "called cs s = s\<lparr>ls_calls := ls_calls s @ cs\<rparr>"

definition acquire :: "lease_session \<Rightarrow> lease_session" where
  "acquire s = (if ls_released s then s
     else called [CallAcquire] (s\<lparr>ls_acquiring := Suc (ls_acquiring s)\<rparr>))"

text \<open>The store's answer to an acquire: a grant that arrives after a release is given back.\<close>

definition acquire_answered :: "bool \<Rightarrow> lease_session \<Rightarrow> lease_session" where
  "acquire_answered acquired s =
     (let s1 = called [GotAcquire acquired] (s\<lparr>ls_acquiring := ls_acquiring s - 1\<rparr>) in
      if ls_released s then (if acquired then called [CallRelease] s1 else s1)
      else s1\<lparr>ls_held := acquired\<rparr>)"

definition acquire_rejected :: "lease_session \<Rightarrow> lease_session" where
  "acquire_rejected s = s\<lparr>ls_acquiring := ls_acquiring s - 1\<rparr>"

text \<open>The head of the renewal loop: \<open>while (!controller.signal.aborted)\<close>.\<close>

definition loop_head :: "lease_session \<Rightarrow> renewal_loop" where
  "loop_head s = (if ls_aborted s then LoopEnded else LoopSleeping)"

definition startRenewing :: "lease_session \<Rightarrow> lease_session" where
  "startRenewing s = (if ls_held s \<and> \<not> ls_released s then s\<lparr>ls_loops := ls_loops s @ [loop_head s]\<rparr> else s)"

definition set_loop :: "nat \<Rightarrow> renewal_loop \<Rightarrow> lease_session \<Rightarrow> lease_session" where
  "set_loop i l s = s\<lparr>ls_loops := (ls_loops s)[i := l]\<rparr>"

text \<open>\<open>clock.sleep\<close> returns (elapsed) or throws.\<close>

definition sleep_ended :: "nat \<Rightarrow> bool \<Rightarrow> lease_session \<Rightarrow> lease_session" where
  "sleep_ended i elapsed s =
     (if \<not> elapsed \<or> ls_aborted s then set_loop i LoopEnded s
      else called [CallRenew] (set_loop i LoopRenewing s))"

text \<open>\<open>store.renew\<close> answers \<open>Some renewed\<close> or throws.\<close>

definition renew_answered :: "nat \<Rightarrow> bool option \<Rightarrow> lease_session \<Rightarrow> lease_session" where
  "renew_answered i answer s =
     (case answer of
        Some True \<Rightarrow> set_loop i (loop_head s) s
      | _ \<Rightarrow> called [LostRenew] (set_loop i LoopEnded (s\<lparr>ls_held := False, ls_aborted := True\<rparr>)))"

definition release :: "lease_session \<Rightarrow> lease_session" where
  "release s = (if ls_released s then s
     else s\<lparr>ls_released := True, ls_aborted := True, ls_releasing := True\<rparr>)"

text \<open>After \<open>await renewal\<close>; a store that throws on release is ignored.\<close>

definition release_continued :: "lease_session \<Rightarrow> lease_session" where
  "release_continued s =
     (let s1 = s\<lparr>ls_releasing := False\<rparr> in
      if \<not> ls_held s then s1 else called [CallRelease] (s1\<lparr>ls_held := False\<rparr>))"

inductive lease_step :: "lease_session \<Rightarrow> lease_session \<Rightarrow> bool" where
  step_acquire: "lease_step s (acquire s)"
| step_acquired: "0 < ls_acquiring s \<Longrightarrow> lease_step s (acquire_answered b s)"
| step_rejected: "0 < ls_acquiring s \<Longrightarrow> lease_step s (acquire_rejected s)"
| step_renewing: "lease_step s (startRenewing s)"
| step_slept: "i < length (ls_loops s) \<Longrightarrow> ls_loops s ! i = LoopSleeping \<Longrightarrow>
    lease_step s (sleep_ended i elapsed s)"
| step_renewed: "i < length (ls_loops s) \<Longrightarrow> ls_loops s ! i = LoopRenewing \<Longrightarrow>
    lease_step s (renew_answered i answer s)"
| step_release: "lease_step s (release s)"
| step_released: "ls_releasing s \<Longrightarrow> ls_loops s = [] \<or> last (ls_loops s) = LoopEnded \<Longrightarrow>
    lease_step s (release_continued s)"

inductive_cases lease_stepE: "lease_step s t"

inductive lease_reachable :: "lease_session \<Rightarrow> bool" where
  reach_new: "lease_reachable createLeaseSession"
| reach_step: "lease_reachable s \<Longrightarrow> lease_step s t \<Longrightarrow> lease_reachable t"

text \<open>
  What the store believes of this holder, from the calls alone: an accepted acquire grants the lease;
  a refused one, a lost renewal or a release ends it.
\<close>

fun grant_after :: "lease_call \<Rightarrow> bool \<Rightarrow> bool" where
  "grant_after (GotAcquire b) g = b"
| "grant_after LostRenew g = False"
| "grant_after CallRelease g = False"
| "grant_after _ g = g"

definition granted :: "lease_call list \<Rightarrow> bool" where
  "granted cs = fold grant_after cs False"

lemma granted_snoc [simp]: "granted (cs @ [c]) = grant_after c (granted cs)"
  by (simp add: granted_def)

lemma granted_snoc2: "granted (cs @ [c, d]) = grant_after d (grant_after c (granted cs))"
  by (simp add: granted_def)

lemmas lease_defs = acquire_def acquire_answered_def acquire_rejected_def startRenewing_def
  sleep_ended_def renew_answered_def release_def release_continued_def called_def set_loop_def Let_def

text \<open>
  The invariant: a lease the store holds for this session is known to it, a finished release holds
  none, and a released session is aborted.
\<close>

definition lease_inv :: "lease_session \<Rightarrow> bool" where
  "lease_inv s \<longleftrightarrow> (granted (ls_calls s) \<longrightarrow> ls_held s) \<and>
     (ls_released s \<and> \<not> ls_releasing s \<longrightarrow> \<not> ls_held s) \<and> (ls_released s \<longrightarrow> ls_aborted s)"

lemma lease_inv_step: "lease_step s t \<Longrightarrow> lease_inv s \<Longrightarrow> lease_inv t"
  by (erule lease_stepE)
    (auto simp: lease_inv_def lease_defs granted_snoc2 split: option.splits bool.splits if_splits)

lemma lease_inv_reachable: "lease_reachable s \<Longrightarrow> lease_inv s"
proof (induction rule: lease_reachable.induct)
  case reach_new
  then show ?case by (simp add: lease_inv_def createLeaseSession_def granted_def)
next
  case (reach_step s t)
  then show ?case using lease_inv_step by blast
qed

text \<open>A released session neither acquires nor renews any more.\<close>

lemma released_step:
  "lease_step s t \<Longrightarrow> ls_released s \<Longrightarrow> ls_aborted s \<Longrightarrow>
     ls_released t \<and> ls_aborted t \<and>
     (\<exists>more. ls_calls t = ls_calls s @ more \<and> CallAcquire \<notin> set more \<and> CallRenew \<notin> set more)"
  by (erule lease_stepE) (auto simp: lease_defs split: option.splits bool.splits if_splits)

lemma released_steps:
  "lease_step\<^sup>*\<^sup>* s t \<Longrightarrow> ls_released s \<Longrightarrow> ls_aborted s \<Longrightarrow>
     ls_released t \<and> ls_aborted t \<and>
     (\<exists>more. ls_calls t = ls_calls s @ more \<and> CallAcquire \<notin> set more \<and> CallRenew \<notin> set more)"
proof (induction rule: rtranclp_induct)
  case (step t u)
  then obtain m1 where m1: "ls_calls t = ls_calls s @ m1" "CallAcquire \<notin> set m1" "CallRenew \<notin> set m1"
    and t: "ls_released t" "ls_aborted t" by blast
  obtain m2 where "ls_calls u = ls_calls t @ m2" "CallAcquire \<notin> set m2" "CallRenew \<notin> set m2"
    "ls_released u" "ls_aborted u" using released_step [OF step.hyps(2) t] by blast
  with m1 show ?case by (intro conjI exI [of _ "m1 @ m2"]) auto
qed simp

end
