(* ===== verification/ServiceProperties.thy ===== *)
theory ServiceProperties
  imports Matcher Comments StateTransitions Lease
begin

section \<open>Properties of the small services\<close>

text \<open>
  The statements about subject matching (\<open>packages/transport/src/nats/matcher.ts\<close>), SQL comments
  (\<open>packages/sql/src/comments/index.ts\<close>), entity state machines (\<open>packages/app/src/state-transitions.ts\<close>)
  and lease sessions (\<open>packages/jobs/src/schedule/lease.ts\<close>).
\<close>

text \<open>
  C34: the trie of a matcher means what its subscriptions mean: it is built exactly when every
  subscription is well formed, and then it matches a subject exactly when one of the subscriptions
  does; a subject with an empty token is refused.
\<close>
theorem matcher_means_patterns:
  "case createNatsSubjectMatcher patterns of
     Inl e \<Rightarrow> \<not> list_all (\<lambda>p. valid_subject p \<and> well_formed_pattern (split_on (CHR ''.'') p)) patterns
   | Inr trie \<Rightarrow> list_all (\<lambda>p. valid_subject p \<and> well_formed_pattern (split_on (CHR ''.'') p)) patterns \<and>
       (case subject_matches trie subject of
          Inl e \<Rightarrow> \<not> valid_subject subject
        | Inr b \<Rightarrow> valid_subject subject \<and>
            b = list_ex (\<lambda>p. pattern_matches (split_on (CHR ''.'') p) (split_on (CHR ''.'') subject)) patterns)"
proof (cases "createNatsSubjectMatcher patterns")
  case (Inl e)
  then show ?thesis
    using add_all_total [of patterns new_node] by (auto simp: createNatsSubjectMatcher_def list_all_iff)
next
  case (Inr trie)
  then have trie: "add_all patterns new_node = Inr trie" by (simp add: createNatsSubjectMatcher_def)
  have "case subject_matches trie subject of
          Inl e \<Rightarrow> \<not> valid_subject subject
        | Inr b \<Rightarrow> valid_subject subject \<and>
            b = list_ex (\<lambda>p. pattern_matches (split_on (CHR ''.'') p) (split_on (CHR ''.'') subject)) patterns"
  proof (cases "tokens subject ''a NATS subject''")
    case Inl
    then have "\<not> valid_subject subject" using tokens_Inr [of subject] by (metis Inl_Inr_False)
    with Inl show ?thesis by (simp add: subject_matches_def)
  next
    case (Inr parts)
    then have "valid_subject subject" "parts = split_on (CHR ''.'') subject" using tokens_Inr by blast+
    moreover have "match_active parts [trie] \<longleftrightarrow> list_ex (\<lambda>p. pattern_matches (split_on (CHR ''.'') p) parts) patterns"
      using add_all_accepts [OF trie, of parts] by (simp add: match_active_accepts list_ex_iff)
    ultimately show ?thesis using Inr by (simp add: subject_matches_def)
  qed
  with Inr show ?thesis
    using add_all_total [of patterns new_node] trie by (auto simp: list_all_iff)
qed

text \<open>
  a query text with a comment is the text followed by one block that nothing inside can close: the
  body has no slash, and reading it back yields the given pairs, sorted by key. Without pairs the text
  is unchanged.
\<close>
theorem comment_block_reads_back:
  "if pairs = [] then appendComment txt pairs = txt
   else \<exists>body. appendComment txt pairs = txt @ '' /*'' @ body @ ''*/'' \<and> CHR ''/'' \<notin> set body \<and>
     read_comment body = sort_key fst pairs"
  using serialize_Nil [of pairs] slash_free [of pairs] read_serialize [of pairs]
  by (auto simp: appendComment_def Let_def)

text \<open>
  an entity moves only along the declared transitions: a payload exists exactly for an allowed
  transition, sets the state field to the target whatever the patch says, keeps every other field of
  the patch, and any sequence of payloads is a path of the transition table.
\<close>
theorem transitions_follow_table:
  "(case createUpdatePayload m source target patch of
      Inl e \<Rightarrow> \<not> canTransition m source target
    | Inr p \<Rightarrow> canTransition m source target \<and> map_of p (stateField m) = Some (JStr target) \<and>
        map_of (filter (\<lambda>(k, v). k \<noteq> stateField m) p) =
          map_of (filter (\<lambda>(k, v). k \<noteq> stateField m) (case patch of None \<Rightarrow> [] | Some q \<Rightarrow> q))) \<and>
   (case transition_path m source steps of
      Inl e \<Rightarrow> True | Inr path \<Rightarrow> path = source # map fst steps \<and> edges_allowed m path)"
proof -
  have "map_of (filter (\<lambda>(k, v). k \<noteq> stateField m) p) =
      map_of (filter (\<lambda>(k, v). k \<noteq> stateField m) (case patch of None \<Rightarrow> [] | Some q \<Rightarrow> q))"
    if "createUpdatePayload m source target patch = Inr p" for p
  proof
    fix k
    have only: "map_of (filter (\<lambda>(k, v). k \<noteq> stateField m) q) k = (if k = stateField m then None else map_of q k)"
      for q :: update_payload
      by (induction q) auto
    show "map_of (filter (\<lambda>(k, v). k \<noteq> stateField m) p) k =
        map_of (filter (\<lambda>(k, v). k \<noteq> stateField m) (case patch of None \<Rightarrow> [] | Some q \<Rightarrow> q)) k"
      unfolding only using payload_fields [OF that, of k] by simp
  qed
  then show ?thesis
    using payload_iff_can [of m source target patch] payload_fields [of m source target patch]
      transition_path_edges [of m source steps]
    by (auto split: sum.splits)
qed




end
