(* ===== verification/Schedule.thy ===== *)
theory Schedule
  imports CronSpec Numbers
begin

section \<open>Scheduled tasks: declarations and construction\<close>

text \<open>
  The declarative half of \<open>packages/jobs/src/schedule/index.ts\<close>: what the decorators record, how the
  records of a class and its bases compose, the checks of \<open>createScheduler\<close>, and the tasks a scheduler
  starts with. A class is its name, its metadata records from the base to the class itself, and the
  names of its callable methods. Instants are whole milliseconds.
\<close>

datatype task_runs = OncePerReplica | OncePerCluster | OtherRuns string

datatype stored_trigger = CronTrigger string | IntervalTrigger number

record stored_schedule =
  st_method :: string
  st_trigger :: stored_trigger
  st_runs :: task_runs
  st_name :: "string option"
  st_timeZone :: "string option"
  st_timeoutMs :: "number option"

record schedule_def =
  sd_name :: string
  sd_method :: string
  sd_trigger :: stored_trigger
  sd_runs :: task_runs
  sd_timeZone :: string
  sd_timeoutMs :: number

record task_class =
  tc_name :: string
  tc_metadata :: "stored_schedule list list"
  tc_callable :: "string list"

definition DEFAULT_TIME_ZONE :: string where "DEFAULT_TIME_ZONE = ''UTC''"
definition DEFAULT_TASK_TIMEOUT_MS :: number where "DEFAULT_TASK_TIMEOUT_MS = Fin 300000"
definition DEFAULT_LEASE_MS :: number where "DEFAULT_LEASE_MS = Fin 60000"
definition DEFAULT_GRACE_MS :: number where "DEFAULT_GRACE_MS = Fin 15000"
definition MAX_TIMER_MS :: int where "MAX_TIMER_MS = 2147483647"

subsection \<open>Decorators and metadata\<close>

definition pushSchedule :: "stored_schedule \<Rightarrow> stored_schedule list \<Rightarrow> stored_schedule list" where
  "pushSchedule s own = own @ [s]"

definition cron_decorator ::
  "string \<Rightarrow> task_runs \<Rightarrow> string option \<Rightarrow> string option \<Rightarrow> number option \<Rightarrow> string \<Rightarrow>
   stored_schedule list \<Rightarrow> stored_schedule list" where
  "cron_decorator expression runs name timeZone timeoutMs method own =
     pushSchedule \<lparr>st_method = method, st_trigger = CronTrigger expression, st_runs = runs, st_name = name,
       st_timeZone = timeZone, st_timeoutMs = timeoutMs\<rparr> own"

text \<open>\<open>hasTimeZone\<close>: the options object has a \<open>timeZone\<close> property, whatever its value.\<close>

definition interval_decorator ::
  "number \<Rightarrow> task_runs \<Rightarrow> string option \<Rightarrow> bool \<Rightarrow> number option \<Rightarrow> string \<Rightarrow>
   stored_schedule list \<Rightarrow> js_error + stored_schedule list" where
  "interval_decorator everyMs runs name hasTimeZone timeoutMs method own =
     (if hasTimeZone
      then Inl (RangeError (''@zmdb/jobs: interval schedule '' @ qm @
        (case name of None \<Rightarrow> method | Some n \<Rightarrow> n) @ qm @ '' cannot set timeZone; intervals are durations''))
      else Inr (pushSchedule \<lparr>st_method = method, st_trigger = IntervalTrigger everyMs, st_runs = runs,
        st_name = name, st_timeZone = None, st_timeoutMs = timeoutMs\<rparr> own))"

fun compose_step :: "stored_schedule list \<Rightarrow> stored_schedule list \<Rightarrow> stored_schedule list" where
  "compose_step own composed =
     (if own = [] then composed
      else filter (\<lambda>s. st_method s \<notin> st_method ` set own) composed @ own)"

definition composedSchedules :: "stored_schedule list list \<Rightarrow> stored_schedule list" where
  "composedSchedules baseFirst = fold compose_step baseFirst []"

subsection \<open>Normal form and checks\<close>

definition task_duration :: "number \<Rightarrow> string \<Rightarrow> js_error + number" where
  "task_duration value name =
     (if \<not> integer_number value \<or> num_le value (Fin 0)
      then Inl (RangeError (''@zmdb/jobs: '' @ name @ '' must be a positive integer'')) else Inr value)"

definition shutdownGrace :: "number \<Rightarrow> js_error + number" where
  "shutdownGrace value =
     (if \<not> integer_number value \<or> num_less value (Fin 0)
      then Inl (RangeError ''@zmdb/jobs: graceMs must be a non-negative integer'') else Inr value)"

definition taskRuns :: "task_runs \<Rightarrow> string \<Rightarrow> js_error + task_runs" where
  "taskRuns value name = (case value of
     OtherRuns s \<Rightarrow> Inl (RangeError (''@zmdb/jobs: schedule '' @ qm @ name @ qm @ '' has invalid runs value '' @
       qm @ s @ qm))
   | _ \<Rightarrow> Inr value)"

definition opt_or :: "'a option \<Rightarrow> 'a \<Rightarrow> 'a" where
  "opt_or v d = (case v of None \<Rightarrow> d | Some x \<Rightarrow> x)"

definition normalizedSchedule :: "stored_schedule \<Rightarrow> string \<Rightarrow> js_error + schedule_def" where
  "normalizedSchedule s className =
     (let fallbackClass = (if className = [] then ''<anonymous>'' else className);
          name = opt_or (st_name s) (fallbackClass @ ''.'' @ st_method s) in
      if name = [] then Inl (RangeError ''@zmdb/jobs: a scheduled task name cannot be empty'')
      else rbind (task_duration (opt_or (st_timeoutMs s) DEFAULT_TASK_TIMEOUT_MS) (name @ ''.timeoutMs'')) (\<lambda>timeoutMs.
      case st_trigger s of
        IntervalTrigger every \<Rightarrow>
          rbind (task_duration every (name @ ''.everyMs'')) (\<lambda>everyMs.
          if num_less (Fin (of_int MAX_TIMER_MS)) everyMs
          then Inl (RangeError (''@zmdb/jobs: interval schedule '' @ qm @ name @ qm @ '' exceeds '' @
            show_int MAX_TIMER_MS @ ''ms; use @Cron for calendar time''))
          else rbind (taskRuns (st_runs s) name) (\<lambda>runs.
            Inr \<lparr>sd_name = name, sd_method = st_method s, sd_trigger = IntervalTrigger everyMs, sd_runs = runs,
                 sd_timeZone = DEFAULT_TIME_ZONE, sd_timeoutMs = timeoutMs\<rparr>))
      | CronTrigger expression \<Rightarrow>
          rbind (taskRuns (st_runs s) name) (\<lambda>runs.
            Inr \<lparr>sd_name = name, sd_method = st_method s, sd_trigger = CronTrigger expression, sd_runs = runs,
                 sd_timeZone = opt_or (st_timeZone s) DEFAULT_TIME_ZONE, sd_timeoutMs = timeoutMs\<rparr>)))"

definition schedulesFor :: "task_class \<Rightarrow> js_error + schedule_def list" where
  "schedulesFor c = map_result (\<lambda>s. normalizedSchedule s (tc_name c)) (composedSchedules (tc_metadata c))"

subsection \<open>The tasks of a scheduler\<close>

datatype runtime_trigger = CronPlan parsed_expression formatter | Every int

text \<open>
  \<open>rt_nextAt\<close> is \<open>None\<close> for \<open>Number.POSITIVE_INFINITY\<close>. An active run is where its \<open>#launch\<close> stands.
\<close>

datatype run_stage = AcquiringLease | ReleasingUnheld | Invoking | Releasing

record active_run =
  ar_scheduledFor :: int
  ar_stage :: run_stage
  ar_aborted :: bool
  ar_timedOut :: bool

record runtime_task =
  rt_def :: schedule_def
  rt_trigger :: runtime_trigger
  rt_initialDue :: "int option"
  rt_firstTick :: bool
  rt_nextAt :: "int option"
  rt_running :: "active_run option"
  rt_disabled :: bool

definition cron_task :: "schedule_def \<Rightarrow> parsed_expression \<Rightarrow> formatter \<Rightarrow> int \<Rightarrow> js_error + runtime_task" where
  "cron_task d e f now =
     rbind (nextAtOrAfter e f (sd_name d) now) (\<lambda>initial.
       let initialDue = (if initial = now then Some now else None) in
       rbind (if initialDue = None then Inr initial else nextAfter e f (sd_name d) now) (\<lambda>nextAt.
         Inr \<lparr>rt_def = d, rt_trigger = CronPlan e f, rt_initialDue = initialDue, rt_firstTick = True,
              rt_nextAt = Some nextAt, rt_running = None, rt_disabled = False\<rparr>))"

definition runtime_task_of ::
  "(string \<Rightarrow> formatter option) \<Rightarrow> int \<Rightarrow> string list \<Rightarrow> schedule_def \<Rightarrow> js_error + runtime_task" where
  "runtime_task_of zones now callable d =
     (if sd_method d \<notin> set callable
      then Inl (PlainError (''@zmdb/jobs: scheduled method '' @ qm @ sd_name d @ qm @ '' is not callable on its instance''))
      else case sd_trigger d of
        CronTrigger expression \<Rightarrow>
          rbind (createCronPlan zones expression (sd_timeZone d) (sd_name d)) (\<lambda>(e, f). cron_task d e f now)
      | IntervalTrigger everyMs \<Rightarrow>
          Inr \<lparr>rt_def = d, rt_trigger = Every (num_int everyMs), rt_initialDue = None, rt_firstTick = True,
               rt_nextAt = Some (now + num_int everyMs), rt_running = None, rt_disabled = False\<rparr>)"

fun add_definitions ::
  "(string \<Rightarrow> formatter option) \<Rightarrow> int \<Rightarrow> string list \<Rightarrow> schedule_def list \<Rightarrow> runtime_task list \<Rightarrow>
   js_error + runtime_task list" where
  "add_definitions zones now callable [] result = Inr result"
| "add_definitions zones now callable (d # ds) result =
     (if sd_name d \<in> (\<lambda>t. sd_name (rt_def t)) ` set result
      then Inl (PlainError (''@zmdb/jobs: duplicate scheduled task name '' @ qm @ sd_name d @ qm))
      else rbind (runtime_task_of zones now callable d) (\<lambda>t.
        add_definitions zones now callable ds (result @ [t])))"

fun add_instances ::
  "(string \<Rightarrow> formatter option) \<Rightarrow> int \<Rightarrow> task_class list \<Rightarrow> runtime_task list \<Rightarrow> js_error + runtime_task list"
  where
  "add_instances zones now [] result = Inr result"
| "add_instances zones now (c # cs) result =
     rbind (schedulesFor c) (\<lambda>ds.
     rbind (add_definitions zones now (tc_callable c) ds result) (\<lambda>r. add_instances zones now cs r))"

definition runtimeTasks ::
  "(string \<Rightarrow> formatter option) \<Rightarrow> int \<Rightarrow> task_class list \<Rightarrow> js_error + runtime_task list" where
  "runtimeTasks zones now cs = add_instances zones now cs []"

record scheduler_config =
  sc_tasks :: "runtime_task list"
  sc_leaseMs :: number
  sc_graceMs :: number

definition createScheduler ::
  "(string \<Rightarrow> formatter option) \<Rightarrow> int \<Rightarrow> task_class list \<Rightarrow> bool \<Rightarrow> number option \<Rightarrow> number option \<Rightarrow>
   js_error + scheduler_config" where
  "createScheduler zones now cs hasLeases leaseMs graceMs =
     rbind (task_duration (opt_or leaseMs DEFAULT_LEASE_MS) ''leaseMs'') (\<lambda>lm.
     rbind (task_duration (opt_or graceMs DEFAULT_GRACE_MS) ''graceMs'') (\<lambda>gm.
     rbind (runtimeTasks zones now cs) (\<lambda>tasks.
       let clusterTasks = map (\<lambda>t. sd_name (rt_def t)) (filter (\<lambda>t. sd_runs (rt_def t) = OncePerCluster) tasks) in
       if clusterTasks \<noteq> [] \<and> \<not> hasLeases
       then Inl (PlainError (''@zmdb/jobs: once-per-cluster schedules require leases: '' @ join '', '' clusterTasks))
       else Inr \<lparr>sc_tasks = tasks, sc_leaseMs = lm, sc_graceMs = gm\<rparr>)))"

subsection \<open>What a constructed scheduler guarantees\<close>

text \<open>
  A fresh task: no run, first tick pending, and a next instant after any instant that is due at once.
\<close>

definition fresh_task :: "int \<Rightarrow> runtime_task \<Rightarrow> bool" where
  "fresh_task now t \<longleftrightarrow> rt_running t = None \<and> rt_firstTick t \<and> \<not> rt_disabled t \<and>
     (\<exists>n. rt_nextAt t = Some n \<and> now < n + (case rt_initialDue t of None \<Rightarrow> 1 | Some d \<Rightarrow> 0)) \<and>
     (case rt_initialDue t of None \<Rightarrow> True | Some d \<Rightarrow> d = now) \<and>
     (case rt_trigger t of Every m \<Rightarrow> 0 < m \<and> m \<le> MAX_TIMER_MS \<and> rt_initialDue t = None | CronPlan e f \<Rightarrow> True)"

lemma task_duration_Inr [result_simps]:
  "task_duration v name = Inr w \<longleftrightarrow> w = v \<and> (\<exists>i. v = Fin (of_int i) \<and> 0 < i)"
proof (cases v)
  case (Fin q)
  show ?thesis by (auto simp: task_duration_def Fin)
qed (auto simp: task_duration_def)

lemma nextAfter_after: "nextAfter e f name now = Inr r \<Longrightarrow> now < r"
  using nextAfter_sound [of e f name now r] by blast

lemma nextAtOrAfter_ge: "nextAtOrAfter e f name now = Inr r \<Longrightarrow> now \<le> r"
  using nextAfter_after [of e f name "now - 1" r] by (simp add: nextAtOrAfter_def)

lemma cron_task_fresh: "cron_task d e f now = Inr t \<Longrightarrow> fresh_task now t \<and> rt_def t = d"
  using nextAtOrAfter_ge [of e f "sd_name d" now] nextAfter_after [of e f "sd_name d" now]
  by (fastforce simp: cron_task_def Let_def result_simps fresh_task_def split: if_splits)

lemma runtime_task_fresh:
  "runtime_task_of zones now callable d = Inr t \<Longrightarrow>
     (\<forall>every. sd_trigger d = IntervalTrigger every \<longrightarrow> (\<exists>i. every = Fin (of_int i) \<and> 0 < i \<and> i \<le> MAX_TIMER_MS)) \<Longrightarrow>
     fresh_task now t \<and> rt_def t = d"
  by (auto simp: runtime_task_of_def result_simps fresh_task_def num_int_def dest!: cron_task_fresh
      split: stored_trigger.splits if_splits)

lemma normalizedSchedule_trigger:
  "normalizedSchedule s c = Inr d \<Longrightarrow>
     (sd_trigger d = IntervalTrigger every \<longrightarrow> (\<exists>i. every = Fin (of_int i) \<and> 0 < i \<and> i \<le> MAX_TIMER_MS)) \<and>
     sd_name d \<noteq> [] \<and> (\<exists>i. sd_timeoutMs d = Fin (of_int i) \<and> 0 < i) \<and>
     sd_runs d \<in> {OncePerReplica, OncePerCluster}"
  by (auto simp: normalizedSchedule_def Let_def result_simps taskRuns_def
      split: stored_trigger.splits if_splits task_runs.splits)

text \<open>The tasks built so far: fresh, distinctly named, with checked definitions.\<close>

definition tasks_ok :: "int \<Rightarrow> runtime_task list \<Rightarrow> bool" where
  "tasks_ok now ts \<longleftrightarrow> (\<forall>t \<in> set ts. fresh_task now t) \<and> distinct (map (\<lambda>t. sd_name (rt_def t)) ts)"

definition def_ok :: "schedule_def \<Rightarrow> bool" where
  "def_ok d \<longleftrightarrow> (\<forall>every. sd_trigger d = IntervalTrigger every \<longrightarrow>
     (\<exists>i. every = Fin (of_int i) \<and> 0 < i \<and> i \<le> MAX_TIMER_MS))"

lemma schedulesFor_ok: "schedulesFor c = Inr ds \<Longrightarrow> \<forall>d \<in> set ds. def_ok d"
proof -
  assume "schedulesFor c = Inr ds"
  then have "list_all2 (\<lambda>s d. normalizedSchedule s (tc_name c) = Inr d) (composedSchedules (tc_metadata c)) ds"
    by (simp add: schedulesFor_def map_result_Inr_list)
  then show ?thesis
    by (induction rule: list_all2_induct) (auto simp: def_ok_def dest: normalizedSchedule_trigger)
qed

lemma add_definitions_ok:
  "add_definitions zones now callable ds ts = Inr r \<Longrightarrow> tasks_ok now ts \<Longrightarrow> \<forall>d \<in> set ds. def_ok d \<Longrightarrow>
     tasks_ok now r"
proof (induction ds arbitrary: ts)
  case (Cons d ds)
  then obtain t where t: "runtime_task_of zones now callable d = Inr t"
    and r: "add_definitions zones now callable ds (ts @ [t]) = Inr r"
    and new: "sd_name d \<notin> (\<lambda>t. sd_name (rt_def t)) ` set ts"
    by (auto simp: result_simps split: if_splits)
  have "fresh_task now t \<and> rt_def t = d"
    by (rule runtime_task_fresh [OF t]) (use Cons.prems(3) in \<open>simp add: def_ok_def\<close>)
  with Cons.prems new have "tasks_ok now (ts @ [t])" by (auto simp: tasks_ok_def)
  with Cons.IH [OF r] Cons.prems(3) show ?case by simp
qed simp

lemma add_instances_ok: "add_instances zones now cs ts = Inr r \<Longrightarrow> tasks_ok now ts \<Longrightarrow> tasks_ok now r"
proof (induction cs arbitrary: ts)
  case (Cons c cs)
  then obtain ds q where "schedulesFor c = Inr ds" "add_definitions zones now (tc_callable c) ds ts = Inr q"
    "add_instances zones now cs q = Inr r" by (auto simp: result_simps)
  with Cons schedulesFor_ok add_definitions_ok show ?case by blast
qed simp

lemma createScheduler_ok: "createScheduler zones now cs leases lm gm = Inr c \<Longrightarrow> tasks_ok now (sc_tasks c)"
  by (auto simp: createScheduler_def Let_def result_simps runtimeTasks_def tasks_ok_def
      dest!: add_instances_ok split: if_splits)

text \<open>
  A method declared again in a derived class keeps only the derived declarations: what composes is, for
  each method, the declarations of the most derived class that has any.
\<close>

fun most_derived :: "string \<Rightarrow> stored_schedule list list \<Rightarrow> stored_schedule list" where
  "most_derived m [] = []"
| "most_derived m (own # bases) =
     (if m \<in> st_method ` set own then filter (\<lambda>s. st_method s = m) own else most_derived m bases)"

lemma composed_most_derived:
  "filter (\<lambda>s. st_method s = m) (composedSchedules records) = most_derived m (rev records)"
proof (induction records rule: rev_induct)
  case (snoc own records)
  have empty: "filter (\<lambda>s. st_method s = m) own = []" if "m \<notin> st_method ` set own"
    using that by (auto simp: filter_empty_conv)
  have drop: "filter (\<lambda>s. st_method s \<notin> st_method ` set own \<and> st_method s = m) xs =
      (if m \<in> st_method ` set own then [] else filter (\<lambda>s. st_method s = m) xs)" for xs
    by (auto simp: filter_empty_conv intro: filter_cong)
  show ?case using snoc empty by (simp add: composedSchedules_def drop)
qed (simp add: composedSchedules_def)

end
