(* ===== verification/Scheduler.thy ===== *)
theory Scheduler
  imports Schedule
begin

section \<open>The scheduler\<close>

text \<open>
  The class \<open>AppScheduler\<close> of \<open>packages/jobs/src/schedule/index.ts\<close>: the tick of a task, the stages of a
  launch, the sleeping loop and the shutdown, one function per segment of code between two awaits. The
  lease store, the clock and the tasks themselves are the environment. A task also records what an
  observer sees of it: the instants launched and skipped, the errors reported, how many of its
  invocations are in progress, and when its last run ended. A plan that throws ends a tick where it
  stands (\<open>tick(...).catch(() => undefined)\<close>).
\<close>

datatype skip_reason = StillRunning | LeaseNotHeld | Missed

datatype observation = Launched int | Skipped int skip_reason | TaskError int

record task_state = runtime_task +
  ts_log :: "observation list"
  ts_invoking :: nat
  ts_ended :: "int option"

definition observe :: "observation \<Rightarrow> task_state \<Rightarrow> task_state" where
  "observe ob t = t\<lparr>ts_log := ts_log t @ [ob]\<rparr>"

definition starting :: "runtime_task \<Rightarrow> task_state" where
  "starting t = runtime_task.extend t \<lparr>ts_log = [], ts_invoking = 0, ts_ended = None\<rparr>"

subsection \<open>A run\<close>

definition finishWithoutRun :: "int \<Rightarrow> task_state \<Rightarrow> task_state" where
  "finishWithoutRun clock t =
     (let t1 = t\<lparr>rt_running := None, ts_ended := Some clock\<rparr> in
      case rt_trigger t of Every m \<Rightarrow> t1\<lparr>rt_nextAt := Some (clock + m)\<rparr> | CronPlan e f \<Rightarrow> t1)"

definition invoke_task :: "active_run \<Rightarrow> task_state \<Rightarrow> task_state" where
  "invoke_task r t = t\<lparr>rt_running := Some (r\<lparr>ar_stage := Invoking\<rparr>), ts_invoking := Suc (ts_invoking t)\<rparr>"

definition launch :: "bool \<Rightarrow> int \<Rightarrow> int \<Rightarrow> task_state \<Rightarrow> task_state" where
  "launch hasLeases clock scheduledFor t =
     (let r = \<lparr>ar_scheduledFor = scheduledFor, ar_stage = AcquiringLease, ar_aborted = False, ar_timedOut = False\<rparr>;
          t1 = observe (Launched scheduledFor) (t\<lparr>rt_running := Some r\<rparr>) in
      if sd_runs (rt_def t) = OncePerCluster
      then (if hasLeases then t1 else finishWithoutRun clock t1)
      else invoke_task r t1)"

text \<open>\<open>session.acquire()\<close> answers, or throws (\<open>None\<close>).\<close>

definition lease_answered :: "bool option \<Rightarrow> active_run \<Rightarrow> task_state \<Rightarrow> task_state" where
  "lease_answered answer r t =
     (let t1 = (if answer = None then observe (TaskError (ar_scheduledFor r)) t else t) in
      if answer = Some True then invoke_task r t1
      else observe (Skipped (ar_scheduledFor r) LeaseNotHeld)
        (t1\<lparr>rt_running := Some (r\<lparr>ar_stage := ReleasingUnheld\<rparr>)\<rparr>))"

definition lease_lost :: "active_run \<Rightarrow> task_state \<Rightarrow> task_state" where
  "lease_lost r t = observe (TaskError (ar_scheduledFor r))
     (t\<lparr>rt_disabled := True, rt_running := Some (r\<lparr>ar_aborted := True\<rparr>)\<rparr>)"

definition invocation_settled :: "bool \<Rightarrow> active_run \<Rightarrow> task_state \<Rightarrow> task_state" where
  "invocation_settled resolved r t =
     (let t1 = t\<lparr>rt_running := Some (r\<lparr>ar_stage := Releasing\<rparr>), ts_invoking := ts_invoking t - 1\<rparr> in
      if \<not> resolved \<and> \<not> ar_timedOut r then observe (TaskError (ar_scheduledFor r)) t1 else t1)"

text \<open>\<open>#finishRun\<close> after the lease is released.\<close>

definition finishRun :: "bool \<Rightarrow> int \<Rightarrow> task_state \<Rightarrow> task_state" where
  "finishRun stopped clock t =
     (let t1 = t\<lparr>rt_running := None, ts_ended := Some clock\<rparr> in
      case rt_trigger t of
        Every m \<Rightarrow> if \<not> rt_disabled t \<and> \<not> stopped then t1\<lparr>rt_nextAt := Some (clock + m)\<rparr> else t1
      | CronPlan e f \<Rightarrow> t1)"

definition run_timed_out :: "active_run \<Rightarrow> task_state \<Rightarrow> task_state" where
  "run_timed_out r t = observe (TaskError (ar_scheduledFor r))
     (t\<lparr>rt_running := Some (r\<lparr>ar_timedOut := True, ar_aborted := True\<rparr>)\<rparr>)"

definition abort_run :: "task_state \<Rightarrow> task_state" where
  "abort_run t = (case rt_running t of None \<Rightarrow> t | Some r \<Rightarrow> t\<lparr>rt_running := Some (r\<lparr>ar_aborted := True\<rparr>)\<rparr>)"

subsection \<open>A tick\<close>

text \<open>The second half of \<open>#tickTask\<close>: the instant is now, or it is not.\<close>

definition tick_due :: "bool \<Rightarrow> int \<Rightarrow> int \<Rightarrow> task_state \<Rightarrow> task_state" where
  "tick_due hasLeases clock now t =
     (if rt_nextAt t \<noteq> Some now then t
      else case (case rt_trigger t of
          CronPlan e f \<Rightarrow> (case nextAfter e f (sd_name (rt_def t)) now of Inr r \<Rightarrow> Some (Some r) | Inl x \<Rightarrow> None)
        | Every m \<Rightarrow> Some None) of
        None \<Rightarrow> t
      | Some nextAt \<Rightarrow>
          let t1 = t\<lparr>rt_nextAt := nextAt\<rparr> in
          if rt_running t \<noteq> None then observe (Skipped now StillRunning) t1
          else launch hasLeases clock now t1)"

definition tick_missed :: "bool \<Rightarrow> int \<Rightarrow> int \<Rightarrow> task_state \<Rightarrow> task_state" where
  "tick_missed hasLeases clock now t = (case rt_nextAt t of
     None \<Rightarrow> t
   | Some n \<Rightarrow>
       if n < now then
         let t1 = observe (Skipped n (if rt_running t = None then Missed else StillRunning)) t in
         case (case rt_trigger t of
             CronPlan e f \<Rightarrow> (case nextAtOrAfter e f (sd_name (rt_def t)) now of Inr r \<Rightarrow> Some (Some r) | Inl x \<Rightarrow> None)
           | Every m \<Rightarrow> Some (if rt_running t = None then Some (now + m) else None)) of
           None \<Rightarrow> t1
         | Some nextAt \<Rightarrow> tick_due hasLeases clock now (t1\<lparr>rt_nextAt := nextAt\<rparr>)
       else tick_due hasLeases clock now t)"

definition tickTask :: "bool \<Rightarrow> int \<Rightarrow> int \<Rightarrow> task_state \<Rightarrow> task_state" where
  "tickTask hasLeases clock now t =
     (if rt_disabled t \<or> rt_nextAt t = None then t
      else if rt_firstTick t then
        let t1 = t\<lparr>rt_firstTick := False, rt_initialDue := None\<rparr> in
        if rt_initialDue t = Some now then launch hasLeases clock now t1
        else tick_missed hasLeases clock now t1
      else tick_missed hasLeases clock now t)"

subsection \<open>The loop and the shutdown\<close>

datatype loop_position = LoopIdle | LoopTop | LoopSleep int | LoopOver

datatype stop_position = NotStopped | StopWaiting | StopGrace "nat list" | StopDone

record scheduler =
  sr_tasks :: "task_state list"
  sr_started :: bool
  sr_stopped :: bool
  sr_loop :: loop_position
  sr_stop :: stop_position

definition new_scheduler :: "scheduler_config \<Rightarrow> scheduler" where
  "new_scheduler c = \<lparr>sr_tasks = map starting (sc_tasks c), sr_started = False, sr_stopped = False,
     sr_loop = LoopIdle, sr_stop = NotStopped\<rparr>"

definition tick :: "bool \<Rightarrow> int \<Rightarrow> int \<Rightarrow> scheduler \<Rightarrow> scheduler" where
  "tick hasLeases clock now s =
     (if sr_stopped s then s else s\<lparr>sr_tasks := map (tickTask hasLeases clock now) (sr_tasks s)\<rparr>)"

definition start_scheduler :: "bool \<Rightarrow> int \<Rightarrow> scheduler \<Rightarrow> scheduler" where
  "start_scheduler hasLeases clock s =
     (if sr_started s \<or> sr_stopped s then s
      else (tick hasLeases clock clock (s\<lparr>sr_started := True\<rparr>))\<lparr>sr_loop := LoopTop\<rparr>)"

text \<open>The earliest next instant of the enabled tasks; \<open>None\<close> when there is none.\<close>

definition earliest :: "task_state list \<Rightarrow> int option" where
  "earliest ts = foldl (\<lambda>a t. if rt_disabled t then a else (case (a, rt_nextAt t) of
     (None, n) \<Rightarrow> n | (Some m, None) \<Rightarrow> Some m | (Some m, Some n) \<Rightarrow> Some (min m n))) None ts"

definition loop_delay :: "task_state list \<Rightarrow> int \<Rightarrow> int" where
  "loop_delay ts now = (case earliest ts of
     None \<Rightarrow> MAX_TIMER_MS
   | Some n \<Rightarrow> min MAX_TIMER_MS (max 0 (n - now)))"

definition loop_top :: "int \<Rightarrow> scheduler \<Rightarrow> scheduler" where
  "loop_top clock s =
     s\<lparr>sr_loop := (if sr_stopped s \<or> sr_tasks s = [] then LoopOver else LoopSleep (loop_delay (sr_tasks s) clock))\<rparr>"

text \<open>The sleep ends: it elapsed, it threw, or \<open>#wake\<close> aborted it.\<close>

definition loop_woken_up :: "bool \<Rightarrow> int \<Rightarrow> bool \<Rightarrow> bool \<Rightarrow> scheduler \<Rightarrow> scheduler" where
  "loop_woken_up hasLeases clock threw aborted s =
     (if threw \<and> sr_stopped s then s\<lparr>sr_loop := LoopOver\<rparr>
      else if sr_stopped s \<or> aborted then s\<lparr>sr_loop := LoopTop\<rparr>
      else (tick hasLeases clock clock s)\<lparr>sr_loop := LoopTop\<rparr>)"

definition stop_scheduler :: "scheduler \<Rightarrow> scheduler" where
  "stop_scheduler s = (case sr_stop s of
     NotStopped \<Rightarrow> s\<lparr>sr_stopped := True, sr_stop := StopWaiting\<rparr>
   | _ \<Rightarrow> s)"

definition scheduler_grace :: "scheduler_config \<Rightarrow> number option \<Rightarrow> js_error + rat" where
  "scheduler_grace c cap = (case cap of
     None \<Rightarrow> Inr (num_val (sc_graceMs c))
   | Some n \<Rightarrow> rbind (shutdownGrace n) (\<lambda>g. Inr (min (num_val (sc_graceMs c)) (num_val g))))"

definition running_tasks :: "task_state list \<Rightarrow> nat list" where
  "running_tasks ts = filter (\<lambda>i. rt_running (ts ! i) \<noteq> None) [0..<length ts]"

text \<open>After the loop is over: nothing runs, or the runs found then get the grace period.\<close>

definition stop_runs :: "scheduler \<Rightarrow> scheduler" where
  "stop_runs s = (let active = running_tasks (sr_tasks s) in
     s\<lparr>sr_stop := (if active = [] then StopDone else StopGrace active)\<rparr>)"

definition stop_expired :: "nat list \<Rightarrow> scheduler \<Rightarrow> scheduler" where
  "stop_expired active s =
     s\<lparr>sr_stop := StopDone,
       sr_tasks := map (\<lambda>i. if i \<in> set active then abort_run (sr_tasks s ! i) else sr_tasks s ! i) [0..<length (sr_tasks s)]\<rparr>"

subsection \<open>The steps\<close>

definition update_task :: "nat \<Rightarrow> task_state \<Rightarrow> scheduler \<Rightarrow> scheduler" where
  "update_task i t s = s\<lparr>sr_tasks := (sr_tasks s)[i := t]\<rparr>"

text \<open>The run of a task after one segment of its \<open>#launch\<close>.\<close>

inductive run_step :: "bool \<Rightarrow> task_state \<Rightarrow> task_state \<Rightarrow> bool" for stopped :: bool where
  rs_lease: "rt_running t = Some r \<Longrightarrow> ar_stage r = AcquiringLease \<Longrightarrow> run_step stopped t (lease_answered answer r t)"
| rs_unheld: "rt_running t = Some r \<Longrightarrow> ar_stage r = ReleasingUnheld \<Longrightarrow>
    run_step stopped t (finishWithoutRun clock t)"
| rs_lost: "rt_running t = Some r \<Longrightarrow> ar_stage r \<in> {Invoking, Releasing} \<Longrightarrow> sd_runs (rt_def t) = OncePerCluster \<Longrightarrow>
    run_step stopped t (lease_lost r t)"
| rs_settled: "rt_running t = Some r \<Longrightarrow> ar_stage r = Invoking \<Longrightarrow>
    run_step stopped t (invocation_settled resolved r t)"
| rs_finished: "rt_running t = Some r \<Longrightarrow> ar_stage r = Releasing \<Longrightarrow> run_step stopped t (finishRun stopped clock t)"
| rs_timeout: "rt_running t = Some r \<Longrightarrow> ar_stage r = Invoking \<Longrightarrow> \<not> ar_aborted r \<Longrightarrow>
    run_step stopped t (run_timed_out r t)"

inductive scheduler_step :: "bool \<Rightarrow> scheduler \<Rightarrow> scheduler \<Rightarrow> bool" for hasLeases :: bool where
  ss_start: "scheduler_step hasLeases s (start_scheduler hasLeases clock s)"
| ss_tick: "scheduler_step hasLeases s (tick hasLeases clock now s)"
| ss_run: "i < length (sr_tasks s) \<Longrightarrow> run_step (sr_stopped s) (sr_tasks s ! i) t \<Longrightarrow>
    scheduler_step hasLeases s (update_task i t s)"
| ss_top: "sr_loop s = LoopTop \<Longrightarrow> scheduler_step hasLeases s (loop_top clock s)"
| ss_woken: "sr_loop s = LoopSleep delay \<Longrightarrow> scheduler_step hasLeases s (loop_woken_up hasLeases clock threw aborted s)"
| ss_stop: "scheduler_step hasLeases s (stop_scheduler s)"
| ss_stop_runs: "sr_stop s = StopWaiting \<Longrightarrow> sr_loop s \<in> {LoopIdle, LoopOver} \<Longrightarrow>
    scheduler_step hasLeases s (stop_runs s)"
| ss_stop_settled: "sr_stop s = StopGrace active \<Longrightarrow> list_all (\<lambda>i. rt_running (sr_tasks s ! i) = None) active \<Longrightarrow>
    scheduler_step hasLeases s (s\<lparr>sr_stop := StopDone\<rparr>)"
| ss_stop_expired: "sr_stop s = StopGrace active \<Longrightarrow> scheduler_step hasLeases s (stop_expired active s)"

inductive scheduler_reachable :: "bool \<Rightarrow> scheduler_config \<Rightarrow> scheduler \<Rightarrow> bool" for hasLeases c where
  sr_new: "scheduler_reachable hasLeases c (new_scheduler c)"
| sr_next: "scheduler_reachable hasLeases c s \<Longrightarrow> scheduler_step hasLeases s s' \<Longrightarrow> scheduler_reachable hasLeases c s'"

inductive_cases run_stepE: "run_step stopped t t'"

end
