(* ===== verification/SchedulerSafety.thy ===== *)
theory SchedulerSafety
  imports Scheduler
begin

section \<open>Invariants of the scheduler\<close>

text \<open>
  What every step keeps of a task: one invocation at a time, each cron instant reported once and in
  order, an interval measured from the end of the last run.
\<close>

fun fired :: "observation \<Rightarrow> int list" where
  "fired (Launched s) = [s]"
| "fired (Skipped s LeaseNotHeld) = []"
| "fired (Skipped s StillRunning) = [s]"
| "fired (Skipped s Missed) = [s]"
| "fired (TaskError s) = []"

definition instants :: "observation list \<Rightarrow> int list" where
  "instants l = concat (map fired l)"

fun launched :: "observation \<Rightarrow> int list" where
  "launched (Launched s) = [s]"
| "launched _ = []"

definition launches :: "observation list \<Rightarrow> int list" where
  "launches l = concat (map launched l)"

definition in_progress :: "task_state \<Rightarrow> nat" where
  "in_progress t = (case rt_running t of None \<Rightarrow> 0 | Some r \<Rightarrow> if ar_stage r = Invoking then 1 else 0)"

definition trigger_inv :: "task_state \<Rightarrow> bool" where
  "trigger_inv t = (case rt_trigger t of
     CronPlan e f \<Rightarrow> sorted_wrt (<) (launches (ts_log t)) \<and> sorted (instants (ts_log t)) \<and>
       (\<exists>n. rt_nextAt t = Some n \<and> (\<forall>x \<in> set (launches (ts_log t)). x < n) \<and>
         (\<forall>x \<in> set (instants (ts_log t)). x \<le> n))
   | Every m \<Rightarrow> 0 < m \<and> (rt_running t \<noteq> None \<longrightarrow> rt_nextAt t = None) \<and>
       (\<forall>c n. ts_ended t = Some c \<longrightarrow> rt_nextAt t = Some n \<longrightarrow> c + m \<le> n))"

definition first_inv :: "task_state \<Rightarrow> bool" where
  "first_inv t \<longleftrightarrow> (rt_firstTick t \<longrightarrow> rt_running t = None \<and> ts_log t = []) \<and>
     (\<forall>d. rt_initialDue t = Some d \<longrightarrow> rt_firstTick t \<and> (\<exists>n. rt_nextAt t = Some n \<and> d < n) \<and>
        (\<forall>m. rt_trigger t \<noteq> Every m))"

definition task_inv :: "task_state \<Rightarrow> bool" where
  "task_inv t \<longleftrightarrow> ts_invoking t = in_progress t \<and> first_inv t \<and> trigger_inv t"

lemmas task_inv_defs = task_inv_def first_inv_def trigger_inv_def in_progress_def

lemma instants_append [simp]: "instants (l @ k) = instants l @ instants k" "instants (ob # l) = fired ob @ instants l"
  by (simp_all add: instants_def)

lemma launches_append [simp]: "launches (l @ k) = launches l @ launches k" "launches (ob # l) = launched ob @ launches l"
  by (simp_all add: launches_def)

lemma instants_Nil [simp]: "instants [] = []" "launches [] = []"
  by (simp_all add: instants_def launches_def)

lemma fresh_starting: "fresh_task now t \<Longrightarrow> task_inv (starting t)"
  by (auto simp: fresh_task_def task_inv_defs starting_def runtime_task.extend_def
      split: option.splits runtime_trigger.splits)

subsection \<open>A run\<close>

lemma run_step_inv: "run_step stopped t t' \<Longrightarrow> task_inv t \<Longrightarrow> task_inv t'"
  by (erule run_stepE)
    (auto simp: task_inv_defs lease_answered_def finishWithoutRun_def lease_lost_def invocation_settled_def
      finishRun_def run_timed_out_def invoke_task_def observe_def Let_def
      split: runtime_trigger.splits)

lemma abort_run_inv: "task_inv t \<Longrightarrow> task_inv (abort_run t)"
  by (auto simp: task_inv_defs abort_run_def split: option.splits runtime_trigger.splits)

subsection \<open>A tick\<close>

text \<open>A launch at an instant later than all before, for a task that is not running.\<close>

lemma launch_inv:
  assumes "rt_running t = None" and "\<not> rt_firstTick t" and "rt_initialDue t = None" and "ts_invoking t = 0"
    and "case rt_trigger t of
        CronPlan e f \<Rightarrow> sorted_wrt (<) (launches (ts_log t)) \<and> (\<forall>x \<in> set (launches (ts_log t)). x < s) \<and>
          sorted (instants (ts_log t)) \<and> (\<forall>x \<in> set (instants (ts_log t)). x \<le> s) \<and>
          (\<exists>n. rt_nextAt t = Some n \<and> s < n)
      | Every m \<Rightarrow> 0 < m \<and> rt_nextAt t = None"
  shows "task_inv (launch hasLeases clock s t)"
  using assms
  by (auto simp: task_inv_defs launch_def Let_def finishWithoutRun_def invoke_task_def observe_def
      sorted_wrt_append sorted_append split: runtime_trigger.splits)
    (meson less_trans order_trans less_imp_le)+

text \<open>The tick keeps the invariant of a task whose first tick is over.\<close>

lemma tick_due_inv:
  assumes inv: "task_inv t" and first: "\<not> rt_firstTick t"
  shows "task_inv (tick_due hasLeases clock now t)"
proof (cases "rt_nextAt t = Some now")
  case False
  then show ?thesis using inv by (simp add: tick_due_def)
next
  case due: True
  have init: "rt_initialDue t = None" using inv first by (auto simp: task_inv_defs)
  have idle: "ts_invoking t = 0" if "rt_running t = None" using inv that by (simp add: task_inv_defs)
  show ?thesis
  proof (cases "rt_trigger t")
    case (Every m)
    then have idl: "rt_running t = None" using inv due by (auto simp: task_inv_defs)
    moreover have "task_inv (launch hasLeases clock now (t\<lparr>rt_nextAt := None\<rparr>))"
      by (rule launch_inv) (use inv first init idle idl Every in \<open>auto simp: task_inv_defs\<close>)
    ultimately show ?thesis using due Every by (simp add: tick_due_def Let_def)
  next
    case (CronPlan e f)
    show ?thesis
    proof (cases "nextAfter e f (sd_name (rt_def t)) now")
      case (Inl x)
      then show ?thesis using due CronPlan inv by (simp add: tick_due_def)
    next
      case (Inr r)
      have later: "now < r" by (rule nextAfter_after [OF Inr])
      have past: "\<forall>x \<in> set (launches (ts_log t)). x < now" "sorted_wrt (<) (launches (ts_log t))"
        "\<forall>x \<in> set (instants (ts_log t)). x \<le> now" "sorted (instants (ts_log t))"
        using inv due CronPlan by (auto simp: task_inv_defs)
      show ?thesis
      proof (cases "rt_running t")
        case None
        have "task_inv (launch hasLeases clock now (t\<lparr>rt_nextAt := Some r\<rparr>))"
          by (rule launch_inv) (use first init idle None CronPlan later past in auto)
        then show ?thesis using due CronPlan Inr None by (simp add: tick_due_def Let_def)
      next
        case (Some q)
        have "task_inv (observe (Skipped now StillRunning) (t\<lparr>rt_nextAt := Some r\<rparr>))"
          using inv first init Some CronPlan later past
          by (auto simp: task_inv_defs observe_def sorted_append)
        then show ?thesis using due CronPlan Inr Some by (simp add: tick_due_def Let_def)
      qed
    qed
  qed
qed

lemma tick_missed_inv:
  assumes inv: "task_inv t" and first: "\<not> rt_firstTick t"
  shows "task_inv (tick_missed hasLeases clock now t)"
proof (cases "\<exists>n. rt_nextAt t = Some n \<and> n < now")
  case False
  then show ?thesis using inv tick_due_inv [OF inv first] by (auto simp: tick_missed_def split: option.splits)
next
  case True
  then obtain n where n: "rt_nextAt t = Some n" "n < now" by blast
  have init: "rt_initialDue t = None" using inv first by (auto simp: task_inv_defs)
  let ?why = "if rt_running t = None then Missed else StillRunning"
  let ?t1 = "observe (Skipped n ?why) t"
  show ?thesis
  proof (cases "rt_trigger t")
    case (Every m)
    then have idle: "rt_running t = None" using inv n by (auto simp: task_inv_defs)
    have "task_inv (?t1\<lparr>rt_nextAt := Some (now + m)\<rparr>)"
      using inv first init Every idle n by (force simp: task_inv_defs observe_def)
    from tick_due_inv [OF this] first show ?thesis
      using n Every idle by (simp add: tick_missed_def Let_def observe_def)
  next
    case (CronPlan e f)
    have past: "\<forall>x \<in> set (launches (ts_log t)). x < n" "sorted_wrt (<) (launches (ts_log t))"
      "\<forall>x \<in> set (instants (ts_log t)). x \<le> n" "sorted (instants (ts_log t))"
      using inv n CronPlan by (auto simp: task_inv_defs)
    show ?thesis
    proof (cases "nextAtOrAfter e f (sd_name (rt_def t)) now")
      case (Inl x)
      have "task_inv ?t1"
        using inv first init CronPlan past n by (auto simp: task_inv_defs observe_def sorted_append)
      then show ?thesis using n CronPlan Inl by (simp add: tick_missed_def Let_def)
    next
      case (Inr r)
      have "n < r" using nextAtOrAfter_ge [OF Inr] n(2) by simp
      then have "task_inv (?t1\<lparr>rt_nextAt := Some r\<rparr>)"
        using inv first init CronPlan past by (auto simp: task_inv_defs observe_def sorted_append)
      from tick_due_inv [OF this] first show ?thesis
        using n CronPlan Inr by (simp add: tick_missed_def Let_def observe_def)
    qed
  qed
qed

lemma tickTask_inv:
  assumes inv: "task_inv t"
  shows "task_inv (tickTask hasLeases clock now t)"
proof (cases "rt_disabled t \<or> rt_nextAt t = None")
  case True
  then show ?thesis using inv by (auto simp: tickTask_def)
next
  case live: False
  show ?thesis
  proof (cases "rt_firstTick t")
    case False
    then show ?thesis using live inv tick_missed_inv [OF inv False] by (auto simp: tickTask_def)
  next
    case True
    let ?t1 = "t\<lparr>rt_firstTick := False, rt_initialDue := None\<rparr>"
    have "task_inv ?t1"
      using inv by (auto simp: task_inv_defs split: runtime_trigger.splits)
    from tick_missed_inv [OF this] have rest: "task_inv (tick_missed hasLeases clock now ?t1)" by simp
    have "task_inv (launch hasLeases clock now ?t1)" if "rt_initialDue t = Some now"
      by (rule launch_inv) (use inv that True in \<open>auto simp: task_inv_defs split: runtime_trigger.splits\<close>)
    with rest live True inv show ?thesis by (auto simp: tickTask_def Let_def)
  qed
qed

subsection \<open>Every step\<close>

definition scheduler_inv :: "scheduler \<Rightarrow> bool" where
  "scheduler_inv s \<longleftrightarrow> (\<forall>t \<in> set (sr_tasks s). task_inv t)"

lemma tick_inv: "scheduler_inv s \<Longrightarrow> scheduler_inv (tick hasLeases clock now s)"
  by (auto simp: scheduler_inv_def tick_def intro: tickTask_inv)

lemma scheduler_inv_fields [simp]:
  "scheduler_inv (s\<lparr>sr_started := b\<rparr>) = scheduler_inv s" "scheduler_inv (s\<lparr>sr_stopped := b\<rparr>) = scheduler_inv s"
  "scheduler_inv (s\<lparr>sr_loop := l\<rparr>) = scheduler_inv s" "scheduler_inv (s\<lparr>sr_stop := p\<rparr>) = scheduler_inv s"
  by (simp_all add: scheduler_inv_def)

lemma scheduler_inv_step:
  assumes "scheduler_step hasLeases s s'" and inv: "scheduler_inv s"
  shows "scheduler_inv s'"
  using assms(1)
proof cases
  case (ss_run i t)
  then have "task_inv t" using run_step_inv inv by (auto simp: scheduler_inv_def)
  then show ?thesis
    using inv ss_run by (auto simp: scheduler_inv_def update_task_def dest!: set_update_subset_insert [THEN subsetD])
next
  case (ss_stop_expired active)
  then show ?thesis using inv abort_run_inv by (auto simp: scheduler_inv_def stop_expired_def)
next
  case (ss_start clock)
  then show ?thesis using inv tick_inv [of "s\<lparr>sr_started := True\<rparr>"] by (auto simp: start_scheduler_def)
next
  case (ss_woken delay clock threw aborted)
  then show ?thesis using inv tick_inv [of s] by (auto simp: loop_woken_up_def)
qed (use inv in \<open>auto simp: tick_inv loop_top_def stop_scheduler_def stop_runs_def Let_def
    split: stop_position.splits\<close>)

lemma scheduler_inv_reachable:
  assumes "scheduler_reachable hasLeases c s" and "tasks_ok now (sc_tasks c)"
  shows "scheduler_inv s"
  using assms(1)
proof induction
  case sr_new
  then show ?case
    using assms(2) fresh_starting by (auto simp: scheduler_inv_def new_scheduler_def tasks_ok_def)
next
  case (sr_next s s')
  then show ?case using scheduler_inv_step by blast
qed

subsection \<open>Intervals\<close>

lemma launch_log:
  "ts_log (launch hasLeases clock s t) = ts_log t @ [Launched s]"
  by (simp add: launch_def Let_def invoke_task_def finishWithoutRun_def observe_def split: runtime_trigger.splits)

text \<open>A tick launches an interval task only at its next instant, and late ticks never do.\<close>

lemma tick_every_launches:
  assumes inv: "task_inv t" and every: "rt_trigger t = Every m"
  shows "launches (ts_log (tickTask hasLeases clock now t)) =
    launches (ts_log t) @ (if rt_nextAt t = Some now \<and> \<not> rt_disabled t then [now] else [])"
proof -
  have m: "0 < m" and init: "rt_initialDue t = None" using inv every by (auto simp: task_inv_defs)
  have idle: "rt_running t = None" if "rt_nextAt t \<noteq> None" using inv every that by (auto simp: task_inv_defs)
  show ?thesis
    using m init idle
    by (auto simp: tickTask_def tick_missed_def tick_due_def Let_def every observe_def launch_log
        split: option.splits)
qed

lemma tick_every_missed:
  assumes inv: "task_inv t" and every: "rt_trigger t = Every m" and n: "rt_nextAt t = Some n" "n < now"
    and "\<not> rt_disabled t"
  shows "rt_nextAt (tickTask hasLeases clock now t) = Some (now + m) \<and>
    rt_trigger (tickTask hasLeases clock now t) = Every m \<and> \<not> rt_disabled (tickTask hasLeases clock now t) \<and>
    ts_log (tickTask hasLeases clock now t) = ts_log t @ [Skipped n Missed]"
proof -
  have "0 < m" "rt_initialDue t = None" "rt_running t = None" using inv every n by (auto simp: task_inv_defs)
  then show ?thesis
    using n assms(5) by (auto simp: tickTask_def tick_missed_def tick_due_def Let_def every observe_def)
qed

text \<open>The loop woken \<open>d\<close> milliseconds after the next instant of a task, again and again.\<close>

fun wake_late :: "bool \<Rightarrow> int list \<Rightarrow> task_state \<Rightarrow> task_state" where
  "wake_late hasLeases [] t = t"
| "wake_late hasLeases (d # ds) t = wake_late hasLeases ds
     (case rt_nextAt t of None \<Rightarrow> t | Some n \<Rightarrow> tickTask hasLeases (n + d) (n + d) t)"

lemma wake_late_never_launches:
  assumes "task_inv t" and "rt_trigger t = Every m" and "rt_nextAt t = Some n" and "\<not> rt_disabled t"
    and "\<forall>d \<in> set ds. 0 < d"
  shows "launches (ts_log (wake_late hasLeases ds t)) = launches (ts_log t) \<and>
    length (filter (\<lambda>ob. \<exists>s. ob = Skipped s Missed) (ts_log (wake_late hasLeases ds t))) =
      length (filter (\<lambda>ob. \<exists>s. ob = Skipped s Missed) (ts_log t)) + length ds"
  using assms
proof (induction ds arbitrary: t n)
  case (Cons d ds)
  let ?t = "tickTask hasLeases (n + d) (n + d) t"
  have "n < n + d" using Cons.prems(5) by simp
  note m = tick_every_missed [OF Cons.prems(1,2,3) this Cons.prems(4), of hasLeases "n + d"]
  have "task_inv ?t" by (rule tickTask_inv [OF Cons.prems(1)])
  from Cons.IH [OF this, of "n + d + m"] m Cons.prems(3,5) show ?case by simp
qed simp

subsection \<open>The loop\<close>

lemma earliest_foldl:
  "foldl (\<lambda>a t. if rt_disabled t then a else (case (a, rt_nextAt t) of
     (None, n) \<Rightarrow> n | (Some m, None) \<Rightarrow> Some m | (Some m, Some n) \<Rightarrow> Some (min m n))) a ts = r \<Longrightarrow>
   (\<forall>t \<in> set ts. \<forall>n. \<not> rt_disabled t \<longrightarrow> rt_nextAt t = Some n \<longrightarrow> (\<exists>e. r = Some e \<and> e \<le> n)) \<and>
   (\<forall>x. a = Some x \<longrightarrow> (\<exists>e. r = Some e \<and> e \<le> x))"
proof (induction ts arbitrary: a)
  case (Cons t ts)
  from Cons.prems have rest: "foldl (\<lambda>a t. if rt_disabled t then a else (case (a, rt_nextAt t) of
     (None, n) \<Rightarrow> n | (Some m, None) \<Rightarrow> Some m | (Some m, Some n) \<Rightarrow> Some (min m n)))
     (if rt_disabled t then a else (case (a, rt_nextAt t) of
     (None, n) \<Rightarrow> n | (Some m, None) \<Rightarrow> Some m | (Some m, Some n) \<Rightarrow> Some (min m n))) ts = r" by simp
  show ?case
    using Cons.IH [OF rest] by (auto split: option.splits if_splits)
qed simp

text \<open>The loop sleeps at most to the next instant of every enabled task, and never longer than a timer can.\<close>

lemma loop_delay_bound:
  assumes "t \<in> set ts" and "\<not> rt_disabled t" and "rt_nextAt t = Some n"
  shows "loop_delay ts now \<le> max 0 (n - now) \<and> 0 \<le> loop_delay ts now \<and> loop_delay ts now \<le> MAX_TIMER_MS"
proof -
  obtain e where "earliest ts = Some e" "e \<le> n"
    using earliest_foldl [of None ts "earliest ts"] assms by (auto simp: earliest_def)
  then show ?thesis by (auto simp: loop_delay_def MAX_TIMER_MS_def)
qed

end
