(* ===== verification/ScheduleProperties.thy ===== *)
theory ScheduleProperties
  imports SchedulerSafety
begin

section \<open>Properties of the scheduler\<close>

text \<open>
  The statements about \<open>packages/jobs/src/schedule/index.ts\<close>, over every reachable state of a
  scheduler that could be constructed.
\<close>

definition poll_class :: task_class where
  "poll_class = \<lparr>tc_name = ''Poller'', tc_metadata = [[\<lparr>st_method = ''poll'', st_trigger = IntervalTrigger (Fin 1000),
     st_runs = OncePerReplica, st_name = None, st_timeZone = None, st_timeoutMs = None\<rparr>]], tc_callable = [''poll'']\<rparr>"

definition poll_task :: runtime_task where
  "poll_task = \<lparr>rt_def = \<lparr>sd_name = ''Poller.poll'', sd_method = ''poll'', sd_trigger = IntervalTrigger (Fin 1000),
       sd_runs = OncePerReplica, sd_timeZone = ''UTC'', sd_timeoutMs = Fin 300000\<rparr>,
     rt_trigger = Every 1000, rt_initialDue = None, rt_firstTick = True, rt_nextAt = Some 1000,
     rt_running = None, rt_disabled = False\<rparr>"

definition poll_config :: scheduler_config where
  "poll_config = \<lparr>sc_tasks = [poll_task], sc_leaseMs = Fin 60000, sc_graceMs = Fin 15000\<rparr>"

lemma poll_config_made: "createScheduler (\<lambda>_. None) 0 [poll_class] False None None = Inr poll_config"
  by (simp add: createScheduler_def task_duration_def opt_or_def DEFAULT_LEASE_MS_def DEFAULT_GRACE_MS_def
      runtimeTasks_def schedulesFor_def poll_class_def composedSchedules_def normalizedSchedule_def Let_def
      DEFAULT_TASK_TIMEOUT_MS_def MAX_TIMER_MS_def taskRuns_def runtime_task_of_def num_int_def poll_config_def
      poll_task_def DEFAULT_TIME_ZONE_def)


definition polling :: scheduler where
  "polling = tick False 1000 1000 (new_scheduler poll_config)"

lemma polling_reachable: "scheduler_reachable False poll_config polling"
  unfolding polling_def by (rule sr_next [OF sr_new ss_tick])


text \<open>
  C23: an interval is measured from completion to start: when a tick of a reachable scheduler launches an
  interval task whose last run ended at some time, at least the whole interval has passed since, and the
  launch happens exactly at the task's next instant.
\<close>
theorem intervals_run_completion_to_start:
  assumes "createScheduler zones start cs leases leaseMs graceMs = Inr c" and "scheduler_reachable leases c s"
    and "t \<in> set (sr_tasks s)" and "rt_trigger t = Every m" and "ts_ended t = Some ended"
    and "launches (ts_log (tickTask leases clock now t)) \<noteq> launches (ts_log t)"
  shows "rt_nextAt t = Some now \<and> ended + m \<le> now"
proof -
  have inv: "task_inv t"
    using scheduler_inv_reachable [OF assms(2) createScheduler_ok [OF assms(1)]] assms(3)
    by (simp add: scheduler_inv_def)
  have "rt_nextAt t = Some now"
    using tick_every_launches [OF inv assms(4), of leases clock now] assms(6) by (auto split: if_splits)
  then show ?thesis using inv assms(4,5) by (auto simp: task_inv_defs)
qed

definition polled_once :: task_state where
  "polled_once = finishRun False 1300 (invocation_settled True \<lparr>ar_scheduledFor = 1000, ar_stage = Invoking,
     ar_aborted = False, ar_timedOut = False\<rparr> (hd (sr_tasks polling)))"

lemmas polling_defs = polling_def tick_def new_scheduler_def poll_config_def starting_def runtime_task.extend_def
  poll_task_def tickTask_def tick_missed_def tick_due_def Let_def launch_def invoke_task_def observe_def
  finishRun_def invocation_settled_def update_task_def

theorem intervals_run_completion_to_start_witness:
  "rt_nextAt polled_once = Some 2300 \<and> (1300 :: int) + 1000 \<le> 2300"
proof -
  let ?r = "\<lparr>ar_scheduledFor = 1000, ar_stage = Invoking, ar_aborted = False, ar_timedOut = False\<rparr>"
  let ?t1 = "invocation_settled True ?r (hd (sr_tasks polling))"
  let ?s1 = "update_task 0 ?t1 polling"
  have len: "length (sr_tasks polling) = 1" by (simp add: polling_defs)
  have "run_step False (sr_tasks polling ! 0) ?t1"
    using rs_settled [of "sr_tasks polling ! 0" ?r False True] by (simp add: polling_defs)
  moreover have "sr_stopped polling = False" by (simp add: polling_defs)
  ultimately have 1: "scheduler_reachable False poll_config ?s1"
    using len by (intro sr_next [OF polling_reachable ss_run]) simp_all
  have "run_step False (sr_tasks ?s1 ! 0) polled_once"
    unfolding polled_once_def
    using rs_finished [of "sr_tasks ?s1 ! 0" "?r\<lparr>ar_stage := Releasing\<rparr>" False 1300] by (simp add: polling_defs)
  moreover have "sr_stopped ?s1 = False" "length (sr_tasks ?s1) = 1" by (simp_all add: polling_defs)
  ultimately have 2: "scheduler_reachable False poll_config (update_task 0 polled_once ?s1)"
    by (intro sr_next [OF 1 ss_run]) simp_all
  have mem: "polled_once \<in> set (sr_tasks (update_task 0 polled_once ?s1))" by (simp add: polling_defs)
  have "rt_trigger polled_once = Every 1000" "ts_ended polled_once = Some 1300"
    "launches (ts_log (tickTask False 2300 2300 polled_once)) \<noteq> launches (ts_log polled_once)"
    by (simp_all add: polled_once_def polling_defs)
  from intervals_run_completion_to_start [OF poll_config_made 2 mem this] show ?thesis by simp
qed

text \<open>
  C24: a loop that always wakes late never runs an interval task: if every wake-up comes some time after
  the task's next instant, however little, each one is reported as missed, the task is scheduled anew
  from there, and it is never launched.
\<close>
theorem late_wakeups_never_launch:
  assumes "createScheduler zones start cs leases leaseMs graceMs = Inr c" and "t \<in> set (map starting (sc_tasks c))"
    and "rt_trigger t = Every m" and "\<forall>d \<in> set delays. 0 < d"
  shows "launches (ts_log (wake_late leases delays t)) = [] \<and>
    length (filter (\<lambda>ob. \<exists>s. ob = Skipped s Missed) (ts_log (wake_late leases delays t))) = length delays"
proof -
  from assms(1,2) createScheduler_ok obtain r where t: "t = starting r" and fresh: "fresh_task start r"
    by (fastforce simp: tasks_ok_def)
  have "task_inv t" "\<not> rt_disabled t" "ts_log t = []"
    using fresh_starting [OF fresh] fresh
    by (simp_all add: t fresh_task_def starting_def runtime_task.extend_def)
  moreover obtain n where "rt_nextAt t = Some n"
    using fresh by (auto simp: t fresh_task_def starting_def runtime_task.extend_def)
  ultimately show ?thesis
    using wake_late_never_launches [of t m n delays leases] assms(3,4) by simp
qed

theorem late_wakeups_never_launch_witness:
  "launches (ts_log (wake_late False [1, 1, 2] (starting poll_task))) = []"
proof -
  have "starting poll_task \<in> set (map starting (sc_tasks poll_config))" by (simp add: poll_config_def)
  moreover have "rt_trigger (starting poll_task) = Every 1000"
    by (simp add: starting_def runtime_task.extend_def poll_task_def)
  ultimately show ?thesis
    using late_wakeups_never_launch [OF poll_config_made, of "starting poll_task" 1000 "[1, 1, 2]"] by simp
qed

end
