(* ===== verification/Effects.thy ===== *)
theory Effects
  imports Prelude
begin

section \<open>Effects that may throw\<close>

text \<open>
  An asynchronous function that is awaited where it is called runs to its end before its caller goes on.
  It is a function from the world it acts on to its result and the world it leaves, the latter also when
  it throws: \<open>('w, 'a) act\<close>. \<open>act_bind\<close> is the sequencing of two statements, \<open>act_catch\<close> a \<open>try\<close> block with
  a \<open>catch\<close> clause.
\<close>

type_synonym ('w, 'a) act = "'w \<Rightarrow> (js_error + 'a) \<times> 'w"

definition act_return :: "'a \<Rightarrow> ('w, 'a) act" where
  "act_return x w = (Inr x, w)"

definition act_throw :: "js_error \<Rightarrow> ('w, 'a) act" where
  "act_throw e w = (Inl e, w)"

definition act_lift :: "js_error + 'a \<Rightarrow> ('w, 'a) act" where
  "act_lift r w = (r, w)"

definition act_bind :: "('w, 'a) act \<Rightarrow> ('a \<Rightarrow> ('w, 'b) act) \<Rightarrow> ('w, 'b) act" where
  "act_bind m f w = (case m w of (Inl e, w') \<Rightarrow> (Inl e, w') | (Inr x, w') \<Rightarrow> f x w')"

definition act_catch :: "('w, 'a) act \<Rightarrow> (js_error \<Rightarrow> ('w, 'a) act) \<Rightarrow> ('w, 'a) act" where
  "act_catch m h w = (case m w of (Inl e, w') \<Rightarrow> h e w' | (Inr x, w') \<Rightarrow> (Inr x, w'))"

lemma act_bind_cong [fundef_cong]:
  "m = m' \<Longrightarrow> (\<And>x w w'. m' w = (Inr x, w') \<Longrightarrow> f x w' = f' x w') \<Longrightarrow> act_bind m f = act_bind m' f'"
  by (auto simp: act_bind_def fun_eq_iff split: prod.split sum.split)

named_theorems act_simps \<open>the outcome of a sequence of effects\<close>

lemma act_basics [simp]:
  "act_return x w = (Inr x, w)" "act_throw e w = (Inl e, w)" "act_lift r w = (r, w)"
  by (simp_all add: act_return_def act_throw_def act_lift_def)

lemma act_bind_Inr [act_simps]:
  "act_bind m f w = (Inr y, w') \<longleftrightarrow> (\<exists>x w1. m w = (Inr x, w1) \<and> f x w1 = (Inr y, w'))"
  by (auto simp: act_bind_def split: prod.splits sum.splits)

lemma act_bind_Inl [act_simps]:
  "act_bind m f w = (Inl e, w') \<longleftrightarrow> m w = (Inl e, w') \<or> (\<exists>x w1. m w = (Inr x, w1) \<and> f x w1 = (Inl e, w'))"
  by (auto simp: act_bind_def split: prod.splits sum.splits)

lemma act_catch_Inr [act_simps]:
  "act_catch m h w = (Inr y, w') \<longleftrightarrow> m w = (Inr y, w') \<or> (\<exists>e w1. m w = (Inl e, w1) \<and> h e w1 = (Inr y, w'))"
  by (auto simp: act_catch_def split: prod.splits sum.splits)

lemma act_catch_Inl [act_simps]:
  "act_catch m h w = (Inl e, w') \<longleftrightarrow> (\<exists>e' w1. m w = (Inl e', w1) \<and> h e' w1 = (Inl e, w'))"
  by (auto simp: act_catch_def split: prod.splits sum.splits)

subsection \<open>What an effect leaves alone\<close>

text \<open>\<open>keeps v m\<close>: however \<open>m\<close> ends, what \<open>v\<close> reads of the world is what it was.\<close>

definition keeps :: "('w \<Rightarrow> 'v) \<Rightarrow> ('w, 'a) act \<Rightarrow> bool" where
  "keeps v m \<longleftrightarrow> (\<forall>w. v (snd (m w)) = v w)"

lemma keepsI: "(\<And>w r w'. m w = (r, w') \<Longrightarrow> v w' = v w) \<Longrightarrow> keeps v m"
  unfolding keeps_def by (metis prod.collapse)

lemma keepsD: "keeps v m \<Longrightarrow> m w = (r, w') \<Longrightarrow> v w' = v w"
  unfolding keeps_def by (metis snd_conv)

lemma keeps_basics [simp]: "keeps v (act_return x)" "keeps v (act_throw e)" "keeps v (act_lift r)"
  by (simp_all add: keeps_def)

lemma keeps_Pair [simp]: "keeps v (Pair r)"
  by (simp add: keeps_def)

lemma keeps_bind [intro]: "keeps v m \<Longrightarrow> (\<And>x. keeps v (f x)) \<Longrightarrow> keeps v (act_bind m f)"
  by (auto simp: keeps_def act_bind_def split: prod.split sum.split) (metis snd_conv)+

lemma keeps_catch [intro]: "keeps v m \<Longrightarrow> (\<And>e. keeps v (h e)) \<Longrightarrow> keeps v (act_catch m h)"
  by (auto simp: keeps_def act_catch_def split: prod.split sum.split) (metis snd_conv)+

end
