(* ===== verification/MigrationRunner.thy ===== *)
theory MigrationRunner
  imports Effects Numbers Query
begin

section \<open>The migration runner\<close>

text \<open>
  \<open>packages/migrations/src/runner.ts\<close>. The world \<open>'w\<close> is the database behind the connection; the connection
  is the record of the effects the runner calls, its optional methods are options. A migration runs inside
  the transaction of the connection, which hands in the statements of its own connection or none. The
  \<open>cause\<close> of an error is not kept, only its message, which is what the code puts into its own.
\<close>

record migration =
  mi_version :: jsnum
  mi_name :: string
  mi_up :: string
  mi_down :: string

record applied_migration =
  am_version :: jsnum
  am_name :: string
  am_checksum :: "string option"

record 'w statements =
  st_exec :: "string \<Rightarrow> ('w, unit) act"
  st_recordApplied :: "jsnum \<Rightarrow> string \<Rightarrow> string option \<Rightarrow> ('w, unit) act"
  st_recordReverted :: "jsnum \<Rightarrow> ('w, unit) act"

record 'w connection =
  cn_dialect :: "string option"
  cn_transactionalDdl :: "bool option"
  cn_statements :: "'w statements"
  cn_appliedVersions :: "('w, jsnum list) act"
  cn_appliedMigrations :: "('w, applied_migration list) act option"
  cn_ensure :: "('w, unit) act option"
  cn_checksum :: "(string \<Rightarrow> ('w, string) act) option"
  cn_transaction :: "(('w statements option \<Rightarrow> ('w, unit) act) \<Rightarrow> ('w, unit) act) option"

fun error_message :: "js_error \<Rightarrow> string" where
  "error_message (TypeError m) = m"
| "error_message (RangeError m) = m"
| "error_message (PlainError m) = m"
| "error_message (UnsupportedFeature feature d) =
     feature @ '' is not supported on dialect '' @ CHR 0x22 # d @ [CHR 0x22]"
| "error_message (UnsupportedWith feature d m) = m"
| "error_message (ValidationError m) = m"

definition nl :: string where "nl = [CHR 0x0A]"

definition DEFAULT_VERSION_TABLE :: string where
  "DEFAULT_VERSION_TABLE = ''CREATE TABLE IF NOT EXISTS _zmdb_migrations ('' @ nl @
     ''  version INTEGER PRIMARY KEY,'' @ nl @ ''  name TEXT NOT NULL,'' @ nl @
     ''  applied_at INTEGER NOT NULL,'' @ nl @ ''  checksum TEXT'' @ nl @ '')''"

definition nonTransactionalDdlWarning :: "string option \<Rightarrow> string" where
  "nonTransactionalDdlWarning d = (case d of None \<Rightarrow> ''the configured database'' | Some n \<Rightarrow> n) @
     '' does not support transactional DDL; a failed migration may leave its schema changes '' @
     ''partially applied even though its ledger row is absent''"

subsection \<open>Checks\<close>

definition max_safe :: int where "max_safe = 9007199254740991"

fun is_safe_version :: "jsnum \<Rightarrow> bool" where
  "is_safe_version (IntNum i) = (\<bar>i\<bar> \<le> max_safe)"
| "is_safe_version _ = False"

fun unique_versions :: "jsnum list \<Rightarrow> migration list \<Rightarrow> js_error + unit" where
  "unique_versions seen [] = Inr ()"
| "unique_versions seen (m # ms) =
     (if \<not> is_safe_version (mi_version m)
      then Inl (TypeError (''migration '' @ mi_name m @ '' version '' @ show_num (mi_version m) @ '' is not a safe integer''))
      else if mi_version m \<in> set seen
      then Inl (PlainError (''duplicate migration version '' @ show_num (mi_version m)))
      else unique_versions (mi_version m # seen) ms)"

definition assertUniqueVersions :: "migration list \<Rightarrow> js_error + unit" where
  "assertUniqueVersions ms = unique_versions [] ms"

text \<open>The difference of two versions is not positive; a difference that is not a number counts as zero.\<close>

fun version_le :: "jsnum \<Rightarrow> jsnum \<Rightarrow> bool" where
  "version_le (IntNum a) (IntNum b) = (a \<le> b)"
| "version_le _ _ = True"

definition byVersion :: "migration \<Rightarrow> migration \<Rightarrow> bool" where
  "byVersion l r = version_le (mi_version l) (mi_version r)"

definition migrationFailure :: "bool \<Rightarrow> migration \<Rightarrow> js_error \<Rightarrow> js_error" where
  "migrationFailure applying m e =
     PlainError (''failed to '' @ (if applying then ''apply'' else ''revert'') @ '' migration '' @
       show_num (mi_version m) @ '' '' @ mi_name m @ '': '' @ error_message e @ nl @ ''SQL:'' @ nl @
       (if applying then mi_up m else mi_down m))"

subsection \<open>The ledger\<close>

definition ensureVersionTable :: "'w connection \<Rightarrow> ('w, unit) act" where
  "ensureVersionTable conn = (case cn_ensure conn of
     Some ensure \<Rightarrow> ensure
   | None \<Rightarrow> st_exec (cn_statements conn) DEFAULT_VERSION_TABLE)"

definition ledger_rows :: "'w connection \<Rightarrow> ('w, applied_migration list) act" where
  "ledger_rows conn = (case cn_appliedMigrations conn of
     None \<Rightarrow> act_bind (cn_appliedVersions conn) (\<lambda>versions.
       act_return (map (\<lambda>v. \<lparr>am_version = v, am_name = [], am_checksum = None\<rparr>) versions))
   | Some read \<Rightarrow> read)"

definition verify_row :: "'w connection \<Rightarrow> migration list \<Rightarrow> applied_migration \<Rightarrow> ('w, unit) act" where
  "verify_row conn ms row = (case am_checksum row of
     None \<Rightarrow> act_return ()
   | Some recorded \<Rightarrow> (case map_of (new_map (map (\<lambda>m. (mi_version m, m)) ms)) (am_version row) of
       None \<Rightarrow> act_return ()
     | Some m \<Rightarrow> (case cn_checksum conn of
         None \<Rightarrow> act_throw (PlainError (''migration '' @ show_num (am_version row) @ '' '' @ mi_name m @
           '' has a checksum, but this connection cannot verify it''))
       | Some checksum \<Rightarrow> act_bind (checksum (mi_up m)) (\<lambda>actual.
           if actual \<noteq> recorded
           then act_throw (PlainError (''migration '' @ show_num (am_version row) @ '' '' @ mi_name m @
             '' was edited after it was applied: ledger has '' @ recorded @ '', file has '' @ actual))
           else act_return ()))))"

fun verify_rows :: "'w connection \<Rightarrow> migration list \<Rightarrow> applied_migration list \<Rightarrow> ('w, unit) act" where
  "verify_rows conn ms [] = act_return ()"
| "verify_rows conn ms (row # rows) = act_bind (verify_row conn ms row) (\<lambda>_. verify_rows conn ms rows)"

definition verifiedLedger :: "'w connection \<Rightarrow> migration list \<Rightarrow> ('w, applied_migration list) act" where
  "verifiedLedger conn ms = act_bind (ledger_rows conn) (\<lambda>rows.
     act_bind (verify_rows conn ms rows) (\<lambda>_. act_return rows))"

subsection \<open>\<open>up\<close>, \<open>down\<close>, \<open>downTo\<close>, \<open>status\<close>\<close>

definition inTransaction :: "'w connection \<Rightarrow> ('w statements \<Rightarrow> ('w, unit) act) \<Rightarrow> ('w, unit) act" where
  "inTransaction conn run = (case cn_transaction conn of
     None \<Rightarrow> run (cn_statements conn)
   | Some transaction \<Rightarrow> transaction (\<lambda>st. run (case st of None \<Rightarrow> cn_statements conn | Some s \<Rightarrow> s)))"

definition apply_body :: "migration \<Rightarrow> string option \<Rightarrow> 'w statements \<Rightarrow> ('w, unit) act" where
  "apply_body m checksum st = act_bind (st_exec st (mi_up m)) (\<lambda>_.
     st_recordApplied st (mi_version m) (mi_name m) checksum)"

definition apply_one :: "'w connection \<Rightarrow> migration \<Rightarrow> ('w, unit) act" where
  "apply_one conn m = act_bind (case cn_checksum conn of
       None \<Rightarrow> act_return None
     | Some checksum \<Rightarrow> act_bind (checksum (mi_up m)) (\<lambda>c. act_return (Some c))) (\<lambda>checksum.
     act_catch (inTransaction conn (apply_body m checksum)) (\<lambda>e. act_throw (migrationFailure True m e)))"

fun apply_pending :: "'w connection \<Rightarrow> migration list \<Rightarrow> jsnum list \<Rightarrow> ('w, jsnum list) act" where
  "apply_pending conn [] finished = act_return finished"
| "apply_pending conn (m # ms) finished =
     act_bind (apply_one conn m) (\<lambda>_. apply_pending conn ms (finished @ [mi_version m]))"

definition pending_migrations :: "applied_migration list \<Rightarrow> migration list \<Rightarrow> migration list" where
  "pending_migrations ledger ms = sort_by byVersion (filter (\<lambda>m. mi_version m \<notin> set (map am_version ledger)) ms)"

definition warn_up :: "'w connection \<Rightarrow> (string \<Rightarrow> ('w, unit) act) option \<Rightarrow> migration list \<Rightarrow> ('w, unit) act" where
  "warn_up conn onWarning todo =
     (if todo \<noteq> [] \<and> cn_transactionalDdl conn = Some False
      then (case onWarning of None \<Rightarrow> act_return () | Some f \<Rightarrow> f (nonTransactionalDdlWarning (cn_dialect conn)))
      else act_return ())"

definition up :: "'w connection \<Rightarrow> migration list \<Rightarrow> (string \<Rightarrow> ('w, unit) act) option \<Rightarrow> ('w, jsnum list) act" where
  "up conn ms onWarning = act_bind (act_lift (assertUniqueVersions ms)) (\<lambda>_.
     act_bind (ensureVersionTable conn) (\<lambda>_.
     act_bind (verifiedLedger conn ms) (\<lambda>ledger.
       let todo = pending_migrations ledger ms in
       act_bind (warn_up conn onWarning todo) (\<lambda>_. apply_pending conn todo []))))"

definition revert_body :: "migration \<Rightarrow> jsnum \<Rightarrow> 'w statements \<Rightarrow> ('w, unit) act" where
  "revert_body m version st = act_bind (st_exec st (mi_down m)) (\<lambda>_. st_recordReverted st version)"

definition revert_row :: "'w connection \<Rightarrow> migration list \<Rightarrow> applied_migration \<Rightarrow> ('w, jsnum) act" where
  "revert_row conn ms latest = (case find (\<lambda>m. mi_version m = am_version latest) ms of
     None \<Rightarrow> act_throw (PlainError (''no migration definition for applied version '' @ show_num (am_version latest)))
   | Some m \<Rightarrow>
       if trim (mi_down m) = []
       then act_throw (PlainError (''migration '' @ show_num (mi_version m) @ '' '' @ mi_name m @
         '' has no -- zmdb:down section''))
       else act_bind (act_catch (inTransaction conn (revert_body m (am_version latest)))
           (\<lambda>e. act_throw (migrationFailure False m e)))
         (\<lambda>_. act_return (am_version latest)))"

definition down :: "'w connection \<Rightarrow> migration list \<Rightarrow> ('w, jsnum option) act" where
  "down conn ms = act_bind (act_lift (assertUniqueVersions ms)) (\<lambda>_.
     act_bind (ensureVersionTable conn) (\<lambda>_.
     act_bind (verifiedLedger conn ms) (\<lambda>ledger.
       case sort_by (\<lambda>l r. version_le (am_version r) (am_version l)) ledger of
         [] \<Rightarrow> act_return None
       | latest # _ \<Rightarrow> act_bind (revert_row conn ms latest) (\<lambda>v. act_return (Some v)))))"

record migration_status =
  ms_version :: jsnum
  ms_name :: string
  ms_applied :: bool

definition status :: "'w connection \<Rightarrow> migration list \<Rightarrow> ('w, migration_status list) act" where
  "status conn ms = act_bind (act_lift (assertUniqueVersions ms)) (\<lambda>_.
     act_bind (ensureVersionTable conn) (\<lambda>_.
     act_bind (verifiedLedger conn ms) (\<lambda>ledger.
       act_return (map (\<lambda>m. \<lparr>ms_version = mi_version m, ms_name = mi_name m,
           ms_applied = mi_version m \<in> set (map am_version ledger)\<rparr>) (sort_by byVersion ms)))))"

text \<open>\<open>latest <= target\<close>; a target that is not a number is never reached.\<close>

fun at_most :: "jsnum \<Rightarrow> number \<Rightarrow> bool" where
  "at_most (IntNum a) target = num_le (Fin (of_int a)) target"
| "at_most _ _ = False"

text \<open>
  The loop of \<open>downTo\<close> runs until the ledger has nothing above the target. The first argument bounds its
  turns, \<open>None\<close> says that they were not enough.
\<close>

fun downTo ::
  "nat \<Rightarrow> 'w connection \<Rightarrow> migration list \<Rightarrow> number \<Rightarrow> jsnum list \<Rightarrow> 'w \<Rightarrow> ((js_error + jsnum list) \<times> 'w) option"
  where
  "downTo 0 conn ms target reverted w = None"
| "downTo (Suc n) conn ms target reverted w =
     (case status conn ms w of
        (Inl e, w1) \<Rightarrow> Some (Inl e, w1)
      | (Inr items, w1) \<Rightarrow>
          let applied = map ms_version (filter ms_applied items) in
          if applied = [] \<or> at_most (last applied) target then Some (Inr reverted, w1)
          else (case down conn ms w1 of
             (Inl e, w2) \<Rightarrow> Some (Inl e, w2)
           | (Inr None, w2) \<Rightarrow> Some (Inr reverted, w2)
           | (Inr (Some v), w2) \<Rightarrow> downTo n conn ms target (reverted @ [v]) w2))"

end
