(* ===== verification/MigrationLedger.thy ===== *)
theory MigrationLedger
  imports MigrationRunner
begin

section \<open>What the runner relies on, and what it does to the ledger\<close>

text \<open>
  The contract of a connection: \<open>view\<close> reads the schema of the database and its ledger, \<open>run\<close> is what an SQL
  text does to the schema when it succeeds, \<open>digest\<close> is the checksum. A statement that fails may leave a part
  of its schema changes behind; a transaction leaves all of its body or nothing.
\<close>

definition statements_contract ::
  "(string \<Rightarrow> 's \<Rightarrow> 's) \<Rightarrow> ('w \<Rightarrow> 's \<times> applied_migration list) \<Rightarrow> 'w statements \<Rightarrow> bool" where
  "statements_contract run view st \<longleftrightarrow>
     (\<forall>sql w w'. st_exec st sql w = (Inr (), w') \<longrightarrow> view w' = (run sql (fst (view w)), snd (view w))) \<and>
     (\<forall>sql w e w'. st_exec st sql w = (Inl e, w') \<longrightarrow> snd (view w') = snd (view w)) \<and>
     (\<forall>v n c w w'. st_recordApplied st v n c w = (Inr (), w') \<longrightarrow> fst (view w') = fst (view w) \<and>
        mset (snd (view w')) = add_mset \<lparr>am_version = v, am_name = n, am_checksum = c\<rparr> (mset (snd (view w)))) \<and>
     (\<forall>v n c w e w'. st_recordApplied st v n c w = (Inl e, w') \<longrightarrow> view w' = view w) \<and>
     (\<forall>v w w'. st_recordReverted st v w = (Inr (), w') \<longrightarrow>
        view w' = (fst (view w), filter (\<lambda>r. am_version r \<noteq> v) (snd (view w)))) \<and>
     (\<forall>v w e w'. st_recordReverted st v w = (Inl e, w') \<longrightarrow> view w' = view w)"

definition transaction_contract ::
  "(string \<Rightarrow> 's \<Rightarrow> 's) \<Rightarrow> ('w \<Rightarrow> 's \<times> applied_migration list) \<Rightarrow>
   (('w statements option \<Rightarrow> ('w, unit) act) \<Rightarrow> ('w, unit) act) \<Rightarrow> bool" where
  "transaction_contract run view tx \<longleftrightarrow>
     (\<forall>body w w'. tx body w = (Inr (), w') \<longrightarrow> (\<exists>st w0 w1. (\<forall>s. st = Some s \<longrightarrow> statements_contract run view s) \<and>
        view w0 = view w \<and> body st w0 = (Inr (), w1) \<and> view w' = view w1)) \<and>
     (\<forall>body w e w'. tx body w = (Inl e, w') \<longrightarrow> view w' = view w)"

definition connection_contract ::
  "(string \<Rightarrow> 's \<Rightarrow> 's) \<Rightarrow> (string \<Rightarrow> string) \<Rightarrow> ('w \<Rightarrow> 's \<times> applied_migration list) \<Rightarrow> 'w connection \<Rightarrow> bool" where
  "connection_contract run digest view conn \<longleftrightarrow> statements_contract run view (cn_statements conn) \<and>
     (\<forall>tx. cn_transaction conn = Some tx \<longrightarrow> transaction_contract run view tx) \<and>
     keeps view (ensureVersionTable conn) \<and> keeps view (ledger_rows conn) \<and>
     (\<forall>w rs w'. ledger_rows conn w = (Inr rs, w') \<longrightarrow> rs = snd (view w)) \<and>
     (\<forall>f sql. cn_checksum conn = Some f \<longrightarrow> keeps view (f sql) \<and> (\<forall>w c w'. f sql w = (Inr c, w') \<longrightarrow> c = digest sql))"

lemma contract_parts:
  assumes "connection_contract run digest view conn"
  shows "statements_contract run view (cn_statements conn)"
    and "cn_transaction conn = Some tx \<Longrightarrow> transaction_contract run view tx"
    and "keeps view (ensureVersionTable conn)" and "keeps view (ledger_rows conn)"
    and "ledger_rows conn w = (Inr rs, w') \<Longrightarrow> rs = snd (view w)"
    and "cn_checksum conn = Some f \<Longrightarrow> keeps view (f sql)"
    and "cn_checksum conn = Some f \<Longrightarrow> f sql w = (Inr c, w') \<Longrightarrow> c = digest sql"
  using assms unfolding connection_contract_def by blast+

lemma statementsD:
  assumes "statements_contract run view st"
  shows "st_exec st sql w = (Inr (), w') \<Longrightarrow> view w' = (run sql (fst (view w)), snd (view w))"
    and "st_recordApplied st v n c w = (Inr (), w') \<Longrightarrow> fst (view w') = fst (view w) \<and>
      mset (snd (view w')) = add_mset \<lparr>am_version = v, am_name = n, am_checksum = c\<rparr> (mset (snd (view w)))"
    and "st_recordReverted st v w = (Inr (), w') \<Longrightarrow> view w' = (fst (view w), filter (\<lambda>r. am_version r \<noteq> v) (snd (view w)))"
  using assms by (simp_all add: statements_contract_def)

subsection \<open>One migration\<close>

lemma inTransaction_runs:
  assumes C: "connection_contract run digest view conn" and r: "inTransaction conn body w = (Inr (), w')"
  obtains s w0 w1 where "statements_contract run view s" "view w0 = view w" "body s w0 = (Inr (), w1)" "view w' = view w1"
proof (cases "cn_transaction conn")
  case None
  with r that [of "cn_statements conn" w w'] contract_parts(1) [OF C] show ?thesis by (simp add: inTransaction_def)
next
  case (Some tx)
  let ?body = "\<lambda>st. body (case st of None \<Rightarrow> cn_statements conn | Some s \<Rightarrow> s)"
  have "tx ?body w = (Inr (), w')" using r Some by (simp add: inTransaction_def)
  then obtain st w0 w1 where st: "\<forall>s. st = Some s \<longrightarrow> statements_contract run view s" "view w0 = view w"
    "?body st w0 = (Inr (), w1)" "view w' = view w1"
    using contract_parts(2) [OF C Some] unfolding transaction_contract_def by blast
  have "statements_contract run view (case st of None \<Rightarrow> cn_statements conn | Some s \<Rightarrow> s)"
    using st(1) contract_parts(1) [OF C] by (cases st) simp_all
  with st(2-4) that show ?thesis by blast
qed

lemma inTransaction_fails:
  assumes "connection_contract run digest view conn" and "cn_transaction conn = Some tx"
    and "inTransaction conn body w = (Inl e, w')"
  shows "view w' = view w"
  using assms contract_parts(2) [OF assms(1,2)] by (simp add: inTransaction_def transaction_contract_def)

definition recorded :: "migration \<Rightarrow> string option \<Rightarrow> applied_migration" where
  "recorded m c = \<lparr>am_version = mi_version m, am_name = mi_name m, am_checksum = c\<rparr>"

lemma checksum_keeps:
  assumes "connection_contract run digest view conn"
    and "(case cn_checksum conn of None \<Rightarrow> act_return None
       | Some f \<Rightarrow> act_bind (f sql) (\<lambda>c. act_return (Some c))) w = (r, w')"
  shows "view w' = view w" and "r = Inr c \<Longrightarrow> c = map_option (\<lambda>_. digest sql) (cn_checksum conn)"
proof -
  have "view w' = view w \<and> (r = Inr c \<longrightarrow> c = map_option (\<lambda>_. digest sql) (cn_checksum conn))"
  proof (cases "cn_checksum conn")
    case (Some f)
    note keep = contract_parts(6) [OF assms(1) Some, of sql] and dig = contract_parts(7) [OF assms(1) Some, of sql]
    show ?thesis using assms(2) keepsD [OF keep] dig by (cases r) (auto simp: Some act_simps)
  qed (use assms(2) in auto)
  then show "view w' = view w" "r = Inr c \<Longrightarrow> c = map_option (\<lambda>_. digest sql) (cn_checksum conn)" by blast+
qed

lemma apply_one_applies:
  assumes C: "connection_contract run digest view conn" and r: "apply_one conn m w = (Inr (), w')"
  shows "fst (view w') = run (mi_up m) (fst (view w))"
    and "mset (snd (view w')) = add_mset (recorded m (map_option (\<lambda>_. digest (mi_up m)) (cn_checksum conn))) (mset (snd (view w)))"
proof -
  obtain c w1 where c: "(case cn_checksum conn of None \<Rightarrow> act_return None
      | Some f \<Rightarrow> act_bind (f (mi_up m)) (\<lambda>c. act_return (Some c))) w = (Inr c, w1)"
    and b: "inTransaction conn (apply_body m c) w1 = (Inr (), w')"
    using r by (auto simp: apply_one_def act_simps)
  obtain s w2 w3 where s: "statements_contract run view s" "view w2 = view w1" "apply_body m c s w2 = (Inr (), w3)" "view w' = view w3"
    by (rule inTransaction_runs [OF C b])
  then obtain w4 where "st_exec s (mi_up m) w2 = (Inr (), w4)" "st_recordApplied s (mi_version m) (mi_name m) c w4 = (Inr (), w3)"
    by (auto simp: apply_body_def act_simps)
  with statementsD [OF s(1)] checksum_keeps [OF C c] s(2,4)
  show "fst (view w') = run (mi_up m) (fst (view w))"
    "mset (snd (view w')) = add_mset (recorded m (map_option (\<lambda>_. digest (mi_up m)) (cn_checksum conn))) (mset (snd (view w)))"
    by (fastforce simp: recorded_def)+
qed

lemma apply_one_fails:
  assumes C: "connection_contract run digest view conn" and tx: "cn_transaction conn \<noteq> None"
    and r: "apply_one conn m w = (Inl e, w')"
  shows "view w' = view w"
proof -
  obtain t where t: "cn_transaction conn = Some t" using tx by blast
  let ?sum = "case cn_checksum conn of None \<Rightarrow> act_return None | Some f \<Rightarrow> act_bind (f (mi_up m)) (\<lambda>c. act_return (Some c))"
  from r consider "?sum w = (Inl e, w')" |
    c e' w1 where "?sum w = (Inr c, w1)" "inTransaction conn (apply_body m c) w1 = (Inl e', w')"
    by (auto simp: apply_one_def act_simps)
  then show ?thesis
    by cases (simp_all add: checksum_keeps(1) [OF C] inTransaction_fails [OF C t])
qed

subsection \<open>The pending migrations\<close>

definition applied_by :: "(string \<Rightarrow> 's \<Rightarrow> 's) \<Rightarrow> migration list \<Rightarrow> 's \<Rightarrow> 's" where
  "applied_by run ms s = fold (\<lambda>m. run (mi_up m)) ms s"

definition ledger_versions :: "applied_migration list \<Rightarrow> jsnum multiset" where
  "ledger_versions rows = image_mset am_version (mset rows)"

definition ledger_after :: "(string \<Rightarrow> string) \<Rightarrow> 'w connection \<Rightarrow> migration list \<Rightarrow> applied_migration multiset" where
  "ledger_after digest conn ms =
     mset (map (\<lambda>m. recorded m (map_option (\<lambda>_. digest (mi_up m)) (cn_checksum conn))) ms)"

lemma apply_pending_applies:
  assumes C: "connection_contract run digest view conn"
  shows "apply_pending conn ms finished w = (Inr r, w') \<Longrightarrow> r = finished @ map mi_version ms \<and>
    fst (view w') = applied_by run ms (fst (view w)) \<and> mset (snd (view w')) = mset (snd (view w)) + ledger_after digest conn ms"
proof (induction ms arbitrary: finished w)
  case Nil
  then show ?case by (simp add: applied_by_def ledger_after_def)
next
  case (Cons m ms)
  then obtain w1 where w1: "apply_one conn m w = (Inr (), w1)" "apply_pending conn ms (finished @ [mi_version m]) w1 = (Inr r, w')"
    by (auto simp: act_simps)
  from Cons.IH [OF w1(2)] apply_one_applies [OF C w1(1)] show ?case by (simp add: applied_by_def ledger_after_def)
qed

text \<open>A failure leaves the database as it was after the migrations that came before.\<close>

lemma apply_pending_fails:
  assumes C: "connection_contract run digest view conn" and tx: "cn_transaction conn \<noteq> None"
  shows "apply_pending conn ms finished w = (Inl e, w') \<Longrightarrow> \<exists>k < length ms.
    fst (view w') = applied_by run (take k ms) (fst (view w)) \<and>
    mset (snd (view w')) = mset (snd (view w)) + ledger_after digest conn (take k ms)"
proof (induction ms arbitrary: finished w)
  case (Cons m ms)
  then consider "apply_one conn m w = (Inl e, w')" |
    w1 where "apply_one conn m w = (Inr (), w1)" "apply_pending conn ms (finished @ [mi_version m]) w1 = (Inl e, w')"
    by (auto simp: act_simps)
  then show ?case
  proof cases
    case 1
    from apply_one_fails [OF C tx this] show ?thesis by (intro exI [of _ 0]) (simp add: applied_by_def ledger_after_def)
  next
    case 2
    from Cons.IH [OF 2(2)] obtain k where k: "k < length ms"
      "fst (view w') = applied_by run (take k ms) (fst (view w1))"
      "mset (snd (view w')) = mset (snd (view w1)) + ledger_after digest conn (take k ms)" by blast
    with apply_one_applies [OF C 2(1)] show ?thesis
      by (intro exI [of _ "Suc k"]) (simp add: applied_by_def ledger_after_def)
  qed
qed simp

subsection \<open>Versions\<close>

lemma unique_versions_ok: "unique_versions seen ms = Inr () \<longleftrightarrow>
    (\<forall>m \<in> set ms. is_safe_version (mi_version m)) \<and> distinct (map mi_version ms) \<and> set seen \<inter> mi_version ` set ms = {}"
  by (induction ms arbitrary: seen) auto

definition whole :: "jsnum \<Rightarrow> bool" where
  "whole v \<longleftrightarrow> (\<exists>i. v = IntNum i)"

fun version_int :: "jsnum \<Rightarrow> int" where
  "version_int (IntNum i) = i"
| "version_int _ = 0"

lemma unique_versions_whole:
  "assertUniqueVersions ms = Inr () \<Longrightarrow> (\<forall>m \<in> set ms. whole (mi_version m)) \<and> distinct (map mi_version ms)"
proof -
  have "is_safe_version v \<Longrightarrow> whole v" for v by (cases v) (simp_all add: whole_def)
  then show "assertUniqueVersions ms = Inr () \<Longrightarrow> ?thesis" by (simp add: assertUniqueVersions_def unique_versions_ok)
qed

lemma version_le_whole: "whole a \<Longrightarrow> whole b \<Longrightarrow> version_le a b \<longleftrightarrow> version_int a \<le> version_int b"
  by (auto simp: whole_def)

lemma whole_eq: "whole a \<Longrightarrow> whole b \<Longrightarrow> version_int a = version_int b \<longleftrightarrow> a = b"
  by (auto simp: whole_def)

lemma sorted_versions:
  assumes "\<forall>x \<in> set xs. whole (f x)"
  shows "sorted (map (version_int \<circ> f) (sort_by (\<lambda>a b. version_le (f a) (f b)) xs))"
proof -
  have "sorted_wrt (\<lambda>a b. version_le (f a) (f b)) (sort_by (\<lambda>a b. version_le (f a) (f b)) xs)"
    using assms by (intro sorted_sort_by [of "set xs"])
      (auto simp: transp_on_def totalp_on_def reflp_on_def version_le_whole)
  then show ?thesis unfolding sorted_map by (rule sorted_wrt_mono_rel [rotated]) (use assms in \<open>simp add: version_le_whole\<close>)
qed

text \<open>\<open>sound_ledger\<close>: the versions in the ledger are whole numbers, each at most once.\<close>

definition sound_ledger :: "applied_migration list \<Rightarrow> bool" where
  "sound_ledger rows \<longleftrightarrow> distinct (map am_version rows) \<and> (\<forall>r \<in> set rows. whole (am_version r))"

lemma sound_ledger_mset: "mset rows = mset rows' \<Longrightarrow> sound_ledger rows = sound_ledger rows'"
  by (simp add: sound_ledger_def) (metis mset_eq_imp_distinct_iff mset_map mset_eq_setD)

lemma pending_facts:
  assumes "assertUniqueVersions ms = Inr ()"
  shows "set (pending_migrations rows ms) = {m \<in> set ms. mi_version m \<notin> am_version ` set rows}"
    and "sorted_wrt (<) (map (version_int \<circ> mi_version) (pending_migrations rows ms))"
    and "distinct (map mi_version (pending_migrations rows ms))"
proof -
  note ms = unique_versions_whole [OF assms]
  let ?f = "filter (\<lambda>m. mi_version m \<notin> set (map am_version rows)) ms"
  have w: "\<forall>m \<in> set ?f. whole (mi_version m)" using ms by simp
  show d: "distinct (map mi_version (pending_migrations rows ms))"
    using ms by (simp add: pending_migrations_def distinct_map_filter)
  show "set (pending_migrations rows ms) = {m \<in> set ms. mi_version m \<notin> am_version ` set rows}"
    by (auto simp: pending_migrations_def)
  have "sorted (map (version_int \<circ> mi_version) (pending_migrations rows ms))"
    using sorted_versions [OF w] by (simp add: pending_migrations_def byVersion_def [abs_def])
  moreover have "inj_on (version_int \<circ> mi_version) (set (pending_migrations rows ms))"
  proof (rule inj_onI)
    fix x y assume "x \<in> set (pending_migrations rows ms)" "y \<in> set (pending_migrations rows ms)"
      "(version_int \<circ> mi_version) x = (version_int \<circ> mi_version) y"
    moreover have "set (pending_migrations rows ms) \<subseteq> set ms" by (auto simp: pending_migrations_def)
    ultimately have "mi_version x = mi_version y" using ms whole_eq by (metis comp_apply subsetD)
    then show "x = y" using d \<open>x \<in> _\<close> \<open>y \<in> _\<close> by (metis distinct_map inj_onD)
  qed
  then have "distinct (map (version_int \<circ> mi_version) (pending_migrations rows ms))"
    using d by (simp add: distinct_map)
  ultimately show "sorted_wrt (<) (map (version_int \<circ> mi_version) (pending_migrations rows ms))"
    by (simp add: strict_sorted_iff)
qed

subsection \<open>Verification of the ledger\<close>

definition edited :: "(string \<Rightarrow> string) \<Rightarrow> migration list \<Rightarrow> applied_migration \<Rightarrow> bool" where
  "edited digest ms row \<longleftrightarrow> (\<exists>m c. m \<in> set ms \<and> mi_version m = am_version row \<and> am_checksum row = Some c \<and> digest (mi_up m) \<noteq> c)"

lemma named_migration:
  assumes "distinct (map mi_version ms)"
  shows "map_of (new_map (map (\<lambda>m. (mi_version m, m)) ms)) v = Some m \<longleftrightarrow> m \<in> set ms \<and> mi_version m = v"
proof -
  have "distinct (map fst (map (\<lambda>m. (mi_version m, m)) ms))" using assms by (simp add: comp_def)
  then show ?thesis using map_of_eq_Some_iff by (fastforce simp: new_map_distinct)
qed

lemma verify_row_keeps:
  assumes C: "connection_contract run digest view conn"
  shows "keeps view (verify_row conn ms row)"
  unfolding verify_row_def using contract_parts(6) [OF C]
  by (auto split: option.split)

lemma verify_rows_keeps:
  assumes C: "connection_contract run digest view conn"
  shows "keeps view (verify_rows conn ms rows)"
  by (induction rows) (auto intro!: verify_row_keeps [OF C])

lemma verify_row_ok:
  assumes C: "connection_contract run digest view conn" and "distinct (map mi_version ms)"
    and "verify_row conn ms row w = (Inr (), w')"
  shows "\<not> edited digest ms row"
proof
  assume "edited digest ms row"
  then obtain m c where m: "m \<in> set ms" "mi_version m = am_version row" "am_checksum row = Some c" "digest (mi_up m) \<noteq> c"
    unfolding edited_def by blast
  then have l: "map_of (new_map (map (\<lambda>m. (mi_version m, m)) ms)) (am_version row) = Some m"
    using named_migration [OF assms(2)] by blast
  show False
  proof (cases "cn_checksum conn")
    case (Some f)
    with assms(3) l m contract_parts(7) [OF C Some, of "mi_up m"] show False
      by (auto simp: verify_row_def act_simps split: if_splits)
  qed (use assms(3) l m in \<open>simp add: verify_row_def\<close>)
qed

lemma verify_rows_ok:
  assumes C: "connection_contract run digest view conn" and "distinct (map mi_version ms)"
  shows "verify_rows conn ms rows w = (Inr (), w') \<Longrightarrow> \<forall>r \<in> set rows. \<not> edited digest ms r"
  by (induction rows arbitrary: w) (auto simp: act_simps dest: verify_row_ok [OF C assms(2)])

lemma verifiedLedger_keeps:
  assumes C: "connection_contract run digest view conn"
  shows "keeps view (verifiedLedger conn ms)"
  unfolding verifiedLedger_def by (intro keeps_bind contract_parts(4) [OF C] verify_rows_keeps [OF C]) simp

lemma verifiedLedger_rows:
  assumes C: "connection_contract run digest view conn" and "distinct (map mi_version ms)"
    and r: "verifiedLedger conn ms w = (Inr rows, w')"
  shows "rows = snd (view w)" and "\<forall>r \<in> set rows. \<not> edited digest ms r"
proof -
  obtain w1 where "ledger_rows conn w = (Inr rows, w1)" "verify_rows conn ms rows w1 = (Inr (), w')"
    using r by (auto simp: verifiedLedger_def act_simps)
  then show "rows = snd (view w)" "\<forall>r \<in> set rows. \<not> edited digest ms r"
    using contract_parts(5) [OF C] verify_rows_ok [OF C assms(2)] by blast+
qed

end
