(* ===== verification/RunnerProperties.thy ===== *)
theory RunnerProperties
  imports MigrationLedger
begin

section \<open>Properties of the migration runner\<close>

subsection \<open>The four verbs in steps\<close>

text \<open>The warning callback does not touch the database.\<close>

definition silent :: "('w \<Rightarrow> 'v) \<Rightarrow> (string \<Rightarrow> ('w, unit) act) option \<Rightarrow> bool" where
  "silent view onWarning \<longleftrightarrow> (\<forall>f msg. onWarning = Some f \<longrightarrow> keeps view (f msg))"

lemma silent_None [simp]: "silent view None"
  by (simp add: silent_def)

lemma up_steps:
  assumes C: "connection_contract run digest view conn" and W: "silent view onWarning"
    and unique: "assertUniqueVersions ms = Inr ()"
    and r: "up conn ms onWarning w = (r, w')"
  obtains (early) e where "r = Inl e" "view w' = view w"
    | (applying) w1 where "view w1 = view w" "\<forall>row \<in> set (snd (view w)). \<not> edited digest ms row"
      "apply_pending conn (pending_migrations (snd (view w)) ms) [] w1 = (r, w')"
proof -
  have dist: "distinct (map mi_version ms)" using unique_versions_whole [OF unique] by blast
  obtain r1 w1 where 1: "ensureVersionTable conn w = (r1, w1)" by fastforce
  obtain r2 w2 where 2: "verifiedLedger conn ms w1 = (r2, w2)" by fastforce
  have v1: "view w1 = view w" by (rule keepsD [OF contract_parts(3) [OF C] 1])
  have v2: "view w2 = view w" using keepsD [OF verifiedLedger_keeps [OF C] 2] v1 by simp
  show ?thesis
  proof (cases r1)
    case (Inl e)
    then show ?thesis using r 1 v1 unique by (intro early [of e]) (auto simp: up_def act_bind_def)
  next
    case (Inr u)
    show ?thesis
    proof (cases r2)
      case (Inl e)
      then show ?thesis using r 1 2 Inr v2 unique by (intro early [of e]) (auto simp: up_def act_bind_def)
    next
      case r2: (Inr rows)
      note rows = verifiedLedger_rows [OF C dist 2 [unfolded r2]]
      let ?todo = "pending_migrations rows ms"
      obtain r3 w3 where 3: "warn_up conn onWarning ?todo w2 = (r3, w3)" by fastforce
      have "keeps view (warn_up conn onWarning ?todo)" using W by (auto simp: warn_up_def silent_def split: option.split)
      from keepsD [OF this 3] have v3: "view w3 = view w" using v2 by simp
      have step: "(r, w') = (case r3 of Inl e \<Rightarrow> (Inl e, w3) | Inr _ \<Rightarrow> apply_pending conn ?todo [] w3)"
        using r 1 2 3 Inr r2 unique by (simp add: up_def act_bind_def Let_def split: sum.splits)
      show ?thesis
      proof (cases r3)
        case (Inl e)
        then show ?thesis using step v3 by (intro early [of e]) simp_all
      next
        case r3: (Inr _)
        then show ?thesis using step v1 v3 rows by (intro applying [of w3]) simp_all
      qed
    qed
  qed
qed

lemma up_unique: "up conn ms onWarning w = (Inr vs, w') \<Longrightarrow> assertUniqueVersions ms = Inr ()"
  by (auto simp: up_def act_simps act_lift_def)

lemma status_steps:
  assumes C: "connection_contract run digest view conn" and r: "status conn ms w = (Inr items, w')"
  shows "view w' = view w" and "assertUniqueVersions ms = Inr ()"
    and "map ms_version (filter ms_applied items) =
      map mi_version (filter (\<lambda>m. mi_version m \<in> am_version ` set (snd (view w))) (sort_by byVersion ms))"
proof -
  from r obtain rows w1 w2 where 1: "assertUniqueVersions ms = Inr ()" "ensureVersionTable conn w = (Inr (), w1)"
    "verifiedLedger conn ms w1 = (Inr rows, w2)" "w' = w2"
    "items = map (\<lambda>m. \<lparr>ms_version = mi_version m, ms_name = mi_name m, ms_applied = mi_version m \<in> set (map am_version rows)\<rparr>)
      (sort_by byVersion ms)"
    by (auto simp: status_def act_simps act_lift_def act_return_def)
  note keep = keepsD [OF contract_parts(3) [OF C] 1(2)] keepsD [OF verifiedLedger_keeps [OF C] 1(3)]
  show "view w' = view w" "assertUniqueVersions ms = Inr ()" using keep 1(1,4) by simp_all
  have "distinct (map mi_version ms)" using unique_versions_whole [OF 1(1)] by blast
  from verifiedLedger_rows(1) [OF C this 1(3)] keep(1) have "rows = snd (view w)" by simp
  then show "map ms_version (filter ms_applied items) =
      map mi_version (filter (\<lambda>m. mi_version m \<in> am_version ` set (snd (view w))) (sort_by byVersion ms))"
    by (simp add: 1(5) filter_map comp_def)
qed

lemma revert_row_reverts:
  assumes C: "connection_contract run digest view conn" and r: "revert_row conn ms row w = (Inr v, w')"
  obtains m where "m \<in> set ms" "mi_version m = v" "v = am_version row"
    "view w' = (run (mi_down m) (fst (view w)), filter (\<lambda>r. am_version r \<noteq> v) (snd (view w)))"
proof -
  from r obtain m where m: "find (\<lambda>m. mi_version m = am_version row) ms = Some m" and v: "v = am_version row"
    and t: "inTransaction conn (revert_body m (am_version row)) w = (Inr (), w')"
    by (auto simp: revert_row_def act_simps act_throw_def act_return_def split: option.splits if_splits)
  obtain s w0 w1 where s: "statements_contract run view s" "view w0 = view w"
    "revert_body m (am_version row) s w0 = (Inr (), w1)" "view w' = view w1" by (rule inTransaction_runs [OF C t])
  then obtain w2 where "st_exec s (mi_down m) w0 = (Inr (), w2)" "st_recordReverted s (am_version row) w2 = (Inr (), w1)"
    by (auto simp: revert_body_def act_simps)
  with statementsD [OF s(1)] s(2,4) v have "view w' = (run (mi_down m) (fst (view w)), filter (\<lambda>r. am_version r \<noteq> v) (snd (view w)))"
    by simp
  moreover have "m \<in> set ms" "mi_version m = am_version row" using m by (auto simp: find_Some_iff)
  ultimately show ?thesis using that v by simp
qed

lemma down_steps:
  assumes C: "connection_contract run digest view conn" and r: "down conn ms w = (Inr v, w')"
  obtains (none_left) "v = None" and "snd (view w) = []" and "view w' = view w"
    | (one_reverted) m row where "v = Some (mi_version m)" "m \<in> set ms" "row \<in> set (snd (view w))" "am_version row = mi_version m"
      "\<forall>r \<in> set (snd (view w)). whole (am_version r) \<Longrightarrow> \<forall>r \<in> set (snd (view w)). version_int (am_version r) \<le> version_int (mi_version m)"
      "view w' = (run (mi_down m) (fst (view w)), filter (\<lambda>r. am_version r \<noteq> mi_version m) (snd (view w)))"
proof -
  from r obtain rows w1 w2 where 1: "assertUniqueVersions ms = Inr ()" "ensureVersionTable conn w = (Inr (), w1)"
    "verifiedLedger conn ms w1 = (Inr rows, w2)"
    "(case sort_by (\<lambda>l r. version_le (am_version r) (am_version l)) rows of
       [] \<Rightarrow> act_return None
     | latest # _ \<Rightarrow> act_bind (revert_row conn ms latest) (\<lambda>v. act_return (Some v))) w2 = (Inr v, w')"
    by (auto simp: down_def act_simps act_lift_def)
  note keep = keepsD [OF contract_parts(3) [OF C] 1(2)] keepsD [OF verifiedLedger_keeps [OF C] 1(3)]
  have "distinct (map mi_version ms)" using unique_versions_whole [OF 1(1)] by blast
  from verifiedLedger_rows(1) [OF C this 1(3)] keep(1) have rows: "rows = snd (view w)" by simp
  show ?thesis
  proof (cases "sort_by (\<lambda>l r. version_le (am_version r) (am_version l)) rows")
    case Nil
    then have "rows = []" by simp
    show ?thesis
    proof (rule none_left)
      show "v = None" "snd (view w) = []" "view w' = view w" using Nil 1(4) keep rows \<open>rows = []\<close> by simp_all
    qed
  next
    case (Cons latest rest)
    then have "set (latest # rest) = set rows" using set_sort_by by metis
    then have mem: "latest \<in> set rows" by auto
    have max: "version_int (am_version r) \<le> version_int (am_version latest)"
      if w: "\<forall>r \<in> set rows. whole (am_version r)" and r: "r \<in> set rows" for r
    proof -
      have "sorted_wrt (\<lambda>l r. version_le (am_version r) (am_version l)) (latest # rest)"
        unfolding Cons [symmetric] using w
        by (intro sorted_sort_by [of "set rows"]) (auto simp: transp_on_def totalp_on_def reflp_on_def version_le_whole)
      moreover have "r = latest \<or> r \<in> set rest" using r \<open>set (latest # rest) = set rows\<close> by auto
      ultimately show ?thesis using w r mem version_le_whole by auto
    qed
    from 1(4) Cons obtain u where u: "revert_row conn ms latest w2 = (Inr u, w')" "v = Some u" by (auto simp: act_simps)
    obtain m where m: "m \<in> set ms" "mi_version m = u" "u = am_version latest"
      "view w' = (run (mi_down m) (fst (view w2)), filter (\<lambda>r. am_version r \<noteq> u) (snd (view w2)))"
      by (rule revert_row_reverts [OF C u(1)])
    show ?thesis
    proof (rule one_reverted [of m latest])
      assume "\<forall>r \<in> set (snd (view w)). whole (am_version r)"
      then show "\<forall>r \<in> set (snd (view w)). version_int (am_version r) \<le> version_int (mi_version m)"
        using max m(2,3) rows by auto
    qed (use m u(2) mem rows keep in simp_all)
  qed
qed

subsection \<open>Rolling back\<close>

definition reverted_by :: "(string \<Rightarrow> 's \<Rightarrow> 's) \<Rightarrow> migration list \<Rightarrow> 's \<Rightarrow> 's" where
  "reverted_by run ms s = fold (\<lambda>m. run (mi_down m)) ms s"

lemma at_most_mono: "whole u \<Longrightarrow> whole v \<Longrightarrow> version_int u \<le> version_int v \<Longrightarrow> at_most v target \<Longrightarrow> at_most u target"
  by (cases target) (auto simp: whole_def)

lemma last_is_max:
  assumes "sorted (map (version_int \<circ> f) xs)" and "x \<in> set xs"
  shows "version_int (f x) \<le> version_int (f (last xs))"
  using assms by (induction xs) auto

text \<open>What is left of the ledger and the schema once the loop of \<open>downTo\<close> has ended.\<close>

definition rolled_back ::
  "(string \<Rightarrow> 's \<Rightarrow> 's) \<Rightarrow> migration list \<Rightarrow> number \<Rightarrow> 's \<times> applied_migration list \<Rightarrow> migration list \<Rightarrow>
   's \<times> applied_migration list \<Rightarrow> bool" where
  "rolled_back run ms target before rs after \<longleftrightarrow> set rs \<subseteq> set ms \<and>
     fst after = reverted_by run rs (fst before) \<and>
     snd after = filter (\<lambda>r. am_version r \<notin> mi_version ` set rs) (snd before) \<and>
     (\<forall>m \<in> set rs. mi_version m \<in> am_version ` set (snd before) \<and> \<not> at_most (mi_version m) target) \<and>
     (\<forall>m \<in> set ms. mi_version m \<in> am_version ` set (snd after) \<longrightarrow> at_most (mi_version m) target) \<and>
     sorted_wrt (>) (map (version_int \<circ> mi_version) rs)"

lemma downTo_stops:
  assumes C: "connection_contract run digest view conn" and st: "status conn ms w = (Inr items, w1)"
    and stop: "map ms_version (filter ms_applied items) = [] \<or> at_most (last (map ms_version (filter ms_applied items))) target"
  shows "rolled_back run ms target (view w) [] (view w1)"
proof -
  note s = status_steps [OF C st]
  note ms = unique_versions_whole [OF s(2)]
  let ?known = "filter (\<lambda>m. mi_version m \<in> am_version ` set (snd (view w))) (sort_by byVersion ms)"
  have "at_most (mi_version m) target" if m: "m \<in> set ms" "mi_version m \<in> am_version ` set (snd (view w))" for m
  proof -
    have k: "m \<in> set ?known" using m by simp
    then have ne: "?known \<noteq> []" by (metis empty_iff list.set(1))
    then have last: "at_most (mi_version (last ?known)) target" using stop unfolding s(3) by (simp add: last_map)
    have "sorted (map (version_int \<circ> mi_version) (sort_by byVersion ms))"
      using sorted_versions [of ms mi_version] ms by (simp add: byVersion_def [abs_def])
    then have "sorted (map (version_int \<circ> mi_version) ?known)" by (rule sorted_filter)
    from last_is_max [OF this k] have "version_int (mi_version m) \<le> version_int (mi_version (last ?known))" .
    moreover have "last ?known \<in> set ms" using last_in_set [OF ne] by simp
    ultimately show ?thesis using at_most_mono last m(1) ms by blast
  qed
  then show ?thesis using s(1) by (simp add: rolled_back_def reverted_by_def)
qed

lemma downTo_turn:
  assumes C: "connection_contract run digest view conn" and sound: "sound_ledger (snd (view w))"
    and st: "status conn ms w = (Inr items, w1)"
    and go: "map ms_version (filter ms_applied items) \<noteq> []" "\<not> at_most (last (map ms_version (filter ms_applied items))) target"
    and d: "down conn ms w1 = (Inr v, w2)"
  obtains m where "v = Some (mi_version m)" "m \<in> set ms" "mi_version m \<in> am_version ` set (snd (view w))"
    "\<not> at_most (mi_version m) target" "\<forall>r \<in> set (snd (view w)). version_int (am_version r) \<le> version_int (mi_version m)"
    "view w2 = (run (mi_down m) (fst (view w)), filter (\<lambda>r. am_version r \<noteq> mi_version m) (snd (view w)))"
proof -
  note s = status_steps [OF C st]
  note ms = unique_versions_whole [OF s(2)]
  let ?known = "filter (\<lambda>m. mi_version m \<in> am_version ` set (snd (view w))) (sort_by byVersion ms)"
  have ne: "?known \<noteq> []" using go(1) by (simp add: s(3))
  then have last: "last ?known \<in> set ?known" by (rule last_in_set)
  then obtain row0 where row0: "row0 \<in> set (snd (view w))" "am_version row0 = mi_version (last ?known)" by auto
  from C d show ?thesis
  proof (cases rule: down_steps)
    case none_left
    with row0 s(1) show ?thesis by simp
  next
    case (one_reverted m row)
    have max: "\<forall>r \<in> set (snd (view w)). version_int (am_version r) \<le> version_int (mi_version m)"
      using one_reverted(5) sound s(1) by (simp add: sound_ledger_def)
    have "version_int (mi_version (last ?known)) \<le> version_int (mi_version m)" using max row0 by metis
    moreover have "last ?known \<in> set ms" using last by simp
    moreover have "\<not> at_most (mi_version (last ?known)) target" using go(2) ne by (simp add: s(3) last_map)
    ultimately have "\<not> at_most (mi_version m) target" using at_most_mono one_reverted(2) ms by blast
    moreover have "mi_version m \<in> am_version ` set (snd (view w))" using one_reverted(3) s(1) by (simp add: rev_image_eqI flip: one_reverted(4))
    ultimately show ?thesis using that [of m] one_reverted max s(1) by simp
  qed
qed

lemma rolled_back_step:
  assumes "m \<in> set ms" and "mi_version m \<in> am_version ` set rows" and "\<not> at_most (mi_version m) target"
    and max: "\<forall>r \<in> set rows. version_int (am_version r) \<le> version_int (mi_version m)"
    and sound: "sound_ledger rows" and whole: "whole (mi_version m)"
    and rest: "rolled_back run ms target (run (mi_down m) s, filter (\<lambda>r. am_version r \<noteq> mi_version m) rows) rs after"
  shows "rolled_back run ms target (s, rows) (m # rs) after"
proof -
  have below: "version_int (mi_version m') < version_int (mi_version m)" if "m' \<in> set rs" for m'
  proof -
    have "mi_version m' \<in> am_version ` set (filter (\<lambda>r. am_version r \<noteq> mi_version m) rows)"
      using rest that unfolding rolled_back_def snd_conv by blast
    then obtain r where r: "r \<in> set rows" "am_version r \<noteq> mi_version m" "am_version r = mi_version m'" by auto
    have "whole (am_version r)" using sound r(1) by (simp add: sound_ledger_def)
    then have "version_int (am_version r) \<noteq> version_int (mi_version m)" using r(2) whole_eq whole by blast
    moreover have "version_int (am_version r) \<le> version_int (mi_version m)" using max r(1) by blast
    ultimately show ?thesis using r(3) by simp
  qed
  have "filter (\<lambda>r. am_version r \<notin> mi_version ` set rs) (filter (\<lambda>r. am_version r \<noteq> mi_version m) rows) =
      filter (\<lambda>r. am_version r \<notin> mi_version ` set (m # rs)) rows"
    by (auto intro!: filter_cong)
  with rest assms(1-3) below show ?thesis by (auto simp: rolled_back_def reverted_by_def)
qed

lemma sound_filter: "sound_ledger rows \<Longrightarrow> sound_ledger (filter P rows)"
  by (simp add: sound_ledger_def distinct_map_filter)

lemma downTo_rolls_back:
  assumes C: "connection_contract run digest view conn"
  shows "downTo n conn ms target finished w = Some (Inr r, w') \<Longrightarrow> sound_ledger (snd (view w)) \<Longrightarrow>
    \<exists>rs. r = finished @ map mi_version rs \<and> rolled_back run ms target (view w) rs (view w')"
proof (induction n arbitrary: finished w)
  case (Suc n)
  obtain items w1 where st: "status conn ms w = (Inr items, w1)"
    using Suc.prems(1) by (auto split: prod.splits sum.splits)
  let ?applied = "map ms_version (filter ms_applied items)"
  show ?case
  proof (cases "?applied = [] \<or> at_most (last ?applied) target")
    case True
    then have "r = finished" "w' = w1" using Suc.prems(1) st by (auto simp: Let_def)
    with downTo_stops [OF C st True] show ?thesis by (intro exI [of _ "[]"]) simp
  next
    case False
    then obtain v w2 where d: "down conn ms w1 = (Inr v, w2)"
      using Suc.prems(1) st by (auto simp: Let_def split: prod.splits sum.splits)
    obtain m where m: "v = Some (mi_version m)" "m \<in> set ms" "mi_version m \<in> am_version ` set (snd (view w))"
      "\<not> at_most (mi_version m) target" "\<forall>r \<in> set (snd (view w)). version_int (am_version r) \<le> version_int (mi_version m)"
      "view w2 = (run (mi_down m) (fst (view w)), filter (\<lambda>r. am_version r \<noteq> mi_version m) (snd (view w)))"
      using downTo_turn [OF C Suc.prems(2) st _ _ d] False by blast
    have "downTo n conn ms target (finished @ [mi_version m]) w2 = Some (Inr r, w')"
      using Suc.prems(1) st d False m(1) by (simp add: Let_def)
    moreover have "sound_ledger (snd (view w2))" using sound_filter [OF Suc.prems(2)] m(6) by simp
    ultimately obtain rs where rs: "r = (finished @ [mi_version m]) @ map mi_version rs"
      "rolled_back run ms target (view w2) rs (view w')" using Suc.IH by blast
    have "whole (mi_version m)" using unique_versions_whole [OF status_steps(2) [OF C st]] m(2) by blast
    then have "rolled_back run ms target (fst (view w), snd (view w)) (m # rs) (view w')"
      using rs(2) m Suc.prems(2) by (intro rolled_back_step) simp_all
    with rs(1) show ?thesis by (intro exI [of _ "m # rs"]) simp
  qed
qed simp

lemma downTo_enough:
  assumes C: "connection_contract run digest view conn"
  shows "sound_ledger (snd (view w)) \<Longrightarrow> length (snd (view w)) < n \<Longrightarrow> downTo n conn ms target finished w \<noteq> None"
proof (induction n arbitrary: finished w)
  case (Suc n)
  show ?case
  proof (cases "\<exists>items w1. status conn ms w = (Inr items, w1)")
    case False
    then show ?thesis by (auto split: prod.splits sum.splits)
  next
    case True
    then obtain items w1 where st: "status conn ms w = (Inr items, w1)" by blast
    let ?applied = "map ms_version (filter ms_applied items)"
    show ?thesis
    proof (cases "?applied = [] \<or> at_most (last ?applied) target \<or> (\<exists>e w2. down conn ms w1 = (Inl e, w2))")
      case True
      then show ?thesis using st by (auto simp: Let_def split: prod.splits sum.splits option.splits)
    next
      case False
      obtain x w2 where x: "down conn ms w1 = (x, w2)" by fastforce
      with False obtain v where d: "down conn ms w1 = (Inr v, w2)" by (cases x) simp_all
      have go: "?applied \<noteq> []" "\<not> at_most (last ?applied) target" using False by blast+
      obtain m where m: "v = Some (mi_version m)" "m \<in> set ms" "mi_version m \<in> am_version ` set (snd (view w))"
        "\<not> at_most (mi_version m) target" "\<forall>r \<in> set (snd (view w)). version_int (am_version r) \<le> version_int (mi_version m)"
        "view w2 = (run (mi_down m) (fst (view w)), filter (\<lambda>r. am_version r \<noteq> mi_version m) (snd (view w)))"
        by (rule downTo_turn [OF C Suc.prems(1) st go d])
      obtain row where row: "row \<in> set (snd (view w))" "\<not> am_version row \<noteq> mi_version m" using m(3) by auto
      have "length (snd (view w2)) < length (snd (view w))"
        using length_filter_less [of row "snd (view w)" "\<lambda>r. am_version r \<noteq> mi_version m"] row by (simp add: m(6))
      then have "downTo n conn ms target (finished @ [mi_version m]) w2 \<noteq> None"
        using Suc.prems sound_filter [OF Suc.prems(1)] m(6) by (intro Suc.IH) simp_all
      then show ?thesis using st d False m(1) by (simp add: Let_def)
    qed
  qed
qed simp

subsection \<open>A connection over a list\<close>

text \<open>
  The witnesses run on this connection: the schema is the stack of the statements executed, \<open>undo\<close> takes one
  off, a transaction that fails puts the database back.
\<close>

type_synonym memory = "string list \<times> applied_migration list"

definition memory_run :: "string \<Rightarrow> string list \<Rightarrow> string list" where
  "memory_run sql s = (if sql = ''undo'' then tl s else sql # s)"

definition memory_digest :: "string \<Rightarrow> string" where
  "memory_digest sql = ''sha256:'' @ sql"

definition memory_statements :: "memory statements" where
  "memory_statements = \<lparr>
     st_exec = (\<lambda>sql w. if sql = ''broken'' then (Inl (PlainError ''syntax error''), w) else (Inr (), (memory_run sql (fst w), snd w))),
     st_recordApplied = (\<lambda>v n c w. (Inr (), (fst w, snd w @ [\<lparr>am_version = v, am_name = n, am_checksum = c\<rparr>]))),
     st_recordReverted = (\<lambda>v w. (Inr (), (fst w, filter (\<lambda>r. am_version r \<noteq> v) (snd w))))\<rparr>"

definition memory_transaction :: "(memory statements option \<Rightarrow> (memory, unit) act) \<Rightarrow> (memory, unit) act" where
  "memory_transaction body w = (case body None w of (Inr u, w') \<Rightarrow> (Inr u, w') | (Inl e, w') \<Rightarrow> (Inl e, w))"

definition memory_connection :: "memory connection" where
  "memory_connection = \<lparr>cn_dialect = None, cn_transactionalDdl = Some True, cn_statements = memory_statements,
     cn_appliedVersions = (\<lambda>w. (Inr (map am_version (snd w)), w)), cn_appliedMigrations = Some (\<lambda>w. (Inr (snd w), w)),
     cn_ensure = Some (act_return ()), cn_checksum = Some (\<lambda>sql. act_return (memory_digest sql)),
     cn_transaction = Some memory_transaction\<rparr>"

lemma memory_contract: "connection_contract memory_run memory_digest id memory_connection"
proof -
  have "statements_contract memory_run id memory_statements"
    by (auto simp: statements_contract_def memory_statements_def split: if_splits)
  moreover have "transaction_contract memory_run id memory_transaction"
    unfolding transaction_contract_def memory_transaction_def
    by (intro conjI allI impI exI [of _ None]) (auto split: prod.splits sum.splits)
  ultimately show ?thesis
    by (simp add: connection_contract_def memory_connection_def ensureVersionTable_def ledger_rows_def keeps_def)
qed

definition sample_migrations :: "migration list" where
  "sample_migrations = [\<lparr>mi_version = IntNum 2, mi_name = ''posts'', mi_up = ''create posts'', mi_down = ''undo''\<rparr>,
     \<lparr>mi_version = IntNum 1, mi_name = ''users'', mi_up = ''create users'', mi_down = ''undo''\<rparr>]"

definition memory_row :: "int \<Rightarrow> string \<Rightarrow> string \<Rightarrow> applied_migration" where
  "memory_row v n sql = \<lparr>am_version = IntNum v, am_name = n, am_checksum = Some (memory_digest sql)\<rparr>"

lemmas memory_defs = memory_connection_def memory_statements_def memory_transaction_def memory_run_def
  memory_digest_def sample_migrations_def memory_row_def

lemma memory_up:
  "up memory_connection sample_migrations None ([], []) =
     (Inr [IntNum 1, IntNum 2], ([''create posts'', ''create users''],
        [memory_row 1 ''users'' ''create users'', memory_row 2 ''posts'' ''create posts'']))"
  by code_simp

subsection \<open>The properties\<close>

lemma versions_after:
  assumes "mset rows' = mset rows + ledger_after digest conn todo"
  shows "am_version ` set rows' = am_version ` set rows \<union> mi_version ` set todo"
proof -
  have "set rows' = set rows \<union> set_mset (ledger_after digest conn todo)" using arg_cong [OF assms, of set_mset] by simp
  then show ?thesis by (simp add: image_Un ledger_after_def image_image recorded_def)
qed

lemma sound_after:
  assumes "sound_ledger rows" and m: "mset rows' = mset rows + ledger_after digest conn todo"
    and "\<And>m. m \<in> set todo \<Longrightarrow> whole (mi_version m) \<and> mi_version m \<notin> am_version ` set rows"
    and "sorted_wrt (<) (map (version_int \<circ> mi_version) todo)"
  shows "sound_ledger rows'"
proof -
  have "distinct (map (version_int \<circ> mi_version) todo)" using assms(4) by (simp add: strict_sorted_iff)
  then have "distinct (map mi_version todo)" by (metis distinct_map map_map)
  moreover have "am_version r \<noteq> mi_version m" if "r \<in> set rows" "m \<in> set todo" for r m
    using assms(3) [OF that(2)] imageI [OF that(1), of am_version] by auto
  then have "am_version ` set rows \<inter> mi_version ` set todo = {}" by auto
  ultimately have "distinct (map am_version rows @ map mi_version todo)"
    using assms(1) by (simp add: sound_ledger_def)
  moreover have "mset (map am_version rows') = mset (map am_version rows @ map mi_version todo)"
    using arg_cong [OF m, of "image_mset am_version"] by (simp add: ledger_after_def recorded_def multiset.map_comp comp_def)
  ultimately have "distinct (map am_version rows')" by (metis mset_eq_imp_distinct_iff)
  moreover have "whole v" if "v \<in> am_version ` set rows'" for v
    using that assms(1,3) unfolding versions_after [OF m] by (auto simp: sound_ledger_def)
  ultimately show ?thesis by (simp add: sound_ledger_def)
qed

lemma revert_applied:
  "(\<And>m s. m \<in> set ms \<Longrightarrow> run (mi_down m) (run (mi_up m) s) = s) \<Longrightarrow> reverted_by run (rev ms) (applied_by run ms s) = s"
  by (induction ms rule: rev_induct) (simp_all add: reverted_by_def applied_by_def)

lemma up_result:
  assumes C: "connection_contract run digest view conn" and W: "silent view onWarning"
    and r: "up conn ms onWarning w = (Inr vs, w')"
  obtains todo where "vs = map mi_version todo" "set todo = {m \<in> set ms. mi_version m \<notin> am_version ` set (snd (view w))}"
    "sorted_wrt (<) (map (version_int \<circ> mi_version) todo)" "fst (view w') = applied_by run todo (fst (view w))"
    "mset (snd (view w')) = mset (snd (view w)) + ledger_after digest conn todo"
proof -
  note unique = up_unique [OF r]
  obtain w1 where w1: "view w1 = view w" "apply_pending conn (pending_migrations (snd (view w)) ms) [] w1 = (Inr vs, w')"
    by (rule up_steps [OF C W unique r]) auto
  from that [of "pending_migrations (snd (view w)) ms"] apply_pending_applies [OF C w1(2)] w1(1)
    pending_facts [OF unique, of "snd (view w)"] show ?thesis by simp
qed

text \<open>
  C14: A successful \<open>up\<close> applies exactly the migrations whose version the ledger does not have, in ascending
  order of their versions, runs their SQL in that order and adds one ledger row with name and checksum for
  each; run once more on the result it applies nothing.
\<close>
theorem up_applies_pending:
  assumes C: "connection_contract run digest view conn"
    and W: "silent view onWarning"
    and r: "up conn ms onWarning w = (Inr vs, w')"
  shows "\<exists>todo. vs = map mi_version todo \<and> set todo = {m \<in> set ms. mi_version m \<notin> am_version ` set (snd (view w))} \<and>
    sorted_wrt (<) (map (version_int \<circ> mi_version) todo) \<and>
    fst (view w') = fold (\<lambda>m. run (mi_up m)) todo (fst (view w)) \<and>
    mset (snd (view w')) = mset (snd (view w)) + mset (map (\<lambda>m. \<lparr>am_version = mi_version m, am_name = mi_name m,
      am_checksum = map_option (\<lambda>_. digest (mi_up m)) (cn_checksum conn)\<rparr>) todo) \<and>
    (\<forall>again w''. up conn ms onWarning w' = (Inr again, w'') \<longrightarrow> again = [] \<and> view w'' = view w')"
proof -
  obtain todo where todo: "vs = map mi_version todo" "set todo = {m \<in> set ms. mi_version m \<notin> am_version ` set (snd (view w))}"
    "sorted_wrt (<) (map (version_int \<circ> mi_version) todo)" "fst (view w') = applied_by run todo (fst (view w))"
    "mset (snd (view w')) = mset (snd (view w)) + ledger_after digest conn todo" by (rule up_result [OF C W r])
  have "again = [] \<and> view w'' = view w'" if u: "up conn ms onWarning w' = (Inr again, w'')" for again w''
  proof -
    obtain todo' where t: "again = map mi_version todo'" "set todo' = {m \<in> set ms. mi_version m \<notin> am_version ` set (snd (view w'))}"
      "fst (view w'') = applied_by run todo' (fst (view w'))"
      "mset (snd (view w'')) = mset (snd (view w')) + ledger_after digest conn todo'" by (rule up_result [OF C W u])
    have "set todo' = {}" unfolding t(2) versions_after [OF todo(5)] using todo(2) by auto
    then have "todo' = []" by simp
    moreover obtain w2 where "view w2 = view w'" "apply_pending conn (pending_migrations (snd (view w')) ms) [] w2 = (Inr again, w'')"
      by (rule up_steps [OF C W up_unique [OF u] u]) auto
    moreover have "set (pending_migrations (snd (view w')) ms) = set todo'"
      using t(2) pending_facts(1) [OF up_unique [OF u], of "snd (view w')"] by simp
    then have "pending_migrations (snd (view w')) ms = []" using \<open>set todo' = {}\<close> by simp
    ultimately show ?thesis using t(1) by simp
  qed
  with todo show ?thesis by (intro exI [of _ todo]) (simp add: applied_by_def ledger_after_def recorded_def)
qed

definition memory_after :: memory where
  "memory_after = ([''create posts'', ''create users''],
     [memory_row 1 ''users'' ''create users'', memory_row 2 ''posts'' ''create posts''])"

theorem up_applies_pending_witness:
  "up memory_connection sample_migrations None ([], []) = (Inr [IntNum 1, IntNum 2], memory_after) \<and>
   up memory_connection sample_migrations None memory_after = (Inr [], memory_after)"
proof -
  have "case up memory_connection sample_migrations None memory_after of (Inr _, _) \<Rightarrow> True | (Inl _, _) \<Rightarrow> False" by code_simp
  then obtain again w where u: "up memory_connection sample_migrations None memory_after = (Inr again, w)"
    by (auto split: prod.splits sum.splits)
  note first = memory_up [folded memory_after_def]
  have "again = [] \<and> id w = id memory_after" using up_applies_pending [OF memory_contract silent_None first] u by blast
  with u first show ?thesis by simp
qed




text \<open>
  A migration whose SQL was edited after it was applied (the recorded checksum is not that of its text) is
  refused before any SQL runs: \<open>up\<close> fails and neither the schema nor the ledger changes.
\<close>
theorem edited_migration_refused:
  assumes C: "connection_contract run digest view conn"
    and "m \<in> set ms" and "row \<in> set (snd (view w))" and "am_version row = mi_version m"
    and "am_checksum row = Some c" and "digest (mi_up m) \<noteq> c" and W: "silent view onWarning"
  shows "\<exists>e w'. up conn ms onWarning w = (Inl e, w') \<and> view w' = view w"
proof -
  obtain r w' where r: "up conn ms onWarning w = (r, w')" by fastforce
  have ed: "edited digest ms row" using assms(2-6) by (auto simp: edited_def)
  show ?thesis
  proof (cases "assertUniqueVersions ms = Inr ()")
    case False
    then obtain e where "assertUniqueVersions ms = Inl e" by (cases "assertUniqueVersions ms") auto
    then show ?thesis by (simp add: up_def act_bind_def)
  next
    case True
    show ?thesis by (rule up_steps [OF C W True r]) (use ed assms(3) r in auto)
  qed
qed

theorem edited_migration_refused_witness:
  "\<exists>e w'. up memory_connection sample_migrations None ([], [memory_row 1 ''users'' ''create user'']) = (Inl e, w') \<and>
     w' = ([], [memory_row 1 ''users'' ''create user''])"
  using edited_migration_refused [OF memory_contract, of "sample_migrations ! 1" sample_migrations
      "memory_row 1 ''users'' ''create user''" "([], [memory_row 1 ''users'' ''create user''])"
      "memory_digest ''create user''" None]
  by (simp add: sample_migrations_def memory_row_def memory_digest_def)

text \<open>
  The loop of \<open>downTo\<close> ends: one turn more than the ledger has rows is enough, whatever the target and
  whichever calls fail.
\<close>
theorem downTo_terminates:
  assumes "connection_contract run digest view conn" and "sound_ledger (snd (view w))" and "length (snd (view w)) < n"
  shows "\<exists>result w'. downTo n conn ms target [] w = Some (result, w')"
proof -
  obtain x where "downTo n conn ms target [] w = Some x" using downTo_enough [OF assms] by blast
  then show ?thesis by (cases x) blast
qed

theorem downTo_terminates_witness:
  "\<exists>result w'. downTo 3 memory_connection sample_migrations (Fin 0) []
     ([''create posts'', ''create users''], [memory_row 1 ''users'' ''create users'', memory_row 2 ''posts'' ''create posts'']) =
     Some (result, w')"
  by (rule downTo_terminates [OF memory_contract]) (simp_all add: sound_ledger_def memory_row_def whole_def)

lemma rolled_back_exactly:
  assumes rolled: "rolled_back run ms target before rs after" and unique: "inj_on mi_version (set ms)"
    and versions: "am_version ` set (snd before) = V \<union> mi_version ` set todo"
    and todo: "set todo = {m \<in> set ms. mi_version m \<notin> V}"
    and old: "\<And>m. m \<in> set ms \<Longrightarrow> at_most (mi_version m) target \<longleftrightarrow> mi_version m \<in> V"
  shows "set rs = set todo"
proof (intro equalityI subsetI)
  fix m assume "m \<in> set rs"
  then show "m \<in> set todo" using rolled old by (auto simp: todo rolled_back_def)
next
  fix m assume m: "m \<in> set todo"
  then have "m \<in> set ms" "\<not> at_most (mi_version m) target" using old by (auto simp: todo)
  then have "mi_version m \<notin> am_version ` set (snd after)" using rolled by (auto simp: rolled_back_def)
  moreover have "mi_version m \<in> am_version ` set (snd before)" using m versions by simp
  ultimately have "mi_version m \<in> mi_version ` set rs" using rolled by (auto simp: rolled_back_def)
  then obtain m' where m': "m' \<in> set rs" "mi_version m' = mi_version m" by auto
  then have "m' \<in> set ms" using rolled by (auto simp: rolled_back_def)
  then have "m' = m" using m'(2) \<open>m \<in> set ms\<close> unique by (auto dest: inj_onD)
  with m'(1) show "m \<in> set rs" by simp
qed

lemma rows_taken_back:
  assumes rows: "mset rows' = mset rows + ledger_after digest conn todo"
    and fresh: "\<And>m. m \<in> set todo \<Longrightarrow> mi_version m \<notin> am_version ` set rows"
  shows "mset (filter (\<lambda>r. am_version r \<notin> mi_version ` set todo) rows') = mset rows"
proof -
  have "am_version r \<noteq> mi_version m" if "r \<in> set rows" "m \<in> set todo" for r m
    using fresh [OF that(2)] imageI [OF that(1), of am_version] by auto
  then have "filter_mset (\<lambda>r. am_version r \<notin> mi_version ` set todo) (mset rows) = mset rows"
    by (auto simp: filter_mset_eq_conv)
  moreover have "filter_mset (\<lambda>r. am_version r \<notin> mi_version ` set todo) (ledger_after digest conn todo) = {#}"
    unfolding ledger_after_def mset_filter [symmetric]
    by (subst mset_zero_iff) (auto simp: filter_empty_conv recorded_def)
  ultimately show ?thesis by (simp add: rows)
qed

text \<open>
  C16: Rolling back to a target takes back what \<open>up\<close> applied above it: when every down section undoes its up
  section, the old versions lie at or below the target and the new ones above it, then \<open>up\<close> followed by
  \<open>downTo\<close> restores the schema and the ledger, and the versions come back newest first.
\<close>
theorem rollback_undoes_up:
  assumes C: "connection_contract run digest view conn"
    and W: "silent view onWarning"
    and sound: "sound_ledger (snd (view w))"
    and inverse: "\<And>m s. m \<in> set ms \<Longrightarrow> run (mi_down m) (run (mi_up m) s) = s"
    and old: "\<And>m. m \<in> set ms \<Longrightarrow> at_most (mi_version m) target \<longleftrightarrow> mi_version m \<in> am_version ` set (snd (view w))"
    and u: "up conn ms onWarning w = (Inr vs, w1)" and d: "downTo n conn ms target [] w1 = Some (Inr gone, w2)"
  shows "gone = rev vs \<and> fst (view w2) = fst (view w) \<and> mset (snd (view w2)) = mset (snd (view w))"
proof -
  note unique = up_unique [OF u]
  note ms = unique_versions_whole [OF unique]
  let ?rows = "snd (view w)" and ?key = "version_int \<circ> mi_version"
  obtain todo where todo: "vs = map mi_version todo" "set todo = {m \<in> set ms. mi_version m \<notin> am_version ` set ?rows}"
    "sorted_wrt (<) (map ?key todo)" "fst (view w1) = applied_by run todo (fst (view w))"
    "mset (snd (view w1)) = mset ?rows + ledger_after digest conn todo" by (rule up_result [OF C W u])
  have sound1: "sound_ledger (snd (view w1))" by (rule sound_after [OF sound todo(5)]) (use todo(2,3) ms in auto)
  obtain rs where rs: "gone = map mi_version rs" "rolled_back run ms target (view w1) rs (view w2)"
    using downTo_rolls_back [OF C d sound1] by auto
  note rolled = rs(2) [unfolded rolled_back_def]
  have versions: "am_version ` set (snd (view w1)) = am_version ` set ?rows \<union> mi_version ` set todo"
    by (rule versions_after [OF todo(5)])
  have "set rs = set todo"
    using versions todo(2) old by (intro rolled_back_exactly [OF rs(2) _ versions]) (use ms in \<open>auto simp: distinct_map\<close>)
  moreover have "sorted_wrt (<) (map ?key (rev rs))" using rolled by (simp add: sorted_wrt_rev rev_map [symmetric])
  ultimately have "map ?key (rev rs) = map ?key todo" using todo(3) by (intro strict_sorted_equal) simp_all
  moreover have "inj_on ?key (set (rev rs) \<union> set todo)"
    using ms \<open>set rs = set todo\<close> by (auto simp: todo(2) distinct_map inj_on_def whole_eq) 
  ultimately have rev: "rs = rev todo" by (metis map_inj_on rev_rev_ident)
  have "reverted_by run (rev todo) (applied_by run todo s) = s" for s
    using inverse todo(2) by (intro revert_applied) auto
  moreover have "mset (snd (view w2)) = mset ?rows"
    using rolled \<open>set rs = set todo\<close> rows_taken_back [OF todo(5)] todo(2) by simp
  ultimately show ?thesis using rolled rs(1) rev todo(1,4) by (simp add: rev_map)
qed

theorem rollback_undoes_up_witness:
  "downTo 3 memory_connection sample_migrations (Fin 0) []
     ([''create posts'', ''create users''], [memory_row 1 ''users'' ''create users'', memory_row 2 ''posts'' ''create posts'']) =
     Some (Inr [IntNum 2, IntNum 1], ([], []))"
proof -
  let ?w = "([''create posts'', ''create users''], [memory_row 1 ''users'' ''create users'', memory_row 2 ''posts'' ''create posts''])"
  have "case downTo 3 memory_connection sample_migrations (Fin 0) [] ?w of Some (Inr _, _) \<Rightarrow> True | _ \<Rightarrow> False" by code_simp
  then obtain gone w2 where d: "downTo 3 memory_connection sample_migrations (Fin 0) [] ?w = Some (Inr gone, w2)"
    by (auto split: option.splits sum.splits prod.splits)
  have "gone = [IntNum 2, IntNum 1] \<and> fst w2 = [] \<and> snd w2 = []"
  proof -
    have inverse: "memory_run (mi_down m) (memory_run (mi_up m) s) = s" if "m \<in> set sample_migrations" for m s
      using that by (auto simp: sample_migrations_def memory_run_def)
    have old: "at_most (mi_version m) (Fin 0) \<longleftrightarrow> mi_version m \<in> am_version ` set (snd (id ([] :: string list, [])))"
      if "m \<in> set sample_migrations" for m using that by (auto simp: sample_migrations_def)
    have "sound_ledger (snd (id ([] :: string list, [])))" by (simp add: sound_ledger_def)
    from rollback_undoes_up [OF memory_contract silent_None this inverse old memory_up d] show ?thesis by simp
  qed
  with d show ?thesis by (cases w2) simp
qed

end
