(* ===== verification/Snapshot.thy ===== *)
theory Snapshot
  imports Query
begin

section \<open>Schema snapshots\<close>

text \<open>
  The first half of \<open>packages/migrations/src/index.ts\<close> and the types it shares with the dialects
  (\<open>packages/sql/src/migrations/types.ts\<close>): the snapshot of a set of schemas. \<open>Object.entries\<close> of the
  columns of a schema is an association list; \<open>String.prototype.localeCompare\<close> is the parameter \<open>lc\<close>:
  \<open>lc a b\<close> says that the comparison is not positive. A flag of the source that is absent or not \<open>true\<close>
  is \<open>False\<close>.
\<close>

subsection \<open>The types\<close>

datatype type_arg = ArgText string | ArgNumber jsnum

record extension_type =
  et_extension :: string
  et_name :: string
  et_args :: "type_arg list option"

datatype column_type = TypeName string | TypeExtension extension_type

datatype literal = LitNull | LitText string | LitBool bool | LitNumber jsnum

datatype column_default = LiteralDefault literal | ExpressionDefault string | UnresolvedDefault

record column_snapshot =
  cs_name :: string
  cs_type :: column_type
  cs_nullable :: bool
  cs_primaryKey :: bool
  cs_length :: "int option"
  cs_unique :: bool
  cs_default :: "column_default option"

datatype referential_action = Cascade | Restrict | SetNull | SetDefault | NoAction

record foreign_key =
  fk_name :: string
  fk_columns :: "string list"
  fk_targetTable :: string
  fk_targetColumns :: "string list"
  fk_onDelete :: referential_action
  fk_onUpdate :: referential_action

record table_options =
  to_shardKey :: "string list option"
  to_sortKey :: "string list option"
  to_rowstore :: bool

record table_snapshot =
  tb_name :: string
  tb_columns :: "column_snapshot list"
  tb_primaryKey :: "string list"
  tb_foreignKeys :: "foreign_key list"
  tb_options :: "table_options option"

record extension_snapshot =
  ex_name :: string
  ex_schema :: "string option"

record schema_snapshot =
  sn_tables :: "table_snapshot list"
  sn_extensions :: "extension_snapshot list"

text \<open>What a snapshot reads of a schema (\<open>SnapshotableSchema\<close>).\<close>

record declared_column =
  dc_type :: column_type
  dc_nullable :: bool
  dc_primaryKey :: bool
  dc_length :: "int option"
  dc_unique :: bool
  dc_hasDefault :: bool
  dc_default :: jsval
  dc_references :: "string option"

record declared_ir_column =
  di_name :: string
  di_physicalName :: "string option"
  di_onDelete :: "referential_action option"
  di_onUpdate :: "referential_action option"

record declared_foreign_key =
  df_columns :: "string list"
  df_targetTable :: string
  df_targetColumns :: "string list"

record declared_ir =
  ir_declaredTable :: string
  ir_declaredColumns :: "declared_ir_column list"
  ir_foreignKeys :: "declared_foreign_key list"
  ir_tableOptions :: "table_options option"

record declared_schema =
  ds_table :: string
  ds_primaryKey :: "string list"
  ds_columns :: "(string \<times> declared_column) list"
  ds_ir :: "declared_ir option"

subsection \<open>Names\<close>

definition ir_columns_of :: "declared_schema \<Rightarrow> declared_ir_column list" where
  "ir_columns_of s = (case ds_ir s of None \<Rightarrow> [] | Some ir \<Rightarrow> ir_declaredColumns ir)"

definition generatedForeignKeyName :: "string \<Rightarrow> string list \<Rightarrow> js_error + string" where
  "generatedForeignKeyName table columns =
     (let name = table @ ''_'' @ join ''_'' columns @ ''_fkey'' in
      if 63 < length name
      then Inl (TypeError (''generated foreign key name '' @ CHR 0x22 # name @ CHR 0x22 # '' is '' @
        show_nat (length name) @ '' characters long; PostgreSQL'' @ CHR 0x27 # ''s limit is 63, so give '' @
        ''the table or columns shorter names''))
      else Inr name)"

definition referencedTarget :: "string \<Rightarrow> js_error + (string \<times> string)" where
  "referencedTarget target = (case index_from ''.'' target 0 of
     None \<Rightarrow> Inl (TypeError (''foreign key target '' @ CHR 0x22 # target @ CHR 0x22 # '' must be written as '' @
       CHR 0x22 # ''table.column'' @ [CHR 0x22]))
   | Some separator \<Rightarrow>
       if separator = 0 \<or> last_index (CHR ''.'') target \<noteq> Some separator \<or> separator = length target - 1
       then Inl (TypeError (''foreign key target '' @ CHR 0x22 # target @ CHR 0x22 # '' must be written as '' @
         CHR 0x22 # ''table.column'' @ [CHR 0x22]))
       else Inr (take separator target, drop (separator + 1) target))"

definition physicalColumn :: "declared_schema \<Rightarrow> string \<Rightarrow> string" where
  "physicalColumn s declared = (case find (\<lambda>c. di_name c = declared) (ir_columns_of s) of
     None \<Rightarrow> declared
   | Some c \<Rightarrow> opt_default declared (di_physicalName c))"

definition physicalTarget ::
  "string \<Rightarrow> (string \<times> declared_schema) list \<Rightarrow> js_error + (string \<times> string)" where
  "physicalTarget target given = rbind (referencedTarget target) (\<lambda>(table, column).
     case map_of given table of
       None \<Rightarrow> Inr (table, column)
     | Some s \<Rightarrow> Inr (ds_table s, physicalColumn s column))"

definition physicalTableOptions :: "declared_schema \<Rightarrow> table_options option" where
  "physicalTableOptions s = (case ds_ir s of
     None \<Rightarrow> None
   | Some ir \<Rightarrow> (case ir_tableOptions ir of
       None \<Rightarrow> None
     | Some opts \<Rightarrow> Some \<lparr>to_shardKey = map_option (map (physicalColumn s)) (to_shardKey opts),
         to_sortKey = map_option (map (physicalColumn s)) (to_sortKey opts), to_rowstore = to_rowstore opts\<rparr>))"

definition declared_table :: "declared_schema \<Rightarrow> string" where
  "declared_table s = (case ds_ir s of None \<Rightarrow> ds_table s | Some ir \<Rightarrow> ir_declaredTable ir)"

definition ir_column_map :: "declared_schema \<Rightarrow> (string \<times> declared_ir_column) list" where
  "ir_column_map s = new_map (concat (map (\<lambda>c. [(di_name c, c), (opt_default (di_name c) (di_physicalName c), c)])
     (ir_columns_of s)))"

definition local_name :: "declared_schema \<Rightarrow> string \<Rightarrow> string" where
  "local_name s name = (case map_of (ir_column_map s) name of
     None \<Rightarrow> name
   | Some c \<Rightarrow> opt_default name (di_physicalName c))"

subsection \<open>Columns\<close>

definition snapshotDefault :: "jsval \<Rightarrow> bool \<Rightarrow> js_error + column_default option" where
  "snapshotDefault value declared =
     (let refused = Inl (TypeError (''a column default must be a finite scalar literal or an explicit SQL expression''))
      in case value of
        JUndefined \<Rightarrow> Inr (if declared then Some UnresolvedDefault else None)
      | JNull \<Rightarrow> Inr (Some (LiteralDefault LitNull))
      | JStr s \<Rightarrow> Inr (Some (LiteralDefault (LitText s)))
      | JBool b \<Rightarrow> Inr (Some (LiteralDefault (LitBool b)))
      | JNum n \<Rightarrow> if is_finite n then Inr (Some (LiteralDefault (LitNumber n))) else refused
      | JObj ps \<Rightarrow> (case (map_of ps ''kind'', map_of ps ''sql'') of
            (Some (JStr k), Some (JStr sql)) \<Rightarrow>
              if k = ''expression'' \<and> trim sql \<noteq> [] then Inr (Some (ExpressionDefault sql)) else refused
          | _ \<Rightarrow> refused)
      | _ \<Rightarrow> refused)"

definition column_snapshot_of :: "declared_schema \<Rightarrow> string \<times> declared_column \<Rightarrow> js_error + column_snapshot" where
  "column_snapshot_of s entry = (case entry of (name, meta) \<Rightarrow>
     rbind (snapshotDefault (dc_default meta) (dc_hasDefault meta \<and> dc_type meta \<noteq> TypeName ''serial'')) (\<lambda>d.
       Inr \<lparr>cs_name = local_name s name, cs_type = dc_type meta, cs_nullable = dc_nullable meta,
            cs_primaryKey = dc_primaryKey meta, cs_length = dc_length meta, cs_unique = dc_unique meta,
            cs_default = d\<rparr>))"

subsection \<open>Foreign keys\<close>

definition column_reference ::
  "(string \<times> declared_schema) list \<Rightarrow> declared_schema \<Rightarrow> string \<times> string \<Rightarrow> js_error + foreign_key" where
  "column_reference given s entry = (case entry of (name, target) \<Rightarrow>
     rbind (physicalTarget target given) (\<lambda>(targetTable, targetColumn).
     rbind (generatedForeignKeyName (ds_table s) [local_name s name]) (\<lambda>fkname.
       let ir = map_of (ir_column_map s) name in
       Inr \<lparr>fk_name = fkname, fk_columns = [local_name s name], fk_targetTable = targetTable,
            fk_targetColumns = [targetColumn],
            fk_onDelete = opt_default NoAction (Option.bind ir di_onDelete),
            fk_onUpdate = opt_default NoAction (Option.bind ir di_onUpdate)\<rparr>)))"

definition table_reference ::
  "(string \<times> declared_schema) list \<Rightarrow> declared_schema \<Rightarrow> declared_foreign_key \<Rightarrow> js_error + foreign_key" where
  "table_reference given s fk =
     (let localColumns = map (physicalColumn s) (df_columns fk); target = map_of given (df_targetTable fk) in
      rbind (generatedForeignKeyName (ds_table s) localColumns) (\<lambda>fkname.
        Inr \<lparr>fk_name = fkname, fk_columns = localColumns,
             fk_targetTable = (case target of None \<Rightarrow> df_targetTable fk | Some t \<Rightarrow> ds_table t),
             fk_targetColumns = (case target of None \<Rightarrow> df_targetColumns fk
               | Some t \<Rightarrow> map (physicalColumn t) (df_targetColumns fk)),
             fk_onDelete = NoAction, fk_onUpdate = NoAction\<rparr>))"

definition column_references :: "declared_schema \<Rightarrow> (string \<times> string) list" where
  "column_references s = concat (map (\<lambda>(name, meta). case dc_references meta of None \<Rightarrow> [] | Some t \<Rightarrow> [(name, t)])
     (ds_columns s))"

definition declared_foreign_keys :: "declared_schema \<Rightarrow> declared_foreign_key list" where
  "declared_foreign_keys s = (case ds_ir s of None \<Rightarrow> [] | Some ir \<Rightarrow> ir_foreignKeys ir)"

subsection \<open>\<open>snapshot\<close>\<close>

definition by_name :: "(string \<Rightarrow> string \<Rightarrow> bool) \<Rightarrow> ('a \<Rightarrow> string) \<Rightarrow> 'a list \<Rightarrow> 'a list" where
  "by_name lc f xs = sort_by (\<lambda>a b. lc (f a) (f b)) xs"

definition table_snapshot_of ::
  "(string \<Rightarrow> string \<Rightarrow> bool) \<Rightarrow> (string \<times> declared_schema) list \<Rightarrow> declared_schema \<Rightarrow> js_error + table_snapshot"
  where
  "table_snapshot_of lc given s =
     rbind (map_result (column_snapshot_of s) (ds_columns s)) (\<lambda>columns.
     rbind (map_result (column_reference given s) (column_references s)) (\<lambda>references.
     rbind (map_result (table_reference given s) (declared_foreign_keys s)) (\<lambda>foreignKeys.
       Inr \<lparr>tb_name = ds_table s, tb_columns = by_name lc cs_name columns,
            tb_primaryKey = map (physicalColumn s) (ds_primaryKey s),
            tb_foreignKeys = by_name lc fk_name (references @ foreignKeys),
            tb_options = physicalTableOptions s\<rparr>)))"

definition used_extensions :: "declared_schema list \<Rightarrow> (string \<times> extension_snapshot) list" where
  "used_extensions given = new_map (concat (map (\<lambda>s. concat (map (\<lambda>(name, meta). case dc_type meta of
       TypeName t \<Rightarrow> []
     | TypeExtension e \<Rightarrow> [(et_extension e, \<lparr>ex_name = et_extension e, ex_schema = None\<rparr>)]) (ds_columns s))) given))"

definition snapshot :: "(string \<Rightarrow> string \<Rightarrow> bool) \<Rightarrow> declared_schema list \<Rightarrow> js_error + schema_snapshot" where
  "snapshot lc given =
     (let schemasByDeclaredTable = new_map (map (\<lambda>s. (declared_table s, s)) given) in
      rbind (map_result (table_snapshot_of lc schemasByDeclaredTable) given) (\<lambda>tables.
        Inr \<lparr>sn_tables = by_name lc tb_name tables,
             sn_extensions = by_name lc ex_name (map snd (used_extensions given))\<rparr>))"

end
