(* ===== verification/MigrationDiff.thy ===== *)
theory MigrationDiff
  imports Snapshot
begin

section \<open>The difference of two snapshots\<close>

text \<open>
  The second half of \<open>packages/migrations/src/index.ts\<close>: the change operations that take one snapshot
  to another, their order, and the plan a dialect renders from them. A migration dialect is the part
  that \<open>diff\<close> reads of it: its name, whether \<open>CREATE TABLE\<close> carries the foreign keys, and its check of
  a plan. A JavaScript \<open>Set\<close> of strings is the list of its elements in insertion order.
\<close>

datatype change_op =
    CreateExtension string "string option"
  | CreateTable string "column_snapshot list" "string list" "foreign_key list" "table_options option"
  | DropTable string table_snapshot
  | AddColumn string column_snapshot
  | DropColumn string column_snapshot
  | AlterColumn string column_snapshot column_snapshot
  | AlterPrimaryKey string "string list" "string list"
  | AddForeignKey string foreign_key
  | DropForeignKey string foreign_key

record migration_target =
  mg_name :: string
  mg_inline :: bool
  mg_validatePlan :: "schema_snapshot \<Rightarrow> schema_snapshot \<Rightarrow> change_op list \<Rightarrow> js_error + unit"

subsection \<open>Comparison\<close>

fun same_number :: "jsnum \<Rightarrow> jsnum \<Rightarrow> bool" where
  "same_number a b = (a = b \<and> a \<noteq> NotANumber)"

fun same_arg :: "type_arg \<Rightarrow> type_arg \<Rightarrow> bool" where
  "same_arg (ArgText a) (ArgText b) = (a = b)"
| "same_arg (ArgNumber a) (ArgNumber b) = same_number a b"
| "same_arg _ _ = False"

fun sameType :: "column_type \<Rightarrow> column_type \<Rightarrow> bool" where
  "sameType (TypeExtension previous) (TypeExtension next) =
     (et_extension previous = et_extension next \<and> et_name previous = et_name next \<and>
      list_all2 same_arg (opt_default [] (et_args previous)) (opt_default [] (et_args next)))"
| "sameType previous next = (previous = next)"

fun same_literal :: "literal \<Rightarrow> literal \<Rightarrow> bool" where
  "same_literal (LitNumber a) (LitNumber b) = same_number a b"
| "same_literal a b = (a = b)"

fun sameDefault :: "column_default option \<Rightarrow> column_default option \<Rightarrow> bool" where
  "sameDefault None after = (after = None)"
| "sameDefault (Some (LiteralDefault a)) after = (case after of Some (LiteralDefault b) \<Rightarrow> same_literal a b | _ \<Rightarrow> False)"
| "sameDefault (Some (ExpressionDefault a)) after = (case after of Some (ExpressionDefault b) \<Rightarrow> a = b | _ \<Rightarrow> False)"
| "sameDefault (Some UnresolvedDefault) after = (after = Some UnresolvedDefault)"

definition sameColumn :: "column_snapshot \<Rightarrow> column_snapshot \<Rightarrow> bool" where
  "sameColumn previous next \<longleftrightarrow>
     sameType (cs_type previous) (cs_type next) \<and> cs_length previous = cs_length next \<and>
     cs_nullable previous = cs_nullable next \<and> cs_unique previous = cs_unique next \<and>
     sameDefault (cs_default previous) (cs_default next)"

definition sameTableOptions :: "table_options option \<Rightarrow> table_options option \<Rightarrow> bool" where
  "sameTableOptions previous next \<longleftrightarrow>
     (case previous of None \<Rightarrow> False | Some x \<Rightarrow> to_rowstore x) = (case next of None \<Rightarrow> False | Some x \<Rightarrow> to_rowstore x) \<and>
     opt_default [] (Option.bind previous to_shardKey) = opt_default [] (Option.bind next to_shardKey) \<and>
     opt_default [] (Option.bind previous to_sortKey) = opt_default [] (Option.bind next to_sortKey)"

subsection \<open>Phases\<close>

datatype op_kind =
    KCreateExtension | KCreateTable | KDropTable | KAddColumn | KDropColumn | KAlterColumn | KAlterPrimaryKey
  | KAddForeignKey | KDropForeignKey

fun change_kind :: "change_op \<Rightarrow> op_kind" where
  "change_kind (CreateExtension _ _) = KCreateExtension"
| "change_kind (CreateTable _ _ _ _ _) = KCreateTable"
| "change_kind (DropTable _ _) = KDropTable"
| "change_kind (AddColumn _ _) = KAddColumn"
| "change_kind (DropColumn _ _) = KDropColumn"
| "change_kind (AlterColumn _ _ _) = KAlterColumn"
| "change_kind (AlterPrimaryKey _ _ _) = KAlterPrimaryKey"
| "change_kind (AddForeignKey _ _) = KAddForeignKey"
| "change_kind (DropForeignKey _ _) = KDropForeignKey"

fun kind_text :: "op_kind \<Rightarrow> string" where
  "kind_text KCreateExtension = ''create_extension''"
| "kind_text KCreateTable = ''create_table''"
| "kind_text KDropTable = ''drop_table''"
| "kind_text KAddColumn = ''add_column''"
| "kind_text KDropColumn = ''drop_column''"
| "kind_text KAlterColumn = ''alter_column''"
| "kind_text KAlterPrimaryKey = ''alter_primary_key''"
| "kind_text KAddForeignKey = ''add_foreign_key''"
| "kind_text KDropForeignKey = ''drop_foreign_key''"

definition CHANGE_PHASES :: "op_kind list list" where
  "CHANGE_PHASES = [[KCreateExtension], [KDropForeignKey], [KDropTable], [KCreateTable, KAddColumn],
     [KAlterColumn, KAlterPrimaryKey], [KDropColumn], [KAddForeignKey]]"

definition CHANGE_PHASE :: "(op_kind \<times> nat) list" where
  "CHANGE_PHASE = new_map (concat (map (\<lambda>(kinds, phase). map (\<lambda>kind. (kind, phase)) kinds)
     (zip CHANGE_PHASES [0..<length CHANGE_PHASES])))"

definition phaseOf :: "op_kind \<Rightarrow> js_error + nat" where
  "phaseOf kind = (case map_of CHANGE_PHASE kind of
     None \<Rightarrow> Inl (PlainError (''change kind '' @ CHR 0x22 # kind_text kind @ CHR 0x22 # '' has no migration phase''))
   | Some phase \<Rightarrow> Inr phase)"

definition orderChanges :: "change_op list \<Rightarrow> js_error + change_op list" where
  "orderChanges ops = rbind (map_result (\<lambda>op. phaseOf (change_kind op)) ops) (\<lambda>phases.
     Inr (map snd (sort_key fst (zip phases ops))))"

subsection \<open>Foreign keys\<close>

definition foreignKeyIdentity :: "foreign_key \<Rightarrow> string" where
  "foreignKeyIdentity fk = CHR ''['' # json_strings (fk_columns fk) @ CHR '','' # json_string (fk_targetTable fk) @
     CHR '','' # json_strings (fk_targetColumns fk) @ '']''"

definition sameForeignKeyActions :: "foreign_key \<Rightarrow> foreign_key \<Rightarrow> bool" where
  "sameForeignKeyActions previous next \<longleftrightarrow>
     fk_onDelete previous = fk_onDelete next \<and> fk_onUpdate previous = fk_onUpdate next"

definition match_foreign_key ::
  "string \<Rightarrow> (string \<times> foreign_key) list \<times> change_op list \<Rightarrow> foreign_key \<Rightarrow>
   (string \<times> foreign_key) list \<times> change_op list" where
  "match_foreign_key table acc fk = (case acc of (unmatched, ops) \<Rightarrow>
     let identity = foreignKeyIdentity fk in
     case map_of unmatched identity of
       None \<Rightarrow> (unmatched, ops @ [AddForeignKey table fk])
     | Some before \<Rightarrow>
         (AList.delete identity unmatched,
          if sameForeignKeyActions before fk then ops
          else ops @ [DropForeignKey table before, AddForeignKey table fk]))"

definition diffForeignKeys :: "string \<Rightarrow> foreign_key list \<Rightarrow> foreign_key list \<Rightarrow> change_op list" where
  "diffForeignKeys table previous next =
     (case foldl (match_foreign_key table) (new_map (map (\<lambda>fk. (foreignKeyIdentity fk, fk)) previous), []) next of
        (unmatched, ops) \<Rightarrow> ops @ map (\<lambda>(_, fk). DropForeignKey table fk) unmatched)"

subsection \<open>Tables in the order of their references\<close>

definition set_add :: "'a \<Rightarrow> 'a list \<Rightarrow> 'a list" where
  "set_add x xs = (if x \<in> set xs then xs else xs @ [x])"

definition new_set :: "'a list \<Rightarrow> 'a list" where
  "new_set xs = foldl (\<lambda>s x. set_add x s) [] xs"

type_synonym table_deps = "(string \<times> string list) list"

definition reference_targets :: "(string \<times> table_snapshot) list \<Rightarrow> table_snapshot \<Rightarrow> string list" where
  "reference_targets created t =
     new_set (filter (\<lambda>target. target \<noteq> tb_name t \<and> target \<in> fst ` set created)
       (map fk_targetTable (tb_foreignKeys t)))"

definition add_dependant :: "string \<Rightarrow> table_deps \<Rightarrow> string \<Rightarrow> table_deps" where
  "add_dependant child m target = AList.update target (set_add child (opt_default [] (map_of m target))) m"

definition dependants_of :: "table_deps \<Rightarrow> table_deps" where
  "dependants_of dependencies =
     foldl (\<lambda>m (name, targets). foldl (add_dependant name) m targets) [] dependencies"

definition release_child ::
  "(string \<Rightarrow> string \<Rightarrow> bool) \<Rightarrow> string \<Rightarrow> table_deps \<times> string list \<Rightarrow> string \<Rightarrow> table_deps \<times> string list" where
  "release_child lc name acc child = (case acc of (dependencies, ready) \<Rightarrow>
     (case map_of dependencies child of
        None \<Rightarrow> (dependencies, ready)
      | Some remaining \<Rightarrow>
          let left = removeAll name remaining in
          (AList.update child left dependencies,
           if left = [] then by_name lc id (ready @ [child]) else ready)))"

text \<open>
  The \<open>while\<close> loop over \<open>ready\<close>. The first argument bounds the turns; \<open>order_loop_enough\<close> below shows that
  the number of tables is enough.
\<close>

fun order_loop ::
  "nat \<Rightarrow> (string \<Rightarrow> string \<Rightarrow> bool) \<Rightarrow> (string \<times> table_snapshot) list \<Rightarrow> table_deps \<Rightarrow>
   table_deps \<times> string list \<Rightarrow> table_snapshot list \<Rightarrow> table_snapshot list" where
  "order_loop (Suc n) lc created dependants (dependencies, name # ready) ordered =
     order_loop n lc created dependants
       (foldl (release_child lc name) (dependencies, ready) (opt_default [] (map_of dependants name)))
       (case map_of created name of None \<Rightarrow> ordered | Some t \<Rightarrow> ordered @ [t])"
| "order_loop _ lc created dependants _ ordered = ordered"

definition created_map :: "string list \<Rightarrow> table_snapshot list \<Rightarrow> (string \<times> table_snapshot) list" where
  "created_map previous next = new_map (map (\<lambda>t. (tb_name t, t)) (filter (\<lambda>t. tb_name t \<notin> set previous) next))"

definition initial_deps :: "(string \<times> table_snapshot) list \<Rightarrow> table_deps" where
  "initial_deps created = map (\<lambda>(name, t). (name, reference_targets created t)) created"

definition initial_ready :: "(string \<Rightarrow> string \<Rightarrow> bool) \<Rightarrow> table_deps \<Rightarrow> string list" where
  "initial_ready lc dependencies = by_name lc id (map fst (filter (\<lambda>(name, targets). targets = []) dependencies))"

definition ordered_tables :: "(string \<Rightarrow> string \<Rightarrow> bool) \<Rightarrow> (string \<times> table_snapshot) list \<Rightarrow> table_snapshot list" where
  "ordered_tables lc created =
     (let dependencies = initial_deps created in
      order_loop (length created) lc created (dependants_of dependencies)
        (dependencies, initial_ready lc dependencies) [])"

definition target_name :: "string \<Rightarrow> migration_target option \<Rightarrow> string" where
  "target_name fallback d = (case d of None \<Rightarrow> fallback | Some t \<Rightarrow> mg_name t)"

definition inline_keys :: "migration_target option \<Rightarrow> bool" where
  "inline_keys d = (case d of None \<Rightarrow> False | Some t \<Rightarrow> mg_inline t)"

definition createdTablesInOrder ::
  "(string \<Rightarrow> string \<Rightarrow> bool) \<Rightarrow> string list \<Rightarrow> table_snapshot list \<Rightarrow> migration_target option \<Rightarrow> bool \<Rightarrow>
   js_error + table_snapshot list" where
  "createdTablesInOrder lc previous next d dropping =
     (let created = created_map previous next;
          ordered = ordered_tables lc created in
      if length ordered = length created then Inr ordered
      else
        let cyclic = by_name lc id (filter (\<lambda>name. name \<notin> set (map tb_name ordered)) (map fst created));
            database = target_name ''the selected database'' d in
        if dropping
        then Inl (UnsupportedWith ''dropping mutually-referencing tables'' database
          (''dropping mutually-referencing tables '' @ join '', '' cyclic @
           '' requires an explicit constraint-removal plan; write the migration by hand''))
        else if inline_keys d
        then Inl (UnsupportedWith (''creating mutually-referencing tables '' @ join '', '' (map dq_quoted cyclic)) database
          (database @ '' cannot create the mutually-referencing tables '' @ join '' and '' (map dq_quoted cyclic) @
           ''; their foreign keys must be inline, so neither table can be created before the other'' @
           '' - use a hand-written table rebuild or remove the cycle''))
        else Inr (ordered @ List.map_filter (map_of created) cyclic))"

subsection \<open>\<open>diff\<close>\<close>

definition extension_changes :: "schema_snapshot \<Rightarrow> schema_snapshot \<Rightarrow> change_op list" where
  "extension_changes prev next = map (\<lambda>e. CreateExtension (ex_name e) (ex_schema e))
     (filter (\<lambda>e. ex_name e \<notin> ex_name ` set (sn_extensions prev)) (sn_extensions next))"

definition named_tables :: "schema_snapshot \<Rightarrow> (string \<times> table_snapshot) list" where
  "named_tables s = new_map (map (\<lambda>t. (tb_name t, t)) (sn_tables s))"

definition named_columns :: "table_snapshot \<Rightarrow> (string \<times> column_snapshot) list" where
  "named_columns t = new_map (map (\<lambda>c. (cs_name c, c)) (tb_columns t))"

definition column_changes :: "table_snapshot \<Rightarrow> table_snapshot \<Rightarrow> change_op list" where
  "column_changes before t =
     map (DropColumn (tb_name t)) (filter (\<lambda>c. map_of (named_columns t) (cs_name c) = None) (tb_columns before)) @
     concat (map (\<lambda>c. case map_of (named_columns before) (cs_name c) of
         None \<Rightarrow> [AddColumn (tb_name t) c]
       | Some bc \<Rightarrow> if sameColumn bc c then [] else [AlterColumn (tb_name t) bc c]) (tb_columns t))"

definition table_changes ::
  "migration_target option \<Rightarrow> (string \<times> table_snapshot) list \<Rightarrow> table_snapshot \<Rightarrow> js_error + change_op list" where
  "table_changes d prevTables t = (case map_of prevTables (tb_name t) of
     None \<Rightarrow> Inr []
   | Some before \<Rightarrow>
       let target = target_name ''the selected migration dialect'' d in
       if \<not> sameTableOptions (tb_options before) (tb_options t)
       then Inl (UnsupportedWith ''table options change'' target
         (target @ '' cannot alter the shard key, sort key, or rowstore setting of '' @ dq_quoted (tb_name t) @
          ''; create a replacement table and copy the data''))
       else Inr (column_changes before t @
         (if tb_primaryKey before = tb_primaryKey t then []
          else [AlterPrimaryKey (tb_name t) (tb_primaryKey before) (tb_primaryKey t)]) @
         diffForeignKeys (tb_name t) (tb_foreignKeys before) (tb_foreignKeys t)))"

definition create_changes :: "migration_target option \<Rightarrow> table_snapshot \<Rightarrow> change_op list" where
  "create_changes d t =
     CreateTable (tb_name t) (tb_columns t) (tb_primaryKey t)
       (if inline_keys d then tb_foreignKeys t else []) (tb_options t) #
     (if inline_keys d then [] else map (AddForeignKey (tb_name t)) (tb_foreignKeys t))"

definition unordered_diff ::
  "(string \<Rightarrow> string \<Rightarrow> bool) \<Rightarrow> schema_snapshot \<Rightarrow> schema_snapshot \<Rightarrow> migration_target option \<Rightarrow>
   js_error + change_op list" where
  "unordered_diff lc prev next d =
     (let prevTables = named_tables prev; nextTables = named_tables next in
      rbind (createdTablesInOrder lc (map fst nextTables) (sn_tables prev) d True) (\<lambda>dropped.
      rbind (map_result (table_changes d prevTables) (sn_tables next)) (\<lambda>changes.
      rbind (createdTablesInOrder lc (map fst prevTables) (sn_tables next) d False) (\<lambda>created.
        Inr (extension_changes prev next @ map (\<lambda>t. DropTable (tb_name t) t) (rev dropped) @ concat changes @
          concat (map (create_changes d) created))))))"

definition diff ::
  "(string \<Rightarrow> string \<Rightarrow> bool) \<Rightarrow> schema_snapshot \<Rightarrow> schema_snapshot \<Rightarrow> migration_target option \<Rightarrow>
   js_error + change_op list" where
  "diff lc prev next d =
     rbind (unordered_diff lc prev next d) (\<lambda>ops.
     rbind (orderChanges ops) (\<lambda>operations.
     case d of
       None \<Rightarrow> Inr operations
     | Some t \<Rightarrow> rbind (mg_validatePlan t prev next operations) (\<lambda>_. Inr operations)))"

record migration_plan =
  mp_operations :: "change_op list"
  mp_up :: "string list"
  mp_down :: "string list"

definition planMigration ::
  "(string \<Rightarrow> string \<Rightarrow> bool) \<Rightarrow> (change_op \<Rightarrow> js_error + string) \<Rightarrow> (change_op \<Rightarrow> js_error + string) \<Rightarrow>
   schema_snapshot \<Rightarrow> schema_snapshot \<Rightarrow> migration_target \<Rightarrow> js_error + migration_plan" where
  "planMigration lc emitUp emitDown previous next d =
     rbind (diff lc previous next (Some d)) (\<lambda>operations.
     rbind (map_result emitUp operations) (\<lambda>up.
     rbind (map_result emitDown (rev operations)) (\<lambda>down.
       Inr \<lparr>mp_operations = operations, mp_up = up, mp_down = down\<rparr>)))"

subsection \<open>The statements of a generated migration\<close>

text \<open>\<open>downStatements\<close> of \<open>operations/generate.ts\<close>.\<close>

definition downStatements ::
  "(change_op \<Rightarrow> js_error + string) \<Rightarrow> change_op list \<Rightarrow> js_error + string list" where
  "downStatements emitDown ops =
     map_result emitDown (filter (\<lambda>op. change_kind op \<noteq> KCreateExtension) (rev ops))"

end
