(* ===== verification/PostgresDdl.thy ===== *)
theory PostgresDdl
  imports MigrationDiff
begin

section \<open>The DDL of PostgreSQL\<close>

text \<open>
  \<open>packages/postgres/src/migrations.ts\<close>: the statements of a change operation and of a schema object, and
  \<open>columnDefaultSql\<close> of \<open>packages/migrations/src/index.ts\<close>. The type map is the list of its own properties.
  Every definition has the name of its function with the prefix \<open>pg_\<close>.
\<close>

subsection \<open>Names, literals and types\<close>

definition pg_quoteIdentifier :: "string \<Rightarrow> string" where
  "pg_quoteIdentifier identifier =
     CHR 0x22 # replace_all [CHR 0x22] [CHR 0x22, CHR 0x22] identifier @ [CHR 0x22]"

definition pg_quoteLiteral :: "string \<Rightarrow> string" where
  "pg_quoteLiteral value = CHR 0x27 # replace_all [CHR 0x27] [CHR 0x27, CHR 0x27] value @ [CHR 0x27]"

definition qualifiedTable :: "string option \<Rightarrow> string \<Rightarrow> string" where
  "qualifiedTable schema table = (case schema of
     None \<Rightarrow> pg_quoteIdentifier table
   | Some s \<Rightarrow> pg_quoteIdentifier s @ ''.'' @ pg_quoteIdentifier table)"

definition is_ascii_letter :: "char \<Rightarrow> bool" where
  "is_ascii_letter c \<longleftrightarrow> (let n = (of_char c :: nat) in 65 \<le> n \<and> n \<le> 90 \<or> 97 \<le> n \<and> n \<le> 122)"

text \<open>\<open>/^[A-Za-z_][A-Za-z0-9_]*$/\<close>, which the file names twice.\<close>

fun sql_identifier :: "string \<Rightarrow> bool" where
  "sql_identifier [] = False"
| "sql_identifier (c # cs) =
     ((is_ascii_letter c \<or> c = CHR ''_'') \<and> list_all (\<lambda>c. is_ascii_letter c \<or> is_digit c \<or> c = CHR ''_'') cs)"

type_synonym type_map = "(string \<times> string) list"

definition POSTGRES_TYPES :: type_map where
  "POSTGRES_TYPES = [(''serial'', ''SERIAL''), (''integer'', ''INTEGER''), (''bigint'', ''BIGINT''),
     (''numeric'', ''NUMERIC''), (''text'', ''TEXT''), (''varchar'', ''VARCHAR''), (''boolean'', ''BOOLEAN''),
     (''timestamp'', ''TIMESTAMPTZ''), (''json'', ''JSONB''), (''jsonEnum'', ''TEXT'')]"

definition json_num :: "jsnum \<Rightarrow> string" where
  "json_num n = (if is_finite n then show_num n else ''null'')"

fun json_arg :: "type_arg \<Rightarrow> string" where
  "json_arg (ArgText s) = json_string s"
| "json_arg (ArgNumber n) = json_num n"

definition pg_type_arg :: "extension_type \<Rightarrow> type_arg \<Rightarrow> js_error + string" where
  "pg_type_arg type argument =
     (let refused = Inl (TypeError (''extension type '' @ et_name type @ '' argument '' @ json_arg argument @
        '' must be a finite number or SQL identifier'')) in
      case argument of
        ArgNumber n \<Rightarrow> if is_finite n then Inr (show_num n) else refused
      | ArgText s \<Rightarrow> if sql_identifier s then Inr s else refused)"

definition pg_extensionTypeDdl :: "extension_type \<Rightarrow> js_error + string" where
  "pg_extensionTypeDdl type =
     (if \<not> sql_identifier (et_name type)
      then Inl (TypeError (''extension type name '' @ json_string (et_name type) @ '' is not a SQL identifier''))
      else rbind (map_result (pg_type_arg type) (opt_default [] (et_args type))) (\<lambda>rendered.
        Inr (et_name type @ (if rendered = [] then [] else ''('' @ join '','' rendered @ '')''))))"

definition scalarType :: "type_map \<Rightarrow> string \<Rightarrow> string" where
  "scalarType tm type = opt_default type (map_of tm type)"

definition pg_ddlType :: "type_map \<Rightarrow> column_snapshot \<Rightarrow> js_error + string" where
  "pg_ddlType tm column = (case cs_type column of
     TypeExtension e \<Rightarrow> pg_extensionTypeDdl e
   | TypeName t \<Rightarrow>
       let mapped = scalarType tm t in
       Inr (case cs_length column of
         Some n \<Rightarrow> if t = ''varchar'' \<and> mapped = ''VARCHAR'' then mapped @ ''('' @ show_int n @ '')'' else mapped
       | None \<Rightarrow> mapped))"

subsection \<open>\<open>columnDefaultSql\<close>\<close>

definition columnDefaultSql :: "column_snapshot \<Rightarrow> bool \<Rightarrow> js_error + string option" where
  "columnDefaultSql column numericBoolean = (case cs_default column of
     None \<Rightarrow> Inr None
   | Some value \<Rightarrow>
       let name = dq_quoted (cs_name column) in
       if cs_type column = TypeName ''serial''
       then Inl (TypeError (''serial column '' @ name @ '' owns its generated default; remove the explicit default''))
       else (case value of
         UnresolvedDefault \<Rightarrow> Inl (TypeError (''column '' @ name @
           '' has an unresolved default; provide its literal or SQL expression''))
       | ExpressionDefault sql \<Rightarrow>
           if trim sql = [] then Inl (TypeError (''column '' @ name @ '' has an empty default expression'')) else Inr (Some sql)
       | LiteralDefault LitNull \<Rightarrow> Inr (Some ''NULL'')
       | LiteralDefault (LitText s) \<Rightarrow> Inr (Some (pg_quoteLiteral s))
       | LiteralDefault (LitBool b) \<Rightarrow>
           Inr (Some (if numericBoolean then (if b then ''1'' else ''0'') else if b then ''TRUE'' else ''FALSE''))
       | LiteralDefault (LitNumber n) \<Rightarrow>
           if is_finite n then Inr (Some (show_num n))
           else Inl (TypeError (''column '' @ name @ '' requires a finite default''))))"

subsection \<open>Columns, keys and tables\<close>

definition pg_columnDdl :: "type_map \<Rightarrow> column_snapshot \<Rightarrow> bool \<Rightarrow> bool \<Rightarrow> js_error + string" where
  "pg_columnDdl tm column inl tableLevel =
     rbind (columnDefaultSql column False) (\<lambda>value.
     rbind (pg_ddlType tm column) (\<lambda>type.
       Inr (pg_quoteIdentifier (cs_name column) @ '' '' @ type @
         (if inl then '' PRIMARY KEY'' else []) @
         (if \<not> inl \<and> (\<not> cs_nullable column \<or> tableLevel) then '' NOT NULL'' else []) @
         (if cs_unique column \<and> \<not> inl then '' UNIQUE'' else []) @
         (case value of None \<Rightarrow> [] | Some v \<Rightarrow> '' DEFAULT '' @ v))))"

definition pg_columns :: "string list \<Rightarrow> string" where
  "pg_columns cs = join '', '' (map pg_quoteIdentifier cs)"

definition pg_primaryKeyDdl :: "string list \<Rightarrow> string" where
  "pg_primaryKeyDdl columns = ''PRIMARY KEY ('' @ pg_columns columns @ '')''"

fun pg_action :: "referential_action \<Rightarrow> string" where
  "pg_action Cascade = ''CASCADE''"
| "pg_action Restrict = ''RESTRICT''"
| "pg_action SetNull = ''SET NULL''"
| "pg_action SetDefault = ''SET DEFAULT''"
| "pg_action NoAction = ''NO ACTION''"

definition pg_foreignKeyDdl :: "foreign_key \<Rightarrow> string" where
  "pg_foreignKeyDdl fk =
     ''FOREIGN KEY ('' @ pg_columns (fk_columns fk) @ '') REFERENCES '' @ pg_quoteIdentifier (fk_targetTable fk) @
     '' ('' @ pg_columns (fk_targetColumns fk) @ '') ON DELETE '' @ pg_action (fk_onDelete fk) @
     '' ON UPDATE '' @ pg_action (fk_onUpdate fk)"

definition pg_createTableDdl ::
  "type_map \<Rightarrow> string \<Rightarrow> column_snapshot list \<Rightarrow> string list \<Rightarrow> js_error + string" where
  "pg_createTableDdl tm table columns primaryKey =
     rbind (map_result (\<lambda>c. pg_columnDdl tm c (primaryKey = [cs_name c])
         (1 < length primaryKey \<and> cs_name c \<in> set primaryKey)) columns) (\<lambda>definitions.
       Inr (''CREATE TABLE '' @ pg_quoteIdentifier table @ '' ('' @
         join '', '' (definitions @ (if 1 < length primaryKey then [pg_primaryKeyDdl primaryKey] else [])) @ '')''))"

definition pg_alterTable :: "string \<Rightarrow> string" where
  "pg_alterTable table = ''ALTER TABLE '' @ pg_quoteIdentifier table @ '' ''"

definition pg_alterPrimaryKeyDdl :: "string \<Rightarrow> string list \<Rightarrow> string list \<Rightarrow> js_error + string" where
  "pg_alterPrimaryKeyDdl table before after =
     (let clauses = (if before = [] then [] else [''DROP CONSTRAINT '' @ pg_quoteIdentifier (table @ ''_pkey'')]) @
        (if after = [] then [] else [''ADD '' @ pg_primaryKeyDdl after]) in
      if clauses = []
      then Inl (PlainError (''primary key change for '' @ dq_quoted table @ '' has no before or after columns''))
      else Inr (pg_alterTable table @ join '', '' clauses))"

definition pg_addForeignKeyDdl :: "string \<Rightarrow> foreign_key \<Rightarrow> string" where
  "pg_addForeignKeyDdl table fk =
     pg_alterTable table @ ''ADD CONSTRAINT '' @ pg_quoteIdentifier (fk_name fk) @ '' '' @ pg_foreignKeyDdl fk"

definition pg_dropForeignKeyDdl :: "string \<Rightarrow> string \<Rightarrow> string" where
  "pg_dropForeignKeyDdl table name = pg_alterTable table @ ''DROP CONSTRAINT '' @ pg_quoteIdentifier name"

record extension_def =
  xd_name :: string
  xd_schema :: "string option"
  xd_version :: "string option"

definition pg_createExtensionDdl :: "extension_def \<Rightarrow> string" where
  "pg_createExtensionDdl d = ''CREATE EXTENSION IF NOT EXISTS '' @ pg_quoteIdentifier (xd_name d) @
     (case xd_schema d of None \<Rightarrow> [] | Some s \<Rightarrow> '' WITH SCHEMA '' @ pg_quoteIdentifier s) @
     (case xd_version d of None \<Rightarrow> [] | Some v \<Rightarrow> '' VERSION '' @ pg_quoteLiteral v)"

subsection \<open>Altered columns\<close>

fun json_default :: "column_default \<Rightarrow> string" where
  "json_default (LiteralDefault v) = ''{'' @ json_string ''kind'' @ '':'' @ json_string ''literal'' @ '','' @ json_string ''value'' @ '':'' @
     (case v of LitNull \<Rightarrow> ''null'' | LitText s \<Rightarrow> json_string s | LitBool b \<Rightarrow> (if b then ''true'' else ''false'')
      | LitNumber n \<Rightarrow> json_num n) @ ''}''"
| "json_default (ExpressionDefault sql) =
     ''{'' @ json_string ''kind'' @ '':'' @ json_string ''expression'' @ '','' @ json_string ''sql'' @ '':'' @ json_string sql @ ''}''"
| "json_default UnresolvedDefault = ''{'' @ json_string ''kind'' @ '':'' @ json_string ''unresolved'' @ ''}''"

definition pg_unique_clause :: "string \<Rightarrow> column_snapshot \<Rightarrow> js_error + string" where
  "pg_unique_clause table after =
     (let name = table @ ''_'' @ cs_name after @ ''_key'' in
      if 63 < length name
      then Inl (TypeError (''unique constraint name '' @ dq_quoted name @ '' exceeds PostgreSQL'' @ CHR 0x27 #
        ''s identifier limit; use shorter names''))
      else Inr (if cs_unique after
        then ''ADD CONSTRAINT '' @ pg_quoteIdentifier name @ '' UNIQUE ('' @ pg_quoteIdentifier (cs_name after) @ '')''
        else ''DROP CONSTRAINT '' @ pg_quoteIdentifier name))"

definition defaultChanged :: "column_snapshot \<Rightarrow> column_snapshot \<Rightarrow> bool" where
  "defaultChanged before after \<longleftrightarrow>
     map_option json_default (cs_default before) \<noteq> map_option json_default (cs_default after)"

definition pg_alter_clauses ::
  "column_snapshot \<Rightarrow> column_snapshot \<Rightarrow> string option \<Rightarrow> string option \<Rightarrow> string \<Rightarrow> string \<Rightarrow> string list \<Rightarrow> string list"
  where
  "pg_alter_clauses before after beforeDefault afterDefault beforeType afterType unique =
     (let column = ''ALTER COLUMN '' @ pg_quoteIdentifier (cs_name after) @ '' '' in
      (if defaultChanged before after \<and> beforeDefault \<noteq> None then [column @ ''DROP DEFAULT''] else []) @
      (if beforeType \<noteq> afterType then [column @ ''TYPE '' @ afterType] else []) @
      (if cs_nullable before \<noteq> cs_nullable after
       then [column @ (if cs_nullable after then ''DROP'' else ''SET'') @ '' NOT NULL''] else []) @
      unique @
      (case afterDefault of
         None \<Rightarrow> []
       | Some v \<Rightarrow> if defaultChanged before after then [column @ ''SET DEFAULT '' @ v] else []))"

definition pg_alterColumnDdl :: "type_map \<Rightarrow> string \<Rightarrow> column_snapshot \<Rightarrow> column_snapshot \<Rightarrow> js_error + string" where
  "pg_alterColumnDdl tm table before after =
     rbind (columnDefaultSql before False) (\<lambda>beforeDefault.
     rbind (columnDefaultSql after False) (\<lambda>afterDefault.
     rbind (pg_ddlType tm before) (\<lambda>beforeType.
     rbind (pg_ddlType tm after) (\<lambda>afterType.
     rbind (if cs_unique before \<noteq> cs_unique after
            then rbind (pg_unique_clause table after) (\<lambda>c. Inr [c]) else Inr []) (\<lambda>unique.
       let clauses = pg_alter_clauses before after beforeDefault afterDefault beforeType afterType unique in
       if clauses = []
       then Inl (TypeError (''column '' @ dq_quoted table @ ''.'' @ dq_quoted (cs_name after) @ '' has no supported alteration''))
       else Inr (pg_alterTable table @ join '', '' clauses))))))"

subsection \<open>\<open>emitUp\<close> and \<open>emitDown\<close>\<close>

fun pg_emitUp :: "type_map \<Rightarrow> change_op \<Rightarrow> js_error + string" where
  "pg_emitUp tm (CreateExtension n s) = Inr (pg_createExtensionDdl \<lparr>xd_name = n, xd_schema = s, xd_version = None\<rparr>)"
| "pg_emitUp tm (CreateTable n cs k fks os) = pg_createTableDdl tm n cs k"
| "pg_emitUp tm (DropTable n t) = Inr (''DROP TABLE '' @ pg_quoteIdentifier n)"
| "pg_emitUp tm (AddColumn n c) =
     rbind (pg_columnDdl tm c False False) (\<lambda>ddl. Inr (pg_alterTable n @ ''ADD COLUMN '' @ ddl))"
| "pg_emitUp tm (DropColumn n c) = Inr (pg_alterTable n @ ''DROP COLUMN '' @ pg_quoteIdentifier (cs_name c))"
| "pg_emitUp tm (AlterColumn n c c') = pg_alterColumnDdl tm n c c'"
| "pg_emitUp tm (AlterPrimaryKey n k k') = pg_alterPrimaryKeyDdl n k k'"
| "pg_emitUp tm (AddForeignKey n fk) = Inr (pg_addForeignKeyDdl n fk)"
| "pg_emitUp tm (DropForeignKey n fk) = Inr (pg_dropForeignKeyDdl n (fk_name fk))"

fun pg_emitDown :: "type_map \<Rightarrow> change_op \<Rightarrow> js_error + string" where
  "pg_emitDown tm (CreateExtension n s) =
     Inl (PlainError (''extension '' @ dq_quoted n @
       '' is not dropped automatically; write a hand-authored migration after checking dependants''))"
| "pg_emitDown tm (CreateTable n cs k fks os) = Inr (''DROP TABLE '' @ pg_quoteIdentifier n)"
| "pg_emitDown tm (DropTable n t) =
     rbind (pg_createTableDdl tm n (tb_columns t) (tb_primaryKey t)) (\<lambda>create.
       Inr (join ''; '' (create # map (pg_addForeignKeyDdl n) (tb_foreignKeys t))))"
| "pg_emitDown tm (AddColumn n c) = Inr (pg_alterTable n @ ''DROP COLUMN '' @ pg_quoteIdentifier (cs_name c))"
| "pg_emitDown tm (DropColumn n c) = pg_emitUp tm (AddColumn n c)"
| "pg_emitDown tm (AlterColumn n c c') = pg_alterColumnDdl tm n c' c"
| "pg_emitDown tm (AlterPrimaryKey n k k') = pg_alterPrimaryKeyDdl n k' k"
| "pg_emitDown tm (AddForeignKey n fk) = Inr (pg_dropForeignKeyDdl n (fk_name fk))"
| "pg_emitDown tm (DropForeignKey n fk) = Inr (pg_addForeignKeyDdl n fk)"

text \<open>The checks of the dialect object: the defaults of every column, and that every operation has a statement.\<close>

definition pg_validateSnapshot :: "schema_snapshot \<Rightarrow> js_error + unit" where
  "pg_validateSnapshot s =
     rbind (map_result (\<lambda>c. columnDefaultSql c False) (concat (map tb_columns (sn_tables s)))) (\<lambda>_. Inr ())"

definition pg_validatePlan :: "type_map \<Rightarrow> schema_snapshot \<Rightarrow> schema_snapshot \<Rightarrow> change_op list \<Rightarrow> js_error + unit" where
  "pg_validatePlan tm before after operations =
     rbind (pg_validateSnapshot before) (\<lambda>_.
     rbind (pg_validateSnapshot after) (\<lambda>_.
     rbind (map_result (pg_emitUp tm) operations) (\<lambda>_. Inr ())))"

definition postgres_target :: "type_map \<Rightarrow> string \<Rightarrow> migration_target" where
  "postgres_target tm name = \<lparr>mg_name = name, mg_inline = False, mg_validatePlan = pg_validatePlan tm\<rparr>"

end
