(* ===== verification/PostgresObjects.thy ===== *)
theory PostgresObjects
  imports PostgresDdl
begin

section \<open>Schema objects of PostgreSQL\<close>

text \<open>
  The second part of \<open>packages/postgres/src/migrations.ts\<close>: indexes, views, sequences, generated columns,
  policies and routines, and \<open>schemaObjectStatements\<close>. The method of an index is the text the declaration
  holds, which the code checks; an option of an index is a number.
\<close>

subsection \<open>Indexes\<close>

datatype index_column =
    IndexName string
  | IndexColumn string "string option"
  | IndexExpr string "string option"

record index_def =
  ix_name :: string
  ix_table :: string
  ix_columns :: "index_column list"
  ix_unique :: bool
  ix_where :: "string option"
  ix_method :: "string option"
  ix_with :: "(string \<times> jsnum) list option"

definition INDEX_OPTIONS :: "(string \<times> string list) list" where
  "INDEX_OPTIONS = [(''btree'', []), (''hash'', []), (''gin'', []), (''gist'', []), (''brin'', []),
     (''ivfflat'', [''lists'']), (''hnsw'', [''m'', ''ef_construction''])]"

definition in_index :: "string \<Rightarrow> string" where
  "in_index name = '' ('' @ dq_quoted name @ '')''"

definition pg_indexMethod :: "index_def \<Rightarrow> js_error + string option" where
  "pg_indexMethod d = (case ix_method d of
     None \<Rightarrow> Inr None
   | Some value \<Rightarrow>
       if map_of INDEX_OPTIONS value \<noteq> None then Inr (Some value)
       else Inl (TypeError (''invalid index method '' @ json_string value @ in_index (ix_name d))))"

fun index_option_text :: "string \<Rightarrow> string \<Rightarrow> (string \<times> jsnum) list \<Rightarrow> string \<Rightarrow> js_error + string list" where
  "index_option_text meth name options key = (case map_of options key of
     None \<Rightarrow> Inr []
   | Some value \<Rightarrow>
       (case value of
         IntNum i \<Rightarrow>
           if i < 0 then Inl (TypeError (meth @ '' option `'' @ key @ ''` must be a non-negative integer'' @ in_index name))
           else Inr [key @ '' = '' @ show_int i]
       | _ \<Rightarrow> Inl (TypeError (meth @ '' option `'' @ key @ ''` must be a non-negative integer'' @ in_index name))))"

definition pg_indexOptions :: "index_def \<Rightarrow> string option \<Rightarrow> js_error + string" where
  "pg_indexOptions d meth = (case ix_with d of
     None \<Rightarrow> Inr []
   | Some options \<Rightarrow>
       if options = [] then Inr []
       else (case meth of
         None \<Rightarrow> Inl (TypeError (''index options require a method'' @ in_index (ix_name d)))
       | Some m \<Rightarrow>
           let allowed = opt_default [] (map_of INDEX_OPTIONS m) in
           (case find (\<lambda>key. key \<notin> set allowed) (map fst options) of
             Some key \<Rightarrow> Inl (TypeError (m @ '' does not take the option `'' @ key @ ''`'' @ in_index (ix_name d) @ ''; '' @
               m @ '' options are ('' @ join '', '' allowed @ '')''))
           | None \<Rightarrow>
               rbind (map_result (index_option_text m (ix_name d) options) allowed) (\<lambda>rendered.
                 Inr (if concat rendered = [] then [] else '' WITH ('' @ join '', '' (concat rendered) @ '')'')))))"

definition with_opclass :: "index_def \<Rightarrow> string \<Rightarrow> string option \<Rightarrow> js_error + string" where
  "with_opclass d rendered opclass = (case opclass of
     None \<Rightarrow> Inr rendered
   | Some oc \<Rightarrow>
       if sql_identifier oc then Inr (rendered @ '' '' @ oc)
       else Inl (TypeError (''index operator class '' @ json_string oc @ '' is not a SQL identifier'' @ in_index (ix_name d))))"

fun pg_renderIndexColumn :: "index_def \<Rightarrow> index_column \<Rightarrow> js_error + string" where
  "pg_renderIndexColumn d (IndexName c) = Inr (pg_quoteIdentifier c)"
| "pg_renderIndexColumn d (IndexColumn c oc) = with_opclass d (pg_quoteIdentifier c) oc"
| "pg_renderIndexColumn d (IndexExpr e oc) = with_opclass d e oc"

definition pg_createIndexDdl :: "index_def \<Rightarrow> js_error + string" where
  "pg_createIndexDdl d =
     rbind (pg_indexMethod d) (\<lambda>meth.
     rbind (case meth of
         Some m \<Rightarrow> if ix_unique d \<and> m \<noteq> ''btree''
           then Inl (UnsupportedWith (''unique '' @ m @ '' index'') ''postgres''
             (''postgres does not support a unique '' @ m @ '' index ('' @ dq_quoted (ix_name d) @ '' on '' @
              dq_quoted (ix_table d) @ '')''))
           else Inr ()
       | None \<Rightarrow> Inr ()) (\<lambda>_.
     rbind (map_result (pg_renderIndexColumn d) (ix_columns d)) (\<lambda>columns.
     rbind (pg_indexOptions d meth) (\<lambda>options.
       Inr (''CREATE '' @ (if ix_unique d then ''UNIQUE '' else []) @ ''INDEX '' @ pg_quoteIdentifier (ix_name d) @
         '' ON '' @ pg_quoteIdentifier (ix_table d) @ (case meth of None \<Rightarrow> [] | Some m \<Rightarrow> '' USING '' @ m) @
         '' ('' @ join '', '' columns @ '')'' @ options @
         (case ix_where d of None \<Rightarrow> [] | Some w \<Rightarrow> '' WHERE '' @ w))))))"

subsection \<open>Views, sequences, generated columns, policies\<close>

record view_def =
  vw_name :: string
  vw_select :: string
  vw_materialized :: bool

record sequence_def =
  sq_name :: string
  sq_start :: "jsnum option"
  sq_increment :: "jsnum option"

record generated_column =
  gc_name :: string
  gc_type :: string
  gc_expression :: string
  gc_stored :: bool

record rls_policy =
  po_name :: string
  po_table :: string
  po_using :: string
  po_command :: "string option"

definition pg_createViewDdl :: "view_def \<Rightarrow> string" where
  "pg_createViewDdl d = ''CREATE '' @ (if vw_materialized d then ''MATERIALIZED '' else []) @ ''VIEW '' @
     pg_quoteIdentifier (vw_name d) @ '' AS '' @ vw_select d"

definition pg_dropViewDdl :: "string \<Rightarrow> bool \<Rightarrow> string" where
  "pg_dropViewDdl name materialized =
     ''DROP '' @ (if materialized then ''MATERIALIZED '' else []) @ ''VIEW IF EXISTS '' @ pg_quoteIdentifier name"

definition pg_createSequenceDdl :: "sequence_def \<Rightarrow> string" where
  "pg_createSequenceDdl d = ''CREATE SEQUENCE '' @ pg_quoteIdentifier (sq_name d) @
     (case sq_start d of None \<Rightarrow> [] | Some n \<Rightarrow> '' START '' @ show_num n) @
     (case sq_increment d of None \<Rightarrow> [] | Some n \<Rightarrow> '' INCREMENT '' @ show_num n)"

definition pg_generatedColumnDdl :: "generated_column \<Rightarrow> string" where
  "pg_generatedColumnDdl c = pg_quoteIdentifier (gc_name c) @ '' '' @ gc_type c @ '' GENERATED ALWAYS AS ('' @
     gc_expression c @ '')'' @ (if gc_stored c then '' STORED'' else [])"

definition pg_createPolicyDdl :: "rls_policy \<Rightarrow> string" where
  "pg_createPolicyDdl p = ''CREATE POLICY '' @ pg_quoteIdentifier (po_name p) @ '' ON '' @ pg_quoteIdentifier (po_table p) @
     '' FOR '' @ opt_default ''ALL'' (po_command p) @ '' USING ('' @ po_using p @ '')''"

subsection \<open>Routines\<close>

datatype routine_form = RoutineFunction | RoutineProcedure

datatype param_mode = ModeIn | ModeOut | ModeInout

record routine_param =
  rm_name :: string
  rm_type :: string
  rm_mode :: "param_mode option"

record routine_def =
  rt_kind :: routine_form
  rt_name :: string
  rt_params :: "routine_param list"
  rt_returns :: "(string \<times> bool option) option"
  rt_language :: "string option"
  rt_body :: string

fun routine_kind_text :: "routine_form \<Rightarrow> string" where
  "routine_kind_text RoutineFunction = ''function''"
| "routine_kind_text RoutineProcedure = ''procedure''"

definition routineLabel :: "routine_def \<Rightarrow> string" where
  "routineLabel d = routine_kind_text (rt_kind d) @ '' '' @ pg_quoteIdentifier (rt_name d)"

definition refused_mode :: "routine_param \<Rightarrow> string option" where
  "refused_mode p = (case rm_mode p of Some ModeOut \<Rightarrow> Some ''out'' | Some ModeInout \<Rightarrow> Some ''inout'' | _ \<Rightarrow> None)"

definition assertRoutineSupported :: "routine_def \<Rightarrow> js_error + unit" where
  "assertRoutineSupported d =
     rbind (map_result (\<lambda>p. case refused_mode p of
         None \<Rightarrow> Inr ()
       | Some m \<Rightarrow> Inl (UnsupportedFeature (''postgres routine '' @ routineLabel d @ '' has unsupported '' @ m @
           '' parameter '' @ pg_quoteIdentifier (rm_name p)) ''postgres'')) (rt_params d)) (\<lambda>_. Inr ())"

definition routineTypeDdl :: "type_map \<Rightarrow> string \<Rightarrow> string" where
  "routineTypeDdl tm t =
     (if t = ''void'' then ''VOID'' else scalarType tm (if t = ''serial'' then ''integer'' else t))"

definition routineParametersDdl :: "type_map \<Rightarrow> routine_def \<Rightarrow> string" where
  "routineParametersDdl tm d =
     join '', '' (map (\<lambda>p. pg_quoteIdentifier (rm_name p) @ '' '' @ routineTypeDdl tm (rm_type p)) (rt_params d))"

definition routineReturns :: "type_map \<Rightarrow> routine_def \<Rightarrow> js_error + string" where
  "routineReturns tm d = (case rt_kind d of
     RoutineProcedure \<Rightarrow>
       if rt_returns d \<noteq> None then Inl (TypeError (routineLabel d @ '' cannot declare a return type'')) else Inr []
   | RoutineFunction \<Rightarrow> (case rt_returns d of
       None \<Rightarrow> Inl (TypeError (routineLabel d @ '' must declare a return type''))
     | Some (t, setof) \<Rightarrow>
         Inr ('' RETURNS '' @ (if setof = Some True then ''SETOF '' else []) @ routineTypeDdl tm t)))"

text \<open>
  The loop of \<open>dollarQuoteTag\<close> tries the suffixes in turn. The first argument bounds its turns; one turn more
  than the body is long is enough.
\<close>

definition dollar_tag :: "nat \<Rightarrow> string" where
  "dollar_tag k = (if k = 0 then ''$zmdb$'' else ''$zmdb'' @ show_nat k @ ''$'')"

fun dollar_loop :: "nat \<Rightarrow> string \<Rightarrow> nat \<Rightarrow> string option" where
  "dollar_loop 0 body k = None"
| "dollar_loop (Suc n) body k =
     (let tag = dollar_tag k in
      if index_from tag body 0 = None then Some tag else dollar_loop n body (k + 1))"

definition dollarQuoteTag :: "string \<Rightarrow> string option" where
  "dollarQuoteTag body = dollar_loop (Suc (length body)) body 0"

definition pg_createRoutineDdl :: "type_map \<Rightarrow> routine_def \<Rightarrow> js_error + string" where
  "pg_createRoutineDdl tm d =
     rbind (assertRoutineSupported d) (\<lambda>_.
       let tag = opt_default [] (dollarQuoteTag (rt_body d)) in
       rbind (routineReturns tm d) (\<lambda>returns.
         Inr (''CREATE OR REPLACE '' @ to_upper (routine_kind_text (rt_kind d)) @ '' '' @ pg_quoteIdentifier (rt_name d) @
           ''('' @ routineParametersDdl tm d @ '')'' @ returns @ '' LANGUAGE '' @ opt_default ''plpgsql'' (rt_language d) @
           '' AS '' @ tag @ CHR 0x0A # rt_body d @ CHR 0x0A # tag)))"

definition pg_dropRoutineDdl :: "type_map \<Rightarrow> routine_def \<Rightarrow> js_error + string" where
  "pg_dropRoutineDdl tm d =
     rbind (assertRoutineSupported d) (\<lambda>_.
       Inr (''DROP '' @ to_upper (routine_kind_text (rt_kind d)) @ '' IF EXISTS '' @ pg_quoteIdentifier (rt_name d) @
         ''('' @ join '', '' (map (routineTypeDdl tm \<circ> rm_type) (rt_params d)) @ '')''))"

definition sameRoutineSignature :: "routine_def \<Rightarrow> routine_def \<Rightarrow> bool" where
  "sameRoutineSignature previous nxt \<longleftrightarrow>
     rt_kind previous = rt_kind nxt \<and> rt_name previous = rt_name nxt \<and>
     map rm_type (rt_params previous) = map rm_type (rt_params nxt) \<and>
     (rt_kind previous = RoutineProcedure \<or>
      map_option fst (rt_returns previous) = map_option fst (rt_returns nxt) \<and>
      Option.bind (rt_returns previous) snd = Option.bind (rt_returns nxt) snd)"

definition pg_replaceRoutineStatements :: "type_map \<Rightarrow> routine_def option \<Rightarrow> routine_def \<Rightarrow> js_error + string list" where
  "pg_replaceRoutineStatements tm previous nxt =
     rbind (pg_createRoutineDdl tm nxt) (\<lambda>create. case previous of
       None \<Rightarrow> Inr [create]
     | Some p \<Rightarrow>
         if sameRoutineSignature p nxt then Inr [create]
         else rbind (pg_dropRoutineDdl tm p) (\<lambda>drop. Inr [drop, create]))"

subsection \<open>\<open>schemaObjectStatements\<close>\<close>

datatype schema_object =
    CreateIndex index_def
  | CheckConstraint string string string
  | CreateView view_def
  | DropView string bool
  | CreateSequence sequence_def
  | GeneratedColumn generated_column
  | CreateSchema string
  | EnableRls string
  | CreatePolicy rls_policy
  | CreateExtensionObject extension_def
  | CreateRoutine routine_def
  | DropRoutine routine_def
  | ReplaceRoutine "routine_def option" routine_def

definition one_statement :: "js_error + string \<Rightarrow> js_error + string list" where
  "one_statement r = rbind r (\<lambda>s. Inr [s])"

fun pg_schemaObjectStatements :: "type_map \<Rightarrow> schema_object \<Rightarrow> js_error + string list" where
  "pg_schemaObjectStatements tm (CreateIndex d) = one_statement (pg_createIndexDdl d)"
| "pg_schemaObjectStatements tm (CheckConstraint table name expression) =
     Inr [''ALTER TABLE '' @ pg_quoteIdentifier table @ '' ADD CONSTRAINT '' @ pg_quoteIdentifier name @
       '' CHECK ('' @ expression @ '')'']"
| "pg_schemaObjectStatements tm (CreateView d) = Inr [pg_createViewDdl d]"
| "pg_schemaObjectStatements tm (DropView name materialized) = Inr [pg_dropViewDdl name materialized]"
| "pg_schemaObjectStatements tm (CreateSequence d) = Inr [pg_createSequenceDdl d]"
| "pg_schemaObjectStatements tm (GeneratedColumn c) = Inr [pg_generatedColumnDdl c]"
| "pg_schemaObjectStatements tm (CreateSchema name) = Inr [''CREATE SCHEMA '' @ pg_quoteIdentifier name]"
| "pg_schemaObjectStatements tm (EnableRls table) =
     Inr [''ALTER TABLE '' @ pg_quoteIdentifier table @ '' ENABLE ROW LEVEL SECURITY'']"
| "pg_schemaObjectStatements tm (CreatePolicy p) = Inr [pg_createPolicyDdl p]"
| "pg_schemaObjectStatements tm (CreateExtensionObject d) = Inr [pg_createExtensionDdl d]"
| "pg_schemaObjectStatements tm (CreateRoutine d) = one_statement (pg_createRoutineDdl tm d)"
| "pg_schemaObjectStatements tm (DropRoutine d) = one_statement (pg_dropRoutineDdl tm d)"
| "pg_schemaObjectStatements tm (ReplaceRoutine previous n) = pg_replaceRoutineStatements tm previous n"

end
