(* ===== verification/MigrationOrder.thy ===== *)
theory MigrationOrder
  imports MigrationDiff
begin

section \<open>The order of created and dropped tables\<close>

text \<open>
  \<open>createdTablesInOrder\<close> of \<open>packages/migrations/src/index.ts\<close> is a worklist algorithm: it splits the
  tables into those done, those ready and those that still wait for a target. The invariant \<open>order_inv\<close>
  says so, every turn keeps it, and at the end either every table comes after its targets or the tables
  left over wait for one another.
\<close>

subsection \<open>Sets as lists\<close>

lemma set_new_set_aux: "set (foldl (\<lambda>s x. set_add x s) acc xs) = set acc \<union> set xs"
  by (induction xs arbitrary: acc) (auto simp: set_add_def)

lemma set_new_set [simp]: "set (new_set xs) = set xs"
  by (simp add: new_set_def set_new_set_aux)

lemma set_add_facts [simp]: "set (set_add x xs) = insert x (set xs)" "distinct (set_add x xs) = distinct xs"
  by (auto simp: set_add_def)

lemma set_by_name [simp]: "set (by_name lc f xs) = set xs" "distinct (by_name lc f xs) = distinct xs"
  by (simp_all add: by_name_def)

lemma mset_by_name [simp]: "mset (by_name lc f xs) = mset xs"
  by (simp add: by_name_def)

lemma distinct_map_by_name [simp]: "distinct (map g (by_name lc f xs)) = distinct (map g xs)"
  by (simp add: by_name_def)

subsection \<open>Dependants\<close>

definition deps :: "table_deps \<Rightarrow> string \<Rightarrow> string set" where
  "deps d n = set (opt_default [] (map_of d n))"

definition deps_distinct :: "table_deps \<Rightarrow> bool" where
  "deps_distinct d \<longleftrightarrow> (\<forall>n. distinct (opt_default [] (map_of d n)))"

lemma add_dependant_deps:
  "deps (add_dependant child m target) n = deps m n \<union> (if n = target then {child} else {})"
  by (simp add: add_dependant_def deps_def)

lemma add_dependant_distinct: "deps_distinct m \<Longrightarrow> deps_distinct (add_dependant child m target)"
  by (simp add: add_dependant_def deps_distinct_def)

lemma add_dependants_deps:
  "deps (foldl (add_dependant child) m targets) n = deps m n \<union> (if n \<in> set targets then {child} else {})"
  by (induction targets arbitrary: m) (auto simp: add_dependant_deps)

lemma add_dependants_distinct: "deps_distinct m \<Longrightarrow> deps_distinct (foldl (add_dependant child) m targets)"
  by (induction targets arbitrary: m) (simp_all add: add_dependant_distinct)

lemma dependants_of_aux:
  "deps (foldl (\<lambda>m (name, targets). foldl (add_dependant name) m targets) m d) n =
     deps m n \<union> {c. \<exists>targets. (c, targets) \<in> set d \<and> n \<in> set targets}"
  "deps_distinct m \<Longrightarrow> deps_distinct (foldl (\<lambda>m (name, targets). foldl (add_dependant name) m targets) m d)"
  by (induction d arbitrary: m) (auto simp: add_dependants_deps add_dependants_distinct split: if_splits)

lemma dependants_of_deps: "deps (dependants_of d) n = {c. \<exists>targets. (c, targets) \<in> set d \<and> n \<in> set targets}"
  by (simp add: dependants_of_def dependants_of_aux(1)) (simp add: deps_def)

lemma dependants_of_distinct: "distinct (opt_default [] (map_of (dependants_of d) n))"
  using dependants_of_aux(2) [of "[]" d] by (simp add: dependants_of_def deps_distinct_def)

subsection \<open>One turn\<close>

lemma release_children:
  assumes "distinct children" and "set children \<subseteq> dom (map_of d)" and "distinct ready"
    and "set children \<inter> set ready = {}" and "foldl (release_child lc name) (d, ready) children = (d', ready')"
  shows "dom (map_of d') = dom (map_of d) \<and>
    (\<forall>n. deps d' n = (if n \<in> set children then deps d n - {name} else deps d n)) \<and> distinct ready' \<and>
    set ready' = set ready \<union> {c \<in> set children. deps d c \<subseteq> {name}}"
  using assms
proof (induction children arbitrary: d ready)
  case (Cons c cs)
  then obtain remaining where r: "map_of d c = Some remaining" by auto
  let ?d = "AList.update c (removeAll name remaining) d"
  let ?ready = "if removeAll name remaining = [] then by_name lc id (ready @ [c]) else ready"
  have step: "release_child lc name (d, ready) c = (?d, ?ready)" by (simp add: release_child_def r Let_def)
  have empty: "removeAll name remaining = [] \<longleftrightarrow> deps d c \<subseteq> {name}"
    unfolding set_empty [symmetric] by (auto simp: deps_def r)
  have d: "deps ?d n = (if n = c then deps d c - {name} else deps d n)" for n
    by (simp add: deps_def r)
  have "dom (map_of d') = dom (map_of ?d) \<and>
    (\<forall>n. deps d' n = (if n \<in> set cs then deps ?d n - {name} else deps ?d n)) \<and> distinct ready' \<and>
    set ready' = set ?ready \<union> {c \<in> set cs. deps ?d c \<subseteq> {name}}"
  proof (rule Cons.IH)
    show "distinct cs" "set cs \<subseteq> dom (map_of ?d)" "distinct ?ready" "set cs \<inter> set ?ready = {}"
      using Cons.prems by auto
    show "foldl (release_child lc name) (?d, ?ready) cs = (d', ready')" using Cons.prems(5) by (simp add: step)
  qed
  then have dom': "dom (map_of d') = dom (map_of ?d)" and dist': "distinct ready'"
    and deps': "\<And>n. deps d' n = (if n \<in> set cs then deps ?d n - {name} else deps ?d n)"
    and ready': "set ready' = set ?ready \<union> {x \<in> set cs. deps ?d x \<subseteq> {name}}" by blast+
  have "dom (map_of d') = dom (map_of d)" using r dom' by auto
  moreover have "deps d' n = (if n \<in> set (c # cs) then deps d n - {name} else deps d n)" for n
    using Cons.prems(1) by (auto simp: d deps')
  moreover have "{x \<in> set cs. deps ?d x \<subseteq> {name}} = {x \<in> set cs. deps d x \<subseteq> {name}}"
    using Cons.prems(1) by (intro Collect_cong) (auto simp: d)
  then have "set ready' = set ready \<union> {x \<in> set (c # cs). deps d x \<subseteq> {name}}"
    by (auto simp: ready' empty)
  ultimately show ?case using dist' by blast
qed simp

text \<open>
  \<open>D\<close> is the initial table of targets, \<open>done\<close> the names in the order they were taken.
\<close>

definition in_order :: "(string \<Rightarrow> string set) \<Rightarrow> string list \<Rightarrow> bool" where
  "in_order D names \<longleftrightarrow> (\<forall>i < length names. D (names ! i) \<subseteq> set (take i names))"

definition order_inv :: "table_deps \<Rightarrow> string list \<Rightarrow> table_deps \<times> string list \<Rightarrow> bool" where
  "order_inv D taken st \<longleftrightarrow> (case st of (d, ready) \<Rightarrow>
     dom (map_of d) = dom (map_of D) \<and> (\<forall>n. deps d n = deps D n - set taken) \<and> distinct (taken @ ready) \<and>
     set taken \<subseteq> dom (map_of D) \<and> set ready = {n \<in> dom (map_of D). n \<notin> set taken \<and> deps D n \<subseteq> set taken} \<and>
     in_order (deps D) taken)"

lemma in_order_snoc: "in_order D names \<Longrightarrow> D n \<subseteq> set names \<Longrightarrow> in_order D (names @ [n])"
  by (auto simp: in_order_def nth_append less_Suc_eq)

lemma deps_of_member: "distinct (map fst D) \<Longrightarrow> (c, targets) \<in> set D \<Longrightarrow> deps D c = set targets"
  by (simp add: deps_def)

lemma dependants_of_set:
  "distinct (map fst D) \<Longrightarrow> deps (dependants_of D) n = {c \<in> dom (map_of D). n \<in> deps D c}"
  by (auto simp: dependants_of_deps deps_of_member dest: map_of_SomeD)

lemma order_inv_turn:
  assumes inv: "order_inv D taken (d, name # ready)" and D: "distinct (map fst D)"
  shows "order_inv D (taken @ [name])
    (foldl (release_child lc name) (d, ready) (opt_default [] (map_of (dependants_of D) name)))"
proof -
  let ?cs = "opt_default [] (map_of (dependants_of D) name)"
  obtain d' ready' where st: "foldl (release_child lc name) (d, ready) ?cs = (d', ready')" by fastforce
  have cs: "set ?cs = {c \<in> dom (map_of D). name \<in> deps D c}"
    using dependants_of_set [OF D] by (simp add: deps_def)
  have doms: "dom (map_of d) = dom (map_of D)" and rest: "\<And>n. deps d n = deps D n - set taken"
    and ready: "insert name (set ready) = {n \<in> dom (map_of D). n \<notin> set taken \<and> deps D n \<subseteq> set taken}"
    and dist: "distinct (taken @ name # ready)" and ord: "in_order (deps D) taken" "set taken \<subseteq> dom (map_of D)"
    using inv unfolding order_inv_def prod.case list.set by (blast, blast, blast, blast, blast, blast)
  have name: "name \<notin> set taken" "deps D name \<subseteq> set taken" "name \<in> dom (map_of D)" using ready by auto
  have "set ?cs \<inter> set ready = {}" using ready name(1) unfolding cs by auto
  then have *: "dom (map_of d') = dom (map_of d) \<and>
      (\<forall>n. deps d' n = (if n \<in> set ?cs then deps d n - {name} else deps d n)) \<and> distinct ready' \<and>
      set ready' = set ready \<union> {c \<in> set ?cs. deps d c \<subseteq> {name}}"
    using dependants_of_distinct dist by (intro release_children [OF _ _ _ _ st]) (auto simp: cs doms)
  have "deps d' n = deps D n - set (taken @ [name])" for n
  proof (cases "n \<in> set ?cs")
    case False
    then have "name \<notin> deps D n" unfolding cs by (cases "map_of D n") (auto simp: deps_def)
    with False * show ?thesis by (auto simp: rest)
  qed (use * in \<open>auto simp: rest\<close>)
  moreover have ready': "set ready' =
      {n \<in> dom (map_of D). n \<notin> set (taken @ [name]) \<and> deps D n \<subseteq> set (taken @ [name])}"
  proof -
    have "set ready = {n \<in> dom (map_of D). n \<notin> set taken \<and> n \<noteq> name \<and> deps D n \<subseteq> set taken}"
      using ready dist by auto
    moreover have "{c \<in> set ?cs. deps d c \<subseteq> {name}} = {c \<in> dom (map_of D). name \<in> deps D c \<and> c \<notin> set taken \<and>
        c \<noteq> name \<and> deps D c \<subseteq> insert name (set taken)}"
    proof -
      have "c \<notin> set taken" if "name \<in> deps D c" for c
      proof
        assume "c \<in> set taken"
        then obtain i where "i < length taken" "taken ! i = c" by (auto simp: in_set_conv_nth)
        with ord(1) that have "name \<in> set (take i taken)" by (auto simp: in_order_def)
        with name(1) show False by (auto dest: in_set_takeD)
      qed
      moreover have "name \<notin> deps D name" using name by auto
      ultimately show ?thesis unfolding cs rest by blast
    qed
    ultimately show ?thesis using * by auto
  qed
  moreover have "distinct ((taken @ [name]) @ ready')"
    using * dist ready' by auto
  moreover have "set (taken @ [name]) \<subseteq> dom (map_of D)" using ord(2) name(3) by simp
  moreover have "dom (map_of d') = dom (map_of D)" using * doms by blast
  ultimately show ?thesis
    using in_order_snoc [OF ord(1) name(2)] unfolding st order_inv_def prod.case by blast
qed

subsection \<open>The loop\<close>

text \<open>The tables of the map \<open>created\<close> are filed under their names, and have the initial dependencies \<open>D\<close>.\<close>

definition files :: "(string \<times> table_snapshot) list \<Rightarrow> table_deps \<Rightarrow> bool" where
  "files created D \<longleftrightarrow> distinct (map fst D) \<and> dom (map_of created) = dom (map_of D) \<and>
     (\<forall>n t. map_of created n = Some t \<longrightarrow> tb_name t = n)"

lemma order_inv_length: "order_inv D taken st \<Longrightarrow> distinct (map fst D) \<Longrightarrow> length taken \<le> length D"
proof -
  assume "order_inv D taken st" "distinct (map fst D)"
  then have "distinct taken" "set taken \<subseteq> set (map fst D)"
    by (auto simp: order_inv_def dom_map_of_conv_image_fst split: prod.splits)
  then show ?thesis using card_mono [of "set (map fst D)" "set taken"] \<open>distinct (map fst D)\<close>
    by (metis distinct_card finite_set length_map)
qed

lemma order_inv_full:
  assumes "order_inv D taken (d, ready)" and "distinct (map fst D)" and "length D \<le> length taken"
  shows "ready = []"
proof -
  have "distinct (taken @ ready)" "set (taken @ ready) \<subseteq> set (map fst D)"
    using assms(1) by (auto simp: order_inv_def dom_map_of_conv_image_fst)
  then have "length (taken @ ready) \<le> length D"
    using card_mono [of "set (map fst D)" "set (taken @ ready)"] assms(2)
    by (metis distinct_card finite_set length_map)
  with assms(3) show ?thesis by (cases ready) simp_all
qed

definition loop_result :: "table_deps \<Rightarrow> (string \<times> table_snapshot) list \<Rightarrow> table_snapshot list \<Rightarrow> bool" where
  "loop_result D created r \<longleftrightarrow> (\<exists>d. order_inv D (map tb_name r) (d, [])) \<and> set r \<subseteq> ran (map_of created)"

lemma order_loop_result:
  "order_inv D (map tb_name ordered) st \<Longrightarrow> files created D \<Longrightarrow> set ordered \<subseteq> ran (map_of created) \<Longrightarrow>
     length D \<le> n + length ordered \<Longrightarrow>
     loop_result D created (order_loop n lc created (dependants_of D) st ordered) \<and>
     order_loop (n + k) lc created (dependants_of D) st ordered = order_loop n lc created (dependants_of D) st ordered"
proof (induction n arbitrary: st ordered)
  case 0
  obtain d ready where st: "st = (d, ready)" by fastforce
  with 0 have "ready = []" using order_inv_full [of D "map tb_name ordered" d ready] by (simp add: files_def)
  with 0 st show ?case by (cases k) (auto simp: loop_result_def)
next
  case (Suc n)
  obtain d ready where st: "st = (d, ready)" by fastforce
  show ?case
  proof (cases ready)
    case Nil
    with Suc.prems st show ?thesis by (auto simp: loop_result_def)
  next
    case (Cons name rest)
    have D: "distinct (map fst D)" using Suc.prems(2) by (simp add: files_def)
    have "name \<in> dom (map_of D)" using Suc.prems(1) by (auto simp: st Cons order_inv_def)
    then have "name \<in> dom (map_of created)" using Suc.prems(2) by (simp add: files_def)
    then obtain t where t: "map_of created name = Some t" by blast
    then have t': "tb_name t = name" using Suc.prems(2) by (simp add: files_def)
    have inv: "order_inv D (map tb_name (ordered @ [t]))
        (foldl (release_child lc name) (d, rest) (opt_default [] (map_of (dependants_of D) name)))"
      using order_inv_turn [of D "map tb_name ordered" d name rest lc] Suc.prems(1) D by (simp add: st Cons t')
    have "set (ordered @ [t]) \<subseteq> ran (map_of created)" using Suc.prems(3) t by (auto simp: ran_def)
    from Suc.IH [OF inv Suc.prems(2) this] Suc.prems(4) show ?thesis by (simp add: st Cons t)
  qed
qed

subsection \<open>What the order guarantees\<close>

lemma created_map_filter:
  "distinct (map tb_name next) \<Longrightarrow>
     created_map previous next = map (\<lambda>t. (tb_name t, t)) (filter (\<lambda>t. tb_name t \<notin> set previous) next)"
  unfolding created_map_def by (intro new_map_distinct) (simp add: comp_def distinct_map_filter)

lemma created_files: "files (created_map previous next) (initial_deps (created_map previous next))"
proof -
  let ?c = "created_map previous next"
  have "distinct (map fst ?c)" by (simp add: created_map_def distinct_new_map)
  moreover have "tb_name t = n" if "map_of ?c n = Some t" for n t
    using that by (auto simp: created_map_def map_of_new_map dest!: map_of_SomeD)
  moreover have "map fst (initial_deps ?c) = map fst ?c" by (auto simp: initial_deps_def)
  ultimately show ?thesis by (simp add: files_def dom_map_of_conv_image_fst) (metis image_set)
qed

definition table_targets :: "string set \<Rightarrow> table_snapshot \<Rightarrow> string set" where
  "table_targets names t = {target \<in> fk_targetTable ` set (tb_foreignKeys t). target \<noteq> tb_name t \<and> target \<in> names}"

lemma initial_deps_of:
  assumes "map_of created n = Some t"
  shows "deps (initial_deps created) n = table_targets (fst ` set created) t"
proof -
  have "map_of (initial_deps created) n = map_option (reference_targets created) (map_of created n)"
    unfolding initial_deps_def by (simp add: map_of_map)
  with assms show ?thesis by (auto simp: deps_def reference_targets_def table_targets_def)
qed

lemma initial_order_inv:
  assumes "distinct (map fst (initial_deps created))"
  shows "order_inv (initial_deps created) [] (initial_deps created, initial_ready lc (initial_deps created))"
proof -
  let ?D = "initial_deps created"
  have eq: "fst ` set (filter (\<lambda>(name, targets). targets = []) ?D) = {n \<in> dom (map_of ?D). deps ?D n = {}}"
    using assms by (auto simp: deps_of_member image_iff dest: map_of_SomeD)
  have "distinct (map fst (filter (\<lambda>(name, targets). targets = []) ?D))"
    using assms by (rule distinct_map_filter)
  moreover have "set (initial_ready lc ?D) = {n \<in> dom (map_of ?D). deps ?D n = {}}"
    by (simp only: initial_ready_def set_by_name set_map eq)
  ultimately show ?thesis by (auto simp: order_inv_def in_order_def initial_ready_def)
qed

text \<open>The bound on the turns is enough: more of them change nothing.\<close>

lemma order_loop_enough:
  fixes created defines "D \<equiv> initial_deps created"
  assumes "files created D"
  shows "order_loop (length created + k) lc created (dependants_of D) (D, initial_ready lc D) [] =
    ordered_tables lc created"
    and "loop_result D created (ordered_tables lc created)"
proof -
  have "order_inv D (map tb_name []) (D, initial_ready lc D)"
    using initial_order_inv [of created lc] assms(2) by (simp add: D_def files_def)
  moreover have "length D \<le> length created + length ([] :: table_snapshot list)"
    by (simp add: D_def initial_deps_def)
  ultimately show "order_loop (length created + k) lc created (dependants_of D) (D, initial_ready lc D) [] =
      ordered_tables lc created"
    and "loop_result D created (ordered_tables lc created)"
    using order_loop_result [of D "[]" "(D, initial_ready lc D)" created "length created" lc k] assms(2)
    by (simp_all add: ordered_tables_def Let_def flip: D_def)
qed

text \<open>
  \<open>targets_first\<close>: every table of the list comes after the other tables of the list it references.
  \<open>mutually_referencing\<close>: a set of tables of which each references another one of the set.
\<close>

definition targets_first :: "table_snapshot list \<Rightarrow> bool" where
  "targets_first ts \<longleftrightarrow>
     (\<forall>i < length ts. table_targets (tb_name ` set ts) (ts ! i) \<subseteq> tb_name ` set (take i ts))"

definition mutually_referencing :: "table_snapshot set \<Rightarrow> bool" where
  "mutually_referencing ts \<longleftrightarrow> ts \<noteq> {} \<and> (\<forall>t \<in> ts. table_targets (tb_name ` ts) t \<noteq> {})"

definition new_tables :: "string list \<Rightarrow> table_snapshot list \<Rightarrow> table_snapshot set" where
  "new_tables previous next = {t \<in> set next. tb_name t \<notin> set previous}"

lemma table_targets_mono: "a \<subseteq> b \<Longrightarrow> table_targets a t \<subseteq> table_targets b t"
  by (auto simp: table_targets_def)

lemma created_distinct: "distinct (map fst (created_map previous next))"
  by (simp add: created_map_def distinct_new_map)

lemma created_ran:
  assumes "distinct (map tb_name next)"
  shows "ran (map_of (created_map previous next)) = new_tables previous next"
proof -
  have "ran (map_of (created_map previous next)) = snd ` set (created_map previous next)"
    by (rule ran_distinct [OF created_distinct])
  then show ?thesis by (force simp: created_map_filter [OF assms] new_tables_def)
qed

lemma created_names:
  "distinct (map tb_name next) \<Longrightarrow> fst ` set (created_map previous next) = tb_name ` new_tables previous next"
  by (force simp: created_map_filter new_tables_def)

lemma created_length:
  assumes "distinct (map tb_name next)"
  shows "length (created_map previous next) = card (new_tables previous next)"
proof -
  have "distinct (filter (\<lambda>t. tb_name t \<notin> set previous) next)" using assms by (simp add: distinct_map)
  then show ?thesis
    by (simp add: created_map_filter [OF assms] new_tables_def distinct_card [symmetric])
qed

lemma new_tables_inj: "distinct (map tb_name next) \<Longrightarrow> inj_on tb_name (new_tables previous next)"
  by (auto simp: distinct_map new_tables_def intro: inj_on_subset)

lemma created_lookup:
  assumes "distinct (map tb_name next)" and "t \<in> new_tables previous next"
  shows "map_of (created_map previous next) (tb_name t) = Some t"
proof -
  have "(tb_name t, t) \<in> set (created_map previous next)"
    using assms(2) unfolding created_map_filter [OF assms(1)] by (auto simp: new_tables_def)
  then show ?thesis by (simp add: created_distinct)
qed

abbreviation ordered_new ::
  "(string \<Rightarrow> string \<Rightarrow> bool) \<Rightarrow> string list \<Rightarrow> table_snapshot list \<Rightarrow> table_snapshot list" where
  "ordered_new lc previous next \<equiv> ordered_tables lc (created_map previous next)"

lemma ordered_inv:
  assumes "distinct (map tb_name next)"
  obtains d where "order_inv (initial_deps (created_map previous next)) (map tb_name (ordered_new lc previous next)) (d, [])"
    and "set (ordered_new lc previous next) \<subseteq> new_tables previous next"
  using order_loop_enough(2) [of "created_map previous next" lc] created_files [of previous "next"]
    created_ran [OF assms] by (auto simp: loop_result_def)

lemma ordered_distinct:
  assumes "distinct (map tb_name next)"
  shows "distinct (map tb_name (ordered_new lc previous next))"
  by (rule ordered_inv [OF assms, of previous lc]) (auto simp: order_inv_def)

lemma ordered_all:
  assumes "distinct (map tb_name next)"
  shows "length (ordered_new lc previous next) = length (created_map previous next) \<longleftrightarrow>
    set (ordered_new lc previous next) = new_tables previous next"
proof -
  let ?r = "ordered_new lc previous next"
  have "length ?r = card (set ?r)"
    using ordered_distinct [OF assms, of lc previous] by (simp add: distinct_map distinct_card)
  moreover have "set ?r \<subseteq> new_tables previous next" by (rule ordered_inv [OF assms])
  moreover have "finite (new_tables previous next)" by (simp add: new_tables_def)
  ultimately show ?thesis by (metis card_subset_eq created_length [OF assms])
qed

lemma new_deps:
  assumes "distinct (map tb_name next)" and "t \<in> new_tables previous next"
  shows "deps (initial_deps (created_map previous next)) (tb_name t) =
    table_targets (tb_name ` new_tables previous next) t"
  using initial_deps_of [OF created_lookup [OF assms]] created_names [OF assms(1)] by simp

lemma ordered_targets_first:
  assumes "distinct (map tb_name next)" and "set (ordered_new lc previous next) = new_tables previous next"
  shows "targets_first (ordered_new lc previous next)"
  unfolding targets_first_def
proof (intro allI impI)
  fix i assume i: "i < length (ordered_new lc previous next)"
  let ?r = "ordered_new lc previous next"
  have "in_order (deps (initial_deps (created_map previous next))) (map tb_name ?r)"
    by (rule ordered_inv [OF assms(1), of previous lc]) (auto simp: order_inv_def)
  moreover have "?r ! i \<in> new_tables previous next" using i assms(2) by (metis nth_mem)
  note new_deps [OF assms(1) this]
  ultimately show "table_targets (tb_name ` set ?r) (?r ! i) \<subseteq> tb_name ` set (take i ?r)"
    using i assms(2) by (auto simp: in_order_def take_map)
qed

lemma ordered_rest_cyclic:
  assumes "distinct (map tb_name next)" and "set (ordered_new lc previous next) \<noteq> new_tables previous next"
  shows "mutually_referencing (new_tables previous next - set (ordered_new lc previous next))"
proof -
  let ?r = "ordered_new lc previous next" and ?new = "new_tables previous next"
    and ?D = "initial_deps (created_map previous next)"
  obtain d where inv: "order_inv ?D (map tb_name ?r) (d, [])" and sub: "set ?r \<subseteq> ?new"
    by (rule ordered_inv [OF assms(1)])
  have names: "tb_name ` ?new - tb_name ` set ?r = tb_name ` (?new - set ?r)"
    using inj_on_image_set_diff [OF new_tables_inj [OF assms(1), of previous], where A = ?new and B = "set ?r"] sub
    by auto
  have waiting: "{n \<in> dom (map_of ?D). n \<notin> tb_name ` set ?r \<and> deps ?D n \<subseteq> tb_name ` set ?r} = {}"
    using inv unfolding order_inv_def prod.case by simp
  have "table_targets (tb_name ` (?new - set ?r)) t \<noteq> {}" if t: "t \<in> ?new - set ?r" for t
  proof -
    have "tb_name t \<in> dom (map_of (created_map previous next))"
      using created_lookup [OF assms(1), of t previous] t by blast
    then have "tb_name t \<in> dom (map_of ?D)"
      using created_files [of previous "next"] by (simp add: files_def)
    moreover have "tb_name t \<notin> tb_name ` set ?r" using t names by blast
    ultimately have "\<not> deps ?D (tb_name t) \<subseteq> tb_name ` set ?r" using waiting by blast
    then obtain n where "n \<in> table_targets (tb_name ` ?new) t" "n \<notin> tb_name ` set ?r"
      using new_deps [OF assms(1), of t previous] t by auto
    with names show ?thesis by (auto simp: table_targets_def)
  qed
  with sub assms(2) show ?thesis by (auto simp: mutually_referencing_def)
qed

text \<open>A list in order has no mutually referencing part: take the first of its tables.\<close>

lemma targets_first_acyclic:
  assumes "targets_first ts" and "ls \<subseteq> set ts" and "inj_on tb_name (set ts)"
  shows "\<not> mutually_referencing ls"
proof
  assume cyc: "mutually_referencing ls"
  then obtain t where "t \<in> ls" by (auto simp: mutually_referencing_def)
  then obtain i0 where "i0 < length ts \<and> ts ! i0 \<in> ls" using assms(2) by (auto simp: in_set_conv_nth subset_iff)
  then obtain i where i: "i < length ts" "ts ! i \<in> ls" and least: "\<And>j. j < i \<Longrightarrow> \<not> (j < length ts \<and> ts ! j \<in> ls)"
    using exists_least_iff [of "\<lambda>i. i < length ts \<and> ts ! i \<in> ls"] by blast
  from cyc i(2) obtain n where n: "n \<in> table_targets (tb_name ` ls) (ts ! i)" by (auto simp: mutually_referencing_def)
  have "tb_name ` ls \<subseteq> tb_name ` set ts" using assms(2) by blast
  with n have "n \<in> table_targets (tb_name ` set ts) (ts ! i)" by (auto simp: table_targets_def)
  then have "n \<in> tb_name ` set (take i ts)" using assms(1) i(1) by (auto simp: targets_first_def)
  then obtain t' where t': "t' \<in> set (take i ts)" "tb_name t' = n" by blast
  then obtain j where j: "j < i" "j < length ts" "ts ! j = t'" by (auto simp: in_set_conv_nth)
  moreover have "t' \<in> ls"
    using n t' assms(2,3) by (auto simp: table_targets_def inj_on_def dest: in_set_takeD)
  ultimately show False using least by blast
qed

subsection \<open>\<open>createdTablesInOrder\<close>\<close>

lemma created_tables_all:
  assumes dist: "distinct (map tb_name next)" and r: "createdTablesInOrder lc previous next d dropping = Inr r"
  shows "distinct (map tb_name r)" and "set r = new_tables previous next"
    and "dropping \<or> inline_keys d \<Longrightarrow> targets_first r"
proof -
  let ?o = "ordered_new lc previous next" and ?c = "created_map previous next"
  have sub: "set ?o \<subseteq> new_tables previous next" by (rule ordered_inv [OF dist])
  have "distinct (map tb_name r) \<and> set r = new_tables previous next \<and>
      (dropping \<or> inline_keys d \<longrightarrow> targets_first r)"
  proof (cases "length ?o = length ?c")
    case True
    then have "set ?o = new_tables previous next" using ordered_all [OF dist] by blast
    moreover have "r = ?o" using True r by (simp add: createdTablesInOrder_def Let_def)
    ultimately show ?thesis using ordered_targets_first [OF dist] ordered_distinct [OF dist, of lc previous] by blast
  next
    case False
    let ?names = "by_name lc id (filter (\<lambda>name. name \<notin> set (map tb_name ?o)) (map fst ?c))"
    have r': "r = ?o @ List.map_filter (map_of ?c) ?names" "\<not> dropping" "\<not> inline_keys d"
      using r False by (auto simp: createdTablesInOrder_def Let_def split: if_splits)
    have names: "distinct ?names" "set ?names = fst ` set ?c - tb_name ` set ?o"
      using created_distinct by (auto simp: distinct_filter)
    have same: "map tb_name (List.map_filter (map_of ?c) ns) = ns" if "set ns \<subseteq> fst ` set ?c" for ns
      using that
    proof (induction ns)
      case (Cons n ns)
      then have "map_of ?c n \<noteq> None" by (simp add: map_of_eq_None_iff)
      then obtain t where "map_of ?c n = Some t" by blast
      with Cons created_files [of previous "next"] show ?case by (auto simp: map_filter_simps files_def)
    qed (simp add: map_filter_simps)
    have rest: "map tb_name (List.map_filter (map_of ?c) ?names) = ?names" by (rule same) (use names in auto)
    have dist_r: "distinct (map tb_name r)"
      using names ordered_distinct [OF dist, of lc previous] unfolding r'(1) map_append rest by auto
    have "set (List.map_filter (map_of ?c) ?names) \<subseteq> new_tables previous next"
      using created_ran [OF dist, of previous] by (auto simp: List.map_filter_def ran_def)
    with sub have sub_r: "set r \<subseteq> new_tables previous next" by (simp add: r'(1))
    have "tb_name ` set r = tb_name ` set ?o \<union> set ?names" unfolding r'(1) set_append image_Un
      by (simp only: set_map [symmetric] rest)
    also have "\<dots> = tb_name ` new_tables previous next"
      using names(2) created_names [OF dist, of previous] sub by auto
    finally have "set r = new_tables previous next"
      using sub_r new_tables_inj [OF dist, of previous] by (metis inj_on_image_eq_iff subset_refl)
    with dist_r r' show ?thesis by simp
  qed
  then show "distinct (map tb_name r)" "set r = new_tables previous next"
    "dropping \<or> inline_keys d \<Longrightarrow> targets_first r" by blast+
qed

text \<open>It refuses exactly a set of tables with a mutually referencing part.\<close>

lemma created_tables_refused:
  assumes dist: "distinct (map tb_name next)" and "dropping \<or> inline_keys d"
  shows "(\<exists>e. createdTablesInOrder lc previous next d dropping = Inl e) \<longleftrightarrow>
    (\<exists>ls \<subseteq> new_tables previous next. mutually_referencing ls)"
proof (cases "set (ordered_new lc previous next) = new_tables previous next")
  case True
  then have "createdTablesInOrder lc previous next d dropping = Inr (ordered_new lc previous next)"
    using ordered_all [OF dist] by (simp add: createdTablesInOrder_def Let_def)
  moreover have "\<not> mutually_referencing ls" if "ls \<subseteq> new_tables previous next" for ls
    using targets_first_acyclic [OF ordered_targets_first [OF dist True]] that new_tables_inj [OF dist] True by simp
  ultimately show ?thesis by auto
next
  case False
  then have "\<exists>e. createdTablesInOrder lc previous next d dropping = Inl e"
    using ordered_all [OF dist] assms(2) by (cases dropping) (simp_all add: createdTablesInOrder_def Let_def)
  moreover have "\<exists>ls \<subseteq> new_tables previous next. mutually_referencing ls"
    using ordered_rest_cyclic [OF dist False] by blast
  ultimately show ?thesis by blast
qed

end
