(* ===== verification/MigrationEffect.thy ===== *)
theory MigrationEffect
  imports MigrationOrder
begin

section \<open>What the operations of a migration do\<close>

text \<open>
  The specification side of \<open>packages/migrations\<close>: an abstract database and the effect of one change
  operation on it. An operation is refused where a database would refuse it (a table that exists
  already, a column a key still uses, a reference to a table that is not there) and where what the
  operation says of the old state is wrong. A column is stored as the dialects render it: its part in the
  primary key is the key of the table, and absent type arguments are no arguments. Constraints are stored
  by what they relate, as the code compares them, not by their names.
\<close>

type_synonym key_id = "string list \<times> string \<times> string list"

record abstract_db =
  ab_tables :: "string \<rightharpoonup> (string list \<times> (bool \<times> string list \<times> string list))"
  ab_columns :: "string \<times> string \<rightharpoonup> column_snapshot"
  ab_keys :: "string \<times> key_id \<rightharpoonup> (referential_action \<times> referential_action)"
  ab_extensions :: "string set"

subsection \<open>The state a snapshot describes\<close>

fun canon_type :: "column_type \<Rightarrow> column_type" where
  "canon_type (TypeName t) = TypeName t"
| "canon_type (TypeExtension e) = TypeExtension (e\<lparr>et_args := Some (opt_default [] (et_args e))\<rparr>)"

definition canon :: "column_snapshot \<Rightarrow> column_snapshot" where
  "canon c = c\<lparr>cs_type := canon_type (cs_type c), cs_primaryKey := False\<rparr>"

definition key_id :: "foreign_key \<Rightarrow> key_id" where
  "key_id fk = (fk_columns fk, fk_targetTable fk, fk_targetColumns fk)"

definition key_actions :: "foreign_key \<Rightarrow> referential_action \<times> referential_action" where
  "key_actions fk = (fk_onDelete fk, fk_onUpdate fk)"

definition canon_options :: "table_options option \<Rightarrow> bool \<times> string list \<times> string list" where
  "canon_options o' = (case o' of None \<Rightarrow> False | Some x \<Rightarrow> to_rowstore x,
     opt_default [] (Option.bind o' to_shardKey), opt_default [] (Option.bind o' to_sortKey))"

definition columns_of :: "string \<Rightarrow> column_snapshot list \<Rightarrow> string \<times> string \<rightharpoonup> column_snapshot" where
  "columns_of n cs x = (if fst x = n then map_option canon (map_of (map (\<lambda>c. (cs_name c, c)) cs) (snd x)) else None)"

definition keys_of :: "string \<Rightarrow> foreign_key list \<Rightarrow> string \<times> key_id \<rightharpoonup> (referential_action \<times> referential_action)"
  where
  "keys_of n fks x = (if fst x = n then map_of (map (\<lambda>fk. (key_id fk, key_actions fk)) fks) (snd x) else None)"

definition db_of :: "schema_snapshot \<Rightarrow> abstract_db" where
  "db_of s =
     \<lparr>ab_tables = map_of (map (\<lambda>t. (tb_name t, (tb_primaryKey t, canon_options (tb_options t)))) (sn_tables s)),
      ab_columns = (\<lambda>x. case find (\<lambda>t. tb_name t = fst x) (sn_tables s) of
        None \<Rightarrow> None | Some t \<Rightarrow> columns_of (tb_name t) (tb_columns t) x),
      ab_keys = (\<lambda>x. case find (\<lambda>t. tb_name t = fst x) (sn_tables s) of
        None \<Rightarrow> None | Some t \<Rightarrow> keys_of (tb_name t) (tb_foreignKeys t) x),
      ab_extensions = ex_name ` set (sn_extensions s)\<rparr>"

subsection \<open>Operations\<close>

definition has_columns :: "abstract_db \<Rightarrow> string \<Rightarrow> string list \<Rightarrow> bool" where
  "has_columns db n cs \<longleftrightarrow> (\<forall>c \<in> set cs. (n, c) \<in> dom (ab_columns db))"

definition reference_ok :: "abstract_db \<Rightarrow> string \<Rightarrow> key_id \<Rightarrow> bool" where
  "reference_ok db n k \<longleftrightarrow> (case k of (cs, target, tcs) \<Rightarrow>
     has_columns db n cs \<and> target \<in> dom (ab_tables db) \<and> has_columns db target tcs)"

text \<open>\<open>uses_column db n c\<close>: the primary key of the table or a foreign key at either end needs the column.\<close>

definition db_key :: "abstract_db \<Rightarrow> string \<Rightarrow> string list" where
  "db_key db n = (case ab_tables db n of None \<Rightarrow> [] | Some (k, os) \<Rightarrow> k)"

definition uses_column :: "abstract_db \<Rightarrow> string \<Rightarrow> string \<Rightarrow> bool" where
  "uses_column db n c \<longleftrightarrow> c \<in> set (db_key db n) \<or>
     (\<exists>m cs t tcs. (m, (cs, t, tcs)) \<in> dom (ab_keys db) \<and> (m = n \<and> c \<in> set cs \<or> t = n \<and> c \<in> set tcs))"

definition referenced_by_other :: "abstract_db \<Rightarrow> string \<Rightarrow> bool" where
  "referenced_by_other db n \<longleftrightarrow> (\<exists>m cs tcs. (m, (cs, n, tcs)) \<in> dom (ab_keys db) \<and> m \<noteq> n)"

definition create_table_db ::
  "string \<Rightarrow> column_snapshot list \<Rightarrow> string list \<Rightarrow> foreign_key list \<Rightarrow> table_options option \<Rightarrow> abstract_db \<Rightarrow> abstract_db"
  where
  "create_table_db n cs k fks os db = db\<lparr>ab_tables := (ab_tables db)(n \<mapsto> (k, canon_options os)),
     ab_columns := ab_columns db ++ columns_of n cs, ab_keys := ab_keys db ++ keys_of n fks\<rparr>"

definition drop_table_db :: "string \<Rightarrow> abstract_db \<Rightarrow> abstract_db" where
  "drop_table_db n db = db\<lparr>ab_tables := (ab_tables db)(n := None),
     ab_columns := (\<lambda>x. if fst x = n then None else ab_columns db x),
     ab_keys := (\<lambda>x. if fst x = n then None else ab_keys db x)\<rparr>"

definition table_is :: "abstract_db \<Rightarrow> string \<Rightarrow> table_snapshot \<Rightarrow> bool" where
  "table_is db n t \<longleftrightarrow> ab_tables db n = Some (tb_primaryKey t, canon_options (tb_options t)) \<and>
     (\<forall>c. ab_columns db (n, c) = columns_of n (tb_columns t) (n, c)) \<and>
     (\<forall>k. ab_keys db (n, k) = keys_of n (tb_foreignKeys t) (n, k))"

text \<open>Whether a database accepts an operation, and what the operation makes of it.\<close>

fun accepts :: "change_op \<Rightarrow> abstract_db \<Rightarrow> bool" where
  "accepts (CreateExtension n s) db = True"
| "accepts (CreateTable n cs k fks os) db =
     (n \<notin> dom (ab_tables db) \<and> distinct (map cs_name cs) \<and> distinct (map key_id fks) \<and>
      (let db' = create_table_db n cs k fks os db in
       has_columns db' n k \<and> (\<forall>fk \<in> set fks. reference_ok db' n (key_id fk))))"
| "accepts (DropTable n t) db = (table_is db n t \<and> \<not> referenced_by_other db n \<and>
     distinct (map cs_name (tb_columns t)) \<and> distinct (map key_id (tb_foreignKeys t)))"
| "accepts (AddColumn n c) db = (n \<in> dom (ab_tables db) \<and> (n, cs_name c) \<notin> dom (ab_columns db))"
| "accepts (DropColumn n c) db = (ab_columns db (n, cs_name c) = Some (canon c) \<and> \<not> uses_column db n (cs_name c))"
| "accepts (AlterColumn n c c') db = (ab_columns db (n, cs_name c) = Some (canon c) \<and> cs_name c' = cs_name c)"
| "accepts (AlterPrimaryKey n k k') db = (map_option fst (ab_tables db n) = Some k \<and> has_columns db n k')"
| "accepts (AddForeignKey n fk) db = (n \<in> dom (ab_tables db) \<and> (n, key_id fk) \<notin> dom (ab_keys db) \<and>
     reference_ok db n (key_id fk))"
| "accepts (DropForeignKey n fk) db = (ab_keys db (n, key_id fk) = Some (key_actions fk))"

fun effect :: "change_op \<Rightarrow> abstract_db \<Rightarrow> abstract_db" where
  "effect (CreateExtension n s) db = db\<lparr>ab_extensions := insert n (ab_extensions db)\<rparr>"
| "effect (CreateTable n cs k fks os) db = create_table_db n cs k fks os db"
| "effect (DropTable n t) db = drop_table_db n db"
| "effect (AddColumn n c) db = db\<lparr>ab_columns := (ab_columns db)((n, cs_name c) \<mapsto> canon c)\<rparr>"
| "effect (DropColumn n c) db = db\<lparr>ab_columns := (ab_columns db)((n, cs_name c) := None)\<rparr>"
| "effect (AlterColumn n c c') db = db\<lparr>ab_columns := (ab_columns db)((n, cs_name c) \<mapsto> canon c')\<rparr>"
| "effect (AlterPrimaryKey n k k') db =
     db\<lparr>ab_tables := (ab_tables db)(n := map_option (\<lambda>(_, os). (k', os)) (ab_tables db n))\<rparr>"
| "effect (AddForeignKey n fk) db = db\<lparr>ab_keys := (ab_keys db)((n, key_id fk) \<mapsto> key_actions fk)\<rparr>"
| "effect (DropForeignKey n fk) db = db\<lparr>ab_keys := (ab_keys db)((n, key_id fk) := None)\<rparr>"

fun run_ops :: "change_op list \<Rightarrow> abstract_db \<Rightarrow> abstract_db option" where
  "run_ops [] db = Some db"
| "run_ops (op # ops) db = (if accepts op db then run_ops ops (effect op db) else None)"

lemma run_ops_append: "run_ops (xs @ ys) db = Option.bind (run_ops xs db) (run_ops ys)"
  by (induction xs arbitrary: db) auto

subsection \<open>Undoing\<close>

text \<open>The operation that takes back another one; an extension stays.\<close>

fun inverse_op :: "change_op \<Rightarrow> change_op list" where
  "inverse_op (CreateExtension n s) = []"
| "inverse_op (CreateTable n cs k fks os) =
     [DropTable n \<lparr>tb_name = n, tb_columns = cs, tb_primaryKey = k, tb_foreignKeys = fks, tb_options = os\<rparr>]"
| "inverse_op (DropTable n t) = [CreateTable n (tb_columns t) (tb_primaryKey t) (tb_foreignKeys t) (tb_options t)]"
| "inverse_op (AddColumn n c) = [DropColumn n c]"
| "inverse_op (DropColumn n c) = [AddColumn n c]"
| "inverse_op (AlterColumn n c c') = [AlterColumn n c' c]"
| "inverse_op (AlterPrimaryKey n k k') = [AlterPrimaryKey n k' k]"
| "inverse_op (AddForeignKey n fk) = [DropForeignKey n fk]"
| "inverse_op (DropForeignKey n fk) = [AddForeignKey n fk]"

text \<open>Every key of a sound database has the columns it names.\<close>

definition sound_db :: "abstract_db \<Rightarrow> bool" where
  "sound_db db \<longleftrightarrow> (\<forall>n. has_columns db n (db_key db n)) \<and>
     (\<forall>n k. (n, k) \<in> dom (ab_keys db) \<longrightarrow> reference_ok db n k) \<and>
     (\<forall>n c. (n, c) \<in> dom (ab_columns db) \<longrightarrow> n \<in> dom (ab_tables db)) \<and>
     (\<forall>n k. (n, k) \<in> dom (ab_keys db) \<longrightarrow> n \<in> dom (ab_tables db))"

lemma has_columns_mono:
  "has_columns db n cs \<Longrightarrow> dom (ab_columns db) \<subseteq> dom (ab_columns db') \<Longrightarrow> has_columns db' n cs"
  by (auto simp: has_columns_def)

lemma reference_ok_mono:
  "reference_ok db n k \<Longrightarrow> dom (ab_columns db) \<subseteq> dom (ab_columns db') \<Longrightarrow>
     dom (ab_tables db) \<subseteq> dom (ab_tables db') \<Longrightarrow> reference_ok db' n k"
  by (auto simp: reference_ok_def intro: has_columns_mono split: prod.splits)

lemma columns_of_None [simp]: "fst x \<noteq> n \<Longrightarrow> columns_of n cs x = None"
  by (simp add: columns_of_def)

lemma keys_of_None [simp]: "fst x \<noteq> n \<Longrightarrow> keys_of n fks x = None"
  by (simp add: keys_of_def)

lemma dom_keys_of: "(m, k) \<in> dom (keys_of n fks) \<longleftrightarrow> m = n \<and> k \<in> key_id ` set fks"
proof -
  have "(m, k) \<in> dom (keys_of n fks) \<longleftrightarrow> m = n \<and> k \<in> dom (map_of (map (\<lambda>fk. (key_id fk, key_actions fk)) fks))"
    by (cases "m = n") (simp_all add: keys_of_def domIff)
  then show ?thesis by (simp add: dom_map_of_conv_image_fst image_image)
qed

lemma dom_columns_of: "(m, c) \<in> dom (columns_of n cs) \<longleftrightarrow> m = n \<and> c \<in> cs_name ` set cs"
proof -
  have "(m, c) \<in> dom (columns_of n cs) \<longleftrightarrow> m = n \<and> c \<in> dom (map_of (map (\<lambda>c. (cs_name c, c)) cs))"
    by (cases "m = n") (simp_all add: columns_of_def domIff)
  then show ?thesis by (simp add: dom_map_of_conv_image_fst image_image)
qed

lemma sound_dbD:
  assumes "sound_db db"
  shows "has_columns db n (db_key db n)"
    and "(n, i) \<in> dom (ab_keys db) \<Longrightarrow> reference_ok db n i"
    and "(n, c) \<in> dom (ab_columns db) \<Longrightarrow> n \<in> dom (ab_tables db)"
    and "(n, i) \<in> dom (ab_keys db) \<Longrightarrow> n \<in> dom (ab_tables db)"
  using assms unfolding sound_db_def by blast+

lemma sound_grow:
  assumes sound: "sound_db db" and mono: "dom (ab_columns db) \<subseteq> dom (ab_columns db')"
      "dom (ab_tables db) \<subseteq> dom (ab_tables db')"
    and t: "\<And>n. db_key db' n = db_key db n \<or> has_columns db' n (db_key db' n)"
    and k: "\<And>n k. (n, k) \<in> dom (ab_keys db') \<Longrightarrow> (n, k) \<in> dom (ab_keys db) \<or> reference_ok db' n k \<and> n \<in> dom (ab_tables db')"
    and c: "\<And>n c. (n, c) \<in> dom (ab_columns db') \<Longrightarrow> (n, c) \<in> dom (ab_columns db) \<or> n \<in> dom (ab_tables db')"
  shows "sound_db db'"
  unfolding sound_db_def
proof (intro conjI allI impI)
  fix n show "has_columns db' n (db_key db' n)"
    using t [of n] has_columns_mono [OF sound_dbD(1) [OF sound] mono(1), of n] by auto
next
  fix n i assume "(n, i) \<in> dom (ab_keys db')"
  then show "reference_ok db' n i" using k reference_ok_mono [OF sound_dbD(2) [OF sound] mono] by blast
next
  fix n i assume "(n, i) \<in> dom (ab_keys db')"
  then show "n \<in> dom (ab_tables db')" using k sound_dbD(4) [OF sound] mono(2) by blast
next
  fix n x assume "(n, x) \<in> dom (ab_columns db')"
  then show "n \<in> dom (ab_tables db')" using c sound_dbD(3) [OF sound] mono(2) by blast
qed

text \<open>An accepted operation keeps the database sound.\<close>

lemma sound_create:
  assumes "sound_db db" and "accepts (CreateTable n cs k fks os) db"
  shows "sound_db (create_table_db n cs k fks os db)"
proof (rule sound_grow [OF assms(1)])
  let ?db = "create_table_db n cs k fks os db"
  from assms(2) have ok: "has_columns ?db n k" "\<And>fk. fk \<in> set fks \<Longrightarrow> reference_ok ?db n (key_id fk)"
    by (simp_all add: Let_def)
  show "dom (ab_columns db) \<subseteq> dom (ab_columns ?db)" "dom (ab_tables db) \<subseteq> dom (ab_tables ?db)"
    by (auto simp: create_table_db_def)
  show "db_key ?db m = db_key db m \<or> has_columns ?db m (db_key ?db m)" for m
    using ok(1) by (cases "m = n") (simp_all add: create_table_db_def db_key_def)
  show "(m, i) \<in> dom (ab_keys db) \<or> reference_ok ?db m i \<and> m \<in> dom (ab_tables ?db)" if "(m, i) \<in> dom (ab_keys ?db)" for m i
  proof (cases "(m, i) \<in> dom (keys_of n fks)")
    case True
    then have "m = n" "i \<in> key_id ` set fks" by (simp_all only: dom_keys_of)
    then show ?thesis using ok(2) by (auto simp: create_table_db_def)
  qed (use that in \<open>simp add: create_table_db_def\<close>)
  show "(m, c) \<in> dom (ab_columns db) \<or> m \<in> dom (ab_tables ?db)" if "(m, c) \<in> dom (ab_columns ?db)" for m c
  proof (cases "(m, c) \<in> dom (columns_of n cs)")
    case True
    then have "m = n" by (simp only: dom_columns_of)
    then show ?thesis by (simp add: create_table_db_def)
  qed (use that in \<open>simp add: create_table_db_def\<close>)
qed

lemma has_columns_drop: "has_columns (drop_table_db n db) m cs \<longleftrightarrow> cs = [] \<or> m \<noteq> n \<and> has_columns db m cs"
  by (cases cs) (auto simp: has_columns_def drop_table_db_def domIff)

lemma sound_drop:
  assumes sound: "sound_db db" and ref: "\<not> referenced_by_other db n"
  shows "sound_db (drop_table_db n db)"
  unfolding sound_db_def
proof (intro conjI allI impI)
  let ?db = "drop_table_db n db"
  fix m
  have "db_key ?db m = (if m = n then [] else db_key db m)" by (simp add: drop_table_db_def db_key_def)
  then show "has_columns ?db m (db_key ?db m)" using sound_dbD(1) [OF sound] by (simp add: has_columns_drop)
next
  let ?db = "drop_table_db n db"
  fix m i assume "(m, i) \<in> dom (ab_keys ?db)"
  then have m: "m \<noteq> n" "(m, i) \<in> dom (ab_keys db)" by (auto simp: drop_table_db_def domIff split: if_splits)
  obtain cs t tcs where i: "i = (cs, t, tcs)" by (cases i)
  have "t \<noteq> n" using ref m unfolding i referenced_by_other_def by blast
  moreover have "reference_ok db m i" using sound_dbD(2) [OF sound m(2)] .
  ultimately show "reference_ok ?db m i"
    using m(1) by (auto simp: reference_ok_def i has_columns_drop) (simp_all add: drop_table_db_def domIff)
  show "m \<in> dom (ab_tables ?db)"
    using sound_dbD(4) [OF sound m(2)] m(1) by (simp add: drop_table_db_def domIff)
next
  fix m c assume "(m, c) \<in> dom (ab_columns (drop_table_db n db))"
  then have "m \<noteq> n" "(m, c) \<in> dom (ab_columns db)" by (auto simp: drop_table_db_def domIff split: if_splits)
  then show "m \<in> dom (ab_tables (drop_table_db n db))"
    using sound_dbD(3) [OF sound] by (simp add: drop_table_db_def domIff)
qed

lemma sound_drop_column:
  assumes sound: "sound_db db" and "\<not> uses_column db n c"
  shows "sound_db (db\<lparr>ab_columns := (ab_columns db)((n, c) := None)\<rparr>)" (is "sound_db ?db")
proof -
  have cols: "has_columns ?db m cs" if "has_columns db m cs" "m = n \<Longrightarrow> c \<notin> set cs" for m cs
    using that by (auto simp: has_columns_def)
  have "has_columns ?db m (db_key db m)" for m
    by (rule cols) (use sound_dbD(1) [OF sound, of m] assms(2) in \<open>auto simp: uses_column_def\<close>)
  then have "has_columns ?db m (db_key ?db m)" for m by (simp add: db_key_def)
  moreover have "reference_ok ?db m i" if "(m, i) \<in> dom (ab_keys db)" for m i
  proof -
    obtain cs t tcs where i: "i = (cs, t, tcs)" by (cases i)
    have "m = n \<Longrightarrow> c \<notin> set cs" "t = n \<Longrightarrow> c \<notin> set tcs"
      using assms(2) that unfolding i uses_column_def by blast+
    then show ?thesis
      using sound_dbD(2) [OF sound that] cols by (simp add: reference_ok_def i)
  qed
  moreover have "m \<in> dom (ab_tables ?db)" if "(m, x) \<in> dom (ab_columns ?db)" for m x
    using that sound_dbD(3) [OF sound, of m x] by (auto simp: domIff split: if_splits)
  moreover have "m \<in> dom (ab_tables ?db)" if "(m, i) \<in> dom (ab_keys ?db)" for m i
    using that sound_dbD(4) [OF sound, of m i] by simp
  ultimately show ?thesis unfolding sound_db_def by auto
qed

lemma sound_effect:
  assumes sound: "sound_db db" and acc: "accepts op db"
  shows "sound_db (effect op db)"
proof (cases op)
  case (CreateExtension n s)
  show ?thesis by (rule sound_grow [OF sound]) (simp_all add: CreateExtension db_key_def)
next
  case (CreateTable n cs k fks os)
  with assms sound_create show ?thesis by simp
next
  case (DropTable n t)
  with assms sound_drop show ?thesis by simp
next
  case (DropColumn n c)
  with assms sound_drop_column show ?thesis by simp
next
  case (AlterPrimaryKey n k k')
  have "has_columns (effect op db) n k'" using acc by (simp add: AlterPrimaryKey has_columns_def)
  moreover have "db_key (effect op db) m = (if m = n \<and> n \<in> dom (ab_tables db) then k' else db_key db m)" for m
    by (auto simp: AlterPrimaryKey db_key_def split: option.splits)
  ultimately show ?thesis
    by (intro sound_grow [OF sound]) (auto simp: AlterPrimaryKey domIff split: if_splits)
next
  case (AddColumn n c)
  with acc show ?thesis by (intro sound_grow [OF sound]) (auto simp: db_key_def domIff split: if_splits)
next
  case (AlterColumn n c c')
  with acc have "(n, cs_name c) \<in> dom (ab_columns db)" by auto
  then have "n \<in> dom (ab_tables db)" by (rule sound_dbD(3) [OF sound])
  then show ?thesis by (intro sound_grow [OF sound]) (auto simp: db_key_def AlterColumn domIff split: if_splits)
next
  case (AddForeignKey n fk)
  with acc have "reference_ok (effect op db) n (key_id fk)" by (auto simp: reference_ok_def has_columns_def)
  with acc show ?thesis
    by (intro sound_grow [OF sound]) (auto simp: db_key_def AddForeignKey domIff split: if_splits)
next
  case (DropForeignKey n fk)
  show ?thesis by (rule sound_grow [OF sound]) (auto simp: db_key_def DropForeignKey domIff split: if_splits)
qed

text \<open>The inverse takes an accepted operation back.\<close>

lemma unknown_table:
  assumes "sound_db db" and "n \<notin> dom (ab_tables db)"
  shows "ab_columns db (n, c) = None" and "ab_keys db (n, k) = None" and "\<not> referenced_by_other db n"
proof -
  show "ab_columns db (n, c) = None" using sound_dbD(3) [OF assms(1), of n c] assms(2) by (metis domIff)
  show "ab_keys db (n, k) = None" using sound_dbD(4) [OF assms(1), of n k] assms(2) by (metis domIff)
  show "\<not> referenced_by_other db n"
  proof
    assume "referenced_by_other db n"
    then obtain m cs tcs where "(m, cs, n, tcs) \<in> dom (ab_keys db)" unfolding referenced_by_other_def by blast
    from sound_dbD(2) [OF assms(1) this] assms(2) show False by (simp add: reference_ok_def)
  qed
qed

lemma drop_after_create:
  assumes "sound_db db" and "n \<notin> dom (ab_tables db)"
  shows "drop_table_db n (create_table_db n cs k fks os db) = db"
proof -
  have "(\<lambda>x. if fst x = n then None else (ab_columns db ++ columns_of n cs) x) = ab_columns db"
    using unknown_table(1) [OF assms] by (auto simp: fun_eq_iff map_add_def columns_of_def)
  moreover have "(\<lambda>x. if fst x = n then None else (ab_keys db ++ keys_of n fks) x) = ab_keys db"
    using unknown_table(2) [OF assms] by (auto simp: fun_eq_iff map_add_def keys_of_def)
  moreover have "(ab_tables db)(n := None) = ab_tables db" using assms(2) by (simp add: domIff fun_upd_idem)
  ultimately show ?thesis by (intro abstract_db.equality) (simp_all add: drop_table_db_def create_table_db_def cong: if_cong)
qed

lemma create_after_drop:
  assumes "table_is db n t"
  shows "create_table_db n (tb_columns t) (tb_primaryKey t) (tb_foreignKeys t) (tb_options t) (drop_table_db n db) = db"
proof -
  have "(\<lambda>x. if fst x = n then None else ab_columns db x) ++ columns_of n (tb_columns t) = ab_columns db"
    using assms by (auto simp: fun_eq_iff map_add_def table_is_def split: option.splits)
  moreover have "(\<lambda>x. if fst x = n then None else ab_keys db x) ++ keys_of n (tb_foreignKeys t) = ab_keys db"
    using assms by (auto simp: fun_eq_iff map_add_def table_is_def split: option.splits)
  moreover have "(ab_tables db)(n \<mapsto> (tb_primaryKey t, canon_options (tb_options t))) = ab_tables db"
    using assms by (simp add: table_is_def fun_upd_idem)
  ultimately show ?thesis by (intro abstract_db.equality) (simp_all add: drop_table_db_def create_table_db_def cong: if_cong)
qed

lemma undo_effect:
  assumes sound: "sound_db db" and acc: "accepts op db"
  shows "run_ops (inverse_op op) (effect op db) = Some (db\<lparr>ab_extensions := ab_extensions (effect op db)\<rparr>)"
proof (cases op)
  case (CreateTable n cs k fks os)
  let ?db = "create_table_db n cs k fks os db"
  have new: "n \<notin> dom (ab_tables db)" using acc by (simp add: CreateTable)
  have "ab_columns ?db (n, c) = columns_of n cs (n, c)" "ab_keys ?db (n, i) = keys_of n fks (n, i)" for c i
    using unknown_table [OF sound new] by (simp_all add: create_table_db_def map_add_def split: option.splits)
  then have "table_is ?db n \<lparr>tb_name = n, tb_columns = cs, tb_primaryKey = k, tb_foreignKeys = fks, tb_options = os\<rparr>"
    by (simp add: table_is_def) (simp add: create_table_db_def)
  moreover have "\<not> referenced_by_other ?db n"
  proof
    assume "referenced_by_other ?db n"
    then obtain m cs' tcs where m: "(m, cs', n, tcs) \<in> dom (ab_keys ?db)" "m \<noteq> n"
      unfolding referenced_by_other_def by blast
    then have "(m, cs', n, tcs) \<in> dom (ab_keys db)" by (simp add: create_table_db_def domIff map_add_def)
    with m(2) unknown_table(3) [OF sound new] show False unfolding referenced_by_other_def by blast
  qed
  ultimately show ?thesis
    using acc drop_after_create [OF sound new] by (simp add: CreateTable) (simp add: create_table_db_def)
next
  case (DropTable n t)
  from acc have t: "table_is db n t" by (simp add: DropTable)
  then have key: "db_key db n = tb_primaryKey t" by (simp add: table_is_def db_key_def)
  have "reference_ok db n (key_id fk)" if "fk \<in> set (tb_foreignKeys t)" for fk
  proof (rule sound_dbD(2) [OF sound])
    have "(n, key_id fk) \<in> dom (keys_of n (tb_foreignKeys t))" using that by (simp add: dom_keys_of)
    then show "(n, key_id fk) \<in> dom (ab_keys db)" using t by (metis domIff table_is_def)
  qed
  moreover have "has_columns db n (tb_primaryKey t)" using sound_dbD(1) [OF sound, of n] by (simp add: key)
  ultimately show ?thesis
    using acc create_after_drop [OF t] by (simp add: DropTable Let_def) (simp add: drop_table_db_def)
next
  case (DropColumn n c)
  from acc have "(n, cs_name c) \<in> dom (ab_columns db)" by (auto simp: DropColumn)
  from sound_dbD(3) [OF sound this] acc show ?thesis
    by (auto simp: DropColumn fun_upd_idem domIff)
next
  case (AddColumn n c)
  have "\<not> uses_column (effect op db) n (cs_name c)"
  proof
    assume "uses_column (effect op db) n (cs_name c)"
    then have "cs_name c \<in> set (db_key db n) \<or>
      (\<exists>m cs t tcs. (m, cs, t, tcs) \<in> dom (ab_keys db) \<and> (m = n \<and> cs_name c \<in> set cs \<or> t = n \<and> cs_name c \<in> set tcs))"
      by (simp add: AddColumn uses_column_def db_key_def)
    then have "(n, cs_name c) \<in> dom (ab_columns db)"
      using sound_dbD(1) [OF sound, of n] sound_dbD(2) [OF sound]
      by (fastforce simp: has_columns_def reference_ok_def)
    with acc show False by (simp add: AddColumn)
  qed
  with acc show ?thesis by (simp add: AddColumn domIff fun_upd_idem)
next
  case (AlterPrimaryKey n k k')
  from acc obtain os where os: "ab_tables db n = Some (k, os)" by (auto simp: AlterPrimaryKey)
  then have "db_key db n = k" by (simp add: db_key_def)
  then have "has_columns (effect op db) n k" using sound_dbD(1) [OF sound, of n] by (simp add: AlterPrimaryKey has_columns_def)
  with os show ?thesis by (auto simp: AlterPrimaryKey fun_upd_idem)
next
  case (DropForeignKey n fk)
  from acc have k: "(n, key_id fk) \<in> dom (ab_keys db)" by (auto simp: DropForeignKey)
  have "reference_ok (effect op db) n (key_id fk)" using sound_dbD(2) [OF sound k]
    by (simp add: DropForeignKey reference_ok_def has_columns_def split: prod.splits)
  with acc sound_dbD(4) [OF sound k] show ?thesis by (auto simp: DropForeignKey fun_upd_idem domIff)
qed (use acc in \<open>auto simp: fun_upd_idem domIff\<close>)

lemma effect_extensions:
  "effect op (db\<lparr>ab_extensions := e\<rparr>) =
     (effect op db)\<lparr>ab_extensions := (case op of CreateExtension n s \<Rightarrow> insert n e | _ \<Rightarrow> e)\<rparr>"
  by (cases op) (simp_all add: create_table_db_def drop_table_db_def cong: if_cong)

lemma accepts_extensions: "accepts op (db\<lparr>ab_extensions := e\<rparr>) = accepts op db"
  by (cases op) (simp_all add: create_table_db_def has_columns_def reference_ok_def uses_column_def db_key_def
      referenced_by_other_def table_is_def)

lemma run_ops_extensions:
  "list_all (\<lambda>op. change_kind op \<noteq> KCreateExtension) ops \<Longrightarrow>
     run_ops ops (db\<lparr>ab_extensions := e\<rparr>) = map_option (\<lambda>d. d\<lparr>ab_extensions := e\<rparr>) (run_ops ops db)"
proof (induction ops arbitrary: db)
  case (Cons op ops)
  then have "effect op (db\<lparr>ab_extensions := e\<rparr>) = (effect op db)\<lparr>ab_extensions := e\<rparr>"
    by (cases op) (simp_all add: effect_extensions)
  with Cons show ?case by (simp add: accepts_extensions)
qed simp

lemma inverse_keeps_extensions: "list_all (\<lambda>op. change_kind op \<noteq> KCreateExtension) (inverse_op op)"
  by (cases op) simp_all

text \<open>Running the inverses in reverse order takes a whole plan back, up to the extensions.\<close>

definition undo_ops :: "change_op list \<Rightarrow> change_op list" where
  "undo_ops ops = concat (map inverse_op (rev ops))"

lemma undo_keeps_extensions: "list_all (\<lambda>op. change_kind op \<noteq> KCreateExtension) (undo_ops ops)"
  using inverse_keeps_extensions by (auto simp: undo_ops_def list_all_iff)

lemma undo_plan:
  "sound_db db \<Longrightarrow> run_ops ops db = Some db' \<Longrightarrow>
     sound_db db' \<and> run_ops (undo_ops ops) db' = Some (db\<lparr>ab_extensions := ab_extensions db'\<rparr>)"
proof (induction ops arbitrary: db)
  case (Cons op ops)
  then have acc: "accepts op db" and rest: "run_ops ops (effect op db) = Some db'" by (auto split: if_splits)
  from Cons.IH [OF sound_effect [OF Cons.prems(1) acc] rest]
  have ih: "sound_db db'" "run_ops (undo_ops ops) db' = Some ((effect op db)\<lparr>ab_extensions := ab_extensions db'\<rparr>)"
    by simp_all
  have "run_ops (undo_ops (op # ops)) db' = run_ops (inverse_op op) ((effect op db)\<lparr>ab_extensions := ab_extensions db'\<rparr>)"
    using ih(2) by (simp add: undo_ops_def run_ops_append)
  also have "\<dots> = Some (db\<lparr>ab_extensions := ab_extensions db'\<rparr>)"
    using undo_effect [OF Cons.prems(1) acc] run_ops_extensions [OF inverse_keeps_extensions] by simp
  finally show ?case using ih(1) by simp
qed (simp add: undo_ops_def)

end
