(* ===== verification/MigrationPlan.thy ===== *)
theory MigrationPlan
  imports MigrationEffect
begin

section \<open>A planned migration reaches the next snapshot\<close>

text \<open>
  The operations \<open>diff\<close> plans, run in their order on a database that is in the state of the previous
  snapshot, are accepted one after the other and end in the state of the next one. The proof follows the
  phases of \<open>CHANGE_PHASES\<close>: it names the database after each of them.
\<close>

subsection \<open>The order of the phases\<close>

fun op_phase :: "change_op \<Rightarrow> nat" where
  "op_phase (CreateExtension _ _) = 0"
| "op_phase (DropForeignKey _ _) = 1"
| "op_phase (DropTable _ _) = 2"
| "op_phase (CreateTable _ _ _ _ _) = 3"
| "op_phase (AddColumn _ _) = 3"
| "op_phase (AlterColumn _ _ _) = 4"
| "op_phase (AlterPrimaryKey _ _ _) = 4"
| "op_phase (DropColumn _ _) = 5"
| "op_phase (AddForeignKey _ _) = 6"

lemma op_phase_less: "op_phase op < 7"
  by (cases op) simp_all

lemma phaseOf_op: "phaseOf (change_kind op) = Inr (op_phase op)"
  by (cases op) (simp_all add: phaseOf_def CHANGE_PHASE_def CHANGE_PHASES_def new_map_def upt_rec)

lemma sort_key_zip: "map snd (sort_key fst (zip (map f xs) xs)) = sort_key f xs"
proof -
  have "insort_key fst (f x, x) (map (\<lambda>x. (f x, x)) ys) = map (\<lambda>x. (f x, x)) (insort_key f x ys)" for x ys
    by (induction ys) auto
  then have "sort_key fst (map (\<lambda>x. (f x, x)) xs) = map (\<lambda>x. (f x, x)) (sort_key f xs)"
    by (induction xs) (simp_all add: sort_key_def)
  moreover have "zip (map f xs) xs = map (\<lambda>x. (f x, x)) xs" by (induction xs) auto
  ultimately show ?thesis by (simp add: comp_def)
qed

definition phase_part :: "nat \<Rightarrow> change_op list \<Rightarrow> change_op list" where
  "phase_part p ops = filter (\<lambda>op. op_phase op = p) ops"

lemma mset_parts: "mset (concat (map (\<lambda>p. filter (\<lambda>x. f x = p) xs) [0..<n])) = filter_mset (\<lambda>x. f x < n) (mset xs)"
  by (induction n) (auto intro!: multiset_eqI simp: less_Suc_eq)

lemma filter_parts:
  "filter (\<lambda>x. k = f x) (concat (map (\<lambda>p. filter (\<lambda>x. f x = p) xs) [0..<n])) =
     (if k < n then filter (\<lambda>x. k = f x) xs else [])"
proof (induction n)
  case (Suc n)
  have "filter (\<lambda>x. f x = n \<and> k = f x) xs = (if k = n then filter (\<lambda>x. k = f x) xs else [])"
    by (auto simp: filter_empty_conv intro: filter_cong)
  with Suc show ?case by (auto simp: less_Suc_eq conj_commute)
qed simp

lemma sorted_parts: "sorted (map f (concat (map (\<lambda>p. filter (\<lambda>x. f x = p) xs) [0..<n])))"
proof (induction n)
  case (Suc n)
  have "sorted (map f (filter (\<lambda>x. f x = n) xs))" by (induction xs) auto
  with Suc show ?case by (auto simp: sorted_append)
qed simp

lemma sort_key_parts:
  fixes f :: "'a \<Rightarrow> nat"
  assumes "\<And>x. x \<in> set xs \<Longrightarrow> f x < n"
  shows "sort_key f xs = concat (map (\<lambda>p. filter (\<lambda>x. f x = p) xs) [0..<n])"
proof (rule properties_for_sort_key)
  have "filter_mset (\<lambda>x. f x < n) (mset xs) = mset xs"
    using assms by (simp add: filter_mset_eq_conv)
  then show "mset (concat (map (\<lambda>p. filter (\<lambda>x. f x = p) xs) [0..<n])) = mset xs"
    by (simp only: mset_parts)
  fix k assume "k \<in> set (concat (map (\<lambda>p. filter (\<lambda>x. f x = p) xs) [0..<n]))"
  then have "f k < n" by auto
  then show "filter (\<lambda>x. f k = f x) (concat (map (\<lambda>p. filter (\<lambda>x. f x = p) xs) [0..<n])) = filter (\<lambda>x. f k = f x) xs"
    by (simp only: filter_parts if_True)
qed (rule sorted_parts)

lemma orderChanges_parts: "orderChanges ops = Inr (concat (map (\<lambda>p. phase_part p ops) [0..<7]))"
  using sort_key_parts [of ops op_phase 7] op_phase_less
  by (simp add: orderChanges_def phaseOf_op sort_key_zip phase_part_def)

subsection \<open>Well-formed snapshots\<close>

definition wf_key :: "table_snapshot list \<Rightarrow> table_snapshot \<Rightarrow> foreign_key \<Rightarrow> bool" where
  "wf_key ts t fk \<longleftrightarrow> set (fk_columns fk) \<subseteq> cs_name ` set (tb_columns t) \<and>
     (\<exists>u \<in> set ts. tb_name u = fk_targetTable fk \<and> set (fk_targetColumns fk) \<subseteq> cs_name ` set (tb_columns u))"

definition wf_table :: "table_snapshot list \<Rightarrow> table_snapshot \<Rightarrow> bool" where
  "wf_table ts t \<longleftrightarrow> distinct (map cs_name (tb_columns t)) \<and> distinct (map key_id (tb_foreignKeys t)) \<and>
     set (tb_primaryKey t) \<subseteq> cs_name ` set (tb_columns t) \<and> (\<forall>fk \<in> set (tb_foreignKeys t). wf_key ts t fk)"

definition wf_snapshot :: "schema_snapshot \<Rightarrow> bool" where
  "wf_snapshot s \<longleftrightarrow> distinct (map tb_name (sn_tables s)) \<and> (\<forall>t \<in> set (sn_tables s). wf_table (sn_tables s) t)"

lemma find_table: "distinct (map tb_name ts) \<Longrightarrow> t \<in> set ts \<Longrightarrow> find (\<lambda>u. tb_name u = tb_name t) ts = Some t"
  by (induction ts) auto

lemma find_no_table: "n \<notin> tb_name ` set ts \<Longrightarrow> find (\<lambda>u. tb_name u = n) ts = None"
  by (induction ts) auto

lemma db_of_table:
  assumes "wf_snapshot s" and "t \<in> set (sn_tables s)"
  shows "ab_tables (db_of s) (tb_name t) = Some (tb_primaryKey t, canon_options (tb_options t))"
    and "ab_columns (db_of s) (tb_name t, c) = columns_of (tb_name t) (tb_columns t) (tb_name t, c)"
    and "ab_keys (db_of s) (tb_name t, k) = keys_of (tb_name t) (tb_foreignKeys t) (tb_name t, k)"
proof -
  have dist: "distinct (map tb_name (sn_tables s))" using assms(1) by (simp add: wf_snapshot_def)
  then show "ab_tables (db_of s) (tb_name t) = Some (tb_primaryKey t, canon_options (tb_options t))"
    using assms(2) by (simp add: db_of_def comp_def)
  show "ab_columns (db_of s) (tb_name t, c) = columns_of (tb_name t) (tb_columns t) (tb_name t, c)"
    "ab_keys (db_of s) (tb_name t, k) = keys_of (tb_name t) (tb_foreignKeys t) (tb_name t, k)"
    using find_table [OF dist assms(2)] by (simp_all add: db_of_def)
qed

lemma db_of_no_table:
  assumes "n \<notin> tb_name ` set (sn_tables s)"
  shows "ab_tables (db_of s) n = None" and "ab_columns (db_of s) (n, c) = None" and "ab_keys (db_of s) (n, k) = None"
  using assms find_no_table [OF assms] by (auto simp: db_of_def map_of_eq_None_iff)

lemma dom_tables_db_of: "dom (ab_tables (db_of s)) = tb_name ` set (sn_tables s)"
  by (simp add: db_of_def dom_map_of_conv_image_fst image_image)

lemma columns_db_of:
  assumes "wf_snapshot s" and "t \<in> set (sn_tables s)"
  shows "(tb_name t, c) \<in> dom (ab_columns (db_of s)) \<longleftrightarrow> c \<in> cs_name ` set (tb_columns t)"
proof -
  have "(tb_name t, c) \<in> dom (ab_columns (db_of s)) \<longleftrightarrow> (tb_name t, c) \<in> dom (columns_of (tb_name t) (tb_columns t))"
    by (simp add: domIff db_of_table(2) [OF assms])
  then show ?thesis by (simp add: dom_columns_of)
qed

lemma column_db_of:
  assumes "wf_snapshot s" and "t \<in> set (sn_tables s)" and "c \<in> set (tb_columns t)"
  shows "ab_columns (db_of s) (tb_name t, cs_name c) = Some (canon c)"
proof -
  have "distinct (map cs_name (tb_columns t))" using assms(1,2) by (auto simp: wf_snapshot_def wf_table_def)
  with assms(3) have "map_of (map (\<lambda>c. (cs_name c, c)) (tb_columns t)) (cs_name c) = Some c"
    by (simp add: comp_def)
  then show ?thesis by (simp add: db_of_table(2) [OF assms(1,2)] columns_of_def)
qed

lemma key_db_of:
  assumes "wf_snapshot s" and "t \<in> set (sn_tables s)" and "fk \<in> set (tb_foreignKeys t)"
  shows "ab_keys (db_of s) (tb_name t, key_id fk) = Some (key_actions fk)"
proof -
  have "distinct (map key_id (tb_foreignKeys t))" using assms(1,2) by (auto simp: wf_snapshot_def wf_table_def)
  with assms(3) have "map_of (map (\<lambda>fk. (key_id fk, key_actions fk)) (tb_foreignKeys t)) (key_id fk) = Some (key_actions fk)"
    by (intro map_of_is_SomeI) (auto simp: comp_def)
  then show ?thesis by (simp add: db_of_table(3) [OF assms(1,2)] keys_of_def)
qed

lemma key_db_ofE:
  assumes "wf_snapshot s" and "(n, k) \<in> dom (ab_keys (db_of s))"
  obtains t fk where "t \<in> set (sn_tables s)" "tb_name t = n" "fk \<in> set (tb_foreignKeys t)" "key_id fk = k"
proof -
  have "n \<in> tb_name ` set (sn_tables s)" using assms(2) db_of_no_table(3) [of n s k] by (cases "n \<in> tb_name ` set (sn_tables s)") (simp_all add: domIff)
  then obtain t where t: "t \<in> set (sn_tables s)" "tb_name t = n" by blast
  then have "(n, k) \<in> dom (keys_of n (tb_foreignKeys t))"
    using assms(2) db_of_table(3) [OF assms(1) t(1), of k] by (simp add: domIff)
  then have "k \<in> key_id ` set (tb_foreignKeys t)" by (simp only: dom_keys_of)
  then obtain fk where "fk \<in> set (tb_foreignKeys t)" "key_id fk = k" by blast
  with t show ?thesis using that by blast
qed

lemma column_db_ofE:
  assumes "wf_snapshot s" and "(n, x) \<in> dom (ab_columns (db_of s))"
  obtains t c where "t \<in> set (sn_tables s)" "tb_name t = n" "c \<in> set (tb_columns t)" "cs_name c = x"
proof -
  have "n \<in> tb_name ` set (sn_tables s)" using assms(2) db_of_no_table(2) [of n s x] by (cases "n \<in> tb_name ` set (sn_tables s)") (simp_all add: domIff)
  then obtain t where t: "t \<in> set (sn_tables s)" "tb_name t = n" by blast
  then have "x \<in> cs_name ` set (tb_columns t)" using assms(2) columns_db_of [OF assms(1) t(1)] by simp
  then obtain c where "c \<in> set (tb_columns t)" "cs_name c = x" by blast
  with t show ?thesis using that by blast
qed

lemma reference_db_of:
  assumes "wf_snapshot s" and "t \<in> set (sn_tables s)" and "fk \<in> set (tb_foreignKeys t)"
  shows "reference_ok (db_of s) (tb_name t) (key_id fk)"
proof -
  have "wf_key (sn_tables s) t fk" using assms by (auto simp: wf_snapshot_def wf_table_def)
  then obtain u where fk: "set (fk_columns fk) \<subseteq> cs_name ` set (tb_columns t)" "u \<in> set (sn_tables s)"
    "tb_name u = fk_targetTable fk" "set (fk_targetColumns fk) \<subseteq> cs_name ` set (tb_columns u)"
    unfolding wf_key_def by blast
  have "has_columns (db_of s) (tb_name t) (fk_columns fk)"
    using fk(1) columns_db_of [OF assms(1,2)] by (auto simp: has_columns_def)
  moreover have "has_columns (db_of s) (fk_targetTable fk) (fk_targetColumns fk)"
    unfolding has_columns_def
  proof
    fix c assume "c \<in> set (fk_targetColumns fk)"
    with fk(4) have "c \<in> cs_name ` set (tb_columns u)" by (rule subsetD)
    then show "(fk_targetTable fk, c) \<in> dom (ab_columns (db_of s))"
      using columns_db_of [OF assms(1) fk(2), of c] by (simp only: fk(3))
  qed
  moreover have "fk_targetTable fk \<in> dom (ab_tables (db_of s))" using fk(2) by (simp add: dom_tables_db_of flip: fk(3))
  ultimately show ?thesis by (simp add: reference_ok_def key_id_def)
qed

lemma sound_db_of:
  assumes "wf_snapshot s"
  shows "sound_db (db_of s)"
  unfolding sound_db_def
proof (intro conjI allI impI)
  fix n show "has_columns (db_of s) n (db_key (db_of s) n)"
  proof (cases "n \<in> tb_name ` set (sn_tables s)")
    case True
    then obtain t where t: "t \<in> set (sn_tables s)" "n = tb_name t" by blast
    then have "set (tb_primaryKey t) \<subseteq> cs_name ` set (tb_columns t)"
      using assms by (auto simp: wf_snapshot_def wf_table_def)
    then show ?thesis
      using columns_db_of [OF assms t(1)] by (auto simp: t(2) db_key_def db_of_table(1) [OF assms t(1)] has_columns_def)
  qed (simp add: db_key_def db_of_no_table(1) has_columns_def)
next
  fix n k assume "(n, k) \<in> dom (ab_keys (db_of s))"
  then show "reference_ok (db_of s) n k" by (rule key_db_ofE [OF assms]) (auto intro: reference_db_of [OF assms])
next
  fix n k assume "(n, k) \<in> dom (ab_keys (db_of s))"
  then show "n \<in> dom (ab_tables (db_of s))" by (rule key_db_ofE [OF assms]) (auto simp: dom_tables_db_of)
next
  fix n x assume "(n, x) \<in> dom (ab_columns (db_of s))"
  then show "n \<in> dom (ab_tables (db_of s))" by (rule column_db_ofE [OF assms]) (auto simp: dom_tables_db_of)
qed

end
