(* ===== verification/MigrationPhases.thy ===== *)
theory MigrationPhases
  imports MigrationPlan
begin

section \<open>The phases of a planned migration\<close>

text \<open>
  What each phase of a plan does to the database: first for any list of operations of one kind, then for
  the lists \<open>diff\<close> makes, and at last for the whole plan.
\<close>

subsection \<open>Lists of operations of one kind\<close>

type_synonym key_loc = "string \<times> key_id"

definition key_loc :: "string \<times> foreign_key \<Rightarrow> key_loc" where
  "key_loc p = (fst p, key_id (snd p))"

definition column_loc :: "string \<times> column_snapshot \<Rightarrow> string \<times> string" where
  "column_loc p = (fst p, cs_name (snd p))"

lemma restrict_map_UNIV [simp]: "m |` UNIV = m"
  by (simp add: restrict_map_def)

lemma run_extensions:
  "run_ops (map (\<lambda>e. CreateExtension (ex_name e) (ex_schema e)) es) db =
     Some (db\<lparr>ab_extensions := ex_name ` set es \<union> ab_extensions db\<rparr>)"
  by (induction es arbitrary: db) auto

lemma run_drop_keys:
  "distinct (map key_loc ps) \<Longrightarrow> \<forall>p \<in> set ps. ab_keys db (key_loc p) = Some (key_actions (snd p)) \<Longrightarrow>
     run_ops (map (\<lambda>p. DropForeignKey (fst p) (snd p)) ps) db = Some (db\<lparr>ab_keys := ab_keys db |` (- key_loc ` set ps)\<rparr>)"
proof (induction ps arbitrary: db)
  case (Cons p ps)
  let ?db = "db\<lparr>ab_keys := (ab_keys db)(key_loc p := None)\<rparr>"
  have ne: "key_loc q \<noteq> key_loc p" if "q \<in> set ps" for q
    using Cons.prems(1) that by (metis distinct.simps(2) imageI list.map(2) set_map)
  have step: "run_ops (map (\<lambda>p. DropForeignKey (fst p) (snd p)) (p # ps)) db = run_ops (map (\<lambda>p. DropForeignKey (fst p) (snd p)) ps) ?db"
    using Cons.prems(2) by (simp add: key_loc_def domIff)
  have "run_ops (map (\<lambda>p. DropForeignKey (fst p) (snd p)) ps) ?db = Some (?db\<lparr>ab_keys := ab_keys ?db |` (- key_loc ` set ps)\<rparr>)"
    using Cons.prems by (intro Cons.IH ballI) (simp_all add: ne)
  also have "?db\<lparr>ab_keys := ab_keys ?db |` (- key_loc ` set ps)\<rparr> = db\<lparr>ab_keys := ab_keys db |` (- key_loc ` set (p # ps))\<rparr>"
    by (intro abstract_db.equality) (auto simp: restrict_map_def fun_eq_iff)
  finally show ?case unfolding step .
qed simp

lemma run_add_keys:
  "distinct (map key_loc ps) \<Longrightarrow> \<forall>p \<in> set ps. ab_keys db (key_loc p) = None \<and> fst p \<in> dom (ab_tables db) \<and>
     reference_ok db (fst p) (key_id (snd p)) \<Longrightarrow>
     run_ops (map (\<lambda>p. AddForeignKey (fst p) (snd p)) ps) db = Some (db\<lparr>ab_keys := ab_keys db ++ map_of (map (\<lambda>p. (key_loc p, key_actions (snd p))) ps)\<rparr>)"
proof (induction ps arbitrary: db)
  case (Cons p ps)
  let ?db = "db\<lparr>ab_keys := (ab_keys db)(key_loc p := Some (key_actions (snd p)))\<rparr>"
  have ne: "key_loc q \<noteq> key_loc p" if "q \<in> set ps" for q
    using Cons.prems(1) that by (metis distinct.simps(2) imageI list.map(2) set_map)
  have ref: "reference_ok ?db n k = reference_ok db n k" for n k
    by (simp add: reference_ok_def has_columns_def split: prod.splits)
  have step: "run_ops (map (\<lambda>p. AddForeignKey (fst p) (snd p)) (p # ps)) db = run_ops (map (\<lambda>p. AddForeignKey (fst p) (snd p)) ps) ?db"
    using Cons.prems(2) by (simp add: key_loc_def domIff)
  have "run_ops (map (\<lambda>p. AddForeignKey (fst p) (snd p)) ps) ?db = Some (?db\<lparr>ab_keys := ab_keys ?db ++ map_of (map (\<lambda>p. (key_loc p, key_actions (snd p))) ps)\<rparr>)"
    using Cons.prems by (intro Cons.IH ballI) (simp_all add: ne ref)
  also have "?db\<lparr>ab_keys := ab_keys ?db ++ map_of (map (\<lambda>p. (key_loc p, key_actions (snd p))) ps)\<rparr> = db\<lparr>ab_keys := ab_keys db ++ map_of (map (\<lambda>p. (key_loc p, key_actions (snd p))) (p # ps))\<rparr>"
    by (intro abstract_db.equality)
      (simp_all add: map_add_upd_left dom_map_of_conv_image_fst image_image, use Cons.prems(1) in \<open>simp add: map_add_upd_left dom_map_of_conv_image_fst image_image\<close>)
  finally show ?case unfolding step .
qed simp

lemma run_add_columns:
  "distinct (map column_loc ps) \<Longrightarrow> \<forall>p \<in> set ps. ab_columns db (column_loc p) = None \<and> fst p \<in> dom (ab_tables db) \<Longrightarrow>
     run_ops (map (\<lambda>p. AddColumn (fst p) (snd p)) ps) db = Some (db\<lparr>ab_columns := ab_columns db ++ map_of (map (\<lambda>p. (column_loc p, canon (snd p))) ps)\<rparr>)"
proof (induction ps arbitrary: db)
  case (Cons p ps)
  let ?db = "db\<lparr>ab_columns := (ab_columns db)(column_loc p := Some (canon (snd p)))\<rparr>"
  have ne: "column_loc q \<noteq> column_loc p" if "q \<in> set ps" for q
    using Cons.prems(1) that by (metis distinct.simps(2) imageI list.map(2) set_map)
  have step: "run_ops (map (\<lambda>p. AddColumn (fst p) (snd p)) (p # ps)) db = run_ops (map (\<lambda>p. AddColumn (fst p) (snd p)) ps) ?db"
    using Cons.prems(2) by (simp add: column_loc_def domIff)
  have "run_ops (map (\<lambda>p. AddColumn (fst p) (snd p)) ps) ?db = Some (?db\<lparr>ab_columns := ab_columns ?db ++ map_of (map (\<lambda>p. (column_loc p, canon (snd p))) ps)\<rparr>)"
    using Cons.prems by (intro Cons.IH ballI) (simp_all add: ne)
  also have "?db\<lparr>ab_columns := ab_columns ?db ++ map_of (map (\<lambda>p. (column_loc p, canon (snd p))) ps)\<rparr> = db\<lparr>ab_columns := ab_columns db ++ map_of (map (\<lambda>p. (column_loc p, canon (snd p))) (p # ps))\<rparr>"
    by (intro abstract_db.equality)
      (simp_all add: map_add_upd_left dom_map_of_conv_image_fst image_image, use Cons.prems(1) in \<open>simp add: map_add_upd_left dom_map_of_conv_image_fst image_image\<close>)
  finally show ?case unfolding step .
qed simp

lemma run_drop_columns:
  "distinct (map column_loc ps) \<Longrightarrow> \<forall>p \<in> set ps. ab_columns db (column_loc p) = Some (canon (snd p)) \<and>
     \<not> uses_column db (fst p) (cs_name (snd p)) \<Longrightarrow>
     run_ops (map (\<lambda>p. DropColumn (fst p) (snd p)) ps) db = Some (db\<lparr>ab_columns := ab_columns db |` (- column_loc ` set ps)\<rparr>)"
proof (induction ps arbitrary: db)
  case (Cons p ps)
  let ?db = "db\<lparr>ab_columns := (ab_columns db)(column_loc p := None)\<rparr>"
  have ne: "column_loc q \<noteq> column_loc p" if "q \<in> set ps" for q
    using Cons.prems(1) that by (metis distinct.simps(2) imageI list.map(2) set_map)
  have uses: "uses_column ?db n c = uses_column db n c" for n c by (simp add: uses_column_def db_key_def)
  have step: "run_ops (map (\<lambda>p. DropColumn (fst p) (snd p)) (p # ps)) db = run_ops (map (\<lambda>p. DropColumn (fst p) (snd p)) ps) ?db"
    using Cons.prems(2) by (simp add: column_loc_def domIff)
  have "run_ops (map (\<lambda>p. DropColumn (fst p) (snd p)) ps) ?db = Some (?db\<lparr>ab_columns := ab_columns ?db |` (- column_loc ` set ps)\<rparr>)"
    using Cons.prems by (intro Cons.IH ballI) (simp_all add: ne uses)
  also have "?db\<lparr>ab_columns := ab_columns ?db |` (- column_loc ` set ps)\<rparr> = db\<lparr>ab_columns := ab_columns db |` (- column_loc ` set (p # ps))\<rparr>"
    by (intro abstract_db.equality) (auto simp: restrict_map_def fun_eq_iff)
  finally show ?case unfolding step .
qed simp

definition altered_columns :: "change_op list \<Rightarrow> ((string \<times> string) \<times> column_snapshot) list" where
  "altered_columns ops =
     concat (map (\<lambda>op. case op of AlterColumn n c c' \<Rightarrow> [((n, cs_name c), canon c')] | _ \<Rightarrow> []) ops)"

definition altered_keys :: "change_op list \<Rightarrow> (string \<times> string list) list" where
  "altered_keys ops = concat (map (\<lambda>op. case op of AlterPrimaryKey n k k' \<Rightarrow> [(n, k')] | _ \<Rightarrow> []) ops)"

definition set_keys ::
  "(string \<times> string list) list \<Rightarrow> (string \<rightharpoonup> string list \<times> 'o) \<Rightarrow> string \<rightharpoonup> string list \<times> 'o" where
  "set_keys ks m n = (case map_of ks n of None \<Rightarrow> m n | Some k \<Rightarrow> map_option (\<lambda>(_, os). (k, os)) (m n))"

lemma run_alters:
  "list_all (\<lambda>op. op_phase op = 4) ops \<Longrightarrow> distinct (map fst (altered_columns ops)) \<Longrightarrow>
     distinct (map fst (altered_keys ops)) \<Longrightarrow> list_all (\<lambda>op. accepts op db) ops \<Longrightarrow>
     run_ops ops db = Some (db\<lparr>ab_columns := ab_columns db ++ map_of (altered_columns ops),
       ab_tables := set_keys (altered_keys ops) (ab_tables db)\<rparr>)"
proof (induction ops arbitrary: db)
  case Nil
  have "set_keys [] m = m" for m :: "string \<rightharpoonup> string list \<times> bool \<times> string list \<times> string list" by (rule ext) (simp add: set_keys_def)
  then show ?case by (simp add: altered_columns_def altered_keys_def)
next
  case (Cons op ops)
  show ?case
  proof (cases op)
    case (AlterColumn n c c')
    let ?db = "db\<lparr>ab_columns := (ab_columns db)((n, cs_name c) \<mapsto> canon c')\<rparr>"
    have cols: "altered_columns (op # ops) = ((n, cs_name c), canon c') # altered_columns ops"
      and keys: "altered_keys (op # ops) = altered_keys ops"
      by (simp_all add: altered_columns_def altered_keys_def AlterColumn)
    have fresh: "(n, cs_name c) \<notin> fst ` set (altered_columns ops)" using Cons.prems(2) by (simp add: cols)
    have "accepts op' ?db" if "op' \<in> set ops" "accepts op' db" for op'
    proof (cases op')
      case (AlterColumn m d d')
      then have "(m, cs_name d) \<in> fst ` set (altered_columns ops)"
        using that by (force simp: altered_columns_def image_iff)
      with fresh have "(m, cs_name d) \<noteq> (n, cs_name c)" by metis
      with that AlterColumn show ?thesis by auto
    next
      case (AlterPrimaryKey m k k')
      with that show ?thesis by (auto simp: has_columns_def)
    qed (use Cons.prems(1) that in \<open>auto simp: list_all_iff\<close>)
    then have "run_ops ops ?db = Some (?db\<lparr>ab_columns := ab_columns ?db ++ map_of (altered_columns ops),
        ab_tables := set_keys (altered_keys ops) (ab_tables ?db)\<rparr>)"
      using Cons.prems by (intro Cons.IH) (simp_all add: cols keys list_all_iff)
    moreover have "(n, cs_name c) \<notin> dom (map_of (altered_columns ops))"
      using fresh by (simp add: dom_map_of_conv_image_fst)
    then have "db\<lparr>ab_columns := ab_columns db ++ map_of (altered_columns (op # ops)),
        ab_tables := set_keys (altered_keys (op # ops)) (ab_tables db)\<rparr> =
      ?db\<lparr>ab_columns := ab_columns ?db ++ map_of (altered_columns ops),
        ab_tables := set_keys (altered_keys ops) (ab_tables ?db)\<rparr>"
      unfolding cols keys by (intro abstract_db.equality) (simp_all add: map_add_upd_left)
    ultimately show ?thesis using Cons.prems(4) by (simp only: AlterColumn) simp
  next
    case (AlterPrimaryKey n k k')
    let ?db = "db\<lparr>ab_tables := (ab_tables db)(n := map_option (\<lambda>(_, os). (k', os)) (ab_tables db n))\<rparr>"
    have cols: "altered_columns (op # ops) = altered_columns ops"
      and keys: "altered_keys (op # ops) = (n, k') # altered_keys ops"
      by (simp_all add: altered_columns_def altered_keys_def AlterPrimaryKey)
    have fresh: "n \<notin> fst ` set (altered_keys ops)" using Cons.prems(3) by (simp add: keys)
    have "accepts op' ?db" if "op' \<in> set ops" "accepts op' db" for op'
    proof (cases op')
      case (AlterPrimaryKey m d d')
      then have "m \<in> fst ` set (altered_keys ops)" using that by (force simp: altered_keys_def image_iff)
      with fresh have "m \<noteq> n" by metis
      with that AlterPrimaryKey show ?thesis by (auto simp: has_columns_def)
    next
      case (AlterColumn m c c')
      with that show ?thesis by auto
    qed (use Cons.prems(1) that in \<open>auto simp: list_all_iff\<close>)
    then have "run_ops ops ?db = Some (?db\<lparr>ab_columns := ab_columns ?db ++ map_of (altered_columns ops),
        ab_tables := set_keys (altered_keys ops) (ab_tables ?db)\<rparr>)"
      using Cons.prems by (intro Cons.IH) (simp_all add: cols keys list_all_iff)
    moreover have "set_keys (altered_keys ops) (ab_tables ?db) = set_keys ((n, k') # altered_keys ops) (ab_tables db)"
    proof
      fix m
      have "map_of (altered_keys ops) n = None" using fresh by (simp add: map_of_eq_None_iff)
      then show "set_keys (altered_keys ops) (ab_tables ?db) m = set_keys ((n, k') # altered_keys ops) (ab_tables db) m"
        by (simp add: set_keys_def split: option.split)
    qed
    ultimately show ?thesis
      using Cons.prems(4) unfolding cols keys by (simp add: AlterPrimaryKey)
  qed (use Cons.prems(1) in simp_all)
qed

subsection \<open>Tables\<close>

definition drop_tables_db :: "string set \<Rightarrow> abstract_db \<Rightarrow> abstract_db" where
  "drop_tables_db ns db = db\<lparr>ab_tables := ab_tables db |` (- ns),
     ab_columns := ab_columns db |` {x. fst x \<notin> ns}, ab_keys := ab_keys db |` {x. fst x \<notin> ns}\<rparr>"

lemma drop_tables_insert: "drop_tables_db (insert n ns) db = drop_tables_db ns (drop_table_db n db)"
  by (intro abstract_db.equality)
    (auto simp: drop_tables_db_def drop_table_db_def restrict_map_def fun_eq_iff cong: if_cong)

lemma run_drop_tables:
  "distinct (map tb_name ts) \<Longrightarrow> \<forall>t \<in> set ts. table_is db (tb_name t) t \<and> distinct (map cs_name (tb_columns t)) \<and>
     distinct (map key_id (tb_foreignKeys t)) \<Longrightarrow>
   (\<forall>i < length ts. \<forall>m cs tcs. (m, cs, tb_name (ts ! i), tcs) \<in> dom (ab_keys db) \<longrightarrow> m \<noteq> tb_name (ts ! i) \<longrightarrow>
     m \<in> tb_name ` set (take i ts)) \<Longrightarrow>
   run_ops (map (\<lambda>t. DropTable (tb_name t) t) ts) db = Some (drop_tables_db (tb_name ` set ts) db)"
proof (induction ts arbitrary: db)
  case Nil
  then show ?case by (simp add: drop_tables_db_def)
next
  case (Cons t ts)
  let ?db = "drop_table_db (tb_name t) db"
  have keys: "ab_keys ?db (m, k) = (if m = tb_name t then None else ab_keys db (m, k))" for m k
    by (simp add: drop_table_db_def)
  have free: "\<not> referenced_by_other db (tb_name t)"
    using Cons.prems(3) [rule_format, of 0] unfolding referenced_by_other_def by auto
  have is': "table_is ?db (tb_name u) u" if "u \<in> set ts" for u
  proof -
    have "tb_name u \<noteq> tb_name t" using Cons.prems(1) that by (metis distinct.simps(2) imageI list.map(2) set_map)
    with Cons.prems(2) that show ?thesis by (simp add: table_is_def drop_table_db_def)
  qed
  have order: "m \<in> tb_name ` set (take i ts)"
    if "i < length ts" "(m, cs, tb_name (ts ! i), tcs) \<in> dom (ab_keys ?db)" "m \<noteq> tb_name (ts ! i)" for i m cs tcs
  proof -
    have "m \<noteq> tb_name t" "(m, cs, tb_name (ts ! i), tcs) \<in> dom (ab_keys db)" using that(2) by (auto simp: keys domIff split: if_splits)
    with Cons.prems(3) [rule_format, of "Suc i" m cs tcs] that(1,3) show ?thesis by auto
  qed
  have "run_ops (map (\<lambda>t. DropTable (tb_name t) t) ts) ?db = Some (drop_tables_db (tb_name ` set ts) ?db)"
    using Cons.prems is' order by (intro Cons.IH) auto
  with Cons.prems(2) free show ?case by (simp add: drop_tables_insert)
qed

definition created_db :: "(table_snapshot \<Rightarrow> foreign_key list) \<Rightarrow> table_snapshot list \<Rightarrow> abstract_db \<Rightarrow> abstract_db" where
  "created_db keys ts db = foldl (\<lambda>db t.
     create_table_db (tb_name t) (tb_columns t) (tb_primaryKey t) (keys t) (tb_options t) db) db ts"

lemma created_db_snoc:
  "created_db keys (ts @ [t]) db =
     create_table_db (tb_name t) (tb_columns t) (tb_primaryKey t) (keys t) (tb_options t) (created_db keys ts db)"
  by (simp add: created_db_def)

lemma created_db_other:
  "n \<notin> tb_name ` set ts \<Longrightarrow> ab_tables (created_db keys ts db) n = ab_tables db n"
  "n \<notin> tb_name ` set ts \<Longrightarrow> ab_columns (created_db keys ts db) (n, c) = ab_columns db (n, c)"
  "n \<notin> tb_name ` set ts \<Longrightarrow> ab_keys (created_db keys ts db) (n, k) = ab_keys db (n, k)"
  by (induction ts rule: rev_induct)
    (auto simp: created_db_snoc create_table_db_def map_add_def split: option.splits, simp_all add: created_db_def)

lemma created_db_extensions [simp]: "ab_extensions (created_db keys ts db) = ab_extensions db"
  by (induction ts rule: rev_induct) (simp_all add: created_db_snoc create_table_db_def, simp add: created_db_def)

lemma created_db_table:
  "distinct (map tb_name ts) \<Longrightarrow> t \<in> set ts \<Longrightarrow> (\<And>c. ab_columns db (tb_name t, c) = None) \<Longrightarrow>
     (\<And>k. ab_keys db (tb_name t, k) = None) \<Longrightarrow>
     ab_tables (created_db keys ts db) (tb_name t) = Some (tb_primaryKey t, canon_options (tb_options t)) \<and>
     (\<forall>c. ab_columns (created_db keys ts db) (tb_name t, c) = columns_of (tb_name t) (tb_columns t) (tb_name t, c)) \<and>
     (\<forall>k. ab_keys (created_db keys ts db) (tb_name t, k) = keys_of (tb_name t) (keys t) (tb_name t, k))"
proof (induction ts rule: rev_induct)
  case (snoc u us)
  let ?db = "created_db keys us db"
  show ?case
  proof (cases "t = u")
    case True
    then have "tb_name t \<notin> tb_name ` set us" using snoc.prems(1) by auto
    then have "ab_columns ?db (tb_name t, c) = None" "ab_keys ?db (tb_name t, k) = None" for c k
      using snoc.prems(3,4) by (simp_all add: created_db_other)
    with True show ?thesis by (simp add: created_db_snoc create_table_db_def map_add_def split: option.splits)
  next
    case False
    then have t: "t \<in> set us" using snoc.prems(2) by simp
    then have "tb_name t \<in> tb_name ` set us" by simp
    then have "tb_name t \<noteq> tb_name u" using snoc.prems(1) by auto
    with t snoc show ?thesis by (simp add: created_db_snoc create_table_db_def map_add_def)
  qed
qed simp

end
