(* ===== verification/MigrationReach.thy ===== *)
theory MigrationReach
  imports MigrationPhases
begin

section \<open>The plan, phase by phase\<close>

text \<open>
  The operations of each phase of \<open>diff\<close> as lists, what they hold, and the state of the database after
  each phase.
\<close>

subsection \<open>Foreign keys\<close>

lemma json_strings_inj [simp]: "json_strings xs = json_strings ys \<longleftrightarrow> xs = ys"
  using json_strings_code [of xs "[]" ys "[]"] by simp

lemma foreignKeyIdentity_key_id: "foreignKeyIdentity x = foreignKeyIdentity y \<longleftrightarrow> key_id x = key_id y"
  by (auto simp: foreignKeyIdentity_def key_id_def json_strings_code json_string_code)

lemma sameForeignKeyActions_iff: "sameForeignKeyActions x y \<longleftrightarrow> key_actions x = key_actions y"
  by (simp add: sameForeignKeyActions_def key_actions_def)

definition key_changes :: "string \<Rightarrow> (string \<times> foreign_key) list \<Rightarrow> foreign_key \<Rightarrow> change_op list" where
  "key_changes n unmatched fk = (case map_of unmatched (foreignKeyIdentity fk) of
     None \<Rightarrow> [AddForeignKey n fk]
   | Some before \<Rightarrow> if sameForeignKeyActions before fk then [] else [DropForeignKey n before, AddForeignKey n fk])"

lemma match_foreign_keys:
  "distinct (map foreignKeyIdentity next) \<Longrightarrow>
     foldl (match_foreign_key n) (unmatched, ops) next =
       (filter (\<lambda>p. fst p \<notin> foreignKeyIdentity ` set next) unmatched, ops @ concat (map (key_changes n unmatched) next))"
proof (induction "next" arbitrary: unmatched ops)
  case (Cons fk fks)
  let ?un = "filter (\<lambda>p. fst p \<noteq> foreignKeyIdentity fk) unmatched"
  have lookup: "map_of ?un (foreignKeyIdentity fk') = map_of unmatched (foreignKeyIdentity fk')" if "fk' \<in> set fks" for fk'
  proof -
    have "foreignKeyIdentity fk' \<noteq> foreignKeyIdentity fk"
      using Cons.prems that by (metis distinct.simps(2) imageI list.map(2) set_map)
    then show ?thesis by (induction unmatched) auto
  qed
  then have rest: "map (key_changes n ?un) fks = map (key_changes n unmatched) fks"
    by (intro map_cong) (simp_all add: key_changes_def)
  have absent: "map_of unmatched (foreignKeyIdentity fk) = None \<Longrightarrow> ?un = unmatched"
    by (induction unmatched) (auto split: if_splits)
  have delete: "AList.delete (foreignKeyIdentity fk) unmatched = ?un"
    by (induction unmatched) auto
  have "match_foreign_key n (unmatched, ops) fk = (?un, ops @ key_changes n unmatched fk)"
    using absent by (auto simp: match_foreign_key_def key_changes_def Let_def delete split: option.split)
  then have "foldl (match_foreign_key n) (unmatched, ops) (fk # fks) =
      foldl (match_foreign_key n) (?un, ops @ key_changes n unmatched fk) fks" by simp
  also have "\<dots> = (filter (\<lambda>p. fst p \<notin> foreignKeyIdentity ` set fks) ?un,
      (ops @ key_changes n unmatched fk) @ concat (map (key_changes n ?un) fks))"
    using Cons.prems by (intro Cons.IH) simp
  finally show ?case unfolding rest by (simp add: conj_commute)
qed simp

definition replaced_key :: "foreign_key list \<Rightarrow> foreign_key \<Rightarrow> foreign_key list" where
  "replaced_key us fk = (case map_of (map (\<lambda>fk. (foreignKeyIdentity fk, fk)) us) (foreignKeyIdentity fk) of
     None \<Rightarrow> [] | Some before \<Rightarrow> if sameForeignKeyActions before fk then [] else [before])"

definition dropped_keys :: "foreign_key list \<Rightarrow> foreign_key list \<Rightarrow> foreign_key list" where
  "dropped_keys us ts =
     concat (map (replaced_key us) ts) @
     filter (\<lambda>fk. foreignKeyIdentity fk \<notin> foreignKeyIdentity ` set ts) us"

definition added_keys :: "foreign_key list \<Rightarrow> foreign_key list \<Rightarrow> foreign_key list" where
  "added_keys us ts =
     filter (\<lambda>fk. case map_of (map (\<lambda>fk. (foreignKeyIdentity fk, fk)) us) (foreignKeyIdentity fk) of
       None \<Rightarrow> True | Some before \<Rightarrow> \<not> sameForeignKeyActions before fk) ts"

definition distinct_keys :: "foreign_key list \<Rightarrow> bool" where
  "distinct_keys fks \<longleftrightarrow> distinct (map key_id fks)"

lemma distinct_identities: "distinct (map foreignKeyIdentity fks) \<longleftrightarrow> distinct_keys fks"
  by (auto simp: distinct_keys_def distinct_map inj_on_def foreignKeyIdentity_key_id)

lemma identity_lookup:
  assumes "distinct_keys us"
  shows "map_of (map (\<lambda>fk. (foreignKeyIdentity fk, fk)) us) (foreignKeyIdentity fk) = Some u \<longleftrightarrow>
    u \<in> set us \<and> key_id u = key_id fk"
proof -
  have "distinct (map fst (map (\<lambda>fk. (foreignKeyIdentity fk, fk)) us))"
    using assms by (simp add: comp_def flip: distinct_identities)
  then have "map_of (map (\<lambda>fk. (foreignKeyIdentity fk, fk)) us) (foreignKeyIdentity fk) = Some u \<longleftrightarrow>
      (foreignKeyIdentity fk, u) \<in> set (map (\<lambda>fk. (foreignKeyIdentity fk, fk)) us)"
    by (rule map_of_eq_Some_iff)
  also have "\<dots> \<longleftrightarrow> u \<in> set us \<and> foreignKeyIdentity u = foreignKeyIdentity fk"
    by (auto simp: image_iff)
  finally show ?thesis by (simp only: foreignKeyIdentity_key_id)
qed

lemma diffForeignKeys_parts:
  assumes "distinct_keys us" and "distinct_keys ts"
  shows "phase_part 1 (diffForeignKeys n us ts) = map (DropForeignKey n) (dropped_keys us ts)"
    and "phase_part 6 (diffForeignKeys n us ts) = map (AddForeignKey n) (added_keys us ts)"
    and "p \<notin> {1, 6} \<Longrightarrow> phase_part p (diffForeignKeys n us ts) = []"
proof -
  let ?m = "map (\<lambda>fk. (foreignKeyIdentity fk, fk)) us"
  have "new_map ?m = ?m" using assms(1) by (intro new_map_distinct) (simp add: comp_def flip: distinct_identities)
  then have diff: "diffForeignKeys n us ts = concat (map (key_changes n ?m) ts) @
      map (DropForeignKey n) (filter (\<lambda>fk. foreignKeyIdentity fk \<notin> foreignKeyIdentity ` set ts) us)"
    using assms(2) by (simp add: diffForeignKeys_def match_foreign_keys distinct_identities filter_map comp_def)
  have 1: "phase_part 1 (concat (map (key_changes n m) ts)) = map (DropForeignKey n)
      (concat (map (\<lambda>fk. case map_of m (foreignKeyIdentity fk) of
         None \<Rightarrow> [] | Some before \<Rightarrow> if sameForeignKeyActions before fk then [] else [before]) ts))" for m
    by (induction ts) (auto simp: phase_part_def key_changes_def split: option.split)
  have 6: "phase_part 6 (concat (map (key_changes n m) ts)) = map (AddForeignKey n)
      (filter (\<lambda>fk. case map_of m (foreignKeyIdentity fk) of
         None \<Rightarrow> True | Some before \<Rightarrow> \<not> sameForeignKeyActions before fk) ts)" for m
    by (induction ts) (auto simp: phase_part_def key_changes_def split: option.split)
  have other: "p \<notin> {1, 6} \<Longrightarrow> phase_part p (concat (map (key_changes n m) ts)) = []" for m
    by (induction ts) (auto simp: phase_part_def key_changes_def split: option.split)
  show "phase_part 1 (diffForeignKeys n us ts) = map (DropForeignKey n) (dropped_keys us ts)"
    using 1 by (simp add: diff phase_part_def dropped_keys_def replaced_key_def [abs_def] filter_map comp_def)
  show "phase_part 6 (diffForeignKeys n us ts) = map (AddForeignKey n) (added_keys us ts)"
    using 6 by (simp add: diff phase_part_def added_keys_def filter_map comp_def)
  show "p \<notin> {1, 6} \<Longrightarrow> phase_part p (diffForeignKeys n us ts) = []"
    using other by (simp add: diff phase_part_def filter_map comp_def)
qed

text \<open>\<open>has_key fks fk\<close>: the list relates what \<open>fk\<close> relates, with the same actions.\<close>

definition has_key :: "foreign_key list \<Rightarrow> foreign_key \<Rightarrow> bool" where
  "has_key fks fk \<longleftrightarrow> (\<exists>x \<in> set fks. key_id x = key_id fk \<and> key_actions x = key_actions fk)"

lemma set_added_keys: "distinct_keys us \<Longrightarrow> set (added_keys us ts) = {fk \<in> set ts. \<not> has_key us fk}"
proof -
  assume d: "distinct_keys us"
  have "(case map_of (map (\<lambda>fk. (foreignKeyIdentity fk, fk)) us) (foreignKeyIdentity fk) of
      None \<Rightarrow> True | Some before \<Rightarrow> \<not> sameForeignKeyActions before fk) \<longleftrightarrow> \<not> has_key us fk" for fk
  proof (cases "map_of (map (\<lambda>fk. (foreignKeyIdentity fk, fk)) us) (foreignKeyIdentity fk)")
    case None
    then have "foreignKeyIdentity fk \<notin> foreignKeyIdentity ` set us" by (simp add: map_of_eq_None_iff image_image)
    then have "\<not> has_key us fk"
      by (auto simp: has_key_def foreignKeyIdentity_key_id [symmetric] intro: rev_image_eqI)
    with None show ?thesis by simp
  next
    case (Some u)
    then have u: "u \<in> set us" "key_id u = key_id fk" using identity_lookup [OF d] by auto
    have "has_key us fk \<longleftrightarrow> key_actions u = key_actions fk"
      using u d by (auto simp: has_key_def distinct_keys_def distinct_map inj_on_def)
    with Some show ?thesis by (simp add: sameForeignKeyActions_iff)
  qed
  then show ?thesis by (auto simp: added_keys_def)
qed

lemma set_dropped_keys:
  assumes "distinct_keys us" and "distinct_keys ts"
  shows "set (dropped_keys us ts) = {fk \<in> set us. \<not> has_key ts fk}"
proof -
  have uniq: "x = y" if "x \<in> set ts" "y \<in> set ts" "key_id x = key_id y" for x y
    using assms(2) that by (auto simp: distinct_keys_def distinct_map inj_on_def)
  have matched: "u \<in> set (replaced_key us fk) \<longleftrightarrow> u \<in> set us \<and> key_id u = key_id fk \<and> key_actions u \<noteq> key_actions fk"
    for u fk
  proof (cases "map_of (map (\<lambda>fk. (foreignKeyIdentity fk, fk)) us) (foreignKeyIdentity fk)")
    case None
    then have "\<not> (u \<in> set us \<and> key_id u = key_id fk)" using identity_lookup [OF assms(1), of fk u] by simp
    with None show ?thesis by (auto simp: replaced_key_def)
  next
    case (Some v)
    then have "u = v \<longleftrightarrow> u \<in> set us \<and> key_id u = key_id fk" using identity_lookup [OF assms(1), of fk u] by auto
    with Some show ?thesis by (auto simp: replaced_key_def sameForeignKeyActions_iff)
  qed
  have "u \<in> set (dropped_keys us ts) \<longleftrightarrow> u \<in> set us \<and>
      ((\<exists>fk \<in> set ts. key_id u = key_id fk \<and> key_actions u \<noteq> key_actions fk) \<or> key_id u \<notin> key_id ` set ts)" for u
    by (auto simp: dropped_keys_def matched foreignKeyIdentity_key_id image_iff)
  moreover have "((\<exists>fk \<in> set ts. key_id u = key_id fk \<and> key_actions u \<noteq> key_actions fk) \<or> key_id u \<notin> key_id ` set ts)
      \<longleftrightarrow> \<not> has_key ts u" for u
    using uniq unfolding has_key_def image_iff by metis
  ultimately show ?thesis by blast
qed

lemma disjoint_in: "A \<subseteq> {k} \<Longrightarrow> B \<subseteq> C \<Longrightarrow> k \<notin> C \<Longrightarrow> A \<inter> B = {}"
  by blast

lemma distinct_dropped_keys:
  assumes "distinct_keys us" and "distinct_keys ts"
  shows "distinct_keys (dropped_keys us ts)" and "distinct_keys (added_keys us ts)"
proof -
  let ?f = "replaced_key us"
  have ids: "key_id ` set (?f fk) \<subseteq> {key_id fk} \<and> distinct (map key_id (?f fk))" for fk
  proof (cases "map_of (map (\<lambda>fk. (foreignKeyIdentity fk, fk)) us) (foreignKeyIdentity fk)")
    case (Some u)
    then have "key_id u = key_id fk" using identity_lookup [OF assms(1), of fk u] by simp
    with Some show ?thesis by (simp add: replaced_key_def)
  qed (simp add: replaced_key_def)
  have "distinct (map key_id (concat (map ?f xs))) \<and> key_id ` set (concat (map ?f xs)) \<subseteq> key_id ` set xs"
    if "distinct (map key_id xs)" for xs
    using that
  proof (induction xs)
    case (Cons x xs)
    then have ih: "distinct (map key_id (concat (map ?f xs)))" "key_id ` set (concat (map ?f xs)) \<subseteq> key_id ` set xs"
      "key_id x \<notin> key_id ` set xs" by simp_all
    have "set (map key_id (?f x)) \<inter> set (map key_id (concat (map ?f xs))) = {}"
      unfolding set_map by (rule disjoint_in [OF conjunct1 [OF ids] ih(2,3)])
    then have "distinct (map key_id (?f x @ concat (map ?f xs)))"
      using conjunct2 [OF ids [of x]] ih(1) by (simp only: map_append distinct_append simp_thms)
    moreover have "key_id ` set (?f x @ concat (map ?f xs)) \<subseteq> key_id ` set (x # xs)"
      using order_trans [OF ih(2) subset_insertI] order_trans [OF conjunct1 [OF ids [of x]], of "key_id ` set (x # xs)"]
      unfolding set_append image_Un by simp
    ultimately show ?case by (simp only: list.map concat.simps)
  qed simp
  then have *: "distinct (map key_id (concat (map ?f ts))) \<and> key_id ` set (concat (map ?f ts)) \<subseteq> key_id ` set ts"
    using assms(2) by (simp add: distinct_keys_def)
  moreover have "key_id ` set (filter (\<lambda>fk. foreignKeyIdentity fk \<notin> foreignKeyIdentity ` set ts) us) \<inter> key_id ` set ts = {}"
    by (auto simp: foreignKeyIdentity_key_id image_iff)
  moreover have "distinct (map key_id (filter P us))" for P
    using assms(1) by (simp add: distinct_keys_def distinct_map_filter)
  ultimately show "distinct_keys (dropped_keys us ts)"
    unfolding distinct_keys_def dropped_keys_def map_append distinct_append set_map by blast
  show "distinct_keys (added_keys us ts)"
    using assms(2) by (simp add: distinct_keys_def added_keys_def distinct_map_filter)
qed

subsection \<open>Columns\<close>

definition dropped_columns :: "table_snapshot \<Rightarrow> table_snapshot \<Rightarrow> column_snapshot list" where
  "dropped_columns u t = filter (\<lambda>c. cs_name c \<notin> cs_name ` set (tb_columns t)) (tb_columns u)"

definition added_columns :: "table_snapshot \<Rightarrow> table_snapshot \<Rightarrow> column_snapshot list" where
  "added_columns u t = dropped_columns t u"

definition column_alters :: "table_snapshot \<Rightarrow> table_snapshot \<Rightarrow> change_op list" where
  "column_alters u t = concat (map (\<lambda>c. case map_of (map (\<lambda>c. (cs_name c, c)) (tb_columns u)) (cs_name c) of
     None \<Rightarrow> [] | Some bc \<Rightarrow> if sameColumn bc c then [] else [AlterColumn (tb_name t) bc c]) (tb_columns t))"

definition key_alter :: "table_snapshot \<Rightarrow> table_snapshot \<Rightarrow> change_op list" where
  "key_alter u t = (if tb_primaryKey u = tb_primaryKey t then []
     else [AlterPrimaryKey (tb_name t) (tb_primaryKey u) (tb_primaryKey t)])"

definition distinct_columns :: "table_snapshot \<Rightarrow> bool" where
  "distinct_columns t \<longleftrightarrow> distinct (map cs_name (tb_columns t))"

lemma named_columns_map: "distinct_columns t \<Longrightarrow> named_columns t = map (\<lambda>c. (cs_name c, c)) (tb_columns t)"
  by (simp add: named_columns_def distinct_columns_def new_map_distinct comp_def)

lemma no_column: "map_of (map (\<lambda>c. (cs_name c, c)) cs) n = None \<longleftrightarrow> n \<notin> cs_name ` set cs"
  by (simp add: map_of_eq_None_iff image_image)

lemma column_changes_parts:
  assumes "distinct_columns u" and "distinct_columns t"
  shows "phase_part 5 (column_changes u t) = map (DropColumn (tb_name t)) (dropped_columns u t)"
    and "phase_part 3 (column_changes u t) = map (AddColumn (tb_name t)) (added_columns u t)"
    and "phase_part 4 (column_changes u t) = column_alters u t"
    and "p \<notin> {3, 4, 5} \<Longrightarrow> phase_part p (column_changes u t) = []"
proof -
  let ?m = "map (\<lambda>c. (cs_name c, c)) (tb_columns u)"
  let ?f = "\<lambda>m c. case map_of m (cs_name c) of None \<Rightarrow> [AddColumn (tb_name t) c]
    | Some bc \<Rightarrow> if sameColumn bc c then [] else [AlterColumn (tb_name t) bc c]"
  have split: "column_changes u t = map (DropColumn (tb_name t)) (dropped_columns u t) @ concat (map (?f ?m) (tb_columns t))"
    by (simp add: column_changes_def named_columns_map assms dropped_columns_def no_column)
  have 3: "phase_part 3 (concat (map (?f m) cs)) = map (AddColumn (tb_name t)) (filter (\<lambda>c. map_of m (cs_name c) = None) cs)"
    for m cs by (induction cs) (auto simp: phase_part_def split: option.split)
  have 4: "phase_part 4 (concat (map (?f m) cs)) = concat (map (\<lambda>c. case map_of m (cs_name c) of
     None \<Rightarrow> [] | Some bc \<Rightarrow> if sameColumn bc c then [] else [AlterColumn (tb_name t) bc c]) cs)"
    for m cs by (induction cs) (auto simp: phase_part_def split: option.split)
  have other: "p \<notin> {3, 4} \<Longrightarrow> phase_part p (concat (map (?f m) cs)) = []"
    for m cs p by (induction cs) (auto simp: phase_part_def split: option.split)
  have drops: "phase_part p (map (DropColumn n) cs) = (if p = 5 then map (DropColumn n) cs else [])" for p n cs
    by (simp add: phase_part_def filter_map comp_def)
  have app: "phase_part p (xs @ ys) = phase_part p xs @ phase_part p ys" for p xs ys by (simp add: phase_part_def)
  show "phase_part 5 (column_changes u t) = map (DropColumn (tb_name t)) (dropped_columns u t)"
    using other [of 5] by (simp add: split app drops)
  show "phase_part 3 (column_changes u t) = map (AddColumn (tb_name t)) (added_columns u t)"
    by (simp add: split app drops 3 added_columns_def dropped_columns_def no_column)
  show "phase_part 4 (column_changes u t) = column_alters u t"
    by (simp add: split app drops 4 column_alters_def)
  show "p \<notin> {3, 4, 5} \<Longrightarrow> phase_part p (column_changes u t) = []"
    using other [of p] by (simp add: split app drops)
qed

subsection \<open>The lists of a plan\<close>

definition shared_tables :: "schema_snapshot \<Rightarrow> schema_snapshot \<Rightarrow> (table_snapshot \<times> table_snapshot) list" where
  "shared_tables prev next = concat (map (\<lambda>t. case map_of (named_tables prev) (tb_name t) of
     None \<Rightarrow> [] | Some u \<Rightarrow> [(u, t)]) (sn_tables next))"

definition shared_changes :: "table_snapshot \<times> table_snapshot \<Rightarrow> change_op list" where
  "shared_changes p = column_changes (fst p) (snd p) @ key_alter (fst p) (snd p) @
     diffForeignKeys (tb_name (snd p)) (tb_foreignKeys (fst p)) (tb_foreignKeys (snd p))"

definition plan_lists ::
  "(string \<Rightarrow> string \<Rightarrow> bool) \<Rightarrow> migration_target option \<Rightarrow> schema_snapshot \<Rightarrow> schema_snapshot \<Rightarrow>
   table_snapshot list \<Rightarrow> table_snapshot list \<Rightarrow> bool" where
  "plan_lists lc d prev next dropped created \<longleftrightarrow> wf_snapshot prev \<and> wf_snapshot next \<and>
     createdTablesInOrder lc (map fst (named_tables next)) (sn_tables prev) d True = Inr dropped \<and>
     createdTablesInOrder lc (map fst (named_tables prev)) (sn_tables next) d False = Inr created \<and>
     (\<forall>p \<in> set (shared_tables prev next). sameTableOptions (tb_options (fst p)) (tb_options (snd p)))"

definition plan_changes ::
  "migration_target option \<Rightarrow> schema_snapshot \<Rightarrow> schema_snapshot \<Rightarrow> table_snapshot list \<Rightarrow> table_snapshot list \<Rightarrow>
   change_op list" where
  "plan_changes d prev next dropped created = extension_changes prev next @
     map (\<lambda>t. DropTable (tb_name t) t) (rev dropped) @ concat (map shared_changes (shared_tables prev next)) @
     concat (map (create_changes d) created)"

lemma named_tables_map: "wf_snapshot s \<Longrightarrow> named_tables s = map (\<lambda>t. (tb_name t, t)) (sn_tables s)"
  by (simp add: named_tables_def wf_snapshot_def new_map_distinct comp_def)

lemma named_tables_lookup:
  assumes "wf_snapshot s"
  shows "map_of (named_tables s) n = Some t \<longleftrightarrow> t \<in> set (sn_tables s) \<and> tb_name t = n"
proof -
  have "distinct (map fst (named_tables s))" by (simp add: named_tables_def distinct_new_map)
  then have "map_of (named_tables s) n = Some t \<longleftrightarrow> (n, t) \<in> set (named_tables s)" by (rule map_of_eq_Some_iff)
  then show ?thesis by (auto simp: named_tables_map [OF assms])
qed

lemma set_shared_tables:
  assumes "wf_snapshot prev"
  shows "p \<in> set (shared_tables prev next) \<longleftrightarrow>
    fst p \<in> set (sn_tables prev) \<and> snd p \<in> set (sn_tables next) \<and> tb_name (fst p) = tb_name (snd p)"
proof -
  have "p \<in> set (case map_of (named_tables prev) (tb_name t) of None \<Rightarrow> [] | Some u \<Rightarrow> [(u, t)]) \<longleftrightarrow>
      map_of (named_tables prev) (tb_name t) = Some (fst p) \<and> snd p = t" for t
    by (cases p) (auto split: option.split)
  then show ?thesis by (auto simp: shared_tables_def named_tables_lookup [OF assms])
qed

lemma distinct_shared_tables:
  assumes "wf_snapshot next"
  shows "distinct (map (tb_name \<circ> snd) (shared_tables prev next))"
proof -
  have "distinct (map (tb_name \<circ> snd) (concat (map (\<lambda>t. case map_of m (tb_name t) of None \<Rightarrow> [] | Some u \<Rightarrow> [(u, t)]) ts)))"
    if "distinct (map tb_name ts)" for m :: "(string \<times> table_snapshot) list" and ts
    using that by (induction ts) (auto split: option.split)
  from this [of "sn_tables next" "named_tables prev"] assms show ?thesis
    by (simp only: shared_tables_def wf_snapshot_def)
qed

lemma unordered_diff_lists:
  assumes "wf_snapshot prev" and "wf_snapshot next" and "unordered_diff lc prev next d = Inr ops"
  obtains dropped created where "plan_lists lc d prev next dropped created"
    and "ops = plan_changes d prev next dropped created"
proof -
  from assms(3) obtain dropped changes created where
    dropped: "createdTablesInOrder lc (map fst (named_tables next)) (sn_tables prev) d True = Inr dropped" and
    changes: "map_result (table_changes d (named_tables prev)) (sn_tables next) = Inr changes" and
    created: "createdTablesInOrder lc (map fst (named_tables prev)) (sn_tables next) d False = Inr created" and
    ops: "ops = extension_changes prev next @ map (\<lambda>t. DropTable (tb_name t) t) (rev dropped) @ concat changes @
      concat (map (create_changes d) created)"
    by (auto simp: unordered_diff_def Let_def result_simps)
  have "concat changes = concat (map shared_changes (shared_tables prev next)) \<and>
      (\<forall>p \<in> set (shared_tables prev next). sameTableOptions (tb_options (fst p)) (tb_options (snd p)))"
  proof -
    have "list_all2 (\<lambda>t ch. table_changes d (named_tables prev) t = Inr ch) ts chs \<Longrightarrow>
      let sh = concat (map (\<lambda>t. case map_of (named_tables prev) (tb_name t) of None \<Rightarrow> [] | Some u \<Rightarrow> [(u, t)]) ts) in
      concat chs = concat (map shared_changes sh) \<and>
      (\<forall>p \<in> set sh. sameTableOptions (tb_options (fst p)) (tb_options (snd p)))" for ts chs
      by (induction rule: list_all2_induct)
        (auto simp: table_changes_def shared_changes_def key_alter_def Let_def split: option.splits if_splits)
    from this [OF changes [unfolded map_result_Inr_list]] show ?thesis by (simp add: Let_def shared_tables_def)
  qed
  with assms(1,2) dropped created ops that show ?thesis by (simp add: plan_lists_def plan_changes_def)
qed

text \<open>Named lists over the tables: each element with the name of its table.\<close>

definition named_list :: "('a \<Rightarrow> string) \<Rightarrow> ('a \<Rightarrow> 'b list) \<Rightarrow> 'a list \<Rightarrow> (string \<times> 'b) list" where
  "named_list f g xs = concat (map (\<lambda>x. map (Pair (f x)) (g x)) xs)"

lemma set_named_list: "(n, y) \<in> set (named_list f g xs) \<longleftrightarrow> (\<exists>x \<in> set xs. f x = n \<and> y \<in> set (g x))"
  by (auto simp: named_list_def)

lemma distinct_named_list:
  "distinct (map f xs) \<Longrightarrow> \<forall>x \<in> set xs. distinct (map h (g x)) \<Longrightarrow>
     distinct (map (\<lambda>p. (fst p, h (snd p))) (named_list f g xs))"
proof (induction xs)
  case (Cons x xs)
  have "distinct (map (\<lambda>p. (fst p, h (snd p))) (map (Pair (f x)) (g x)))"
    using Cons.prems(2) by (simp add: comp_def distinct_map inj_on_def)
  moreover have "fst ` set (named_list f g xs) \<subseteq> f ` set xs" by (auto simp: named_list_def)
  ultimately show ?case using Cons by (auto simp: named_list_def)
qed (simp add: named_list_def)

lemma key_loc_map: "map key_loc ps = map (\<lambda>p. (fst p, key_id (snd p))) ps"
  by (simp add: key_loc_def)

lemma column_loc_map: "map column_loc ps = map (\<lambda>p. (fst p, cs_name (snd p))) ps"
  by (simp add: column_loc_def)

definition name_of :: "table_snapshot \<times> table_snapshot \<Rightarrow> string" where
  "name_of p = tb_name (snd p)"

definition plan_dropped_keys :: "schema_snapshot \<Rightarrow> schema_snapshot \<Rightarrow> (string \<times> foreign_key) list" where
  "plan_dropped_keys prev next =
     named_list name_of (\<lambda>p. dropped_keys (tb_foreignKeys (fst p)) (tb_foreignKeys (snd p))) (shared_tables prev next)"

definition plan_added_keys :: "schema_snapshot \<Rightarrow> schema_snapshot \<Rightarrow> (string \<times> foreign_key) list" where
  "plan_added_keys prev next =
     named_list name_of (\<lambda>p. added_keys (tb_foreignKeys (fst p)) (tb_foreignKeys (snd p))) (shared_tables prev next)"

definition plan_dropped_columns :: "schema_snapshot \<Rightarrow> schema_snapshot \<Rightarrow> (string \<times> column_snapshot) list" where
  "plan_dropped_columns prev next =
     named_list name_of (\<lambda>p. dropped_columns (fst p) (snd p)) (shared_tables prev next)"

definition plan_added_columns :: "schema_snapshot \<Rightarrow> schema_snapshot \<Rightarrow> (string \<times> column_snapshot) list" where
  "plan_added_columns prev next =
     named_list name_of (\<lambda>p. added_columns (fst p) (snd p)) (shared_tables prev next)"

definition plan_alters :: "schema_snapshot \<Rightarrow> schema_snapshot \<Rightarrow> change_op list" where
  "plan_alters prev next =
     concat (map (\<lambda>p. column_alters (fst p) (snd p) @ key_alter (fst p) (snd p)) (shared_tables prev next))"

definition new_keys :: "migration_target option \<Rightarrow> table_snapshot list \<Rightarrow> (string \<times> foreign_key) list" where
  "new_keys d created = (if inline_keys d then [] else named_list tb_name tb_foreignKeys created)"

definition create_op :: "migration_target option \<Rightarrow> table_snapshot \<Rightarrow> change_op" where
  "create_op d t = CreateTable (tb_name t) (tb_columns t) (tb_primaryKey t)
     (if inline_keys d then tb_foreignKeys t else []) (tb_options t)"

lemma phase_part_append [simp]: "phase_part p (xs @ ys) = phase_part p xs @ phase_part p ys"
  by (simp add: phase_part_def)

lemma phase_part_concat: "phase_part p (concat xss) = concat (map (phase_part p) xss)"
  by (simp add: phase_part_def [abs_def] filter_concat)

lemma concat_map_Nil [simp]: "concat (map (\<lambda>x. []) xs) = []"
  by (induction xs) simp_all

lemma phase_part_map: "phase_part p (map f xs) = map f (filter (\<lambda>x. op_phase (f x) = p) xs)"
  by (simp add: phase_part_def filter_map comp_def)

lemma map_named_list: "map (\<lambda>p. F (fst p) (snd p)) (named_list f g xs) = concat (map (\<lambda>x. map (F (f x)) (g x)) xs)"
  by (simp add: named_list_def map_concat comp_def)

lemma wf_distinct:
  "wf_snapshot s \<Longrightarrow> t \<in> set (sn_tables s) \<Longrightarrow> distinct_columns t \<and> distinct_keys (tb_foreignKeys t)"
  unfolding wf_snapshot_def wf_table_def distinct_columns_def distinct_keys_def by blast

lemma phase_part_extensions: "phase_part p (extension_changes prev next) = (if p = 0 then extension_changes prev next else [])"
  by (simp add: extension_changes_def phase_part_map)

lemma phase_part_creates:
  "phase_part p (concat (map (create_changes d) created)) =
     (if p = 3 then map (create_op d) created
      else if p = 6 then map (\<lambda>p. AddForeignKey (fst p) (snd p)) (new_keys d created) else [])"
proof -
  have "phase_part p (create_changes d t) = (if p = 3 then [create_op d t] else
      if p = 6 \<and> \<not> inline_keys d then map (AddForeignKey (tb_name t)) (tb_foreignKeys t) else [])" for t
    by (auto simp: create_changes_def create_op_def phase_part_def filter_map comp_def)
  then have "map (phase_part p) (map (create_changes d) created) = map (\<lambda>t. if p = 3 then [create_op d t] else
      if p = 6 \<and> \<not> inline_keys d then map (AddForeignKey (tb_name t)) (tb_foreignKeys t) else []) created" by simp
  then show ?thesis
    by (auto simp: phase_part_concat new_keys_def map_named_list simp del: map_map)
qed

lemma phase_part_shared:
  assumes "distinct_columns (fst x)" "distinct_columns (snd x)"
    "distinct_keys (tb_foreignKeys (fst x))" "distinct_keys (tb_foreignKeys (snd x))"
  shows "phase_part p (shared_changes x) =
    (if p = 1 then map (DropForeignKey (name_of x)) (dropped_keys (tb_foreignKeys (fst x)) (tb_foreignKeys (snd x)))
     else if p = 3 then map (AddColumn (name_of x)) (added_columns (fst x) (snd x))
     else if p = 4 then column_alters (fst x) (snd x) @ key_alter (fst x) (snd x)
     else if p = 5 then map (DropColumn (name_of x)) (dropped_columns (fst x) (snd x))
     else if p = 6 then map (AddForeignKey (name_of x)) (added_keys (tb_foreignKeys (fst x)) (tb_foreignKeys (snd x)))
     else [])"
proof -
  have key: "phase_part q (key_alter (fst x) (snd x)) = (if q = 4 then key_alter (fst x) (snd x) else [])" for q
    by (simp add: key_alter_def phase_part_def)
  note cs = column_changes_parts [OF assms(1,2)] and ks = diffForeignKeys_parts [OF assms(3,4)]
  consider "p = 1" | "p = 3" | "p = 4" | "p = 5" | "p = 6" | "p \<notin> {1, 3, 4, 5, 6}" by blast
  then show ?thesis
  proof cases
    case 1 then show ?thesis using cs(4) [of 1] ks(1) by (simp add: shared_changes_def key name_of_def)
  next
    case 2 then show ?thesis using cs(2) ks(3) [of 3] by (simp add: shared_changes_def key name_of_def)
  next
    case 3 then show ?thesis using cs(3) ks(3) [of 4] by (simp add: shared_changes_def key name_of_def)
  next
    case 4 then show ?thesis using cs(1) ks(3) [of 5] by (simp add: shared_changes_def key name_of_def)
  next
    case 5 then show ?thesis using cs(4) [of 6] ks(2) by (simp add: shared_changes_def key name_of_def)
  next
    case 6 then show ?thesis using cs(4) [of p] ks(3) [of p] by (simp add: shared_changes_def key)
  qed
qed

lemma plan_parts:
  assumes "plan_lists lc d prev next dropped created"
  shows "orderChanges (plan_changes d prev next dropped created) = Inr (extension_changes prev next @
    map (\<lambda>p. DropForeignKey (fst p) (snd p)) (plan_dropped_keys prev next) @
    map (\<lambda>t. DropTable (tb_name t) t) (rev dropped) @
    map (\<lambda>p. AddColumn (fst p) (snd p)) (plan_added_columns prev next) @ map (create_op d) created @
    plan_alters prev next @
    map (\<lambda>p. DropColumn (fst p) (snd p)) (plan_dropped_columns prev next) @
    map (\<lambda>p. AddForeignKey (fst p) (snd p)) (plan_added_keys prev next) @
    map (\<lambda>p. AddForeignKey (fst p) (snd p)) (new_keys d created))"
proof -
  have wf: "wf_snapshot prev" "wf_snapshot next" using assms by (simp_all add: plan_lists_def)
  have shared: "phase_part p (concat (map shared_changes (shared_tables prev next))) = concat (map (\<lambda>x.
     if p = 1 then map (DropForeignKey (name_of x)) (dropped_keys (tb_foreignKeys (fst x)) (tb_foreignKeys (snd x)))
     else if p = 3 then map (AddColumn (name_of x)) (added_columns (fst x) (snd x))
     else if p = 4 then column_alters (fst x) (snd x) @ key_alter (fst x) (snd x)
     else if p = 5 then map (DropColumn (name_of x)) (dropped_columns (fst x) (snd x))
     else if p = 6 then map (AddForeignKey (name_of x)) (added_keys (tb_foreignKeys (fst x)) (tb_foreignKeys (snd x)))
     else []) (shared_tables prev next))" for p
    unfolding phase_part_concat map_map
    using wf_distinct [OF wf(1)] wf_distinct [OF wf(2)] set_shared_tables [OF wf(1)]
    by (intro arg_cong [of _ _ concat] map_cong) (simp_all add: phase_part_shared)
  have drops: "phase_part p (map (\<lambda>t. DropTable (tb_name t) t) ts) = (if p = 2 then map (\<lambda>t. DropTable (tb_name t) t) ts else [])"
    for p ts by (simp add: phase_part_map)
  have "[0..<7] = [0, 1, 2, 3, 4, 5, 6 :: nat]" by (simp add: upt_rec)
  then show ?thesis
    unfolding orderChanges_parts plan_changes_def
    by (simp add: phase_part_extensions phase_part_creates shared drops plan_dropped_keys_def plan_added_columns_def
        plan_alters_def plan_dropped_columns_def plan_added_keys_def map_named_list)
qed

end
