(* ===== verification/MigrationStages.thy ===== *)
theory MigrationStages
  imports MigrationReach
begin

section \<open>The database after each stage of a plan\<close>

text \<open>
  \<open>a\<close> is the database of the previous snapshot, \<open>b\<close> the one of the next snapshot. The drops leave what
  both have, the creations add what is new, the alterations take the values of \<open>b\<close>, the last two phases
  remove the old columns and add the references that \<open>b\<close> still misses.
\<close>

definition after_drops :: "abstract_db \<Rightarrow> abstract_db \<Rightarrow> abstract_db" where
  "after_drops a b =
     \<lparr>ab_tables = (\<lambda>n. if n \<in> dom (ab_tables b) then ab_tables a n else None),
      ab_columns = (\<lambda>x. if fst x \<in> dom (ab_tables b) then ab_columns a x else None),
      ab_keys = (\<lambda>x. if ab_keys a x = ab_keys b x then ab_keys b x else None),
      ab_extensions = ab_extensions b \<union> ab_extensions a\<rparr>"

definition after_creates :: "bool \<Rightarrow> abstract_db \<Rightarrow> abstract_db \<Rightarrow> abstract_db" where
  "after_creates inl a b =
     \<lparr>ab_tables = (\<lambda>n. if n \<in> dom (ab_tables b) then (if n \<in> dom (ab_tables a) then ab_tables a n else ab_tables b n) else None),
      ab_columns = (\<lambda>x. if fst x \<in> dom (ab_tables b) \<and> x \<in> dom (ab_columns a) then ab_columns a x else ab_columns b x),
      ab_keys = (\<lambda>x. if inl \<and> fst x \<notin> dom (ab_tables a) \<or> ab_keys a x = ab_keys b x then ab_keys b x else None),
      ab_extensions = ab_extensions b \<union> ab_extensions a\<rparr>"

definition after_alters :: "bool \<Rightarrow> abstract_db \<Rightarrow> abstract_db \<Rightarrow> abstract_db" where
  "after_alters inl a b = (after_creates inl a b)
     \<lparr>ab_tables := ab_tables b,
      ab_columns := (\<lambda>x. if x \<in> dom (ab_columns b) then ab_columns b x else ab_columns (after_creates inl a b) x)\<rparr>"

subsection \<open>Tables before and after\<close>

lemma plan_wf: "plan_lists lc d prev next dropped created \<Longrightarrow> wf_snapshot prev"
  "plan_lists lc d prev next dropped created \<Longrightarrow> wf_snapshot next"
  by (simp_all add: plan_lists_def)

lemma names_of_named: "set (map fst (named_tables s)) = tb_name ` set (sn_tables s)"
  by (simp add: named_tables_def keys_new_map image_image)

lemma plan_dropped:
  assumes "plan_lists lc d prev next dropped created"
  shows "distinct (map tb_name dropped)" and "targets_first dropped"
    and "set dropped = {t \<in> set (sn_tables prev). tb_name t \<notin> tb_name ` set (sn_tables next)}"
proof -
  have "distinct (map tb_name (sn_tables prev))" "createdTablesInOrder lc (map fst (named_tables next)) (sn_tables prev) d True = Inr dropped"
    using assms by (simp_all add: plan_lists_def wf_snapshot_def)
  from created_tables_all [OF this]
  show "distinct (map tb_name dropped)" "targets_first dropped"
    "set dropped = {t \<in> set (sn_tables prev). tb_name t \<notin> tb_name ` set (sn_tables next)}"
    by (simp_all only: new_tables_def names_of_named simp_thms)
qed

lemma plan_created:
  assumes "plan_lists lc d prev next dropped created"
  shows "distinct (map tb_name created)" and "inline_keys d \<Longrightarrow> targets_first created"
    and "set created = {t \<in> set (sn_tables next). tb_name t \<notin> tb_name ` set (sn_tables prev)}"
proof -
  have "distinct (map tb_name (sn_tables next))" "createdTablesInOrder lc (map fst (named_tables prev)) (sn_tables next) d False = Inr created"
    using assms by (simp_all add: plan_lists_def wf_snapshot_def)
  from created_tables_all [OF this]
  show "distinct (map tb_name created)" "inline_keys d \<Longrightarrow> targets_first created"
    "set created = {t \<in> set (sn_tables next). tb_name t \<notin> tb_name ` set (sn_tables prev)}"
    by (simp_all only: new_tables_def names_of_named simp_thms)
qed

lemma has_key_db:
  assumes "wf_snapshot s" and "t \<in> set (sn_tables s)"
  shows "has_key (tb_foreignKeys t) fk \<longleftrightarrow> ab_keys (db_of s) (tb_name t, key_id fk) = Some (key_actions fk)"
proof
  assume "has_key (tb_foreignKeys t) fk"
  then obtain x where "x \<in> set (tb_foreignKeys t)" "key_id x = key_id fk" "key_actions x = key_actions fk"
    unfolding has_key_def by blast
  then show "ab_keys (db_of s) (tb_name t, key_id fk) = Some (key_actions fk)" using key_db_of [OF assms, of x] by simp
next
  assume k: "ab_keys (db_of s) (tb_name t, key_id fk) = Some (key_actions fk)"
  then have "(tb_name t, key_id fk) \<in> dom (ab_keys (db_of s))" by blast
  then obtain u x where x: "u \<in> set (sn_tables s)" "tb_name u = tb_name t" "x \<in> set (tb_foreignKeys u)" "key_id x = key_id fk"
    by (rule key_db_ofE [OF assms(1)])
  have "inj_on tb_name (set (sn_tables s))" using assms(1) by (simp add: wf_snapshot_def distinct_map)
  then have "u = t" using x(1,2) assms(2) by (auto dest: inj_onD)
  then have "key_actions x = key_actions fk" using key_db_of [OF assms(1) x(1,3)] k x(4) by simp
  with x \<open>u = t\<close> show "has_key (tb_foreignKeys t) fk" by (auto simp: has_key_def)
qed

lemma shared_of:
  assumes "wf_snapshot prev" and "n \<in> dom (ab_tables (db_of prev))" and "n \<in> dom (ab_tables (db_of next))"
  obtains x where "x \<in> set (shared_tables prev next)" "name_of x = n" "tb_name (fst x) = n"
    "fst x \<in> set (sn_tables prev)" "snd x \<in> set (sn_tables next)"
proof -
  obtain u t where "u \<in> set (sn_tables prev)" "tb_name u = n" "t \<in> set (sn_tables next)" "tb_name t = n"
    using assms(2,3) by (auto simp: dom_tables_db_of)
  then show ?thesis using that [of "(u, t)"] set_shared_tables [OF assms(1)] by (simp add: name_of_def)
qed

text \<open>The references that are dropped first are those of shared tables that \<open>b\<close> does not have as they are.\<close>

lemma dropped_key_locs:
  assumes "wf_snapshot prev" and "wf_snapshot next"
  shows "key_loc ` set (plan_dropped_keys prev next) =
    {x. fst x \<in> dom (ab_tables (db_of next)) \<and> x \<in> dom (ab_keys (db_of prev)) \<and>
        ab_keys (db_of prev) x \<noteq> ab_keys (db_of next) x}" (is "?l = ?r")
proof -
  have elem: "(n, fk) \<in> set (plan_dropped_keys prev next) \<longleftrightarrow> (\<exists>x \<in> set (shared_tables prev next). name_of x = n \<and>
      fk \<in> set (tb_foreignKeys (fst x)) \<and> \<not> has_key (tb_foreignKeys (snd x)) fk)" for n fk
    unfolding plan_dropped_keys_def set_named_list
    using wf_distinct [OF assms(1)] wf_distinct [OF assms(2)] set_shared_tables [OF assms(1)]
    by (auto simp: set_dropped_keys)
  show ?thesis
  proof (rule set_eqI)
    fix x :: key_loc
    obtain n k where x: "x = (n, k)" by (cases x)
    have "x \<in> ?l \<longleftrightarrow> (\<exists>fk. (n, fk) \<in> set (plan_dropped_keys prev next) \<and> key_id fk = k)"
      by (force simp: key_loc_def x image_iff)
    also have "\<dots> \<longleftrightarrow> x \<in> ?r"
    proof
      assume "\<exists>fk. (n, fk) \<in> set (plan_dropped_keys prev next) \<and> key_id fk = k"
      then obtain fk y where y: "y \<in> set (shared_tables prev next)" "name_of y = n" "fk \<in> set (tb_foreignKeys (fst y))"
        "\<not> has_key (tb_foreignKeys (snd y)) fk" "key_id fk = k" unfolding elem by blast
      then have t: "fst y \<in> set (sn_tables prev)" "snd y \<in> set (sn_tables next)" "tb_name (fst y) = n" "tb_name (snd y) = n"
        using set_shared_tables [OF assms(1)] by (simp_all add: name_of_def)
      have "ab_keys (db_of prev) (n, k) = Some (key_actions fk)"
        using key_db_of [OF assms(1) t(1) y(3)] t y(5) by simp
      moreover have "ab_keys (db_of next) (n, k) \<noteq> Some (key_actions fk)"
        using has_key_db [OF assms(2) t(2), of fk] y(4,5) t by simp
      moreover have "n \<in> dom (ab_tables (db_of next))" using imageI [OF t(2), of tb_name] t by (simp add: dom_tables_db_of)
      ultimately show "x \<in> ?r" by (simp add: x domIff)
    next
      assume r: "x \<in> ?r"
      then have n: "n \<in> dom (ab_tables (db_of next))" "(n, k) \<in> dom (ab_keys (db_of prev))" by (simp_all add: x)
      have "n \<in> dom (ab_tables (db_of prev))" using sound_dbD(4) [OF sound_db_of [OF assms(1)] n(2)] .
      then obtain y where y: "y \<in> set (shared_tables prev next)" "name_of y = n" "tb_name (fst y) = n"
        "fst y \<in> set (sn_tables prev)" "snd y \<in> set (sn_tables next)" by (rule shared_of [OF assms(1) _ n(1)])
      obtain u fk where u: "u \<in> set (sn_tables prev)" "tb_name u = n" "fk \<in> set (tb_foreignKeys u)" "key_id fk = k"
        by (rule key_db_ofE [OF assms(1) n(2)])
      have "inj_on tb_name (set (sn_tables prev))" using assms(1) by (simp add: wf_snapshot_def distinct_map)
      then have "u = fst y" using u(1,2) y(3,4) by (auto dest: inj_onD)
      moreover have "\<not> has_key (tb_foreignKeys (snd y)) fk"
        using r has_key_db [OF assms(2) y(5), of fk] key_db_of [OF assms(1) u(1,3)] u(2,4) y(2) by (auto simp: x name_of_def)
      ultimately show "\<exists>fk. (n, fk) \<in> set (plan_dropped_keys prev next) \<and> key_id fk = k"
        unfolding elem using y u by blast
    qed
    finally show "x \<in> ?l \<longleftrightarrow> x \<in> ?r" .
  qed
qed

lemma distinct_plan_keys:
  assumes "wf_snapshot prev" and "wf_snapshot next"
  shows "distinct (map key_loc (plan_dropped_keys prev next))" and "distinct (map key_loc (plan_added_keys prev next))"
proof -
  have "distinct (map name_of (shared_tables prev next))"
    using distinct_shared_tables [OF assms(2), of prev] by (simp add: name_of_def [abs_def] comp_def)
  moreover have "distinct_keys (dropped_keys (tb_foreignKeys (fst x)) (tb_foreignKeys (snd x)))"
    "distinct_keys (added_keys (tb_foreignKeys (fst x)) (tb_foreignKeys (snd x)))" if "x \<in> set (shared_tables prev next)" for x
    using that wf_distinct [OF assms(1)] wf_distinct [OF assms(2)] set_shared_tables [OF assms(1)]
    by (simp_all add: distinct_dropped_keys)
  ultimately show "distinct (map key_loc (plan_dropped_keys prev next))" "distinct (map key_loc (plan_added_keys prev next))"
    unfolding key_loc_map plan_dropped_keys_def plan_added_keys_def
    by (intro distinct_named_list ballI; simp add: distinct_keys_def)+
qed

subsection \<open>The drops\<close>

text \<open>A table that still references a dropped one is dropped before it.\<close>

lemma dropped_order:
  assumes P: "plan_lists lc d prev next dropped created"
    and i: "i < length dropped" and k: "(m, cs, tb_name (rev dropped ! i), tcs) \<in> dom (ab_keys (db_of prev))"
    and m: "m \<noteq> tb_name (rev dropped ! i)" "m \<notin> tb_name ` set (sn_tables next)"
  shows "m \<in> tb_name ` set (take i (rev dropped))"
proof -
  let ?n = "tb_name (rev dropped ! i)" and ?i = "length dropped - Suc i"
  have wf: "wf_snapshot prev" by (rule plan_wf [OF P])
  obtain u fk where u: "u \<in> set (sn_tables prev)" "tb_name u = m" "fk \<in> set (tb_foreignKeys u)" "key_id fk = (cs, ?n, tcs)"
    by (rule key_db_ofE [OF wf k])
  then have "u \<in> set dropped" using m(2) plan_dropped(3) [OF P] by auto
  then obtain j where j: "j < length dropped" "dropped ! j = u" by (auto simp: in_set_conv_nth)
  have n: "?n = tb_name (dropped ! ?i)" using i by (simp add: rev_nth)
  have "?n \<in> tb_name ` set dropped" unfolding n using i by (intro imageI nth_mem) simp
  moreover have "fk_targetTable fk = ?n" using u(4) by (simp add: key_id_def)
  moreover have "?n \<in> fk_targetTable ` set (tb_foreignKeys u)"
    using imageI [OF u(3), of fk_targetTable] \<open>fk_targetTable fk = ?n\<close> by simp
  ultimately have "?n \<in> table_targets (tb_name ` set dropped) u" using u(2) m(1) by (simp add: table_targets_def)
  then have "?n \<in> tb_name ` set (take j dropped)" using plan_dropped(2) [OF P] j by (auto simp: targets_first_def)
  then obtain l where l: "l < j" "tb_name (dropped ! l) = ?n" using j(1) by (auto simp: in_set_conv_nth)
  have "map tb_name dropped ! l = map tb_name dropped ! ?i" using l j(1) i n by simp
  then have "l = ?i" using nth_eq_iff_index_eq [OF plan_dropped(1) [OF P], of l ?i] l(1) j(1) i by simp
  with l(1) j(1) i have "length dropped - Suc j < i" by linarith
  moreover have "rev dropped ! (length dropped - Suc j) = u" using j by (simp add: rev_nth)
  ultimately have "u \<in> set (take i (rev dropped))"
    using i by (metis in_set_conv_nth length_rev length_take min.absorb2 less_imp_le nth_take)
  with u(2) show ?thesis by blast
qed

lemma run_drops:
  assumes P: "plan_lists lc d prev next dropped created"
  shows "run_ops (extension_changes prev next @ map (\<lambda>p. DropForeignKey (fst p) (snd p)) (plan_dropped_keys prev next) @
    map (\<lambda>t. DropTable (tb_name t) t) (rev dropped)) (db_of prev) = Some (after_drops (db_of prev) (db_of next))"
proof -
  let ?a = "db_of prev" and ?b = "db_of next" and ?L = "plan_dropped_keys prev next"
  note wf = plan_wf [OF P]
  let ?ext = "?a\<lparr>ab_extensions := ab_extensions ?b \<union> ab_extensions ?a\<rparr>"
  let ?cut = "?ext\<lparr>ab_keys := ab_keys ?ext |` (- key_loc ` set ?L)\<rparr>"
  have ext: "ex_name ` set (filter (\<lambda>e. ex_name e \<notin> ex_name ` set (sn_extensions prev)) (sn_extensions next)) \<union>
      ab_extensions ?a = ab_extensions ?b \<union> ab_extensions ?a" by (auto simp: db_of_def)
  have 0: "run_ops (extension_changes prev next) ?a = Some ?ext"
    using trans [OF run_extensions arg_cong [OF ext, of "\<lambda>es. Some (?a\<lparr>ab_extensions := es\<rparr>)"]]
    by (simp only: extension_changes_def)
  have "\<forall>p \<in> set ?L. ab_keys ?ext (key_loc p) = Some (key_actions (snd p))"
  proof
    fix p assume "p \<in> set ?L"
    then have "(fst p, snd p) \<in> set ?L" by simp
    then obtain x where x: "x \<in> set (shared_tables prev next)" "name_of x = fst p"
      "snd p \<in> set (dropped_keys (tb_foreignKeys (fst x)) (tb_foreignKeys (snd x)))"
      unfolding plan_dropped_keys_def set_named_list by blast
    have t: "fst x \<in> set (sn_tables prev)" "snd x \<in> set (sn_tables next)" "tb_name (fst x) = fst p"
      using set_shared_tables [OF wf(1)] x(1,2) by (simp_all add: name_of_def)
    then have "snd p \<in> set (tb_foreignKeys (fst x))"
      using x(3) set_dropped_keys wf_distinct [OF wf(1) t(1)] wf_distinct [OF wf(2) t(2)] by auto
    from key_db_of [OF wf(1) t(1) this] t(3) show "ab_keys ?ext (key_loc p) = Some (key_actions (snd p))"
      by (simp add: key_loc_def)
  qed
  from run_drop_keys [OF distinct_plan_keys(1) [OF wf] this]
  have 1: "run_ops (map (\<lambda>p. DropForeignKey (fst p) (snd p)) ?L) ?ext = Some ?cut" .
  have keys: "ab_keys ?cut x = (if fst x \<in> dom (ab_tables ?b) \<and> ab_keys ?a x \<noteq> ab_keys ?b x then None else ab_keys ?a x)" for x
    unfolding dropped_key_locs [OF wf] by (cases "ab_keys ?a x") (auto simp: restrict_map_def domIff)
  have drop: "t \<in> set (rev dropped) \<longleftrightarrow> t \<in> set (sn_tables prev) \<and> tb_name t \<notin> dom (ab_tables ?b)" for t
    using plan_dropped(3) [OF P] by (simp add: dom_tables_db_of)
  have "run_ops (map (\<lambda>t. DropTable (tb_name t) t) (rev dropped)) ?cut = Some (drop_tables_db (tb_name ` set (rev dropped)) ?cut)"
  proof (rule run_drop_tables)
    show "distinct (map tb_name (rev dropped))" using plan_dropped(1) [OF P] by (simp add: rev_map [symmetric])
    show "\<forall>t \<in> set (rev dropped). table_is ?cut (tb_name t) t \<and> distinct (map cs_name (tb_columns t)) \<and>
        distinct (map key_id (tb_foreignKeys t))"
    proof
      fix t assume "t \<in> set (rev dropped)"
      then have t: "t \<in> set (sn_tables prev)" "tb_name t \<notin> dom (ab_tables ?b)" using drop by blast+
      then have "ab_keys ?cut (tb_name t, k) = ab_keys ?a (tb_name t, k)" for k by (simp only: keys fst_conv simp_thms if_False)
      with db_of_table [OF wf(1) t(1)] wf_distinct [OF wf(1) t(1)]
      show "table_is ?cut (tb_name t) t \<and> distinct (map cs_name (tb_columns t)) \<and> distinct (map key_id (tb_foreignKeys t))"
        unfolding table_is_def distinct_columns_def distinct_keys_def by simp
    qed
    show "\<forall>i < length (rev dropped). \<forall>m cs tcs. (m, cs, tb_name (rev dropped ! i), tcs) \<in> dom (ab_keys ?cut) \<longrightarrow>
      m \<noteq> tb_name (rev dropped ! i) \<longrightarrow> m \<in> tb_name ` set (take i (rev dropped))"
    proof (intro allI impI)
      fix i m cs tcs
      let ?n = "tb_name (rev dropped ! i)"
      assume i: "i < length (rev dropped)" and k: "(m, cs, ?n, tcs) \<in> dom (ab_keys ?cut)" and m: "m \<noteq> ?n"
      have n: "?n \<notin> dom (ab_tables ?b)" using drop nth_mem [OF i] by blast
      have k': "(m, cs, ?n, tcs) \<in> dom (ab_keys ?a)" using k unfolding domIff keys by (auto split: if_splits)
      have "m \<notin> dom (ab_tables ?b)"
      proof
        assume "m \<in> dom (ab_tables ?b)"
        then have "ab_keys ?a (m, cs, ?n, tcs) = ab_keys ?b (m, cs, ?n, tcs)"
          using k unfolding domIff keys by (auto split: if_splits)
        then have "(m, cs, ?n, tcs) \<in> dom (ab_keys ?b)" using k' by (simp add: domIff)
        from sound_dbD(2) [OF sound_db_of [OF wf(2)] this] n show False by (simp add: reference_ok_def)
      qed
      then show "m \<in> tb_name ` set (take i (rev dropped))"
        using dropped_order [OF P _ k' m] i by (simp add: dom_tables_db_of)
    qed
  qed
  moreover have "drop_tables_db (tb_name ` set (rev dropped)) ?cut = after_drops ?a ?b"
  proof -
    have in_a: "n \<in> dom (ab_tables ?a)" if "n \<in> tb_name ` set (rev dropped)" for n
      using that plan_dropped(3) [OF P] by (auto simp: dom_tables_db_of)
    have names: "n \<in> tb_name ` set (rev dropped) \<longleftrightarrow> n \<in> dom (ab_tables ?a) \<and> n \<notin> dom (ab_tables ?b)" for n
      using plan_dropped(3) [OF P] by (auto simp: dom_tables_db_of)
    note sa = sound_dbD [OF sound_db_of [OF wf(1)]] and sb = sound_dbD [OF sound_db_of [OF wf(2)]]
    have "(ab_tables ?a |` (- (tb_name ` set (rev dropped)))) n = (if n \<in> dom (ab_tables ?b) then ab_tables ?a n else None)" for n
      using names [of n] by (auto simp: restrict_map_def domIff)
    moreover have "(ab_columns ?a |` {x. fst x \<notin> tb_name ` set (rev dropped)}) x =
        (if fst x \<in> dom (ab_tables ?b) then ab_columns ?a x else None)" for x
      using names [of "fst x"] sa(3) [of "fst x" "snd x"] by (auto simp: restrict_map_def domIff)
    moreover have "(ab_keys ?cut |` {x. fst x \<notin> tb_name ` set (rev dropped)}) x =
        (if ab_keys ?a x = ab_keys ?b x then ab_keys ?b x else None)" for x
    proof -
      have "fst x \<notin> dom (ab_tables ?b) \<Longrightarrow> ab_keys ?b x = None" using sb(4) [of "fst x" "snd x"] by (cases "ab_keys ?b x") auto
      moreover have "fst x \<notin> dom (ab_tables ?a) \<Longrightarrow> ab_keys ?a x = None" using sa(4) [of "fst x" "snd x"] by (cases "ab_keys ?a x") auto
      moreover have "x \<in> key_loc ` set ?L \<longleftrightarrow> fst x \<in> dom (ab_tables ?b) \<and> ab_keys ?a x \<noteq> None \<and> ab_keys ?a x \<noteq> ab_keys ?b x"
        unfolding dropped_key_locs [OF wf] domIff by simp
      ultimately show ?thesis using names [of "fst x"]
        by (cases "fst x \<in> dom (ab_tables ?a)"; cases "fst x \<in> dom (ab_tables ?b)"; cases "ab_keys ?a x")
          (simp_all add: restrict_map_def)
    qed
    ultimately show ?thesis
      by (intro abstract_db.equality) (simp_all add: drop_tables_db_def after_drops_def fun_eq_iff)
  qed
  ultimately show ?thesis using 0 1 by (simp add: run_ops_append)
qed

subsection \<open>The creations\<close>

lemma same_table: "wf_snapshot s \<Longrightarrow> t \<in> set (sn_tables s) \<Longrightarrow> u \<in> set (sn_tables s) \<Longrightarrow> tb_name t = tb_name u \<Longrightarrow> t = u"
  by (auto simp: wf_snapshot_def distinct_map dest: inj_onD)

lemma map_of_eqI: "distinct (map fst xs) \<Longrightarrow> (\<And>k v. (k, v) \<in> set xs \<longleftrightarrow> m k = Some v) \<Longrightarrow> map_of xs = m"
  by (rule ext) (metis map_of_eq_Some_iff not_Some_eq)

lemma distinct_plan_columns:
  assumes "wf_snapshot prev" and "wf_snapshot next"
  shows "distinct (map column_loc (plan_added_columns prev next))"
    and "distinct (map column_loc (plan_dropped_columns prev next))"
proof -
  have "distinct (map name_of (shared_tables prev next))"
    using distinct_shared_tables [OF assms(2), of prev] by (simp add: name_of_def [abs_def] comp_def)
  moreover have "distinct (map cs_name (dropped_columns (fst x) (snd x)))" "distinct (map cs_name (added_columns (fst x) (snd x)))"
    if "x \<in> set (shared_tables prev next)" for x
    using that wf_distinct [OF assms(1)] wf_distinct [OF assms(2)] set_shared_tables [OF assms(1)]
    by (simp_all add: dropped_columns_def added_columns_def distinct_columns_def distinct_map_filter)
  ultimately show "distinct (map column_loc (plan_added_columns prev next))"
    "distinct (map column_loc (plan_dropped_columns prev next))"
    unfolding column_loc_map plan_added_columns_def plan_dropped_columns_def
    by (intro distinct_named_list ballI; simp)+
qed

text \<open>The columns that are added to, and dropped from, the tables both snapshots have.\<close>

lemma plan_added_column:
  assumes "wf_snapshot prev" and "wf_snapshot next"
  shows "(x, v) \<in> set (map (\<lambda>p. (column_loc p, canon (snd p))) (plan_added_columns prev next)) \<longleftrightarrow>
    fst x \<in> dom (ab_tables (db_of prev)) \<and> x \<notin> dom (ab_columns (db_of prev)) \<and> ab_columns (db_of next) x = Some v"
    (is "?l \<longleftrightarrow> ?r")
proof
  assume ?l
  then obtain n c where c: "(n, c) \<in> set (plan_added_columns prev next)" "x = (n, cs_name c)" "v = canon c"
    by (auto simp: column_loc_def)
  then obtain y where y: "y \<in> set (shared_tables prev next)" "name_of y = n" "c \<in> set (added_columns (fst y) (snd y))"
    unfolding plan_added_columns_def set_named_list by blast
  then have t: "fst y \<in> set (sn_tables prev)" "snd y \<in> set (sn_tables next)" "tb_name (fst y) = n" "tb_name (snd y) = n"
    using set_shared_tables [OF assms(1)] by (simp_all add: name_of_def)
  have "c \<in> set (tb_columns (snd y))" "cs_name c \<notin> cs_name ` set (tb_columns (fst y))"
    using y(3) by (simp_all add: added_columns_def dropped_columns_def)
  then have "ab_columns (db_of next) x = Some v" "x \<notin> dom (ab_columns (db_of prev))"
    using column_db_of [OF assms(2) t(2)] columns_db_of [OF assms(1) t(1)] t(3,4) c(2,3) by simp_all
  with t(1,3) c(2) show ?r by (auto simp: dom_tables_db_of)
next
  assume r: ?r
  obtain n m where x: "x = (n, m)" by (cases x)
  with r have "(n, m) \<in> dom (ab_columns (db_of next))" by auto
  then obtain t c where t: "t \<in> set (sn_tables next)" "tb_name t = n" "c \<in> set (tb_columns t)" "cs_name c = m"
    by (rule column_db_ofE [OF assms(2)])
  then have "v = canon c" using column_db_of [OF assms(2) t(1,3)] r x by simp
  have "n \<in> dom (ab_tables (db_of prev))" "n \<in> dom (ab_tables (db_of next))"
    using r x t by (auto simp: dom_tables_db_of)
  then obtain y where y: "y \<in> set (shared_tables prev next)" "name_of y = n" "tb_name (fst y) = n"
    "fst y \<in> set (sn_tables prev)" "snd y \<in> set (sn_tables next)" by (rule shared_of [OF assms(1)])
  have "snd y = t" using same_table [OF assms(2) y(5) t(1)] y(2) t(2) by (simp add: name_of_def)
  moreover have "m \<notin> cs_name ` set (tb_columns (fst y))" using columns_db_of [OF assms(1) y(4), of m] r x y(3) by simp
  ultimately have "c \<in> set (added_columns (fst y) (snd y))" using t by (simp add: added_columns_def dropped_columns_def)
  then have "(n, c) \<in> set (plan_added_columns prev next)" unfolding plan_added_columns_def set_named_list using y by blast
  then show ?l using \<open>v = canon c\<close> x t(4) by (force simp: column_loc_def)
qed

lemma plan_dropped_column:
  assumes "wf_snapshot prev" and "p \<in> set (plan_dropped_columns prev next)" and "wf_snapshot next"
  shows "ab_columns (db_of prev) (column_loc p) = Some (canon (snd p))" and "column_loc p \<notin> dom (ab_columns (db_of next))"
proof -
  have "(fst p, snd p) \<in> set (plan_dropped_columns prev next)" using assms(2) by simp
  then obtain y where y: "y \<in> set (shared_tables prev next)" "name_of y = fst p" "snd p \<in> set (dropped_columns (fst y) (snd y))"
    unfolding plan_dropped_columns_def set_named_list by blast
  then have t: "fst y \<in> set (sn_tables prev)" "snd y \<in> set (sn_tables next)" "tb_name (fst y) = fst p" "tb_name (snd y) = fst p"
    using set_shared_tables [OF assms(1)] by (simp_all add: name_of_def)
  then show "ab_columns (db_of prev) (column_loc p) = Some (canon (snd p))"
    using y(3) column_db_of [OF assms(1) t(1), of "snd p"] by (simp add: dropped_columns_def column_loc_def)
  show "column_loc p \<notin> dom (ab_columns (db_of next))"
    using y(3) t columns_db_of [OF assms(3) t(2), of "cs_name (snd p)"] by (simp add: dropped_columns_def column_loc_def)
qed

end
