(* ===== verification/MigrationCreates.thy ===== *)
theory MigrationCreates
  imports MigrationStages
begin

section \<open>Creating columns and tables\<close>

text \<open>
  The third phase of a plan: the columns added to tables both snapshots have, then the new tables in the
  order of \<open>createdTablesInOrder\<close>. With inline references each table finds its targets.
\<close>

lemma run_creates:
  assumes "distinct (map tb_name ts)"
    and "\<And>t. t \<in> set ts \<Longrightarrow> tb_name t \<notin> dom (ab_tables db) \<and> distinct (map cs_name (tb_columns t)) \<and> distinct (map key_id (keys t))"
    and "\<And>us t vs. ts = us @ t # vs \<Longrightarrow> has_columns (created_db keys (us @ [t]) db) (tb_name t) (tb_primaryKey t) \<and>
      (\<forall>fk \<in> set (keys t). reference_ok (created_db keys (us @ [t]) db) (tb_name t) (key_id fk))"
  shows "run_ops (map (\<lambda>t. CreateTable (tb_name t) (tb_columns t) (tb_primaryKey t) (keys t) (tb_options t)) ts) db =
    Some (created_db keys ts db)"
  using assms
proof (induction ts rule: rev_induct)
  case Nil
  then show ?case by (simp add: created_db_def)
next
  case (snoc t ts)
  let ?ops = "map (\<lambda>t. CreateTable (tb_name t) (tb_columns t) (tb_primaryKey t) (keys t) (tb_options t))"
  have "run_ops (?ops ts) db = Some (created_db keys ts db)"
  proof (rule snoc.IH)
    fix us u vs assume "ts = us @ u # vs"
    with snoc.prems(3) [of us u "vs @ [t]"]
    show "has_columns (created_db keys (us @ [u]) db) (tb_name u) (tb_primaryKey u) \<and>
      (\<forall>fk \<in> set (keys u). reference_ok (created_db keys (us @ [u]) db) (tb_name u) (key_id fk))" by simp
  qed (use snoc.prems(1,2) in simp_all)
  moreover have "tb_name t \<notin> tb_name ` set ts" using snoc.prems(1) by simp
  then have "tb_name t \<notin> dom (ab_tables (created_db keys ts db))"
    using snoc.prems(2) [of t] by (simp add: domIff created_db_other)
  ultimately show ?case using snoc.prems(2) [of t] snoc.prems(3) [of ts t "[]"]
    by (simp add: run_ops_append created_db_snoc Let_def)
qed

definition created_keys :: "migration_target option \<Rightarrow> table_snapshot \<Rightarrow> foreign_key list" where
  "created_keys d t = (if inline_keys d then tb_foreignKeys t else [])"

text \<open>After the columns are added: the tables of \<open>b\<close> that \<open>a\<close> has, with the columns of both.\<close>

definition after_columns :: "abstract_db \<Rightarrow> abstract_db \<Rightarrow> abstract_db" where
  "after_columns a b = (after_drops a b)\<lparr>ab_columns :=
     (\<lambda>x. if fst x \<in> dom (ab_tables b) \<and> fst x \<in> dom (ab_tables a)
          then if x \<in> dom (ab_columns a) then ab_columns a x else ab_columns b x else None)\<rparr>"

lemma run_added_columns:
  assumes "wf_snapshot prev" and "wf_snapshot next"
  shows "run_ops (map (\<lambda>p. AddColumn (fst p) (snd p)) (plan_added_columns prev next)) (after_drops (db_of prev) (db_of next)) =
    Some (after_columns (db_of prev) (db_of next))"
proof -
  let ?a = "db_of prev" and ?b = "db_of next" and ?L = "plan_added_columns prev next"
  let ?m = "\<lambda>x. if fst x \<in> dom (ab_tables ?a) \<and> x \<notin> dom (ab_columns ?a) then ab_columns ?b x else None"
  note added = plan_added_column [OF assms]
  have sa: "ab_columns ?a x \<noteq> None \<Longrightarrow> fst x \<in> dom (ab_tables ?a)" for x
    using sound_dbD(3) [OF sound_db_of [OF assms(1)], of "fst x" "snd x"] by (simp add: domIff)
  have sb: "ab_columns ?b x \<noteq> None \<Longrightarrow> fst x \<in> dom (ab_tables ?b)" for x
    using sound_dbD(3) [OF sound_db_of [OF assms(2)], of "fst x" "snd x"] by (simp add: domIff)
  have "map_of (map (\<lambda>p. (column_loc p, canon (snd p))) ?L) = ?m"
  proof (rule map_of_eqI)
    show "distinct (map fst (map (\<lambda>p. (column_loc p, canon (snd p))) ?L))"
      using distinct_plan_columns(1) [OF assms] by (simp add: comp_def)
    fix k v show "(k, v) \<in> set (map (\<lambda>p. (column_loc p, canon (snd p))) ?L) \<longleftrightarrow> ?m k = Some v"
      unfolding added by simp
  qed
  moreover have "\<forall>p \<in> set ?L. ab_columns (after_drops ?a ?b) (column_loc p) = None \<and> fst p \<in> dom (ab_tables (after_drops ?a ?b))"
  proof
    fix p assume p: "p \<in> set ?L"
    then have "(column_loc p, canon (snd p)) \<in> set (map (\<lambda>p. (column_loc p, canon (snd p))) ?L)" by simp
    then have x: "fst p \<in> dom (ab_tables ?a)" "ab_columns ?a (column_loc p) = None" "ab_columns ?b (column_loc p) = Some (canon (snd p))"
      unfolding added by (simp_all add: column_loc_def domIff)
    then have "fst p \<in> dom (ab_tables ?b)" using sb [of "column_loc p"] by (simp add: column_loc_def)
    with x show "ab_columns (after_drops ?a ?b) (column_loc p) = None \<and> fst p \<in> dom (ab_tables (after_drops ?a ?b))"
      by (simp add: after_drops_def domIff)
  qed
  ultimately have "run_ops (map (\<lambda>p. AddColumn (fst p) (snd p)) ?L) (after_drops ?a ?b) =
      Some ((after_drops ?a ?b)\<lparr>ab_columns := ab_columns (after_drops ?a ?b) ++ ?m\<rparr>)"
    using run_add_columns [OF distinct_plan_columns(1) [OF assms]] by simp
  moreover have "(ab_columns (after_drops ?a ?b) ++ ?m) x = ab_columns (after_columns ?a ?b) x" for x
    using sa [of x] sb [of x]
    by (cases "ab_columns ?a x"; cases "ab_columns ?b x")
      (simp_all add: after_drops_def after_columns_def map_add_def domIff split: option.split)
  then have "(after_drops ?a ?b)\<lparr>ab_columns := ab_columns (after_drops ?a ?b) ++ ?m\<rparr> = after_columns ?a ?b"
    by (intro abstract_db.equality) (simp_all add: fun_eq_iff after_columns_def)
  ultimately show ?thesis by simp
qed

text \<open>What the database holds of a table once the first new tables are there.\<close>

lemma created_row_lookup:
  assumes P: "plan_lists lc d prev next dropped created" and t: "t \<in> set us" and us: "created = us @ vs"
  defines "db \<equiv> created_db (created_keys d) us (after_columns (db_of prev) (db_of next))"
  shows "ab_tables db (tb_name t) = ab_tables (db_of next) (tb_name t)"
    and "ab_columns db (tb_name t, c) = ab_columns (db_of next) (tb_name t, c)"
    and "ab_keys db (tb_name t, k) = (if inline_keys d then ab_keys (db_of next) (tb_name t, k) else None)"
proof -
  let ?a = "db_of prev" and ?b = "db_of next"
  note wf = plan_wf [OF P]
  have new: "t \<in> set (sn_tables next)" "tb_name t \<notin> tb_name ` set (sn_tables prev)"
    using t plan_created(3) [OF P] us by auto
  then have none: "tb_name t \<notin> dom (ab_tables ?a)" by (simp add: dom_tables_db_of)
  have "ab_columns (after_columns ?a ?b) (tb_name t, c) = None" for c using none by (simp add: after_columns_def)
  moreover have "ab_keys (after_columns ?a ?b) (tb_name t, k) = None" for k
    using db_of_no_table(3) [OF new(2), of k] by (simp add: after_columns_def after_drops_def)
  moreover have "distinct (map tb_name us)" using plan_created(1) [OF P] us by simp
  ultimately have is': "ab_tables db (tb_name t) = Some (tb_primaryKey t, canon_options (tb_options t)) \<and>
     (\<forall>c. ab_columns db (tb_name t, c) = columns_of (tb_name t) (tb_columns t) (tb_name t, c)) \<and>
     (\<forall>k. ab_keys db (tb_name t, k) = keys_of (tb_name t) (created_keys d t) (tb_name t, k))"
    unfolding db_def using t by (intro created_db_table) simp_all
  note of_next = db_of_table [OF wf(2) new(1)]
  show "ab_tables db (tb_name t) = ab_tables ?b (tb_name t)" by (simp only: is' of_next(1))
  show "ab_columns db (tb_name t, c) = ab_columns ?b (tb_name t, c)" by (simp only: is' of_next(2))
  show "ab_keys db (tb_name t, k) = (if inline_keys d then ab_keys ?b (tb_name t, k) else None)"
    by (simp only: is' of_next(3) created_keys_def) (simp add: keys_of_def)
qed

lemma created_before:
  assumes P: "plan_lists lc d prev next dropped created" and us: "created = us @ vs"
    and n: "n \<in> dom (ab_tables (db_of next))" "n \<in> dom (ab_tables (db_of prev)) \<or> n \<in> tb_name ` set us"
  defines "db \<equiv> created_db (created_keys d) us (after_columns (db_of prev) (db_of next))"
  shows "n \<in> dom (ab_tables db)" and "has_columns (db_of next) n cs \<Longrightarrow> has_columns db n cs"
proof -
  let ?a = "db_of prev" and ?b = "db_of next"
  have "n \<in> dom (ab_tables db) \<and> (\<forall>c. (n, c) \<in> dom (ab_columns ?b) \<longrightarrow> (n, c) \<in> dom (ab_columns db))"
  proof (cases "n \<in> tb_name ` set us")
    case True
    then obtain t where t: "t \<in> set us" "n = tb_name t" by blast
    from created_row_lookup [OF P t(1) us] n(1) show ?thesis by (simp add: t(2) db_def domIff)
  next
    case False
    then have a: "n \<in> dom (ab_tables ?a)" using n(2) by simp
    have "ab_tables db n = ab_tables ?a n" using False n(1)
      by (simp add: db_def created_db_other after_columns_def after_drops_def)
    moreover have "ab_columns db (n, c) = (if (n, c) \<in> dom (ab_columns ?a) then ab_columns ?a (n, c) else ab_columns ?b (n, c))" for c
      using False n(1) a by (simp add: db_def created_db_other after_columns_def)
    ultimately show ?thesis using a by (auto simp: domIff)
  qed
  then show "n \<in> dom (ab_tables db)" "has_columns ?b n cs \<Longrightarrow> has_columns db n cs"
    by (simp_all add: has_columns_def)
qed

lemma created_reference:
  assumes P: "plan_lists lc d prev next dropped created" and c: "created = us @ t # vs" and fk: "fk \<in> set (created_keys d t)"
  shows "reference_ok (created_db (created_keys d) (us @ [t]) (after_columns (db_of prev) (db_of next))) (tb_name t) (key_id fk)"
proof -
  let ?b = "db_of next" and ?names = "tb_name ` set (us @ [t])"
  have inl: "inline_keys d" and fk': "fk \<in> set (tb_foreignKeys t)" using fk by (auto simp: created_keys_def split: if_splits)
  have t: "t \<in> set (sn_tables next)" using plan_created(3) [OF P] c by auto
  have ok: "reference_ok ?b (tb_name t) (key_id fk)" by (rule reference_db_of [OF plan_wf(2) [OF P] t fk'])
  let ?n = "fk_targetTable fk"
  have b: "?n \<in> dom (ab_tables ?b)" "has_columns ?b ?n (fk_targetColumns fk)" "has_columns ?b (tb_name t) (fk_columns fk)"
    using ok by (simp_all add: reference_ok_def key_id_def)
  have c': "created = (us @ [t]) @ vs" using c by simp
  have "?n \<in> dom (ab_tables (db_of prev)) \<or> ?n \<in> ?names"
  proof (cases "?n \<in> dom (ab_tables (db_of prev)) \<or> ?n = tb_name t")
    case False
    then have "?n \<in> tb_name ` set created" using b(1) plan_created(3) [OF P] by (auto simp: dom_tables_db_of)
    then have "?n \<in> table_targets (tb_name ` set created) t"
      using False imageI [OF fk', of fk_targetTable] by (simp add: table_targets_def)
    moreover have "table_targets (tb_name ` set created) (created ! length us) \<subseteq> tb_name ` set (take (length us) created)"
      using plan_created(2) [OF P inl, unfolded targets_first_def, rule_format, of "length us"] c by simp
    ultimately have "?n \<in> tb_name ` set us" by (auto simp: c)
    then show ?thesis by simp
  qed auto
  with created_before [OF P c', of ?n] b(1,2) have "?n \<in> dom (ab_tables (created_db (created_keys d) (us @ [t]) (after_columns (db_of prev) ?b)))"
    "has_columns (created_db (created_keys d) (us @ [t]) (after_columns (db_of prev) ?b)) ?n (fk_targetColumns fk)" by blast+
  moreover have "has_columns (created_db (created_keys d) (us @ [t]) (after_columns (db_of prev) ?b)) (tb_name t) (fk_columns fk)"
    using created_before(2) [OF P c', of "tb_name t"] t b(3) by (auto simp: dom_tables_db_of)
  ultimately show ?thesis by (simp add: reference_ok_def key_id_def)
qed

lemma run_created_tables:
  assumes P: "plan_lists lc d prev next dropped created"
  shows "run_ops (map (create_op d) created) (after_columns (db_of prev) (db_of next)) =
    Some (after_creates (inline_keys d) (db_of prev) (db_of next))"
proof -
  let ?a = "db_of prev" and ?b = "db_of next" and ?D = "after_columns (db_of prev) (db_of next)"
  note wf = plan_wf [OF P]
  have create: "create_op d = (\<lambda>t. CreateTable (tb_name t) (tb_columns t) (tb_primaryKey t) (created_keys d t) (tb_options t))"
    by (simp add: create_op_def created_keys_def fun_eq_iff)
  have "run_ops (map (create_op d) created) ?D = Some (created_db (created_keys d) created ?D)"
    unfolding create
  proof (rule run_creates [OF plan_created(1) [OF P]])
    fix t assume "t \<in> set created"
    then have t: "t \<in> set (sn_tables next)" "tb_name t \<notin> dom (ab_tables ?a)"
      using plan_created(3) [OF P] by (simp_all add: dom_tables_db_of)
    then show "tb_name t \<notin> dom (ab_tables ?D) \<and> distinct (map cs_name (tb_columns t)) \<and> distinct (map key_id (created_keys d t))"
      using wf_distinct [OF wf(2) t(1)]
      by (auto simp: after_columns_def after_drops_def domIff created_keys_def distinct_columns_def distinct_keys_def)
  next
    fix us t vs assume c: "created = us @ t # vs"
    then have t: "t \<in> set (sn_tables next)" and c': "created = (us @ [t]) @ vs" using plan_created(3) [OF P] by auto
    then have "set (tb_primaryKey t) \<subseteq> cs_name ` set (tb_columns t)" using wf(2) by (simp add: wf_snapshot_def wf_table_def)
    then have "has_columns ?b (tb_name t) (tb_primaryKey t)" using columns_db_of [OF wf(2) t] by (auto simp: has_columns_def)
    then show "has_columns (created_db (created_keys d) (us @ [t]) ?D) (tb_name t) (tb_primaryKey t) \<and>
      (\<forall>fk \<in> set (created_keys d t). reference_ok (created_db (created_keys d) (us @ [t]) ?D) (tb_name t) (key_id fk))"
      using created_before(2) [OF P c', of "tb_name t"] t created_reference [OF P c] by (auto simp: dom_tables_db_of)
  qed
  moreover have "created_db (created_keys d) created ?D = after_creates (inline_keys d) ?a ?b"
  proof -
    let ?db = "created_db (created_keys d) created ?D"
    have new: "n \<in> tb_name ` set created \<longleftrightarrow> n \<in> dom (ab_tables ?b) \<and> n \<notin> dom (ab_tables ?a)" for n
      using plan_created(3) [OF P] by (auto simp: dom_tables_db_of)
    have none: "ab_columns ?a (n, c) = None" "ab_keys ?a (n, k) = None" if "n \<notin> dom (ab_tables ?a)" for n c k
      using that db_of_no_table by (simp_all add: dom_tables_db_of)
    have none': "ab_tables ?b n = None" "ab_columns ?b (n, c) = None" "ab_keys ?b (n, k) = None" if "n \<notin> dom (ab_tables ?b)" for n c k
      using that db_of_no_table by (simp_all add: dom_tables_db_of)
    have old: "ab_tables ?db n = ab_tables ?D n" "ab_columns ?db (n, c) = ab_columns ?D (n, c)" "ab_keys ?db (n, k) = ab_keys ?D (n, k)"
      if "n \<notin> tb_name ` set created" for n c k using that by (simp_all add: created_db_other)
    have new_is: "ab_tables ?db n = ab_tables ?b n" "ab_columns ?db (n, c) = ab_columns ?b (n, c)"
      "ab_keys ?db (n, k) = (if inline_keys d then ab_keys ?b (n, k) else None)" if new_n: "n \<in> tb_name ` set created" for n c k
    proof -
      obtain t where t: "t \<in> set created" "n = tb_name t" using new_n by blast
      show "ab_tables ?db n = ab_tables ?b n" "ab_columns ?db (n, c) = ab_columns ?b (n, c)"
        "ab_keys ?db (n, k) = (if inline_keys d then ab_keys ?b (n, k) else None)"
        by (simp_all only: t(2) created_row_lookup [OF P t(1) append_Nil2 [symmetric]])
    qed
    have D: "ab_tables ?D n = (if n \<in> dom (ab_tables ?b) then ab_tables ?a n else None)"
      "ab_columns ?D (n, c) = (if n \<in> dom (ab_tables ?b) \<and> n \<in> dom (ab_tables ?a)
        then if (n, c) \<in> dom (ab_columns ?a) then ab_columns ?a (n, c) else ab_columns ?b (n, c) else None)"
      "ab_keys ?D (n, k) = (if ab_keys ?a (n, k) = ab_keys ?b (n, k) then ab_keys ?b (n, k) else None)" for n c k
      by (simp_all add: after_columns_def after_drops_def)
    have "ab_tables ?db n = ab_tables (after_creates (inline_keys d) ?a ?b) n" for n
      by (cases "n \<in> dom (ab_tables ?a)"; cases "n \<in> dom (ab_tables ?b)")
        (simp_all add: new old new_is D after_creates_def)
    moreover have "ab_columns ?db (n, c) = ab_columns (after_creates (inline_keys d) ?a ?b) (n, c)" for n c
      by (cases "n \<in> dom (ab_tables ?a)"; cases "n \<in> dom (ab_tables ?b)")
        (simp_all add: new old new_is D none none' domIff [of "(n, c)"] after_creates_def)
    moreover have "ab_keys ?db (n, k) = ab_keys (after_creates (inline_keys d) ?a ?b) (n, k)" for n k
      by (cases "n \<in> dom (ab_tables ?a)"; cases "n \<in> dom (ab_tables ?b)")
        (simp_all add: new old new_is D none none' after_creates_def)
    ultimately show ?thesis
      by (intro abstract_db.equality) (simp_all add: fun_eq_iff, simp add: after_creates_def after_columns_def after_drops_def)
  qed
  ultimately show ?thesis by simp
qed

end
