(* ===== verification/MigrationReached.thy ===== *)
theory MigrationReached
  imports MigrationCreates
begin

section \<open>Alterations, removed columns and late references\<close>

text \<open>
  The last phases of a plan, and the whole of it: the operations of \<open>diff\<close> are accepted one after the
  other and end in the database of the next snapshot.
\<close>

subsection \<open>What counts as the same is stored the same\<close>

lemma same_args: "list_all2 same_arg xs ys \<Longrightarrow> xs = ys"
proof (induction rule: list_all2_induct)
  case (Cons x xs y ys)
  then show ?case by (cases x; cases y) simp_all
qed simp

lemma sameType_canon: "sameType t u \<Longrightarrow> canon_type t = canon_type u"
  by (induction t u rule: sameType.induct) (auto dest: same_args)

lemma same_literal_eq: "same_literal a b \<Longrightarrow> a = b"
  by (induction a b rule: same_literal.induct) auto

lemma sameDefault_eq: "sameDefault x y \<Longrightarrow> x = y"
  by (induction x y rule: sameDefault.induct) (auto split: option.splits column_default.splits dest: same_literal_eq)

lemma sameColumn_canon: "sameColumn c c' \<Longrightarrow> cs_name c = cs_name c' \<Longrightarrow> canon c = canon c'"
  unfolding canon_def
  by (intro column_snapshot.equality) (simp_all add: sameColumn_def sameType_canon sameDefault_eq)

lemma sameTableOptions_canon: "sameTableOptions x y \<Longrightarrow> canon_options x = canon_options y"
  by (simp add: sameTableOptions_def canon_options_def)

subsection \<open>The alterations\<close>

lemma altered_columns_append [simp]: "altered_columns (xs @ ys) = altered_columns xs @ altered_columns ys"
  by (simp add: altered_columns_def)

lemma altered_keys_append [simp]: "altered_keys (xs @ ys) = altered_keys xs @ altered_keys ys"
  by (simp add: altered_keys_def)

definition changed_columns :: "table_snapshot \<Rightarrow> table_snapshot \<Rightarrow> column_snapshot list" where
  "changed_columns u t = filter (\<lambda>c. case map_of (map (\<lambda>c. (cs_name c, c)) (tb_columns u)) (cs_name c) of
     None \<Rightarrow> False | Some bc \<Rightarrow> \<not> sameColumn bc c) (tb_columns t)"

lemma named_column: "map_of (map (\<lambda>c. (cs_name c, c)) cs) n = Some c \<Longrightarrow> cs_name c = n \<and> c \<in> set cs"
  by (drule map_of_SomeD) auto

lemma altered_columns_of: "altered_columns (column_alters u t) =
    map (\<lambda>c. ((tb_name t, cs_name c), canon c)) (changed_columns u t)"
proof -
  let ?m = "map (\<lambda>c. (cs_name c, c)) (tb_columns u)"
  have "altered_columns (concat (map (\<lambda>c. case map_of ?m (cs_name c) of
      None \<Rightarrow> [] | Some bc \<Rightarrow> if sameColumn bc c then [] else [AlterColumn (tb_name t) bc c]) cs)) =
    map (\<lambda>c. ((tb_name t, cs_name c), canon c)) (filter (\<lambda>c. case map_of ?m (cs_name c) of
      None \<Rightarrow> False | Some bc \<Rightarrow> \<not> sameColumn bc c) cs)" for cs
    by (induction cs) (auto simp: altered_columns_def split: option.split dest: named_column)
  then show ?thesis by (simp add: column_alters_def changed_columns_def)
qed

lemma altered_of_alters [simp]: "altered_keys (column_alters u t) = []" "altered_columns (key_alter u t) = []"
  "altered_keys (key_alter u t) = (if tb_primaryKey u = tb_primaryKey t then [] else [(tb_name t, tb_primaryKey t)])"
proof -
  have "altered_keys (concat (map (\<lambda>c. case map_of m (cs_name c) of
      None \<Rightarrow> [] | Some bc \<Rightarrow> if sameColumn bc c then [] else [AlterColumn (tb_name t) bc c]) cs)) = []" for m cs
    by (induction cs) (auto simp: altered_keys_def split: option.split)
  then show "altered_keys (column_alters u t) = []" by (simp add: column_alters_def)
qed (simp_all add: key_alter_def altered_keys_def altered_columns_def)

definition plan_changed_columns :: "schema_snapshot \<Rightarrow> schema_snapshot \<Rightarrow> (string \<times> column_snapshot) list" where
  "plan_changed_columns prev next = named_list name_of (\<lambda>p. changed_columns (fst p) (snd p)) (shared_tables prev next)"

definition plan_changed_keys :: "schema_snapshot \<Rightarrow> schema_snapshot \<Rightarrow> (string \<times> string list) list" where
  "plan_changed_keys prev next = named_list name_of
     (\<lambda>p. if tb_primaryKey (fst p) = tb_primaryKey (snd p) then [] else [tb_primaryKey (snd p)]) (shared_tables prev next)"

lemma plan_alters_altered:
  "altered_columns (plan_alters prev next) = map (\<lambda>p. (column_loc p, canon (snd p))) (plan_changed_columns prev next)"
  "altered_keys (plan_alters prev next) = plan_changed_keys prev next"
proof -
  have "altered_columns (concat (map (\<lambda>p. column_alters (fst p) (snd p) @ key_alter (fst p) (snd p)) ps)) =
      map (\<lambda>p. (column_loc p, canon (snd p))) (named_list name_of (\<lambda>p. changed_columns (fst p) (snd p)) ps)"
    "altered_keys (concat (map (\<lambda>p. column_alters (fst p) (snd p) @ key_alter (fst p) (snd p)) ps)) =
      named_list name_of (\<lambda>p. if tb_primaryKey (fst p) = tb_primaryKey (snd p) then [] else [tb_primaryKey (snd p)]) ps" for ps
    by (induction ps) (simp_all add: named_list_def altered_columns_of column_loc_def name_of_def comp_def,
        simp_all add: altered_columns_def altered_keys_def)
  then show "altered_columns (plan_alters prev next) = map (\<lambda>p. (column_loc p, canon (snd p))) (plan_changed_columns prev next)"
    "altered_keys (plan_alters prev next) = plan_changed_keys prev next"
    by (simp_all only: plan_alters_def plan_changed_columns_def plan_changed_keys_def)
qed

lemma distinct_changed:
  assumes "wf_snapshot next"
  shows "distinct (map column_loc (plan_changed_columns prev next))" and "distinct (map fst (plan_changed_keys prev next))"
proof -
  have d: "distinct (map name_of (shared_tables prev next))"
    using distinct_shared_tables [OF assms, of prev] by (simp add: name_of_def [abs_def] comp_def)
  have "distinct (map cs_name (changed_columns (fst x) (snd x)))" if "x \<in> set (shared_tables prev next)" for x
  proof -
    have "snd x \<in> set (sn_tables next)" using that by (auto simp: shared_tables_def split: option.splits)
    with wf_distinct [OF assms] show ?thesis by (simp add: changed_columns_def distinct_columns_def distinct_map_filter)
  qed
  with d show "distinct (map column_loc (plan_changed_columns prev next))"
    unfolding column_loc_map plan_changed_columns_def by (intro distinct_named_list ballI)
  have "distinct (map fst (named_list f (\<lambda>p. if Q p then [] else [h p]) xs))" if "distinct (map f xs)" for f h Q and xs :: "(table_snapshot \<times> table_snapshot) list"
    using that
  proof (induction xs)
    case (Cons x xs)
    have "fst ` set (named_list f (\<lambda>p. if Q p then [] else [h p]) xs) \<subseteq> f ` set xs" by (auto simp: named_list_def split: if_splits)
    with Cons show ?case by (auto simp: named_list_def)
  qed (simp add: named_list_def)
  from this [OF d] show "distinct (map fst (plan_changed_keys prev next))" by (simp only: plan_changed_keys_def)
qed

lemma plan_changed_column:
  assumes wf: "wf_snapshot prev" "wf_snapshot next"
    and x: "ab_columns (db_of prev) x = Some v" "ab_columns (db_of next) x = Some w"
  shows "(x, w) \<in> set (map (\<lambda>p. (column_loc p, canon (snd p))) (plan_changed_columns prev next)) \<or> v = w"
proof -
  obtain n m where nm: "x = (n, m)" by (cases x)
  have d: "(n, m) \<in> dom (ab_columns (db_of prev))" "(n, m) \<in> dom (ab_columns (db_of next))" using x by (auto simp: nm)
  obtain u c where u: "u \<in> set (sn_tables prev)" "tb_name u = n" "c \<in> set (tb_columns u)" "cs_name c = m"
    by (rule column_db_ofE [OF wf(1) d(1)])
  obtain t c' where t: "t \<in> set (sn_tables next)" "tb_name t = n" "c' \<in> set (tb_columns t)" "cs_name c' = m"
    by (rule column_db_ofE [OF wf(2) d(2)])
  have v: "v = canon c" "w = canon c'" using column_db_of [OF wf(1) u(1,3)] column_db_of [OF wf(2) t(1,3)] u t x nm by simp_all
  have y: "(u, t) \<in> set (shared_tables prev next)" using set_shared_tables [OF wf(1)] u t by simp
  have look: "map_of (map (\<lambda>c. (cs_name c, c)) (tb_columns u)) m = Some c"
    using u(3,4) wf_distinct [OF wf(1) u(1)] by (force simp: distinct_columns_def comp_def)
  show ?thesis
  proof (cases "sameColumn c c'")
    case True
    then show ?thesis using sameColumn_canon u(4) t(4) v by simp
  next
    case False
    then have "c' \<in> set (changed_columns u t)" using t(3,4) look by (simp add: changed_columns_def)
    then have "(n, c') \<in> set (plan_changed_columns prev next)"
      unfolding plan_changed_columns_def set_named_list using y t(2) by (force simp: name_of_def)
    then show ?thesis using v(2) t(4) by (force simp: nm column_loc_def)
  qed
qed

lemma plan_changed_columnD:
  assumes wf: "wf_snapshot prev" "wf_snapshot next"
    and p: "(x, w) \<in> set (map (\<lambda>p. (column_loc p, canon (snd p))) (plan_changed_columns prev next))"
  shows "ab_columns (db_of next) x = Some w"
proof -
  obtain n c where c: "(n, c) \<in> set (plan_changed_columns prev next)" "x = (n, cs_name c)" "w = canon c"
    using p by (auto simp: column_loc_def)
  then obtain y where y: "y \<in> set (shared_tables prev next)" "name_of y = n" "c \<in> set (changed_columns (fst y) (snd y))"
    unfolding plan_changed_columns_def set_named_list by blast
  then have "snd y \<in> set (sn_tables next)" "c \<in> set (tb_columns (snd y))" "tb_name (snd y) = n"
    using set_shared_tables [OF wf(1)] by (simp_all add: changed_columns_def name_of_def)
  from column_db_of [OF wf(2) this(1,2)] this(3) show ?thesis by (simp add: c)
qed

lemma plan_changed_key:
  assumes wf: "wf_snapshot prev" "wf_snapshot next"
  shows "(n, k) \<in> set (plan_changed_keys prev next) \<longleftrightarrow> n \<in> dom (ab_tables (db_of prev)) \<and>
    map_option fst (ab_tables (db_of next) n) = Some k \<and> map_option fst (ab_tables (db_of prev) n) \<noteq> Some k" (is "?l \<longleftrightarrow> ?r")
proof
  assume ?l
  then obtain y where y: "y \<in> set (shared_tables prev next)" "name_of y = n" "tb_primaryKey (fst y) \<noteq> tb_primaryKey (snd y)"
    "k = tb_primaryKey (snd y)" unfolding plan_changed_keys_def set_named_list by (auto split: if_splits)
  then have "fst y \<in> set (sn_tables prev)" "snd y \<in> set (sn_tables next)" "tb_name (fst y) = n" "tb_name (snd y) = n"
    using set_shared_tables [OF wf(1)] by (simp_all add: name_of_def)
  with db_of_table(1) [OF wf(1)] db_of_table(1) [OF wf(2)] y(3,4) show ?r by (metis domI fst_conv option.map(2) option.inject)
next
  assume r: ?r
  then have "n \<in> dom (ab_tables (db_of next))" by (auto simp: domIff)
  then obtain y where y: "y \<in> set (shared_tables prev next)" "name_of y = n" "tb_name (fst y) = n"
    "fst y \<in> set (sn_tables prev)" "snd y \<in> set (sn_tables next)" using r shared_of [OF wf(1)] by blast
  have "k = tb_primaryKey (snd y)" "tb_primaryKey (fst y) \<noteq> k"
    using db_of_table(1) [OF wf(1) y(4)] db_of_table(1) [OF wf(2) y(5)] r y(2,3) by (auto simp: name_of_def)
  then show ?l unfolding plan_changed_keys_def set_named_list using y(1,2) by force
qed

lemma shared_options:
  assumes P: "plan_lists lc d prev next dropped created"
    and n: "ab_tables (db_of prev) n = Some (k, os)" "ab_tables (db_of next) n = Some (k', os')"
  shows "os = os'"
proof -
  note wf = plan_wf [OF P]
  have "n \<in> dom (ab_tables (db_of prev))" "n \<in> dom (ab_tables (db_of next))" using n by auto
  then obtain y where y: "y \<in> set (shared_tables prev next)" "name_of y = n" "tb_name (fst y) = n"
    "fst y \<in> set (sn_tables prev)" "snd y \<in> set (sn_tables next)" by (rule shared_of [OF wf(1)])
  have "sameTableOptions (tb_options (fst y)) (tb_options (snd y))" using P y(1) by (simp add: plan_lists_def)
  then have "canon_options (tb_options (fst y)) = canon_options (tb_options (snd y))" by (rule sameTableOptions_canon)
  then show ?thesis using db_of_table(1) [OF wf(1) y(4)] db_of_table(1) [OF wf(2) y(5)] y(2,3) n by (simp add: name_of_def)
qed

lemma alters_accepted:
  assumes P: "plan_lists lc d prev next dropped created"
  shows "list_all (\<lambda>op. op_phase op = 4 \<and> accepts op (after_creates (inline_keys d) (db_of prev) (db_of next))) (plan_alters prev next)"
  unfolding list_all_iff
proof
  let ?a = "db_of prev" and ?b = "db_of next" and ?c = "after_creates (inline_keys d) (db_of prev) (db_of next)"
  note wf = plan_wf [OF P]
  fix op assume "op \<in> set (plan_alters prev next)"
  then obtain y where y: "y \<in> set (shared_tables prev next)" "op \<in> set (column_alters (fst y) (snd y) @ key_alter (fst y) (snd y))"
    by (auto simp: plan_alters_def)
  then have t: "fst y \<in> set (sn_tables prev)" "snd y \<in> set (sn_tables next)" "tb_name (fst y) = tb_name (snd y)"
    using set_shared_tables [OF wf(1)] by simp_all
  let ?n = "tb_name (snd y)"
  have n: "?n \<in> dom (ab_tables ?a)" "?n \<in> dom (ab_tables ?b)" using imageI [OF t(1), of tb_name] imageI [OF t(2), of tb_name] t(3) by (simp_all add: dom_tables_db_of)
  from y(2) consider (column) "op \<in> set (column_alters (fst y) (snd y))" | (key) "op \<in> set (key_alter (fst y) (snd y))" by auto
  then show "op_phase op = 4 \<and> accepts op ?c"
  proof cases
    case column
    then obtain c bc where c: "c \<in> set (tb_columns (snd y))" "map_of (map (\<lambda>c. (cs_name c, c)) (tb_columns (fst y))) (cs_name c) = Some bc"
      "op = AlterColumn ?n bc c" by (auto simp: column_alters_def split: option.splits if_splits)
    then have bc: "cs_name bc = cs_name c" "bc \<in> set (tb_columns (fst y))" using named_column by blast+
    then have "ab_columns ?a (?n, cs_name bc) = Some (canon bc)" using column_db_of [OF wf(1) t(1)] t(3) by metis
    then have "ab_columns ?c (?n, cs_name bc) = Some (canon bc)" using n by (simp add: after_creates_def domI)
    then show ?thesis using c(3) bc(1) by simp
  next
    case key
    then have op: "op = AlterPrimaryKey ?n (tb_primaryKey (fst y)) (tb_primaryKey (snd y))" by (simp add: key_alter_def split: if_splits)
    have "set (tb_primaryKey (snd y)) \<subseteq> cs_name ` set (tb_columns (snd y))" using wf(2) t(2) by (simp add: wf_snapshot_def wf_table_def)
    then have "has_columns ?b ?n (tb_primaryKey (snd y))" using columns_db_of [OF wf(2) t(2)] by (auto simp: has_columns_def)
    then have "has_columns ?c ?n (tb_primaryKey (snd y))" using n by (auto simp: has_columns_def after_creates_def)
    moreover have "ab_tables ?c ?n = Some (tb_primaryKey (fst y), canon_options (tb_options (fst y)))"
      using n db_of_table(1) [OF wf(1) t(1)] t(3) by (simp add: after_creates_def)
    ultimately show ?thesis by (simp add: op)
  qed
qed

lemma map_of_None_notin: "map_of xs k = None \<Longrightarrow> (k, v) \<notin> set xs"
  by (auto simp: map_of_eq_None_iff image_iff)

lemma run_plan_alters:
  assumes P: "plan_lists lc d prev next dropped created"
  shows "run_ops (plan_alters prev next) (after_creates (inline_keys d) (db_of prev) (db_of next)) =
    Some (after_alters (inline_keys d) (db_of prev) (db_of next))"
proof -
  let ?a = "db_of prev" and ?b = "db_of next" and ?c = "after_creates (inline_keys d) (db_of prev) (db_of next)"
  let ?cols = "map (\<lambda>p. (column_loc p, canon (snd p))) (plan_changed_columns prev next)"
  note wf = plan_wf [OF P]
  have "run_ops (plan_alters prev next) ?c = Some (?c\<lparr>ab_columns := ab_columns ?c ++ map_of ?cols,
      ab_tables := set_keys (plan_changed_keys prev next) (ab_tables ?c)\<rparr>)"
    using alters_accepted [OF P] distinct_changed [OF wf(2), of prev] run_alters [of "plan_alters prev next" ?c]
    by (simp add: plan_alters_altered list_all_iff comp_def)
  moreover have "(ab_columns ?c ++ map_of ?cols) x = ab_columns (after_alters (inline_keys d) ?a ?b) x" for x
  proof (cases "map_of ?cols x")
    case None
    have "(x, w) \<notin> set ?cols" for w by (rule map_of_None_notin [OF None])
    then have same: "ab_columns ?a x = Some v \<Longrightarrow> ab_columns ?b x = Some w \<Longrightarrow> v = w" for v w
      using plan_changed_column [OF wf, of x v w] by simp
    have "ab_columns ?c x = ab_columns ?b x" if b: "x \<in> dom (ab_columns ?b)"
    proof (cases "x \<in> dom (ab_columns ?a)")
      case True
      then obtain v w where vw: "ab_columns ?a x = Some v" "ab_columns ?b x = Some w" using b by blast
      have "v = w" by (rule same [OF vw])
      with vw show ?thesis by (simp add: after_creates_def)
    qed (simp add: after_creates_def)
    with None show ?thesis by (simp add: after_alters_def map_add_def)
  next
    case (Some w)
    then have "ab_columns ?b x = Some w" using plan_changed_columnD [OF wf] map_of_SomeD by fast
    with Some show ?thesis by (simp add: after_alters_def domIff)
  qed
  moreover have "set_keys (plan_changed_keys prev next) (ab_tables ?c) n = ab_tables ?b n" for n
  proof (cases "map_of (plan_changed_keys prev next) n")
    case None
    have "(n, k) \<notin> set (plan_changed_keys prev next)" for k by (rule map_of_None_notin [OF None])
    then have k: "n \<in> dom (ab_tables ?a) \<Longrightarrow> n \<in> dom (ab_tables ?b) \<Longrightarrow> map_option fst (ab_tables ?a n) = map_option fst (ab_tables ?b n)"
      using plan_changed_key [OF wf, of n "fst (the (ab_tables ?b n))"] by auto
    have "n \<in> dom (ab_tables ?a) \<Longrightarrow> n \<in> dom (ab_tables ?b) \<Longrightarrow> ab_tables ?a n = ab_tables ?b n"
    proof -
      assume n: "n \<in> dom (ab_tables ?a)" "n \<in> dom (ab_tables ?b)"
      then obtain l x l' x' where l: "ab_tables ?a n = Some (l, x)" "ab_tables ?b n = Some (l', x')" by fast
      with k [OF n] shared_options [OF P l] show ?thesis by simp
    qed
    moreover have none: "n \<notin> dom (ab_tables ?b) \<Longrightarrow> ab_tables ?b n = None" by (simp only: domIff simp_thms)
    ultimately have "ab_tables ?c n = ab_tables ?b n"
      by (cases "n \<in> dom (ab_tables ?b)"; cases "n \<in> dom (ab_tables ?a)") (simp_all add: after_creates_def)
    with None show ?thesis by (simp add: set_keys_def)
  next
    case (Some k)
    then have k: "n \<in> dom (ab_tables ?a)" "map_option fst (ab_tables ?b n) = Some k"
      using plan_changed_key [OF wf] map_of_SomeD by fast+
    then obtain l x x' where l: "ab_tables ?a n = Some (l, x)" "ab_tables ?b n = Some (k, x')" by fastforce
    then have "x = x'" by (rule shared_options [OF P])
    moreover have "n \<in> dom (ab_tables ?a)" "n \<in> dom (ab_tables ?b)" using l by (simp_all only: domI)
    then have "ab_tables ?c n = Some (l, x)" using l by (simp add: after_creates_def)
    ultimately show ?thesis using Some l by (simp add: set_keys_def)
  qed
  ultimately show ?thesis by (simp add: after_alters_def fun_eq_iff)
qed

subsection \<open>Old columns and late references\<close>

lemma plan_dropped_column_exists:
  assumes wf: "wf_snapshot prev" "wf_snapshot next"
    and x: "(n, m) \<in> dom (ab_columns (db_of prev))" "(n, m) \<notin> dom (ab_columns (db_of next))" "n \<in> dom (ab_tables (db_of next))"
  shows "(n, m) \<in> column_loc ` set (plan_dropped_columns prev next)"
proof -
  obtain u c where u: "u \<in> set (sn_tables prev)" "tb_name u = n" "c \<in> set (tb_columns u)" "cs_name c = m"
    by (rule column_db_ofE [OF wf(1) x(1)])
  then have "n \<in> dom (ab_tables (db_of prev))" by (auto simp: dom_tables_db_of)
  then obtain y where y: "y \<in> set (shared_tables prev next)" "name_of y = n" "tb_name (fst y) = n"
    "fst y \<in> set (sn_tables prev)" "snd y \<in> set (sn_tables next)" by (rule shared_of [OF wf(1) _ x(3)])
  have "fst y = u" using same_table [OF wf(1) y(4) u(1)] y(3) u(2) by simp
  moreover have "m \<notin> cs_name ` set (tb_columns (snd y))"
    using columns_db_of [OF wf(2) y(5), of m] x(2) y(2) by (simp add: name_of_def)
  ultimately have "c \<in> set (dropped_columns (fst y) (snd y))" using u(3,4) by (simp add: dropped_columns_def)
  then have "(n, c) \<in> set (plan_dropped_columns prev next)" unfolding plan_dropped_columns_def set_named_list using y by blast
  then show ?thesis using u(4) by (force simp: column_loc_def)
qed

lemma sound_unused:
  assumes sound: "sound_db db" and x: "(n, m) \<notin> dom (ab_columns db)"
  shows "\<not> uses_column db n m"
proof
  have no: "m \<notin> set cs" if "has_columns db n cs" for cs using that x unfolding has_columns_def by blast
  assume "uses_column db n m"
  with no [OF sound_dbD(1) [OF sound]] obtain m' cs t tcs where k: "(m', (cs, t, tcs)) \<in> dom (ab_keys db)"
    and "m' = n \<and> m \<in> set cs \<or> t = n \<and> m \<in> set tcs" unfolding uses_column_def by blast
  moreover have "has_columns db m' cs" "has_columns db t tcs" using sound_dbD(2) [OF sound k] by (simp_all add: reference_ok_def)
  ultimately show False using no by blast
qed

lemma run_dropped_columns:
  assumes wf: "wf_snapshot prev" "wf_snapshot next"
  shows "run_ops (map (\<lambda>p. DropColumn (fst p) (snd p)) (plan_dropped_columns prev next)) (after_alters inl (db_of prev) (db_of next)) =
    Some ((after_alters inl (db_of prev) (db_of next))\<lparr>ab_columns := ab_columns (db_of next)\<rparr>)"
proof -
  let ?a = "db_of prev" and ?b = "db_of next" and ?L = "plan_dropped_columns prev next"
  let ?c = "after_alters inl (db_of prev) (db_of next)"
  have tables: "ab_tables ?c = ab_tables ?b" by (simp add: after_alters_def)
  have keys: "x \<in> dom (ab_keys ?c) \<Longrightarrow> x \<in> dom (ab_keys ?b)" for x
    by (auto simp: after_alters_def after_creates_def split: if_splits)
  have unused: "\<not> uses_column ?c n m" if "(n, m) \<notin> dom (ab_columns ?b)" for n m
  proof
    assume "uses_column ?c n m"
    then have "uses_column ?b n m" unfolding uses_column_def db_key_def tables using keys by blast
    moreover have "\<not> uses_column ?b n m" by (rule sound_unused [OF sound_db_of [OF wf(2)] that])
    ultimately show False by contradiction
  qed
  have "\<forall>p \<in> set ?L. ab_columns ?c (column_loc p) = Some (canon (snd p)) \<and> \<not> uses_column ?c (fst p) (cs_name (snd p))"
  proof
    fix p assume p: "p \<in> set ?L"
    note old = plan_dropped_column [OF wf(1) p wf(2)]
    have "fst (column_loc p) \<in> dom (ab_tables ?b)"
    proof -
      have "(fst p, snd p) \<in> set (plan_dropped_columns prev next)" using p by simp
      then obtain y where "y \<in> set (shared_tables prev next)" "name_of y = fst p"
        unfolding plan_dropped_columns_def set_named_list by blast
      then have "snd y \<in> set (sn_tables next)" "tb_name (snd y) = fst p" using set_shared_tables [OF wf(1)] by (simp_all add: name_of_def)
      then show ?thesis using imageI [of "snd y" _ tb_name] by (simp add: dom_tables_db_of column_loc_def)
    qed
    then have "ab_columns ?c (column_loc p) = Some (canon (snd p))"
      using old by (simp add: after_alters_def after_creates_def domI)
    with unused [of "fst p" "cs_name (snd p)"] old(2) show "ab_columns ?c (column_loc p) = Some (canon (snd p)) \<and> \<not> uses_column ?c (fst p) (cs_name (snd p))"
      by (simp add: column_loc_def)
  qed
  from run_drop_columns [OF distinct_plan_columns(2) [OF wf] this]
  have "run_ops (map (\<lambda>p. DropColumn (fst p) (snd p)) ?L) ?c = Some (?c\<lparr>ab_columns := ab_columns ?c |` (- column_loc ` set ?L)\<rparr>)" .
  moreover have "(ab_columns ?c |` (- column_loc ` set ?L)) x = ab_columns ?b x" for x
  proof (cases "x \<in> dom (ab_columns ?b)")
    case True
    then have "x \<notin> column_loc ` set ?L" using plan_dropped_column(2) [OF wf(1) _ wf(2)] by blast
    with True show ?thesis by (simp add: after_alters_def)
  next
    case False
    moreover have "x \<in> column_loc ` set ?L" if "x \<in> dom (ab_columns ?a)" "fst x \<in> dom (ab_tables ?b)"
      using plan_dropped_column_exists [OF wf, of "fst x" "snd x"] that False by simp
    ultimately show ?thesis by (auto simp: after_alters_def after_creates_def restrict_map_def domIff)
  qed
  ultimately show ?thesis by (simp add: fun_eq_iff)
qed

text \<open>The references that are added last: those of \<open>b\<close> that the database does not have yet.\<close>

definition plan_late_keys ::
  "migration_target option \<Rightarrow> schema_snapshot \<Rightarrow> schema_snapshot \<Rightarrow> table_snapshot list \<Rightarrow> (string \<times> foreign_key) list" where
  "plan_late_keys d prev next created = plan_added_keys prev next @ new_keys d created"

lemma set_plan_added_keys:
  assumes wf: "wf_snapshot prev" "wf_snapshot next"
  shows "(n, fk) \<in> set (plan_added_keys prev next) \<longleftrightarrow> n \<in> dom (ab_tables (db_of prev)) \<and>
    (\<exists>t \<in> set (sn_tables next). tb_name t = n \<and> fk \<in> set (tb_foreignKeys t)) \<and>
    ab_keys (db_of prev) (n, key_id fk) \<noteq> Some (key_actions fk)" (is "?l \<longleftrightarrow> ?r")
proof
  assume ?l
  then obtain y where y: "y \<in> set (shared_tables prev next)" "name_of y = n"
    "fk \<in> set (added_keys (tb_foreignKeys (fst y)) (tb_foreignKeys (snd y)))"
    unfolding plan_added_keys_def set_named_list by blast
  then have t: "fst y \<in> set (sn_tables prev)" "snd y \<in> set (sn_tables next)" "tb_name (fst y) = n" "tb_name (snd y) = n"
    using set_shared_tables [OF wf(1)] by (simp_all add: name_of_def)
  have fk: "fk \<in> set (tb_foreignKeys (snd y))" "\<not> has_key (tb_foreignKeys (fst y)) fk"
    using y(3) set_added_keys wf_distinct [OF wf(1) t(1)] by auto
  then have "ab_keys (db_of prev) (n, key_id fk) \<noteq> Some (key_actions fk)" using has_key_db [OF wf(1) t(1)] t(3) by simp
  moreover have "n \<in> dom (ab_tables (db_of prev))" using imageI [OF t(1), of tb_name] t(3) by (simp add: dom_tables_db_of)
  ultimately show ?r using t fk(1) by blast
next
  assume r: ?r
  then obtain t where t: "t \<in> set (sn_tables next)" "tb_name t = n" "fk \<in> set (tb_foreignKeys t)" by blast
  then have "n \<in> dom (ab_tables (db_of next))" by (auto simp: dom_tables_db_of)
  then obtain y where y: "y \<in> set (shared_tables prev next)" "name_of y = n" "tb_name (fst y) = n"
    "fst y \<in> set (sn_tables prev)" "snd y \<in> set (sn_tables next)" using shared_of [OF wf(1)] r by blast
  have "snd y = t" using same_table [OF wf(2) y(5) t(1)] y(2) t(2) by (simp add: name_of_def)
  moreover have "\<not> has_key (tb_foreignKeys (fst y)) fk" using has_key_db [OF wf(1) y(4)] y(3) r by simp
  ultimately have "fk \<in> set (added_keys (tb_foreignKeys (fst y)) (tb_foreignKeys (snd y)))"
    using set_added_keys wf_distinct [OF wf(1) y(4)] t(3) by auto
  then show ?l unfolding plan_added_keys_def set_named_list using y(1,2) by blast
qed

lemma set_new_keys:
  assumes P: "plan_lists lc d prev next dropped created"
  shows "(n, fk) \<in> set (new_keys d created) \<longleftrightarrow> \<not> inline_keys d \<and> n \<notin> dom (ab_tables (db_of prev)) \<and>
    (\<exists>t \<in> set (sn_tables next). tb_name t = n \<and> fk \<in> set (tb_foreignKeys t))"
  using plan_created(3) [OF P] by (auto simp: new_keys_def set_named_list dom_tables_db_of)

lemma distinct_late_keys:
  assumes P: "plan_lists lc d prev next dropped created"
  shows "distinct (map key_loc (plan_late_keys d prev next created))"
proof -
  note wf = plan_wf [OF P]
  have "distinct (map key_loc (new_keys d created))"
  proof (cases "inline_keys d")
    case False
    have "\<forall>t \<in> set created. distinct (map key_id (tb_foreignKeys t))"
      using plan_created(3) [OF P] wf_distinct [OF wf(2)] by (auto simp: distinct_keys_def)
    with False show ?thesis unfolding key_loc_map by (simp add: new_keys_def distinct_named_list plan_created(1) [OF P])
  qed (simp add: new_keys_def)
  moreover have "fst p \<noteq> fst q" if "p \<in> set (plan_added_keys prev next)" "q \<in> set (new_keys d created)" for p q
    using set_plan_added_keys [OF wf, of "fst p" "snd p"] set_new_keys [OF P, of "fst q" "snd q"] that by auto
  then have "key_loc ` set (plan_added_keys prev next) \<inter> key_loc ` set (new_keys d created) = {}"
    unfolding key_loc_def by blast
  ultimately show ?thesis using distinct_plan_keys(2) [OF wf] by (simp add: plan_late_keys_def)
qed

lemma late_key:
  assumes P: "plan_lists lc d prev next dropped created"
  shows "(x, v) \<in> set (map (\<lambda>p. (key_loc p, key_actions (snd p))) (plan_late_keys d prev next created)) \<longleftrightarrow>
    ab_keys (db_of next) x = Some v \<and> ab_keys (after_creates (inline_keys d) (db_of prev) (db_of next)) x = None" (is "?l \<longleftrightarrow> ?r")
proof -
  let ?a = "db_of prev" and ?b = "db_of next"
  note wf = plan_wf [OF P]
  obtain n k where x: "x = (n, k)" by (cases x)
  have late: "(n, fk) \<in> set (plan_late_keys d prev next created) \<longleftrightarrow>
      (\<exists>t \<in> set (sn_tables next). tb_name t = n \<and> fk \<in> set (tb_foreignKeys t)) \<and>
      (if n \<in> dom (ab_tables ?a) then ab_keys ?a (n, key_id fk) \<noteq> Some (key_actions fk) else \<not> inline_keys d)" for fk
    using set_plan_added_keys [OF wf, of n fk] set_new_keys [OF P, of n fk] by (auto simp: plan_late_keys_def)
  have none: "ab_keys ?a (n, k) = None" if "n \<notin> dom (ab_tables ?a)"
    using that db_of_no_table(3) by (simp add: dom_tables_db_of)
  have "?l \<longleftrightarrow> (\<exists>fk. (n, fk) \<in> set (plan_late_keys d prev next created) \<and> key_id fk = k \<and> v = key_actions fk)"
    by (force simp: x key_loc_def image_iff)
  also have "\<dots> \<longleftrightarrow> ?r"
  proof
    assume "\<exists>fk. (n, fk) \<in> set (plan_late_keys d prev next created) \<and> key_id fk = k \<and> v = key_actions fk"
    then obtain fk t where fk: "t \<in> set (sn_tables next)" "tb_name t = n" "fk \<in> set (tb_foreignKeys t)" "key_id fk = k" "v = key_actions fk"
      "if n \<in> dom (ab_tables ?a) then ab_keys ?a (n, k) \<noteq> Some v else \<not> inline_keys d" unfolding late by blast
    have "ab_keys ?b (n, k) = Some v" using key_db_of [OF wf(2) fk(1,3)] fk by simp
    with fk(6) none show ?r by (simp add: x after_creates_def split: if_splits)
  next
    assume r: ?r
    then have "(n, k) \<in> dom (ab_keys ?b)" by (auto simp: x)
    then obtain t fk where fk: "t \<in> set (sn_tables next)" "tb_name t = n" "fk \<in> set (tb_foreignKeys t)" "key_id fk = k"
      by (rule key_db_ofE [OF wf(2)])
    have v: "v = key_actions fk" using key_db_of [OF wf(2) fk(1,3)] fk r x by simp
    have "if n \<in> dom (ab_tables ?a) then ab_keys ?a (n, k) \<noteq> Some v else \<not> inline_keys d"
      using r none by (auto simp: x after_creates_def split: if_splits)
    with fk v show "\<exists>fk. (n, fk) \<in> set (plan_late_keys d prev next created) \<and> key_id fk = k \<and> v = key_actions fk"
      unfolding late by blast
  qed
  finally show ?thesis .
qed

lemma run_late_keys:
  assumes P: "plan_lists lc d prev next dropped created"
  defines "db \<equiv> (after_alters (inline_keys d) (db_of prev) (db_of next))\<lparr>ab_columns := ab_columns (db_of next)\<rparr>"
  shows "run_ops (map (\<lambda>p. AddForeignKey (fst p) (snd p)) (plan_late_keys d prev next created)) db =
    Some ((db_of next)\<lparr>ab_extensions := ab_extensions (db_of next) \<union> ab_extensions (db_of prev)\<rparr>)"
proof -
  let ?b = "db_of next" and ?L = "plan_late_keys d prev next created"
  let ?keys = "map (\<lambda>p. (key_loc p, key_actions (snd p))) ?L"
  note wf = plan_wf [OF P]
  have parts: "ab_tables db = ab_tables ?b" "ab_columns db = ab_columns ?b"
    "ab_keys db = ab_keys (after_creates (inline_keys d) (db_of prev) ?b)"
    "ab_extensions db = ab_extensions ?b \<union> ab_extensions (db_of prev)"
    by (simp_all add: db_def after_alters_def, simp add: after_creates_def)
  have sound: "sound_db ?b" by (rule sound_db_of [OF wf(2)])
  have "\<forall>p \<in> set ?L. ab_keys db (key_loc p) = None \<and> fst p \<in> dom (ab_tables db) \<and> reference_ok db (fst p) (key_id (snd p))"
  proof
    fix p assume "p \<in> set ?L"
    then have "(key_loc p, key_actions (snd p)) \<in> set ?keys" by simp
    then have k: "ab_keys ?b (key_loc p) = Some (key_actions (snd p))" "ab_keys db (key_loc p) = None"
      unfolding late_key [OF P] parts by blast+
    then have d: "(fst p, key_id (snd p)) \<in> dom (ab_keys ?b)" by (auto simp: key_loc_def)
    have "reference_ok db (fst p) (key_id (snd p))"
      using sound_dbD(2) [OF sound d] unfolding reference_ok_def has_columns_def parts .
    with k(2) sound_dbD(4) [OF sound d]
    show "ab_keys db (key_loc p) = None \<and> fst p \<in> dom (ab_tables db) \<and> reference_ok db (fst p) (key_id (snd p))"
      by (simp only: parts)
  qed
  from run_add_keys [OF distinct_late_keys [OF P] this]
  have "run_ops (map (\<lambda>p. AddForeignKey (fst p) (snd p)) ?L) db = Some (db\<lparr>ab_keys := ab_keys db ++ map_of ?keys\<rparr>)" .
  moreover have "(ab_keys db ++ map_of ?keys) x = ab_keys ?b x" for x
  proof (cases "map_of ?keys x")
    case None
    then have no: "(x, v) \<notin> set ?keys" for v by (rule map_of_None_notin)
    have "ab_keys db x = ab_keys ?b x"
    proof (cases "ab_keys db x")
      case None
      with no late_key [OF P, of x] have "ab_keys ?b x \<noteq> Some v" for v unfolding parts by blast
      with None show ?thesis by (metis option.exhaust)
    qed (auto simp: parts after_creates_def split: if_splits)
    with None show ?thesis by (simp add: map_add_def)
  next
    case (Some v)
    from late_key [OF P, of x v] map_of_SomeD [OF this] have "ab_keys ?b x = Some v" by blast
    with Some show ?thesis by simp
  qed
  ultimately show ?thesis
    by (simp add: fun_eq_iff) (intro abstract_db.equality, simp_all add: parts fun_eq_iff)
qed

subsection \<open>The whole plan\<close>

lemma diff_plan:
  assumes "wf_snapshot prev" and "wf_snapshot next" and "diff lc prev next d = Inr ops"
  obtains dropped created where "plan_lists lc d prev next dropped created"
    and "orderChanges (plan_changes d prev next dropped created) = Inr ops"
proof -
  from assms(3) obtain us where us: "unordered_diff lc prev next d = Inr us" "orderChanges us = Inr ops"
    by (auto simp: diff_def result_simps split: option.splits)
  from unordered_diff_lists [OF assms(1,2) us(1)] us(2) show ?thesis using that by metis
qed

lemma set_orderChanges: "orderChanges us = Inr ops \<Longrightarrow> set ops = set us"
  using op_phase_less by (auto simp: orderChanges_parts phase_part_def)

lemma map_result_each: "map_result f xs = Inr ys \<Longrightarrow> x \<in> set xs \<Longrightarrow> \<exists>y. f x = Inr y"
  by (auto simp: map_result_Inr_list list_all2_conv_all_nth in_set_conv_nth)

lemma planned_run:
  assumes "wf_snapshot prev" and "wf_snapshot next" and "diff lc prev next d = Inr ops"
  shows "run_ops ops (db_of prev) =
    Some ((db_of next)\<lparr>ab_extensions := ab_extensions (db_of next) \<union> ab_extensions (db_of prev)\<rparr>)"
proof -
  obtain dropped created where P: "plan_lists lc d prev next dropped created"
    and ops: "orderChanges (plan_changes d prev next dropped created) = Inr ops" by (rule diff_plan [OF assms])
  note stages = run_added_columns [OF plan_wf [OF P]] run_created_tables [OF P] run_plan_alters [OF P]
    run_dropped_columns [OF plan_wf [OF P]] run_late_keys [OF P]
  have "run_ops ops (db_of prev) = Option.bind (Some (after_drops (db_of prev) (db_of next)))
      (run_ops (map (\<lambda>p. AddColumn (fst p) (snd p)) (plan_added_columns prev next) @ map (create_op d) created @
        plan_alters prev next @ map (\<lambda>p. DropColumn (fst p) (snd p)) (plan_dropped_columns prev next) @
        map (\<lambda>p. AddForeignKey (fst p) (snd p)) (plan_late_keys d prev next created)))"
    using ops plan_parts [OF P] run_drops [OF P, symmetric]
    by (simp add: plan_late_keys_def run_ops_append [symmetric] flip: append_assoc)
  then show ?thesis by (simp add: run_ops_append stages)
qed

end
