(* ===== verification/MigrationProperties.thy ===== *)
theory MigrationProperties
  imports MigrationReached
begin

section \<open>Properties of the migration planner\<close>

text \<open>
  Two small snapshots, in which a table and a reference to it appear, a column is added and one goes
  away; the witnesses below run the planner on them.
\<close>

definition sample_column :: "string \<Rightarrow> column_snapshot" where
  "sample_column n = \<lparr>cs_name = n, cs_type = TypeName ''integer'', cs_nullable = False, cs_primaryKey = (n = ''id''),
     cs_length = None, cs_unique = False, cs_default = None\<rparr>"

definition sample_table :: "string \<Rightarrow> string list \<Rightarrow> foreign_key list \<Rightarrow> table_snapshot" where
  "sample_table n cs fks = \<lparr>tb_name = n, tb_columns = map sample_column cs, tb_primaryKey = [''id''],
     tb_foreignKeys = fks, tb_options = None\<rparr>"

definition sample_key :: foreign_key where
  "sample_key = \<lparr>fk_name = ''posts_author_fkey'', fk_columns = [''author''], fk_targetTable = ''users'',
     fk_targetColumns = [''id''], fk_onDelete = Cascade, fk_onUpdate = NoAction\<rparr>"

definition sample_prev :: schema_snapshot where
  "sample_prev = \<lparr>sn_tables = [sample_table ''posts'' [''id'', ''old''] []], sn_extensions = []\<rparr>"

definition sample_next :: schema_snapshot where
  "sample_next = \<lparr>sn_tables = [sample_table ''posts'' [''id'', ''author''] [sample_key],
     sample_table ''users'' [''id''] []], sn_extensions = []\<rparr>"

lemmas sample_defs = sample_prev_def sample_next_def sample_table_def sample_column_def sample_key_def

lemma sample_wf: "wf_snapshot sample_prev" "wf_snapshot sample_next"
  by (simp_all add: wf_snapshot_def wf_table_def wf_key_def sample_defs)

definition sample_plan :: "change_op list" where
  "sample_plan = [AddColumn ''posts'' (sample_column ''author''),
     CreateTable ''users'' [sample_column ''id''] [''id''] [] None,
     DropColumn ''posts'' (sample_column ''old''), AddForeignKey ''posts'' sample_key]"

lemma sample_diff: "diff (\<lambda>a b. True) sample_prev sample_next None = Inr sample_plan"
  by code_simp

text \<open>
  C1: When \<open>diff\<close> plans the step from one well-formed snapshot to another, for any dialect, a database in
  the state of the first accepts every operation in the planned order (no table, column or key is used
  before it exists or removed while it is needed) and ends exactly in the state of the second; only
  extensions of the first that the second no longer lists stay installed.
\<close>
theorem diff_reaches_next:
  assumes "wf_snapshot prev" and "wf_snapshot next" and "diff lc prev next d = Inr ops"
  shows "run_ops ops (db_of prev) =
    Some ((db_of next)\<lparr>ab_extensions := ab_extensions (db_of next) \<union> ab_extensions (db_of prev)\<rparr>)"
  by (rule planned_run [OF assms])

theorem diff_reaches_next_witness:
  "run_ops sample_plan (db_of sample_prev) =
     Some ((db_of sample_next)\<lparr>ab_extensions := ab_extensions (db_of sample_next) \<union> ab_extensions (db_of sample_prev)\<rparr>)"
  by (rule diff_reaches_next [OF sample_wf sample_diff])



text \<open>
  Tables whose references must be inline, or that are dropped, are refused exactly when some of them
  reference each other in a circle (a non-empty set of new tables in which each references another one of
  the set); in every other case \<open>createdTablesInOrder\<close> finds an order.
\<close>
theorem mutual_references_refused:
  assumes "distinct (map tb_name tables)" and "dropping \<or> inline_keys d"
  shows "(\<exists>e. createdTablesInOrder lc previous tables d dropping = Inl e) \<longleftrightarrow>
    (\<exists>ls \<subseteq> {t \<in> set tables. tb_name t \<notin> set previous}. ls \<noteq> {} \<and>
      (\<forall>t \<in> ls. \<exists>fk \<in> set (tb_foreignKeys t). fk_targetTable fk \<noteq> tb_name t \<and> fk_targetTable fk \<in> tb_name ` ls))"
proof -
  have "mutually_referencing ls \<longleftrightarrow> ls \<noteq> {} \<and>
      (\<forall>t \<in> ls. \<exists>fk \<in> set (tb_foreignKeys t). fk_targetTable fk \<noteq> tb_name t \<and> fk_targetTable fk \<in> tb_name ` ls)" for ls
    by (auto simp: mutually_referencing_def table_targets_def)
  then show ?thesis using created_tables_refused [OF assms, of lc previous] by (simp add: new_tables_def)
qed

theorem mutual_references_refused_witness:
  "\<exists>e. createdTablesInOrder (\<lambda>a b. True) []
     [sample_table ''users'' [''id''] [sample_key\<lparr>fk_targetTable := ''posts''\<rparr>],
      sample_table ''posts'' [''id''] [sample_key]] None True = Inl e"
proof -
  let ?u = "sample_table ''users'' [''id''] [sample_key\<lparr>fk_targetTable := ''posts''\<rparr>]"
  let ?p = "sample_table ''posts'' [''id''] [sample_key]"
  have "\<exists>ls \<subseteq> {t \<in> set [?u, ?p]. tb_name t \<notin> set []}. ls \<noteq> {} \<and>
      (\<forall>t \<in> ls. \<exists>fk \<in> set (tb_foreignKeys t). fk_targetTable fk \<noteq> tb_name t \<and> fk_targetTable fk \<in> tb_name ` ls)"
    by (rule exI [of _ "{?u, ?p}"]) (simp add: sample_table_def sample_key_def)
  then show ?thesis
    using mutual_references_refused [of "[?u, ?p]" True None "\<lambda>a b. True" "[]"] by (simp add: sample_table_def)
qed





end
