(* ===== verification/PostgresProperties.thy ===== *)
theory PostgresProperties
  imports PostgresObjects MigrationProperties
begin

section \<open>Properties of the PostgreSQL statements\<close>

subsection \<open>Dollar quotes\<close>

lemma index_from_None: "index_from pat s 0 = None \<longleftrightarrow> (\<forall>i \<le> length s. \<not> prefix pat (drop i s))"
proof (induction s)
  case (Cons c s)
  have "(\<forall>i \<le> length (c # s). \<not> prefix pat (drop i (c # s))) \<longleftrightarrow>
      \<not> prefix pat (c # s) \<and> (\<forall>i \<le> length s. \<not> prefix pat (drop i s))"
    by (simp add: All_less_Suc2 flip: less_Suc_eq_le)
  with Cons show ?case by simp
qed simp

lemma index_from_first:
  "prefix pat (drop n s) \<Longrightarrow> (\<forall>i < n. \<not> prefix pat (drop i s)) \<Longrightarrow> n \<le> length s \<Longrightarrow> index_from pat s 0 = Some n"
proof (induction n arbitrary: s)
  case 0
  then show ?case by (cases s) simp_all
next
  case (Suc n)
  then obtain c t where s: "s = c # t" by (cases s) auto
  have "\<not> prefix pat s" using Suc.prems(2) by (metis drop0 zero_less_Suc)
  moreover have "index_from pat t 0 = Some n"
    using Suc.prems by (intro Suc.IH) (auto simp: s)
  ultimately show ?case by (simp add: s)
qed

definition tag_digits :: "nat \<Rightarrow> string" where
  "tag_digits k = (if k = 0 then [] else show_nat k)"

lemma dollar_tag_split: "dollar_tag k = CHR ''$'' # ''zmdb'' @ tag_digits k @ ''$''"
  by (simp add: dollar_tag_def tag_digits_def)

lemma tag_digits_chars: "\<forall>c \<in> set (tag_digits k). is_digit c"
  using show_nat_digits by (auto simp: tag_digits_def)

lemma tag_digits_inj: "tag_digits i = tag_digits j \<Longrightarrow> i = j"
  using show_nat_ne [of i] show_nat_ne [of j] by (auto simp: tag_digits_def simp del: show_nat_ne split: if_splits)

lemma dollar_tags_differ:
  assumes "prefix (dollar_tag i) s" and "prefix (dollar_tag j) s"
  shows "i = j"
proof -
  have read: "takeWhile (\<lambda>c. c \<noteq> CHR ''$'') (drop 5 s) = tag_digits k" if p: "prefix (dollar_tag k) s" for k
  proof -
    obtain r where "s = dollar_tag k @ r" using p by (auto simp: prefix_def)
    then have "drop 5 s = tag_digits k @ CHR ''$'' # r" by (simp add: dollar_tag_split)
    moreover have "\<forall>c \<in> set (tag_digits k). c \<noteq> CHR ''$''" using tag_digits_chars [of k] by (auto simp: is_digit_def)
    ultimately show ?thesis by (simp add: takeWhile_append2)
  qed
  from read [OF assms(1)] read [OF assms(2)] show ?thesis by (auto dest: tag_digits_inj)
qed

lemma dollar_loop_fails: "dollar_loop n body k = None \<Longrightarrow> \<forall>j < n. index_from (dollar_tag (k + j)) body 0 \<noteq> None"
proof (induction n arbitrary: k)
  case (Suc n)
  then have first: "index_from (dollar_tag k) body 0 \<noteq> None" and rest: "dollar_loop n body (k + 1) = None"
    by (auto simp: Let_def split: if_splits)
  show ?case
  proof (intro allI impI)
    fix j assume "j < Suc n"
    then show "index_from (dollar_tag (k + j)) body 0 \<noteq> None" using first Suc.IH [OF rest] by (cases j) auto
  qed
qed simp

lemma dollar_loop_result: "dollar_loop n body k = Some tag \<Longrightarrow> (\<exists>j. tag = dollar_tag j) \<and> index_from tag body 0 = None"
  by (induction n arbitrary: k) (auto simp: Let_def split: if_splits)

lemma dollarQuoteTag_found: "\<exists>tag. dollarQuoteTag body = Some tag"
proof (rule ccontr)
  assume "\<nexists>tag. dollarQuoteTag body = Some tag"
  then have "dollar_loop (Suc (length body)) body 0 = None" by (simp add: dollarQuoteTag_def del: dollar_loop.simps)
  from dollar_loop_fails [OF this]
  have "\<forall>j < Suc (length body). \<exists>i. i \<le> length body \<and> prefix (dollar_tag j) (drop i body)"
    by (auto simp: index_from_None)
  then obtain f where f: "\<forall>j < Suc (length body). f j \<le> length body \<and> prefix (dollar_tag j) (drop (f j) body)" by metis
  have "f j < length body" if "j < Suc (length body)" for j
  proof (rule ccontr)
    assume "\<not> f j < length body"
    then have "drop (f j) body = []" by simp
    moreover have "prefix (dollar_tag j) (drop (f j) body)" using f that by blast
    ultimately show False by (simp add: dollar_tag_split)
  qed
  then have "f ` {..<Suc (length body)} \<subseteq> {..<length body}" by auto
  moreover have "inj_on f {..<Suc (length body)}"
    by (rule inj_onI) (metis f dollar_tags_differ lessThan_iff)
  ultimately have "card {..<Suc (length body)} \<le> card {..<length body}" by (intro card_inj_on_le) simp_all
  then show False by simp
qed

lemma tag_not_inside:
  assumes none: "index_from (dollar_tag k) body 0 = None" and i: "i < length body + 2"
  shows "\<not> prefix (dollar_tag k) (drop i (CHR 0x0A # body @ CHR 0x0A # dollar_tag k @ rest))"
proof
  let ?tag = "dollar_tag k" and ?text = "CHR 0x0A # body @ CHR 0x0A # dollar_tag k @ rest"
  have chars: "c \<noteq> CHR 0x0A" if "c \<in> set ?tag" for c
    using that tag_digits_chars [of k] by (auto simp: dollar_tag_split is_digit_def)
  assume p: "prefix ?tag (drop i ?text)"
  then obtain r where r: "drop i ?text = ?tag @ r" by (auto simp: prefix_def)
  show False
  proof (cases i)
    case 0
    with r show False by (simp add: dollar_tag_split)
  next
    case (Suc m)
    then have m: "m \<le> length body" using i by simp
    then have d: "drop m body @ CHR 0x0A # ?tag @ rest = ?tag @ r" using r by (simp add: Suc)
    show False
    proof (cases "length ?tag \<le> length (drop m body)")
      case True
      then have "?tag = take (length ?tag) (drop m body)" using arg_cong [OF d, of "take (length ?tag)"] by simp
      then have "prefix ?tag (drop m body)" by (metis take_is_prefix)
      then show False using none m by (auto simp: index_from_None)
    next
      case False
      then have "?tag ! length (drop m body) = CHR 0x0A"
        using arg_cong [OF d, of "\<lambda>xs. xs ! length (drop m body)"] by (simp add: nth_append)
      moreover have "?tag ! length (drop m body) \<in> set ?tag" using False by (intro nth_mem) simp
      ultimately show False using chars by blast
    qed
  qed
qed

text \<open>
  The search for a dollar quote ends for every routine body, and the quoted text is read back as it is: in
  the emitted statement the first occurrence of the tag after the opening one is the closing one, right
  after the body and its line feeds, whatever follows.
\<close>
theorem routine_body_reads_back:
  "\<exists>tag. dollarQuoteTag body = Some tag \<and>
     (\<forall>rest. index_from tag (CHR 0x0A # body @ CHR 0x0A # tag @ rest) 0 = Some (length body + 2))"
proof -
  obtain tag where tag: "dollarQuoteTag body = Some tag" using dollarQuoteTag_found by blast
  then obtain k where k: "tag = dollar_tag k" "index_from (dollar_tag k) body 0 = None"
    using dollar_loop_result unfolding dollarQuoteTag_def by blast
  have "index_from tag (CHR 0x0A # body @ CHR 0x0A # tag @ rest) 0 = Some (length body + 2)" for rest
    unfolding k(1) using tag_not_inside [OF k(2)] by (intro index_from_first) simp_all
  with tag show ?thesis by blast
qed

subsection \<open>Down statements as inverse operations\<close>










definition sample_down :: "string list" where
  "sample_down = [''ALTER TABLE \"posts\" DROP CONSTRAINT \"posts_author_fkey\"'',
     ''ALTER TABLE \"posts\" ADD COLUMN \"old\" INTEGER NOT NULL'', ''DROP TABLE \"users\"'',
     ''ALTER TABLE \"posts\" DROP COLUMN \"author\"'']"

lemma sample_postgres:
  "diff (\<lambda>a b. True) sample_prev sample_next (Some (postgres_target POSTGRES_TYPES ''postgres'')) = Inr sample_plan"
  "downStatements (pg_emitDown POSTGRES_TYPES) sample_plan = Inr sample_down"
  by code_simp+


subsection \<open>Every accepted plan can be reverted\<close>

lemma validated_columns:
  "pg_validateSnapshot s = Inr () \<Longrightarrow> t \<in> set (sn_tables s) \<Longrightarrow> c \<in> set (tb_columns t) \<Longrightarrow> \<exists>v. columnDefaultSql c False = Inr v"
  by (auto simp: pg_validateSnapshot_def result_simps dest!: map_result_each)

lemma map_result_total: "\<forall>x \<in> set xs. \<exists>y. f x = Inr y \<Longrightarrow> \<exists>ys. map_result f xs = Inr ys"
  by (induction xs) (auto simp: result_simps)

definition renderable :: "type_map \<Rightarrow> column_snapshot \<Rightarrow> bool" where
  "renderable tm c \<longleftrightarrow> (\<exists>v. columnDefaultSql c False = Inr v) \<and> (\<exists>t. pg_ddlType tm c = Inr t)"

lemma renderable_column: "renderable tm c \<Longrightarrow> \<exists>ddl. pg_columnDdl tm c inl level = Inr ddl"
  by (auto simp: renderable_def pg_columnDdl_def result_simps)

lemma no_clauses: "pg_alter_clauses before after bd ad bt at us = [] \<longleftrightarrow>
    (defaultChanged before after \<longrightarrow> bd = None \<and> ad = None) \<and> bt = at \<and> cs_nullable before = cs_nullable after \<and> us = []"
  by (auto simp: pg_alter_clauses_def Let_def split: option.split)

lemma alterColumn_symmetric:
  assumes same: "cs_name before = cs_name after" and up: "pg_alterColumnDdl tm n before after = Inr sql"
  shows "\<exists>sql'. pg_alterColumnDdl tm n after before = Inr sql'"
proof -
  obtain bd ad bt at us where parts: "columnDefaultSql before False = Inr bd" "columnDefaultSql after False = Inr ad"
    "pg_ddlType tm before = Inr bt" "pg_ddlType tm after = Inr at"
    "(if cs_unique before \<noteq> cs_unique after then rbind (pg_unique_clause n after) (\<lambda>c. Inr [c]) else Inr []) = Inr us"
    "pg_alter_clauses before after bd ad bt at us \<noteq> []"
    using up unfolding pg_alterColumnDdl_def Let_def by (fastforce simp: result_simps split: if_splits)
  have "\<exists>us'. (if cs_unique after \<noteq> cs_unique before then rbind (pg_unique_clause n before) (\<lambda>c. Inr [c]) else Inr []) = Inr us' \<and>
      (us' = [] \<longleftrightarrow> us = [])"
    using parts(5) same by (auto simp: pg_unique_clause_def Let_def result_simps split: if_splits)
  then obtain us' where us': "(if cs_unique after \<noteq> cs_unique before then rbind (pg_unique_clause n before) (\<lambda>c. Inr [c]) else Inr []) = Inr us'"
    "us' = [] \<longleftrightarrow> us = []" by blast
  have "pg_alter_clauses after before ad bd at bt us' \<noteq> []"
    using parts(6) us'(2) unfolding no_clauses by (auto simp: defaultChanged_def)
  then show ?thesis unfolding pg_alterColumnDdl_def Let_def parts(1-4) rbind.simps us'(1) by simp
qed

lemma alterPrimaryKey_symmetric: "pg_alterPrimaryKeyDdl n k k' = Inr sql \<Longrightarrow> \<exists>sql'. pg_alterPrimaryKeyDdl n k' k = Inr sql'"
  by (auto simp: pg_alterPrimaryKeyDdl_def Let_def split: if_splits)

definition revertible :: "type_map \<Rightarrow> change_op \<Rightarrow> bool" where
  "revertible tm op \<longleftrightarrow> (case op of
     DropTable n t \<Rightarrow> \<forall>c \<in> set (tb_columns t). renderable tm c
   | DropColumn n c \<Rightarrow> renderable tm c
   | AlterColumn n c c' \<Rightarrow> cs_name c = cs_name c'
   | _ \<Rightarrow> True)"

lemma revertible_down:
  assumes "change_kind op \<noteq> KCreateExtension" and "revertible tm op" and "pg_emitUp tm op = Inr sql"
  shows "\<exists>sql'. pg_emitDown tm op = Inr sql'"
proof (cases op)
  case (DropTable n t)
  then have "\<exists>ys. map_result (\<lambda>c. pg_columnDdl tm c (tb_primaryKey t = [cs_name c])
      (1 < length (tb_primaryKey t) \<and> cs_name c \<in> set (tb_primaryKey t))) (tb_columns t) = Inr ys"
    using assms(2) renderable_column by (intro map_result_total) (auto simp: revertible_def)
  then show ?thesis by (auto simp: DropTable pg_createTableDdl_def result_simps)
next
  case (DropColumn n c)
  then obtain ddl where "pg_columnDdl tm c False False = Inr ddl"
    using renderable_column [of tm c False False] assms(2) by (auto simp: revertible_def)
  then show ?thesis by (simp add: DropColumn)
next
  case (AlterColumn n c c')
  then show ?thesis using assms(2,3) alterColumn_symmetric by (auto simp: revertible_def)
next
  case (AlterPrimaryKey n k k')
  then show ?thesis using assms(3) alterPrimaryKey_symmetric by auto
qed (use assms in simp_all)

lemma planned_revertible:
  assumes wf: "wf_snapshot prev" "wf_snapshot next" and ops: "diff lc prev next d = Inr ops"
    and cols: "\<And>t c. t \<in> set (sn_tables prev) \<Longrightarrow> c \<in> set (tb_columns t) \<Longrightarrow> renderable tm c" and op: "op \<in> set ops"
  shows "revertible tm op"
proof -
  obtain dropped created where P: "plan_lists lc d prev next dropped created"
    and o': "orderChanges (plan_changes d prev next dropped created) = Inr ops" by (rule diff_plan [OF wf ops])
  from op plan_parts [OF P] o' consider
      (dropped) t where "op = DropTable (tb_name t) t" "t \<in> set dropped"
    | (column) n c where "op = DropColumn n c" "(n, c) \<in> set (plan_dropped_columns prev next)"
    | (alter) "op \<in> set (plan_alters prev next)"
    | (other) "\<And>n t. op \<noteq> DropTable n t" "\<And>n c. op \<noteq> DropColumn n c" "\<And>n c c'. op \<noteq> AlterColumn n c c'"
    by (auto simp: extension_changes_def create_op_def)
  then show ?thesis
  proof cases
    case dropped
    then have "t \<in> set (sn_tables prev)" using plan_dropped(3) [OF P] by blast
    with dropped(1) cols show ?thesis by (simp add: revertible_def)
  next
    case column
    then obtain y where y: "y \<in> set (shared_tables prev next)" "c \<in> set (dropped_columns (fst y) (snd y))"
      unfolding plan_dropped_columns_def set_named_list by blast
    then have "fst y \<in> set (sn_tables prev)" "c \<in> set (tb_columns (fst y))"
      using set_shared_tables [OF wf(1)] by (simp_all add: dropped_columns_def)
    with column(1) cols show ?thesis by (simp add: revertible_def)
  next
    case alter
    have "op_phase op = 4" "accepts op (after_creates (inline_keys d) (db_of prev) (db_of next))"
      using alters_accepted [OF P] alter by (simp_all add: list_all_iff)
    then show ?thesis by (cases op) (simp_all add: revertible_def)
  next
    case other
    show ?thesis by (cases op) (use other in \<open>simp_all add: revertible_def\<close>)
  qed
qed

text \<open>
  C37: What PostgreSQL accepts as a plan can always be reverted: when \<open>diff\<close> returns the operations of a plan for
  the dialect and the types of the old columns have a DDL name, then every operation has an up statement and
  the generated down section exists.
\<close>
theorem postgres_plan_has_both_sections:
  assumes wf: "wf_snapshot prev" "wf_snapshot next"
    and ops: "diff lc prev next (Some (postgres_target tm name)) = Inr ops"
    and named: "\<And>t c. t \<in> set (sn_tables prev) \<Longrightarrow> c \<in> set (tb_columns t) \<Longrightarrow> \<exists>type. pg_ddlType tm c = Inr type"
  shows "\<exists>up down. map_result (pg_emitUp tm) ops = Inr up \<and> downStatements (pg_emitDown tm) ops = Inr down"
proof -
  from ops have valid: "pg_validatePlan tm prev next ops = Inr ()"
    by (auto simp: diff_def result_simps postgres_target_def)
  then obtain up where up: "map_result (pg_emitUp tm) ops = Inr up" and prev: "pg_validateSnapshot prev = Inr ()"
    by (auto simp: pg_validatePlan_def result_simps)
  have "renderable tm c" if "t \<in> set (sn_tables prev)" "c \<in> set (tb_columns t)" for t c
    using validated_columns [OF prev that] named [OF that] by (simp add: renderable_def)
  note rev = planned_revertible [OF wf ops this]
  have "\<exists>sql. pg_emitDown tm op = Inr sql" if "op \<in> set ops" "change_kind op \<noteq> KCreateExtension" for op
    using revertible_down [OF that(2) rev [OF _ _ that(1)]] map_result_each [OF up that(1)] by auto
  then have "\<exists>down. downStatements (pg_emitDown tm) ops = Inr down"
    unfolding downStatements_def by (intro map_result_total) auto
  with up show ?thesis by blast
qed

theorem postgres_plan_has_both_sections_witness:
  "\<exists>up down. map_result (pg_emitUp POSTGRES_TYPES) sample_plan = Inr up \<and>
     downStatements (pg_emitDown POSTGRES_TYPES) sample_plan = Inr down"
  by (rule postgres_plan_has_both_sections [OF sample_wf sample_postgres(1)])
    (auto simp: sample_prev_def sample_table_def sample_column_def pg_ddlType_def Let_def)

end
