(* ===== verification/WhereClause.thy ===== *)
theory WhereClause
  imports Builders SelectScope
begin

text \<open>
  \<open>packages/orm/src/dto/index.ts\<close>: a where DTO is folded into a query builder (\<open>compileWhere\<close>), and a
  cursor page into one branch per ordered column (\<open>BranchTarget\<close>, \<open>applyKeysetFilter\<close>), with the ordering
  and the limit of a list (\<open>applyOrderBy\<close>, \<open>applyPagination\<close>).

  The builders are values here, as in the code (\<open>this\<close>-returning methods); \<open>where_target\<close> is the structural
  type \<open>WhereTarget\<close>, a record of the methods a builder offers, an optional method as an option.
\<close>

section \<open>Where objects\<close>

text \<open>
  A where object may come from JSON or from the program, which may also put query builders in it; a builder
  is known by what its \<open>compile()\<close> returns. An object is the list of its entries in the order of
  \<open>Object.keys\<close>. \<open>Plain\<close> holds the rest: \<open>undefined\<close>, \<open>null\<close>, scalars and dates.
\<close>

datatype dto = Plain jsval | Compiled "js_error + compiled_query" | DObj "(string \<times> dto) list" | DArr "dto list"

fun dto_value :: "dto \<Rightarrow> jsval" where
  "dto_value (Plain v) = v"
| "dto_value (Compiled c) = JObj []"
| "dto_value (DObj es) = JObj (map (\<lambda>(k, d). (k, dto_value d)) es)"
| "dto_value (DArr ds) = JArr (map dto_value ds)"

fun dto_operand :: "dto \<Rightarrow> operand" where
  "dto_operand (Compiled c) = Sub c"
| "dto_operand d = Val (dto_value d)"

fun truthy :: "jsval \<Rightarrow> bool" where
  "truthy JUndefined = False"
| "truthy JNull = False"
| "truthy (JBool b) = b"
| "truthy (JNum n) = (n \<noteq> IntNum 0 \<and> n \<noteq> NotANumber)"
| "truthy (JBigint i) = (i \<noteq> 0)"
| "truthy (JStr s) = (s \<noteq> [])"
| "truthy v = True"

fun dto_truthy :: "dto \<Rightarrow> bool" where
  "dto_truthy (Plain v) = truthy v"
| "dto_truthy d = True"

definition OP_SQL :: "(string \<times> string) list" where
  "OP_SQL = [(''eq'', ''=''), (''ne'', ''!=''), (''lt'', ''<''), (''lte'', ''<=''), (''gt'', ''>''), (''gte'', ''>=''),
     (''in'', ''in''), (''nin'', ''not in''), (''like'', ''like''), (''ilike'', ''ilike''), (''l2'', ''l2''),
     (''cosine'', ''cosine''), (''ip'', ''ip'')]"

section \<open>The builders\<close>

record 'b where_target =
  wt_where :: "connector \<Rightarrow> string \<Rightarrow> string \<Rightarrow> operand \<Rightarrow> 'b \<Rightarrow> js_error + 'b"
  wt_group :: "connector \<Rightarrow> (predicate list \<Rightarrow> 'b \<Rightarrow> js_error + 'b) option"
  wt_exists :: "connector \<Rightarrow> bool \<Rightarrow> (operand \<Rightarrow> 'b \<Rightarrow> js_error + 'b) option"
  wt_in :: "connector \<Rightarrow> bool \<Rightarrow> (string \<Rightarrow> jsval list \<Rightarrow> 'b \<Rightarrow> js_error + 'b) option"
  wt_dialect :: "'b \<Rightarrow> dialect option"

definition select_exists :: "connector \<Rightarrow> bool \<Rightarrow> operand \<Rightarrow> select_query \<Rightarrow> js_error + select_query" where
  "select_exists conn isNot sub q =
     add_predicate q conn (FirstColumn []) (Some (if isNot then ''NOT EXISTS'' else ''EXISTS'')) sub"

definition select_in :: "connector \<Rightarrow> bool \<Rightarrow> string \<Rightarrow> jsval list \<Rightarrow> select_query \<Rightarrow> js_error + select_query" where
  "select_in conn neg col vs q =
     add_predicate q conn (FirstColumn col) (Some (if neg then ''not in'' else ''in'')) (Val (JArr vs))"

definition select_target :: "select_query where_target" where
  "select_target = \<lparr>
     wt_where = (\<lambda>conn col op v q. add_predicate q conn (FirstColumn col) (Some op) v),
     wt_group = (\<lambda>conn. Some (\<lambda>ps q. add_group q conn ps)),
     wt_exists = (\<lambda>conn isNot. Some (select_exists conn isNot)),
     wt_in = (\<lambda>conn neg. Some (select_in conn neg)),
     wt_dialect = (\<lambda>q. Some (sq_dialect q))\<rparr>"

definition update_target :: "update_builder where_target" where
  "update_target = \<lparr>
     wt_where = (\<lambda>conn col op v b. update_where b conn col op v),
     wt_group = (\<lambda>conn. case conn of And \<Rightarrow> Some (\<lambda>ps b. update_whereGroup b ps) | Or \<Rightarrow> None),
     wt_exists = (\<lambda>conn isNot. None),
     wt_in = (\<lambda>conn neg. case conn of
         And \<Rightarrow> Some (\<lambda>col vs b. if neg then update_whereNotIn b col vs else update_whereIn b col vs)
       | Or \<Rightarrow> None),
     wt_dialect = (\<lambda>b. None)\<rparr>"

definition delete_target :: "delete_builder where_target" where
  "delete_target = \<lparr>
     wt_where = (\<lambda>conn col op v b. delete_where b conn col op v),
     wt_group = (\<lambda>conn. case conn of And \<Rightarrow> Some (\<lambda>ps b. delete_whereGroup b ps) | Or \<Rightarrow> None),
     wt_exists = (\<lambda>conn isNot. None),
     wt_in = (\<lambda>conn neg. case conn of
         And \<Rightarrow> Some (\<lambda>col vs b. if neg then delete_whereNotIn b col vs else delete_whereIn b col vs)
       | Or \<Rightarrow> None),
     wt_dialect = (\<lambda>b. None)\<rparr>"

section \<open>\<open>compileWhere\<close>\<close>

text \<open>
  The fold is written in two steps, because a subquery is folded into a builder of another type than the
  query around it: a script lists the method calls in their order, up to the first error of \<open>compileWhere\<close>
  itself, and \<open>run_script\<close> makes them. An error of a call stops the run before the script's own error.
\<close>

datatype where_call =
    CallWhere connector string string operand
  | CallIn connector bool string "jsval list"
  | CallExists connector bool operand

type_synonym script = "where_call list \<times> js_error option"

definition fails :: "js_error \<Rightarrow> script" where
  "fails e = ([], Some e)"

definition followed :: "script \<Rightarrow> script \<Rightarrow> script" where
  "followed a b = (case snd a of Some e \<Rightarrow> a | None \<Rightarrow> (fst a @ fst b, snd b))"

fun call_text :: "connector \<Rightarrow> bool \<Rightarrow> string" where
  "call_text And False = ''whereExists''"
| "call_text And True = ''whereNotExists''"
| "call_text Or False = ''orWhereExists''"
| "call_text Or True = ''orWhereNotExists''"

fun make_call :: "'b where_target \<Rightarrow> where_call \<Rightarrow> 'b \<Rightarrow> js_error + 'b" where
  "make_call t (CallWhere conn col op v) b = wt_where t conn col op v b"
| "make_call t (CallIn conn neg col vs) b = (case wt_in t conn neg of
     Some f \<Rightarrow> f col vs b
   | None \<Rightarrow> wt_where t conn col (if neg then ''not in'' else ''in'') (Val (JArr vs)) b)"
| "make_call t (CallExists conn isNot sub) b = (case wt_exists t conn isNot of
     Some f \<Rightarrow> f sub b
   | None \<Rightarrow> Inl (PlainError (''Builder does not support '' @ call_text conn isNot)))"

fun make_calls :: "'b where_target \<Rightarrow> where_call list \<Rightarrow> 'b \<Rightarrow> js_error + 'b" where
  "make_calls t [] b = Inr b"
| "make_calls t (c # cs) b = rbind (make_call t c b) (make_calls t cs)"

definition run_script :: "'b where_target \<Rightarrow> script \<Rightarrow> 'b \<Rightarrow> js_error + 'b" where
  "run_script t s b = rbind (make_calls t (fst s) b) (\<lambda>b'. case snd s of None \<Rightarrow> Inr b' | Some e \<Rightarrow> Inl e)"

text \<open>One operator of a column; \<open>resolved\<close> is the operand after \<open>resolveSubqueryTarget\<close>, or its error.\<close>

definition add_call :: "connector \<Rightarrow> string \<Rightarrow> string \<Rightarrow> js_error + operand \<Rightarrow> script" where
  "add_call conn col op resolved = (case resolved of Inl e \<Rightarrow> fails e | Inr v \<Rightarrow> ([CallWhere conn col op v], None))"

definition unknown_operator :: "string \<Rightarrow> string \<Rightarrow> js_error" where
  "unknown_operator op col = ValidationError (''compileWhere: unknown operator '' @ dq_quoted op @ '' on column '' @ dq_quoted col)"

definition empty_operators :: "string \<Rightarrow> js_error" where
  "empty_operators col =
     ValidationError (''compileWhere: column '' @ dq_quoted col @ '' has an empty operator map, which would match every row'')"

fun array_of :: "dto \<Rightarrow> jsval list option" where
  "array_of (DArr ds) = Some (map dto_value ds)"
| "array_of d = None"

definition op_call :: "connector \<Rightarrow> string \<Rightarrow> string \<Rightarrow> string \<Rightarrow> dto \<Rightarrow> js_error + operand \<Rightarrow> script" where
  "op_call conn col shown op d resolved =
     (if op = ''isNull'' then ([CallWhere conn col (if dto_truthy d then ''is null'' else ''is not null'') (Val JNull)], None)
      else if op = ''notNull'' then ([CallWhere conn col (if dto_truthy d then ''is not null'' else ''is null'') (Val JNull)], None)
      else if op = ''in'' \<and> array_of d \<noteq> None then ([CallIn conn False col (the (array_of d))], None)
      else if op = ''nin'' \<and> array_of d \<noteq> None then ([CallIn conn True col (the (array_of d))], None)
      else case map_of OP_SQL op of
          None \<Rightarrow> fails (unknown_operator op shown)
        | Some sql \<Rightarrow> add_call conn col sql resolved)"

text \<open>
  \<open>resolveSubqueryTarget\<close> makes a builder of an object with a \<open>table\<close> that is a string; the other functions
  follow \<open>compileWhere\<close>, \<open>applyField\<close> and \<open>applyExists\<close>. \<open>cn\<close> is the column function of the call.
\<close>

definition subquery_start :: "dialect \<Rightarrow> string \<Rightarrow> (string \<times> dto) list \<Rightarrow> js_error + select_query" where
  "subquery_start dial tbl es =
     rbind (new_query dial (trustedTable tbl FtsUndefined) None False) (\<lambda>q.
       case map_of es ''select'' of
         Some (DArr ds) \<Rightarrow> if ds = [] then Inr q
           else select_columns q (Some (map (\<lambda>d. case d of Plain (JStr c) \<Rightarrow> SelColumn c | _ \<Rightarrow> SelColumn []) ds))
       | _ \<Rightarrow> Inr q)"

fun table_of :: "(string \<times> dto) list \<Rightarrow> string option" where
  "table_of es = (case map_of es ''table'' of Some (Plain (JStr t)) \<Rightarrow> Some t | _ \<Rightarrow> None)"

abbreviation entries_size :: "(string \<times> dto) list \<Rightarrow> nat" where
  "entries_size es \<equiv> size_list (size_prod (\<lambda>_. 0) size) es"

lemma map_of_size: "map_of es k = Some d \<Longrightarrow> size d < entries_size es"
  by (induction es) (auto split: if_splits)

function (sequential) clause_entries :: "dialect option \<Rightarrow> (string \<Rightarrow> string) \<Rightarrow> (string \<times> dto) list \<Rightarrow> script"
and clause_subs :: "dialect option \<Rightarrow> (string \<Rightarrow> string) \<Rightarrow> dto list \<Rightarrow> script"
and or_groups :: "dialect option \<Rightarrow> (string \<Rightarrow> string) \<Rightarrow> dto list \<Rightarrow> script"
and or_entries :: "dialect option \<Rightarrow> (string \<Rightarrow> string) \<Rightarrow> (string \<times> dto) list \<Rightarrow> script"
and applyField :: "dialect option \<Rightarrow> connector \<Rightarrow> string \<Rightarrow> string \<Rightarrow> dto \<Rightarrow> script"
and apply_ops :: "dialect option \<Rightarrow> connector \<Rightarrow> string \<Rightarrow> string \<Rightarrow> (string \<times> dto) list \<Rightarrow> script"
and applyExists :: "dialect option \<Rightarrow> bool \<Rightarrow> connector \<Rightarrow> dto list \<Rightarrow> script"
and resolveSubqueryTarget :: "dialect option \<Rightarrow> dto \<Rightarrow> js_error + operand"
where
  "clause_entries dial cn [] = ([], None)"
| "clause_entries dial cn ((key, d) # es) = followed
     (if key = ''and'' then (if \<not> dto_truthy d then ([], None)
        else case d of DArr ds \<Rightarrow> clause_subs dial cn ds | Plain (JStr s) \<Rightarrow> ([], None) | _ \<Rightarrow> fails (TypeError ''and is not iterable''))
      else if key = ''or'' then (case d of
          DArr ds \<Rightarrow> or_groups dial cn ds
        | Plain v \<Rightarrow> if is_nullish v then ([], None)
            else (case v of JStr s \<Rightarrow> ([], None) | _ \<Rightarrow> fails (TypeError ''or is not iterable''))
        | _ \<Rightarrow> fails (TypeError ''or is not iterable''))
      else if key = ''exists'' \<or> key = ''notExists'' then (case d of
          DArr ds \<Rightarrow> applyExists dial (key = ''notExists'') And ds
        | _ \<Rightarrow> applyExists dial (key = ''notExists'') And [d])
      else applyField dial And (cn key) key d)
     (clause_entries dial cn es)"
| "clause_subs dial cn [] = ([], None)"
| "clause_subs dial cn (DObj es # ds) = followed (clause_entries dial cn es) (clause_subs dial cn ds)"
| "clause_subs dial cn (d # ds) = clause_subs dial cn ds"
| "or_groups dial cn [] = ([], None)"
| "or_groups dial cn (DObj es # ds) = followed (or_entries dial cn es) (or_groups dial cn ds)"
| "or_groups dial cn (d # ds) = or_groups dial cn ds"
| "or_entries dial cn [] = ([], None)"
| "or_entries dial cn ((col, d) # es) = followed
     (if col = ''exists'' \<or> col = ''notExists'' then (case d of
          DArr ds \<Rightarrow> applyExists dial (col = ''notExists'') Or ds
        | _ \<Rightarrow> applyExists dial (col = ''notExists'') Or [d])
      else applyField dial Or (cn col) col d)
     (or_entries dial cn es)"
| "applyField dial conn col shown (DObj es) =
     (if map_of es ''compile'' \<noteq> None \<or> map_of es ''table'' \<noteq> None
      then add_call conn col ''='' (resolveSubqueryTarget dial (DObj es))
      else if es = [] then fails (empty_operators shown)
      else apply_ops dial conn col shown es)"
| "applyField dial conn col shown (Plain (JDate t)) = fails (empty_operators shown)"
| "applyField dial conn col shown d = add_call conn col ''='' (resolveSubqueryTarget dial d)"
| "apply_ops dial conn col shown [] = ([], None)"
| "apply_ops dial conn col shown ((op, d) # es) =
     followed (op_call conn col shown op d (resolveSubqueryTarget dial d)) (apply_ops dial conn col shown es)"
| "applyExists dial isNot conn [] = ([], None)"
| "applyExists dial isNot conn (d # ds) = followed
     (case resolveSubqueryTarget dial d of Inl e \<Rightarrow> fails e | Inr v \<Rightarrow> ([CallExists conn isNot v], None))
     (applyExists dial isNot conn ds)"
| "resolveSubqueryTarget dial (DObj es) =
     (case table_of es of
        None \<Rightarrow> Inr (dto_operand (DObj es))
      | Some tbl \<Rightarrow>
          if map_of es ''compile'' \<noteq> None then Inr (dto_operand (DObj es))
          else (case dial of
              None \<Rightarrow> Inl (ValidationError ''compileWhere: a table subquery requires the builder dialect object'')
            | Some dl \<Rightarrow> rbind (subquery_start dl tbl es) (\<lambda>q.
                rbind (case map_of es ''where'' of
                    Some (DObj wes) \<Rightarrow> run_script select_target (clause_entries (Some dl) (\<lambda>c. c) wes) q
                  | _ \<Rightarrow> Inr q) (\<lambda>sub. Inr (Sub (compile_select sub))))))"
| "resolveSubqueryTarget dial d = Inr (dto_operand d)"
  by pat_completeness auto

termination
proof (relation "measure (case_sum
      (case_sum (case_sum (\<lambda>(_, _, es). 2 * entries_size es) (\<lambda>(_, _, ds). 2 * size_list size ds))
                (case_sum (\<lambda>(_, _, ds). 2 * size_list size ds) (\<lambda>(_, _, es). 2 * entries_size es)))
      (case_sum (case_sum (\<lambda>(_, _, _, _, d). 2 * size d + 1) (\<lambda>(_, _, _, _, es). 2 * entries_size es + 1))
                (case_sum (\<lambda>(_, _, _, ds). 2 * size_list size ds + 1) (\<lambda>(_, d). 2 * size d))))", goal_cases)
qed (auto dest!: map_of_size)

definition compileWhere ::
  "'b where_target \<Rightarrow> (string \<Rightarrow> string) \<Rightarrow> (string \<times> dto) list option \<Rightarrow> 'b \<Rightarrow> js_error + 'b" where
  "compileWhere t cn clause b = (case clause of
     None \<Rightarrow> Inr b
   | Some es \<Rightarrow> run_script t (clause_entries (wt_dialect t b) cn es) b)"

section \<open>Ordering and limits\<close>

record order_spec =
  os_column :: string
  os_dir :: "direction option"

definition dir_of :: "order_spec \<Rightarrow> direction" where
  "dir_of o' = (case os_dir o' of None \<Rightarrow> Asc | Some d \<Rightarrow> d)"

fun order_loop_by :: "(string \<Rightarrow> string) \<Rightarrow> order_spec list \<Rightarrow> select_query \<Rightarrow> js_error + select_query" where
  "order_loop_by cn [] q = Inr q"
| "order_loop_by cn (item # rest) q =
     rbind (orderBy q (OrderColumn (cn (os_column item))) (dir_of item)) (order_loop_by cn rest)"

definition applyOrderBy ::
  "(string \<Rightarrow> string) \<Rightarrow> order_spec list option \<Rightarrow> string option \<Rightarrow> select_query \<Rightarrow> js_error + select_query" where
  "applyOrderBy cn order pk q =
     (let cols = opt_default [] order;
          cols' = (case pk of
              Some k \<Rightarrow> if k \<noteq> [] \<and> k \<notin> set (map os_column cols) then cols @ [\<lparr>os_column = k, os_dir = Some Asc\<rparr>] else cols
            | None \<Rightarrow> cols)
      in order_loop_by cn cols' q)"

text \<open>
  A page as it arrives: the three optional properties are own properties or not, and an own property may
  still be \<open>undefined\<close>.
\<close>

datatype page_mode = ModeOffset | ModeCursor | ModeOther

record page =
  pg_mode :: page_mode
  pg_limit :: int
  pg_offset :: "jsval option"
  pg_after :: "jsval option"
  pg_before :: "jsval option"

definition applyPagination :: "page option \<Rightarrow> select_query \<Rightarrow> select_query" where
  "applyPagination p q = (case p of
     None \<Rightarrow> q
   | Some pg \<Rightarrow>
       let limited = sq_limit q (pg_limit pg) in
       (case (pg_mode pg, pg_offset pg) of
          (ModeOffset, Some (JNum (IntNum k))) \<Rightarrow> sq_offset limited k
        | _ \<Rightarrow> limited))"

section \<open>Keyset pages\<close>

text \<open>
  \<open>BranchTarget\<close> wraps a builder and remembers whether its first call is still to come, which is then made
  with OR unless the branch is the first one. It offers no exists, no membership and no dialect, and its
  \<open>orWhere\<close> is its \<open>where\<close>.
\<close>

definition branch_connector :: "bool \<Rightarrow> connector" where
  "branch_connector firstCall = (if firstCall then Or else And)"

definition branch_target :: "'b where_target \<Rightarrow> ('b \<times> bool) where_target" where
  "branch_target t = \<lparr>
     wt_where = (\<lambda>conn col op v (b, firstCall).
       rbind (wt_where t (branch_connector firstCall) col op v b) (\<lambda>b'. Inr (b', False))),
     wt_group = (\<lambda>conn. case conn of
         And \<Rightarrow> Some (\<lambda>ps (b, firstCall). case wt_group t (branch_connector firstCall) of
             None \<Rightarrow> Inl (PlainError ''keyset filters require predicate-group support'')
           | Some f \<Rightarrow> rbind (f ps b) (\<lambda>b'. Inr (b', False)))
       | Or \<Rightarrow> None),
     wt_exists = (\<lambda>conn isNot. None),
     wt_in = (\<lambda>conn neg. None),
     wt_dialect = (\<lambda>_. None)\<rparr>"

definition cursor_value :: "(string \<times> jsval) list \<Rightarrow> string \<Rightarrow> operand" where
  "cursor_value vals col = Val (opt_default JUndefined (map_of vals col))"

fun keyset_equal ::
  "'b where_target \<Rightarrow> (string \<Rightarrow> string) \<Rightarrow> (string \<times> jsval) list \<Rightarrow> order_spec list \<Rightarrow> 'b \<times> bool \<Rightarrow> js_error + ('b \<times> bool)"
where
  "keyset_equal t cn vals [] x = Inr x"
| "keyset_equal t cn vals (item # rest) x =
     rbind (wt_where (branch_target t) And (cn (os_column item)) ''='' (cursor_value vals (os_column item)) x)
       (keyset_equal t cn vals rest)"

definition keyset_branch ::
  "'b where_target \<Rightarrow> (string \<Rightarrow> string) \<Rightarrow> (string \<times> jsval) list \<Rightarrow> (string \<times> dto) list option \<Rightarrow>
   ('b \<times> bool \<Rightarrow> js_error + ('b \<times> bool)) option \<Rightarrow> order_spec list \<Rightarrow> order_spec \<Rightarrow> 'b \<Rightarrow> js_error + 'b" where
  "keyset_branch t cn vals userWhere additionalWhere prior item b =
     rbind (compileWhere (branch_target t) cn userWhere (b, prior \<noteq> [])) (\<lambda>x1.
     rbind (case additionalWhere of None \<Rightarrow> Inr x1 | Some f \<Rightarrow> f x1) (\<lambda>x2.
     rbind (keyset_equal t cn vals prior x2) (\<lambda>x3.
     rbind (wt_where (branch_target t) And (cn (os_column item)) (if dir_of item = Desc then ''<'' else ''>'')
       (cursor_value vals (os_column item)) x3) (\<lambda>x4. Inr (fst x4)))))"

fun keyset_loop ::
  "'b where_target \<Rightarrow> (string \<Rightarrow> string) \<Rightarrow> (string \<times> jsval) list \<Rightarrow> (string \<times> dto) list option \<Rightarrow>
   ('b \<times> bool \<Rightarrow> js_error + ('b \<times> bool)) option \<Rightarrow> order_spec list \<Rightarrow> order_spec list \<Rightarrow> 'b \<Rightarrow> js_error + 'b" where
  "keyset_loop t cn vals uw aw prior [] b = Inr b"
| "keyset_loop t cn vals uw aw prior (item # rest) b =
     rbind (keyset_branch t cn vals uw aw prior item b) (keyset_loop t cn vals uw aw (prior @ [item]) rest)"

definition applyKeysetFilter ::
  "'b where_target \<Rightarrow> (string \<Rightarrow> string) \<Rightarrow> (string \<times> jsval) list \<Rightarrow> order_spec list \<Rightarrow> (string \<times> dto) list option \<Rightarrow>
   ('b \<times> bool \<Rightarrow> js_error + ('b \<times> bool)) option \<Rightarrow> 'b \<Rightarrow> js_error + 'b" where
  "applyKeysetFilter t cn vals order uw aw b = keyset_loop t cn vals uw aw [] order b"

end
