(* ===== verification/Filters.thy ===== *)
theory Filters
  imports WhereClause
begin

text \<open>
  \<open>packages/orm/src/filters/index.ts\<close>: the named predicates a repository adds to its reads and writes. The
  function of a filter is the application's; it is given by what it returns or throws for its parameters,
  and by the names it reads from them (what the proxy of \<open>trackedObject\<close> records). The check of a value
  against the type of its column (\<open>issuesFor\<close> with \<open>appTypeOf\<close>) is a parameter: the paths of the issues it
  finds. An em dash of a message is written as a hyphen.
\<close>

section \<open>Definitions and parameters\<close>

record filter_predicate =
  fp_col :: string
  fp_op :: string
  fp_value :: operand
  fp_connector :: "connector option"

record filter_def =
  fd_name :: string
  fd_table :: "string option"
  fd_schema :: "core_schema option"
  fd_where :: "jsval \<Rightarrow> (js_error + filter_predicate list) \<times> string list"
  fd_enabled :: "bool option"
  fd_appliesToWrites :: "bool option"

record filter_group =
  fg_name :: string
  fg_predicates :: "filter_predicate list"

record resolved_filters =
  rf_names :: "string list"
  rf_predicates :: "filter_predicate list"
  rf_groups :: "filter_group list"

record filter_options =
  fo_method :: string
  fo_table :: string
  fo_columnPrefix :: "string option"
  fo_schema :: "core_schema option"
  fo_qualify :: bool
  fo_knownNames :: "string list option"

definition missingParameterError :: "string \<Rightarrow> string \<Rightarrow> string list \<Rightarrow> js_error" where
  "missingParameterError name call names =
     (let rendered = join '', '' (if names = [] then [''parameters''] else names) in
      ValidationError (''filter `'' @ name @ ''` requires parameters ('' @ rendered @
        '') and none were supplied; pass them per call - '' @ call @ ''({ filters: { '' @ name @ '': { '' @ rendered @
        '' } } }) - or disable it by name''))"

fun own_value :: "jsval \<Rightarrow> string \<Rightarrow> jsval" where
  "own_value (JObj es) k = opt_default JUndefined (map_of es k)"
| "own_value v k = JUndefined"

fun is_record :: "jsval \<Rightarrow> bool" where
  "is_record (JObj es) = True"
| "is_record (JDate t) = True"
| "is_record v = False"

definition parametersFor ::
  "filter_def \<Rightarrow> jsval \<Rightarrow> bool \<Rightarrow> string \<Rightarrow> js_error + (filter_predicate list \<times> string list)" where
  "parametersFor f ov given call =
     (let raw = (if given \<and> \<not> is_nullish ov then ov else JObj []);
          (result, reads) = fd_where f raw;
          accessed = (if is_record raw then reads else []);
          missing = filter (\<lambda>n. \<not> is_record raw \<or> is_nullish (own_value raw n)) accessed
      in case result of
          Inl e \<Rightarrow> if accessed \<noteq> [] \<and> (\<not> given \<or> missing \<noteq> [])
                    then Inl (missingParameterError (fd_name f) call accessed) else Inl e
        | Inr predicates \<Rightarrow>
            if \<not> given \<and> accessed \<noteq> [] then Inl (missingParameterError (fd_name f) call accessed)
            else if missing \<noteq> [] then Inl (missingParameterError (fd_name f) call missing)
            else Inr (predicates, accessed))"

section \<open>Checked predicates\<close>

fun checked_values :: "string \<Rightarrow> operand \<Rightarrow> jsval list" where
  "checked_values operator (Val (JArr vs)) =
     (if operator = ''in'' \<or> operator = ''not in'' \<or> operator = ''nin'' then vs else [JArr vs])"
| "checked_values operator (Val v) = [v]"
| "checked_values operator (Sub c) = []"

definition indexed_paths :: "string \<Rightarrow> nat \<Rightarrow> string list" where
  "indexed_paths path n = (if n = 1 then [path] else map (\<lambda>i. path @ ''.'' @ show_nat i) [0..<n])"

definition validatePredicate ::
  "(ir_column \<Rightarrow> jsval \<Rightarrow> string \<Rightarrow> string list) \<Rightarrow> filter_def \<Rightarrow> filter_predicate \<Rightarrow> core_schema option \<Rightarrow>
   string list \<Rightarrow> js_error + ir_column" where
  "validatePredicate issues f p sch accessed =
     (case (case fd_schema f of Some s \<Rightarrow> Some s | None \<Rightarrow> sch) of
        None \<Rightarrow> Inl (ValidationError (''filter `'' @ fd_name f @ ''` targets `'' @ opt_default ''undefined'' (fd_table f) @
          ''` without a schema; provide FilterDef.schema so its columns and parameters can be validated''))
      | Some s \<Rightarrow>
          (let columnName = after_dot (fp_col p) in
           case find (\<lambda>c. ir_name c = columnName) (ir_columns s) of
             None \<Rightarrow> Inl (ValidationError (''filter `'' @ fd_name f @ ''` names column `'' @ fp_col p @
               ''`, which is not declared by `'' @ ir_table s @ ''`''))
           | Some irc \<Rightarrow>
               let operator = trim (to_lower (fp_op p)) in
               if operator = ''is null'' \<or> operator = ''is not null'' then Inr irc
               else
                 let path = ''filters.'' @ fd_name f @ ''.'' @ (case accessed of [] \<Rightarrow> columnName | n # _ \<Rightarrow> n);
                     values = checked_values operator (fp_value p);
                     found = concat (map (\<lambda>(v, path'). issues irc v path') (zip values (indexed_paths path (length values))))
                 in if found \<noteq> [] then Inl (ValidationError (''validation failed: '' @ join '', '' found)) else Inr irc))"

definition physical_filter_column :: "filter_options \<Rightarrow> string \<Rightarrow> ir_column \<Rightarrow> string" where
  "physical_filter_column o' col irc =
     (let dot = last_index CHR ''.'' col;
          physical = (case dot of None \<Rightarrow> physicalName irc | Some i \<Rightarrow> take (Suc i) col @ physicalName irc)
      in if fo_qualify o' \<and> dot = None then opt_default (fo_table o') (fo_columnPrefix o') @ ''.'' @ physical else physical)"

fun filter_group_loop ::
  "(ir_column \<Rightarrow> jsval \<Rightarrow> string \<Rightarrow> string list) \<Rightarrow> filter_options \<Rightarrow> filter_def \<Rightarrow> string list \<Rightarrow> bool \<Rightarrow>
   filter_predicate list \<Rightarrow> js_error + filter_predicate list" where
  "filter_group_loop issues o' f accessed first [] = Inr []"
| "filter_group_loop issues o' f accessed first (p # ps) =
     rbind (validatePredicate issues f p (fo_schema o') accessed) (\<lambda>irc.
     rbind (filter_group_loop issues o' f accessed False ps) (\<lambda>rest.
       Inr (p\<lparr>fp_col := physical_filter_column o' (fp_col p) irc,
              fp_connector := (if first then Some And else Some (opt_default And (fp_connector p)))\<rparr> # rest)))"

section \<open>\<open>resolveFilters\<close>\<close>

text \<open>The overrides of a call: a value per filter name, \<open>false\<close> to disable it.\<close>

definition filter_applies :: "(string \<times> jsval) list \<Rightarrow> filter_def \<Rightarrow> bool" where
  "filter_applies values f =
     (case map_of values (fd_name f) of
        Some v \<Rightarrow> v \<noteq> JBool False
      | None \<Rightarrow> fd_enabled f \<noteq> Some False)"

definition resolve_one ::
  "(ir_column \<Rightarrow> jsval \<Rightarrow> string \<Rightarrow> string list) \<Rightarrow> filter_options \<Rightarrow> (string \<times> jsval) list \<Rightarrow> filter_def \<Rightarrow>
   js_error + filter_group" where
  "resolve_one issues o' values f =
     (let given = (map_of values (fd_name f) \<noteq> None) in
      rbind (parametersFor f (opt_default JUndefined (map_of values (fd_name f))) given (fo_method o'))
        (\<lambda>(predicates, accessed).
          if predicates = [] then Inl (ValidationError (''filter `'' @ fd_name f @ ''` returned no predicates''))
          else rbind (filter_group_loop issues o' f accessed True predicates)
            (\<lambda>ps. Inr \<lparr>fg_name = fd_name f, fg_predicates = ps\<rparr>)))"

fun unique_names :: "string list \<Rightarrow> string list \<Rightarrow> string list" where
  "unique_names seen [] = []"
| "unique_names seen (n # ns) = (if n \<in> set seen then unique_names seen ns else n # unique_names (n # seen) ns)"

definition string_le :: "string \<Rightarrow> string \<Rightarrow> bool" where
  "string_le a b \<longleftrightarrow> map of_char a = (map of_char b :: nat list) \<or> (map of_char a, map of_char b) \<in> lexord {(m, n :: nat). m < n}"

definition unknownFilterError :: "string \<Rightarrow> string list \<Rightarrow> js_error" where
  "unknownFilterError name known = ValidationError (''unknown filter `'' @ name @ ''`; declared filters: '' @
     (if known = [] then ''(none)'' else join '', '' (sort_by string_le known)))"

definition resolveFilters ::
  "(ir_column \<Rightarrow> jsval \<Rightarrow> string \<Rightarrow> string list) \<Rightarrow> filter_def list \<Rightarrow> (string \<times> jsval) list option \<Rightarrow> filter_options \<Rightarrow>
   js_error + resolved_filters" where
  "resolveFilters issues defs overrides o' =
     (let values = opt_default [] overrides;
          known = unique_names [] (opt_default (map fd_name defs) (fo_knownNames o')) in
      case find (\<lambda>n. n \<notin> set known) (map fst values) of
        Some n \<Rightarrow> Inl (unknownFilterError n known)
      | None \<Rightarrow> rbind (map_result (resolve_one issues o' values) (filter (filter_applies values) defs)) (\<lambda>groups.
          Inr \<lparr>rf_names = unique_names [] (map fg_name groups),
               rf_predicates = concat (map fg_predicates groups), rf_groups = groups\<rparr>))"

section \<open>Applying resolved filters\<close>

definition fp_predicate :: "filter_predicate \<Rightarrow> predicate" where
  "fp_predicate p = Comparison (fp_col p) (fp_op p) (fp_value p) (fp_connector p)"

definition needsGrouping :: "filter_predicate list \<Rightarrow> bool" where
  "needsGrouping ps \<longleftrightarrow> (\<exists>p \<in> set (tl ps). fp_connector p = Some Or)"

definition filtersAsPredicates :: "resolved_filters \<Rightarrow> predicate list" where
  "filtersAsPredicates r = concat (map (\<lambda>g.
     if needsGrouping (fg_predicates g) then [Group (map fp_predicate (fg_predicates g)) (Some And)]
     else map fp_predicate (fg_predicates g)) (rf_groups r))"

fun filter_wheres :: "'b where_target \<Rightarrow> filter_predicate list \<Rightarrow> 'b \<Rightarrow> js_error + 'b" where
  "filter_wheres t [] b = Inr b"
| "filter_wheres t (p # ps) b =
     rbind (wt_where t And (fp_col p) (fp_op p) (fp_value p) b) (filter_wheres t ps)"

fun apply_groups :: "'b where_target \<Rightarrow> filter_group list \<Rightarrow> 'b \<Rightarrow> js_error + 'b" where
  "apply_groups t [] b = Inr b"
| "apply_groups t (g # gs) b = rbind
     (if needsGrouping (fg_predicates g) then
        (case wt_group t And of
           None \<Rightarrow> Inl (ValidationError ''this statement builder cannot represent a grouped filter predicate'')
         | Some f \<Rightarrow> f (map fp_predicate (fg_predicates g)) b)
      else filter_wheres t (fg_predicates g) b)
     (apply_groups t gs)"

definition applyResolvedFilters :: "'b where_target \<Rightarrow> resolved_filters \<Rightarrow> 'b \<Rightarrow> js_error + 'b" where
  "applyResolvedFilters t r b = apply_groups t (rf_groups r) b"

end
