(* ===== verification/WhereMeaning.thy ===== *)
theory WhereMeaning
  imports Filters
begin

text \<open>
  What a predicate list means to the database, and what the folds of \<open>WhereClause\<close> and \<open>Filters\<close> add to it.
  The renderer writes the list in order without parentheses, so AND binds tighter than OR; a group is
  parenthesised. A row is kept when the whole condition is true, and as no NOT is written around a
  condition, the two-valued reading is exact: \<open>leaf\<close> says which single predicates the database finds true.
\<close>

section \<open>Predicate lists\<close>

fun or_of_ands :: "bool \<Rightarrow> (bool \<times> bool) list \<Rightarrow> bool" where
  "or_of_ands acc [] = acc"
| "or_of_ands acc ((starts, b) # xs) = (if starts then acc \<or> or_of_ands b xs else or_of_ands (acc \<and> b) xs)"

definition any_of :: "(bool \<times> bool) list \<Rightarrow> bool" where
  "any_of xs = (case xs of [] \<Rightarrow> True | (_, b) # rest \<Rightarrow> or_of_ands b rest)"

fun plain_leaf :: "predicate \<Rightarrow> predicate" where
  "plain_leaf (Comparison c op v _) = Comparison c op v None"
| "plain_leaf (Spatial f c v d _) = Spatial f c v d None"
| "plain_leaf (Match c v _) = Match c v None"
| "plain_leaf (Group ps _) = Group ps None"

fun truth :: "(predicate \<Rightarrow> bool) \<Rightarrow> predicate \<Rightarrow> bool"
and truths :: "(predicate \<Rightarrow> bool) \<Rightarrow> predicate list \<Rightarrow> (bool \<times> bool) list" where
  "truth leaf (Group ps c) = any_of (truths leaf ps)"
| "truth leaf (Comparison c op v k) = leaf (Comparison c op v None)"
| "truth leaf (Spatial f c v d k) = leaf (Spatial f c v d None)"
| "truth leaf (Match c v k) = leaf (Match c v None)"
| "truths leaf [] = []"
| "truths leaf (p # ps) = (connector_of p = Some Or, truth leaf p) # truths leaf ps"

definition accepts :: "(predicate \<Rightarrow> bool) \<Rightarrow> predicate list \<Rightarrow> bool" where
  "accepts leaf ps = any_of (truths leaf ps)"

lemma truths_map: "truths leaf ps = map (\<lambda>p. (connector_of p = Some Or, truth leaf p)) ps"
  by (induction ps) auto

lemma truth_group [simp]: "truth leaf (Group ps c) = accepts leaf ps"
  by (simp add: accepts_def)

declare truth.simps(1) [simp del]

abbreviation conjoined :: "predicate list \<Rightarrow> bool" where
  "conjoined ps \<equiv> list_all (\<lambda>p. connector_of p \<noteq> Some Or) ps"

lemma or_of_ands_conj: "list_all (\<lambda>x. \<not> fst x) xs \<Longrightarrow> or_of_ands acc xs \<longleftrightarrow> acc \<and> list_all snd xs"
  by (induction acc xs rule: or_of_ands.induct) auto

lemma or_of_ands_or: "or_of_ands acc (xs @ (True, b) # ys) \<longleftrightarrow> or_of_ands acc xs \<or> or_of_ands b ys"
  by (induction acc xs rule: or_of_ands.induct) auto

lemma any_of_conj: "list_all (\<lambda>x. \<not> fst x) (tl xs) \<Longrightarrow> any_of xs \<longleftrightarrow> list_all snd xs"
  by (cases xs) (simp_all add: any_of_def or_of_ands_conj split_beta)

lemma any_of_or: "xs \<noteq> [] \<Longrightarrow> any_of (xs @ (True, b) # ys) \<longleftrightarrow> any_of xs \<or> or_of_ands b ys"
  by (cases xs) (simp_all add: any_of_def or_of_ands_or split_beta)

lemma accepts_Nil [simp]: "accepts leaf []"
  by (simp add: accepts_def any_of_def)

lemma accepts_conjoined: "conjoined (tl ps) \<Longrightarrow> accepts leaf ps \<longleftrightarrow> list_all (truth leaf) ps"
  by (cases ps) (auto simp: accepts_def truths_map any_of_conj list.pred_map comp_def)

lemma accepts_append_conjoined:
  assumes "conjoined (tl ps)" and "conjoined qs"
  shows "accepts leaf (ps @ qs) \<longleftrightarrow> accepts leaf ps \<and> list_all (truth leaf) qs"
proof -
  have "conjoined (tl qs)" using assms(2) by (cases qs) simp_all
  with assms have "conjoined (tl (ps @ qs))" by (cases ps) simp_all
  from accepts_conjoined [OF this] accepts_conjoined [OF assms(1)] show ?thesis by simp
qed

lemma accepts_append_or:
  "ps \<noteq> [] \<Longrightarrow> connector_of q = Some Or \<Longrightarrow> conjoined qs \<Longrightarrow>
   accepts leaf (ps @ q # qs) \<longleftrightarrow> accepts leaf ps \<or> list_all (truth leaf) (q # qs)"
  by (simp add: accepts_def truths_map any_of_or or_of_ands_conj list.pred_map comp_def)

text \<open>Whatever follows, a first condition that is closed by an OR is enough.\<close>

lemma accepts_first_disjunct:
  "connector_of q = Some Or \<Longrightarrow> truth leaf p \<Longrightarrow> accepts leaf (p # q # qs)"
  by (simp add: accepts_def any_of_def)

lemma accepts_prefix_disjunct:
  assumes "ps \<noteq> []" and "connector_of q = Some Or" and "accepts leaf ps"
  shows "accepts leaf (ps @ q # qs)"
  using assms by (simp add: accepts_def truths_map any_of_or)

section \<open>The scripts of a where object\<close>

fun call_predicate :: "where_call \<Rightarrow> predicate" where
  "call_predicate (CallWhere conn col op v) = Comparison col op v (Some conn)"
| "call_predicate (CallIn conn neg col vs) =
     Comparison col (if neg then ''not in'' else ''in'') (Val (JArr vs)) (Some conn)"
| "call_predicate (CallExists conn isNot v) = Comparison [] (if isNot then ''NOT EXISTS'' else ''EXISTS'') v (Some conn)"

fun call_connector :: "where_call \<Rightarrow> connector" where
  "call_connector (CallWhere conn col op v) = conn"
| "call_connector (CallIn conn neg col vs) = conn"
| "call_connector (CallExists conn isNot v) = conn"

lemma connector_of_call [simp]: "connector_of (call_predicate c) = Some (call_connector c)"
  by (cases c) auto

lemma followed_calls: "c \<in> set (fst (followed a b)) \<Longrightarrow> c \<in> set (fst a) \<or> c \<in> set (fst b)"
  by (auto simp: followed_def split: option.splits)

lemma run_script_Inr:
  "run_script t s b = Inr b' \<longleftrightarrow> make_calls t (fst s) b = Inr b' \<and> snd s = None"
  by (auto simp: run_script_def result_simps split: option.splits)

lemma make_calls_append: "make_calls t (xs @ ys) b = rbind (make_calls t xs b) (make_calls t ys)"
  proof (induction xs arbitrary: b)
  case (Cons x xs)
  then show ?case by (cases "make_call t x b") simp_all
qed simp

text \<open>An object without an \<open>or\<close>, at its top and in the members of its \<open>and\<close>.\<close>

fun or_free :: "(string \<times> dto) list \<Rightarrow> bool" and or_free_all :: "dto list \<Rightarrow> bool" where
  "or_free [] = True"
| "or_free ((key, d) # es) =
     (key \<noteq> ''or'' \<and> (key = ''and'' \<longrightarrow> (case d of DArr ds \<Rightarrow> or_free_all ds | _ \<Rightarrow> True)) \<and> or_free es)"
| "or_free_all [] = True"
| "or_free_all (DObj es # ds) = (or_free es \<and> or_free_all ds)"
| "or_free_all (_ # ds) = or_free_all ds"

lemma add_call_connector: "c \<in> set (fst (add_call conn col op r)) \<Longrightarrow> call_connector c = conn"
  by (auto simp: add_call_def fails_def split: sum.splits)

lemma op_call_connector: "c \<in> set (fst (op_call conn col shown op d r)) \<Longrightarrow> call_connector c = conn"
  using add_call_connector [of c] by (auto simp: op_call_def fails_def split: if_splits option.splits)

lemma apply_ops_connector: "c \<in> set (fst (apply_ops dial conn col shown es)) \<Longrightarrow> call_connector c = conn"
proof (induction es)
  case (Cons e es)
  obtain op d where e: "e = (op, d)" by (cases e)
  from Cons.prems have "c \<in> set (fst (op_call conn col shown op d (resolveSubqueryTarget dial d))) \<or>
      c \<in> set (fst (apply_ops dial conn col shown es))" unfolding e apply_ops.simps by (rule followed_calls)
  with Cons.IH op_call_connector show ?case by blast
qed simp

lemma applyField_connector: "c \<in> set (fst (applyField dial conn col shown d)) \<Longrightarrow> call_connector c = conn"
proof (cases d)
  case (Plain v)
  then show "c \<in> set (fst (applyField dial conn col shown d)) \<Longrightarrow> ?thesis"
    by (cases v) (auto simp: fails_def dest: add_call_connector)
qed (auto simp: fails_def dest: add_call_connector apply_ops_connector split: if_splits)

lemma applyExists_connector: "c \<in> set (fst (applyExists dial isNot conn ds)) \<Longrightarrow> call_connector c = conn"
proof (induction ds)
  case (Cons d ds)
  from Cons.prems have "c \<in> set (fst (case resolveSubqueryTarget dial d of Inl e \<Rightarrow> fails e | Inr v \<Rightarrow> ([CallExists conn isNot v], None))) \<or>
      c \<in> set (fst (applyExists dial isNot conn ds))" unfolding applyExists.simps by (rule followed_calls)
  with Cons.IH show ?case by (auto simp: fails_def split: sum.splits)
qed simp

text \<open>One entry of a where object.\<close>

definition where_entry :: "dialect option \<Rightarrow> (string \<Rightarrow> string) \<Rightarrow> string \<Rightarrow> dto \<Rightarrow> script" where
  "where_entry dial cn key d =
     (if key = ''and'' then (if \<not> dto_truthy d then ([], None)
        else case d of DArr ds \<Rightarrow> clause_subs dial cn ds | Plain (JStr s) \<Rightarrow> ([], None) | _ \<Rightarrow> fails (TypeError ''and is not iterable''))
      else if key = ''or'' then (case d of
          DArr ds \<Rightarrow> or_groups dial cn ds
        | Plain v \<Rightarrow> if is_nullish v then ([], None)
            else (case v of JStr s \<Rightarrow> ([], None) | _ \<Rightarrow> fails (TypeError ''or is not iterable''))
        | _ \<Rightarrow> fails (TypeError ''or is not iterable''))
      else if key = ''exists'' \<or> key = ''notExists'' then (case d of
          DArr ds \<Rightarrow> applyExists dial (key = ''notExists'') And ds
        | _ \<Rightarrow> applyExists dial (key = ''notExists'') And [d])
      else applyField dial And (cn key) key d)"

lemma clause_entries_Cons: "clause_entries dial cn ((key, d) # es) = followed (where_entry dial cn key d) (clause_entries dial cn es)"
  by (simp add: where_entry_def)

lemma other_entry:
  assumes "key \<noteq> ''and'' \<and> key \<noteq> ''or''"
  shows "(\<exists>ds. where_entry dial cn key d = applyExists dial (key = ''notExists'') And ds) \<or>
    where_entry dial cn key d = applyField dial And (cn key) key d"
proof (cases "key = ''exists'' \<or> key = ''notExists''")
  case True
  with assms have "where_entry dial cn key d = applyExists dial (key = ''notExists'') And (case d of DArr ds \<Rightarrow> ds | _ \<Rightarrow> [d])"
    unfolding where_entry_def by (cases d) (simp_all only: if_True if_False simp_thms dto.case)
  then show ?thesis by blast
next
  case False
  with assms show ?thesis unfolding where_entry_def by (simp only: if_False simp_thms)
qed

lemmas clause_subs_Cons = clause_subs.simps(2)

lemma or_free_and:
  "or_free es \<Longrightarrow> c \<in> set (fst (clause_entries dial cn es)) \<Longrightarrow> call_connector c = And"
  "or_free_all ds \<Longrightarrow> c \<in> set (fst (clause_subs dial cn ds)) \<Longrightarrow> call_connector c = And"
proof (induction es and ds rule: or_free_or_free_all.induct)
  case (2 key d es)
  have entry: "c \<in> set (fst (where_entry dial cn key d)) \<Longrightarrow> call_connector c = And"
  proof (cases "key = ''and''")
    case True
    then show "c \<in> set (fst (where_entry dial cn key d)) \<Longrightarrow> ?thesis"
      using 2(1) [OF True] 2(3) by (cases d) (auto simp: where_entry_def fails_def split: if_splits jsval.splits)
  next
    case False
    with 2(3) have "key \<noteq> ''and'' \<and> key \<noteq> ''or''" by simp
    from other_entry [OF this] show "c \<in> set (fst (where_entry dial cn key d)) \<Longrightarrow> ?thesis"
      using applyExists_connector applyField_connector by metis
  qed
  from 2(4) have "c \<in> set (fst (where_entry dial cn key d)) \<or> c \<in> set (fst (clause_entries dial cn es))"
    unfolding clause_entries_Cons by (rule followed_calls)
  with entry 2 show ?case by auto
next
  case (4 es ds)
  from 4(4) have "c \<in> set (fst (clause_entries dial cn es)) \<or> c \<in> set (fst (clause_subs dial cn ds))"
    unfolding clause_subs_Cons by (rule followed_calls)
  with 4 show ?case by auto
qed auto

section \<open>Builders that only append\<close>

text \<open>
  On a builder over a trusted table the methods of a where target do not fail and append one predicate; the
  statements of a repository start from such a builder.
\<close>

locale where_builder =
  fixes t :: "'b where_target" and preds :: "'b \<Rightarrow> predicate list" and trusted :: "'b \<Rightarrow> bool"
  assumes where_adds: "trusted b \<Longrightarrow> \<exists>b'. wt_where t conn col op v b = Inr b' \<and> trusted b' \<and>
      preds b' = preds b @ [Comparison col op v (Some conn)]"
    and in_adds: "trusted b \<Longrightarrow> wt_in t conn neg = Some f \<Longrightarrow> \<exists>b'. f col vs b = Inr b' \<and> trusted b' \<and>
      preds b' = preds b @ [Comparison col (if neg then ''not in'' else ''in'') (Val (JArr vs)) (Some conn)]"
    and exists_adds: "trusted b \<Longrightarrow> wt_exists t conn isNot = Some g \<Longrightarrow> \<exists>b'. g v b = Inr b' \<and> trusted b' \<and>
      preds b' = preds b @ [Comparison [] (if isNot then ''NOT EXISTS'' else ''EXISTS'') v (Some conn)]"
    and group_adds: "trusted b \<Longrightarrow> wt_group t conn = Some h \<Longrightarrow> \<exists>b'. h ps b = Inr b' \<and> trusted b' \<and>
      preds b' = preds b @ [Group ps (Some conn)]"
begin

lemma where_result:
  "trusted b \<Longrightarrow> wt_where t conn col op v b = Inr b' \<Longrightarrow> trusted b' \<and> preds b' = preds b @ [Comparison col op v (Some conn)]"
  using where_adds [of b conn col op v] by auto

lemma call_result:
  assumes "trusted b" and "make_call t c b = Inr b'"
  shows "trusted b' \<and> preds b' = preds b @ [call_predicate c]"
proof (cases c)
  case (CallIn conn neg col vs)
  show ?thesis
  proof (cases "wt_in t conn neg")
    case (Some f)
    then show ?thesis using assms in_adds [OF assms(1) Some, of col vs] by (auto simp: CallIn)
  qed (use assms where_result in \<open>auto simp: CallIn\<close>)
next
  case (CallExists conn isNot v)
  then obtain g where "wt_exists t conn isNot = Some g" using assms(2) by (auto split: option.splits)
  then show ?thesis using assms exists_adds [OF assms(1), of conn isNot g v] by (auto simp: CallExists)
qed (use assms where_result in auto)

lemma calls_result:
  "trusted b \<Longrightarrow> make_calls t cs b = Inr b' \<Longrightarrow> trusted b' \<and> preds b' = preds b @ map call_predicate cs"
proof (induction cs arbitrary: b)
  case (Cons c cs)
  then obtain b1 where "make_call t c b = Inr b1" "make_calls t cs b1 = Inr b'" by (auto simp: result_simps)
  with Cons.IH [of b1] Cons.prems(1) call_result [of b c b1] show ?case by simp
qed simp

lemma compileWhere_result:
  assumes "trusted b" and "compileWhere t cn (Some es) b = Inr b'"
  shows "trusted b' \<and> preds b' = preds b @ map call_predicate (fst (clause_entries (wt_dialect t b) cn es))"
  using assms calls_result by (auto simp: compileWhere_def run_script_Inr)

lemma filter_wheres_result:
  "trusted b \<Longrightarrow> filter_wheres t ps b = Inr b' \<Longrightarrow>
   trusted b' \<and> preds b' = preds b @ map (\<lambda>p. Comparison (fp_col p) (fp_op p) (fp_value p) (Some And)) ps"
proof (induction ps arbitrary: b)
  case (Cons p ps)
  then obtain b1 where "wt_where t And (fp_col p) (fp_op p) (fp_value p) b = Inr b1" "filter_wheres t ps b1 = Inr b'"
    by (auto simp: result_simps)
  with Cons.IH [of b1] Cons.prems(1) where_result [of b And "fp_col p" "fp_op p" "fp_value p" b1] show ?case by simp
qed simp

end

definition group_predicates :: "filter_group \<Rightarrow> predicate list" where
  "group_predicates g = (if needsGrouping (fg_predicates g) then [Group (map fp_predicate (fg_predicates g)) (Some And)]
     else map (\<lambda>p. Comparison (fp_col p) (fp_op p) (fp_value p) (Some And)) (fg_predicates g))"

text \<open>What one filter asks of a row.\<close>

definition filter_holds :: "(predicate \<Rightarrow> bool) \<Rightarrow> filter_group \<Rightarrow> bool" where
  "filter_holds leaf g \<longleftrightarrow> accepts leaf (map fp_predicate (fg_predicates g))"

lemma truth_fp_predicate: "truth leaf (fp_predicate p) = leaf (Comparison (fp_col p) (fp_op p) (fp_value p) None)"
  by (simp add: fp_predicate_def)

lemma group_predicates_conjoined: "conjoined (group_predicates g)"
  by (auto simp: group_predicates_def list_all_iff)

lemma group_predicates_truth: "list_all (truth leaf) (group_predicates g) \<longleftrightarrow> filter_holds leaf g"
proof (cases "needsGrouping (fg_predicates g)")
  case False
  then have "conjoined (tl (map fp_predicate (fg_predicates g)))"
    by (auto simp: needsGrouping_def list_all_iff fp_predicate_def map_tl [symmetric])
  from accepts_conjoined [OF this] False show ?thesis
    by (simp add: filter_holds_def group_predicates_def list.pred_map comp_def truth_fp_predicate)
qed (simp add: filter_holds_def group_predicates_def)

context where_builder begin

lemma apply_groups_result:
  "trusted b \<Longrightarrow> apply_groups t gs b = Inr b' \<Longrightarrow> trusted b' \<and> preds b' = preds b @ concat (map group_predicates gs)"
proof (induction gs arbitrary: b)
  case (Cons g gs)
  then obtain b1 where b1: "apply_groups t gs b1 = Inr b'"
    "(if needsGrouping (fg_predicates g) then (case wt_group t And of
           None \<Rightarrow> Inl (ValidationError ''this statement builder cannot represent a grouped filter predicate'')
         | Some f \<Rightarrow> f (map fp_predicate (fg_predicates g)) b)
      else filter_wheres t (fg_predicates g) b) = Inr b1"
    by (auto simp: result_simps)
  have "trusted b1 \<and> preds b1 = preds b @ group_predicates g"
  proof (cases "needsGrouping (fg_predicates g)")
    case True
    then obtain h where h: "wt_group t And = Some h" using b1(2) by (auto split: option.splits)
    with True b1(2) group_adds [OF Cons.prems(1) h, of "map fp_predicate (fg_predicates g)"] show ?thesis
      by (auto simp: group_predicates_def)
  qed (use b1(2) filter_wheres_result [OF Cons.prems(1)] in \<open>auto simp: group_predicates_def\<close>)
  with Cons.IH [of b1] b1(1) show ?case by simp
qed simp

text \<open>The conjunction the repository means: the filters confine what the where object selects.\<close>

lemma filters_confine:
  assumes b: "trusted b" "preds b = []" and free: "or_free es"
    and w: "compileWhere t cn (Some es) b = Inr b1" and f: "applyResolvedFilters t r b1 = Inr b2"
  shows "accepts leaf (preds b2) \<longleftrightarrow> accepts leaf (preds b1) \<and> list_all (filter_holds leaf) (rf_groups r)"
proof -
  note r1 = compileWhere_result [OF b(1) w]
  note r2 = apply_groups_result [OF conjunct1 [OF r1] f [unfolded applyResolvedFilters_def]]
  have "conjoined (preds b1)"
    using r1 b(2) or_free_and(1) [OF free] by (auto simp: list_all_iff)
  then have "conjoined (tl (preds b1))" by (cases "preds b1") auto
  moreover have "conjoined (concat (map group_predicates (rf_groups r)))"
    using group_predicates_conjoined by (auto simp: list_all_iff)
  ultimately show ?thesis
    using accepts_append_conjoined r2 group_predicates_truth by (auto simp: list_all_iff)
qed

end

section \<open>The three builders\<close>

lemma mapColumn_trusted: "qb_names root = None \<Longrightarrow> mapColumn root c [] = Inr c"
  by (auto simp: mapColumn_def columnBinding_def Let_def split: option.splits)

lemma mapPredicates_trusted:
  "qb_names root = None \<Longrightarrow> js = [] \<Longrightarrow> mapPredicate root js p = Inr p"
  "qb_names root = None \<Longrightarrow> js = [] \<Longrightarrow> mapPredicates root js ps = Inr ps"
  by (induction root js p and root js ps rule: mapPredicate_mapPredicates.induct) (simp_all add: mapColumn_trusted)

definition select_preds :: "select_query \<Rightarrow> predicate list" where
  "select_preds q = or_empty (wheres (sq_state q))"

definition select_trusted :: "select_query \<Rightarrow> bool" where
  "select_trusted q \<longleftrightarrow> qb_names (binding (sq_state q)) = None \<and> or_empty (targets (sq_state q)) = []"

lemma select_preds_push [simp]: "select_preds (push_where q p) = select_preds q @ [p]"
  by (cases "wheres (sq_state q)") (simp_all add: select_preds_def push_where_def next_state_def appended_def or_empty_def)

lemma select_trusted_push [simp]: "select_trusted (push_where q p) = select_trusted q"
  by (simp add: select_trusted_def push_where_def next_state_def)

lemma column_trusted: "select_trusted q \<Longrightarrow> column q c = Inr c"
  by (simp add: column_def select_trusted_def mapColumn_trusted)

lemma add_predicate_trusted:
  "select_trusted q \<Longrightarrow> add_predicate q conn (FirstColumn col) (Some op) v = Inr (push_where q (Comparison col op v (Some conn)))"
  by (simp add: column_trusted)

lemma add_group_trusted: "select_trusted q \<Longrightarrow> add_group q conn ps = Inr (push_where q (Group ps (Some conn)))"
  by (simp add: add_group_def select_trusted_def mapPredicates_trusted)

interpretation select_where: where_builder select_target select_preds select_trusted
  by unfold_locales
    (auto simp: select_target_def select_in_def select_exists_def column_trusted add_group_trusted)

definition update_trusted :: "update_builder \<Rightarrow> bool" where
  "update_trusted b \<longleftrightarrow> qb_names (ub_binding b) = None"

interpretation update_where: where_builder update_target ub_wheres update_trusted
  by unfold_locales (auto simp: update_target_def update_trusted_def update_where_def update_whereIn_def
      update_whereNotIn_def update_whereGroup_def mapped_comparison_def mapColumn_trusted mapPredicates_trusted
      split: connector.splits if_splits)

definition delete_trusted :: "delete_builder \<Rightarrow> bool" where
  "delete_trusted b \<longleftrightarrow> qb_names (db_binding b) = None"

interpretation delete_where: where_builder delete_target db_wheres delete_trusted
  by unfold_locales (auto simp: delete_target_def delete_trusted_def delete_where_def delete_whereIn_def
      delete_whereNotIn_def delete_whereGroup_def mapped_comparison_def mapColumn_trusted mapPredicates_trusted
      split: connector.splits if_splits)

end
