(* ===== verification/Repository.thy ===== *)
theory Repository
  imports WhereMeaning
begin

text \<open>
  \<open>packages/orm/src/index.ts\<close>: the statements a repository builds, from its schema, its filters and the
  arguments of a call, up to the compiled query the driver gets. The rows that come back, the cache in front
  of them (\<open>CachedReads\<close>) and the population of relations are not part of this theory.

  A repository is the record of what its constructor resolved. \<open>rp_issues\<close> is the check of a value against
  the type of its column. Abort signals and the observer of queries are left out.
\<close>

record repository =
  rp_dialect :: dialect
  rp_schema :: core_schema
  rp_primaryKey :: "string list"
  rp_nullable :: "string list"
  rp_filters :: "filter_def list"
  rp_softDelete :: "string option"
  rp_issues :: "ir_column \<Rightarrow> jsval \<Rightarrow> string \<Rightarrow> string list"
  rp_telemetry :: bool

definition tableName :: "repository \<Rightarrow> string" where
  "tableName rp = physicalTable (rp_schema rp)"

definition table_target :: "repository \<Rightarrow> query_target" where
  "table_target rp = trustedTable (tableName rp) FtsUndefined"

section \<open>Names\<close>

definition physicalColumn_of :: "repository \<Rightarrow> string \<Rightarrow> string" where
  "physicalColumn_of rp c =
     (case map_of (columns_map (schema_names_of (rp_schema rp))) (after_dot c) of
        None \<Rightarrow> c
      | Some physical \<Rightarrow>
          (case last_index CHR ''.'' c of
             None \<Rightarrow> physical
           | Some i \<Rightarrow>
               let qualifier = take i c in
               (if qualifier = ir_table (rp_schema rp) \<or> qualifier = tableName rp then tableName rp else qualifier) @
                 ''.'' @ physical))"

definition physicalKeyColumns :: "repository \<Rightarrow> string list" where
  "physicalKeyColumns rp = map (\<lambda>c. opt_default c (map_of (columns_map (schema_names_of (rp_schema rp))) c)) (rp_primaryKey rp)"

definition renamed_columns :: "repository \<Rightarrow> bool" where
  "renamed_columns rp \<longleftrightarrow> (\<exists>c \<in> set (ir_columns (rp_schema rp)). ir_name c \<noteq> physicalName c)"

definition select_table :: "repository \<Rightarrow> js_error + select_query" where
  "select_table rp = new_query (rp_dialect rp) (table_target rp) None (rp_telemetry rp)"

definition selectEntity :: "repository \<Rightarrow> js_error + select_query" where
  "selectEntity rp = rbind (select_table rp) (\<lambda>q.
     if renamed_columns rp
     then select_columns q (Some (map (\<lambda>c. if ir_name c = physicalName c then SelColumn (physicalName c)
       else SelAliased (physicalName c) (ir_name c)) (ir_columns (rp_schema rp))))
     else Inr q)"

definition selectProperties :: "repository \<Rightarrow> string list \<Rightarrow> js_error + select_query" where
  "selectProperties rp ps =
     (let selected = map (\<lambda>p. if physicalColumn_of rp p = p then SelColumn p else SelAliased (physicalColumn_of rp p) p)
        (unique_names [] ps)
      in if selected = [] then selectEntity rp
         else rbind (select_table rp) (\<lambda>q. select_columns q (Some selected)))"

section \<open>Filters of a read and of a write\<close>

definition soft_delete_filter :: "repository \<Rightarrow> string \<Rightarrow> filter_def" where
  "soft_delete_filter rp col = \<lparr>fd_name = ''softDelete'', fd_table = Some (tableName rp), fd_schema = None,
     fd_where = (\<lambda>_. (Inr [\<lparr>fp_col = col, fp_op = ''is null'', fp_value = Val JUndefined, fp_connector = None\<rparr>], [])),
     fd_enabled = None, fd_appliesToWrites = None\<rparr>"

definition filterDefinitionsFor :: "repository \<Rightarrow> filter_def list" where
  "filterDefinitionsFor rp =
     (let defs = filter (\<lambda>f. fd_table f = Some (tableName rp)) (rp_filters rp) in
      case rp_softDelete rp of
        None \<Rightarrow> defs
      | Some col \<Rightarrow> if ''softDelete'' \<in> set (map fd_name defs) then defs else defs @ [soft_delete_filter rp col])"

definition knownFilterNames :: "filter_def list \<Rightarrow> string list \<Rightarrow> string list" where
  "knownFilterNames defs additional = unique_names [] (map fd_name defs @ additional)"

type_synonym overrides = "(string \<times> jsval) list option"

definition resolveReadFilters :: "repository \<Rightarrow> string \<Rightarrow> overrides \<Rightarrow> string list \<Rightarrow> js_error + resolved_filters" where
  "resolveReadFilters rp call ovs additional =
     (let defs = filterDefinitionsFor rp in
      resolveFilters (rp_issues rp) defs ovs
        \<lparr>fo_method = call, fo_table = tableName rp, fo_columnPrefix = Some (tableName rp), fo_schema = Some (rp_schema rp),
         fo_qualify = False, fo_knownNames = Some (knownFilterNames defs additional)\<rparr>)"

definition resolveWriteFilters :: "repository \<Rightarrow> string \<Rightarrow> overrides \<Rightarrow> string list \<Rightarrow> js_error + resolved_filters" where
  "resolveWriteFilters rp call ovs excluded =
     (let all = filterDefinitionsFor rp;
          defs = filter (\<lambda>f. fd_appliesToWrites f \<noteq> Some False \<and> fd_name f \<notin> set excluded) all in
      resolveFilters (rp_issues rp) defs ovs
        \<lparr>fo_method = call, fo_table = tableName rp, fo_columnPrefix = None, fo_schema = Some (rp_schema rp),
         fo_qualify = False, fo_knownNames = Some (knownFilterNames all [])\<rparr>)"

text \<open>
  \<open>compileRead\<close> up to its call of \<open>compile()\<close>: the filters are resolved before the query is built, and
  conjoined to it unless the query already carries them.
\<close>

definition filtered_read ::
  "resolved_filters \<Rightarrow> (resolved_filters \<Rightarrow> js_error + select_query) \<Rightarrow> bool \<Rightarrow> js_error + select_query" where
  "filtered_read resolved build filtersApplied = rbind (build resolved) (\<lambda>built.
     if filtersApplied then Inr built else applyResolvedFilters select_target resolved built)"

definition read_statement ::
  "repository \<Rightarrow> string \<Rightarrow> overrides \<Rightarrow> string list \<Rightarrow> (resolved_filters \<Rightarrow> js_error + select_query) \<Rightarrow> bool \<Rightarrow>
   js_error + select_query" where
  "read_statement rp call ovs additional build filtersApplied =
     rbind (resolveReadFilters rp call ovs additional) (\<lambda>r. filtered_read r build filtersApplied)"

definition compileRead ::
  "repository \<Rightarrow> string \<Rightarrow> overrides \<Rightarrow> string list \<Rightarrow> (resolved_filters \<Rightarrow> js_error + select_query) \<Rightarrow> bool \<Rightarrow>
   js_error + compiled_query" where
  "compileRead rp call ovs additional build filtersApplied =
     rbind (read_statement rp call ovs additional build filtersApplied) compile_select"

definition write_statement ::
  "'b where_target \<Rightarrow> repository \<Rightarrow> string \<Rightarrow> overrides \<Rightarrow> string list \<Rightarrow> js_error + 'b \<Rightarrow> js_error + 'b" where
  "write_statement t rp call ovs excluded build =
     rbind (resolveWriteFilters rp call ovs excluded) (\<lambda>r. rbind build (applyResolvedFilters t r))"

section \<open>Keys\<close>

fun isScalarKey :: "jsval \<Rightarrow> bool" where
  "isScalarKey (JStr s) = True"
| "isScalarKey (JNum n) = True"
| "isScalarKey (JBigint i) = True"
| "isScalarKey (JBool b) = True"
| "isScalarKey (JDate t) = True"
| "isScalarKey v = False"

fun describeKey :: "jsval \<Rightarrow> string" where
  "describeKey JNull = ''null''"
| "describeKey JUndefined = ''undefined''"
| "describeKey (JDate t) = ''a Date''"
| "describeKey (JArr vs) = ''an array''"
| "describeKey (JObj es) = ''an object''"
| "describeKey (JStr s) = ''a string''"
| "describeKey (JNum n) = ''a number''"
| "describeKey (JBigint i) = ''a bigint''"
| "describeKey (JBool b) = ''a boolean''"

definition requiredKeyColumns :: "repository \<Rightarrow> js_error + string list" where
  "requiredKeyColumns rp = (if rp_primaryKey rp = []
     then Inl (PlainError (''schema '' @ tableName rp @ '' has no primary key'')) else Inr (rp_primaryKey rp))"

definition keyValues :: "repository \<Rightarrow> jsval \<Rightarrow> string \<Rightarrow> js_error + jsval list" where
  "keyValues rp ident call = rbind (requiredKeyColumns rp) (\<lambda>keyColumns.
     case keyColumns of
       [keyColumn] \<Rightarrow>
         if keyColumn = [] then Inl (PlainError (''schema '' @ tableName rp @ '' has empty primary key column''))
         else if isScalarKey ident then Inr [ident]
         else Inl (ValidationError (tableName rp @ ''.'' @ call @ '' requires the value of '' @ dq_quoted keyColumn @ '', not '' @
           describeKey ident))
     | _ \<Rightarrow> (case ident of
         JObj es \<Rightarrow>
           (let missing = filter (\<lambda>c. opt_default JUndefined (map_of es c) = JUndefined) keyColumns in
            if missing \<noteq> []
            then Inl (ValidationError (tableName rp @ ''.'' @ call @ '' requires every key column; missing: '' @ join '', '' missing))
            else Inr (map (\<lambda>c. opt_default JUndefined (map_of es c)) keyColumns))
       | _ \<Rightarrow> Inl (ValidationError (tableName rp @ ''.'' @ call @ '' requires every key column; got '' @ describeKey ident @
           '', expected an object with ('' @ join '', '' keyColumns @ '')''))))"

fun key_wheres :: "'b where_target \<Rightarrow> (string \<times> jsval) list \<Rightarrow> 'b \<Rightarrow> js_error + 'b" where
  "key_wheres t [] b = Inr b"
| "key_wheres t ((c, v) # rest) b = rbind (wt_where t And c ''='' (Val v) b) (key_wheres t rest)"

definition keyWhere :: "'b where_target \<Rightarrow> repository \<Rightarrow> jsval \<Rightarrow> string \<Rightarrow> 'b \<Rightarrow> js_error + 'b" where
  "keyWhere t rp ident call b = rbind (keyValues rp ident call) (\<lambda>vs. key_wheres t (zip (physicalKeyColumns rp) vs) b)"

definition limitOne :: "repository \<Rightarrow> select_query \<Rightarrow> js_error + select_query" where
  "limitOne rp q =
     (if \<not> paginationRequiresOrder (traits (rp_dialect rp)) then Inr (sq_limit q 1)
      else
        let order = (if physicalKeyColumns rp \<noteq> [] then physicalKeyColumns rp
              else case ir_columns (rp_schema rp) of [] \<Rightarrow> [] | c # _ \<Rightarrow> [physicalName c])
        in if order = [] then Inl (PlainError (''schema '' @ tableName rp @ '' has no column available to order a first-row read''))
           else rbind (order_loop_by (\<lambda>c. c) (map (\<lambda>c. \<lparr>os_column = c, os_dir = Some Asc\<rparr>) order) q) (\<lambda>q'. Inr (sq_limit q' 1)))"

section \<open>Reads\<close>

text \<open>\<open>populate\<close> stands for the names of the filters of the relations a read populates (\<open>populateFilterNames\<close>).\<close>

definition where_read :: "repository \<Rightarrow> (string \<times> dto) list option \<Rightarrow> js_error + select_query" where
  "where_read rp clause = rbind (selectEntity rp) (compileWhere select_target (physicalColumn_of rp) clause)"

definition findById :: "repository \<Rightarrow> jsval \<Rightarrow> overrides \<Rightarrow> string list \<Rightarrow> js_error + select_query" where
  "findById rp ident ovs populate = read_statement rp ''findById'' ovs populate
     (\<lambda>_. rbind (rbind (selectEntity rp) (keyWhere select_target rp ident ''findById'')) (limitOne rp)) False"

definition firstMatching :: "repository \<Rightarrow> (string \<times> dto) list \<Rightarrow> overrides \<Rightarrow> string list \<Rightarrow> js_error + select_query" where
  "firstMatching rp clause ovs populate = read_statement rp ''findOne'' ovs populate
     (\<lambda>_. rbind (where_read rp (Some clause)) (limitOne rp)) False"

definition find_read :: "repository \<Rightarrow> (string \<times> dto) list \<Rightarrow> overrides \<Rightarrow> string list \<Rightarrow> js_error + select_query" where
  "find_read rp clause ovs populate = read_statement rp ''find'' ovs populate (\<lambda>_. where_read rp (Some clause)) False"

definition findAll :: "repository \<Rightarrow> overrides \<Rightarrow> string list \<Rightarrow> js_error + select_query" where
  "findAll rp ovs populate = read_statement rp ''findAll'' ovs populate (\<lambda>_. selectEntity rp) False"

definition stream_read :: "repository \<Rightarrow> (string \<times> dto) list option \<Rightarrow> overrides \<Rightarrow> js_error + select_query" where
  "stream_read rp clause ovs = read_statement rp ''stream'' ovs [] (\<lambda>_. where_read rp clause) False"

definition count_read :: "repository \<Rightarrow> (string \<times> dto) list option \<Rightarrow> overrides \<Rightarrow> js_error + select_query" where
  "count_read rp clause ovs = read_statement rp ''count'' ovs []
     (\<lambda>_. rbind (select_table rp) (\<lambda>q. rbind (aggregate q AggCount ''*'' ''count'')
        (compileWhere select_target (physicalColumn_of rp) clause))) False"

definition exists_read :: "repository \<Rightarrow> (string \<times> dto) list option \<Rightarrow> overrides \<Rightarrow> js_error + select_query" where
  "exists_read rp clause ovs =
     (case physicalKeyColumns rp @ map physicalName (ir_columns (rp_schema rp)) of
        [] \<Rightarrow> Inl (PlainError (''schema '' @ tableName rp @ '' has no column to test for existence''))
      | firstColumn # _ \<Rightarrow> read_statement rp ''exists'' ovs []
          (\<lambda>_. rbind (select_table rp) (\<lambda>q. rbind (select_columns q (Some [SelColumn firstColumn]))
             (\<lambda>q1. rbind (compileWhere select_target (physicalColumn_of rp) clause q1) (limitOne rp)))) False)"

text \<open>
  \<open>[LOADER_ENTITY_BATCH]\<close>: the keys of a batch without repetitions, in chunks of as many as the dialect's
  parameter limit allows, one statement per chunk. A composite key becomes one equality per column, the
  first of each further tuple attached with OR.
\<close>

fun tuple_wheres :: "bool \<Rightarrow> (string \<times> jsval) list \<Rightarrow> select_query \<Rightarrow> js_error + select_query" where
  "tuple_wheres opens [] q = Inr q"
| "tuple_wheres opens ((c, v) # rest) q =
     rbind (if opens then orWhere q (FirstColumn c) (Some ''='') (Val v) else sq_where q (FirstColumn c) (Some ''='') (Val v))
       (tuple_wheres False rest)"

fun chunk_wheres :: "repository \<Rightarrow> bool \<Rightarrow> jsval list \<Rightarrow> select_query \<Rightarrow> js_error + select_query" where
  "chunk_wheres rp first [] q = Inr q"
| "chunk_wheres rp first (ident # idents) q = rbind (keyValues rp ident ''findById'') (\<lambda>vs.
     rbind (tuple_wheres (\<not> first) (zip (map (physicalColumn_of rp) (rp_primaryKey rp)) vs) q) (chunk_wheres rp False idents))"

definition batch_builder :: "repository \<Rightarrow> jsval list \<Rightarrow> js_error + select_query" where
  "batch_builder rp chunk = rbind (selectEntity rp) (\<lambda>q.
     case rp_primaryKey rp of
       [c] \<Rightarrow> if c = [] then Inl (PlainError (''schema '' @ tableName rp @ '' has empty primary key column''))
              else whereIn q (physicalColumn_of rp c) chunk
     | _ \<Rightarrow> chunk_wheres rp True chunk q)"

definition batch_chunks :: "repository \<Rightarrow> jsval list \<Rightarrow> js_error + jsval list list" where
  "batch_chunks rp idents = chunkArray (sanitizeKeys idents)
     (max 1 (paramLimit (traits (rp_dialect rp)) div int (length (rp_primaryKey rp))))"

definition loader_statement :: "repository \<Rightarrow> resolved_filters \<Rightarrow> jsval list \<Rightarrow> js_error + select_query" where
  "loader_statement rp r chunk = filtered_read r (\<lambda>_. batch_builder rp chunk) False"

definition loader_batch :: "repository \<Rightarrow> jsval list \<Rightarrow> js_error + select_query list" where
  "loader_batch rp idents =
     (if sanitizeKeys idents = [] then Inr []
      else rbind (requiredKeyColumns rp) (\<lambda>_. rbind (resolveReadFilters rp ''loader.load'' None []) (\<lambda>r.
        rbind (batch_chunks rp idents) (map_result (loader_statement rp r)))))"

text \<open>
  The statement of \<open>childrenByParent\<close> for one chunk of parent keys; the composite case is a predicate group.
\<close>

definition tuple_predicates :: "bool \<Rightarrow> string list \<Rightarrow> jsval list \<Rightarrow> predicate list" where
  "tuple_predicates first cs vs = map (\<lambda>(i, c, v). Comparison c ''='' (Val v) (Some (if \<not> first \<and> i = 0 then Or else And)))
     (zip [0..<length cs] (zip cs vs))"

fun tuples_predicates :: "bool \<Rightarrow> string list \<Rightarrow> jsval list list \<Rightarrow> predicate list" where
  "tuples_predicates first cs [] = []"
| "tuples_predicates first cs (vs # rest) = tuple_predicates first cs vs @ tuples_predicates False cs rest"

definition children_builder :: "string list \<Rightarrow> jsval list list \<Rightarrow> select_query \<Rightarrow> js_error + select_query" where
  "children_builder cs chunk q = (case cs of
     [c] \<Rightarrow> if c = [] then Inl (PlainError ''relation resolved an empty target key'')
            else whereIn q c (map (\<lambda>vs. opt_default JUndefined (case vs of [] \<Rightarrow> None | v # _ \<Rightarrow> Some v)) chunk)
   | _ \<Rightarrow> whereGroup q (tuples_predicates True cs chunk))"

section \<open>Lists\<close>

text \<open>
  \<open>list\<close> up to the compiled query. \<open>decode\<close> is \<open>decodeCursor\<close>, given as an argument; a direction
  is one of the two by its type, and a missing one is \<open>asc\<close>.
\<close>

record list_query =
  lq_where :: "(string \<times> dto) list option"
  lq_select :: "string list option"
  lq_order :: "order_spec list option"
  lq_page :: "page option"

definition check_page :: "page option \<Rightarrow> js_error + unit" where
  "check_page p = (case p of
     None \<Rightarrow> Inr ()
   | Some pg \<Rightarrow>
       let after = (pg_after pg \<noteq> None); before = (pg_before pg \<noteq> None) in
       (if pg_mode pg \<noteq> ModeOffset \<and> pg_mode pg \<noteq> ModeCursor
        then Inl (PlainError ''Invalid pagination: mode must be offset or cursor'')
        else if (pg_mode pg = ModeOffset \<and> (after \<or> before)) \<or>
          (pg_mode pg = ModeCursor \<and> (pg_offset pg \<noteq> None \<or> (after \<and> before)))
        then Inl (PlainError ''Invalid pagination: offset and cursor directions are mutually exclusive'')
        else Inr ()))"

fun add_keys :: "string list \<Rightarrow> order_spec list \<Rightarrow> order_spec list" where
  "add_keys [] order = order"
| "add_keys (c # cs) order =
     (if c \<in> set (map os_column order) then add_keys cs order
      else add_keys cs (order @ [\<lparr>os_column = c, os_dir = Some Asc\<rparr>]))"

definition effective_order :: "repository \<Rightarrow> list_query \<Rightarrow> js_error + order_spec list" where
  "effective_order rp lq = rbind (requiredKeyColumns rp) (\<lambda>keys.
     Inr (add_keys keys (map (\<lambda>i. i\<lparr>os_dir := Some (dir_of i)\<rparr>) (opt_default [] (lq_order lq)))))"

definition cursor_mode :: "list_query \<Rightarrow> bool" where
  "cursor_mode lq = (case lq_page lq of None \<Rightarrow> False | Some pg \<Rightarrow> pg_mode pg = ModeCursor)"

definition check_cursor_order :: "repository \<Rightarrow> order_spec list \<Rightarrow> js_error + unit" where
  "check_cursor_order rp order =
     (if \<not> distinct (map os_column order) then Inl (PlainError ''Invalid cursor: duplicate ordering column'')
      else case find (\<lambda>c. c \<notin> set (map ir_name (ir_columns (rp_schema rp))) \<or> c \<in> set (rp_nullable rp)) (map os_column order) of
          None \<Rightarrow> Inr ()
        | Some c \<Rightarrow> Inl (PlainError (''Invalid cursor: ordering requires a defined non-null column '' @ dq_quoted c)))"

definition reverse_page :: "list_query \<Rightarrow> bool" where
  "reverse_page lq = (case lq_page lq of None \<Rightarrow> False
     | Some pg \<Rightarrow> pg_mode pg = ModeCursor \<and> opt_default JUndefined (pg_before pg) \<noteq> JUndefined)"

definition page_token :: "list_query \<Rightarrow> jsval" where
  "page_token lq = (case lq_page lq of None \<Rightarrow> JUndefined
     | Some pg \<Rightarrow> if pg_mode pg \<noteq> ModeCursor then JUndefined
         else if opt_default JUndefined (pg_after pg) \<noteq> JUndefined then opt_default JUndefined (pg_after pg)
         else opt_default JUndefined (pg_before pg))"

fun opposite :: "direction \<Rightarrow> direction" where
  "opposite Asc = Desc"
| "opposite Desc = Asc"

definition reversed_order :: "order_spec list \<Rightarrow> order_spec list" where
  "reversed_order = map (\<lambda>i. i\<lparr>os_dir := Some (opposite (dir_of i))\<rparr>)"

definition list_start :: "repository \<Rightarrow> list_query \<Rightarrow> order_spec list \<Rightarrow> order_spec list \<Rightarrow> js_error + select_query" where
  "list_start rp lq order queryOrder = rbind
     (case lq_select lq of None \<Rightarrow> selectEntity rp | Some ps \<Rightarrow> selectProperties rp (ps @ map os_column order))
     (applyOrderBy (physicalColumn_of rp) (Some queryOrder) None)"

definition list_conditions ::
  "repository \<Rightarrow> list_query \<Rightarrow> order_spec list \<Rightarrow> (string \<times> jsval) list option \<Rightarrow> resolved_filters \<Rightarrow> select_query \<Rightarrow>
   js_error + select_query" where
  "list_conditions rp lq queryOrder cursorValues r q =
     (case cursorValues of
       Some vals \<Rightarrow> rbind (applyKeysetFilter select_target (physicalColumn_of rp) vals queryOrder (lq_where lq)
           (Some (applyResolvedFilters (branch_target select_target) r)) q) (\<lambda>q'.
         Inr (case lq_page lq of None \<Rightarrow> q' | Some pg \<Rightarrow> sq_limit q' (pg_limit pg + 1)))
     | None \<Rightarrow> rbind (compileWhere select_target (physicalColumn_of rp) (lq_where lq) q) (\<lambda>q'.
         Inr (case lq_page lq of None \<Rightarrow> q' | Some pg \<Rightarrow> applyPagination (Some (pg\<lparr>pg_limit := pg_limit pg + 1\<rparr>)) q')))"

definition list_builder ::
  "repository \<Rightarrow> list_query \<Rightarrow> order_spec list \<Rightarrow> order_spec list \<Rightarrow> (string \<times> jsval) list option \<Rightarrow> resolved_filters \<Rightarrow>
   js_error + select_query" where
  "list_builder rp lq order queryOrder cursorValues r =
     rbind (list_start rp lq order queryOrder) (list_conditions rp lq queryOrder cursorValues r)"

definition list_page ::
  "repository \<Rightarrow> list_query \<Rightarrow> overrides \<Rightarrow> string list \<Rightarrow> order_spec list \<Rightarrow> (string \<times> jsval) list option \<Rightarrow>
   js_error + select_query" where
  "list_page rp lq ovs populate order cursorValues =
     read_statement rp ''list'' ovs populate
       (list_builder rp lq order (if reverse_page lq then reversed_order order else order) cursorValues)
       (cursorValues \<noteq> None)"

text \<open>The order of a cursor page is checked before its token is read.\<close>

definition list_ordered ::
  "(jsval \<Rightarrow> order_spec list \<Rightarrow> js_error + (string \<times> jsval) list) \<Rightarrow> repository \<Rightarrow> list_query \<Rightarrow> overrides \<Rightarrow> string list \<Rightarrow>
   order_spec list \<Rightarrow> js_error + select_query" where
  "list_ordered decode rp lq ovs populate order =
     rbind (if cursor_mode lq then check_cursor_order rp order else Inr ()) (\<lambda>_.
     rbind (if page_token lq = JUndefined then Inr None
            else rbind (decode (page_token lq) order) (\<lambda>vals. Inr (Some vals))) (list_page rp lq ovs populate order))"

definition list_read ::
  "(jsval \<Rightarrow> order_spec list \<Rightarrow> js_error + (string \<times> jsval) list) \<Rightarrow> repository \<Rightarrow> list_query \<Rightarrow> overrides \<Rightarrow> string list \<Rightarrow>
   js_error + select_query" where
  "list_read decode rp lq ovs populate =
     rbind (check_page (lq_page lq)) (\<lambda>_. rbind (effective_order rp lq) (list_ordered decode rp lq ovs populate))"

section \<open>Writes\<close>

definition plain_columns :: "string list \<Rightarrow> projected list option" where
  "plain_columns cs = Some (map PlainColumn cs)"

definition returning_key :: "repository \<Rightarrow> projected list option" where
  "returning_key rp = plain_columns (if physicalKeyColumns rp = [] then [''*''] else physicalKeyColumns rp)"

definition delete_start :: "repository \<Rightarrow> js_error + delete_builder" where
  "delete_start rp = deleteFrom (table_target rp) (rp_telemetry rp)"

definition update_start :: "repository \<Rightarrow> (string \<times> set_value) list \<Rightarrow> js_error + update_builder" where
  "update_start rp row = rbind (updateTable (table_target rp) (rp_telemetry rp)) (\<lambda>b. update_set b row)"

definition returns :: "repository \<Rightarrow> returning_statement \<Rightarrow> bool" where
  "returns rp st = dialectSupportsReturning (rp_dialect rp) st"

definition hard_delete_many :: "repository \<Rightarrow> (string \<times> dto) list \<Rightarrow> overrides \<Rightarrow> js_error + delete_builder" where
  "hard_delete_many rp clause ovs =
     write_statement delete_target rp ''deleteMany'' ovs [] (rbind (rbind (delete_start rp)
       (compileWhere delete_target (physicalColumn_of rp) (Some clause)))
       (\<lambda>b. if returns rp StDelete then delete_returning b (returning_key rp) else Inr b))"

definition update_many ::
  "repository \<Rightarrow> string \<Rightarrow> (string \<times> set_value) list \<Rightarrow> (string \<times> dto) list \<Rightarrow> overrides \<Rightarrow> js_error + update_builder" where
  "update_many rp call row clause ovs =
     write_statement update_target rp call ovs [] (rbind (rbind (update_start rp row)
       (compileWhere update_target (physicalColumn_of rp) (Some clause)))
       (\<lambda>b. if returns rp StUpdate then update_returning b (returning_key rp) else Inr b))"

text \<open>\<open>deleteMany\<close> of a schema with a soft delete sets its column to the time of the call instead.\<close>

definition deleteMany ::
  "repository \<Rightarrow> int \<Rightarrow> (string \<times> dto) list \<Rightarrow> overrides \<Rightarrow> js_error + (delete_builder + update_builder)" where
  "deleteMany rp now clause ovs = (case rp_softDelete rp of
     None \<Rightarrow> rbind (hard_delete_many rp clause ovs) (\<lambda>b. Inr (Inl b))
   | Some col \<Rightarrow> rbind (update_many rp ''deleteMany'' [(physicalColumn_of rp col, Literal (JDate now))] clause ovs) (\<lambda>b. Inr (Inr b)))"

definition hardDelete :: "repository \<Rightarrow> jsval \<Rightarrow> overrides \<Rightarrow> js_error + delete_builder" where
  "hardDelete rp ident ovs = write_statement delete_target rp ''hardDelete'' ovs []
     (rbind (rbind (delete_start rp) (keyWhere delete_target rp ident ''hardDelete''))
       (\<lambda>b. if returns rp StDelete then delete_returning b (plain_columns (physicalKeyColumns rp)) else Inr b))"

definition keyed_update ::
  "repository \<Rightarrow> string \<Rightarrow> (string \<times> set_value) list \<Rightarrow> jsval \<Rightarrow> overrides \<Rightarrow> string list \<Rightarrow> js_error + update_builder" where
  "keyed_update rp call row ident ovs excluded = write_statement update_target rp call ovs excluded
     (rbind (rbind (update_start rp row) (keyWhere update_target rp ident call))
       (\<lambda>b. if returns rp StUpdate then update_returning b (plain_columns (physicalKeyColumns rp)) else Inr b))"

definition delete_one :: "repository \<Rightarrow> int \<Rightarrow> jsval \<Rightarrow> overrides \<Rightarrow> js_error + (delete_builder + update_builder)" where
  "delete_one rp now ident ovs = (case rp_softDelete rp of
     None \<Rightarrow> rbind (write_statement delete_target rp ''delete'' ovs []
       (rbind (rbind (delete_start rp) (keyWhere delete_target rp ident ''delete''))
         (\<lambda>b. if returns rp StDelete then delete_returning b (plain_columns (physicalKeyColumns rp)) else Inr b))) (\<lambda>b. Inr (Inl b))
   | Some col \<Rightarrow> rbind (keyed_update rp ''delete'' [(physicalColumn_of rp col, Literal (JDate now))] ident ovs []) (\<lambda>b. Inr (Inr b)))"

definition restore :: "repository \<Rightarrow> jsval \<Rightarrow> overrides \<Rightarrow> js_error + update_builder" where
  "restore rp ident ovs = (case rp_softDelete rp of
     None \<Rightarrow> Inl (ValidationError (tableName rp @ ''.restore requires a SoftDelete<'' @ [CHR 0x27] @ ''column'' @ [CHR 0x27] @ ''> declaration''))
   | Some col \<Rightarrow> keyed_update rp ''restore'' [(physicalColumn_of rp col, Literal JNull)] ident ovs [''softDelete''])"

end
