(* ===== verification/KeysetPages.thy ===== *)
theory KeysetPages
  imports Repository
begin

text \<open>
  What a keyset page selects. A branch of the page adds its predicates through \<open>BranchTarget\<close>, the first
  of them attached with OR unless the branch is the first; without an OR of the caller the branches are the
  disjuncts of one condition, and their disjunction is the lexicographic order of the list.
\<close>

section \<open>What a branch adds\<close>

fun set_connector :: "connector \<Rightarrow> predicate \<Rightarrow> predicate" where
  "set_connector c (Comparison col op v _) = Comparison col op v (Some c)"
| "set_connector c (Spatial f col v d _) = Spatial f col v d (Some c)"
| "set_connector c (Match col v _) = Match col v (Some c)"
| "set_connector c (Group ps _) = Group ps (Some c)"

lemma truth_set_connector [simp]: "truth leaf (set_connector c p) = truth leaf p"
  by (cases p) simp_all

lemma connector_of_set [simp]: "connector_of (set_connector c p) = Some c"
  by (cases p) simp_all

fun as_branch :: "bool \<Rightarrow> predicate list \<Rightarrow> predicate list" where
  "as_branch opens [] = []"
| "as_branch opens (p # ps) = set_connector (branch_connector opens) p # as_branch False ps"

lemma as_branch_append: "as_branch opens (ps @ qs) = as_branch opens ps @ as_branch (opens \<and> ps = []) qs"
  by (induction opens ps rule: as_branch.induct) simp_all

lemma as_branch_truth [simp]: "list_all (truth leaf) (as_branch opens ps) \<longleftrightarrow> list_all (truth leaf) ps"
  by (induction opens ps rule: as_branch.induct) simp_all

lemma as_branch_conjoined: "conjoined (as_branch False ps)"
  by (induction ps) (simp_all add: branch_connector_def)

lemma accepts_first_branch: "accepts leaf (as_branch False ps) \<longleftrightarrow> list_all (truth leaf) ps"
proof -
  have "conjoined (tl (as_branch False ps))" by (cases ps) (simp_all add: as_branch_conjoined)
  from accepts_conjoined [OF this] show ?thesis by simp
qed

lemma accepts_further_branch:
  assumes "qs \<noteq> []" and "ps \<noteq> []"
  shows "accepts leaf (qs @ as_branch True ps) \<longleftrightarrow> accepts leaf qs \<or> list_all (truth leaf) ps"
proof (cases ps)
  case (Cons p rest)
  have "connector_of (set_connector (branch_connector True) p) = Some Or" by (simp add: branch_connector_def)
  from accepts_append_or [OF assms(1) this as_branch_conjoined, of leaf rest] show ?thesis by (simp add: Cons)
qed (use assms in simp)

context where_builder begin

abbreviation added :: "predicate list \<Rightarrow> 'b \<times> bool \<Rightarrow> 'b \<times> bool \<Rightarrow> bool" where
  "added ps x y \<equiv> trusted (fst y) \<and> preds (fst y) = preds (fst x) @ as_branch (snd x) ps \<and>
     snd y = (snd x \<and> ps = [])"

lemma added_trans: "added ps x y \<Longrightarrow> added qs y z \<Longrightarrow> added (ps @ qs) x z"
  by (auto simp: as_branch_append)

lemma branch_where:
  assumes "trusted (fst x)" and "wt_where (branch_target t) conn col op v x = Inr y"
  shows "added [Comparison col op v (Some And)] x y"
  using assms where_result [of "fst x" "branch_connector (snd x)" col op v]
  by (cases x) (auto simp: branch_target_def result_simps)

lemma branch_group:
  assumes "trusted (fst x)" and "wt_group (branch_target t) And = Some h" and "h ps x = Inr y"
  shows "added [Group ps (Some And)] x y"
proof (cases "wt_group t (branch_connector (snd x))")
  case None
  with assms(2,3) show ?thesis by (cases x) (auto simp: branch_target_def)
next
  case (Some f)
  from group_adds [OF assms(1) Some, of ps] assms(2,3) Some show ?thesis
    by (cases x) (auto simp: branch_target_def result_simps)
qed

lemma branch_target_simps:
  "wt_in (branch_target t) conn neg = None" "wt_exists (branch_target t) conn isNot = None"
  "wt_dialect (branch_target t) x = None"
  by (simp_all add: branch_target_def)

lemma branch_call:
  assumes "trusted (fst x)" and "make_call (branch_target t) c x = Inr y"
  shows "added [call_predicate c] x y"
proof (cases c)
  case (CallWhere conn col op v)
  with assms(2) have "wt_where (branch_target t) conn col op v x = Inr y" by simp
  from branch_where [OF assms(1) this] show ?thesis by (simp add: CallWhere)
next
  case (CallIn conn neg col vs)
  with assms(2) have "wt_where (branch_target t) conn col (if neg then ''not in'' else ''in'') (Val (JArr vs)) x = Inr y"
    by (simp add: branch_target_simps)
  from branch_where [OF assms(1) this] show ?thesis by (simp add: CallIn)
next
  case (CallExists conn isNot v)
  with assms(2) show ?thesis by (simp add: branch_target_simps)
qed

lemma branch_calls:
  "trusted (fst x) \<Longrightarrow> make_calls (branch_target t) cs x = Inr y \<Longrightarrow> added (map call_predicate cs) x y"
proof (induction cs arbitrary: x)
  case (Cons c cs)
  then obtain z where z: "make_call (branch_target t) c x = Inr z" "make_calls (branch_target t) cs z = Inr y"
    by (auto simp: result_simps)
  from branch_call [OF Cons.prems(1) z(1)] Cons.IH [OF _ z(2)] have "added ([call_predicate c] @ map call_predicate cs) x y"
    by (intro added_trans) auto
  then show ?case by simp
qed simp

lemma branch_filter_wheres:
  "trusted (fst x) \<Longrightarrow> filter_wheres (branch_target t) ps x = Inr y \<Longrightarrow>
   added (map (\<lambda>p. Comparison (fp_col p) (fp_op p) (fp_value p) (Some And)) ps) x y"
proof (induction ps arbitrary: x)
  case (Cons p ps)
  then obtain z where z: "wt_where (branch_target t) And (fp_col p) (fp_op p) (fp_value p) x = Inr z"
    "filter_wheres (branch_target t) ps z = Inr y" by (auto simp: result_simps)
  from branch_where [OF Cons.prems(1) z(1)] Cons.IH [OF _ z(2)]
  have "added ([Comparison (fp_col p) (fp_op p) (fp_value p) (Some And)] @
      map (\<lambda>p. Comparison (fp_col p) (fp_op p) (fp_value p) (Some And)) ps) x y"
    by (intro added_trans) auto
  then show ?case by simp
qed simp

lemma branch_filters:
  "trusted (fst x) \<Longrightarrow> apply_groups (branch_target t) gs x = Inr y \<Longrightarrow> added (concat (map group_predicates gs)) x y"
proof (induction gs arbitrary: x)
  case (Cons g gs)
  let ?t = "branch_target t"
  obtain z where z: "apply_groups ?t gs z = Inr y"
    "(if needsGrouping (fg_predicates g) then (case wt_group ?t And of
           None \<Rightarrow> Inl (ValidationError ''this statement builder cannot represent a grouped filter predicate'')
         | Some f \<Rightarrow> f (map fp_predicate (fg_predicates g)) x)
      else filter_wheres ?t (fg_predicates g) x) = Inr z"
    using Cons.prems(2) by (auto simp: result_simps)
  have "added (group_predicates g) x z"
  proof (cases "needsGrouping (fg_predicates g)")
    case True
    then obtain h where "wt_group ?t And = Some h" and "h (map fp_predicate (fg_predicates g)) x = Inr z"
      using z(2) by (auto split: option.splits)
    from branch_group [OF Cons.prems(1) this] True show ?thesis by (simp add: group_predicates_def)
  qed (use z(2) branch_filter_wheres [OF Cons.prems(1)] in \<open>auto simp: group_predicates_def\<close>)
  with Cons.IH [OF _ z(1)] have "added (group_predicates g @ concat (map group_predicates gs)) x y"
    by (intro added_trans) auto
  then show ?case by simp
qed simp

lemma branch_equal:
  "trusted (fst x) \<Longrightarrow> keyset_equal t cn vals items x = Inr y \<Longrightarrow>
   added (map (\<lambda>i. Comparison (cn (os_column i)) ''='' (cursor_value vals (os_column i)) (Some And)) items) x y"
proof (induction items arbitrary: x)
  case (Cons i items)
  then obtain z where z: "wt_where (branch_target t) And (cn (os_column i)) ''='' (cursor_value vals (os_column i)) x = Inr z"
    "keyset_equal t cn vals items z = Inr y" by (auto simp: result_simps)
  from branch_where [OF Cons.prems(1) z(1)] Cons.IH [OF _ z(2)]
  have "added ([Comparison (cn (os_column i)) ''='' (cursor_value vals (os_column i)) (Some And)] @
      map (\<lambda>i. Comparison (cn (os_column i)) ''='' (cursor_value vals (os_column i)) (Some And)) items) x y"
    by (intro added_trans) auto
  then show ?case by simp
qed simp

end

section \<open>The disjunction of the branches\<close>

definition where_calls :: "(string \<Rightarrow> string) \<Rightarrow> (string \<times> dto) list option \<Rightarrow> where_call list" where
  "where_calls cn clause = (case clause of None \<Rightarrow> [] | Some es \<Rightarrow> fst (clause_entries None cn es))"

definition ties :: "(predicate \<Rightarrow> bool) \<Rightarrow> (string \<Rightarrow> string) \<Rightarrow> (string \<times> jsval) list \<Rightarrow> order_spec \<Rightarrow> bool" where
  "ties leaf cn vals i = leaf (Comparison (cn (os_column i)) ''='' (cursor_value vals (os_column i)) None)"

definition beyond :: "(predicate \<Rightarrow> bool) \<Rightarrow> (string \<Rightarrow> string) \<Rightarrow> (string \<times> jsval) list \<Rightarrow> order_spec \<Rightarrow> bool" where
  "beyond leaf cn vals i =
     leaf (Comparison (cn (os_column i)) (if dir_of i = Desc then ''<'' else ''>'') (cursor_value vals (os_column i)) None)"

text \<open>The row comes after the cursor in the lexicographic order of the columns.\<close>

fun row_after :: "(predicate \<Rightarrow> bool) \<Rightarrow> (string \<Rightarrow> string) \<Rightarrow> (string \<times> jsval) list \<Rightarrow> order_spec list \<Rightarrow> bool" where
  "row_after leaf cn vals [] = False"
| "row_after leaf cn vals (i # rest) = (beyond leaf cn vals i \<or> ties leaf cn vals i \<and> row_after leaf cn vals rest)"

definition branch_list ::
  "(string \<Rightarrow> string) \<Rightarrow> (string \<times> jsval) list \<Rightarrow> (string \<times> dto) list option \<Rightarrow> resolved_filters \<Rightarrow> order_spec list \<Rightarrow>
   order_spec \<Rightarrow> predicate list" where
  "branch_list cn vals uw r prior i =
     map call_predicate (where_calls cn uw) @ concat (map group_predicates (rf_groups r)) @
     map (\<lambda>i. Comparison (cn (os_column i)) ''='' (cursor_value vals (os_column i)) (Some And)) prior @
     [Comparison (cn (os_column i)) (if dir_of i = Desc then ''<'' else ''>'') (cursor_value vals (os_column i)) (Some And)]"

text \<open>What every branch repeats: the where object and the filters.\<close>

definition base_holds ::
  "(predicate \<Rightarrow> bool) \<Rightarrow> (string \<Rightarrow> string) \<Rightarrow> (string \<times> dto) list option \<Rightarrow> resolved_filters \<Rightarrow> bool" where
  "base_holds leaf cn uw r \<longleftrightarrow> list_all (truth leaf) (map call_predicate (where_calls cn uw)) \<and>
     list_all (filter_holds leaf) (rf_groups r)"

lemma groups_truth: "list_all (truth leaf) (concat (map group_predicates gs)) \<longleftrightarrow> list_all (filter_holds leaf) gs"
  using group_predicates_truth [of leaf] by (induction gs) auto

lemma branch_list_truth:
  "list_all (truth leaf) (branch_list cn vals uw r prior i) \<longleftrightarrow>
   base_holds leaf cn uw r \<and> list_all (ties leaf cn vals) prior \<and> beyond leaf cn vals i"
  by (simp add: branch_list_def base_holds_def groups_truth list.pred_map comp_def ties_def [abs_def] beyond_def)

lemma branch_list_Cons [simp]: "branch_list cn vals uw r prior i \<noteq> []"
  by (simp add: branch_list_def)

context where_builder begin

lemma keyset_branch_result:
  assumes "trusted b"
    and "keyset_branch t cn vals uw (Some (applyResolvedFilters (branch_target t) r)) prior i b = Inr b'"
  shows "trusted b' \<and> preds b' = preds b @ as_branch (prior \<noteq> []) (branch_list cn vals uw r prior i)"
proof -
  let ?t = "branch_target t"
  obtain x1 x2 x3 x4 where s: "compileWhere ?t cn uw (b, prior \<noteq> []) = Inr x1"
      "apply_groups ?t (rf_groups r) x1 = Inr x2" "keyset_equal t cn vals prior x2 = Inr x3"
      "wt_where ?t And (cn (os_column i)) (if dir_of i = Desc then ''<'' else ''>'') (cursor_value vals (os_column i)) x3 = Inr x4"
      "b' = fst x4"
    using assms(2) by (auto simp: keyset_branch_def applyResolvedFilters_def result_simps)
  have "make_calls ?t (where_calls cn uw) (b, prior \<noteq> []) = Inr x1"
    using s(1) by (cases uw) (auto simp: compileWhere_def where_calls_def branch_target_simps run_script_Inr)
  from branch_calls [OF _ this] assms(1) have a1: "added (map call_predicate (where_calls cn uw)) (b, prior \<noteq> []) x1" by simp
  from branch_filters [OF _ s(2)] a1 have a2: "added (concat (map group_predicates (rf_groups r))) x1 x2" by blast
  from branch_equal [OF _ s(3)] a2 have a3: "added (map (\<lambda>i. Comparison (cn (os_column i)) ''='' (cursor_value vals (os_column i)) (Some And)) prior) x2 x3" by blast
  from branch_where [OF _ s(4)] a3 have a4: "added [Comparison (cn (os_column i)) (if dir_of i = Desc then ''<'' else ''>'') (cursor_value vals (os_column i)) (Some And)] x3 x4" by blast
  from added_trans [OF a1 added_trans [OF a2 added_trans [OF a3 a4]]]
  have "added (branch_list cn vals uw r prior i) (b, prior \<noteq> []) x4" by (simp only: branch_list_def append_assoc)
  then show ?thesis by (simp add: s(5))
qed

lemma keyset_loop_result:
  assumes "trusted b" and "prior \<noteq> []" and "preds b \<noteq> []"
    and "keyset_loop t cn vals uw (Some (applyResolvedFilters (branch_target t) r)) prior order b = Inr b'"
  shows "accepts leaf (preds b') \<longleftrightarrow>
    accepts leaf (preds b) \<or> base_holds leaf cn uw r \<and> list_all (ties leaf cn vals) prior \<and> row_after leaf cn vals order"
  using assms
proof (induction order arbitrary: prior b)
  case (Cons i rest)
  then obtain b1 where b1: "keyset_branch t cn vals uw (Some (applyResolvedFilters (branch_target t) r)) prior i b = Inr b1"
      "keyset_loop t cn vals uw (Some (applyResolvedFilters (branch_target t) r)) (prior @ [i]) rest b1 = Inr b'"
    by (auto simp: result_simps)
  note r1 = keyset_branch_result [OF Cons.prems(1) b1(1)]
  have "accepts leaf (preds b1) \<longleftrightarrow> accepts leaf (preds b) \<or>
      base_holds leaf cn uw r \<and> list_all (ties leaf cn vals) prior \<and> beyond leaf cn vals i"
    using r1 Cons.prems(2) accepts_further_branch [OF Cons.prems(3) branch_list_Cons, of leaf cn vals uw r prior i]
    by (simp add: branch_list_truth)
  with Cons.IH [OF _ _ _ b1(2)] r1 Cons.prems(3) show ?case by auto
qed simp

lemma keyset_result:
  assumes b: "trusted b" "preds b = []" and "order \<noteq> []"
    and "applyKeysetFilter t cn vals order uw (Some (applyResolvedFilters (branch_target t) r)) b = Inr b'"
  shows "accepts leaf (preds b') \<longleftrightarrow> base_holds leaf cn uw r \<and> row_after leaf cn vals order"
proof -
  from assms(3) obtain i rest where o': "order = i # rest" by (cases order) auto
  then obtain b1 where b1: "keyset_branch t cn vals uw (Some (applyResolvedFilters (branch_target t) r)) [] i b = Inr b1"
      "keyset_loop t cn vals uw (Some (applyResolvedFilters (branch_target t) r)) [i] rest b1 = Inr b'"
    using assms(4) by (auto simp: applyKeysetFilter_def result_simps)
  from keyset_branch_result [OF b(1) b1(1)] b(2)
  have r1: "trusted b1" "preds b1 = as_branch False (branch_list cn vals uw r [] i)" by auto
  have "accepts leaf (preds b1) \<longleftrightarrow> base_holds leaf cn uw r \<and> beyond leaf cn vals i"
    unfolding r1(2) accepts_first_branch branch_list_truth by simp
  moreover have "preds b1 \<noteq> []" using r1(2) by (cases "branch_list cn vals uw r [] i") (use branch_list_Cons in auto)
  ultimately show ?thesis
    using keyset_loop_result [OF r1(1) _ _ b1(2), of leaf] o' by auto
qed

end

end
