(* ===== verification/RepositoryMeaning.thy ===== *)
theory RepositoryMeaning
  imports KeysetPages
begin

text \<open>
  The statements of a repository start on a trusted table without predicates; the methods that are not
  about predicates leave them as they are. From this the meaning of each statement follows by the
  lemmas of the builders.
\<close>

section \<open>What keeps the predicates\<close>

definition same_where :: "select_query \<Rightarrow> select_query \<Rightarrow> bool" where
  "same_where q q' \<longleftrightarrow> binding (sq_state q') = binding (sq_state q) \<and> targets (sq_state q') = targets (sq_state q) \<and>
     wheres (sq_state q') = wheres (sq_state q) \<and> sq_dialect q' = sq_dialect q"

lemma same_whereD:
  "same_where q q' \<Longrightarrow> select_preds q' = select_preds q \<and> (select_trusted q' \<longleftrightarrow> select_trusted q) \<and> sq_dialect q' = sq_dialect q"
  by (simp add: same_where_def select_preds_def select_trusted_def)

lemma same_where_refl [simp]: "same_where q q"
  by (simp add: same_where_def)

lemma same_where_trans: "same_where a b \<Longrightarrow> same_where b c \<Longrightarrow> same_where a c"
  by (simp add: same_where_def)

lemma limit_same [simp]: "same_where q (sq_limit q n)" "same_where q (sq_offset q n)"
  by (simp_all add: same_where_def sq_limit_def sq_offset_def next_state_def)

lemma select_columns_same: "select_columns q cs = Inr q' \<Longrightarrow> same_where q q'"
  by (auto simp: select_columns_def same_where_def next_state_def result_simps split: option.splits)

lemma aggregate_same: "aggregate q fn c a = Inr q' \<Longrightarrow> same_where q q'"
  by (auto simp: aggregate_def same_where_def push_computed_def next_state_def result_simps)

lemma orderBy_same: "orderBy q (OrderColumn c) d = Inr q' \<Longrightarrow> same_where q q'"
  by (auto simp: same_where_def push_order_def next_state_def result_simps split: if_splits)

lemma order_loop_same: "order_loop_by cn items q = Inr q' \<Longrightarrow> same_where q q'"
proof (induction items arbitrary: q)
  case (Cons i items)
  then obtain q1 where "orderBy q (OrderColumn (cn (os_column i))) (dir_of i) = Inr q1" "order_loop_by cn items q1 = Inr q'"
    by (auto simp: result_simps)
  with Cons.IH [of q1] orderBy_same same_where_trans show ?case by blast
qed simp

lemma applyOrderBy_same: "applyOrderBy cn order pk q = Inr q' \<Longrightarrow> same_where q q'"
  unfolding applyOrderBy_def Let_def by (rule order_loop_same)

lemma limitOne_same:
  assumes "limitOne rp q = Inr q'"
  shows "same_where q q'"
proof -
  from assms consider "q' = sq_limit q 1" | cn items q1 where "order_loop_by cn items q = Inr q1" "q' = sq_limit q1 1"
    unfolding limitOne_def Let_def by (auto simp: result_simps simp del: order_loop_by.simps split: if_splits)
  then show ?thesis by cases (auto dest: order_loop_same intro: same_where_trans)
qed

lemma applyPagination_same [simp]: "same_where q (applyPagination p q)"
  by (auto simp: applyPagination_def Let_def split: option.split page_mode.split jsval.split jsnum.split
      intro: same_where_trans [OF limit_same(1) limit_same(2)])

section \<open>How the statements start\<close>

definition fresh :: "repository \<Rightarrow> select_query \<Rightarrow> bool" where
  "fresh rp q \<longleftrightarrow> select_trusted q \<and> select_preds q = [] \<and> sq_dialect q = rp_dialect rp"

lemma fresh_same: "fresh rp q \<Longrightarrow> same_where q q' \<Longrightarrow> fresh rp q'"
  using same_whereD [of q q'] by (simp add: fresh_def)

lemma select_table_fresh: "select_table rp = Inr q \<Longrightarrow> fresh rp q"
  by (auto simp: select_table_def new_query_def table_target_def trustedTable_def Let_def fresh_def select_trusted_def
      select_preds_def empty_select_def or_empty_def)

lemma selectEntity_fresh: "selectEntity rp = Inr q \<Longrightarrow> fresh rp q"
  by (auto simp: selectEntity_def result_simps split: if_splits
      intro: fresh_same [OF select_table_fresh] dest!: select_columns_same dest: select_table_fresh)

lemma selectProperties_fresh: "selectProperties rp ps = Inr q \<Longrightarrow> fresh rp q"
  by (auto simp: selectProperties_def Let_def result_simps split: if_splits
      intro: fresh_same [OF select_table_fresh] selectEntity_fresh dest!: select_columns_same)

lemma list_start_fresh: "list_start rp lq order queryOrder = Inr q \<Longrightarrow> fresh rp q"
  by (auto simp: list_start_def result_simps split: option.splits
      intro: fresh_same selectProperties_fresh selectEntity_fresh dest!: applyOrderBy_same)

lemma update_start_trusted: "update_start rp row = Inr b \<Longrightarrow> update_trusted b \<and> ub_wheres b = []"
  by (auto simp: update_start_def updateTable_def table_target_def trustedTable_def Let_def update_set_def
      update_trusted_def result_simps)

lemma delete_start_trusted: "delete_start rp = Inr b \<Longrightarrow> delete_trusted b \<and> db_wheres b = []"
  by (auto simp: delete_start_def deleteFrom_def table_target_def trustedTable_def Let_def delete_trusted_def result_simps)

lemma returning_keeps:
  "update_returning u cs = Inr u' \<Longrightarrow> ub_wheres u' = ub_wheres u \<and> update_trusted u' = update_trusted u"
  "delete_returning d cs = Inr d' \<Longrightarrow> db_wheres d' = db_wheres d \<and> delete_trusted d' = delete_trusted d"
  by (auto simp: update_returning_def delete_returning_def update_trusted_def delete_trusted_def result_simps)

section \<open>The filters of a call\<close>

lemma resolve_one_name: "resolve_one issues o' values f = Inr g \<Longrightarrow> fg_name g = fd_name f"
  by (auto simp: resolve_one_def Let_def result_simps split: if_splits)

lemma resolved_names:
  "map_result (resolve_one issues o' values) fs = Inr gs \<Longrightarrow> map fg_name gs = map fd_name fs"
proof (induction fs arbitrary: gs)
  case (Cons f fs)
  then show ?case using resolve_one_name by (auto simp: result_simps)
qed simp

lemma resolveFilters_names:
  "resolveFilters issues defs ovs o' = Inr r \<Longrightarrow>
   map fg_name (rf_groups r) = map fd_name (filter (filter_applies (opt_default [] ovs)) defs)"
  by (auto simp: resolveFilters_def Let_def result_simps dest: resolved_names split: option.splits)

text \<open>The filters that apply to a call, all of them, and what they resolve to.\<close>

definition call_filters :: "filter_def list \<Rightarrow> overrides \<Rightarrow> resolved_filters \<Rightarrow> bool" where
  "call_filters defs ovs r \<longleftrightarrow> map fg_name (rf_groups r) = map fd_name (filter (filter_applies (opt_default [] ovs)) defs)"

lemma resolveReadFilters_all: "resolveReadFilters rp call ovs extra = Inr r \<Longrightarrow> call_filters (filterDefinitionsFor rp) ovs r"
  unfolding call_filters_def resolveReadFilters_def Let_def by (rule resolveFilters_names)

definition write_filters :: "repository \<Rightarrow> filter_def list" where
  "write_filters rp = filter (\<lambda>f. fd_appliesToWrites f \<noteq> Some False) (filterDefinitionsFor rp)"

lemma resolveWriteFilters_all: "resolveWriteFilters rp call ovs [] = Inr r \<Longrightarrow> call_filters (write_filters rp) ovs r"
  unfolding call_filters_def resolveWriteFilters_def Let_def write_filters_def
  by (drule resolveFilters_names) simp

section \<open>Reads and writes under a where object\<close>

definition where_predicates :: "dialect option \<Rightarrow> (string \<Rightarrow> string) \<Rightarrow> (string \<times> dto) list option \<Rightarrow> predicate list" where
  "where_predicates dial cn clause =
     (case clause of None \<Rightarrow> [] | Some es \<Rightarrow> map call_predicate (fst (clause_entries dial cn es)))"

text \<open>
  The statement keeps exactly the rows that the where object and every filter of the call accept; \<open>resolved\<close>
  is the resolution of the filters, \<open>own\<close> are the predicates of the where object.
\<close>

definition confined ::
  "js_error + resolved_filters \<Rightarrow> filter_def list \<Rightarrow> overrides \<Rightarrow> predicate list \<Rightarrow> predicate list \<Rightarrow> bool" where
  "confined resolved defs ovs own preds \<longleftrightarrow> (\<exists>r. resolved = Inr r \<and> call_filters defs ovs r \<and>
     (\<forall>leaf. accepts leaf preds \<longleftrightarrow> accepts leaf own \<and> list_all (filter_holds leaf) (rf_groups r)))"

definition or_free_clause :: "(string \<times> dto) list option \<Rightarrow> bool" where
  "or_free_clause clause \<longleftrightarrow> (case clause of None \<Rightarrow> True | Some es \<Rightarrow> or_free es)"

lemma where_predicates_conjoined: "or_free_clause clause \<Longrightarrow> conjoined (where_predicates dial cn clause)"
  by (auto simp: or_free_clause_def where_predicates_def list_all_iff or_free_and(1) split: option.splits)

lemma conjoined_tl: "conjoined ps \<Longrightarrow> conjoined (tl ps)"
  by (cases ps) simp_all

context where_builder begin

lemma compileWhere_predicates:
  "trusted b \<Longrightarrow> compileWhere t cn clause b = Inr b' \<Longrightarrow>
   trusted b' \<and> preds b' = preds b @ where_predicates (wt_dialect t b) cn clause"
  using compileWhere_result [of b cn _ b'] by (cases clause) (auto simp: where_predicates_def compileWhere_def)

lemma applied_filters:
  assumes "trusted b" and "conjoined (preds b)" and "applyResolvedFilters t r b = Inr b'"
  shows "accepts leaf (preds b') \<longleftrightarrow> accepts leaf (preds b) \<and> list_all (filter_holds leaf) (rf_groups r)"
proof -
  from apply_groups_result [OF assms(1)] assms(3)
  have "preds b' = preds b @ concat (map group_predicates (rf_groups r))" by (simp add: applyResolvedFilters_def)
  moreover have "conjoined (concat (map group_predicates (rf_groups r)))"
    using group_predicates_conjoined by (auto simp: list_all_iff)
  ultimately show ?thesis
    using accepts_append_conjoined [OF conjoined_tl [OF assms(2)]] by (simp add: groups_truth)
qed

end

lemma read_confined:
  assumes r: "read_statement rp call ovs extra (\<lambda>_. build) False = Inr q"
    and build: "\<And>q0. build = Inr q0 \<Longrightarrow> select_trusted q0 \<and> select_preds q0 = own" and own: "conjoined own"
  shows "confined (resolveReadFilters rp call ovs extra) (filterDefinitionsFor rp) ovs own (select_preds q)"
proof -
  from r obtain r' q0 where r': "resolveReadFilters rp call ovs extra = Inr r'" and q0: "build = Inr q0"
    and q: "applyResolvedFilters select_target r' q0 = Inr q"
    by (auto simp: read_statement_def filtered_read_def result_simps)
  from select_where.applied_filters [OF _ _ q] build [OF q0] own resolveReadFilters_all [OF r'] r'
  show ?thesis unfolding confined_def by auto
qed

lemma fresh_where:
  "fresh rp q \<Longrightarrow> compileWhere select_target cn clause q = Inr q' \<Longrightarrow>
   select_trusted q' \<and> select_preds q' = where_predicates (Some (rp_dialect rp)) cn clause"
  using select_where.compileWhere_predicates [of q cn clause q'] by (auto simp: fresh_def select_target_def)

lemma where_read_predicates:
  "where_read rp clause = Inr q \<Longrightarrow>
   select_trusted q \<and> select_preds q = where_predicates (Some (rp_dialect rp)) (physicalColumn_of rp) clause"
  by (auto simp: where_read_def result_simps dest!: selectEntity_fresh dest: fresh_where)

lemma update_many_confined:
  assumes u: "update_many rp call row es ovs = Inr b" and free: "or_free es"
  shows "confined (resolveWriteFilters rp call ovs []) (write_filters rp) ovs
    (where_predicates None (physicalColumn_of rp) (Some es)) (ub_wheres b)"
proof -
  from u obtain r b0 b1 b2 where r: "resolveWriteFilters rp call ovs [] = Inr r"
    and s: "update_start rp row = Inr b0" "compileWhere update_target (physicalColumn_of rp) (Some es) b0 = Inr b1"
    "(if returns rp StUpdate then update_returning b1 (returning_key rp) else Inr b1) = Inr b2"
    "applyResolvedFilters update_target r b2 = Inr b"
    by (auto simp: update_many_def write_statement_def result_simps)
  note b0 = update_start_trusted [OF s(1)]
  from update_where.compileWhere_predicates [OF conjunct1 [OF b0] s(2)] b0
  have b1: "update_trusted b1" "ub_wheres b1 = where_predicates None (physicalColumn_of rp) (Some es)"
    by (auto simp: update_target_def)
  then have b2: "update_trusted b2" "ub_wheres b2 = where_predicates None (physicalColumn_of rp) (Some es)"
    using s(3) returning_keeps(1) by (auto split: if_splits)
  have "conjoined (ub_wheres b2)" unfolding b2(2) by (rule where_predicates_conjoined) (simp add: or_free_clause_def free)
  from update_where.applied_filters [OF b2(1) this s(4)] b2(2) resolveWriteFilters_all [OF r] r
  show ?thesis unfolding confined_def by auto
qed

lemma hard_delete_confined:
  assumes d: "hard_delete_many rp es ovs = Inr b" and free: "or_free es"
  shows "confined (resolveWriteFilters rp ''deleteMany'' ovs []) (write_filters rp) ovs
    (where_predicates None (physicalColumn_of rp) (Some es)) (db_wheres b)"
proof -
  from d obtain r b0 b1 b2 where r: "resolveWriteFilters rp ''deleteMany'' ovs [] = Inr r"
    and s: "delete_start rp = Inr b0" "compileWhere delete_target (physicalColumn_of rp) (Some es) b0 = Inr b1"
    "(if returns rp StDelete then delete_returning b1 (returning_key rp) else Inr b1) = Inr b2"
    "applyResolvedFilters delete_target r b2 = Inr b"
    by (auto simp: hard_delete_many_def write_statement_def result_simps)
  note b0 = delete_start_trusted [OF s(1)]
  from delete_where.compileWhere_predicates [OF conjunct1 [OF b0] s(2)] b0
  have b1: "delete_trusted b1" "db_wheres b1 = where_predicates None (physicalColumn_of rp) (Some es)"
    by (auto simp: delete_target_def)
  then have b2: "delete_trusted b2" "db_wheres b2 = where_predicates None (physicalColumn_of rp) (Some es)"
    using s(3) returning_keeps(2) by (auto split: if_splits)
  have "conjoined (db_wheres b2)" unfolding b2(2) by (rule where_predicates_conjoined) (simp add: or_free_clause_def free)
  from delete_where.applied_filters [OF b2(1) this s(4)] b2(2) resolveWriteFilters_all [OF r] r
  show ?thesis unfolding confined_def by auto
qed

section \<open>The dialect of a script\<close>

text \<open>
  Only subqueries given by the name of a table need the dialect: a script that succeeds without one is the
  same with any.
\<close>

lemma followed_None: "snd (followed a b) = None \<longleftrightarrow> snd a = None \<and> snd b = None"
  by (auto simp: followed_def split: option.splits)

lemma fails_snd [simp]: "snd (fails e) = Some e"
  by (simp add: fails_def)

lemma add_call_snd: "snd (add_call conn col op r) = None \<longleftrightarrow> (\<exists>v. r = Inr v)"
  by (auto simp: add_call_def split: sum.splits)

lemma resolve_without_dialect:
  "resolveSubqueryTarget None d = Inr v \<Longrightarrow> resolveSubqueryTarget (Some dl) d = Inr v"
  by (cases d) (auto split: option.splits if_splits)

lemma op_call_without_dialect:
  assumes "snd (op_call conn col shown op d (resolveSubqueryTarget None d)) = None"
  shows "op_call conn col shown op d (resolveSubqueryTarget (Some dl) d) = op_call conn col shown op d (resolveSubqueryTarget None d)"
  using assms resolve_without_dialect
  by (cases "resolveSubqueryTarget None d") (auto simp: op_call_def add_call_def split: if_splits option.splits)

lemma apply_ops_without_dialect:
  "snd (apply_ops None conn col shown es) = None \<Longrightarrow> apply_ops (Some dl) conn col shown es = apply_ops None conn col shown es"
proof (induction es)
  case (Cons e es)
  obtain op d where e: "e = (op, d)" by (cases e)
  with Cons op_call_without_dialect  show ?case by (simp add: followed_None)
qed simp

lemma add_call_without_dialect:
  "snd (add_call conn col op (resolveSubqueryTarget None d)) = None \<Longrightarrow>
   add_call conn col op (resolveSubqueryTarget (Some dl) d) = add_call conn col op (resolveSubqueryTarget None d)"
  using resolve_without_dialect  by (auto simp: add_call_snd)

lemma applyField_without_dialect:
  assumes "snd (applyField None conn col shown d) = None"
  shows "applyField (Some dl) conn col shown d = applyField None conn col shown d"
proof (cases d)
  case (Plain v)
  with assms show ?thesis by (cases v) simp_all
next
  case (DObj es)
  let ?ref = "map_of es ''compile'' \<noteq> None \<or> map_of es ''table'' \<noteq> None"
  show ?thesis
  proof (cases ?ref)
    case True
    then have eq: "applyField x conn col shown (DObj es) = add_call conn col ''='' (resolveSubqueryTarget x (DObj es))" for x
      by (simp only: applyField.simps if_True)
    from assms show ?thesis unfolding DObj eq by (rule add_call_without_dialect)
  next
    case False
    then have eq: "applyField x conn col shown (DObj es) =
        (if es = [] then fails (empty_operators shown) else apply_ops x conn col shown es)" for x
      by (simp only: applyField.simps if_False)
    from assms show ?thesis unfolding DObj eq using apply_ops_without_dialect by (simp split: if_splits)
  qed
qed (use assms in simp_all)

lemma applyExists_without_dialect:
  "snd (applyExists None isNot conn ds) = None \<Longrightarrow> applyExists (Some dl) isNot conn ds = applyExists None isNot conn ds"
proof (induction ds)
  case (Cons d ds)
  then show ?case using resolve_without_dialect
    by (cases "resolveSubqueryTarget None d") (simp_all add: followed_None)
qed simp

text \<open>One entry of a member of an \<open>or\<close>.\<close>

definition or_entry :: "dialect option \<Rightarrow> (string \<Rightarrow> string) \<Rightarrow> string \<Rightarrow> dto \<Rightarrow> script" where
  "or_entry dial cn col d =
     (if col = ''exists'' \<or> col = ''notExists''
      then applyExists dial (col = ''notExists'') Or (case d of DArr ds \<Rightarrow> ds | _ \<Rightarrow> [d])
      else applyField dial Or (cn col) col d)"

lemma or_entries_Cons: "or_entries dial cn ((col, d) # es) = followed (or_entry dial cn col d) (or_entries dial cn es)"
  unfolding or_entry_def or_entries.simps by (cases d) (simp_all only: dto.case)

lemma or_entry_without_dialect:
  "snd (or_entry None cn col d) = None \<Longrightarrow> or_entry (Some dl) cn col d = or_entry None cn col d"
  unfolding or_entry_def using applyField_without_dialect applyExists_without_dialect by (simp only: simp_thms split: if_splits)

lemma or_entries_without_dialect:
  "snd (or_entries None cn es) = None \<Longrightarrow> or_entries (Some dl) cn es = or_entries None cn es"
proof (induction es)
  case (Cons e es)
  obtain col d where e: "e = (col, d)" by (cases e)
  from Cons.prems Cons.IH or_entry_without_dialect show ?case unfolding e or_entries_Cons followed_None by simp
qed simp

lemma or_groups_without_dialect:
  "snd (or_groups None cn ds) = None \<Longrightarrow> or_groups (Some dl) cn ds = or_groups None cn ds"
proof (induction ds)
  case (Cons d ds)
  show ?case
  proof (cases d)
    case (DObj es)
    from Cons.prems Cons.IH or_entries_without_dialect show ?thesis unfolding DObj or_groups.simps followed_None by simp
  qed (use Cons in simp_all)
qed simp

lemma where_entry_without_dialect:
  assumes "snd (where_entry None cn key d) = None"
    and "\<And>ds. key = ''and'' \<Longrightarrow> d = DArr ds \<Longrightarrow> snd (clause_subs None cn ds) = None \<Longrightarrow> clause_subs (Some dl) cn ds = clause_subs None cn ds"
  shows "where_entry (Some dl) cn key d = where_entry None cn key d"
proof (cases "key = ''and''")
  case True
  then show ?thesis using assms by (cases d) (auto simp: where_entry_def)
next
  case no_and: False
  show ?thesis
  proof (cases "key = ''or''")
    case True
    then show ?thesis using assms(1) or_groups_without_dialect by (cases d) (auto simp: where_entry_def)
  next
    case no_or: False
    have "where_entry x cn key d = (if key = ''exists'' \<or> key = ''notExists''
        then applyExists x (key = ''notExists'') And (case d of DArr ds \<Rightarrow> ds | _ \<Rightarrow> [d])
        else applyField x And (cn key) key d)" for x
      unfolding where_entry_def using no_and no_or by (cases d) (simp_all only: if_False dto.case)
    with assms(1) show ?thesis
      using applyField_without_dialect applyExists_without_dialect by (simp only: simp_thms split: if_splits)
  qed
qed

lemma where_without_dialect:
  "snd (clause_entries None cn es) = None \<Longrightarrow> clause_entries (Some dl) cn es = clause_entries None cn es"
  "snd (clause_subs None cn ds) = None \<Longrightarrow> clause_subs (Some dl) cn ds = clause_subs None cn ds"
proof (induction es and ds rule: or_free_or_free_all.induct)
  case (2 key d es)
  have "snd (where_entry None cn key d) = None" "snd (clause_entries None cn es) = None"
    using 2(3) unfolding clause_entries_Cons followed_None by simp_all
  moreover have "where_entry (Some dl) cn key d = where_entry None cn key d"
    by (rule where_entry_without_dialect [OF calculation(1)]) (use 2(1) in auto)
  ultimately show ?case using 2(2) unfolding clause_entries_Cons by simp
next
  case (4 es ds)
  then show ?case unfolding clause_subs.simps followed_None by simp
qed auto

section \<open>Statements whose condition is opened by an OR\<close>

fun no_date :: "jsval \<Rightarrow> bool" where
  "no_date (JDate t) = False"
| "no_date v = True"

definition plain_column :: "string \<Rightarrow> bool" where
  "plain_column c \<longleftrightarrow> c \<noteq> ''exists'' \<and> c \<noteq> ''notExists''"

lemma applyField_plain: "no_date v \<Longrightarrow> applyField dial conn col shown (Plain v) = ([CallWhere conn col ''='' (Val v)], None)"
  by (cases v) (simp_all add: add_call_def)

lemma followed_call: "fst (followed ([c], None) s) = c # fst s"
  by (simp add: followed_def)

lemma or_entries_single:
  "plain_column a \<Longrightarrow> no_date v \<Longrightarrow> or_entries dial cn [(a, Plain v)] = ([CallWhere Or (cn a) ''='' (Val v)], None)"
  unfolding or_entries_Cons or_entry_def plain_column_def
  by (simp only: simp_thms if_False applyField_plain or_entries.simps) (simp add: followed_def)

lemma followed_Nil [simp]: "followed s ([], None) = s"
  by (cases s) (auto simp: followed_def split: option.splits)

lemma two_alternatives:
  assumes "plain_column a" "no_date v" "plain_column b" "no_date w"
  shows "\<exists>rest. where_predicates dial cn (Some [(''or'', DArr (DObj [(a, Plain v)] # DObj [(b, Plain w)] # ds))]) =
    Comparison (cn a) ''='' (Val v) (Some Or) # Comparison (cn b) ''='' (Val w) (Some Or) # rest"
proof -
  have "clause_entries dial cn [(''or'', DArr (DObj [(a, Plain v)] # DObj [(b, Plain w)] # ds))] =
      followed ([CallWhere Or (cn a) ''='' (Val v)], None) (followed ([CallWhere Or (cn b) ''='' (Val w)], None) (or_groups dial cn ds))"
    using or_entries_single [OF assms(1,2)] or_entries_single [OF assms(3,4)]
    by (simp add: clause_entries_Cons where_entry_def)
  then show ?thesis by (simp add: where_predicates_def followed_call)
qed

text \<open>Whatever the where object is, the filters only follow it.\<close>

context where_builder begin

lemma filters_follow:
  "trusted b \<Longrightarrow> applyResolvedFilters t r b = Inr b' \<Longrightarrow> \<exists>fs. preds b' = preds b @ fs"
  using apply_groups_result unfolding applyResolvedFilters_def by blast

end

lemma find_follows:
  assumes "find_read rp es ovs extra = Inr q"
  shows "\<exists>fs. select_preds q = where_predicates (Some (rp_dialect rp)) (physicalColumn_of rp) (Some es) @ fs"
proof -
  from assms obtain r q0 where "where_read rp (Some es) = Inr q0" "applyResolvedFilters select_target r q0 = Inr q"
    by (auto simp: find_read_def read_statement_def filtered_read_def result_simps)
  with where_read_predicates [of rp "Some es" q0] select_where.filters_follow [of q0 r q] show ?thesis by auto
qed

definition written_preds :: "delete_builder + update_builder \<Rightarrow> predicate list" where
  "written_preds st = (case st of Inl b \<Rightarrow> db_wheres b | Inr b \<Rightarrow> ub_wheres b)"

lemma update_many_follows:
  assumes u: "update_many rp call row es ovs = Inr b"
  shows "\<exists>fs. ub_wheres b = where_predicates None (physicalColumn_of rp) (Some es) @ fs"
proof -
  from u obtain r b0 b1 b2 where s: "update_start rp row = Inr b0" "compileWhere update_target (physicalColumn_of rp) (Some es) b0 = Inr b1"
    "(if returns rp StUpdate then update_returning b1 (returning_key rp) else Inr b1) = Inr b2"
    "applyResolvedFilters update_target r b2 = Inr b"
    by (auto simp: update_many_def write_statement_def result_simps)
  note b0 = update_start_trusted [OF s(1)]
  from update_where.compileWhere_predicates [OF conjunct1 [OF b0] s(2)] b0 s(3) returning_keeps(1)
  have "update_trusted b2" "ub_wheres b2 = where_predicates None (physicalColumn_of rp) (Some es)"
    by (auto simp: update_target_def split: if_splits)
  with update_where.filters_follow [OF _ s(4)] show ?thesis by simp
qed

lemma hard_delete_follows:
  assumes d: "hard_delete_many rp es ovs = Inr b"
  shows "\<exists>fs. db_wheres b = where_predicates None (physicalColumn_of rp) (Some es) @ fs"
proof -
  from d obtain r b0 b1 b2 where s: "delete_start rp = Inr b0" "compileWhere delete_target (physicalColumn_of rp) (Some es) b0 = Inr b1"
    "(if returns rp StDelete then delete_returning b1 (returning_key rp) else Inr b1) = Inr b2"
    "applyResolvedFilters delete_target r b2 = Inr b"
    by (auto simp: hard_delete_many_def write_statement_def result_simps)
  note b0 = delete_start_trusted [OF s(1)]
  from delete_where.compileWhere_predicates [OF conjunct1 [OF b0] s(2)] b0 s(3) returning_keeps(2)
  have "delete_trusted b2" "db_wheres b2 = where_predicates None (physicalColumn_of rp) (Some es)"
    by (auto simp: delete_target_def split: if_splits)
  with delete_where.filters_follow [OF _ s(4)] show ?thesis by simp
qed

lemma deleteMany_follows:
  "deleteMany rp now es ovs = Inr st \<Longrightarrow>
   \<exists>fs. written_preds st = where_predicates None (physicalColumn_of rp) (Some es) @ fs"
  by (auto simp: deleteMany_def written_preds_def result_simps split: option.splits
      dest: update_many_follows hard_delete_follows)

section \<open>Batches of a loader\<close>

definition key_predicates :: "bool \<Rightarrow> (string \<times> jsval) list \<Rightarrow> predicate list" where
  "key_predicates opens cvs = as_branch opens (map (\<lambda>(c, v). Comparison c ''='' (Val v) None) cvs)"

lemma tuple_wheres_result:
  "select_trusted q \<Longrightarrow> tuple_wheres opens cvs q = Inr q' \<Longrightarrow>
   select_trusted q' \<and> select_preds q' = select_preds q @ key_predicates opens cvs"
proof (induction opens cvs q rule: tuple_wheres.induct)
  case (2 opens c v rest q)
  have "(if opens then orWhere q (FirstColumn c) (Some ''='') (Val v) else sq_where q (FirstColumn c) (Some ''='') (Val v)) =
      Inr (push_where q (Comparison c ''='' (Val v) (Some (branch_connector opens))))"
    using 2(2) by (simp add: orWhere_def sq_where_def column_trusted branch_connector_def)
  with 2(1) [OF this] 2(2,3) show ?case by (simp add: key_predicates_def)
qed (simp add: key_predicates_def)

lemma chunk_wheres_result:
  "select_trusted q \<Longrightarrow> chunk_wheres rp first idents q = Inr q' \<Longrightarrow> select_trusted q' \<and> (\<exists>ps. select_preds q' = select_preds q @ ps)"
proof (induction rp first idents q rule: chunk_wheres.induct)
  case (2 rp first i idents q)
  then obtain vs q1 where "keyValues rp i ''findById'' = Inr vs"
    "tuple_wheres (\<not> first) (zip (map (physicalColumn_of rp) (rp_primaryKey rp)) vs) q = Inr q1"
    "chunk_wheres rp False idents q1 = Inr q'" by (auto simp: result_simps)
  with 2(1) [of vs q1] 2(2) tuple_wheres_result [of q "\<not> first"] show ?case by auto
qed simp

lemma keyValues_length: "keyValues rp i call = Inr vs \<Longrightarrow> length vs = length (rp_primaryKey rp)"
  by (auto simp: keyValues_def requiredKeyColumns_def Let_def result_simps split: if_splits list.splits jsval.splits)

text \<open>The first tuple of a batch of composite keys is followed by an OR, whatever comes after.\<close>

lemma batch_opens_or:
  assumes key: "2 \<le> length (rp_primaryKey rp)" and b: "batch_builder rp (i # j # rest) = Inr q"
    and vs: "keyValues rp i ''findById'' = Inr vs"
  obtains p ps where "select_trusted q" "connector_of p = Some Or"
    "select_preds q = key_predicates False (zip (map (physicalColumn_of rp) (rp_primaryKey rp)) vs) @ p # ps"
proof -
  let ?cs = "map (physicalColumn_of rp) (rp_primaryKey rp)"
  obtain k k' ks where "rp_primaryKey rp = k # k' # ks" using key
    by (cases "rp_primaryKey rp"; cases "tl (rp_primaryKey rp)") auto
  with b obtain q0 where q0: "selectEntity rp = Inr q0" and c: "chunk_wheres rp True (i # j # rest) q0 = Inr q"
    by (auto simp: batch_builder_def result_simps simp del: chunk_wheres.simps)
  from selectEntity_fresh [OF q0] have f: "select_trusted q0" "select_preds q0 = []" by (auto simp: fresh_def)
  from c vs obtain q1 ws q2 where s: "tuple_wheres False (zip ?cs vs) q0 = Inr q1" "keyValues rp j ''findById'' = Inr ws"
    "tuple_wheres True (zip ?cs ws) q1 = Inr q2" "chunk_wheres rp False rest q2 = Inr q"
    by (auto simp: result_simps)
  note r1 = tuple_wheres_result [OF f(1) s(1)]
  note r2 = tuple_wheres_result [OF conjunct1 [OF r1] s(3)]
  from chunk_wheres_result [OF conjunct1 [OF r2] s(4)] obtain more' where r3: "select_trusted q" "select_preds q = select_preds q2 @ more'"
    by blast
  have "zip ?cs ws \<noteq> []" using key keyValues_length [OF s(2)] by (cases "rp_primaryKey rp"; cases ws) auto
  then obtain c v cvs where cvs: "zip ?cs ws = (c, v) # cvs" by (cases "zip ?cs ws") auto
  have "select_preds q = key_predicates False (zip ?cs vs) @ set_connector Or (Comparison c ''='' (Val v) None) #
      as_branch False (map (\<lambda>(c, v). Comparison c ''='' (Val v) None) cvs) @ more'"
    using r1 r2 r3 f(2) by (simp add: key_predicates_def cvs branch_connector_def)
  then show ?thesis by (intro that [OF r3(1), of "set_connector Or (Comparison c ''='' (Val v) None)"]) simp_all
qed

lemma key_predicates_accepted:
  "accepts leaf (key_predicates False cvs) \<longleftrightarrow> list_all (\<lambda>(c, v). leaf (Comparison c ''='' (Val v) None)) cvs"
  unfolding key_predicates_def accepts_first_branch by (auto simp: list_all_iff)

section \<open>Pages of a list\<close>

lemma add_keys_extends: "\<exists>extra. add_keys cs order = order @ extra"
  by (induction cs order rule: add_keys.induct) auto

lemma add_keys_nonempty: "cs \<noteq> [] \<Longrightarrow> add_keys cs order \<noteq> []"
proof (cases cs)
  case (Cons c cs')
  then show ?thesis using add_keys_extends [of cs' order] add_keys_extends [of cs' "order @ [\<lparr>os_column = c, os_dir = Some Asc\<rparr>]"]
    by auto
qed simp

lemma effective_order_nonempty: "effective_order rp lq = Inr order \<Longrightarrow> order \<noteq> []"
  using add_keys_nonempty by (fastforce simp: effective_order_def requiredKeyColumns_def result_simps split: if_splits)

lemma keyset_where_compiles:
  assumes "applyKeysetFilter t cn vals order clause f b = Inr b'" and "order \<noteq> []"
  shows "clause = None \<or> (\<exists>es. clause = Some es \<and> snd (clause_entries None cn es) = None)"
proof -
  from assms(2) obtain i rest where order: "order = i # rest" by (cases order) auto
  from assms(1) obtain x where "compileWhere (branch_target t) cn clause (b, False) = Inr x"
    unfolding applyKeysetFilter_def order by (auto simp: keyset_branch_def result_simps)
  then show ?thesis
    by (cases clause) (auto simp: compileWhere_def run_script_Inr branch_target_def)
qed

lemma keyset_list_result:
  assumes b: "list_builder rp lq order queryOrder (Some vals) r = Inr q" and ne: "queryOrder \<noteq> []"
  shows "accepts leaf (select_preds q) \<longleftrightarrow>
    list_all (truth leaf) (where_predicates (Some d) (physicalColumn_of rp) (lq_where lq)) \<and>
    list_all (filter_holds leaf) (rf_groups r) \<and> row_after leaf (physicalColumn_of rp) vals queryOrder"
proof -
  from b obtain q0 q1 where q0: "list_start rp lq order queryOrder = Inr q0"
    and k: "applyKeysetFilter select_target (physicalColumn_of rp) vals queryOrder (lq_where lq)
      (Some (applyResolvedFilters (branch_target select_target) r)) q0 = Inr q1"
    and q: "q = (case lq_page lq of None \<Rightarrow> q1 | Some pg \<Rightarrow> sq_limit q1 (pg_limit pg + 1))"
    by (auto simp: list_builder_def list_conditions_def result_simps)
  from list_start_fresh [OF q0] have f: "select_trusted q0" "select_preds q0 = []" by (auto simp: fresh_def)
  have "same_where q1 q" unfolding q by (simp split: option.split)
  then have "select_preds q = select_preds q1" by (simp add: same_whereD)
  moreover have "map call_predicate (where_calls (physicalColumn_of rp) (lq_where lq)) =
      where_predicates (Some d) (physicalColumn_of rp) (lq_where lq)"
    using keyset_where_compiles [OF k ne] where_without_dialect(1)
    by (auto simp: where_calls_def where_predicates_def)
  ultimately show ?thesis
    using select_where.keyset_result [OF f ne k, of leaf] by (simp add: base_holds_def)
qed

lemma first_list_result:
  assumes "list_builder rp lq order queryOrder None r = Inr q"
  shows "select_trusted q \<and> select_preds q = where_predicates (Some (rp_dialect rp)) (physicalColumn_of rp) (lq_where lq)"
proof -
  from assms obtain q0 q1 where q0: "list_start rp lq order queryOrder = Inr q0"
    and w: "compileWhere select_target (physicalColumn_of rp) (lq_where lq) q0 = Inr q1"
    and q: "q = (case lq_page lq of None \<Rightarrow> q1 | Some pg \<Rightarrow> applyPagination (Some (pg\<lparr>pg_limit := pg_limit pg + 1\<rparr>)) q1)"
    by (auto simp: list_builder_def list_conditions_def result_simps)
  have "same_where q1 q" unfolding q by (simp split: option.split)
  with fresh_where [OF list_start_fresh [OF q0] w] show ?thesis by (simp add: same_whereD)
qed

text \<open>The list before its first page: the same query without a cursor.\<close>

definition first_page :: "list_query \<Rightarrow> list_query" where
  "first_page lq = lq\<lparr>lq_page := map_option (\<lambda>pg. pg\<lparr>pg_after := None, pg_before := None\<rparr>) (lq_page lq)\<rparr>"

lemma first_page_token: "page_token (first_page lq) = JUndefined"
  by (simp add: page_token_def first_page_def split: option.split)

lemma list_read_parts:
  assumes "list_read decode rp lq ovs extra = Inr q"
  obtains order vals r where "effective_order rp lq = Inr order" "resolveReadFilters rp ''list'' ovs extra = Inr r"
    "if page_token lq = JUndefined then vals = None
     else \<exists>vs. decode (page_token lq) order = Inr vs \<and> vals = Some vs"
    "filtered_read r (list_builder rp lq order (if reverse_page lq then reversed_order order else order) vals) (vals \<noteq> None) = Inr q"
proof -
  from assms obtain order vals where o': "effective_order rp lq = Inr order"
    and v: "(if page_token lq = JUndefined then Inr None
       else rbind (decode (page_token lq) order) (\<lambda>vals. Inr (Some vals))) = Inr vals"
    and r: "read_statement rp ''list'' ovs extra (list_builder rp lq order (if reverse_page lq then reversed_order order else order) vals)
       (vals \<noteq> None) = Inr q"
    unfolding list_read_def list_ordered_def list_page_def by (auto simp only: rbind_Inr_iff)
  from r obtain r' where r': "resolveReadFilters rp ''list'' ovs extra = Inr r'"
    "filtered_read r' (list_builder rp lq order (if reverse_page lq then reversed_order order else order) vals) (vals \<noteq> None) = Inr q"
    unfolding read_statement_def by (auto simp only: rbind_Inr_iff)
  have "if page_token lq = JUndefined then vals = None else \<exists>vs. decode (page_token lq) order = Inr vs \<and> vals = Some vs"
    using v by (cases "page_token lq = JUndefined") (auto simp: rbind_Inr_iff)
  from that [OF o' r'(1) this r'(2)] show thesis .
qed

lemma first_page_confined:
  assumes l: "list_read decode rp lq ovs extra = Inr q" and t: "page_token lq = JUndefined"
    and free: "or_free_clause (lq_where lq)" and r: "resolveReadFilters rp ''list'' ovs extra = Inr r"
  shows "accepts leaf (select_preds q) \<longleftrightarrow>
    list_all (truth leaf) (where_predicates (Some (rp_dialect rp)) (physicalColumn_of rp) (lq_where lq)) \<and>
    list_all (filter_holds leaf) (rf_groups r)"
proof -
  obtain order vals r' where v: "if page_token lq = JUndefined then vals = None
       else \<exists>vs. decode (page_token lq) order = Inr vs \<and> vals = Some vs"
    and r': "resolveReadFilters rp ''list'' ovs extra = Inr r'"
    and fr: "filtered_read r' (list_builder rp lq order (if reverse_page lq then reversed_order order else order) vals) (vals \<noteq> None) = Inr q"
    by (rule list_read_parts [OF l])
  have "r' = r" and "vals = None" using r r' v t by simp_all
  with fr obtain q0
    where b: "list_builder rp lq order (if reverse_page lq then reversed_order order else order) None r = Inr q0"
      and f: "applyResolvedFilters select_target r q0 = Inr q"
    by (auto simp: filtered_read_def rbind_Inr_iff)
  from first_list_result [OF b] have q0: "select_trusted q0"
    "select_preds q0 = where_predicates (Some (rp_dialect rp)) (physicalColumn_of rp) (lq_where lq)" by simp_all
  note conj = where_predicates_conjoined [OF free, of "Some (rp_dialect rp)" "physicalColumn_of rp"]
  from select_where.applied_filters [OF q0(1) _ f, of leaf] conj q0(2) accepts_conjoined [OF conjoined_tl [OF conj], of leaf]
  show ?thesis by simp
qed

end
