(* ===== verification/RepositoryProperties.thy ===== *)
theory RepositoryProperties
  imports RepositoryMeaning
begin

section \<open>Properties of the repository statements\<close>

subsection \<open>A repository for the witnesses\<close>

text \<open>Posts of tenants, deleted by setting a column, with a filter on the tenant of the request.\<close>

definition posts_schema :: core_schema where
  "posts_schema = \<lparr>ir_table = ''posts'', physicalTable = ''posts'',
     ir_columns = map (\<lambda>c. \<lparr>ir_name = c, physicalName = c\<rparr>) [''id'', ''tenant'', ''status'', ''deleted''],
     cs_ftsTable = FtsUndefined\<rparr>"

definition tenant_filter :: filter_def where
  "tenant_filter = \<lparr>fd_name = ''tenant'', fd_table = Some ''posts'', fd_schema = None,
     fd_where = (\<lambda>params. (Inr [\<lparr>fp_col = ''tenant'', fp_op = ''='', fp_value = Val (own_value params ''tenant''),
       fp_connector = None\<rparr>], [''tenant''])),
     fd_enabled = None, fd_appliesToWrites = None\<rparr>"

definition posts :: "string list \<Rightarrow> repository" where
  "posts key = \<lparr>rp_dialect = postgres, rp_schema = posts_schema, rp_primaryKey = key, rp_nullable = [''deleted''],
     rp_filters = [tenant_filter], rp_softDelete = Some ''deleted'', rp_issues = (\<lambda>_ _ _. []), rp_telemetry = False\<rparr>"

definition tenant_one :: overrides where
  "tenant_one = Some [(''tenant'', JObj [(''tenant'', JNum (IntNum 1))])]"

text \<open>A deleted post of the second tenant.\<close>

fun deleted_post :: "predicate \<Rightarrow> bool" where
  "deleted_post (Comparison c op v k) = (Comparison c op v k = Comparison ''id'' ''='' (Val (JNum (IntNum 7))) None \<or>
     Comparison c op v k = Comparison ''status'' ''='' (Val (JStr ''open'')) None)"
| "deleted_post p = False"

lemma resultE: "\<not> isl r \<Longrightarrow> (\<And>x. r = Inr x \<Longrightarrow> thesis) \<Longrightarrow> thesis"
  by (cases r) auto

subsection \<open>Filters confine reads and writes\<close>





subsection \<open>Where the filters do not reach\<close>

text \<open>
  C39: With an \<open>or\<close> of two alternatives a read and a \<open>deleteMany\<close> take every row that meets the first alternative,
  whatever the filters of the repository are: the filters are conjoined to the last alternative alone.
\<close>
theorem or_escapes_filters:
  assumes "plain_column a" "no_date v" "plain_column b" "no_date w"
    and "es = [(''or'', DArr (DObj [(a, Plain v)] # DObj [(b, Plain w)] # ds))]"
    and "find_read rp es ovs populate = Inr q" and "deleteMany rp now es ovs' = Inr st"
    and "leaf (Comparison (physicalColumn_of rp a) ''='' (Val v) None)"
  shows "accepts leaf (select_preds q) \<and> accepts leaf (written_preds st)"
proof -
  have first: "accepts leaf (where_predicates dial (physicalColumn_of rp) (Some es) @ fs)" for dial fs
    using two_alternatives [OF assms(1-4), of dial "physicalColumn_of rp" ds] assms(5,8)
    by (auto simp: accepts_first_disjunct)
  with find_follows [OF assms(6)] deleteMany_follows [OF assms(7)] show ?thesis by metis
qed

theorem or_escapes_filters_witness:
  "\<exists>q st. find_read (posts [''id''])
       [(''or'', DArr [DObj [(''status'', Plain (JStr ''open''))], DObj [(''id'', Plain (JNum (IntNum 3)))]])] tenant_one [] = Inr q \<and>
     deleteMany (posts [''id'']) 0
       [(''or'', DArr [DObj [(''status'', Plain (JStr ''open''))], DObj [(''id'', Plain (JNum (IntNum 3)))]])] tenant_one = Inr st \<and>
     accepts deleted_post (select_preds q) \<and> accepts deleted_post (written_preds st)"
proof -
  let ?es = "[(''or'', DArr [DObj [(''status'', Plain (JStr ''open''))], DObj [(''id'', Plain (JNum (IntNum 3)))]])]"
  have "\<not> isl (find_read (posts [''id'']) ?es tenant_one [])" and "\<not> isl (deleteMany (posts [''id'']) 0 ?es tenant_one)"
    by code_simp+
  then obtain q st where qs: "find_read (posts [''id'']) ?es tenant_one [] = Inr q"
    "deleteMany (posts [''id'']) 0 ?es tenant_one = Inr st" by (metis resultE)
  have "accepts deleted_post (select_preds q) \<and> accepts deleted_post (written_preds st)"
    by (rule or_escapes_filters [OF _ _ _ _ refl qs]) code_simp+
  with qs show ?thesis by blast
qed

text \<open>
  C40: The statement of a loader for a batch of composite keys takes every row with the first key of the batch,
  whatever the filters are: the tuples are attached with OR, and the filters are conjoined to the last one.
\<close>
theorem composite_loader_escapes_filters:
  assumes "2 \<le> length (rp_primaryKey rp)"
    and "batch_chunks rp idents = Inr ((i # j # rest) # chunks)" and "keyValues rp i ''findById'' = Inr vs"
    and "loader_batch rp idents = Inr (q # qs)"
    and "list_all (\<lambda>(c, v). leaf (Comparison c ''='' (Val v) None)) (zip (map (physicalColumn_of rp) (rp_primaryKey rp)) vs)"
  shows "accepts leaf (select_preds q)"
proof -
  from assms(2,4) obtain r q0 where b: "batch_builder rp (i # j # rest) = Inr q0"
    and f: "applyResolvedFilters select_target r q0 = Inr q"
    by (auto simp: loader_batch_def loader_statement_def filtered_read_def result_simps split: if_splits)
  from batch_opens_or [OF assms(1) b assms(3)] obtain p ps where q0: "select_trusted q0" "connector_of p = Some Or"
    "select_preds q0 = key_predicates False (zip (map (physicalColumn_of rp) (rp_primaryKey rp)) vs) @ p # ps" by blast
  from select_where.filters_follow [OF q0(1) f] q0(3) obtain fs where
    "select_preds q = key_predicates False (zip (map (physicalColumn_of rp) (rp_primaryKey rp)) vs) @ p # ps @ fs" by auto
  moreover have "key_predicates False (zip (map (physicalColumn_of rp) (rp_primaryKey rp)) vs) \<noteq> []"
    using assms(1) keyValues_length [OF assms(3)]
    by (cases "rp_primaryKey rp"; cases vs) (auto simp: key_predicates_def)
  ultimately show ?thesis
    using accepts_prefix_disjunct [OF _ q0(2)] assms(5) by (simp add: key_predicates_accepted)
qed

definition post_keys :: "jsval list" where
  "post_keys = map (\<lambda>n. JObj [(''id'', JNum (IntNum n)), (''status'', JStr ''open'')]) [7, 8]"

theorem composite_loader_escapes_filters_witness:
  "\<exists>q. loader_batch ((posts [''id'', ''status''])\<lparr>rp_filters := []\<rparr>) post_keys = Inr [q] \<and> accepts deleted_post (select_preds q)"
proof -
  let ?rp = "(posts [''id'', ''status''])\<lparr>rp_filters := []\<rparr>"
  have k1: "2 \<le> length (rp_primaryKey ?rp)" by (simp add: posts_def)
  have k0: "sanitizeKeys post_keys = post_keys" by code_simp
  have "paramLimit (traits (rp_dialect ?rp)) = 60000" by code_simp
  then have k2: "batch_chunks ?rp post_keys = Inr ((post_keys ! 0 # post_keys ! 1 # []) # [])"
    unfolding batch_chunks_def k0 by (simp add: posts_def chunkArray_def chunks_from.simps post_keys_def)
  have k3: "keyValues ?rp (post_keys ! 0) ''findById'' = Inr [JNum (IntNum 7), JStr ''open'']" by code_simp
  have k4: "list_all (\<lambda>(c, v). deleted_post (Comparison c ''='' (Val v) None))
      (zip (map (physicalColumn_of ?rp) (rp_primaryKey ?rp)) [JNum (IntNum 7), JStr ''open''])" by code_simp
  let ?run = "rbind (resolveReadFilters ?rp ''loader.load'' None []) (\<lambda>r. map_result (loader_statement ?rp r) [[post_keys ! 0, post_keys ! 1]])"
  have "\<not> isl ?run" by code_simp
  moreover have run: "loader_batch ?rp post_keys = ?run"
    unfolding loader_batch_def k0 k2 by (simp add: requiredKeyColumns_def posts_def post_keys_def)
  ultimately obtain qs where qs: "loader_batch ?rp post_keys = Inr qs" by (metis resultE)
  then obtain q where q: "loader_batch ?rp post_keys = Inr [q]" unfolding run by (auto simp: result_simps)
  have "accepts deleted_post (select_preds q)"
    by (rule composite_loader_escapes_filters [where rp = ?rp and idents = post_keys and i = "post_keys ! 0" and j = "post_keys ! 1"
        and rest = "[]" and chunks = "[]" and vs = "[JNum (IntNum 7), JStr ''open'']", OF k1 k2 k3 q k4])
  with q show ?thesis by blast
qed

subsection \<open>Pages of a list\<close>

text \<open>
  C4: When the where object has no \<open>or\<close>, the statement of a cursor page keeps exactly the rows that the
  statement of the first page keeps and that come after the cursor in the lexicographic order of the
  effective ordering (which the page before the cursor reverses): no later page loses a condition or a
  filter, in any of its branches.
\<close>
theorem cursor_page_continues:
  assumes "or_free_clause (lq_where lq)" and "page_token lq \<noteq> JUndefined"
    and "list_read decode rp lq ovs populate = Inr q" and "list_read decode rp (first_page lq) ovs populate = Inr q1"
  shows "\<exists>order vals. effective_order rp lq = Inr order \<and> decode (page_token lq) order = Inr vals \<and>
    (\<forall>leaf. accepts leaf (select_preds q) \<longleftrightarrow> accepts leaf (select_preds q1) \<and>
      row_after leaf (physicalColumn_of rp) vals (if reverse_page lq then reversed_order order else order))"
proof -
  obtain order vals r where l: "effective_order rp lq = Inr order" "resolveReadFilters rp ''list'' ovs populate = Inr r"
    "\<exists>vs. decode (page_token lq) order = Inr vs \<and> vals = Some vs"
    "filtered_read r (list_builder rp lq order (if reverse_page lq then reversed_order order else order) vals) (vals \<noteq> None) = Inr q"
    using list_read_parts [OF assms(3)] assms(2) by metis
  then obtain vs where vs: "decode (page_token lq) order = Inr vs" "vals = Some vs" by blast
  let ?order = "if reverse_page lq then reversed_order order else order"
  have ne: "?order \<noteq> []" using effective_order_nonempty [OF l(1)] by (simp add: reversed_order_def)
  from l(4) vs(2) have b: "list_builder rp lq order ?order (Some vs) r = Inr q" by (auto simp: filtered_read_def rbind_Inr_iff)
  have free: "or_free_clause (lq_where (first_page lq))" using assms(1) by (simp add: first_page_def)
  note first = first_page_confined [OF assms(4) first_page_token free l(2)]
  show ?thesis
    using l(1) vs(1) first keyset_list_result [OF b ne, of _ "rp_dialect rp"] by (auto simp: first_page_def)
qed

definition open_posts :: "(string \<times> dto) list \<Rightarrow> list_query" where
  "open_posts clause = \<lparr>lq_where = Some clause, lq_select = None, lq_order = Some [\<lparr>os_column = ''status'', os_dir = Some Desc\<rparr>],
     lq_page = Some \<lparr>pg_mode = ModeCursor, pg_limit = 10, pg_offset = None, pg_after = Some (JStr ''token''), pg_before = None\<rparr>\<rparr>"

definition token_values :: "jsval \<Rightarrow> order_spec list \<Rightarrow> js_error + (string \<times> jsval) list" where
  "token_values token order = Inr [(''status'', JStr ''open''), (''id'', JNum (IntNum 5))]"

theorem cursor_page_continues_witness:
  "\<exists>q q1 order. list_read token_values (posts [''id'']) (open_posts [(''id'', DObj [(''lt'', Plain (JNum (IntNum 9)))])]) tenant_one [] = Inr q \<and>
    list_read token_values (posts [''id'']) (first_page (open_posts [(''id'', DObj [(''lt'', Plain (JNum (IntNum 9)))])])) tenant_one [] = Inr q1 \<and>
    (accepts deleted_post (select_preds q) \<longleftrightarrow> accepts deleted_post (select_preds q1) \<and>
      row_after deleted_post (physicalColumn_of (posts [''id''])) [(''status'', JStr ''open''), (''id'', JNum (IntNum 5))] order)"
proof -
  let ?lq = "open_posts [(''id'', DObj [(''lt'', Plain (JNum (IntNum 9)))])]"
  have "\<not> isl (list_read token_values (posts [''id'']) ?lq tenant_one [])"
    and "\<not> isl (list_read token_values (posts [''id'']) (first_page ?lq) tenant_one [])" by code_simp+
  then obtain q q1 where q: "list_read token_values (posts [''id'']) ?lq tenant_one [] = Inr q"
    "list_read token_values (posts [''id'']) (first_page ?lq) tenant_one [] = Inr q1" by (metis resultE)
  have "or_free_clause (lq_where ?lq)" and "page_token ?lq \<noteq> JUndefined" by code_simp+
  from cursor_page_continues [OF this q] obtain order vals where o': "token_values (page_token ?lq) order = Inr vals"
    and r: "accepts deleted_post (select_preds q) \<longleftrightarrow> accepts deleted_post (select_preds q1) \<and>
      row_after deleted_post (physicalColumn_of (posts [''id''])) vals (if reverse_page ?lq then reversed_order order else order)"
    by blast
  from o' have "vals = [(''status'', JStr ''open''), (''id'', JNum (IntNum 5))]" by (simp add: token_values_def)
  with r q show ?thesis by blast
qed

text \<open>
  A where object with an \<open>exists\<close> of a compiled query lists its first page, and no later page: the branches
  of a cursor page offer no EXISTS, so \<open>list\<close> throws for every cursor.
\<close>
theorem exists_ends_after_first_page:
  assumes "lq_where lq = Some [(''exists'', Compiled sub)]" and "page_token lq \<noteq> JUndefined"
  shows "\<exists>e. list_read decode rp lq ovs populate = Inl e"
proof (rule ccontr)
  assume "\<not> ?thesis"
  then obtain q where "list_read decode rp lq ovs populate = Inr q" by (cases "list_read decode rp lq ovs populate") auto
  then obtain order vals r where o': "effective_order rp lq = Inr order"
    and v: "if page_token lq = JUndefined then vals = None else \<exists>vs. decode (page_token lq) order = Inr vs \<and> vals = Some vs"
    and "filtered_read r (list_builder rp lq order (if reverse_page lq then reversed_order order else order) vals) (vals \<noteq> None) = Inr q"
    by (rule list_read_parts)
  with assms(2) obtain vs where
    fr: "filtered_read r (list_builder rp lq order (if reverse_page lq then reversed_order order else order) (Some vs)) True = Inr q"
    by auto
  let ?order = "if reverse_page lq then reversed_order order else order"
  have ne: "?order \<noteq> []" using effective_order_nonempty [OF o'] by (simp add: reversed_order_def)
  from fr obtain q0 q1 where "applyKeysetFilter select_target (physicalColumn_of rp) vs ?order (lq_where lq)
      (Some (applyResolvedFilters (branch_target select_target) r)) q0 = Inr q1"
    by (auto simp: filtered_read_def list_builder_def list_conditions_def result_simps)
  then obtain x where "compileWhere (branch_target select_target) (physicalColumn_of rp) (lq_where lq) (q0, False) = Inr x"
    using ne unfolding applyKeysetFilter_def by (cases ?order) (auto simp: keyset_branch_def result_simps)
  then show False
    by (simp add: assms(1) compileWhere_def run_script_Inr branch_target_def followed_def)
qed

theorem exists_ends_after_first_page_witness:
  "\<exists>q e. list_read token_values (posts [''id'']) (first_page (open_posts [(''exists'', Compiled (Inl (PlainError [])))])) tenant_one [] = Inr q \<and>
    list_read token_values (posts [''id'']) (open_posts [(''exists'', Compiled (Inl (PlainError [])))]) tenant_one [] = Inl e"
proof -
  let ?lq = "open_posts [(''exists'', Compiled (Inl (PlainError [])))]"
  have "\<not> isl (list_read token_values (posts [''id'']) (first_page ?lq) tenant_one [])" by code_simp
  then obtain q where "list_read token_values (posts [''id'']) (first_page ?lq) tenant_one [] = Inr q" by (rule resultE)
  moreover have "lq_where ?lq = Some [(''exists'', Compiled (Inl (PlainError [])))]" and "page_token ?lq \<noteq> JUndefined"
    by code_simp+
  from exists_ends_after_first_page [OF this] obtain e where "list_read token_values (posts [''id'']) ?lq tenant_one [] = Inl e"
    by blast
  ultimately show ?thesis by blast
qed

end
