(* ===== verification/Transactions.thy ===== *)
theory Transactions
  imports Query
begin

text \<open>
  \<open>packages/orm/src/transactions/index.ts\<close>. The body of a transaction is the application's; it is a tree of
  the calls it makes on its contexts, and each continues with what the call resolved to or rejected with
  (so a body may catch). A context is the number of its scope, given out by \<open>makeContext\<close>; \<open>sc_open\<close> holds
  the scopes whose \<open>open\<close> flag is still set. A thrown value is a JavaScript value, an error object is
  the list of its properties.

  The connection is a parameter: \<open>raw\<close>, \<open>execute\<close>, and what closing the streams of a scope does. The bodies
  run one call at a time; a body that starts calls without awaiting them is outside the model, and so is
  \<open>trackedTransactionStream\<close>.
\<close>

section \<open>Bodies and connections\<close>

datatype 'q program =
    Return jsval
  | Throw jsval
  | Execute nat 'q "jsval + jsval \<Rightarrow> 'q program"
  | Savepoint nat "nat \<Rightarrow> 'q program" "jsval + jsval \<Rightarrow> 'q program"

record ('w, 'q) tx_connection =
  tx_raw :: "string \<Rightarrow> 'w \<Rightarrow> (jsval + unit) \<times> 'w"
  tx_execute :: "'q \<Rightarrow> 'w \<Rightarrow> (jsval + jsval) \<times> 'w"
  tx_closeStreams :: "nat \<Rightarrow> 'w \<Rightarrow> (jsval + unit) \<times> 'w"
  tx_retryableCodes :: "string list option"

section \<open>Scopes\<close>

record scopes =
  savepointSeq :: nat
  sc_next :: nat
  sc_open :: "nat list"

definition error_object :: "string \<Rightarrow> jsval" where
  "error_object msg = JObj [(''message'', JStr msg)]"

definition transactionClosedError :: jsval where
  "transactionClosedError = error_object ''cannot continue a stream after its transaction scope has closed''"

definition makeContext :: "scopes \<Rightarrow> nat \<times> scopes" where
  "makeContext sc = (sc_next sc, sc\<lparr>sc_next := Suc (sc_next sc), sc_open := sc_next sc # sc_open sc\<rparr>)"

text \<open>The first call closes the streams, a further one returns at once.\<close>

definition close_scope ::
  "('w, 'q) tx_connection \<Rightarrow> nat \<Rightarrow> scopes \<Rightarrow> 'w \<Rightarrow> (jsval + unit) \<times> scopes \<times> 'w" where
  "close_scope conn ctx sc w =
     (if ctx \<notin> set (sc_open sc) then (Inr (), sc, w)
      else case tx_closeStreams conn ctx w of (r, w') \<Rightarrow> (r, sc\<lparr>sc_open := removeAll ctx (sc_open sc)\<rparr>, w'))"

definition savepoint_name :: "nat \<Rightarrow> string" where
  "savepoint_name n = ''s'' @ show_nat n"

text \<open>The \<open>catch\<close> block of \<open>savepoint\<close>, and its \<open>try\<close> block from the end of the body on.\<close>

definition undo_savepoint ::
  "('w, 'q) tx_connection \<Rightarrow> string \<Rightarrow> nat \<Rightarrow> jsval \<Rightarrow> scopes \<Rightarrow> 'w \<Rightarrow> (jsval + jsval) \<times> scopes \<times> 'w" where
  "undo_savepoint conn name ctx error sc w =
     (case close_scope conn ctx sc w of (closed, sc', w1) \<Rightarrow>
        let failure = (case closed of Inl closeError \<Rightarrow> closeError | Inr _ \<Rightarrow> error) in
        (case tx_raw conn (''ROLLBACK TO SAVEPOINT '' @ name) w1 of
           (Inl e, w2) \<Rightarrow> (Inl e, sc', w2)
         | (Inr _, w2) \<Rightarrow> (Inl failure, sc', w2)))"

definition leave_savepoint ::
  "('w, 'q) tx_connection \<Rightarrow> string \<Rightarrow> nat \<Rightarrow> (jsval + jsval) \<times> scopes \<times> 'w \<Rightarrow> (jsval + jsval) \<times> scopes \<times> 'w" where
  "leave_savepoint conn name ctx ended = (case ended of
     (Inl e, sc, w) \<Rightarrow> undo_savepoint conn name ctx e sc w
   | (Inr result, sc, w) \<Rightarrow>
       (case close_scope conn ctx sc w of
          (Inl e, sc1, w1) \<Rightarrow> undo_savepoint conn name ctx e sc1 w1
        | (Inr _, sc1, w1) \<Rightarrow>
            (case tx_raw conn (''RELEASE SAVEPOINT '' @ name) w1 of
               (Inl e, w2) \<Rightarrow> undo_savepoint conn name ctx e sc1 w2
             | (Inr _, w2) \<Rightarrow> (Inr result, sc1, w2))))"

primrec run_body ::
  "'q program \<Rightarrow> ('w, 'q) tx_connection \<Rightarrow> scopes \<Rightarrow> 'w \<Rightarrow> (jsval + jsval) \<times> scopes \<times> 'w" where
  "run_body (Return x) conn sc w = (Inr x, sc, w)"
| "run_body (Throw e) conn sc w = (Inl e, sc, w)"
| "run_body (Execute ctx q k) conn sc w =
     (if ctx \<notin> set (sc_open sc) then run_body (k (Inl transactionClosedError)) conn sc w
      else case tx_execute conn q w of (r, w') \<Rightarrow> run_body (k r) conn sc w')"
| "run_body (Savepoint ctx body k) conn sc w =
     (if ctx \<notin> set (sc_open sc) then run_body (k (Inl transactionClosedError)) conn sc w
      else
        let sc0 = sc\<lparr>savepointSeq := Suc (savepointSeq sc)\<rparr>; name = savepoint_name (Suc (savepointSeq sc)) in
        (case tx_raw conn (''SAVEPOINT '' @ name) w of
           (Inl e, w1) \<Rightarrow> run_body (k (Inl e)) conn sc0 w1
         | (Inr _, w1) \<Rightarrow>
             (case makeContext sc0 of (nested, sc1) \<Rightarrow>
              (case leave_savepoint conn name nested (run_body (body nested) conn sc1 w1) of
                 (r, sc2, w2) \<Rightarrow> run_body (k r) conn sc2 w2))))"

section \<open>Retries\<close>

record retry_options =
  ro_maxRetries :: jsnum
  ro_baseDelayMs :: "jsnum option"
  ro_maxDelayMs :: "jsnum option"

record tx_retry_policy =
  maxRetries :: nat
  baseDelayMs :: nat
  maxDelayMs :: nat

fun nonNegativeInteger :: "string \<Rightarrow> jsnum \<Rightarrow> js_error + nat" where
  "nonNegativeInteger name (IntNum n) =
     (if n < 0 \<or> 2 ^ 53 - 1 < n then Inl (TypeError (name @ '' must be a non-negative safe integer'')) else Inr (nat n))"
| "nonNegativeInteger name _ = Inl (TypeError (name @ '' must be a non-negative safe integer''))"

definition retryPolicy :: "retry_options option \<Rightarrow> js_error + tx_retry_policy option" where
  "retryPolicy options = (case options of
     None \<Rightarrow> Inr None
   | Some ro' \<Rightarrow>
       rbind (nonNegativeInteger ''retry.maxRetries'' (ro_maxRetries ro')) (\<lambda>m.
       rbind (nonNegativeInteger ''retry.baseDelayMs'' (opt_default (IntNum 10) (ro_baseDelayMs ro'))) (\<lambda>b.
       rbind (nonNegativeInteger ''retry.maxDelayMs'' (opt_default (IntNum 1000) (ro_maxDelayMs ro'))) (\<lambda>d.
         Inr (Some \<lparr>maxRetries = m, baseDelayMs = b, maxDelayMs = d\<rparr>)))))"

fun code_text :: "jsval \<Rightarrow> string list" where
  "code_text (JStr s) = [s]"
| "code_text (JNum (IntNum n)) = [show_int n]"
| "code_text (JNum (FracNum s)) = [s]"
| "code_text v = []"

definition CODE_PROPERTIES :: "string list" where
  "CODE_PROPERTIES = [''code'', ''errno'', ''number'', ''errcode'']"

fun errorCodes :: "jsval \<Rightarrow> string list" where
  "errorCodes (JObj es) = concat (map (\<lambda>p. code_text (opt_default JUndefined (map_of es p))) CODE_PROPERTIES)"
| "errorCodes v = []"

definition canRetry :: "string list option \<Rightarrow> jsval \<Rightarrow> nat \<Rightarrow> tx_retry_policy option \<Rightarrow> bool" where
  "canRetry retryable error retries policy =
     (case (retryable, policy) of
        (Some codes, Some p) \<Rightarrow> retries < maxRetries p \<and> list_ex (\<lambda>c. c \<in> set codes) (errorCodes error)
      | _ \<Rightarrow> False)"

definition tx_backoff :: "tx_retry_policy \<Rightarrow> nat \<Rightarrow> nat" where
  "tx_backoff p retry = min (baseDelayMs p * 2 ^ (retry - 1)) (maxDelayMs p)"

section \<open>\<open>transaction\<close>\<close>

text \<open>
  One turn of the loop. \<open>Stop\<close> is an error that leaves the loop at once (from \<open>BEGIN\<close>, or from \<open>ROLLBACK\<close>
  in the \<open>catch\<close> block); \<open>Rolled\<close> is one the loop may retry.
\<close>

datatype attempt = Finished jsval | Stop jsval | Rolled jsval

definition roll_back :: "('w, 'q) tx_connection \<Rightarrow> nat \<Rightarrow> jsval \<Rightarrow> scopes \<Rightarrow> 'w \<Rightarrow> attempt \<times> scopes \<times> 'w" where
  "roll_back conn ctx error sc w =
     (case close_scope conn ctx sc w of (closed, sc', w1) \<Rightarrow>
        let failure = (case closed of Inl closeError \<Rightarrow> closeError | Inr _ \<Rightarrow> error) in
        (case tx_raw conn ''ROLLBACK'' w1 of
           (Inl e, w2) \<Rightarrow> (Stop e, sc', w2)
         | (Inr _, w2) \<Rightarrow> (Rolled failure, sc', w2)))"

definition finish_body ::
  "('w, 'q) tx_connection \<Rightarrow> nat \<Rightarrow> (jsval + jsval) \<times> scopes \<times> 'w \<Rightarrow> attempt \<times> scopes \<times> 'w" where
  "finish_body conn ctx ended = (case ended of
     (Inl e, sc, w) \<Rightarrow> roll_back conn ctx e sc w
   | (Inr result, sc, w) \<Rightarrow>
       (case close_scope conn ctx sc w of
          (Inl e, sc1, w1) \<Rightarrow> roll_back conn ctx e sc1 w1
        | (Inr _, sc1, w1) \<Rightarrow>
            (case tx_raw conn ''COMMIT'' w1 of
               (Inl e, w2) \<Rightarrow> roll_back conn ctx e sc1 w2
             | (Inr _, w2) \<Rightarrow> (Finished result, sc1, w2))))"

definition run_attempt ::
  "('w, 'q) tx_connection \<Rightarrow> (nat \<Rightarrow> 'q program) \<Rightarrow> scopes \<Rightarrow> 'w \<Rightarrow> attempt \<times> scopes \<times> 'w" where
  "run_attempt conn fn sc w =
     (case tx_raw conn ''BEGIN'' w of
        (Inl e, w1) \<Rightarrow> (Stop e, sc\<lparr>savepointSeq := 0\<rparr>, w1)
      | (Inr _, w1) \<Rightarrow>
          (case makeContext (sc\<lparr>savepointSeq := 0\<rparr>) of (ctx, sc1) \<Rightarrow>
             finish_body conn ctx (run_body (fn ctx) conn sc1 w1)))"

text \<open>The loop also returns the delays it waits for.\<close>

function transaction_loop ::
  "('w, 'q) tx_connection \<Rightarrow> (nat \<Rightarrow> 'q program) \<Rightarrow> tx_retry_policy option \<Rightarrow> nat \<Rightarrow> scopes \<Rightarrow> 'w \<Rightarrow>
   (jsval + jsval) \<times> nat list \<times> 'w" where
  "transaction_loop conn fn policy retries sc w =
     (case run_attempt conn fn sc w of
        (Finished x, sc', w') \<Rightarrow> (Inr x, [], w')
      | (Stop e, sc', w') \<Rightarrow> (Inl e, [], w')
      | (Rolled e, sc', w') \<Rightarrow>
          if \<not> canRetry (tx_retryableCodes conn) e retries policy then (Inl e, [], w')
          else case transaction_loop conn fn policy (Suc retries) sc' w' of
            (r, delays, w2) \<Rightarrow> (r, tx_backoff (the policy) (Suc retries) # delays, w2))"
  by pat_completeness auto
termination
  by (relation "measure (\<lambda>(conn, fn, policy, retries, sc, w). case policy of None \<Rightarrow> 0 | Some p \<Rightarrow> maxRetries p - retries)")
    (auto simp: canRetry_def split: option.splits)

declare transaction_loop.simps [simp del]

definition no_scopes :: scopes where
  "no_scopes = \<lparr>savepointSeq = 0, sc_next = 0, sc_open = []\<rparr>"

definition transaction ::
  "('w, 'q) tx_connection \<Rightarrow> (nat \<Rightarrow> 'q program) \<Rightarrow> retry_options option \<Rightarrow> 'w \<Rightarrow>
   js_error + (jsval + jsval) \<times> nat list \<times> 'w" where
  "transaction conn fn options w =
     rbind (retryPolicy options) (\<lambda>policy. Inr (transaction_loop conn fn policy 0 no_scopes w))"

section \<open>\<open>batch\<close>\<close>

primrec and_then :: "'q program \<Rightarrow> (jsval \<Rightarrow> 'q program) \<Rightarrow> 'q program" where
  "and_then (Return x) f = f x"
| "and_then (Throw e) f = Throw e"
| "and_then (Execute ctx q k) f = Execute ctx q (\<lambda>r. and_then (k r) f)"
| "and_then (Savepoint ctx body k) f = Savepoint ctx body (\<lambda>r. and_then (k r) f)"

fun batch_body :: "(nat \<Rightarrow> 'q program) list \<Rightarrow> jsval list \<Rightarrow> nat \<Rightarrow> 'q program" where
  "batch_body [] results ctx = Return (JArr results)"
| "batch_body (op # ops) results ctx = and_then (op ctx) (\<lambda>r. batch_body ops (results @ [r]) ctx)"

definition batch ::
  "('w, 'q) tx_connection \<Rightarrow> (nat \<Rightarrow> 'q program) list \<Rightarrow> 'w \<Rightarrow> js_error + (jsval + jsval) \<times> nat list \<times> 'w" where
  "batch conn ops w = transaction conn (batch_body ops []) None w"

end
