(* ===== verification/TransactionSessions.thy ===== *)
theory TransactionSessions
  imports Transactions
begin

text \<open>
  What a transaction relies on and what it does. A session is what the connection knows of the database: the
  committed state, the state of the open transaction, and the states its savepoints remember, the newest
  first. The contract says what each statement text does to the session when it succeeds, that a failing one
  leaves it alone, and that \<open>COMMIT\<close> and \<open>ROLLBACK\<close> commit nothing when they fail.
\<close>

section \<open>The contract\<close>

record 'd session =
  se_committed :: 'd
  se_working :: "'d option"
  se_marks :: "(nat \<times> 'd) list"

datatype tx_statement = Begin | Commit | Rollback | Mark nat | Release nat | BackTo nat

fun statement_text :: "tx_statement \<Rightarrow> string" where
  "statement_text Begin = ''BEGIN''"
| "statement_text Commit = ''COMMIT''"
| "statement_text Rollback = ''ROLLBACK''"
| "statement_text (Mark n) = ''SAVEPOINT '' @ savepoint_name n"
| "statement_text (Release n) = ''RELEASE SAVEPOINT '' @ savepoint_name n"
| "statement_text (BackTo n) = ''ROLLBACK TO SAVEPOINT '' @ savepoint_name n"

fun session_step :: "tx_statement \<Rightarrow> 'd session \<Rightarrow> 'd session" where
  "session_step Begin s = s\<lparr>se_working := Some (se_committed s), se_marks := []\<rparr>"
| "session_step Commit s =
     (case se_working s of None \<Rightarrow> s | Some d \<Rightarrow> \<lparr>se_committed = d, se_working = None, se_marks = []\<rparr>)"
| "session_step Rollback s = s\<lparr>se_working := None, se_marks := []\<rparr>"
| "session_step (Mark n) s =
     (case se_working s of None \<Rightarrow> s | Some d \<Rightarrow> s\<lparr>se_marks := (n, d) # se_marks s\<rparr>)"
| "session_step (Release n) s = s\<lparr>se_marks := tl (dropWhile (\<lambda>m. fst m \<noteq> n) (se_marks s))\<rparr>"
| "session_step (BackTo n) s =
     (case map_of (se_marks s) n of None \<Rightarrow> s
      | Some d \<Rightarrow> s\<lparr>se_working := Some d, se_marks := dropWhile (\<lambda>m. fst m \<noteq> n) (se_marks s)\<rparr>)"

definition session_contract ::
  "('q \<Rightarrow> 'd \<Rightarrow> (jsval + jsval) \<times> 'd) \<Rightarrow> ('w \<Rightarrow> 'd session) \<Rightarrow> ('w, 'q) tx_connection \<Rightarrow> bool" where
  "session_contract effect view conn \<longleftrightarrow>
     (\<forall>st w u w'. tx_raw conn (statement_text st) w = (Inr u, w') \<longrightarrow> view w' = session_step st (view w)) \<and>
     (\<forall>st w e w'. tx_raw conn (statement_text st) w = (Inl e, w') \<longrightarrow>
        (if st = Commit \<or> st = Rollback then se_committed (view w') = se_committed (view w) else view w' = view w)) \<and>
     (\<forall>q w r w' d. tx_execute conn q w = (r, w') \<longrightarrow> se_working (view w) = Some d \<longrightarrow>
        (\<exists>d'. effect q d = (r, d') \<and> view w' = (view w)\<lparr>se_working := Some d'\<rparr>)) \<and>
     (\<forall>ctx w r w'. tx_closeStreams conn ctx w = (r, w') \<longrightarrow> view w' = view w)"

text \<open>The statements about the transaction itself, and closing streams, succeed.\<close>

definition reliable :: "('w, 'q) tx_connection \<Rightarrow> bool" where
  "reliable conn \<longleftrightarrow> (\<forall>st w. \<exists>w'. tx_raw conn (statement_text st) w = (Inr (), w')) \<and>
     (\<forall>ctx w. \<exists>w'. tx_closeStreams conn ctx w = (Inr (), w'))"

lemma contract_raw:
  assumes "session_contract effect view conn" and "tx_raw conn (statement_text st) w = (r, w')"
  shows "(\<exists>u. r = Inr u) \<Longrightarrow> view w' = session_step st (view w)"
    and "r = Inl e \<Longrightarrow> st \<noteq> Commit \<and> st \<noteq> Rollback \<Longrightarrow> view w' = view w"
    and "r = Inl e \<Longrightarrow> se_committed (view w') = se_committed (view w)"
  using assms unfolding session_contract_def by (auto, metis)

lemmas contract_texts = statement_text.simps [symmetric]

lemma contract_execute:
  "session_contract effect view conn \<Longrightarrow> tx_execute conn q w = (r, w') \<Longrightarrow> se_working (view w) = Some d \<Longrightarrow>
   \<exists>d'. effect q d = (r, d') \<and> view w' = (view w)\<lparr>se_working := Some d'\<rparr>"
  unfolding session_contract_def by blast

lemma contract_close:
  "session_contract effect view conn \<Longrightarrow> close_scope conn ctx sc w = (r, sc', w') \<Longrightarrow> view w' = view w"
  unfolding session_contract_def close_scope_def by (auto split: if_splits prod.splits)

section \<open>A body never commits\<close>

definition in_transaction :: "('w \<Rightarrow> 'd session) \<Rightarrow> 'd \<Rightarrow> 'w \<Rightarrow> bool" where
  "in_transaction view c w \<longleftrightarrow> se_committed (view w) = c \<and> se_working (view w) \<noteq> None"

lemma step_in_transaction:
  assumes C: "session_contract effect view conn" and t: "in_transaction view c w"
    and "tx_raw conn (statement_text st) w = (r, w')" and st: "st \<notin> {Commit, Rollback}"
  shows "in_transaction view c w'"
proof (cases r)
  case (Inl e)
  with contract_raw(2) [OF C assms(3)] st t show ?thesis by (simp add: in_transaction_def)
next
  case (Inr u)
  with contract_raw(1) [OF C assms(3)] st t show ?thesis
    by (cases st) (auto simp: in_transaction_def split: option.splits)
qed

lemma undo_in_transaction:
  assumes C: "session_contract effect view conn" and t: "in_transaction view c w"
    and r: "undo_savepoint conn (savepoint_name n) ctx e sc w = (r, sc', w')"
  shows "in_transaction view c w'"
proof -
  obtain cr sc1 w1 where cl: "close_scope conn ctx sc w = (cr, sc1, w1)" by (cases "close_scope conn ctx sc w") auto
  obtain rr w2 where raw: "tx_raw conn (statement_text (BackTo n)) w1 = (rr, w2)" by fastforce
  have "in_transaction view c w1" using t contract_close [OF C cl] by (simp add: in_transaction_def)
  from step_in_transaction [OF C this raw] have "in_transaction view c w2" by simp
  then show ?thesis using r raw by (auto simp: undo_savepoint_def cl Let_def split: sum.splits)
qed

lemma leave_in_transaction:
  assumes C: "session_contract effect view conn" and t: "in_transaction view c w"
    and r: "leave_savepoint conn (savepoint_name n) ctx (x, sc, w) = (r, sc', w')"
  shows "in_transaction view c w'"
proof (cases x)
  case (Inl e)
  with r undo_in_transaction [OF C t] show ?thesis by (simp add: leave_savepoint_def)
next
  case (Inr v)
  obtain cr sc1 w1 where cl: "close_scope conn ctx sc w = (cr, sc1, w1)" by (cases "close_scope conn ctx sc w") auto
  have t1: "in_transaction view c w1" using t contract_close [OF C cl] by (simp add: in_transaction_def)
  obtain rr w2 where raw: "tx_raw conn (statement_text (Release n)) w1 = (rr, w2)" by fastforce
  from step_in_transaction [OF C t1 raw] have t2: "in_transaction view c w2" by simp
  show ?thesis using r raw undo_in_transaction [OF C t1] undo_in_transaction [OF C t2] t2
    by (auto simp: leave_savepoint_def Inr cl split: sum.splits)
qed

lemma body_in_transaction:
  assumes C: "session_contract effect view conn"
  shows "in_transaction view c w \<Longrightarrow> run_body p conn sc w = (r, sc', w') \<Longrightarrow> in_transaction view c w'"
proof (induction p arbitrary: sc w r sc' w')
  case (Execute ctx q k)
  show ?case
  proof (cases "ctx \<in> set (sc_open sc)")
    case True
    obtain x w1 where x: "tx_execute conn q w = (x, w1)" by fastforce
    from Execute.prems(1) obtain d where "se_working (view w) = Some d" by (auto simp: in_transaction_def)
    from contract_execute [OF C x this] Execute.prems(1) have "in_transaction view c w1" by (auto simp: in_transaction_def)
    with Execute.IH [OF rangeI] Execute.prems(2) True x show ?thesis by simp
  next
    case False
    with Execute.IH [OF rangeI] Execute.prems show ?thesis by simp
  qed
next
  case (Savepoint ctx body k)
  show ?case
  proof (cases "ctx \<in> set (sc_open sc)")
    case True
    let ?n = "Suc (savepointSeq sc)"
    obtain x w1 where x: "tx_raw conn (statement_text (Mark ?n)) w = (x, w1)" by fastforce
    from step_in_transaction [OF C Savepoint.prems(1) x] have t1: "in_transaction view c w1" by simp
    show ?thesis
    proof (cases x)
      case (Inl e)
      with Savepoint.IH(2) [OF rangeI t1] Savepoint.prems(2) True x show ?thesis by (simp add: Let_def)
    next
      case (Inr u)
      obtain nested sc1 where m: "makeContext (sc\<lparr>savepointSeq := ?n\<rparr>) = (nested, sc1)" by fastforce
      obtain y sc2 w2 where y: "run_body (body nested) conn sc1 w1 = (y, sc2, w2)" by (metis prod_cases3)
      obtain z sc3 w3 where z: "leave_savepoint conn (savepoint_name ?n) nested (y, sc2, w2) = (z, sc3, w3)" by (metis prod_cases3)
      from Savepoint.IH(1) [OF rangeI t1 y] have "in_transaction view c w2" .
      from leave_in_transaction [OF C this z] have "in_transaction view c w3" .
      moreover have "run_body (k z) conn sc3 w3 = (r, sc', w')"
        using Savepoint.prems(2) True x Inr m y z by (simp add: Let_def)
      ultimately show ?thesis using Savepoint.IH(2) [OF rangeI] by blast
    qed
  next
    case False
    with Savepoint.IH(2) [OF rangeI] Savepoint.prems show ?thesis by simp
  qed
qed auto

section \<open>An attempt commits all or nothing\<close>

lemma roll_back_keeps:
  assumes C: "session_contract effect view conn" and r: "roll_back conn ctx e sc w = (a, sc', w')"
  shows "se_committed (view w') = se_committed (view w) \<and>
    ((\<exists>e'. a = Stop e') \<or> (\<exists>e'. a = Rolled e') \<and> se_working (view w') = None)"
proof -
  obtain cr sc1 w1 where cl: "close_scope conn ctx sc w = (cr, sc1, w1)" by (metis prod_cases3)
  obtain rr w2 where raw: "tx_raw conn (statement_text Rollback) w1 = (rr, w2)" by fastforce
  have w': "w' = w2" and a: "a = Stop (case rr of Inl e' \<Rightarrow> e' | _ \<Rightarrow> e) \<or> (\<exists>u e'. rr = Inr u \<and> a = Rolled e')"
    using r raw by (auto simp: roll_back_def cl Let_def split: sum.splits)
  show ?thesis
  proof (cases rr)
    case (Inl e')
    with contract_raw(3) [OF C raw] a contract_close [OF C cl] show ?thesis by (auto simp: w')
  next
    case (Inr u)
    with contract_raw(1) [OF C raw] a contract_close [OF C cl] show ?thesis by (auto simp: w')
  qed
qed

text \<open>What a finished attempt has committed is the state its body ended in.\<close>

definition committed_by ::
  "('w \<Rightarrow> 'd session) \<Rightarrow> ('w, 'q) tx_connection \<Rightarrow> (nat \<Rightarrow> 'q program) \<Rightarrow> 'd \<Rightarrow> jsval \<Rightarrow> 'd \<Rightarrow> bool" where
  "committed_by view conn fn before x after \<longleftrightarrow> (\<exists>ctx sc w sc' w'.
     view w = \<lparr>se_committed = before, se_working = Some before, se_marks = []\<rparr> \<and>
     run_body (fn ctx) conn sc w = (Inr x, sc', w') \<and> se_working (view w') = Some after)"

lemma attempt_outcome:
  assumes C: "session_contract effect view conn" and idle: "se_working (view w) = None"
    and r: "run_attempt conn fn sc w = (a, sc', w')"
  shows "(\<exists>x. a = Finished x \<and> committed_by view conn fn (se_committed (view w)) x (se_committed (view w')) \<and>
        se_working (view w') = None) \<or>
    se_committed (view w') = se_committed (view w) \<and>
      ((\<exists>e. a = Stop e) \<or> (\<exists>e. a = Rolled e) \<and> se_working (view w') = None)"
proof -
  let ?c = "se_committed (view w)"
  obtain b w1 where b: "tx_raw conn (statement_text Begin) w = (b, w1)" by fastforce
  show ?thesis
  proof (cases b)
    case (Inl e)
    with r b contract_raw(3) [OF C b] show ?thesis by (auto simp: run_attempt_def)
  next
    case (Inr u)
    then have v1: "view w1 = \<lparr>se_committed = ?c, se_working = Some ?c, se_marks = []\<rparr>"
      using contract_raw(1) [OF C b] by (cases "view w") simp
    obtain ctx sc1 where m: "makeContext (sc\<lparr>savepointSeq := 0\<rparr>) = (ctx, sc1)" by fastforce
    obtain y sc2 w2 where y: "run_body (fn ctx) conn sc1 w1 = (y, sc2, w2)" by (metis prod_cases3)
    have "in_transaction view ?c w1" by (simp add: in_transaction_def v1)
    from body_in_transaction [OF C this y] have t2: "in_transaction view ?c w2" .
    have fin: "finish_body conn ctx (y, sc2, w2) = (a, sc', w')"
      using r b Inr m y by (simp add: run_attempt_def)
    have rolled: "roll_back conn ctx e sc3 w3 = (a, sc', w') \<Longrightarrow> se_committed (view w3) = ?c \<Longrightarrow> ?thesis" for e sc3 w3
      using roll_back_keeps [OF C] by fastforce
    show ?thesis
    proof (cases y)
      case (Inl e)
      with fin t2 rolled show ?thesis by (simp add: finish_body_def in_transaction_def)
    next
      case y_ok: (Inr x)
      obtain cr sc3 w3 where cl: "close_scope conn ctx sc2 w2 = (cr, sc3, w3)" by (metis prod_cases3)
      have v3: "view w3 = view w2" by (rule contract_close [OF C cl])
      obtain cm w4 where cm: "tx_raw conn (statement_text Commit) w3 = (cm, w4)" by fastforce
      show ?thesis
      proof (cases "\<exists>u v. cr = Inr u \<and> cm = Inr v")
        case True
        with fin cl cm y_ok have a: "a = Finished x" "w' = w4" by (auto simp: finish_body_def)
        from t2 obtain d where d: "se_working (view w2) = Some d" by (auto simp: in_transaction_def)
        with contract_raw(1) [OF C cm] True v3 have "view w4 = \<lparr>se_committed = d, se_working = None, se_marks = []\<rparr>" by auto
        moreover have "committed_by view conn fn ?c x d" unfolding committed_by_def using v1 y y_ok d by blast
        ultimately show ?thesis by (simp add: a)
      next
        case False
        then show ?thesis
          using fin cl cm y_ok t2 v3 contract_raw(3) [OF C cm] rolled
          by (auto simp: finish_body_def in_transaction_def split: sum.splits)
      qed
    qed
  qed
qed

definition delays_bounded :: "tx_retry_policy option \<Rightarrow> nat \<Rightarrow> nat list \<Rightarrow> bool" where
  "delays_bounded policy retries ds \<longleftrightarrow> (case policy of None \<Rightarrow> ds = []
     | Some p \<Rightarrow> retries + length ds \<le> max retries (maxRetries p) \<and> (\<forall>d \<in> set ds. d \<le> maxDelayMs p))"

lemma delays_bounded_Nil [simp]: "delays_bounded policy retries []"
  by (simp add: delays_bounded_def split: option.split)

lemma delays_bounded_Cons:
  "canRetry codes e retries policy \<Longrightarrow> delays_bounded policy (Suc retries) ds \<Longrightarrow>
   delays_bounded policy retries (tx_backoff (the policy) (Suc retries) # ds)"
  by (auto simp: delays_bounded_def canRetry_def tx_backoff_def split: option.splits)

lemma loop_outcome:
  assumes C: "session_contract effect view conn"
  shows "se_working (view w) = None \<Longrightarrow> transaction_loop conn fn policy retries sc w = (r, delays, w') \<Longrightarrow>
    delays_bounded policy retries delays \<and>
    (case r of Inl e \<Rightarrow> se_committed (view w') = se_committed (view w)
     | Inr x \<Rightarrow> committed_by view conn fn (se_committed (view w)) x (se_committed (view w')))"
proof (induction "case policy of None \<Rightarrow> 0 | Some p \<Rightarrow> maxRetries p - retries" arbitrary: retries sc w delays rule: less_induct)
  case less
  obtain a sc1 w1 where a: "run_attempt conn fn sc w = (a, sc1, w1)" by (metis prod_cases3)
  note out = attempt_outcome [OF C less.prems(1) a]
  show ?case
  proof (cases a)
    case (Rolled e)
    show ?thesis
    proof (cases "canRetry (tx_retryableCodes conn) e retries policy")
      case True
      obtain r' ds w2 where l: "transaction_loop conn fn policy (Suc retries) sc1 w1 = (r', ds, w2)" by (metis prod_cases3)
      have eq: "r' = r" "delays = tx_backoff (the policy) (Suc retries) # ds" "w2 = w'"
        using less.prems(2) a Rolled True l by (subst (asm) transaction_loop.simps, simp)+
      have "(case policy of None \<Rightarrow> 0 | Some p \<Rightarrow> maxRetries p - Suc retries) < (case policy of None \<Rightarrow> 0 | Some p \<Rightarrow> maxRetries p - retries)"
        using True by (auto simp: canRetry_def split: option.splits)
      from less.hyps [OF this _ l [unfolded eq(1,3)]] out Rolled
      have "delays_bounded policy (Suc retries) ds" "se_committed (view w1) = se_committed (view w)"
        "case r of Inl e \<Rightarrow> se_committed (view w') = se_committed (view w1)
         | Inr x \<Rightarrow> committed_by view conn fn (se_committed (view w1)) x (se_committed (view w'))" by auto
      with delays_bounded_Cons [OF True] eq(2) show ?thesis by (simp split: sum.splits)
    next
      case False
      with less.prems(2) a Rolled have "r = Inl e" "delays = []" "w' = w1" by (subst (asm) transaction_loop.simps, simp)+
      with out Rolled show ?thesis by auto
    qed
  next
    case (Finished x)
    with less.prems(2) a have "r = Inr x" "delays = []" "w' = w1" by (subst (asm) transaction_loop.simps, simp)+
    with out Finished show ?thesis by auto
  next
    case (Stop e)
    with less.prems(2) a have "r = Inl e" "delays = []" "w' = w1" by (subst (asm) transaction_loop.simps, simp)+
    with out Stop show ?thesis by auto
  qed
qed

section \<open>The meaning of a body\<close>

text \<open>
  The specification: a savepoint is a block that takes effect as a whole or not at all. It knows neither
  statements nor marks.
\<close>

primrec meaning ::
  "'q program \<Rightarrow> ('q \<Rightarrow> 'd \<Rightarrow> (jsval + jsval) \<times> 'd) \<Rightarrow> scopes \<Rightarrow> 'd \<Rightarrow> (jsval + jsval) \<times> scopes \<times> 'd" where
  "meaning (Return x) effect sc d = (Inr x, sc, d)"
| "meaning (Throw e) effect sc d = (Inl e, sc, d)"
| "meaning (Execute ctx q k) effect sc d =
     (if ctx \<notin> set (sc_open sc) then meaning (k (Inl transactionClosedError)) effect sc d
      else case effect q d of (r, d') \<Rightarrow> meaning (k r) effect sc d')"
| "meaning (Savepoint ctx body k) effect sc d =
     (if ctx \<notin> set (sc_open sc) then meaning (k (Inl transactionClosedError)) effect sc d
      else case makeContext (sc\<lparr>savepointSeq := Suc (savepointSeq sc)\<rparr>) of (nested, sc1) \<Rightarrow>
        (case meaning (body nested) effect sc1 d of (r, sc2, d') \<Rightarrow>
          meaning (k r) effect (sc2\<lparr>sc_open := removeAll nested (sc_open sc2)\<rparr>) (case r of Inl _ \<Rightarrow> d | Inr _ \<Rightarrow> d')))"

lemma reliable_raw: "reliable conn \<Longrightarrow> tx_raw conn (statement_text st) w = (r, w') \<Longrightarrow> r = Inr ()"
  unfolding reliable_def by (metis prod.inject)

lemma reliable_close:
  "reliable conn \<Longrightarrow> close_scope conn ctx sc w = (r, sc', w') \<Longrightarrow> r = Inr () \<and> sc' = sc\<lparr>sc_open := removeAll ctx (sc_open sc)\<rparr>"
  unfolding reliable_def close_scope_def by (auto split: if_splits prod.splits) (metis prod.inject)+

text \<open>The marks a body leaves behind are its own, and newer than those it found.\<close>

definition newer_marks :: "nat \<Rightarrow> nat \<Rightarrow> (nat \<times> 'd) list \<Rightarrow> bool" where
  "newer_marks low high ms \<longleftrightarrow> (\<forall>m \<in> set ms. low < fst m \<and> fst m \<le> high)"

lemma dropWhile_newer:
  "newer_marks n high ms \<Longrightarrow> dropWhile (\<lambda>m. fst m \<noteq> n) (ms @ (n, d) # rest) = (n, d) # rest"
  by (induction ms) (auto simp: newer_marks_def)

lemma map_of_newer: "newer_marks n high ms \<Longrightarrow> map_of (ms @ (n, d) # rest) n = Some d"
  by (induction ms) (auto simp: newer_marks_def)

lemma leave_meaning:
  assumes C: "session_contract effect view conn" and R: "reliable conn"
    and v: "view w = \<lparr>se_committed = c, se_working = Some d', se_marks = ms @ (n, d) # rest\<rparr>" and ms: "newer_marks n high ms"
    and l: "leave_savepoint conn (savepoint_name n) ctx (x, sc, w) = (r, sc', w')"
  shows "r = x \<and> sc' = sc\<lparr>sc_open := removeAll ctx (sc_open sc)\<rparr> \<and>
    view w' = (case x of Inr _ \<Rightarrow> \<lparr>se_committed = c, se_working = Some d', se_marks = rest\<rparr>
      | Inl _ \<Rightarrow> \<lparr>se_committed = c, se_working = Some d, se_marks = (n, d) # rest\<rparr>)"
proof -
  obtain cr sc1 w1 where cl: "close_scope conn ctx sc w = (cr, sc1, w1)" by (metis prod_cases3)
  note cl' = reliable_close [OF R cl] contract_close [OF C cl]
  show ?thesis
  proof (cases x)
    case (Inl e)
    obtain rr w2 where raw: "tx_raw conn (statement_text (BackTo n)) w1 = (rr, w2)" by fastforce
    note rr = reliable_raw [OF R raw]
    with contract_raw(1) [OF C raw] cl' v map_of_newer [OF ms] dropWhile_newer [OF ms]
    have "view w2 = \<lparr>se_committed = c, se_working = Some d, se_marks = (n, d) # rest\<rparr>" by simp
    with l Inl cl cl' raw rr show ?thesis by (auto simp: leave_savepoint_def undo_savepoint_def Let_def)
  next
    case (Inr y)
    obtain rr w2 where raw: "tx_raw conn (statement_text (Release n)) w1 = (rr, w2)" by fastforce
    note rr = reliable_raw [OF R raw]
    with contract_raw(1) [OF C raw] cl' v dropWhile_newer [OF ms]
    have "view w2 = \<lparr>se_committed = c, se_working = Some d', se_marks = rest\<rparr>" by simp
    with l Inr cl cl' raw rr show ?thesis by (auto simp: leave_savepoint_def)
  qed
qed

lemma run_meaning:
  assumes C: "session_contract effect view conn" and R: "reliable conn"
  shows "view w = \<lparr>se_committed = c, se_working = Some d, se_marks = marks\<rparr> \<Longrightarrow>
    \<forall>m \<in> set marks. fst m \<le> savepointSeq sc \<Longrightarrow> run_body p conn sc w = (r, sc', w') \<Longrightarrow>
    \<exists>d' ms. meaning p effect sc d = (r, sc', d') \<and>
      view w' = \<lparr>se_committed = c, se_working = Some d', se_marks = ms @ marks\<rparr> \<and>
      newer_marks (savepointSeq sc) (savepointSeq sc') ms \<and> savepointSeq sc \<le> savepointSeq sc'"
proof (induction p arbitrary: sc w d marks r sc' w')
  case (Execute ctx q k)
  show ?case
  proof (cases "ctx \<in> set (sc_open sc)")
    case True
    obtain x w1 where x: "tx_execute conn q w = (x, w1)" by fastforce
    from contract_execute [OF C x] Execute.prems(1) obtain d1 where
      d1: "effect q d = (x, d1)" "view w1 = \<lparr>se_committed = c, se_working = Some d1, se_marks = marks\<rparr>" by auto
    from Execute.prems(3) True x have "run_body (k x) conn sc w1 = (r, sc', w')" by simp
    from Execute.IH [OF rangeI d1(2) Execute.prems(2) this] d1(1) True show ?thesis by auto
  next
    case False
    with Execute.IH [OF rangeI Execute.prems(1,2)] Execute.prems(3) show ?thesis by auto
  qed
next
  case (Savepoint ctx body k)
  show ?case
  proof (cases "ctx \<in> set (sc_open sc)")
    case True
    let ?n = "Suc (savepointSeq sc)"
    obtain x w1 where x: "tx_raw conn (statement_text (Mark ?n)) w = (x, w1)" by fastforce
    note x' = reliable_raw [OF R x]
    with contract_raw(1) [OF C x] Savepoint.prems(1)
    have v1: "view w1 = \<lparr>se_committed = c, se_working = Some d, se_marks = (?n, d) # marks\<rparr>" by simp
    obtain nested sc1 where m: "makeContext (sc\<lparr>savepointSeq := ?n\<rparr>) = (nested, sc1)" by fastforce
    have seq1: "savepointSeq sc1 = ?n" using m by (auto simp: makeContext_def)
    obtain y sc2 w2 where y: "run_body (body nested) conn sc1 w1 = (y, sc2, w2)" by (metis prod_cases3)
    have "\<forall>m \<in> set ((?n, d) # marks). fst m \<le> savepointSeq sc1" using Savepoint.prems(2) seq1 by auto
    from Savepoint.IH(1) [OF rangeI v1 this y] obtain d1 ms where inner: "meaning (body nested) effect sc1 d = (y, sc2, d1)"
      "view w2 = \<lparr>se_committed = c, se_working = Some d1, se_marks = ms @ (?n, d) # marks\<rparr>"
      "newer_marks ?n (savepointSeq sc2) ms" "?n \<le> savepointSeq sc2" unfolding seq1 by blast
    obtain z sc3 w3 where z: "leave_savepoint conn (savepoint_name ?n) nested (y, sc2, w2) = (z, sc3, w3)" by (metis prod_cases3)
    note left = leave_meaning [OF C R inner(2,3) z]
    have "run_body (k z) conn sc3 w3 = (r, sc', w')"
      using Savepoint.prems(3) True x x' m y z by (simp add: Let_def)
    then have rest: "run_body (k y) conn (sc2\<lparr>sc_open := removeAll nested (sc_open sc2)\<rparr>) w3 = (r, sc', w')" using left by simp
    define d2 where "d2 = (case y of Inl _ \<Rightarrow> d | Inr _ \<Rightarrow> d1)"
    define own where "own = (case y of Inl _ \<Rightarrow> [(?n, d)] | Inr _ \<Rightarrow> [])"
    have v3: "view w3 = \<lparr>se_committed = c, se_working = Some d2, se_marks = own @ marks\<rparr>"
      using left by (simp add: d2_def own_def split: sum.splits)
    have own: "newer_marks (savepointSeq sc) (savepointSeq sc2) own"
      using inner(4) by (simp add: own_def newer_marks_def split: sum.splits)
    have "\<forall>m \<in> set (own @ marks). fst m \<le> savepointSeq (sc2\<lparr>sc_open := removeAll nested (sc_open sc2)\<rparr>)"
      using own inner(4) Savepoint.prems(2) by (auto simp: newer_marks_def)
    from Savepoint.IH(2) [OF rangeI v3 this rest] obtain d' ms' where
      "meaning (k y) effect (sc2\<lparr>sc_open := removeAll nested (sc_open sc2)\<rparr>) d2 = (r, sc', d')"
      "view w' = \<lparr>se_committed = c, se_working = Some d', se_marks = ms' @ own @ marks\<rparr>"
      "newer_marks (savepointSeq sc2) (savepointSeq sc') ms'" "savepointSeq sc2 \<le> savepointSeq sc'" by auto
    moreover from this(3,4) own inner(4) have "newer_marks (savepointSeq sc) (savepointSeq sc') (ms' @ own)"
      by (auto simp: newer_marks_def)
    ultimately show ?thesis using True m inner(1,4) by (auto simp: d2_def intro!: exI [of _ "ms' @ own"])
  next
    case False
    with Savepoint.IH(2) [OF rangeI Savepoint.prems(1,2)] Savepoint.prems(3) show ?thesis by auto
  qed
qed (auto simp: newer_marks_def intro: exI [of _ "[]"])

text \<open>The scopes a transaction starts with.\<close>

definition first_scope :: scopes where
  "first_scope = \<lparr>savepointSeq = 0, sc_next = 1, sc_open = [0]\<rparr>"

lemma attempt_meaning:
  assumes C: "session_contract effect view conn" and R: "reliable conn"
    and a: "run_attempt conn fn no_scopes w = (a, sc', w')"
  shows "case meaning (fn 0) effect first_scope (se_committed (view w)) of
      (Inr x, _, d) \<Rightarrow> a = Finished x \<and> view w' = \<lparr>se_committed = d, se_working = None, se_marks = []\<rparr>
    | (Inl e, _, d) \<Rightarrow> a = Rolled e \<and> view w' = \<lparr>se_committed = se_committed (view w), se_working = None, se_marks = []\<rparr>"
proof -
  let ?c = "se_committed (view w)"
  obtain b w1 where b: "tx_raw conn (statement_text Begin) w = (b, w1)" by fastforce
  note b' = reliable_raw [OF R b]
  have v1: "view w1 = \<lparr>se_committed = ?c, se_working = Some ?c, se_marks = []\<rparr>"
    using contract_raw(1) [OF C b] b' by (cases "view w") simp
  obtain y sc2 w2 where y: "run_body (fn 0) conn first_scope w1 = (y, sc2, w2)" by (metis prod_cases3)
  from run_meaning [OF C R v1 _ y] obtain d ms where m: "meaning (fn 0) effect first_scope ?c = (y, sc2, d)"
    "view w2 = \<lparr>se_committed = ?c, se_working = Some d, se_marks = ms\<rparr>" by auto
  have fin: "finish_body conn 0 (y, sc2, w2) = (a, sc', w')"
    using a b b' y by (simp add: run_attempt_def makeContext_def no_scopes_def first_scope_def)
  obtain cr sc3 w3 where cl: "close_scope conn 0 sc2 w2 = (cr, sc3, w3)" by (metis prod_cases3)
  note cl' = reliable_close [OF R cl] contract_close [OF C cl]
  show ?thesis
  proof (cases y)
    case (Inl e)
    obtain rb w4 where rb: "tx_raw conn (statement_text Rollback) w3 = (rb, w4)" by fastforce
    note rb' = reliable_raw [OF R rb]
    with fin Inl cl cl' rb have "a = Rolled e \<and> w' = w4" by (auto simp: finish_body_def roll_back_def Let_def)
    with contract_raw(1) [OF C rb] rb' cl' m Inl show ?thesis by simp
  next
    case (Inr x)
    obtain cm w4 where cm: "tx_raw conn (statement_text Commit) w3 = (cm, w4)" by fastforce
    note cm' = reliable_raw [OF R cm]
    with fin Inr cl cl' cm have "a = Finished x \<and> w' = w4" by (auto simp: finish_body_def)
    with contract_raw(1) [OF C cm] cm' cl' m Inr show ?thesis by simp
  qed
qed

end
