(* ===== verification/TransactionStreams.thy ===== *)
theory TransactionStreams
  imports Transactions
begin

text \<open>
  \<open>trackedTransactionStream\<close> and the closing of a scope in \<open>makeContext\<close>
  (\<open>packages/orm/src/transactions/index.ts\<close>), cut at the awaits: a \<open>next\<close> is called in one step and settles
  in another, and \<open>close\<close> of a scope closes its streams one step at a time. What the source of a stream
  answers, and whether its \<open>return\<close> rejects, are chosen by the environment; the source has the optional
  methods \<open>return\<close> and \<open>throw\<close>.
\<close>

section \<open>A tracked stream\<close>

text \<open>A stream is in \<open>active\<close> from its start until \<open>closed\<close> is set. \<open>tr_returns\<close> counts the calls of \<open>return\<close> of the source.\<close>

record tracked =
  tr_started :: bool
  tr_closed :: bool
  tr_iterator :: bool
  tr_closing :: "(jsval + unit) option"
  tr_pending :: nat
  tr_returns :: nat

definition new_stream :: tracked where
  "new_stream = \<lparr>tr_started = False, tr_closed = False, tr_iterator = False, tr_closing = None, tr_pending = 0, tr_returns = 0\<rparr>"

definition stream_active :: "tracked \<Rightarrow> bool" where
  "stream_active t \<longleftrightarrow> tr_started t \<and> \<not> tr_closed t"

datatype stream_result = StreamRow jsval | StreamDone | StreamFailed jsval

text \<open>\<open>close\<close>: \<open>returned\<close> is how \<open>return\<close> of the source settles if it is called now.\<close>

definition close_stream :: "jsval + unit \<Rightarrow> tracked \<Rightarrow> (jsval + unit) \<times> tracked" where
  "close_stream returned t = (case tr_closing t of
     Some settled \<Rightarrow> (settled, t)
   | None \<Rightarrow>
       if tr_closed t then (Inr (), t)
       else let settled = (if tr_iterator t then returned else Inr ()) in
         (settled, t\<lparr>tr_closed := True, tr_iterator := False, tr_closing := Some settled,
            tr_returns := tr_returns t + (if tr_iterator t then 1 else 0)\<rparr>))"

definition open_iterator :: "bool \<Rightarrow> tracked \<Rightarrow> jsval + tracked" where
  "open_iterator isOpen t =
     (if tr_started t then Inl (error_object ''transaction stream is single-shot'')
      else if \<not> isOpen then Inl transactionClosedError
      else Inr (t\<lparr>tr_started := True, tr_iterator := True\<rparr>))"

text \<open>\<open>next\<close> up to its \<open>await\<close>: an answer at once, or a call of the source that is pending.\<close>

definition next_call :: "bool \<Rightarrow> tracked \<Rightarrow> stream_result option \<times> tracked" where
  "next_call isOpen t =
     (if \<not> isOpen then (Some (StreamFailed transactionClosedError), t)
      else if \<not> tr_iterator t then (Some StreamDone, t)
      else (None, t\<lparr>tr_pending := Suc (tr_pending t)\<rparr>))"

definition close_and_throw :: "jsval \<Rightarrow> jsval + unit \<Rightarrow> tracked \<Rightarrow> stream_result \<times> tracked" where
  "close_and_throw error returned t = (case close_stream returned t of
     (Inl e, t') \<Rightarrow> (StreamFailed e, t') | (Inr _, t') \<Rightarrow> (StreamFailed error, t'))"

fun next_settles :: "bool \<Rightarrow> jsval + unit \<Rightarrow> stream_result \<Rightarrow> tracked \<Rightarrow> stream_result \<times> tracked" where
  "next_settles isOpen returned (StreamFailed e) t = close_and_throw e returned (t\<lparr>tr_pending := tr_pending t - 1\<rparr>)"
| "next_settles isOpen returned result t =
     (let t = t\<lparr>tr_pending := tr_pending t - 1\<rparr> in
      if \<not> isOpen then close_and_throw transactionClosedError returned t
      else if result = StreamDone then (StreamDone, t\<lparr>tr_closed := True, tr_iterator := False\<rparr>)
      else (result, t))"

definition return_call :: "jsval + unit \<Rightarrow> tracked \<Rightarrow> stream_result \<times> tracked" where
  "return_call returned t = (case close_stream returned t of
     (Inl e, t') \<Rightarrow> (StreamFailed e, t') | (Inr _, t') \<Rightarrow> (StreamDone, t'))"

text \<open>\<open>throw\<close>: \<open>thrown\<close> is what \<open>throw\<close> of the source answers, if the iterator is there and has it.\<close>

definition throw_call :: "stream_result option \<Rightarrow> jsval \<Rightarrow> jsval + unit \<Rightarrow> tracked \<Rightarrow> stream_result \<times> tracked" where
  "throw_call thrown error returned t =
     (let answered = (case thrown of Some r \<Rightarrow> if tr_iterator t then r else StreamFailed error | None \<Rightarrow> StreamFailed error) in
      (case close_stream returned t of (Inl e, t') \<Rightarrow> (StreamFailed e, t') | (Inr _, t') \<Rightarrow> (answered, t')))"

section \<open>The streams of a scope\<close>

record stream_scope =
  ss_open :: bool
  ss_streams :: "tracked list"
  ss_failure :: "jsval option"

definition new_scope :: stream_scope where
  "new_scope = \<lparr>ss_open = True, ss_streams = [], ss_failure = None\<rparr>"

text \<open>\<open>close\<close> of the scope has returned.\<close>

definition scope_drained :: "stream_scope \<Rightarrow> bool" where
  "scope_drained s \<longleftrightarrow> \<not> ss_open s \<and> list_all (\<lambda>t. \<not> stream_active t) (ss_streams s)"

definition put_stream :: "stream_scope \<Rightarrow> nat \<Rightarrow> tracked \<Rightarrow> stream_scope" where
  "put_stream s i t = s\<lparr>ss_streams := (ss_streams s)[i := t]\<rparr>"

text \<open>One turn of the loop over \<open>activeStreams\<close>; the first failure is kept.\<close>

definition close_one :: "jsval + unit \<Rightarrow> nat \<Rightarrow> stream_scope \<Rightarrow> stream_scope" where
  "close_one returned i s = (case close_stream returned (ss_streams s ! i) of
     (settled, t) \<Rightarrow> (put_stream s i t)\<lparr>ss_failure := (case (ss_failure s, settled) of (None, Inl e) \<Rightarrow> Some e | _ \<Rightarrow> ss_failure s)\<rparr>)"

text \<open>A step and the result it hands to the caller, if any.\<close>

inductive stream_step :: "stream_scope \<Rightarrow> stream_result option \<Rightarrow> stream_scope \<Rightarrow> bool" where
  create: "ss_open s \<Longrightarrow> stream_step s None (s\<lparr>ss_streams := ss_streams s @ [new_stream]\<rparr>)"
| iterate: "i < length (ss_streams s) \<Longrightarrow> open_iterator (ss_open s) (ss_streams s ! i) = Inr t \<Longrightarrow> stream_step s None (put_stream s i t)"
| refused: "i < length (ss_streams s) \<Longrightarrow> open_iterator (ss_open s) (ss_streams s ! i) = Inl e \<Longrightarrow> stream_step s (Some (StreamFailed e)) s"
| next_called: "i < length (ss_streams s) \<Longrightarrow> tr_started (ss_streams s ! i) \<Longrightarrow> next_call (ss_open s) (ss_streams s ! i) = (r, t) \<Longrightarrow>
    stream_step s r (put_stream s i t)"
| next_settled: "i < length (ss_streams s) \<Longrightarrow> 0 < tr_pending (ss_streams s ! i) \<Longrightarrow>
    next_settles (ss_open s) returned answered (ss_streams s ! i) = (r, t) \<Longrightarrow> stream_step s (Some r) (put_stream s i t)"
| returned: "i < length (ss_streams s) \<Longrightarrow> tr_started (ss_streams s ! i) \<Longrightarrow> return_call returned (ss_streams s ! i) = (r, t) \<Longrightarrow>
    stream_step s (Some r) (put_stream s i t)"
| thrown: "i < length (ss_streams s) \<Longrightarrow> tr_started (ss_streams s ! i) \<Longrightarrow>
    throw_call answered error returned (ss_streams s ! i) = (r, t) \<Longrightarrow> stream_step s (Some r) (put_stream s i t)"
| close: "ss_open s \<Longrightarrow> stream_step s None (s\<lparr>ss_open := False\<rparr>)"
| close_next: "\<not> ss_open s \<Longrightarrow> i < length (ss_streams s) \<Longrightarrow> stream_active (ss_streams s ! i) \<Longrightarrow>
    stream_step s None (close_one returned i s)"

inductive stream_reachable :: "stream_scope \<Rightarrow> bool" where
  fresh: "stream_reachable new_scope"
| step: "stream_reachable s \<Longrightarrow> stream_step s r s' \<Longrightarrow> stream_reachable s'"

section \<open>The source is left exactly once\<close>

definition tracked_sound :: "tracked \<Rightarrow> bool" where
  "tracked_sound t \<longleftrightarrow>
     (tr_iterator t \<longleftrightarrow> stream_active t) \<and> tr_returns t \<le> 1 \<and>
     (tr_returns t = 1 \<longrightarrow> tr_closed t) \<and> (tr_closing t \<noteq> None \<longrightarrow> tr_closed t) \<and> (tr_closed t \<longrightarrow> tr_started t)"

lemma new_stream_sound: "tracked_sound new_stream"
  by (simp add: tracked_sound_def new_stream_def stream_active_def)

lemma close_stream_sound:
  assumes "close_stream returned t = (settled, t')" and "tracked_sound t" and "tr_started t"
  shows "tracked_sound t' \<and> tr_started t' \<and> tr_closed t'"
  using assms by (auto simp: close_stream_def tracked_sound_def stream_active_def Let_def split: option.splits if_splits)

lemma close_stream_closed:
  "tracked_sound t \<Longrightarrow> tr_closed t \<Longrightarrow> close_stream returned t = (settled, t') \<Longrightarrow> t' = t"
  by (auto simp: close_stream_def split: option.splits)

definition scope_sound :: "stream_scope \<Rightarrow> bool" where
  "scope_sound s \<longleftrightarrow> list_all (\<lambda>t. tracked_sound t \<and> (0 < tr_pending t \<longrightarrow> tr_started t)) (ss_streams s)"

lemma scope_sound_nth: "scope_sound s \<Longrightarrow> i < length (ss_streams s) \<Longrightarrow>
  tracked_sound (ss_streams s ! i) \<and> (0 < tr_pending (ss_streams s ! i) \<longrightarrow> tr_started (ss_streams s ! i))"
  by (simp add: scope_sound_def list_all_length)

lemma put_stream_sound:
  "scope_sound s \<Longrightarrow> tracked_sound t \<Longrightarrow> tr_started t \<Longrightarrow> scope_sound (put_stream s i t)"
  by (auto simp: scope_sound_def put_stream_def list_all_iff dest!: set_update_subset_insert [THEN subsetD])

lemma settled_sound:
  assumes s: "tracked_sound t" "tr_started t"
  shows "close_and_throw e returned t = (r, t') \<Longrightarrow> tracked_sound t' \<and> tr_started t'"
    and "return_call returned t = (r, t') \<Longrightarrow> tracked_sound t' \<and> tr_started t'"
    and "throw_call answered e returned t = (r, t') \<Longrightarrow> tracked_sound t' \<and> tr_started t'"
  using close_stream_sound [OF _ s] 
  by (auto simp: close_and_throw_def return_call_def throw_call_def Let_def split: prod.splits sum.splits)

lemma next_settles_sound:
  assumes "tracked_sound t" and "tr_started t" and "next_settles isOpen returned answered t = (r, t')"
  shows "tracked_sound t' \<and> tr_started t'"
proof -
  let ?t = "t\<lparr>tr_pending := tr_pending t - 1\<rparr>"
  have s: "tracked_sound ?t" "tr_started ?t" using assms(1,2) by (simp_all add: tracked_sound_def stream_active_def)
  show ?thesis
  proof (cases "answered = StreamDone \<and> isOpen")
    case True
    with assms show ?thesis by (auto simp: tracked_sound_def stream_active_def)
  next
    case False
    with assms(3) s settled_sound(1) [OF s] show ?thesis by (cases answered) (auto simp: Let_def split: if_splits)
  qed
qed

lemma open_iterator_sound: "tracked_sound t \<Longrightarrow> open_iterator isOpen t = Inr t' \<Longrightarrow> tracked_sound t' \<and> tr_started t'"
  by (auto simp: open_iterator_def tracked_sound_def stream_active_def split: if_splits)

lemma next_call_sound:
  "tracked_sound t \<Longrightarrow> tr_started t \<Longrightarrow> next_call isOpen t = (r, t') \<Longrightarrow> tracked_sound t' \<and> tr_started t'"
  by (auto simp: next_call_def tracked_sound_def stream_active_def split: if_splits)

lemma new_scope_sound: "scope_sound new_scope"
  by (simp add: scope_sound_def new_scope_def)

lemma stream_step_sound:
  assumes "stream_step s r s'" and "scope_sound s"
  shows "scope_sound s'"
  using assms(1)
proof cases
  case create
  then show ?thesis using assms(2) new_stream_sound by (simp add: scope_sound_def new_stream_def)
next
  case (iterate i t)
  then show ?thesis using open_iterator_sound scope_sound_nth [OF assms(2)] by (metis put_stream_sound [OF assms(2)])
next
  case (next_called i t)
  then show ?thesis using next_call_sound scope_sound_nth [OF assms(2)] by (metis put_stream_sound [OF assms(2)])
next
  case (next_settled i returned answered r t)
  then show ?thesis using next_settles_sound scope_sound_nth [OF assms(2)] by (metis put_stream_sound [OF assms(2)])
next
  case (returned i returned r t)
  then show ?thesis using settled_sound(2) scope_sound_nth [OF assms(2)] by (metis put_stream_sound [OF assms(2)])
next
  case (thrown i answered error returned r t)
  then show ?thesis using settled_sound(3) scope_sound_nth [OF assms(2)] by (metis put_stream_sound [OF assms(2)])
next
  case (close_next i returned)
  obtain settled t where c: "close_stream returned (ss_streams s ! i) = (settled, t)" by fastforce
  from close_stream_sound [OF c] close_next scope_sound_nth [OF assms(2)] have "tracked_sound t" "tr_started t"
    by (auto simp: stream_active_def)
  from put_stream_sound [OF assms(2) this] show ?thesis using c close_next by (simp add: close_one_def scope_sound_def)
qed (use assms(2) in \<open>simp_all add: scope_sound_def\<close>)

lemma stream_reachable_sound: "stream_reachable s \<Longrightarrow> scope_sound s"
  by (induction rule: stream_reachable.induct) (auto intro: stream_step_sound new_scope_sound)

section \<open>Nothing is read once the scope is closed\<close>

lemma drained_nth: "scope_drained s \<Longrightarrow> i < length (ss_streams s) \<Longrightarrow> \<not> ss_open s \<and> \<not> stream_active (ss_streams s ! i)"
  by (simp add: scope_drained_def list_all_length)

lemma put_stream_same [simp]: "i < length (ss_streams s) \<Longrightarrow> put_stream s i (ss_streams s ! i) = s"
  by (simp add: put_stream_def)

lemma put_stream_drained:
  assumes "scope_drained s" and "\<not> stream_active t" and "tr_returns t = tr_returns (ss_streams s ! i)"
  shows "scope_drained (put_stream s i t) \<and> map tr_returns (ss_streams (put_stream s i t)) = map tr_returns (ss_streams s)"
proof -
  have "map tr_returns ((ss_streams s)[i := t]) = map tr_returns (ss_streams s)"
    using assms(3) by (metis list_update_id map_update)
  with assms(1,2) show ?thesis
    by (auto simp: scope_drained_def put_stream_def list_all_iff dest!: set_update_subset_insert [THEN subsetD])
qed

lemma closed_settles:
  assumes "tracked_sound t" and "tr_closed t"
  shows "close_and_throw e returned t = (r, t') \<Longrightarrow> t' = t \<and> (\<forall>x. r \<noteq> StreamRow x)"
    and "return_call returned t = (r, t') \<Longrightarrow> t' = t \<and> (\<forall>x. r \<noteq> StreamRow x)"
    and "throw_call answered e returned t = (r, t') \<Longrightarrow> t' = t \<and> (\<forall>x. r \<noteq> StreamRow x)"
  using close_stream_closed [OF assms] assms
  by (auto simp: close_and_throw_def return_call_def throw_call_def tracked_sound_def stream_active_def Let_def
      split: prod.splits sum.splits option.splits)

lemma closed_next_settles:
  assumes s: "tracked_sound t" "tr_closed t" and "next_settles False returned answered t = (r, t')"
  shows "t' = t\<lparr>tr_pending := tr_pending t - 1\<rparr> \<and> (\<forall>x. r \<noteq> StreamRow x)"
proof -
  have "tracked_sound (t\<lparr>tr_pending := tr_pending t - 1\<rparr>)" "tr_closed (t\<lparr>tr_pending := tr_pending t - 1\<rparr>)"
    using s by (simp_all add: tracked_sound_def stream_active_def)
  from closed_settles(1) [OF this] assms(3) show ?thesis by (cases answered) (simp_all add: Let_def)
qed

lemma drained_step:
  assumes "scope_sound s" and d: "scope_drained s" and "stream_step s r s'"
  shows "scope_drained s' \<and> map tr_returns (ss_streams s') = map tr_returns (ss_streams s) \<and> (\<forall>x. r \<noteq> Some (StreamRow x))"
  using assms(3)
proof cases
  case (next_settled i returned answered r' t)
  note i = scope_sound_nth [OF assms(1) next_settled(3)] drained_nth [OF d next_settled(3)]
  have "tr_closed (ss_streams s ! i)" using i next_settled(4) by (auto simp: stream_active_def)
  from closed_next_settles [OF _ this] i next_settled have
    "t = (ss_streams s ! i)\<lparr>tr_pending := tr_pending (ss_streams s ! i) - 1\<rparr>" "\<forall>x. r' \<noteq> StreamRow x" by auto
  with put_stream_drained [OF d, of t i] i next_settled show ?thesis by (simp add: stream_active_def)
next
  case (returned i returned r' t)
  note i = scope_sound_nth [OF assms(1) returned(3)] drained_nth [OF d returned(3)]
  have "tr_closed (ss_streams s ! i)" using i returned(4) by (auto simp: stream_active_def)
  from closed_settles(2) [OF _ this returned(5)] i returned d show ?thesis by simp
next
  case (thrown i answered error returned r' t)
  note i = scope_sound_nth [OF assms(1) thrown(3)] drained_nth [OF d thrown(3)]
  have "tr_closed (ss_streams s ! i)" using i thrown(4) by (auto simp: stream_active_def)
  from closed_settles(3) [OF _ this thrown(5)] i thrown d show ?thesis by simp
qed (use d drained_nth [OF d] in \<open>auto simp: scope_drained_def open_iterator_def next_call_def split: if_splits\<close>)

lemma drained_leaves_sources:
  assumes "scope_sound s" and "scope_drained s"
  shows "list_all (\<lambda>t. \<not> tr_iterator t \<and> tr_returns t \<le> 1) (ss_streams s)"
  using assms by (auto simp: scope_sound_def scope_drained_def list_all_iff tracked_sound_def)

text \<open>The result of \<open>next\<close> is a row only while the scope is open.\<close>

lemma next_row_open: "next_settles isOpen returned answered t = (StreamRow x, t') \<Longrightarrow> isOpen"
  by (cases answered) (auto simp: close_and_throw_def Let_def split: if_splits prod.splits sum.splits)

end
