(* ===== verification/TransactionProperties.thy ===== *)
theory TransactionProperties
  imports TransactionSessions TransactionStreams
begin

section \<open>Properties of transactions\<close>

subsection \<open>A connection for the witnesses\<close>

text \<open>A database that is the list of the statements it has run; \<open>bad\<close> is one it refuses.\<close>

definition statement_of :: "string \<Rightarrow> tx_statement" where
  "statement_of sql =
     (if sql = ''BEGIN'' then Begin else if sql = ''COMMIT'' then Commit else if sql = ''ROLLBACK'' then Rollback
      else if take 10 sql = ''SAVEPOINT '' then Mark (parse_digits (drop 11 sql))
      else if take 18 sql = ''RELEASE SAVEPOINT '' then Release (parse_digits (drop 19 sql))
      else BackTo (parse_digits (drop 23 sql)))"

lemma statement_of_text [simp]: "statement_of (statement_text st) = st"
  by (cases st) (simp_all add: statement_of_def savepoint_name_def)

definition refused :: jsval where
  "refused = JObj [(''code'', JStr ''40001'')]"

definition memory_effect :: "string \<Rightarrow> string list \<Rightarrow> (jsval + jsval) \<times> string list" where
  "memory_effect q d = (if q = ''bad'' then (Inl refused, d) else (Inr JNull, d @ [q]))"

definition memory_connection :: "(string list session, string) tx_connection" where
  "memory_connection = \<lparr>
     tx_raw = (\<lambda>sql w. (Inr (), session_step (statement_of sql) w)),
     tx_execute = (\<lambda>q w. case se_working w of
         None \<Rightarrow> (Inl refused, w)
       | Some d \<Rightarrow> (case memory_effect q d of (r, d') \<Rightarrow> (r, w\<lparr>se_working := Some d'\<rparr>))),
     tx_closeStreams = (\<lambda>ctx w. (Inr (), w)),
     tx_retryableCodes = Some [''40001'']\<rparr>"

lemma memory_connection_contract: "session_contract memory_effect (\<lambda>w. w) memory_connection"
  by (auto simp: session_contract_def memory_connection_def split: prod.splits)

lemma memory_connection_reliable: "reliable memory_connection"
  by (simp add: reliable_def memory_connection_def)

definition idle :: "string list session" where
  "idle = \<lparr>se_committed = [''old''], se_working = None, se_marks = []\<rparr>"

text \<open>Writes \<open>a\<close>, then \<open>b\<close> in a savepoint that fails, and goes on to return.\<close>

definition partial_writes :: "nat \<Rightarrow> string program" where
  "partial_writes ctx = Execute ctx ''a'' (\<lambda>_. Savepoint ctx
     (\<lambda>nested. Execute nested ''b'' (\<lambda>_. Execute nested ''bad'' (\<lambda>r. case r of Inl e \<Rightarrow> Throw e | Inr x \<Rightarrow> Return x)))
     (\<lambda>_. Execute ctx ''c'' (\<lambda>_. Return (JStr ''done''))))"



subsection \<open>Atomicity and retries\<close>




text \<open>
  C6: On a connection whose transaction statements succeed, \<open>transaction\<close> implements the meaning of its body, in
  which a savepoint takes effect as a whole or not at all and a context refuses every call once its scope has
  ended: the result is that of the body, the final state of the body is committed or, when it throws, nothing
  is, and no transaction and no savepoint is left open.
\<close>
theorem transaction_refines_meaning:
  assumes "session_contract effect view conn" and "reliable conn"
    and "transaction conn fn None w = Inr (r, delays, w')"
  shows "case meaning (fn 0) effect first_scope (se_committed (view w)) of
      (Inr x, _, d) \<Rightarrow> r = Inr x \<and> view w' = \<lparr>se_committed = d, se_working = None, se_marks = []\<rparr>
    | (Inl e, _, d) \<Rightarrow> r = Inl e \<and> view w' = \<lparr>se_committed = se_committed (view w), se_working = None, se_marks = []\<rparr>"
proof -
  have l: "transaction_loop conn fn None 0 no_scopes w = (r, delays, w')"
    using assms(3) by (simp add: transaction_def retryPolicy_def)
  obtain a sc1 w1 where a: "run_attempt conn fn no_scopes w = (a, sc1, w1)" by (metis prod_cases3)
  note m = attempt_meaning [OF assms(1,2) a]
  have "r = (case a of Finished x \<Rightarrow> Inr x | Stop e \<Rightarrow> Inl e | Rolled e \<Rightarrow> Inl e) \<and> w' = w1"
    using l a by (subst (asm) transaction_loop.simps) (auto simp: canRetry_def split: attempt.splits option.splits)
  with m show ?thesis by (auto split: prod.splits sum.splits)
qed

theorem transaction_refines_meaning_witness:
  "\<exists>w'. transaction memory_connection partial_writes None idle = Inr (Inr (JStr ''done''), [], w') \<and>
    w' = \<lparr>se_committed = [''old'', ''a'', ''c''], se_working = None, se_marks = []\<rparr>"
proof -
  obtain r ds w' where t: "transaction memory_connection partial_writes None idle = Inr (r, ds, w')" and ds: "ds = []"
    by (rule that [OF _ refl, of "Inr (JStr ''done'')" "\<lparr>se_committed = [''old'', ''a'', ''c''], se_working = None, se_marks = []\<rparr>"]) code_simp
  have "case meaning (partial_writes 0) memory_effect first_scope [''old''] of
      (Inr x, _, d) \<Rightarrow> x = JStr ''done'' \<and> d = [''old'', ''a'', ''c''] | (Inl e, _, d) \<Rightarrow> False" by code_simp
  with transaction_refines_meaning [OF memory_connection_contract memory_connection_reliable t] t ds show ?thesis
    by (auto simp: idle_def split: prod.splits sum.splits)
qed

subsection \<open>Streams\<close>






end
