(* ===== verification/Outbox.thy ===== *)
theory Outbox
  imports Builders SelectScope Effects Numbers
begin

text \<open>
  \<open>packages/orm/src/outbox\<close>: the statements of the outbox (\<open>sql.ts\<close>) and one pass of its dispatcher
  (\<open>index.ts\<close>). A statement is a value of \<open>outbox_statement\<close>, \<open>outbox_query\<close> compiles it; the driver is
  given the statement. Handlers, the clock, \<open>randomUUID\<close> and \<open>String\<close> of a thrown value are parameters. The
  pass awaits each call before it goes on, so it is an effect; the timers of the poll are reduced to the
  delay \<open>after_pass\<close> chooses.
\<close>

section \<open>Statements\<close>

definition OUTBOX_TABLE :: string where
  "OUTBOX_TABLE = ''zmdb_outbox''"

datatype outbox_statement =
    Candidates int int
  | Claim int string int "string list"
  | ReadBack string
  | MarkDelivered string string int int
  | MarkRetry string string int string int
  | MarkDead string string int string

definition outbox_select :: "dialect \<Rightarrow> string list \<Rightarrow> js_error + select_query" where
  "outbox_select d cs = rbind (new_query d (trustedTable OUTBOX_TABLE FtsUndefined) None False)
     (\<lambda>q. select_columns q (Some (map SelColumn cs)))"

definition outbox_update :: "(string \<times> jsval) list \<Rightarrow> js_error + update_builder" where
  "outbox_update row = rbind (updateTable (trustedTable OUTBOX_TABLE FtsUndefined) False)
     (\<lambda>b. update_set b (map (\<lambda>(c, v). (c, Literal v)) row))"

definition outboxCandidatesQuery :: "dialect \<Rightarrow> int \<Rightarrow> int \<Rightarrow> js_error + select_query" where
  "outboxCandidatesQuery d now batch =
     rbind (outbox_select d [''id'']) (\<lambda>q.
     rbind (sq_where q (FirstColumn ''status'') (Some ''='') (Val (JStr ''pending''))) (\<lambda>q.
     rbind (sq_where q (FirstColumn ''lease_until'') (Some ''<'') (Val (JDate now))) (\<lambda>q.
     rbind (orderBy q (OrderColumn ''created_at'') Asc) (\<lambda>q. Inr (sq_limit q batch)))))"

definition outboxClaimQuery :: "int \<Rightarrow> string \<Rightarrow> int \<Rightarrow> string list \<Rightarrow> js_error + update_builder" where
  "outboxClaimQuery now token leaseUntil ids =
     rbind (outbox_update [(''lease_owner'', JStr token), (''lease_until'', JDate leaseUntil)]) (\<lambda>b.
     rbind (update_where b And ''status'' ''='' (Val (JStr ''pending''))) (\<lambda>b.
     rbind (update_where b And ''lease_until'' ''<'' (Val (JDate now))) (\<lambda>b.
       update_whereIn b ''id'' (map JStr ids))))"

definition outboxReadBackQuery :: "dialect \<Rightarrow> string \<Rightarrow> js_error + select_query" where
  "outboxReadBackQuery d token = rbind (outbox_select d [''id'', ''topic'', ''payload'', ''attempts'']) (\<lambda>q.
     sq_where q (FirstColumn ''lease_owner'') (Some ''='') (Val (JStr token)))"

definition owned_update :: "(string \<times> jsval) list \<Rightarrow> string \<Rightarrow> string \<Rightarrow> js_error + update_builder" where
  "owned_update row ident token = rbind (outbox_update row) (\<lambda>b.
     rbind (update_where b And ''id'' ''='' (Val (JStr ident))) (\<lambda>b.
       update_where b And ''lease_owner'' ''='' (Val (JStr token))))"

definition outboxMarkDeliveredQuery :: "string \<Rightarrow> string \<Rightarrow> int \<Rightarrow> int \<Rightarrow> js_error + update_builder" where
  "outboxMarkDeliveredQuery ident token deliveredAt attempts =
     owned_update [(''status'', JStr ''delivered''), (''delivered_at'', JDate deliveredAt), (''attempts'', JNum (IntNum attempts))]
       ident token"

definition outboxMarkRetryQuery :: "string \<Rightarrow> string \<Rightarrow> int \<Rightarrow> string \<Rightarrow> int \<Rightarrow> js_error + update_builder" where
  "outboxMarkRetryQuery ident token attempts lastError leaseUntil =
     owned_update [(''attempts'', JNum (IntNum attempts)), (''last_error'', JStr lastError), (''lease_until'', JDate leaseUntil)]
       ident token"

definition outboxMarkDeadQuery :: "string \<Rightarrow> string \<Rightarrow> int \<Rightarrow> string \<Rightarrow> js_error + update_builder" where
  "outboxMarkDeadQuery ident token attempts lastError =
     owned_update [(''status'', JStr ''dead''), (''attempts'', JNum (IntNum attempts)), (''last_error'', JStr lastError)]
       ident token"

fun outbox_query :: "dialect \<Rightarrow> dialect_compiler option \<Rightarrow> outbox_statement \<Rightarrow> js_error + compiled_query" where
  "outbox_query d strategy (Candidates now batch) = rbind (outboxCandidatesQuery d now batch) compile_select"
| "outbox_query d strategy (Claim now token until ids) =
     rbind (outboxClaimQuery now token until ids) (compile_update d strategy)"
| "outbox_query d strategy (ReadBack token) = rbind (outboxReadBackQuery d token) compile_select"
| "outbox_query d strategy (MarkDelivered ident token deliveredAt attempts) =
     rbind (outboxMarkDeliveredQuery ident token deliveredAt attempts) (compile_update d strategy)"
| "outbox_query d strategy (MarkRetry ident token attempts err until) =
     rbind (outboxMarkRetryQuery ident token attempts err until) (compile_update d strategy)"
| "outbox_query d strategy (MarkDead ident token attempts err) =
     rbind (outboxMarkDeadQuery ident token attempts err) (compile_update d strategy)"

text \<open>The row \<open>outboxWriter\<close> inserts in the transaction of its caller.\<close>

definition outbox_insert :: "string \<Rightarrow> string \<Rightarrow> string \<Rightarrow> int \<Rightarrow> js_error + insert_builder" where
  "outbox_insert ident topic payload now = rbind (insertInto (trustedTable OUTBOX_TABLE FtsUndefined) False) (\<lambda>b.
     insert_values b (map (\<lambda>(c, v). (c, Literal v))
       [(''id'', JStr ident), (''topic'', JStr topic), (''payload'', JStr payload), (''status'', JStr ''pending''),
        (''attempts'', JNum (IntNum 0)), (''created_at'', JDate now), (''lease_owner'', JStr []), (''lease_until'', JDate 0),
        (''delivered_at'', JNull), (''last_error'', JNull)]))"

section \<open>Options\<close>

record dispatcher_options =
  do_batch :: "number option"
  do_leaseMs :: "number option"
  do_idleMs :: "number option"
  do_maxIdleMs :: "number option"
  do_maxAttempts :: "number option"
  do_backoffMs :: "(int \<Rightarrow> number) option"

record dispatcher =
  di_batch :: int
  di_leaseMs :: int
  di_idleMs :: int
  di_maxIdleMs :: int
  di_maxAttempts :: int
  di_backoffMs :: "int \<Rightarrow> number"

definition outbox_positive :: "string \<Rightarrow> number \<Rightarrow> js_error + int" where
  "outbox_positive name value =
     (if \<not> safe_integer value \<or> num_le value (Fin 0)
      then Inl (PlainError (''@zmdb/orm: '' @ name @ '' must be a positive safe integer'')) else Inr (num_int value))"

definition OUTBOX_MAX_TIMER_MS :: int where
  "OUTBOX_MAX_TIMER_MS = 2147483647"

definition timerDelay :: "string \<Rightarrow> number \<Rightarrow> js_error + int" where
  "timerDelay name value = rbind (outbox_positive name value) (\<lambda>delay.
     if OUTBOX_MAX_TIMER_MS < delay
     then Inl (PlainError (''@zmdb/orm: '' @ name @ '' must not exceed '' @ show_int OUTBOX_MAX_TIMER_MS)) else Inr delay)"

definition default_backoff :: "int \<Rightarrow> number" where
  "default_backoff attempts = Fin (of_int (min (2 ^ nat attempts * 1000) 300000))"

definition createOutboxDispatcher :: "dispatcher_options \<Rightarrow> js_error + dispatcher" where
  "createOutboxDispatcher opts =
     rbind (outbox_positive ''batch'' (opt_default (Fin 100) (do_batch opts))) (\<lambda>batch.
     rbind (outbox_positive ''leaseMs'' (opt_default (Fin 30000) (do_leaseMs opts))) (\<lambda>leaseMs.
     rbind (timerDelay ''idleMs'' (opt_default (Fin 1000) (do_idleMs opts))) (\<lambda>idleMs.
     rbind (timerDelay ''maxIdleMs'' (opt_default (Fin 30000) (do_maxIdleMs opts))) (\<lambda>maxIdleMs.
     rbind (outbox_positive ''maxAttempts'' (opt_default (Fin 10) (do_maxAttempts opts))) (\<lambda>maxAttempts.
       if maxIdleMs < idleMs then Inl (PlainError ''@zmdb/orm: maxIdleMs must be greater than or equal to idleMs'')
       else Inr \<lparr>di_batch = batch, di_leaseMs = leaseMs, di_idleMs = idleMs, di_maxIdleMs = maxIdleMs,
         di_maxAttempts = maxAttempts, di_backoffMs = opt_default default_backoff (do_backoffMs opts)\<rparr>)))))"

section \<open>One pass\<close>

type_synonym raw_row = "(string \<times> jsval) list"

record claimed_row =
  cr_id :: string
  cr_topic :: string
  cr_payload :: string
  cr_attempts :: int

record dead_row =
  dr_id :: string
  dr_topic :: string
  dr_payload :: string
  dr_attempts :: int
  dr_lastError :: string

text \<open>What a rejected promise was rejected with: an \<open>Error\<close> with its message, or any other value.\<close>

datatype rejection = ErrorValue string | OtherValue jsval

record 'w outbox_env =
  oe_execute :: "outbox_statement \<Rightarrow> ('w, raw_row list) act"
  oe_publish :: "string \<Rightarrow> string \<Rightarrow> 'w \<Rightarrow> rejection option \<times> 'w"
  oe_onDead :: "(dead_row \<Rightarrow> ('w, unit) act) option"
  oe_now :: "'w \<Rightarrow> int"
  oe_randomUUID :: "'w \<Rightarrow> string"
  oe_String :: "jsval \<Rightarrow> string"

definition raw_field :: "raw_row \<Rightarrow> string \<Rightarrow> jsval" where
  "raw_field raw c = opt_default JUndefined (map_of raw c)"

definition invalid_row :: js_error where
  "invalid_row = PlainError ''@zmdb/orm: invalid outbox row returned by the driver''"

definition claimedRow :: "raw_row \<Rightarrow> js_error + claimed_row" where
  "claimedRow raw = (case (raw_field raw ''id'', raw_field raw ''topic'', raw_field raw ''payload'', raw_field raw ''attempts'') of
     (JStr i, JStr t, JStr p, JNum (IntNum n)) \<Rightarrow>
       if n < 0 then Inl invalid_row else Inr \<lparr>cr_id = i, cr_topic = t, cr_payload = p, cr_attempts = n\<rparr>
   | _ \<Rightarrow> Inl invalid_row)"

fun rejectionMessage :: "(jsval \<Rightarrow> string) \<Rightarrow> rejection \<Rightarrow> string" where
  "rejectionMessage string_of (ErrorValue msg) = msg"
| "rejectionMessage string_of (OtherValue v) = string_of v"

fun text_or :: "(jsval \<Rightarrow> string) \<Rightarrow> jsval \<Rightarrow> string" where
  "text_or string_of (JStr s) = s"
| "text_or string_of v = string_of v"

definition deadRowFromInvalid :: "(jsval \<Rightarrow> string) \<Rightarrow> raw_row \<Rightarrow> int \<Rightarrow> string \<Rightarrow> dead_row" where
  "deadRowFromInvalid string_of raw attempts lastError = \<lparr>
     dr_id = text_or string_of (raw_field raw ''id''), dr_topic = text_or string_of (raw_field raw ''topic''),
     dr_payload = text_or string_of (raw_field raw ''payload''), dr_attempts = attempts, dr_lastError = lastError\<rparr>"

definition report_dead :: "'w outbox_env \<Rightarrow> dead_row \<Rightarrow> ('w, unit) act" where
  "report_dead env row = (case oe_onDead env of None \<Rightarrow> act_return () | Some f \<Rightarrow> f row)"

definition run_statement :: "'w outbox_env \<Rightarrow> outbox_statement \<Rightarrow> ('w, unit) act" where
  "run_statement env st = act_bind (oe_execute env st) (\<lambda>_. act_return ())"

definition bury_invalid :: "'w outbox_env \<Rightarrow> string \<Rightarrow> raw_row \<Rightarrow> ('w, unit) act" where
  "bury_invalid env token raw = (case (raw_field raw ''id'', raw_field raw ''attempts'') of
     (JStr i, JNum (IntNum n)) \<Rightarrow>
       (let message = ''@zmdb/orm: invalid outbox row returned by the driver'' in
        act_bind (run_statement env (MarkDead i token (n + 1) message)) (\<lambda>_.
          report_dead env (deadRowFromInvalid (oe_String env) raw (n + 1) message)))
   | _ \<Rightarrow> act_throw invalid_row)"

text \<open>After \<open>publish\<close> was rejected.\<close>

definition settle_failure :: "'w outbox_env \<Rightarrow> dispatcher \<Rightarrow> string \<Rightarrow> claimed_row \<Rightarrow> string \<Rightarrow> ('w, unit) act" where
  "settle_failure env di token row lastError =
     (let attempts = cr_attempts row + 1 in
      if di_maxAttempts di \<le> attempts then
        act_bind (run_statement env (MarkDead (cr_id row) token attempts lastError)) (\<lambda>_.
          report_dead env \<lparr>dr_id = cr_id row, dr_topic = cr_topic row, dr_payload = cr_payload row,
            dr_attempts = attempts, dr_lastError = lastError\<rparr>)
      else
        (let delay = di_backoffMs di attempts in
         if \<not> finite_number delay \<or> num_less delay (Fin 0)
         then act_throw (PlainError ''@zmdb/orm: backoffMs must return a finite non-negative number'')
         else (\<lambda>w. run_statement env (MarkRetry (cr_id row) token attempts lastError (oe_now env w + num_int delay)) w)))"

text \<open>
  \<open>publishError\<close> starts as \<open>undefined\<close> and is compared with it, so a rejection with \<open>undefined\<close> counts as
  none.
\<close>

definition publish_error :: "rejection option \<Rightarrow> rejection option" where
  "publish_error outcome = (if outcome = Some (OtherValue JUndefined) then None else outcome)"

definition process_row ::
  "'w outbox_env \<Rightarrow> dispatcher \<Rightarrow> string \<Rightarrow> raw_row \<Rightarrow> int \<times> int \<Rightarrow> ('w, int \<times> int) act" where
  "process_row env di token raw counts = (case counts of (delivered, failed) \<Rightarrow>
     (case claimedRow raw of
        Inl _ \<Rightarrow> act_bind (bury_invalid env token raw) (\<lambda>_. act_return (delivered, failed + 1))
      | Inr row \<Rightarrow> (\<lambda>w.
          case oe_publish env (cr_topic row) (cr_payload row) w of (outcome, w1) \<Rightarrow>
            (case publish_error outcome of
               None \<Rightarrow> act_bind (run_statement env (MarkDelivered (cr_id row) token (oe_now env w1) (cr_attempts row + 1)))
                 (\<lambda>_. act_return (delivered + 1, failed)) w1
             | Some e \<Rightarrow> act_bind (settle_failure env di token row (rejectionMessage (oe_String env) e))
                 (\<lambda>_. act_return (delivered, failed + 1)) w1))))"

fun process_rows :: "'w outbox_env \<Rightarrow> dispatcher \<Rightarrow> string \<Rightarrow> raw_row list \<Rightarrow> int \<times> int \<Rightarrow> ('w, int \<times> int) act" where
  "process_rows env di token [] counts = act_return counts"
| "process_rows env di token (raw # raws) counts =
     act_bind (process_row env di token raw counts) (process_rows env di token raws)"

text \<open>The candidate order: \<open>candidateOrder\<close> keeps the last index of an id, an unknown one sorts last.\<close>

definition candidate_index :: "string list \<Rightarrow> raw_row \<Rightarrow> nat" where
  "candidate_index ids raw = (case raw_field raw ''id'' of
     JStr i \<Rightarrow> (case find (\<lambda>(_, x). x = i) (rev (zip [0..<length ids] ids)) of Some (n, _) \<Rightarrow> n | None \<Rightarrow> length ids)
   | _ \<Rightarrow> length ids)"

definition candidate_ids :: "raw_row list \<Rightarrow> string list" where
  "candidate_ids rows = concat (map (\<lambda>raw. case raw_field raw ''id'' of JStr i \<Rightarrow> [i] | _ \<Rightarrow> []) rows)"

record pass_report =
  pr_claimed :: int
  pr_delivered :: int
  pr_failed :: int

definition claim_and_process :: "'w outbox_env \<Rightarrow> dispatcher \<Rightarrow> int \<Rightarrow> string list \<Rightarrow> ('w, pass_report) act" where
  "claim_and_process env di now ids w =
     (let token = oe_randomUUID env w in
      act_bind (run_statement env (Claim now token (now + di_leaseMs di) ids)) (\<lambda>_.
      act_bind (oe_execute env (ReadBack token)) (\<lambda>rows.
        let sorted_rows = sort_by (\<lambda>l r. candidate_index ids l \<le> candidate_index ids r) rows in
        act_bind (process_rows env di token sorted_rows (0, 0)) (\<lambda>(delivered, failed).
          act_return \<lparr>pr_claimed = int (length rows), pr_delivered = delivered, pr_failed = failed\<rparr>))) w)"

definition runPass :: "'w outbox_env \<Rightarrow> dispatcher \<Rightarrow> ('w, pass_report) act" where
  "runPass env di w =
     (let now = oe_now env w in
      act_bind (oe_execute env (Candidates now (di_batch di))) (\<lambda>candidates.
        if candidate_ids candidates = [] then act_return \<lparr>pr_claimed = 0, pr_delivered = 0, pr_failed = 0\<rparr>
        else claim_and_process env di now (candidate_ids candidates)) w)"

definition runOnce :: "'w outbox_env \<Rightarrow> dispatcher \<Rightarrow> bool \<Rightarrow> ('w, pass_report) act" where
  "runOnce env di stopped = (if stopped then act_return \<lparr>pr_claimed = 0, pr_delivered = 0, pr_failed = 0\<rparr> else runPass env di)"

text \<open>The idle time and the delay of the next poll, from the report of a pass or \<open>None\<close> when it rejected.\<close>

definition after_pass :: "dispatcher \<Rightarrow> int \<Rightarrow> pass_report option \<Rightarrow> int \<times> int" where
  "after_pass di nextIdle outcome = (case outcome of
     None \<Rightarrow> (nextIdle, nextIdle)
   | Some r \<Rightarrow>
       if 0 < pr_claimed r then (di_idleMs di, if di_batch di \<le> pr_claimed r then 0 else di_idleMs di)
       else (let next' = min (nextIdle * 2) (di_maxIdleMs di) in (next', next')))"

end
