(* ===== verification/OutboxTable.thy ===== *)
theory OutboxTable
  imports Outbox WhereMeaning
begin

text \<open>
  The outbox table and what the statements of the dispatcher do to it. The effect of an UPDATE is read off
  the builder that the code makes: it changes the rows its predicates accept, in the columns it sets.
\<close>

section \<open>Rows\<close>

record outbox_row =
  or_id :: string
  or_topic :: string
  or_payload :: string
  or_status :: string
  or_attempts :: int
  or_createdAt :: int
  or_leaseOwner :: string
  or_leaseUntil :: int
  or_deliveredAt :: "int option"
  or_lastError :: "string option"

fun column_value :: "outbox_row \<Rightarrow> string \<Rightarrow> jsval" where
  "column_value r c =
     (if c = ''id'' then JStr (or_id r) else if c = ''status'' then JStr (or_status r)
      else if c = ''lease_owner'' then JStr (or_leaseOwner r) else if c = ''lease_until'' then JDate (or_leaseUntil r)
      else JUndefined)"

fun row_leaf :: "outbox_row \<Rightarrow> predicate \<Rightarrow> bool" where
  "row_leaf r (Comparison c op (Val v) k) =
     (if op = ''='' then column_value r c = v
      else if op = ''<'' then (case (column_value r c, v) of (JDate a, JDate b) \<Rightarrow> a < b | _ \<Rightarrow> False)
      else if op = ''in'' then (case v of JArr vs \<Rightarrow> column_value r c \<in> set vs | _ \<Rightarrow> False)
      else False)"
| "row_leaf r p = False"

fun set_column :: "string \<times> set_value \<Rightarrow> outbox_row \<Rightarrow> outbox_row" where
  "set_column (c, Literal (JStr s)) r =
     (if c = ''status'' then r\<lparr>or_status := s\<rparr> else if c = ''lease_owner'' then r\<lparr>or_leaseOwner := s\<rparr>
      else if c = ''last_error'' then r\<lparr>or_lastError := Some s\<rparr> else r)"
| "set_column (c, Literal (JDate t)) r =
     (if c = ''lease_until'' then r\<lparr>or_leaseUntil := t\<rparr> else if c = ''delivered_at'' then r\<lparr>or_deliveredAt := Some t\<rparr> else r)"
| "set_column (c, Literal (JNum (IntNum n))) r = (if c = ''attempts'' then r\<lparr>or_attempts := n\<rparr> else r)"
| "set_column x r = r"

definition update_effect :: "js_error + update_builder \<Rightarrow> outbox_row \<Rightarrow> outbox_row" where
  "update_effect built r = (case built of Inl e \<Rightarrow> r
     | Inr b \<Rightarrow> if accepts (row_leaf r) (ub_wheres b) then fold set_column (opt_default [] (ub_row b)) r else r)"

fun statement_effect :: "outbox_statement \<Rightarrow> outbox_row \<Rightarrow> outbox_row" where
  "statement_effect (Claim now token until ids) = update_effect (outboxClaimQuery now token until ids)"
| "statement_effect (MarkDelivered ident token t attempts) = update_effect (outboxMarkDeliveredQuery ident token t attempts)"
| "statement_effect (MarkRetry ident token attempts err until) = update_effect (outboxMarkRetryQuery ident token attempts err until)"
| "statement_effect (MarkDead ident token attempts err) = update_effect (outboxMarkDeadQuery ident token attempts err)"
| "statement_effect st = (\<lambda>r. r)"

definition raw_of :: "outbox_row \<Rightarrow> raw_row" where
  "raw_of r = [(''id'', JStr (or_id r)), (''topic'', JStr (or_topic r)), (''payload'', JStr (or_payload r)),
     (''attempts'', JNum (IntNum (or_attempts r)))]"

section \<open>What the statements do\<close>

lemmas outbox_builder_defs = outbox_update_def updateTable_def trustedTable_def update_set_def update_where_def
  update_whereIn_def mapped_comparison_def mapRow_def

lemma owned_update_effect:
  "update_effect (owned_update row ident token) r =
     (if or_id r = ident \<and> or_leaseOwner r = token then fold set_column (map (\<lambda>(c, v). (c, Literal v)) row) r else r)"
  by (simp add: update_effect_def owned_update_def outbox_builder_defs Let_def mapColumn_trusted accepts_conjoined)

lemma claim_effect:
  "statement_effect (Claim now token until ids) r =
     (if or_status r = ''pending'' \<and> or_leaseUntil r < now \<and> or_id r \<in> set ids
      then r\<lparr>or_leaseOwner := token, or_leaseUntil := until\<rparr> else r)"
  by (auto simp: update_effect_def outboxClaimQuery_def outbox_builder_defs Let_def mapColumn_trusted accepts_conjoined)

lemma mark_effects:
  "statement_effect (MarkDelivered ident token t n) r = (if or_id r = ident \<and> or_leaseOwner r = token
     then r\<lparr>or_status := ''delivered'', or_deliveredAt := Some t, or_attempts := n\<rparr> else r)"
  "statement_effect (MarkRetry ident token n err until) r = (if or_id r = ident \<and> or_leaseOwner r = token
     then r\<lparr>or_attempts := n, or_lastError := Some err, or_leaseUntil := until\<rparr> else r)"
  "statement_effect (MarkDead ident token n err) r = (if or_id r = ident \<and> or_leaseOwner r = token
     then r\<lparr>or_status := ''dead'', or_attempts := n, or_lastError := Some err\<rparr> else r)"
  by (simp_all add: outboxMarkDeliveredQuery_def outboxMarkRetryQuery_def outboxMarkDeadQuery_def owned_update_effect)

declare statement_effect.simps [simp del]

lemma select_statements_effect [simp]: "statement_effect (Candidates now n) r = r" "statement_effect (ReadBack token) r = r"
  by (simp_all add: statement_effect.simps)

lemma select_statements_table [simp]:
  "map (statement_effect (Candidates now n)) rs = rs" "map (statement_effect (ReadBack token)) rs = rs"
  by (simp_all add: map_idI)

text \<open>No statement changes what a row is, only how it stands.\<close>

definition row_event :: "outbox_row \<Rightarrow> string \<times> string \<times> string" where
  "row_event r = (or_id r, or_topic r, or_payload r)"

lemma statement_keeps_event: "row_event (statement_effect st r) = row_event r"
  by (cases st) (simp_all add: claim_effect mark_effects row_event_def)

section \<open>The contract of the driver and of the handlers\<close>

text \<open>
  \<open>view\<close> reads the table, \<open>published\<close> what has been published with which outcome. A statement that fails may have
  been applied or not. Nobody else writes to the table during a pass, but see \<open>claim_effect\<close> for two claims.
\<close>

definition outbox_contract ::
  "('w \<Rightarrow> outbox_row list) \<Rightarrow> ('w \<Rightarrow> (string \<times> string \<times> rejection option) list) \<Rightarrow> 'w outbox_env \<Rightarrow> bool" where
  "outbox_contract view published env \<longleftrightarrow>
     (\<forall>st w r w'. oe_execute env st w = (r, w') \<longrightarrow> published w' = published w) \<and>
     (\<forall>st w rows w'. oe_execute env st w = (Inr rows, w') \<longrightarrow> view w' = map (statement_effect st) (view w)) \<and>
     (\<forall>st w e w'. oe_execute env st w = (Inl e, w') \<longrightarrow> view w' = view w \<or> view w' = map (statement_effect st) (view w)) \<and>
     (\<forall>token w rows w'. oe_execute env (ReadBack token) w = (Inr rows, w') \<longrightarrow>
        mset rows = mset (map raw_of (filter (\<lambda>r. or_leaseOwner r = token) (view w)))) \<and>
     (\<forall>t p w o' w'. oe_publish env t p w = (o', w') \<longrightarrow> view w' = view w \<and> published w' = published w @ [(t, p, o')]) \<and>
     (\<forall>f row. oe_onDead env = Some f \<longrightarrow> keeps view (f row) \<and> keeps published (f row))"

lemma contract_published: "outbox_contract view published env \<Longrightarrow> oe_execute env st w = (r, w') \<Longrightarrow> published w' = published w"
  unfolding outbox_contract_def by metis

lemma contract_applied:
  "outbox_contract view published env \<Longrightarrow> oe_execute env st w = (Inr rows, w') \<Longrightarrow> view w' = map (statement_effect st) (view w)"
  unfolding outbox_contract_def by metis

lemma contract_either:
  "outbox_contract view published env \<Longrightarrow> oe_execute env st w = (r, w') \<Longrightarrow>
   view w' = view w \<or> view w' = map (statement_effect st) (view w)"
  unfolding outbox_contract_def by (cases r) metis+

lemma contract_rows:
  "outbox_contract view published env \<Longrightarrow> oe_execute env (ReadBack token) w = (Inr rows, w') \<Longrightarrow>
   mset rows = mset (map raw_of (filter (\<lambda>r. or_leaseOwner r = token) (view w)))"
  unfolding outbox_contract_def by metis

lemma contract_publish:
  "outbox_contract view published env \<Longrightarrow> oe_publish env t p w = (o', w') \<Longrightarrow> view w' = view w \<and> published w' = published w @ [(t, p, o')]"
  unfolding outbox_contract_def by metis

lemma report_keeps:
  "outbox_contract view published env \<Longrightarrow> keeps view (report_dead env row) \<and> keeps published (report_dead env row)"
  unfolding outbox_contract_def report_dead_def by (auto split: option.split)

lemma run_statement_cases:
  assumes "outbox_contract view published env" and "run_statement env st w = (r, w')"
  shows "published w' = published w" and "r = Inr u \<Longrightarrow> view w' = map (statement_effect st) (view w)"
    and "view w' = view w \<or> view w' = map (statement_effect st) (view w)"
proof -
  from assms(2) obtain x where x: "oe_execute env st w = (x, w')" and r: "r = (case x of Inl e \<Rightarrow> Inl e | Inr _ \<Rightarrow> Inr ())"
    by (auto simp: run_statement_def act_bind_def split: prod.splits sum.splits)
  show "published w' = published w" by (rule contract_published [OF assms(1) x])
  show "view w' = view w \<or> view w' = map (statement_effect st) (view w)" by (rule contract_either [OF assms(1) x])
  show "r = Inr u \<Longrightarrow> view w' = map (statement_effect st) (view w)"
    using contract_applied [OF assms(1)] x r by (cases x) auto
qed

section \<open>One row\<close>

text \<open>What the outcome of \<open>publish\<close> makes of the row.\<close>

definition row_decided ::
  "'w outbox_env \<Rightarrow> dispatcher \<Rightarrow> claimed_row \<Rightarrow> int \<Rightarrow> rejection option \<Rightarrow> outbox_row \<Rightarrow> outbox_row" where
  "row_decided env di row now outcome r =
     (let n = cr_attempts row + 1 in
      case publish_error outcome of
        None \<Rightarrow> r\<lparr>or_status := ''delivered'', or_deliveredAt := Some now, or_attempts := n\<rparr>
      | Some e \<Rightarrow>
          if di_maxAttempts di \<le> n
          then r\<lparr>or_status := ''dead'', or_attempts := n, or_lastError := Some (rejectionMessage (oe_String env) e)\<rparr>
          else r\<lparr>or_attempts := n, or_lastError := Some (rejectionMessage (oe_String env) e),
            or_leaseUntil := now + num_int (di_backoffMs di n)\<rparr>)"

lemma settle_failure_decides:
  assumes C: "outbox_contract view published env" and e: "publish_error outcome = Some e"
    and s: "settle_failure env di token row (rejectionMessage (oe_String env) e) w = (Inr u, w')"
  shows "view w' = map (\<lambda>r. if or_id r = cr_id row \<and> or_leaseOwner r = token
    then row_decided env di row (oe_now env w) outcome r else r) (view w)"
proof (cases "di_maxAttempts di \<le> cr_attempts row + 1")
  case True
  with s obtain w1 where 1: "run_statement env (MarkDead (cr_id row) token (cr_attempts row + 1) (rejectionMessage (oe_String env) e)) w = (Inr (), w1)"
    and 2: "report_dead env \<lparr>dr_id = cr_id row, dr_topic = cr_topic row, dr_payload = cr_payload row,
        dr_attempts = cr_attempts row + 1, dr_lastError = rejectionMessage (oe_String env) e\<rparr> w1 = (Inr u, w')"
    by (auto simp: settle_failure_def Let_def act_simps)
  have "view w' = view w1" using report_keeps [OF C] 2 by (blast dest: keepsD)
  with run_statement_cases(2) [OF C 1] True e show ?thesis by (auto simp: mark_effects row_decided_def Let_def)
next
  case False
  with s have "run_statement env (MarkRetry (cr_id row) token (cr_attempts row + 1) (rejectionMessage (oe_String env) e)
      (oe_now env w + num_int (di_backoffMs di (cr_attempts row + 1)))) w = (Inr u, w')"
    by (auto simp: settle_failure_def Let_def split: if_splits)
  from run_statement_cases(2) [OF C this] False e show ?thesis by (auto simp: mark_effects row_decided_def Let_def)
qed

lemma row_decides:
  assumes C: "outbox_contract view published env" and row: "claimedRow raw = Inr row"
    and p: "oe_publish env (cr_topic row) (cr_payload row) w = (outcome, w1)"
    and r: "process_row env di token raw counts w = (Inr counts', w')"
  shows "view w' = map (\<lambda>r. if or_id r = cr_id row \<and> or_leaseOwner r = token
    then row_decided env di row (oe_now env w1) outcome r else r) (view w)"
proof (cases "publish_error outcome")
  case None
  with r row p obtain u where "run_statement env (MarkDelivered (cr_id row) token (oe_now env w1) (cr_attempts row + 1)) w1 = (Inr u, w')"
    by (cases counts) (auto simp: process_row_def act_simps)
  from run_statement_cases(2) [OF C this] contract_publish [OF C p] None show ?thesis
    by (auto simp: mark_effects row_decided_def Let_def)
next
  case (Some e)
  with r row p obtain u where "settle_failure env di token row (rejectionMessage (oe_String env) e) w1 = (Inr u, w')"
    by (cases counts) (auto simp: process_row_def act_simps)
  from settle_failure_decides [OF C Some this] contract_publish [OF C p] show ?thesis by simp
qed

lemma settle_keeps_published:
  assumes C: "outbox_contract view published env" and s: "settle_failure env di token row err w = (r, w')"
  shows "published w' = published w"
proof -
  have k: "keeps published (run_statement env st)" for st
    unfolding keeps_def using run_statement_cases(1) [OF C] by (metis prod.collapse)
  have "keeps published (act_bind (run_statement env st) (\<lambda>_. report_dead env x))" for st x
    using k report_keeps [OF C] by blast
  note k2 = keepsD [OF this]
  from s show ?thesis unfolding settle_failure_def Let_def
    by (auto split: if_splits dest: k2 keepsD [OF k])
qed

lemma row_published_once:
  assumes C: "outbox_contract view published env" and row: "claimedRow raw = Inr row"
    and p: "oe_publish env (cr_topic row) (cr_payload row) w = (outcome, w1)"
    and r: "process_row env di token raw counts w = (Inr counts', w')"
  shows "published w' = published w @ [(cr_topic row, cr_payload row, outcome)]"
proof -
  have "published w' = published w1"
  proof (cases "publish_error outcome")
    case None
    with r row p obtain u where "run_statement env (MarkDelivered (cr_id row) token (oe_now env w1) (cr_attempts row + 1)) w1 = (Inr u, w')"
      by (cases counts) (auto simp: process_row_def act_simps)
    from run_statement_cases(1) [OF C this] show ?thesis .
  next
    case (Some e)
    with r row p obtain u where "settle_failure env di token row (rejectionMessage (oe_String env) e) w1 = (Inr u, w')"
      by (cases counts) (auto simp: process_row_def act_simps)
    from settle_keeps_published [OF C this] show ?thesis .
  qed
  with contract_publish [OF C p] show ?thesis by simp
qed

lemma row_counted:
  assumes "claimedRow raw = Inr row" and "oe_publish env (cr_topic row) (cr_payload row) w = (outcome, w1)"
    and "process_row env di token raw (d, f) w = (Inr counts', w')"
  shows "counts' = (if publish_error outcome = None then (d + 1, f) else (d, f + 1))"
  using assms by (auto simp: process_row_def act_simps split: option.splits)

section \<open>A pass delivers what it has published\<close>

definition published_since ::
  "(string \<times> string \<times> rejection option) list \<Rightarrow> (string \<times> string \<times> rejection option) list \<Rightarrow> outbox_row \<Rightarrow> bool" where
  "published_since before after r \<longleftrightarrow> (\<exists>o'. (or_topic r, or_payload r, o') \<in> set (drop (length before) after) \<and> publish_error o' = None)"

definition accounted ::
  "outbox_row list \<Rightarrow> (string \<times> string \<times> rejection option) list \<Rightarrow> outbox_row list \<Rightarrow>
   (string \<times> string \<times> rejection option) list \<Rightarrow> bool" where
  "accounted tbl before tbl' after \<longleftrightarrow> map row_event tbl' = map row_event tbl \<and> (\<exists>new. after = before @ new) \<and>
     (\<forall>r' \<in> set tbl'. or_status r' = ''delivered'' \<longrightarrow>
        (\<exists>r \<in> set tbl. or_id r = or_id r' \<and> or_status r = ''delivered'') \<or> published_since before after r')"

lemma accounted_refl [simp]: "accounted tbl before tbl before"
  by (auto simp: accounted_def)

lemma accounted_publish: "accounted tbl before tbl' after \<Longrightarrow> accounted tbl before tbl' (after @ new)"
  by (fastforce simp: accounted_def published_since_def)

lemma map_statement_event: "map row_event (map (statement_effect st) rs) = map row_event rs"
  by (simp add: comp_def statement_keeps_event)

fun delivers :: "outbox_statement \<Rightarrow> bool" where
  "delivers (MarkDelivered ident token t n) = True"
| "delivers st = False"

lemma effect_status: "\<not> delivers st \<Longrightarrow> or_status (statement_effect st r) = ''delivered'' \<Longrightarrow> or_status r = ''delivered''"
  by (cases st) (auto simp: claim_effect mark_effects split: if_splits)

lemma effect_event: "or_id (statement_effect st r) = or_id r" "or_topic (statement_effect st r) = or_topic r"
  "or_payload (statement_effect st r) = or_payload r"
  using statement_keeps_event [of st r] by (simp_all add: row_event_def)

lemma accounted_statement:
  assumes a: "accounted tbl before tbl' after" and "\<not> delivers st"
  shows "accounted tbl before (map (statement_effect st) tbl') after"
proof -
  have "(\<exists>r \<in> set tbl. or_id r = or_id (statement_effect st r') \<and> or_status r = ''delivered'') \<or> published_since before after (statement_effect st r')"
    if "r' \<in> set tbl'" "or_status (statement_effect st r') = ''delivered''" for r'
    using a that effect_status [OF assms(2) that(2)]
    unfolding accounted_def published_since_def effect_event by blast
  then show ?thesis using a unfolding accounted_def map_statement_event by auto
qed

lemma accounted_delivery:
  assumes a: "accounted tbl before tbl' after"
    and row: "\<forall>r \<in> set tbl'. or_id r = ident \<longrightarrow> published_since before after r"
  shows "accounted tbl before (map (statement_effect (MarkDelivered ident token t n)) tbl') after"
proof -
  let ?e = "statement_effect (MarkDelivered ident token t n)"
  have "(\<exists>r \<in> set tbl. or_id r = or_id (?e r') \<and> or_status r = ''delivered'') \<or> published_since before after (?e r')"
    if r': "r' \<in> set tbl'" "or_status (?e r') = ''delivered''" for r'
  proof (cases "or_id r' = ident")
    case True
    with row r'(1) show ?thesis unfolding published_since_def effect_event by blast
  next
    case False
    then have "?e r' = r'" by (simp add: mark_effects)
    with a r' show ?thesis unfolding accounted_def by auto
  qed
  then show ?thesis using a unfolding accounted_def map_statement_event by auto
qed

text \<open>The rows that were read back are those of the table.\<close>

definition truthful :: "raw_row list \<Rightarrow> outbox_row list \<Rightarrow> bool" where
  "truthful raws tbl \<longleftrightarrow> (\<forall>raw \<in> set raws. \<exists>r \<in> set tbl. raw_field raw ''id'' = JStr (or_id r) \<and>
     raw_field raw ''topic'' = JStr (or_topic r) \<and> raw_field raw ''payload'' = JStr (or_payload r))"

lemma truthful_events: "map row_event tbl' = map row_event tbl \<Longrightarrow> truthful raws tbl \<Longrightarrow> truthful raws tbl'"
proof -
  assume e: "map row_event tbl' = map row_event tbl" and t: "truthful raws tbl"
  have "\<exists>r' \<in> set tbl'. row_event r' = row_event r" if "r \<in> set tbl" for r
    using arg_cong [OF e, of set] that by (metis (no_types, lifting) image_iff list.set_map)
  with t show ?thesis unfolding truthful_def row_event_def by (metis prod.inject)
qed

lemma truthful_row:
  assumes "truthful (raw # raws) tbl" and d: "distinct (map or_id tbl)" and row: "claimedRow raw = Inr row"
    and r: "r \<in> set tbl" "or_id r = cr_id row"
  shows "or_topic r = cr_topic row \<and> or_payload r = cr_payload row"
proof -
  from assms(1) obtain r0 where r0: "r0 \<in> set tbl" "raw_field raw ''id'' = JStr (or_id r0)" "raw_field raw ''topic'' = JStr (or_topic r0)"
    "raw_field raw ''payload'' = JStr (or_payload r0)" by (auto simp: truthful_def)
  with row have "cr_id row = or_id r0" "cr_topic row = or_topic r0" "cr_payload row = or_payload r0"
    by (auto simp: claimedRow_def split: jsval.splits jsnum.splits if_splits)
  moreover from this r r0(1) d have "r0 = r" by (auto simp: distinct_map inj_on_def)
  ultimately show ?thesis by simp
qed

lemma run_statement_accounted:
  assumes C: "outbox_contract view published env" and a: "accounted tbl before (view w) (published w)" and st: "\<not> delivers st"
    and r: "run_statement env st w = (r, w')"
  shows "accounted tbl before (view w') (published w')"
  using run_statement_cases(1,3) [OF C r] a accounted_statement [OF a st] by auto

lemmas mark_accounted = run_statement_accounted [where st = "MarkDead ident token n err" for ident token n err, simplified]

lemma report_accounted:
  assumes C: "outbox_contract view published env" and a: "accounted tbl before (view w) (published w)"
    and r: "report_dead env row w = (r, w')"
  shows "accounted tbl before (view w') (published w')"
proof -
  have "view w' = view w" "published w' = published w" using report_keeps [OF C] r by (blast dest: keepsD)+
  with a show ?thesis by simp
qed

lemma act_bind_accounted:
  assumes "act_bind m f w = (r, w')"
    and "\<And>x w1. m w = (x, w1) \<Longrightarrow> P w1" and "\<And>x w1 r. P w1 \<Longrightarrow> f x w1 = (r, w') \<Longrightarrow> P w'"
  shows "P w'"
proof -
  obtain x w1 where m: "m w = (x, w1)" by fastforce
  show ?thesis
  proof (cases x)
    case (Inl e)
    with assms(1,2) m show ?thesis by (simp add: act_bind_def)
  next
    case (Inr y)
    with assms(1) m have "f y w1 = (r, w')" by (simp add: act_bind_def)
    with assms(2) [OF m] assms(3) show ?thesis by blast
  qed
qed

lemma bury_accounted:
  assumes C: "outbox_contract view published env" and a: "accounted tbl before (view w) (published w)"
    and r: "bury_invalid env token raw w = (r, w')"
  shows "accounted tbl before (view w') (published w')"
proof (cases "\<exists>i n. raw_field raw ''id'' = JStr i \<and> raw_field raw ''attempts'' = JNum (IntNum n)")
  case True
  then obtain i n where "raw_field raw ''id'' = JStr i" "raw_field raw ''attempts'' = JNum (IntNum n)" by blast
  with r have "act_bind (run_statement env (MarkDead i token (n + 1) ''@zmdb/orm: invalid outbox row returned by the driver'')) (\<lambda>_.
      report_dead env (deadRowFromInvalid (oe_String env) raw (n + 1) ''@zmdb/orm: invalid outbox row returned by the driver'')) w = (r, w')"
    by (simp add: bury_invalid_def Let_def)
  then show ?thesis
    by (rule act_bind_accounted [where P = "\<lambda>w. accounted tbl before (view w) (published w)"])
      (rule mark_accounted [OF C a], assumption, rule report_accounted [OF C], assumption+)
next
  case False
  then have "bury_invalid env token raw = act_throw invalid_row"
    by (auto simp: bury_invalid_def split: jsval.split jsnum.split)
  with r a show ?thesis by simp
qed

lemma settle_accounted:
  assumes C: "outbox_contract view published env" and a: "accounted tbl before (view w) (published w)"
    and r: "settle_failure env di token row err w = (r, w')"
  shows "accounted tbl before (view w') (published w')"
proof (cases "di_maxAttempts di \<le> cr_attempts row + 1")
  case True
  with r have "act_bind (run_statement env (MarkDead (cr_id row) token (cr_attempts row + 1) err)) (\<lambda>_.
      report_dead env \<lparr>dr_id = cr_id row, dr_topic = cr_topic row, dr_payload = cr_payload row,
        dr_attempts = cr_attempts row + 1, dr_lastError = err\<rparr>) w = (r, w')"
    by (simp add: settle_failure_def Let_def)
  then show ?thesis
    by (rule act_bind_accounted [where P = "\<lambda>w. accounted tbl before (view w) (published w)"])
      (rule mark_accounted [OF C a], assumption, rule report_accounted [OF C], assumption+)
next
  case False
  with r a run_statement_accounted [OF C a, of "MarkRetry (cr_id row) token (cr_attempts row + 1) err
      (oe_now env w + num_int (di_backoffMs di (cr_attempts row + 1)))"] show ?thesis
    by (auto simp: settle_failure_def Let_def split: if_splits)
qed

lemma act_then_return: "act_bind m (\<lambda>_. act_return x) w = (r, w') \<Longrightarrow> \<exists>r1. m w = (r1, w')"
  by (auto simp: act_bind_def split: prod.splits sum.splits)

lemma process_row_accounted:
  assumes C: "outbox_contract view published env" and a: "accounted tbl before (view w) (published w)"
    and t: "truthful (raw # raws) (view w)" and d: "distinct (map or_id (view w))"
    and r: "process_row env di token raw counts w = (r, w')"
  shows "accounted tbl before (view w') (published w')"
proof (cases "claimedRow raw")
  case (Inl e)
  with r obtain r1 where "bury_invalid env token raw w = (r1, w')"
    by (cases counts) (auto simp: process_row_def dest: act_then_return)
  from bury_accounted [OF C a this] show ?thesis .
next
  case row: (Inr row)
  obtain outcome w1 where p: "oe_publish env (cr_topic row) (cr_payload row) w = (outcome, w1)" by fastforce
  note pub = contract_publish [OF C p]
  with accounted_publish [OF a] have a1: "accounted tbl before (view w1) (published w1)" by simp
  show ?thesis
  proof (cases "publish_error outcome")
    case None
    with r row p obtain r1 where r1: "run_statement env (MarkDelivered (cr_id row) token (oe_now env w1) (cr_attempts row + 1)) w1 = (r1, w')"
      by (cases counts) (auto simp: process_row_def dest: act_then_return)
    have "published_since before (published w1) x" if "x \<in> set (view w1)" "or_id x = cr_id row" for x
    proof -
      have "or_topic x = cr_topic row \<and> or_payload x = cr_payload row" using truthful_row [OF t d row] that pub by simp
      with None pub a show ?thesis by (auto simp: published_since_def accounted_def)
    qed
    with accounted_delivery [OF a1] run_statement_cases(1,3) [OF C r1] a1 show ?thesis by auto
  next
    case (Some e)
    with r row p obtain r1 where "settle_failure env di token row (rejectionMessage (oe_String env) e) w1 = (r1, w')"
      by (cases counts) (auto simp: process_row_def dest: act_then_return)
    from settle_accounted [OF C a1 this] show ?thesis .
  qed
qed

lemma accounted_events: "accounted tbl before tbl' after \<Longrightarrow> map row_event tbl' = map row_event tbl"
  by (simp add: accounted_def)

lemma accounted_ids: "accounted tbl before tbl' after \<Longrightarrow> map or_id tbl' = map or_id tbl"
proof -
  assume "accounted tbl before tbl' after"
  then have "map fst (map row_event tbl') = map fst (map row_event tbl)" by (simp only: accounted_def)
  then show ?thesis by (simp add: comp_def row_event_def)
qed

lemma process_rows_accounted:
  assumes C: "outbox_contract view published env"
  shows "accounted tbl before (view w) (published w) \<Longrightarrow> truthful raws tbl \<Longrightarrow> distinct (map or_id tbl) \<Longrightarrow>
    process_rows env di token raws counts w = (r, w') \<Longrightarrow> accounted tbl before (view w') (published w')"
proof (induction raws arbitrary: counts w r)
  case (Cons raw raws)
  have t: "truthful (raw # raws) (view w)" and d: "distinct (map or_id (view w))"
    using Cons.prems(2,3) truthful_events [OF accounted_events [OF Cons.prems(1)]] accounted_ids [OF Cons.prems(1)] by simp_all
  from Cons.prems(2) have t': "truthful raws tbl" by (simp add: truthful_def)
  from Cons.prems(4) have "act_bind (process_row env di token raw counts) (process_rows env di token raws) w = (r, w')" by simp
  then show ?case
    by (rule act_bind_accounted [where P = "\<lambda>w. accounted tbl before (view w) (published w)"])
      (use process_row_accounted [OF C Cons.prems(1) t d] Cons.IH [OF _ t' Cons.prems(3)] in blast)+
qed simp

lemma sorted_rows_accounted:
  assumes C: "outbox_contract view published env" and a: "accounted tbl before (view w) (published w)"
    and "truthful rows tbl" and d: "distinct (map or_id tbl)"
    and r: "act_bind (process_rows env di token (sort_by le rows) (0, 0)) (\<lambda>(delivered, failed). act_return (report delivered failed)) w = (r, w')"
  shows "accounted tbl before (view w') (published w')"
proof -
  have t: "truthful (sort_by le rows) tbl" using assms(3) by (simp add: truthful_def)
  from r show ?thesis
    by (rule act_bind_accounted [where P = "\<lambda>w. accounted tbl before (view w) (published w)"])
      (rule process_rows_accounted [OF C a t d], assumption, simp split: prod.splits)
qed

lemma claim_accounted:
  assumes C: "outbox_contract view published env" and d: "distinct (map or_id (view w))"
    and r: "claim_and_process env di now ids w = (r, w')"
  shows "accounted (view w) (published w) (view w') (published w')"
proof -
  let ?P = "\<lambda>w'. accounted (view w) (published w) (view w') (published w')" and ?token = "oe_randomUUID env w"
  have start: "?P w" by simp
  from r show ?thesis unfolding claim_and_process_def Let_def
  proof (rule act_bind_accounted [where P = ?P], goal_cases)
    case (1 x w1)
    then show ?case using run_statement_accounted [OF C start, of "Claim now ?token (now + di_leaseMs di) ids"] by simp
  next
    case (2 x w1 r)
    note step = 2
    from step(2) obtain x w2 where rb: "oe_execute env (ReadBack ?token) w1 = (x, w2)" by fastforce
    have a2: "?P w2" using step(1) contract_published [OF C rb] contract_either [OF C rb] by auto
    show ?case
    proof (cases x)
      case (Inl e)
      with step(2) rb a2 show ?thesis by (simp add: act_bind_def)
    next
      case (Inr rows)
      with rb have rows: "oe_execute env (ReadBack ?token) w1 = (Inr rows, w2)" by simp
      have "set rows = set (map raw_of (filter (\<lambda>r. or_leaseOwner r = ?token) (view w1)))"
        using contract_rows [OF C rows] by (metis set_mset_mset)
      then have "truthful rows (view w1)" by (auto simp: truthful_def raw_of_def raw_field_def)
      then have t: "truthful rows (view w)" using truthful_events accounted_events [OF step(1)] by metis
      from step(2) rows show ?thesis
        by (simp add: act_bind_def [of "oe_execute env (ReadBack ?token)"]) (rule sorted_rows_accounted [OF C a2 t d], assumption)
    qed
  qed
qed

lemma pass_accounted:
  assumes C: "outbox_contract view published env" and d: "distinct (map or_id (view w))"
    and r: "runPass env di w = (r, w')"
  shows "accounted (view w) (published w) (view w') (published w')"
proof -
  obtain x w1 where c: "oe_execute env (Candidates (oe_now env w) (di_batch di)) w = (x, w1)" by fastforce
  have same: "view w1 = view w" "published w1 = published w" using contract_either [OF C c] contract_published [OF C c] by auto
  have d1: "distinct (map or_id (view w1))" using d same by simp
  show ?thesis
  proof (cases x)
    case (Inl e)
    with r c same show ?thesis by (simp add: runPass_def act_bind_def)
  next
    case (Inr rows)
    with r c same claim_accounted [OF C d1] show ?thesis
      by (auto simp: runPass_def act_bind_def split: if_splits)
  qed
qed

end
