(* ===== verification/OutboxPolling.thy ===== *)
theory OutboxPolling
  imports Outbox
begin

text \<open>
  The life of a dispatcher (\<open>runOnce\<close>, \<open>schedule\<close>, \<open>start\<close> and \<open>onShutdown\<close> of \<open>createOutboxDispatcher\<close>), cut
  where the event loop may run something else: between a timer and its callback, and between a pass and the
  handlers of its promise. What happens inside a pass is \<open>runPass\<close>; here a pass starts and settles.
\<close>

section \<open>State and operations\<close>

record poll_state =
  pl_stopped :: bool
  pl_started :: bool
  pl_timer :: "int option"
  pl_nextIdleMs :: int
  pl_polled :: nat
  pl_called :: nat

definition new_polling :: "dispatcher \<Rightarrow> poll_state" where
  "new_polling di = \<lparr>pl_stopped = False, pl_started = False, pl_timer = None, pl_nextIdleMs = di_idleMs di, pl_polled = 0, pl_called = 0\<rparr>"

definition poll_start :: "dispatcher \<Rightarrow> poll_state \<Rightarrow> poll_state" where
  "poll_start di s = (if pl_started s \<or> pl_stopped s then s else s\<lparr>pl_started := True, pl_timer := Some (di_idleMs di)\<rparr>)"

text \<open>The callback of the timer. \<open>runOnce\<close> is not called once the dispatcher is stopped.\<close>

definition timer_fires :: "poll_state \<Rightarrow> poll_state" where
  "timer_fires s = (let s = s\<lparr>pl_timer := None\<rparr> in if pl_stopped s then s else s\<lparr>pl_polled := Suc (pl_polled s)\<rparr>)"

definition pass_settles :: "dispatcher \<Rightarrow> pass_report option \<Rightarrow> poll_state \<Rightarrow> poll_state" where
  "pass_settles di outcome s = (let s = s\<lparr>pl_polled := pl_polled s - 1\<rparr> in
     if pl_stopped s then s
     else case after_pass di (pl_nextIdleMs s) outcome of (idle, delay) \<Rightarrow> s\<lparr>pl_nextIdleMs := idle, pl_timer := Some delay\<rparr>)"

definition call_runOnce :: "poll_state \<Rightarrow> poll_state" where
  "call_runOnce s = (if pl_stopped s then s else s\<lparr>pl_called := Suc (pl_called s)\<rparr>)"

definition begin_shutdown :: "poll_state \<Rightarrow> poll_state" where
  "begin_shutdown s = s\<lparr>pl_stopped := True, pl_timer := None\<rparr>"

text \<open>The loop of \<open>onShutdown\<close> returns when no pass is left.\<close>

definition shutdown_returns :: "poll_state \<Rightarrow> bool" where
  "shutdown_returns s \<longleftrightarrow> pl_stopped s \<and> pl_polled s = 0 \<and> pl_called s = 0"

section \<open>What the event loop may do\<close>

inductive poll_step :: "dispatcher \<Rightarrow> poll_state \<Rightarrow> poll_state \<Rightarrow> bool" for di where
  start: "poll_step di s (poll_start di s)"
| fire: "pl_timer s = Some delay \<Longrightarrow> poll_step di s (timer_fires s)"
| settle: "0 < pl_polled s \<Longrightarrow> (case outcome of Some r \<Rightarrow> 0 \<le> pr_claimed r | None \<Rightarrow> True) \<Longrightarrow> poll_step di s (pass_settles di outcome s)"
| call: "poll_step di s (call_runOnce s)"
| called_settles: "0 < pl_called s \<Longrightarrow> poll_step di s (s\<lparr>pl_called := pl_called s - 1\<rparr>)"
| shutdown: "poll_step di s (begin_shutdown s)"

inductive poll_reachable :: "dispatcher \<Rightarrow> poll_state \<Rightarrow> bool" for di where
  created: "poll_reachable di (new_polling di)"
| step: "poll_reachable di s \<Longrightarrow> poll_step di s s' \<Longrightarrow> poll_reachable di s'"

section \<open>One poll at a time\<close>

definition polling_sound :: "dispatcher \<Rightarrow> poll_state \<Rightarrow> bool" where
  "polling_sound di s \<longleftrightarrow>
     pl_polled s + (if pl_timer s = None then 0 else 1) \<le> 1 \<and>
     (\<not> pl_started s \<longrightarrow> pl_timer s = None \<and> pl_polled s = 0) \<and>
     (pl_stopped s \<longrightarrow> pl_timer s = None) \<and>
     di_idleMs di \<le> pl_nextIdleMs s \<and> pl_nextIdleMs s \<le> di_maxIdleMs di \<and>
     (\<forall>delay. pl_timer s = Some delay \<longrightarrow> 0 \<le> delay \<and> delay \<le> di_maxIdleMs di)"

lemmas poll_ops = poll_start_def timer_fires_def pass_settles_def call_runOnce_def begin_shutdown_def Let_def

lemma outbox_positive_pos: "outbox_positive name value = Inr n \<Longrightarrow> 0 < n"
  by (auto simp: outbox_positive_def safe_integer_iff num_int_def split: if_splits)

lemma timerDelay_bounds: "timerDelay name value = Inr n \<Longrightarrow> 0 < n \<and> n \<le> OUTBOX_MAX_TIMER_MS"
  by (auto simp: timerDelay_def result_simps split: if_splits dest: outbox_positive_pos)

lemma dispatcher_idle_bounds:
  "createOutboxDispatcher opts = Inr di \<Longrightarrow> 0 < di_idleMs di \<and> di_idleMs di \<le> di_maxIdleMs di \<and> di_maxIdleMs di \<le> OUTBOX_MAX_TIMER_MS"
  by (auto simp: createOutboxDispatcher_def result_simps split: if_splits dest!: timerDelay_bounds)

lemma after_pass_bounds:
  assumes "after_pass di idle outcome = (idle', delay)" and "0 < di_idleMs di" and "di_idleMs di \<le> idle" and "idle \<le> di_maxIdleMs di"
  shows "di_idleMs di \<le> idle' \<and> idle' \<le> di_maxIdleMs di \<and> 0 \<le> delay \<and> delay \<le> di_maxIdleMs di"
  using assms by (auto simp: after_pass_def Let_def min_def split: option.splits if_splits)

lemma poll_step_sound:
  assumes "poll_step di s s'" and "0 < di_idleMs di" and "polling_sound di s"
  shows "polling_sound di s'"
  using assms(1)
proof cases
  case (settle outcome)
  obtain idle delay where a: "after_pass di (pl_nextIdleMs s) outcome = (idle, delay)" by fastforce
  from after_pass_bounds [OF this assms(2)] settle assms(3) a show ?thesis
    by (auto simp: polling_sound_def poll_ops split: if_splits)
qed (use assms(2,3) in \<open>auto simp: polling_sound_def poll_ops split: if_splits\<close>)

lemma poll_reachable_sound:
  assumes "0 < di_idleMs di" and "di_idleMs di \<le> di_maxIdleMs di" and "poll_reachable di s"
  shows "polling_sound di s"
  using assms(3)
  by (induction rule: poll_reachable.induct)
    (use assms(1,2) in \<open>auto simp: new_polling_def polling_sound_def [of di "\<lparr>pl_stopped = a, pl_started = b, pl_timer = t,
      pl_nextIdleMs = n, pl_polled = p, pl_called = c\<rparr>" for a b t n p c] intro: poll_step_sound\<close>)

text \<open>Once stopped, no pass starts: what is left can only settle.\<close>

lemma stopped_step:
  "poll_step di s s' \<Longrightarrow> pl_stopped s \<Longrightarrow> pl_stopped s' \<and> pl_polled s' \<le> pl_polled s \<and> pl_called s' \<le> pl_called s"
  by (auto elim!: poll_step.cases simp: poll_ops)

end
