(* ===== verification/OutboxMigration.thy ===== *)
theory OutboxMigration
  imports Outbox Dialects PostgresObjects MigrationRunner
begin

text \<open>
  The migration of the outbox table: the dialect-independent one of \<open>packages/orm/src/outbox/sql.ts\<close>, the
  outbox strategies of the dialect packages, and the one \<open>packages/postgres/src/outbox.ts\<close> writes out.
  The index emission of a dialect other than PostgreSQL is a parameter.
\<close>

section \<open>Strategies\<close>

record dialect_outbox =
  ob_createTable :: string
  ob_filtered :: bool
  ob_epochLiteral :: string
  ob_createdAtDefault :: string
  ob_boundedTextType :: "nat \<Rightarrow> string"

definition sq_quoted :: "string \<Rightarrow> string" where
  "sq_quoted s = CHR 0x27 # s @ [CHR 0x27]"

definition postgres_outbox :: dialect_outbox where
  "postgres_outbox = \<lparr>ob_createTable = ''CREATE TABLE'', ob_filtered = True,
     ob_epochLiteral = sq_quoted ''1970-01-01T00:00:00.000Z'', ob_createdAtDefault = ''CURRENT_TIMESTAMP'',
     ob_boundedTextType = (\<lambda>_. ''TEXT'')\<rparr>"

definition sqlite_outbox :: dialect_outbox where
  "sqlite_outbox = \<lparr>ob_createTable = ''CREATE TABLE'', ob_filtered = True,
     ob_epochLiteral = sq_quoted ''1970-01-01T00:00:00.000Z'',
     ob_createdAtDefault = ''(strftime('' @ sq_quoted ''%Y-%m-%dT%H:%M:%fZ'' @ '', '' @ sq_quoted ''now'' @ ''))'',
     ob_boundedTextType = (\<lambda>_. ''TEXT'')\<rparr>"

definition mysql_outbox :: dialect_outbox where
  "mysql_outbox = \<lparr>ob_createTable = ''CREATE TABLE'', ob_filtered = False,
     ob_epochLiteral = sq_quoted ''1970-01-01 00:00:00.000'', ob_createdAtDefault = ''CURRENT_TIMESTAMP(3)'',
     ob_boundedTextType = (\<lambda>n. ''VARCHAR('' @ show_nat n @ '')'')\<rparr>"

definition mssql_outbox :: dialect_outbox where
  "mssql_outbox = \<lparr>ob_createTable = ''CREATE TABLE'', ob_filtered = True,
     ob_epochLiteral = sq_quoted ''1970-01-01T00:00:00.000+00:00'', ob_createdAtDefault = ''SYSDATETIMEOFFSET()'',
     ob_boundedTextType = (\<lambda>n. ''NVARCHAR('' @ show_nat n @ '')'')\<rparr>"

section \<open>The migration of a dialect\<close>

definition outboxDialect :: "dialect \<Rightarrow> dialect_outbox option \<Rightarrow> js_error + dialect_outbox" where
  "outboxDialect d strategy = (case strategy of
     None \<Rightarrow> Inl (TypeError (d_name d @ '' does not provide an outbox DDL strategy'')) | Some ob \<Rightarrow> Inr ob)"

definition outboxPendingIndexDdl ::
  "dialect \<Rightarrow> dialect_outbox option \<Rightarrow> (schema_object \<Rightarrow> js_error + string list) \<Rightarrow> js_error + string" where
  "outboxPendingIndexDdl d strategy emitSchemaObject = rbind (outboxDialect d strategy) (\<lambda>ob.
     rbind (emitSchemaObject (CreateIndex \<lparr>ix_name = ''zmdb_outbox_pending'', ix_table = OUTBOX_TABLE,
         ix_columns = [IndexName ''status'', IndexName ''lease_until'', IndexName ''created_at''], ix_unique = False,
         ix_where = (if ob_filtered ob then Some (''status = '' @ sq_quoted ''pending'') else None),
         ix_method = None, ix_with = None\<rparr>)) (\<lambda>statements. case statements of
       [s] \<Rightarrow> Inr s
     | _ \<Rightarrow> Inl (TypeError (d_name d @ '' outbox index emission must return exactly one statement''))))"

definition outboxTableDdl :: "dialect \<Rightarrow> dialect_outbox option \<Rightarrow> js_error + string" where
  "outboxTableDdl d strategy = rbind (outboxDialect d strategy) (\<lambda>ob.
     let q = quoteIdentifier d; timestamp = types (traits d) SqlTimestamp; text = types (traits d) SqlText;
         idType = ob_boundedTextType ob 36; statusType = ob_boundedTextType ob 16; leaseOwnerType = ob_boundedTextType ob 36 in
     Inr (ob_createTable ob @ '' '' @ q OUTBOX_TABLE @ '' ('' @
       q ''id'' @ '' '' @ idType @ '' PRIMARY KEY, '' @
       q ''topic'' @ '' '' @ text @ '' NOT NULL, '' @
       q ''payload'' @ '' '' @ text @ '' NOT NULL, '' @
       q ''status'' @ '' '' @ statusType @ '' NOT NULL DEFAULT '' @ sq_quoted ''pending'' @ '', '' @
       q ''attempts'' @ '' '' @ types (traits d) SqlInteger @ '' NOT NULL DEFAULT 0, '' @
       q ''created_at'' @ '' '' @ timestamp @ '' NOT NULL DEFAULT '' @ ob_createdAtDefault ob @ '', '' @
       q ''lease_owner'' @ '' '' @ leaseOwnerType @ '' NOT NULL DEFAULT '' @ sq_quoted [] @ '', '' @
       q ''lease_until'' @ '' '' @ timestamp @ '' NOT NULL DEFAULT '' @ ob_epochLiteral ob @ '', '' @
       q ''delivered_at'' @ '' '' @ timestamp @ '', '' @
       q ''last_error'' @ '' '' @ text @ '')''))"

definition outboxMigration ::
  "jsnum \<Rightarrow> dialect \<Rightarrow> dialect_outbox option \<Rightarrow> (schema_object \<Rightarrow> js_error + string list) \<Rightarrow> js_error + migration" where
  "outboxMigration version d strategy emitSchemaObject =
     rbind (outboxTableDdl d strategy) (\<lambda>table.
     rbind (outboxPendingIndexDdl d strategy emitSchemaObject) (\<lambda>index.
       Inr \<lparr>mi_version = version, mi_name = ''create_zmdb_outbox'', mi_up = table @ ''; '' @ index,
         mi_down = ''DROP TABLE '' @ quoteIdentifier d OUTBOX_TABLE\<rparr>))"

section \<open>The migration of the PostgreSQL package\<close>

definition POSTGRES_OUTBOX_TABLE :: string where
  "POSTGRES_OUTBOX_TABLE = ''zmdb_outbox''"

definition po_quoteIdentifier :: "string \<Rightarrow> string" where
  "po_quoteIdentifier identifier = CHR 0x22 # replace_all [CHR 0x22] [CHR 0x22, CHR 0x22] identifier @ [CHR 0x22]"

definition postgresOutboxTableDdl :: string where
  "postgresOutboxTableDdl =
     (let table = po_quoteIdentifier POSTGRES_OUTBOX_TABLE; column = po_quoteIdentifier in
      ''CREATE TABLE '' @ table @ '' ('' @
      column ''id'' @ '' TEXT PRIMARY KEY, '' @
      column ''topic'' @ '' TEXT NOT NULL, '' @
      column ''payload'' @ '' TEXT NOT NULL, '' @
      column ''status'' @ '' TEXT NOT NULL DEFAULT '' @ sq_quoted ''pending'' @ '', '' @
      column ''attempts'' @ '' INTEGER NOT NULL DEFAULT 0, '' @
      column ''created_at'' @ '' TIMESTAMPTZ NOT NULL DEFAULT CURRENT_TIMESTAMP, '' @
      column ''lease_owner'' @ '' TEXT NOT NULL DEFAULT '' @ sq_quoted [] @ '', '' @
      column ''lease_until'' @ '' TIMESTAMPTZ NOT NULL DEFAULT '' @ sq_quoted ''1970-01-01T00:00:00.000Z'' @ '', '' @
      column ''delivered_at'' @ '' TIMESTAMPTZ, '' @
      column ''last_error'' @ '' TEXT)'')"

definition postgresOutboxPendingIndexDdl :: string where
  "postgresOutboxPendingIndexDdl =
     ''CREATE INDEX '' @ po_quoteIdentifier ''zmdb_outbox_pending'' @ '' ON '' @ po_quoteIdentifier POSTGRES_OUTBOX_TABLE @ '' '' @
     ''('' @ po_quoteIdentifier ''status'' @ '', '' @ po_quoteIdentifier ''lease_until'' @ '', '' @ po_quoteIdentifier ''created_at'' @ '') '' @
     ''WHERE status = '' @ sq_quoted ''pending''"

definition postgresOutboxMigration :: "jsnum \<Rightarrow> migration" where
  "postgresOutboxMigration version = \<lparr>mi_version = version, mi_name = ''create_zmdb_outbox'',
     mi_up = postgresOutboxTableDdl @ ''; '' @ postgresOutboxPendingIndexDdl,
     mi_down = ''DROP TABLE '' @ po_quoteIdentifier POSTGRES_OUTBOX_TABLE\<rparr>"

text \<open>Both write the same migration.\<close>

lemma postgres_quotes_alike: "quoteIdentifier postgres = po_quoteIdentifier" "pg_quoteIdentifier = po_quoteIdentifier"
  by (simp_all add: fun_eq_iff quoteIdentifier_def po_quoteIdentifier_def pg_quoteIdentifier_def postgres_def postgresTraits_def Let_def)

lemma postgres_table_alike: "outboxTableDdl postgres (Some postgres_outbox) = Inr postgresOutboxTableDdl"
  by (simp add: outboxTableDdl_def outboxDialect_def postgresOutboxTableDdl_def postgres_quotes_alike Let_def)
    (simp add: postgres_outbox_def postgres_def postgresTraits_def OUTBOX_TABLE_def POSTGRES_OUTBOX_TABLE_def)

lemma postgres_index_alike:
  "outboxPendingIndexDdl postgres (Some postgres_outbox) (pg_schemaObjectStatements tm) = Inr postgresOutboxPendingIndexDdl"
  by (simp add: outboxPendingIndexDdl_def outboxDialect_def one_statement_def pg_createIndexDdl_def pg_indexMethod_def
      pg_indexOptions_def postgres_quotes_alike)
    (simp add: postgres_outbox_def OUTBOX_TABLE_def POSTGRES_OUTBOX_TABLE_def postgresOutboxPendingIndexDdl_def)

lemma postgres_migration_alike:
  "outboxMigration version postgres (Some postgres_outbox) (pg_schemaObjectStatements tm) = Inr (postgresOutboxMigration version)"
  by (simp add: outboxMigration_def postgres_table_alike postgres_index_alike postgresOutboxMigration_def postgres_quotes_alike
      OUTBOX_TABLE_def POSTGRES_OUTBOX_TABLE_def)

end
