(* ===== verification/OutboxProperties.thy ===== *)
theory OutboxProperties
  imports OutboxTable OutboxPolling OutboxMigration
begin

section \<open>Properties of the outbox dispatcher\<close>

subsection \<open>A driver for the witnesses\<close>










subsection \<open>What becomes of a row\<close>






subsection \<open>A whole pass\<close>



subsection \<open>Dispatchers side by side\<close>







subsection \<open>The life of a dispatcher\<close>

text \<open>
  C12: A dispatcher that could be created never runs two polls at once nor arms two timers, whatever is called
  and however passes end; it waits at most its ceiling, which a timer can hold; and once it is stopped no
  timer is left and no pass starts, so that shutting down waits for the passes already running only.
\<close>
theorem dispatcher_polls_alone:
  assumes "createOutboxDispatcher opts = Inr di" and "poll_reachable di s"
  shows "pl_polled s + (if pl_timer s = None then 0 else 1) \<le> 1 \<and>
    (\<forall>delay. pl_timer s = Some delay \<longrightarrow> 0 \<le> delay \<and> delay \<le> di_maxIdleMs di \<and> delay \<le> OUTBOX_MAX_TIMER_MS) \<and>
    (pl_stopped s \<longrightarrow> pl_timer s = None \<and>
      (\<forall>s'. poll_step di s s' \<longrightarrow> pl_stopped s' \<and> pl_polled s' \<le> pl_polled s \<and> pl_called s' \<le> pl_called s))"
  using dispatcher_idle_bounds [OF assms(1)] poll_reachable_sound [OF _ _ assms(2)] stopped_step
  by (fastforce simp: polling_sound_def)

definition default_options :: dispatcher_options where
  "default_options = \<lparr>do_batch = None, do_leaseMs = None, do_idleMs = None, do_maxIdleMs = None, do_maxAttempts = None, do_backoffMs = None\<rparr>"

definition default_dispatcher :: dispatcher where
  "default_dispatcher = \<lparr>di_batch = 100, di_leaseMs = 30000, di_idleMs = 1000, di_maxIdleMs = 30000, di_maxAttempts = 10,
     di_backoffMs = default_backoff\<rparr>"

lemma default_created: "createOutboxDispatcher default_options = Inr default_dispatcher"
  by (simp add: createOutboxDispatcher_def default_options_def default_dispatcher_def timerDelay_def outbox_positive_def
      OUTBOX_MAX_TIMER_MS_def safe_limit_def num_int_def)

theorem dispatcher_polls_alone_witness:
  "\<exists>s. poll_reachable default_dispatcher s \<and> pl_timer s = Some 2000 \<and> pl_polled s = 0 \<and> 2000 \<le> OUTBOX_MAX_TIMER_MS"
proof -
  let ?s1 = "poll_start default_dispatcher (new_polling default_dispatcher)"
  let ?s2 = "timer_fires ?s1" and ?none = "Some \<lparr>pr_claimed = 0, pr_delivered = 0, pr_failed = 0\<rparr>"
  let ?s3 = "pass_settles default_dispatcher ?none ?s2"
  have 2: "pl_timer ?s1 = Some 1000" "pl_polled ?s2 = 1" "pl_timer ?s3 = Some 2000" by code_simp+
  have r1: "poll_reachable default_dispatcher ?s1" by (rule poll_reachable.step [OF poll_reachable.created poll_step.start])
  have r2: "poll_reachable default_dispatcher ?s2" by (rule poll_reachable.step [OF r1 poll_step.fire [OF 2(1)]])
  have r3: "poll_reachable default_dispatcher ?s3"
    by (rule poll_reachable.step [OF r2 poll_step.settle]) (simp_all add: 2(2))
  from dispatcher_polls_alone [OF default_created r3] r3 2(3) show ?thesis by (auto intro!: exI [of _ ?s3])
qed

subsection \<open>The migration\<close>

text \<open>
  The migration the PostgreSQL package writes out is the one the ORM derives from the PostgreSQL dialect, its
  outbox strategy and its index emission, for every version.
\<close>
theorem postgres_outbox_migrations_agree:
  "outboxMigration version postgres (Some postgres_outbox) (pg_schemaObjectStatements tm) = Inr (postgresOutboxMigration version)"
  by (rule postgres_migration_alike)

end
