(* ===== verification/Spec2Isabelle.thy ===== *)
theory Spec2Isabelle
  imports SqlProperties WireProperties CronProperties CacheProperties JobProperties ServiceProperties
    ScheduleProperties RunnerProperties PostgresProperties RepositoryProperties TransactionProperties OutboxProperties
begin

text \<open>
  A verification library for zmdb: a TypeScript monorepo (\<open>packages/\<close>) of a schema-driven SQL query
  builder and ORM, its background jobs, its transports and its wire codecs.

  Parts and theories. Every theory opens with the source it models; a definition has the name of the
  function or type it translates, unless that name is taken in HOL.

  \<^item> Shared vocabulary: \<open>Prelude\<close> (thrown errors as \<open>js_error + 'a\<close>, the string and array methods of the
    language, association lists for \<open>Map\<close>), \<open>Numbers\<close> (a number as the guards of the code see it).
  \<^item> SQL (\<open>packages/sql\<close> and the six database packages): \<open>Dialect\<close> and \<open>Dialects\<close> (the dialect objects),
    \<open>Quoting\<close>, \<open>Query\<close> (values, compiled queries, the rendering state), \<open>Clauses\<close> (the shared clause
    renderers), \<open>QueryBinding\<close> (names of a declared schema), \<open>SelectBuilder\<close>, \<open>Builders\<close> (writes,
    upserts, expressions). \<open>SqlText\<close> is the database's reading of a text, \<open>Numbering\<close>,
    \<open>SelectNumbering\<close> and \<open>WriteNumbering\<close> the interfaces (locales) that tie a text to its parameters,
    \<open>SelectScope\<close> the fluent methods as steps and the scoping invariant. A dialect is data here: the
    builders take it as an argument, as in the code, and the interfaces are interpreted on the
    PostgreSQL and CockroachDB objects. \<open>Comments\<close> is the block a driver appends to a text.
  \<^item> Wire format (\<open>packages/protobuf/src/wire.ts\<close>): \<open>Wire\<close> and \<open>WireCodec\<close>.
  \<^item> Result cache of the ORM (\<open>packages/orm/src/cache\<close>, and its client in \<open>orm/src/index.ts\<close>): \<open>Cache\<close>,
    \<open>CacheKey\<close>, \<open>CachedReads\<close>.
  \<^item> Jobs (\<open>packages/jobs\<close>): \<open>Calendar\<close>, \<open>Cron\<close>, \<open>CronSpec\<close> (cron expressions and the next instant),
    \<open>JobQueue\<close>, \<open>JobWorker\<close> (the queue and its worker), \<open>JobWorkerSteps\<close>, \<open>JobWorkerSafety\<close>,
    \<open>JobSettlements\<close> (its steps and invariants), \<open>Lease\<close> (lease sessions), \<open>Schedule\<close>, \<open>Scheduler\<close>,
    \<open>SchedulerSafety\<close> (the application's scheduler). A scheduler asks cron plans for instants and lease
    sessions for permission.
  \<^item> Single services: \<open>Matcher\<close> (NATS subjects), \<open>StateTransitions\<close> (entity state machines).
  \<^item> Migrations, planning (\<open>packages/migrations/src/index.ts\<close>): \<open>Snapshot\<close> (snapshots of a schema),
    \<open>MigrationDiff\<close> (the planner and its inverses), \<open>MigrationEffect\<close> (an abstract database and what a
    change does to it, the specification), \<open>MigrationOrder\<close> (the order of new tables), \<open>MigrationPlan\<close>,
    \<open>MigrationPhases\<close>, \<open>MigrationStages\<close>, \<open>MigrationCreates\<close>, \<open>MigrationReach\<close> and \<open>MigrationReached\<close>
    (the state after each phase of a plan), \<open>MigrationProperties\<close>.
  \<^item> Migrations, running (\<open>packages/migrations/src/runner.ts\<close>): \<open>Effects\<close> (awaited calls as functions of the
    world), \<open>MigrationRunner\<close> (\<open>up\<close>, \<open>down\<close>, \<open>rollback\<close> over any connection), \<open>MigrationLedger\<close> (the contract of a
    connection and what a run leaves in the ledger), \<open>RunnerProperties\<close>.
  \<^item> PostgreSQL DDL (\<open>packages/postgres/src/migrations.ts\<close>): \<open>PostgresDdl\<close>, \<open>PostgresObjects\<close>,
    \<open>PostgresProperties\<close>.

  The theorems a reader should know are in the theories named \<open>...Properties\<close>, each under a
  sentence that states it, with a concrete instance where it has hypotheses. They show that

  \<^item> the parameter markers of a compiled SELECT, INSERT, UPDATE and DELETE are exactly 1 to n in the
    order of the parameter array, quoting cannot be escaped, operators are single tokens, and the
    queries reachable by the fluent methods are well scoped;
  \<^item> the readers of the wire format undo its writers and never leave their input;
  \<^item> the cron search returns the least matching instant, the scheduler never overlaps runs, the worker
    respects its bounds and decides a claim at most once, a lease is not leaked;
  \<^item> a cache hit is fresh and the value that was set, the store refines an abstract LRU cache, and keys
    are injective;
  \<^item> a migration plan takes a database from one snapshot to the next and its inverse takes it back, a run
    applies exactly the pending migrations, and a run that fails keeps a prefix of them.

  Asynchronous code. A method that awaits is cut at its awaits: one function per segment between two of
  them, over an explicit record of the object's variables, and an \<open>inductive\<close> step relation that
  runs the segments in any order the promises allow. Stores, clocks, handlers and random sources are
  the environment: their answers are arguments, what is assumed of them is a premise of the step.

  Bounds and fuel. Recursion is structural or has a measure. The loops of the cron search run over
  bounded lists of dates (\<open>nextAfter\<close> looks eight years ahead, as the code does) and the varint
  reader stops after ten bytes, so neither takes fuel. Three \<open>while\<close> loops take a bound that is shown to be
  enough: the order of new tables (\<open>order_loop\<close>, one turn per table), the downward run (\<open>down\<close>, one turn more than
  the ledger has rows) and the search for a dollar quote (\<open>dollar_loop\<close>, one turn more than the body is long).

  Representation. Strings are lists of code units below 256, numbers are exact (\<open>Numbers\<close>), an object
  with identity is a reference into a heap where sharing matters (\<open>CachedReads\<close>) and a value
  elsewhere. Frozen objects are values. An em dash in a message of the code is written as a hyphen.

  Not modelled: database drivers, brokers, HTTP clients, AI and MCP adapters (I/O over third-party
  clients); the schema compiler (it walks the TypeScript compiler's AST, which is not in the
  repository); the command line tool and documentation site (process and file glue). Not yet
  modelled: the relations, transactions and outbox of \<open>packages/orm\<close>, introspection and the migration files of the other
  dialects, the HTTP pipeline and contract of \<open>packages/web\<close>, the schema IR and the validators.
\<close>

end
